(* ===== verification/Prelude.thy ===== *)
theory Prelude
  imports Main "HOL-Library.Word" "HOL-Library.Multiset"
begin

unbundle bit_operations_syntax

text \<open>
  The shared base of the development: the machine types of the C sources, byte
  buffers with pointer arithmetic written as \<^const>\<open>drop\<close>, \<open>memcpy\<close> and \<open>memset\<close>
  on buffers, NUL-terminated character arrays, and the generic list lemmas the
  component theories use. The collections \<open>buffer_simps\<close> and \<open>limits\<close> are filled here
  and in the component theories and carry most of the layout proofs.
\<close>

named_theorems buffer_simps \<open>reads and writes of byte buffers at fixed offsets\<close>
named_theorems limits \<open>numeric limits of the C types\<close>

section \<open>Machine types\<close>

type_synonym u8 = "8 word"
type_synonym u16 = "16 word"
type_synonym u32 = "32 word"
type_synonym u64 = "64 word"
type_synonym bytes = "u8 list"
type_synonym addr = nat

definition UINT64_MAX :: nat where
  [limits]: "UINT64_MAX = 18446744073709551615"

definition INT64_MAX :: nat where
  [limits]: "INT64_MAX = 9223372036854775807"

definition SSIZE_MAX :: nat where
  [limits]: "SSIZE_MAX = 9223372036854775807"

lemma u64_less_succ:
  fixes n :: u64
  assumes "n \<noteq> - 1"
  shows "n < n + 1"
proof -
  have "unat n \<noteq> unat (- 1 :: u64)" using assms by (metis word_eq_iff_unsigned)
  moreover have "unat n < 2 ^ LENGTH(64)" by (rule unsigned_less)
  ultimately have "Suc (unat n) < 2 ^ 64"
    by (simp add: unsigned_minus_1_eq_mask mask_eq_exp_minus_1)
  then show ?thesis by (simp add: word_less_nat_alt unat_word_ariths)
qed

text \<open>
  The check of several libraries that two buffers do not overlap. Address 0 is the null pointer;
  the sums are checked against the pointer range.
\<close>

definition ranges_overlap :: "addr \<Rightarrow> nat \<Rightarrow> addr \<Rightarrow> nat \<Rightarrow> bool" where
  "ranges_overlap first first_len second second_len =
     (if first = 0 \<or> second = 0 \<or> first_len = 0 \<or> second_len = 0 then False
      else if UINT64_MAX - first < first_len \<or> UINT64_MAX - second < second_len then True
      else first < second + second_len \<and> second < first + first_len)"

section \<open>Byte buffers\<close>

text \<open>
  A buffer is the list of its bytes. The pointer \<open>p + k\<close> into a buffer \<open>bs\<close> is
  \<^term>\<open>drop k bs\<close>. \<open>memwrite buf off src\<close> is \<open>memcpy(buf + off, src, length src)\<close>.
\<close>

definition memwrite :: "bytes \<Rightarrow> nat \<Rightarrow> bytes \<Rightarrow> bytes" where
  "memwrite buf off src = take off buf @ src @ drop (off + length src) buf"

definition zeros :: "nat \<Rightarrow> bytes" where
  "zeros n = replicate n 0"

definition bytes_at :: "nat \<Rightarrow> nat \<Rightarrow> bytes \<Rightarrow> bytes" where
  "bytes_at off len bs = take len (drop off bs)"

text \<open>\<open>memcmp(a, b, n) == 0\<close> on two buffers of at least \<open>n\<close> bytes.\<close>

definition memeq :: "bytes \<Rightarrow> bytes \<Rightarrow> nat \<Rightarrow> bool" where
  "memeq a b n \<longleftrightarrow> take n a = take n b"

lemma length_zeros [simp]: "length (zeros n) = n"
  by (simp add: zeros_def)

lemma take_zeros [simp]: "take k (zeros n) = zeros (min k n)"
  by (simp add: zeros_def)

lemma drop_zeros [simp]: "drop k (zeros n) = zeros (n - k)"
  by (simp add: zeros_def)

lemma zeros_0 [simp]: "zeros 0 = []"
  by (simp add: zeros_def)

lemma length_memwrite [simp]:
  "off + length src \<le> length buf \<Longrightarrow> length (memwrite buf off src) = length buf"
  by (simp add: memwrite_def)

lemma memwrite_Nil [simp]: "memwrite buf off [] = buf"
  by (simp add: memwrite_def)

lemma memwrite_front [buffer_simps]: "memwrite rest 0 src = src @ drop (length src) rest"
  by (simp add: memwrite_def)

text \<open>
  Writing the next field directly behind the part that is already written: the
  step by which a header is assembled field by field.
\<close>

lemma memwrite_behind [buffer_simps]:
  "length before = off \<Longrightarrow> memwrite (before @ rest) off src = before @ src @ drop (length src) rest"
  by (auto simp: memwrite_def)

text \<open>A message assembled from consecutive fields.\<close>

fun write_fields :: "bytes \<Rightarrow> nat \<Rightarrow> bytes list \<Rightarrow> bytes" where
  "write_fields w off [] = w"
| "write_fields w off (f # fs) = write_fields (memwrite w off f) (off + length f) fs"

lemma write_fields_eq:
  "off \<le> length w \<Longrightarrow> off + length (concat fs) \<le> length w \<Longrightarrow>
    write_fields w off fs = take off w @ concat fs @ drop (off + length (concat fs)) w"
proof (induction fs arbitrary: w off)
  case (Cons f fs)
  then have "write_fields w off (f # fs) = take (off + length f) (memwrite w off f) @
      concat fs @ drop (off + length f + length (concat fs)) (memwrite w off f)"
    by (simp del: length_concat)
  also have "take (off + length f) (memwrite w off f) = take off w @ f"
    using Cons.prems by (simp add: memwrite_def)
  also have "drop (off + length f + length (concat fs)) (memwrite w off f) =
      drop (off + length f + length (concat fs)) w"
    using Cons.prems by (simp add: memwrite_def ac_simps)
  finally show ?case by (simp add: add.assoc)
qed simp

text \<open>The consecutive pieces of a message, and what they add up to.\<close>

fun slices :: "bytes \<Rightarrow> nat \<Rightarrow> nat list \<Rightarrow> bytes list" where
  "slices w off [] = []"
| "slices w off (n # ns) = take n (drop off w) # slices w (off + n) ns"

lemma concat_slices: "concat (slices w off ns) = take (sum_list ns) (drop off w)"
  by (induction ns arbitrary: off) (simp_all add: take_add ac_simps)

lemma memeq_self [simp]: "memeq a a n"
  by (simp add: memeq_def)

lemma memeq_full: "length a = n \<Longrightarrow> length b = n \<Longrightarrow> memeq a b n \<longleftrightarrow> a = b"
  by (simp add: memeq_def)

lemma drop_append_exact [buffer_simps]: "length xs = n \<Longrightarrow> drop n (xs @ ys) = ys"
  by simp

lemma take_append_exact [buffer_simps]: "length xs = n \<Longrightarrow> take n (xs @ ys) = xs"
  by simp

section \<open>Character arrays\<close>

text \<open>
  \<open>c_strnlen xs n\<close> counts the bytes before the first NUL, looking at no more than
  \<open>n\<close> of them. \<open>c_str xs n\<close> is the string those bytes spell, and \<open>strncmp_eq\<close> is the
  outcome \<open>strncmp(a, b, n) == 0\<close>, which compares up to the first NUL or \<open>n\<close> bytes.
\<close>

definition c_str :: "bytes \<Rightarrow> nat \<Rightarrow> bytes" where
  "c_str xs n = takeWhile (\<lambda>c. c \<noteq> 0) (take n xs)"

definition c_strnlen :: "bytes \<Rightarrow> nat \<Rightarrow> nat" where
  "c_strnlen xs n = length (c_str xs n)"

definition strncmp_eq :: "bytes \<Rightarrow> bytes \<Rightarrow> nat \<Rightarrow> bool" where
  "strncmp_eq a b n \<longleftrightarrow> c_str a n = c_str b n"

lemma c_strnlen_le: "c_strnlen xs n \<le> n"
  unfolding c_strnlen_def c_str_def
  by (rule order_trans [OF length_takeWhile_le]) simp

lemma c_str_no_nul: "0 \<notin> set (c_str xs n)"
  by (auto simp: c_str_def dest: set_takeWhileD)

lemma c_str_padded:
  "0 \<notin> set s \<Longrightarrow> length s < n \<Longrightarrow> c_str (s @ zeros (n - length s)) n = s"
proof -
  assume s: "0 \<notin> set s" and n: "length s < n"
  obtain k where "n - length s = Suc k" using n by (metis Suc_diff_Suc)
  then have "take n (s @ zeros (n - length s)) = s @ 0 # zeros k"
    using n by (simp add: zeros_def)
  moreover have "takeWhile (\<lambda>c. c \<noteq> 0) (s @ 0 # zeros k) = s"
    using s by (subst takeWhile_append2) (auto intro: ccontr)
  ultimately show ?thesis by (simp add: c_str_def)
qed

lemma c_str_whole: "0 \<notin> set s \<Longrightarrow> length s \<le> n \<Longrightarrow> c_str s n = s"
  by (auto simp: c_str_def takeWhile_eq_all_conv)

section \<open>Lists\<close>

lemma nth_update_distinct:
  "i \<noteq> j \<Longrightarrow> (xs[i := x]) ! j = xs ! j"
  by simp

lemma take_Suc_last: "n < length xs \<Longrightarrow> take (Suc n) xs = take n xs @ [xs ! n]"
  by (rule take_Suc_conv_app_nth)

lemma drop_append_drop:
  "k \<le> length xs \<Longrightarrow> drop j (drop k xs @ ys) = drop (j + k) (xs @ ys)"
  by (simp add: add.commute)

lemma take_append_take: "take n (take n xs @ ys) = take n (xs @ ys)"
  by (cases "n \<le> length xs") simp_all

text \<open>Overwriting index \<open>i\<close> with the last element and shortening by one: array deletion.\<close>

lemma mset_swap_remove:
  assumes "i < length xs"
  shows "mset (butlast (xs[i := last xs])) = mset xs - {# xs ! i #}"
proof (cases "i = length xs - 1")
  case True
  from assms have ne: "xs \<noteq> []" by auto
  with True have "xs ! i = last xs" by (simp add: last_conv_nth)
  moreover from this have "xs[i := last xs] = xs" by (metis list_update_id)
  ultimately show ?thesis using ne
    by (metis add_diff_cancel_right' append_butlast_last_id mset.simps(1,2) mset_append)
next
  case False
  with assms have i: "i < length (butlast xs)" by simp
  from assms have ne: "xs \<noteq> []" by auto
  have xs: "xs = butlast xs @ [last xs]" using ne by simp
  have "butlast (xs[i := last xs]) = (butlast xs)[i := last xs]"
    using i by (subst xs) (simp add: list_update_append del: append_butlast_last_id)
  moreover have "xs ! i = butlast xs ! i" using i by (simp add: nth_butlast)
  moreover have "mset xs = mset (butlast xs) + {# last xs #}"
    by (metis xs mset.simps(1,2) mset_append)
  moreover have "butlast xs ! i \<in># mset (butlast xs)" using i by simp
  ultimately show ?thesis using i by (simp add: mset_update)
qed

end
