(* ===== verification/ByteOrder.thy ===== *)
theory ByteOrder
  imports Prelude
begin

text \<open>
  Big-endian integers on the wire. Every wire format of the system (event headers,
  epoch records, audit blocks, package indexes) carries its own copy of the same
  load and store helpers; the definitions here translate those helpers, and the
  locale \<open>be_codec\<close> states the contract the formats rely on: a fixed width and a
  two-sided inverse. It is interpreted for the 16, 32 and 64 bit helpers.
\<close>

section \<open>The helpers\<close>

text \<open>
  A store helper is modelled by the bytes it writes at \<open>output[0], output[1], ...\<close>;
  a load helper reads from the list that starts at its pointer argument.
\<close>

definition store_u16_be :: "u16 \<Rightarrow> bytes" where
  "store_u16_be value = [ucast (drop_bit 8 value), ucast value]"

definition store_u32_be :: "u32 \<Rightarrow> bytes" where
  "store_u32_be value =
     [ucast (drop_bit 24 value), ucast (drop_bit 16 value), ucast (drop_bit 8 value), ucast value]"

text \<open>The loop runs from index 7 down to 0, so each iteration writes in front of the last.\<close>

fun store_u64_be_loop :: "nat \<Rightarrow> u64 \<Rightarrow> bytes \<Rightarrow> bytes" where
  "store_u64_be_loop 0 value written = written"
| "store_u64_be_loop (Suc i) value written =
     store_u64_be_loop i (drop_bit 8 value) (ucast value # written)"

definition store_u64_be :: "u64 \<Rightarrow> bytes" where
  "store_u64_be value = store_u64_be_loop 8 value []"

definition load_u16_be :: "bytes \<Rightarrow> u16" where
  "load_u16_be input = push_bit 8 (ucast (input ! 0)) OR ucast (input ! 1)"

definition load_u32_be :: "bytes \<Rightarrow> u32" where
  "load_u32_be input =
     push_bit 24 (ucast (input ! 0)) OR push_bit 16 (ucast (input ! 1))
       OR push_bit 8 (ucast (input ! 2)) OR ucast (input ! 3)"

fun load_u64_be_loop :: "nat \<Rightarrow> u64 \<Rightarrow> bytes \<Rightarrow> u64" where
  "load_u64_be_loop 0 value input = value"
| "load_u64_be_loop (Suc n) value input =
     load_u64_be_loop n (push_bit 8 value OR ucast (hd input)) (tl input)"

definition load_u64_be :: "bytes \<Rightarrow> u64" where
  "load_u64_be input = load_u64_be_loop 8 0 input"

text \<open>The package index composes its 64 bit load from two 32 bit loads.\<close>

definition read_u64_be :: "bytes \<Rightarrow> u64" where
  "read_u64_be input =
     push_bit 32 (ucast (load_u32_be input)) OR ucast (load_u32_be (drop 4 input))"

section \<open>The contract of a fixed-width codec\<close>

locale be_codec =
  fixes enc :: "'v \<Rightarrow> bytes"
    and dec :: "bytes \<Rightarrow> 'v"
    and width :: nat
  assumes enc_width: "length (enc v) = width"
    and dec_enc: "dec (enc v @ rest) = v"
    and enc_dec: "width \<le> length bs \<Longrightarrow> enc (dec bs) = take width bs"
begin

lemma dec_enc_exact: "dec (enc v) = v"
  using dec_enc [of v "[]"] by simp

lemma enc_inject: "enc v = enc w \<longleftrightarrow> v = w"
  by (metis dec_enc_exact)

text \<open>Reading a field out of a message in which it follows the bytes \<open>pre\<close>.\<close>

lemma dec_field: "length pre = off \<Longrightarrow> dec (drop off (pre @ enc v @ rest)) = v"
  by (simp add: dec_enc)

lemma dec_memwrite:
  "off + width \<le> length buf \<Longrightarrow> dec (drop off (memwrite buf off (enc v))) = v"
  by (simp add: memwrite_def dec_enc enc_width)

lemma dec_prefix: "width \<le> length bs \<Longrightarrow> dec (bs @ rest) = dec bs"
  by (metis append_take_drop_id append_assoc dec_enc enc_dec)

lemma dec_inject:
  "width \<le> length bs \<Longrightarrow> width \<le> length cs \<Longrightarrow> dec bs = dec cs \<longleftrightarrow> take width bs = take width cs"
  by (metis append_take_drop_id dec_enc enc_dec)

end

section \<open>The reference reading of big-endian bytes\<close>

text \<open>
  \<open>be_bytes k v\<close> lists the \<open>k\<close> low bytes of \<open>v\<close>, most significant first, and \<open>be_val\<close>
  reads a byte list of any length. Both are described bit by bit, which gives the
  two inverse laws at every width at once.
\<close>

definition be_bytes :: "nat \<Rightarrow> 'a::len word \<Rightarrow> bytes" where
  "be_bytes k v = rev (map (\<lambda>i. ucast (drop_bit (8 * i) v)) [0..<k])"

definition be_val :: "bytes \<Rightarrow> 'a::len word" where
  "be_val bs = foldl (\<lambda>v b. push_bit 8 v OR ucast b) 0 bs"

lemma length_be_bytes [simp]: "length (be_bytes k v) = k"
  by (simp add: be_bytes_def)

lemma be_val_snoc [simp]: "be_val (bs @ [b]) = push_bit 8 (be_val bs) OR ucast b"
  by (simp add: be_val_def)

lemma be_val_Nil [simp]: "be_val [] = 0"
  by (simp add: be_val_def)

lemma bit_be_val:
  "bit (be_val bs :: 'a::len word) n \<longleftrightarrow>
     n < LENGTH('a) \<and> n div 8 < length bs \<and> bit (rev bs ! (n div 8)) (n mod 8)"
proof (induction bs arbitrary: n rule: rev_induct)
  case Nil
  then show ?case by simp
next
  case (snoc b bs)
  show ?case
  proof (cases "n < 8")
    case True
    then show ?thesis by (auto simp: bit_simps)
  next
    case False
    then obtain m where n: "n = 8 + m" using le_Suc_ex by (metis not_le)
    have "(8 + m) div 8 = Suc (m div 8)" by simp
    moreover have "\<not> bit b n" using False bit_imp_le_length [of b n] by auto
    ultimately show ?thesis by (auto simp: n bit_simps snoc)
  qed
qed

lemma nth_rev_be_bytes: "i < k \<Longrightarrow> rev (be_bytes k v) ! i = ucast (drop_bit (8 * i) v)"
  by (simp add: be_bytes_def)

lemma be_val_be_bytes:
  fixes v :: "'a::len word"
  assumes "LENGTH('a) = 8 * k"
  shows "be_val (be_bytes k v) = v"
proof (rule bit_word_eqI)
  fix n assume n: "n < LENGTH('a)"
  then have "n div 8 < k" using assms by linarith
  then show "bit (be_val (be_bytes k v) :: 'a word) n = bit v n"
    using n by (simp add: bit_be_val nth_rev_be_bytes bit_simps)
qed

lemma be_bytes_be_val:
  assumes "LENGTH('a::len) = 8 * k" and "length bs = k"
  shows "be_bytes k (be_val bs :: 'a word) = bs"
proof -
  have "rev (be_bytes k (be_val bs :: 'a word)) = rev bs"
  proof (rule nth_equalityI)
    fix i assume "i < length (rev (be_bytes k (be_val bs :: 'a word)))"
    then have i: "i < k" by simp
    show "rev (be_bytes k (be_val bs :: 'a word)) ! i = rev bs ! i"
    proof (rule bit_word_eqI)
      fix n :: nat assume "n < LENGTH(8)"
      then have "n < 8" by simp
      moreover from this have "8 * i + n < LENGTH('a)" using assms i by simp
      ultimately show "bit (rev (be_bytes k (be_val bs :: 'a word)) ! i) n = bit (rev bs ! i) n"
        using i assms by (simp add: nth_rev_be_bytes bit_simps bit_be_val)
    qed
  qed (simp add: assms)
  then show ?thesis by simp
qed

lemma bit_be_val_append:
  "be_val (xs @ ys) = push_bit (8 * length ys) (be_val xs) OR (be_val ys :: 'a::len word)"
  by (induction ys rule: rev_induct)
    (simp_all add: be_val_def push_bit_or or.assoc flip: push_bit_push_bit)

section \<open>The helpers satisfy the contract\<close>

lemma store_u16_be_eq: "store_u16_be v = be_bytes 2 v"
  by (simp add: store_u16_be_def be_bytes_def eval_nat_numeral)

lemma store_u32_be_eq: "store_u32_be v = be_bytes 4 v"
  by (simp add: store_u32_be_def be_bytes_def eval_nat_numeral)

lemma store_u64_be_eq: "store_u64_be v = be_bytes 8 v"
  by (simp add: store_u64_be_def be_bytes_def eval_nat_numeral)

lemma load_u16_be_eq: "2 \<le> length bs \<Longrightarrow> load_u16_be bs = be_val (take 2 bs)"
  by (cases bs; cases "tl bs") (auto simp: load_u16_be_def be_val_def)

lemma take_4_nth: "4 \<le> length bs \<Longrightarrow> take 4 bs = [bs ! 0, bs ! 1, bs ! 2, bs ! 3]"
  by (rule nth_equalityI) (auto simp: less_Suc_eq eval_nat_numeral)

lemma load_u32_be_eq: "4 \<le> length bs \<Longrightarrow> load_u32_be bs = be_val (take 4 bs)"
  by (simp add: load_u32_be_def be_val_def take_4_nth push_bit_or or.assoc)

lemma load_u64_be_loop_eq:
  "n \<le> length bs \<Longrightarrow>
    load_u64_be_loop n v bs = foldl (\<lambda>v b. push_bit 8 v OR ucast b) v (take n bs)"
proof (induction n arbitrary: v bs)
  case (Suc n)
  then obtain b cs where "bs = b # cs" by (cases bs) auto
  with Suc show ?case by simp
qed simp

lemma load_u64_be_eq: "8 \<le> length bs \<Longrightarrow> load_u64_be bs = be_val (take 8 bs)"
  by (simp add: load_u64_be_def load_u64_be_loop_eq be_val_def)

interpretation be16: be_codec store_u16_be load_u16_be 2
  by unfold_locales
    (simp_all add: store_u16_be_eq load_u16_be_eq be_val_be_bytes be_bytes_be_val)

interpretation be32: be_codec store_u32_be load_u32_be 4
  by unfold_locales
    (simp_all add: store_u32_be_eq load_u32_be_eq be_val_be_bytes be_bytes_be_val)

interpretation be64: be_codec store_u64_be load_u64_be 8
  by unfold_locales
    (simp_all add: store_u64_be_eq load_u64_be_eq be_val_be_bytes be_bytes_be_val)

lemmas [simp] = be16.enc_width be32.enc_width be64.enc_width
lemmas [simp] = be16.dec_enc be32.dec_enc be64.dec_enc
  be16.dec_enc_exact be32.dec_enc_exact be64.dec_enc_exact

text \<open>The composed 64 bit load of the package index reads the same number as the loop.\<close>

lemma ucast_be_val:
  "length bs \<le> 4 \<Longrightarrow> ucast (be_val bs :: u32) = (be_val bs :: u64)"
  by (rule bit_word_eqI) (auto simp: bit_simps bit_be_val)

lemma read_u64_be_eq: "8 \<le> length bs \<Longrightarrow> read_u64_be bs = load_u64_be bs"
proof -
  assume len: "8 \<le> length bs"
  have "take 8 bs = take 4 bs @ take 4 (drop 4 bs)"
    using take_add [of 4 4 bs] by simp
  then show ?thesis using len
    by (simp add: read_u64_be_def load_u32_be_eq load_u64_be_eq ucast_be_val bit_be_val_append)
qed

end
