(* ===== verification/RingFifo.thy ===== *)
theory RingFifo
  imports Prelude
begin

text \<open>
  Circular buffers. A subscriber queue is an array with a head index and a fill
  count; an element is appended at \<open>(head + count) % capacity\<close> and removed by
  advancing the head. \<open>ring_list\<close> is the list such an array stands for. The locale
  \<open>bounded_fifo\<close> is the contract of a queue of bounded capacity, stated over that
  list, with what clients derive from it: the content after any run of appends
  under each of the two overflow rules (drop the oldest, reject the newest).
\<close>

section \<open>The list behind a circular array\<close>

definition ring_list :: "'a list \<Rightarrow> nat \<Rightarrow> nat \<Rightarrow> 'a list" where
  "ring_list slots head fill = map (\<lambda>i. slots ! ((head + i) mod length slots)) [0..<fill]"

lemma length_ring_list [simp]: "length (ring_list slots head fill) = fill"
  by (simp add: ring_list_def)

lemma ring_list_0 [simp]: "ring_list slots head 0 = []"
  by (simp add: ring_list_def)

lemma ring_index_inject_le:
  assumes "i \<le> j" and "j < n" and "(head + i) mod n = (head + j) mod (n::nat)"
  shows "i = j"
proof -
  have "n dvd (head + j) - (head + i)"
    using assms by (metis add_left_mono mod_eq_dvd_iff_nat)
  then show ?thesis using assms(1,2) dvd_imp_le [of n "j - i"] by (cases "j - i = 0") auto
qed

lemma ring_index_inject:
  assumes "i < n" and "j < n" and "(head + i) mod n = (head + j) mod (n::nat)"
  shows "i = j"
  using assms ring_index_inject_le [of i j n head] ring_index_inject_le [of j i n head]
  by (metis nle_le)

lemma ring_list_append:
  assumes "fill < length slots"
  shows "ring_list (slots[(head + fill) mod length slots := x]) head (Suc fill) =
    ring_list slots head fill @ [x]"
proof -
  have pos: "0 < length slots" using assms by linarith
  have "slots[(head + fill) mod length slots := x] ! ((head + i) mod length slots) =
      slots ! ((head + i) mod length slots)" if "i < fill" for i
    using that assms ring_index_inject [of i "length slots" fill head] by force
  then show ?thesis using pos by (simp add: ring_list_def)
qed

lemma ring_list_Suc:
  "ring_list slots head (Suc n) =
    slots ! (head mod length slots) # ring_list slots (Suc head mod length slots) n"
proof -
  have "[0..<Suc n] = 0 # map Suc [0..<n]" by (simp add: upt_conv_Cons map_Suc_upt del: upt_Suc)
  then show ?thesis
    by (simp add: ring_list_def comp_def mod_simps del: upt_Suc)
qed

text \<open>Clearing the slot at the head does not disturb the elements behind it.\<close>

lemma ring_list_clear_head:
  assumes "head < length slots" and "n < length slots"
  shows "ring_list (slots[head := x]) (Suc head mod length slots) n =
    ring_list slots (Suc head mod length slots) n"
proof -
  have "head \<noteq> (Suc head mod length slots + i) mod length slots" if "i < n" for i
  proof
    assume "head = (Suc head mod length slots + i) mod length slots"
    moreover have "(Suc head mod length slots + i) mod length slots = (head + Suc i) mod length slots"
      by (simp add: mod_simps)
    ultimately have "(head + Suc i) mod length slots = (head + 0) mod length slots"
      using assms(1) by (metis add_0_right mod_less)
    moreover have "Suc i < length slots" and "0 < length slots" using that assms by linarith+
    ultimately have "Suc i = 0" by (metis ring_index_inject)
    then show False by simp
  qed
  then show ?thesis by (auto simp: ring_list_def)
qed

section \<open>The contract of a bounded queue\<close>

locale bounded_fifo =
  fixes contents :: "'q \<Rightarrow> 'm list"
    and capacity :: "'q \<Rightarrow> nat"
    and wf :: "'q \<Rightarrow> bool"
    and push :: "'q \<Rightarrow> 'm \<Rightarrow> 'q"
    and pop :: "'q \<Rightarrow> 'q"
  assumes contents_push:
      "wf q \<Longrightarrow> length (contents q) < capacity q \<Longrightarrow> contents (push q m) = contents q @ [m]"
    and contents_pop: "wf q \<Longrightarrow> contents q \<noteq> [] \<Longrightarrow> contents (pop q) = tl (contents q)"
    and wf_push: "wf q \<Longrightarrow> length (contents q) < capacity q \<Longrightarrow> wf (push q m)"
    and wf_pop: "wf q \<Longrightarrow> contents q \<noteq> [] \<Longrightarrow> wf (pop q)"
    and capacity_push: "capacity (push q m) = capacity q"
    and capacity_pop: "capacity (pop q) = capacity q"
    and contents_bound: "wf q \<Longrightarrow> length (contents q) \<le> capacity q"
    and capacity_pos: "wf q \<Longrightarrow> 0 < capacity q"
begin

text \<open>Appending where a full queue first gives up its oldest element.\<close>

definition push_drop_oldest :: "'q \<Rightarrow> 'm \<Rightarrow> 'q" where
  "push_drop_oldest q m =
     push (if length (contents q) = capacity q then pop q else q) m"

text \<open>Appending where a full queue refuses the new element.\<close>

definition push_drop_newest :: "'q \<Rightarrow> 'm \<Rightarrow> 'q" where
  "push_drop_newest q m = (if length (contents q) = capacity q then q else push q m)"

lemma full_nonempty: "wf q \<Longrightarrow> length (contents q) = capacity q \<Longrightarrow> contents q \<noteq> []"
  using capacity_pos by force

lemma drop_oldest_step:
  assumes "wf q"
  shows "wf (push_drop_oldest q m)"
    and "capacity (push_drop_oldest q m) = capacity q"
    and "contents (push_drop_oldest q m) =
      drop (Suc (length (contents q)) - capacity q) (contents q @ [m])"
proof -
  show "capacity (push_drop_oldest q m) = capacity q"
    by (simp add: push_drop_oldest_def capacity_push capacity_pop)
  have "wf (push_drop_oldest q m) \<and> contents (push_drop_oldest q m) =
      drop (Suc (length (contents q)) - capacity q) (contents q @ [m])"
  proof (cases "length (contents q) = capacity q")
    case True
    with assms have ne: "contents q \<noteq> []" by (rule full_nonempty)
    have "length (contents (pop q)) < capacity (pop q)"
      using assms ne True by (simp add: contents_pop capacity_pop capacity_pos)
    then show ?thesis using assms ne True capacity_pos [OF assms]
      by (simp add: push_drop_oldest_def wf_push wf_pop contents_push contents_pop drop_Suc)
  next
    case False
    with contents_bound [OF assms] have "length (contents q) < capacity q" by linarith
    then show ?thesis using assms False
      by (simp add: push_drop_oldest_def wf_push contents_push)
  qed
  then show "wf (push_drop_oldest q m)"
    and "contents (push_drop_oldest q m) =
      drop (Suc (length (contents q)) - capacity q) (contents q @ [m])" by simp_all
qed

text \<open>After any run of appends the queue holds the most recent elements, in order.\<close>

lemma drop_oldest_run:
  "wf q \<Longrightarrow> contents (foldl push_drop_oldest q ms) =
    drop (length (contents q) + length ms - capacity q) (contents q @ ms)"
proof (induction ms arbitrary: q)
  case Nil
  then show ?case using contents_bound [of q] by simp
next
  case (Cons m ms)
  have "drop (length (contents (push_drop_oldest q m)) + length ms - capacity q)
      (contents (push_drop_oldest q m) @ ms) =
    drop (length (contents q) + Suc (length ms) - capacity q) (contents q @ m # ms)"
    using contents_bound [OF Cons.prems] capacity_pos [OF Cons.prems]
    by (cases "length (contents q) = capacity q")
      (simp_all add: drop_oldest_step [OF Cons.prems] drop_append_drop)
  then show ?case using Cons by (simp add: drop_oldest_step)
qed

lemma drop_newest_step:
  assumes "wf q"
  shows "wf (push_drop_newest q m)"
    and "capacity (push_drop_newest q m) = capacity q"
    and "contents (push_drop_newest q m) = take (capacity q) (contents q @ [m])"
  using assms contents_bound [OF assms]
  by (auto simp: push_drop_newest_def wf_push capacity_push contents_push)

text \<open>Under the other rule it holds the earliest elements.\<close>

lemma drop_newest_run:
  "wf q \<Longrightarrow> contents (foldl push_drop_newest q ms) = take (capacity q) (contents q @ ms)"
proof (induction ms arbitrary: q)
  case Nil
  then show ?case using contents_bound [of q] by simp
next
  case (Cons m ms)
  then show ?case using contents_bound [OF Cons.prems]
    by (cases "length (contents q) = capacity q") (simp_all add: drop_newest_step take_Cons')
qed

end

end
