(* ===== verification/EventBroker.thy ===== *)
theory EventBroker
  imports RingFifo
begin

text \<open>
  The event broker of \<open>src/libraries/events/broker.c\<close>: topics, subscriptions with a
  bounded queue each, and the operations create, destroy, subscribe, unsubscribe,
  emit and receive. Brokers and subscriptions are heap objects that clients hold by
  address, so the model keeps an explicit store from addresses to objects; an
  operation on a freed address has no outcome (\<^const>\<open>None\<close>), which is what the
  undefined behaviour of the C code permits. Outcomes of \<open>calloc\<close> and \<open>malloc\<close> are
  arguments. The authorisation callback is a field of the broker, as in the source,
  with its opaque context folded into the function.
\<close>

section \<open>Data\<close>

definition AR_EVENT_MAX_PRINCIPAL_LEN :: nat where
  [limits]: "AR_EVENT_MAX_PRINCIPAL_LEN = 64"
definition AR_EVENT_HARD_MAX_TOPICS :: nat where
  [limits]: "AR_EVENT_HARD_MAX_TOPICS = 4096"
definition AR_EVENT_HARD_MAX_PAYLOAD :: nat where
  [limits]: "AR_EVENT_HARD_MAX_PAYLOAD = 65524"
definition AR_EVENT_HARD_MAX_SUBSCRIBERS :: nat where
  [limits]: "AR_EVENT_HARD_MAX_SUBSCRIBERS = 4096"
definition AR_EVENT_HARD_MAX_QUEUE_DEPTH :: nat where
  [limits]: "AR_EVENT_HARD_MAX_QUEUE_DEPTH = 1024"

datatype ar_event_status =
    AR_EVENT_OK | AR_EVENT_PARTIAL | AR_EVENT_EMPTY
  | AR_EVENT_ERR_INVALID | AR_EVENT_ERR_DENIED | AR_EVENT_ERR_LIMIT | AR_EVENT_ERR_EXISTS
  | AR_EVENT_ERR_NOT_FOUND | AR_EVENT_ERR_BUFFER_TOO_SMALL | AR_EVENT_ERR_NOMEM

text \<open>The overflow policy is an \<open>int\<close> to the callee, which checks that it is one of the two.\<close>

definition AR_EVENT_OVERFLOW_DROP_NEWEST :: int where
  [simp]: "AR_EVENT_OVERFLOW_DROP_NEWEST = 1"
definition AR_EVENT_OVERFLOW_DROP_OLDEST :: int where
  [simp]: "AR_EVENT_OVERFLOW_DROP_OLDEST = 2"

datatype ar_event_authorization_action =
    AR_EVENT_AUTHORIZE_SUBSCRIBE | AR_EVENT_AUTHORIZE_UNSUBSCRIBE | AR_EVENT_AUTHORIZE_EMIT

record ar_event_identity =
  pid :: u32
  uid :: u32
  gid :: u32
  principal :: bytes

record ar_event_broker_config =
  max_topics :: nat
  max_payload_size :: nat
  max_subscribers :: nat
  subscriber_queue_depth :: nat

record ar_event_metadata =
  md_topic :: u16
  md_sequence :: u64
  md_transaction_id :: u64
  md_timestamp_nanos :: u64
  md_producer :: ar_event_identity
  md_payload_len :: nat

record ar_event_emit_result =
  delivered :: nat
  dropped_oldest :: nat
  rejected_newest :: nat

text \<open>A message slot; an unused slot is all zeros with a null payload pointer.\<close>

record ar_event_message =
  metadata :: ar_event_metadata
  payload :: "bytes option"

type_synonym ar_event_authorize_fn =
  "ar_event_authorization_action \<Rightarrow> ar_event_identity \<Rightarrow> ar_event_identity option \<Rightarrow> u16 \<Rightarrow> int"

record ar_event_subscription =
  sub_broker :: "addr option"
  owner :: ar_event_identity
  topic :: u16
  overflow_policy :: int
  queue :: "ar_event_message list"
  queue_capacity :: nat
  queue_head :: nat
  queue_count :: nat

text \<open>
  \<open>subscriptions\<close> is the part of the pointer array below \<open>subscription_count\<close>, so the
  count is its length.
\<close>

record ar_event_broker =
  config :: ar_event_broker_config
  authorize :: "ar_event_authorize_fn option"
  subscriptions :: "addr list"
  topic_count :: nat
  next_sequence :: u64

record event_store =
  brokers :: "addr \<rightharpoonup> ar_event_broker"
  subs :: "addr \<rightharpoonup> ar_event_subscription"

definition zero_identity :: ar_event_identity where
  "zero_identity = \<lparr>pid = 0, uid = 0, gid = 0, principal = zeros AR_EVENT_MAX_PRINCIPAL_LEN\<rparr>"

definition zero_message :: ar_event_message where
  "zero_message = \<lparr>metadata = \<lparr>md_topic = 0, md_sequence = 0, md_transaction_id = 0,
     md_timestamp_nanos = 0, md_producer = zero_identity, md_payload_len = 0\<rparr>, payload = None\<rparr>"

section \<open>Helpers\<close>

fun valid_identity :: "ar_event_identity option \<Rightarrow> bool" where
  "valid_identity None = False"
| "valid_identity (Some identity) =
     (let len = c_strnlen (principal identity) AR_EVENT_MAX_PRINCIPAL_LEN
      in 0 < len \<and> len < AR_EVENT_MAX_PRINCIPAL_LEN)"

definition identity_equal :: "ar_event_identity \<Rightarrow> ar_event_identity \<Rightarrow> bool" where
  "identity_equal left right \<longleftrightarrow>
     pid left = pid right \<and> uid left = uid right \<and> gid left = gid right \<and>
     strncmp_eq (principal left) (principal right) AR_EVENT_MAX_PRINCIPAL_LEN"

definition authorize_action ::
  "ar_event_broker \<Rightarrow> ar_event_authorization_action \<Rightarrow> ar_event_identity \<Rightarrow>
   ar_event_identity option \<Rightarrow> u16 \<Rightarrow> ar_event_status" where
  "authorize_action broker action actor own tp =
     (case authorize broker of
        None \<Rightarrow> AR_EVENT_ERR_DENIED
      | Some f \<Rightarrow> if f action actor own tp = 1 then AR_EVENT_OK else AR_EVENT_ERR_DENIED)"

text \<open>
  The scan of \<open>topic_present_except\<close> over the subscription array; \<open>excluded\<close> is a
  pointer or null, and every array element is dereferenced unless it is the
  excluded one. A dangling element has no outcome.
\<close>

fun topic_present_except ::
  "(addr \<rightharpoonup> ar_event_subscription) \<Rightarrow> addr list \<Rightarrow> u16 \<Rightarrow> addr option \<Rightarrow> bool option" where
  "topic_present_except heap [] tp excluded = Some False"
| "topic_present_except heap (p # ps) tp excluded =
     (if Some p = excluded then topic_present_except heap ps tp excluded
      else case heap p of
        None \<Rightarrow> None
      | Some s \<Rightarrow> if topic s = tp then Some True else topic_present_except heap ps tp excluded)"

text \<open>The duplicate scan of subscribe: same topic and an equal identity.\<close>

fun subscription_exists ::
  "(addr \<rightharpoonup> ar_event_subscription) \<Rightarrow> addr list \<Rightarrow> u16 \<Rightarrow> ar_event_identity \<Rightarrow> bool option" where
  "subscription_exists heap [] tp consumer = Some False"
| "subscription_exists heap (p # ps) tp consumer =
     (case heap p of
        None \<Rightarrow> None
      | Some s \<Rightarrow>
          if topic s = tp \<and> identity_equal (owner s) consumer then Some True
          else subscription_exists heap ps tp consumer)"

section \<open>Create and destroy\<close>

definition config_in_limits :: "ar_event_broker_config \<Rightarrow> bool" where
  "config_in_limits c \<longleftrightarrow>
     \<not> (max_topics c = 0 \<or> max_topics c > AR_EVENT_HARD_MAX_TOPICS \<or>
        max_payload_size c = 0 \<or> max_payload_size c > AR_EVENT_HARD_MAX_PAYLOAD \<or>
        max_subscribers c = 0 \<or> max_subscribers c > AR_EVENT_HARD_MAX_SUBSCRIBERS \<or>
        subscriber_queue_depth c = 0 \<or>
        subscriber_queue_depth c > AR_EVENT_HARD_MAX_QUEUE_DEPTH)"

text \<open>
  \<open>out\<close> says whether \<open>out_broker\<close> is non-null; \<open>alloc\<close> is the address \<open>calloc\<close>
  returned for the broker, \<open>alloc_array\<close> whether the pointer array was allocated.
\<close>

definition ar_event_broker_create ::
  "ar_event_broker_config option \<Rightarrow> ar_event_authorize_fn option \<Rightarrow> bool \<Rightarrow>
   addr option \<Rightarrow> bool \<Rightarrow> event_store \<Rightarrow> ar_event_status \<times> addr option \<times> event_store" where
  "ar_event_broker_create cfg auth out alloc alloc_array st =
     (if \<not> out then (AR_EVENT_ERR_INVALID, None, st)
      else case cfg of
        None \<Rightarrow> (AR_EVENT_ERR_INVALID, None, st)
      | Some c \<Rightarrow>
          if auth = None \<or> \<not> config_in_limits c then (AR_EVENT_ERR_INVALID, None, st)
          else case alloc of
            None \<Rightarrow> (AR_EVENT_ERR_NOMEM, None, st)
          | Some a \<Rightarrow>
              if \<not> alloc_array then (AR_EVENT_ERR_NOMEM, None, st)
              else (AR_EVENT_OK, Some a,
                st\<lparr>brokers := (brokers st)(a \<mapsto>
                  \<lparr>config = c, authorize = auth, subscriptions = [], topic_count = 0,
                   next_sequence = 1\<rparr>)\<rparr>))"

definition free_subscriptions ::
  "addr list \<Rightarrow> (addr \<rightharpoonup> ar_event_subscription) \<Rightarrow> (addr \<rightharpoonup> ar_event_subscription)" where
  "free_subscriptions ps heap = (\<lambda>p. if p \<in> set ps then None else heap p)"

fun ar_event_broker_destroy :: "addr option \<Rightarrow> event_store \<Rightarrow> event_store option" where
  "ar_event_broker_destroy None st = Some st"
| "ar_event_broker_destroy (Some b) st =
     (case brokers st b of
        None \<Rightarrow> None
      | Some broker \<Rightarrow>
          Some (st\<lparr>brokers := (brokers st)(b := None),
                   subs := free_subscriptions (subscriptions broker) (subs st)\<rparr>))"

section \<open>Subscribe and unsubscribe\<close>

definition new_subscription ::
  "addr \<Rightarrow> ar_event_broker \<Rightarrow> ar_event_identity \<Rightarrow> u16 \<Rightarrow> int \<Rightarrow> ar_event_subscription" where
  "new_subscription b broker consumer tp pol =
     \<lparr>sub_broker = Some b, owner = consumer, topic = tp, overflow_policy = pol,
      queue = replicate (subscriber_queue_depth (config broker)) zero_message,
      queue_capacity = subscriber_queue_depth (config broker),
      queue_head = 0, queue_count = 0\<rparr>"

definition add_subscription ::
  "addr \<Rightarrow> ar_event_broker \<Rightarrow> addr \<Rightarrow> ar_event_subscription \<Rightarrow> event_store \<Rightarrow> event_store option" where
  "add_subscription b broker s sub st =
     (let heap = (subs st)(s \<mapsto> sub);
          ps = subscriptions broker @ [s]
      in case topic_present_except heap ps (topic sub) (Some s) of
           None \<Rightarrow> None
         | Some present \<Rightarrow>
             Some (st\<lparr>brokers := (brokers st)(b \<mapsto> broker\<lparr>subscriptions := ps,
                        topic_count := (if present then topic_count broker
                                        else Suc (topic_count broker))\<rparr>),
                      subs := heap\<rparr>))"

definition ar_event_broker_subscribe ::
  "addr option \<Rightarrow> ar_event_identity option \<Rightarrow> u16 \<Rightarrow> int \<Rightarrow> bool \<Rightarrow> addr option \<Rightarrow> bool \<Rightarrow>
   event_store \<Rightarrow> (ar_event_status \<times> addr option \<times> event_store) option" where
  "ar_event_broker_subscribe bp consumer tp pol out alloc alloc_queue st =
     (if \<not> out then Some (AR_EVENT_ERR_INVALID, None, st)
      else case bp of
        None \<Rightarrow> Some (AR_EVENT_ERR_INVALID, None, st)
      | Some b \<Rightarrow>
          if \<not> valid_identity consumer \<or> tp = 0 \<or>
             (pol \<noteq> AR_EVENT_OVERFLOW_DROP_NEWEST \<and> pol \<noteq> AR_EVENT_OVERFLOW_DROP_OLDEST)
          then Some (AR_EVENT_ERR_INVALID, None, st)
          else case brokers st b of
            None \<Rightarrow> None
          | Some broker \<Rightarrow>
              if authorize_action broker AR_EVENT_AUTHORIZE_SUBSCRIBE (the consumer) consumer tp
                 \<noteq> AR_EVENT_OK
              then Some (AR_EVENT_ERR_DENIED, None, st)
              else if length (subscriptions broker) \<ge> max_subscribers (config broker)
              then Some (AR_EVENT_ERR_LIMIT, None, st)
              else case subscription_exists (subs st) (subscriptions broker) tp (the consumer) of
                None \<Rightarrow> None
              | Some True \<Rightarrow> Some (AR_EVENT_ERR_EXISTS, None, st)
              | Some False \<Rightarrow>
                  (case topic_present_except (subs st) (subscriptions broker) tp None of
                     None \<Rightarrow> None
                   | Some present \<Rightarrow>
                       if \<not> present \<and> topic_count broker \<ge> max_topics (config broker)
                       then Some (AR_EVENT_ERR_LIMIT, None, st)
                       else case alloc of
                         None \<Rightarrow> Some (AR_EVENT_ERR_NOMEM, None, st)
                       | Some s \<Rightarrow>
                           if \<not> alloc_queue then Some (AR_EVENT_ERR_NOMEM, None, st)
                           else map_option (\<lambda>st'. (AR_EVENT_OK, Some s, st'))
                                  (add_subscription b broker s
                                     (new_subscription b broker (the consumer) tp pol) st)))"

text \<open>The position of a pointer in the array, or its length when it is not there.\<close>

fun find_index :: "addr \<Rightarrow> addr list \<Rightarrow> nat" where
  "find_index s [] = 0"
| "find_index s (p # ps) = (if p = s then 0 else Suc (find_index s ps))"

definition remove_subscription ::
  "addr \<Rightarrow> ar_event_broker \<Rightarrow> addr \<Rightarrow> nat \<Rightarrow> bool \<Rightarrow> event_store \<Rightarrow> event_store" where
  "remove_subscription b broker s index topic_will_be_removed st =
     st\<lparr>brokers := (brokers st)(b \<mapsto> broker\<lparr>
          subscriptions := butlast ((subscriptions broker)[index := last (subscriptions broker)]),
          topic_count := (if topic_will_be_removed then topic_count broker - 1
                          else topic_count broker)\<rparr>),
        subs := (subs st)(s := None)\<rparr>"

definition ar_event_broker_unsubscribe ::
  "addr option \<Rightarrow> ar_event_identity option \<Rightarrow> addr option \<Rightarrow> event_store \<Rightarrow>
   (ar_event_status \<times> event_store) option" where
  "ar_event_broker_unsubscribe bp actor sp st =
     (case (bp, sp) of
        (Some b, Some s) \<Rightarrow>
          (case subs st s of
             None \<Rightarrow> None
           | Some sub \<Rightarrow>
               if sub_broker sub \<noteq> Some b \<or> \<not> valid_identity actor
               then Some (AR_EVENT_ERR_INVALID, st)
               else case brokers st b of
                 None \<Rightarrow> None
               | Some broker \<Rightarrow>
                   if authorize_action broker AR_EVENT_AUTHORIZE_UNSUBSCRIBE (the actor)
                        (Some (owner sub)) (topic sub) \<noteq> AR_EVENT_OK
                   then Some (AR_EVENT_ERR_DENIED, st)
                   else let index = find_index s (subscriptions broker) in
                     if index = length (subscriptions broker)
                     then Some (AR_EVENT_ERR_NOT_FOUND, st)
                     else case topic_present_except (subs st) (subscriptions broker)
                                 (topic sub) (Some s) of
                       None \<Rightarrow> None
                     | Some present \<Rightarrow>
                         Some (AR_EVENT_OK,
                               remove_subscription b broker s index (\<not> present) st))
      | _ \<Rightarrow> Some (AR_EVENT_ERR_INVALID, st))"

section \<open>Emit and receive\<close>

text \<open>
  Removing the head element (\<open>release_message\<close> on its slot, advance, decrement) and
  appending at the tail, the two steps from which enqueue and receive are built.
\<close>

definition queue_pop :: "ar_event_subscription \<Rightarrow> ar_event_subscription" where
  "queue_pop s =
     s\<lparr>queue := (queue s)[queue_head s := zero_message],
       queue_head := (queue_head s + 1) mod queue_capacity s,
       queue_count := queue_count s - 1\<rparr>"

definition queue_push :: "ar_event_subscription \<Rightarrow> ar_event_message \<Rightarrow> ar_event_subscription" where
  "queue_push s m =
     (let tail = (queue_head s + queue_count s) mod queue_capacity s
      in s\<lparr>queue := (queue s)[tail := m], queue_count := queue_count s + 1\<rparr>)"

text \<open>\<open>copied\<close> is whether \<open>malloc\<close> for the payload copy succeeded.\<close>

definition enqueue_message ::
  "ar_event_subscription \<Rightarrow> ar_event_metadata \<Rightarrow> bytes option \<Rightarrow> nat \<Rightarrow> bool \<Rightarrow>
   ar_event_emit_result \<Rightarrow> ar_event_status \<times> ar_event_subscription \<times> ar_event_emit_result" where
  "enqueue_message s md pl payload_len copied result =
     (if queue_count s = queue_capacity s \<and> overflow_policy s = AR_EVENT_OVERFLOW_DROP_NEWEST
      then (AR_EVENT_PARTIAL, s, result\<lparr>rejected_newest := rejected_newest result + 1\<rparr>)
      else if 0 < payload_len \<and> \<not> copied
      then (AR_EVENT_ERR_NOMEM, s, result\<lparr>rejected_newest := rejected_newest result + 1\<rparr>)
      else
        let payload_copy = (if 0 < payload_len then Some (take payload_len (the pl)) else None);
            full = (queue_count s = queue_capacity s);
            s1 = (if full then queue_pop s else s);
            r1 = (if full then result\<lparr>dropped_oldest := dropped_oldest result + 1\<rparr> else result)
        in (AR_EVENT_OK, queue_push s1 \<lparr>metadata = md, payload = payload_copy\<rparr>,
            r1\<lparr>delivered := delivered r1 + 1\<rparr>))"

text \<open>
  The delivery loop over the array; \<open>mem i\<close> is the outcome of the payload allocation
  made for array position \<open>i\<close>.
\<close>

fun emit_loop ::
  "nat \<Rightarrow> addr list \<Rightarrow> ar_event_metadata \<Rightarrow> bytes option \<Rightarrow> nat \<Rightarrow> (nat \<Rightarrow> bool) \<Rightarrow>
   (addr \<rightharpoonup> ar_event_subscription) \<Rightarrow> ar_event_emit_result \<Rightarrow> ar_event_status \<Rightarrow>
   (ar_event_status \<times> ar_event_emit_result \<times> (addr \<rightharpoonup> ar_event_subscription)) option" where
  "emit_loop i [] md pl payload_len mem heap result status = Some (status, result, heap)"
| "emit_loop i (p # ps) md pl payload_len mem heap result status =
     (case heap p of
        None \<Rightarrow> None
      | Some s \<Rightarrow>
          if topic s \<noteq> md_topic md
          then emit_loop (Suc i) ps md pl payload_len mem heap result status
          else case enqueue_message s md pl payload_len (mem i) result of
            (enqueue_status, s', result') \<Rightarrow>
              emit_loop (Suc i) ps md pl payload_len mem (heap(p \<mapsto> s')) result'
                (if enqueue_status \<noteq> AR_EVENT_OK then AR_EVENT_PARTIAL else status))"

definition zero_result :: ar_event_emit_result where
  "zero_result = \<lparr>delivered = 0, dropped_oldest = 0, rejected_newest = 0\<rparr>"

definition ar_event_broker_emit ::
  "addr option \<Rightarrow> ar_event_identity option \<Rightarrow> u16 \<Rightarrow> u64 \<Rightarrow> u64 \<Rightarrow> bytes option \<Rightarrow> nat \<Rightarrow>
   (nat \<Rightarrow> bool) \<Rightarrow> event_store \<Rightarrow> (ar_event_status \<times> ar_event_emit_result \<times> event_store) option" where
  "ar_event_broker_emit bp producer tp transaction_id timestamp_nanos pl payload_len mem st =
     (case bp of
        None \<Rightarrow> Some (AR_EVENT_ERR_INVALID, zero_result, st)
      | Some b \<Rightarrow>
          if \<not> valid_identity producer \<or> tp = 0
          then Some (AR_EVENT_ERR_INVALID, zero_result, st)
          else case brokers st b of
            None \<Rightarrow> None
          | Some broker \<Rightarrow>
              if payload_len > max_payload_size (config broker) \<or> (0 < payload_len \<and> pl = None)
              then Some (AR_EVENT_ERR_INVALID, zero_result, st)
              else if authorize_action broker AR_EVENT_AUTHORIZE_EMIT (the producer) None tp
                      \<noteq> AR_EVENT_OK
              then Some (AR_EVENT_ERR_DENIED, zero_result, st)
              else if next_sequence broker = - 1
              then Some (AR_EVENT_ERR_LIMIT, zero_result, st)
              else
                let md = \<lparr>md_topic = tp, md_sequence = next_sequence broker,
                          md_transaction_id = transaction_id,
                          md_timestamp_nanos = timestamp_nanos,
                          md_producer = the producer, md_payload_len = payload_len\<rparr>
                in case emit_loop 0 (subscriptions broker) md pl payload_len mem (subs st)
                          zero_result AR_EVENT_OK of
                     None \<Rightarrow> None
                   | Some (status, result, heap) \<Rightarrow>
                       Some (status, result,
                         st\<lparr>brokers := (brokers st)(b \<mapsto>
                           broker\<lparr>next_sequence := next_sequence broker + 1\<rparr>), subs := heap\<rparr>))"

text \<open>
  The outcome of receive: the status, the value left in \<open>*out_payload_len\<close> (when that
  pointer is non-null), the metadata and payload bytes written, and the store.
\<close>

definition ar_event_subscription_receive ::
  "addr option \<Rightarrow> bool \<Rightarrow> bool \<Rightarrow> nat \<Rightarrow> bool \<Rightarrow> event_store \<Rightarrow>
   (ar_event_status \<times> nat \<times> (ar_event_metadata \<times> bytes) option \<times> event_store) option" where
  "ar_event_subscription_receive sp out_metadata out_payload payload_capacity out_payload_len st =
     (case sp of
        None \<Rightarrow> Some (AR_EVENT_ERR_INVALID, 0, None, st)
      | Some p \<Rightarrow>
          (case subs st p of
             None \<Rightarrow> None
           | Some s \<Rightarrow>
               if sub_broker s = None \<or> \<not> out_metadata \<or> \<not> out_payload_len \<or>
                  (0 < payload_capacity \<and> \<not> out_payload)
               then Some (AR_EVENT_ERR_INVALID, 0, None, st)
               else if queue_count s = 0 then Some (AR_EVENT_EMPTY, 0, None, st)
               else
                 let message = queue s ! queue_head s;
                     len = md_payload_len (metadata message)
                 in if payload_capacity < len
                    then Some (AR_EVENT_ERR_BUFFER_TOO_SMALL, len, None, st)
                    else Some (AR_EVENT_OK, len,
                           Some (metadata message,
                                 if 0 < len then take len (the (payload message)) else []),
                           st\<lparr>subs := (subs st)(p \<mapsto> queue_pop s)\<rparr>)))"

text \<open>The three counters.\<close>

definition ar_event_broker_subscription_count :: "addr option \<Rightarrow> event_store \<Rightarrow> nat option" where
  "ar_event_broker_subscription_count bp st =
     (case bp of None \<Rightarrow> Some 0
      | Some b \<Rightarrow> map_option (\<lambda>broker. length (subscriptions broker)) (brokers st b))"

definition ar_event_broker_topic_count :: "addr option \<Rightarrow> event_store \<Rightarrow> nat option" where
  "ar_event_broker_topic_count bp st =
     (case bp of None \<Rightarrow> Some 0 | Some b \<Rightarrow> map_option topic_count (brokers st b))"

definition ar_event_subscription_pending :: "addr option \<Rightarrow> event_store \<Rightarrow> nat option" where
  "ar_event_subscription_pending sp st =
     (case sp of None \<Rightarrow> Some 0
      | Some p \<Rightarrow>
          map_option (\<lambda>s. if sub_broker s = None then 0 else queue_count s) (subs st p))"

end
