(* ===== verification/EventWire.thy ===== *)
theory EventWire
  imports ByteOrder EventBroker
begin

text \<open>
  The event wire header of \<open>src/libraries/events/broker.c\<close>: 116 bytes, every
  multi-byte field in network byte order, the producer's name as a zero-padded
  field of 64 bytes. Encoding and decoding are mutually inverse on names that end
  in a NUL, and decoding accepts the right magic and version only.
\<close>

definition AR_EVENT_WIRE_MAGIC :: u32 where
  "AR_EVENT_WIRE_MAGIC = 0x41524556"
definition AR_EVENT_WIRE_VERSION :: u16 where
  "AR_EVENT_WIRE_VERSION = 1"

record ar_event_wire_header =
  magic :: u32
  version :: u16
  opcode :: u16
  wire_topic :: u16
  flags :: u16
  sequence :: u64
  transaction_id :: u64
  timestamp_nanos :: u64
  producer_pid :: u32
  producer_uid :: u32
  producer_gid :: u32
  payload_len :: u32
  producer_principal :: bytes

text \<open>
  \<open>out\<close> is the caller's buffer of 116 bytes, or null. The copy loop of the name stops
  at the first NUL and writes at most 63 bytes.
\<close>

definition ar_event_wire_header_encode ::
  "ar_event_wire_header option \<Rightarrow> bytes option \<Rightarrow> ar_event_status \<times> bytes option" where
  "ar_event_wire_header_encode hdr out =
     (case (hdr, out) of
        (Some h, Some w0) \<Rightarrow>
          (let w1 = memwrite w0 0 (store_u32_be (magic h));
               w2 = memwrite w1 4 (store_u16_be (version h));
               w3 = memwrite w2 6 (store_u16_be (opcode h));
               w4 = memwrite w3 8 (store_u16_be (wire_topic h));
               w5 = memwrite w4 10 (store_u16_be (flags h));
               w6 = memwrite w5 12 (store_u64_be (sequence h));
               w7 = memwrite w6 20 (store_u64_be (transaction_id h));
               w8 = memwrite w7 28 (store_u64_be (timestamp_nanos h));
               w9 = memwrite w8 36 (store_u32_be (producer_pid h));
               w10 = memwrite w9 40 (store_u32_be (producer_uid h));
               w11 = memwrite w10 44 (store_u32_be (producer_gid h));
               w12 = memwrite w11 48 (store_u32_be (payload_len h));
               w13 = memwrite w12 52 (zeros AR_EVENT_MAX_PRINCIPAL_LEN);
               w14 = memwrite w13 52 (c_str (producer_principal h) (AR_EVENT_MAX_PRINCIPAL_LEN - 1))
           in (AR_EVENT_OK, Some w14))
      | _ \<Rightarrow> (AR_EVENT_ERR_INVALID, out))"

definition zero_header :: ar_event_wire_header where
  "zero_header = \<lparr>magic = 0, version = 0, opcode = 0, wire_topic = 0, flags = 0, sequence = 0,
     transaction_id = 0, timestamp_nanos = 0, producer_pid = 0, producer_uid = 0, producer_gid = 0,
     payload_len = 0, producer_principal = zeros AR_EVENT_MAX_PRINCIPAL_LEN\<rparr>"

text \<open>
  \<open>out\<close> is the caller's header before the call, or null. On a wrong magic or version
  the fields read so far stay in it.
\<close>

definition ar_event_wire_header_decode ::
  "bytes option \<Rightarrow> ar_event_wire_header option \<Rightarrow> ar_event_status \<times> ar_event_wire_header option" where
  "ar_event_wire_header_decode wire out =
     (case (wire, out) of
        (Some w, Some _) \<Rightarrow>
          (let h1 = zero_header\<lparr>magic := load_u32_be (drop 0 w)\<rparr>
           in if magic h1 \<noteq> AR_EVENT_WIRE_MAGIC then (AR_EVENT_ERR_INVALID, Some h1)
           else let h2 = h1\<lparr>version := load_u16_be (drop 4 w)\<rparr>
           in if version h2 \<noteq> AR_EVENT_WIRE_VERSION then (AR_EVENT_ERR_INVALID, Some h2)
           else (AR_EVENT_OK, Some (h2\<lparr>
             opcode := load_u16_be (drop 6 w),
             wire_topic := load_u16_be (drop 8 w),
             flags := load_u16_be (drop 10 w),
             sequence := load_u64_be (drop 12 w),
             transaction_id := load_u64_be (drop 20 w),
             timestamp_nanos := load_u64_be (drop 28 w),
             producer_pid := load_u32_be (drop 36 w),
             producer_uid := load_u32_be (drop 40 w),
             producer_gid := load_u32_be (drop 44 w),
             payload_len := load_u32_be (drop 48 w),
             producer_principal :=
               (bytes_at 52 AR_EVENT_MAX_PRINCIPAL_LEN w)[AR_EVENT_MAX_PRINCIPAL_LEN - 1 := 0]\<rparr>)))
      | _ \<Rightarrow> (AR_EVENT_ERR_INVALID, out))"

section \<open>The layout\<close>

definition header_fields :: "ar_event_wire_header \<Rightarrow> bytes list" where
  "header_fields h =
     [store_u32_be (magic h), store_u16_be (version h), store_u16_be (opcode h),
      store_u16_be (wire_topic h), store_u16_be (flags h), store_u64_be (sequence h),
      store_u64_be (transaction_id h), store_u64_be (timestamp_nanos h),
      store_u32_be (producer_pid h), store_u32_be (producer_uid h), store_u32_be (producer_gid h),
      store_u32_be (payload_len h)]"

lemma length_header_fields [simp]: "length (concat (header_fields h)) = 52"
  by (simp add: header_fields_def)

definition padded_name :: "bytes \<Rightarrow> bytes" where
  "padded_name p = (let s = c_str p 63 in s @ zeros (64 - length s))"

lemma length_name: "length (c_str p 63) \<le> 63"
  using c_strnlen_le [of p 63] by (simp add: c_strnlen_def)

lemma length_padded_name [simp]: "length (padded_name p) = 64"
  using length_name [of p] by (simp add: padded_name_def Let_def)

lemma encode_layout:
  assumes "length w = 116"
  shows "ar_event_wire_header_encode (Some h) (Some w) =
    (AR_EVENT_OK, Some (concat (header_fields h) @ padded_name (producer_principal h)))"
proof -
  have "snd (ar_event_wire_header_encode (Some h) (Some w)) =
      Some (memwrite (write_fields w 0 (header_fields h @ [zeros 64])) 52 (c_str (producer_principal h) 63))"
    by (simp add: ar_event_wire_header_encode_def Let_def AR_EVENT_MAX_PRINCIPAL_LEN_def header_fields_def)
  also have "write_fields w 0 (header_fields h @ [zeros 64]) = concat (header_fields h) @ zeros 64"
    using assms by (subst write_fields_eq) (simp_all del: length_concat)
  also have "memwrite (concat (header_fields h) @ zeros 64) 52 (c_str (producer_principal h) 63) =
      concat (header_fields h) @ padded_name (producer_principal h)"
    by (simp add: memwrite_behind padded_name_def Let_def del: length_concat)
  finally show ?thesis
    by (simp add: prod_eq_iff) (simp add: ar_event_wire_header_encode_def Let_def)
qed

text \<open>What decode reads from such a message.\<close>

lemma decode_layout:
  assumes "magic h = AR_EVENT_WIRE_MAGIC" and "version h = AR_EVENT_WIRE_VERSION"
    and "length name = 64" and "name ! 63 = 0"
  shows "ar_event_wire_header_decode (Some (concat (header_fields h) @ name)) (Some out) =
    (AR_EVENT_OK, Some (h\<lparr>producer_principal := name\<rparr>))"
proof -
  have "name[63 := 0] = name" using assms(4) by (metis list_update_id)
  then show ?thesis using assms(1-3)
    by (simp add: ar_event_wire_header_decode_def header_fields_def zero_header_def bytes_at_def
        AR_EVENT_MAX_PRINCIPAL_LEN_def)
qed

lemma padded_name_last: "padded_name p ! 63 = 0"
  using length_name [of p] by (simp add: padded_name_def Let_def nth_append zeros_def)

section \<open>Round trip\<close>

text \<open>
  Encoding a header into any 116 byte buffer and decoding the result gives the
  header back, with the producer's name cut at its first NUL and at 63 bytes and
  zero-padded; a header with another magic or version is refused by the decoder.
\<close>

theorem wire_header_roundtrip:
  assumes "length w = 116"
  shows "\<exists>wire. ar_event_wire_header_encode (Some h) (Some w) = (AR_EVENT_OK, Some wire) \<and>
    length wire = 116 \<and>
    (if magic h = AR_EVENT_WIRE_MAGIC \<and> version h = AR_EVENT_WIRE_VERSION
     then ar_event_wire_header_decode (Some wire) (Some out) =
       (AR_EVENT_OK, Some (h\<lparr>producer_principal := padded_name (producer_principal h)\<rparr>))
     else fst (ar_event_wire_header_decode (Some wire) (Some out)) = AR_EVENT_ERR_INVALID)"
proof -
  let ?wire = "concat (header_fields h) @ padded_name (producer_principal h)"
  have "fst (ar_event_wire_header_decode (Some ?wire) (Some out)) = AR_EVENT_ERR_INVALID"
    if "\<not> (magic h = AR_EVENT_WIRE_MAGIC \<and> version h = AR_EVENT_WIRE_VERSION)"
    using that by (auto simp: ar_event_wire_header_decode_def header_fields_def Let_def)
  then show ?thesis
    using encode_layout [OF assms, of h] decode_layout [of h "padded_name (producer_principal h)" out]
    by (simp add: padded_name_last del: length_concat)
qed

text \<open>
  The wire form is canonical: an accepted 116 byte message whose name field is
  zero-padded is exactly what the encoder writes, into whatever buffer, for the
  header the decoder read from it. No second message decodes to that header.
\<close>

theorem wire_header_canonical:
  assumes "length w = 116" and "length buf = 116"
    and "ar_event_wire_header_decode (Some w) (Some out) = (AR_EVENT_OK, Some h)"
    and "bytes_at 52 64 w = padded_name (bytes_at 52 64 w)"
  shows "ar_event_wire_header_encode (Some h) (Some buf) = (AR_EVENT_OK, Some w)"
proof -
  have name: "producer_principal h = bytes_at 52 64 w"
  proof -
    have "producer_principal h = (bytes_at 52 64 w)[63 := 0]"
      using assms(3) by (auto simp: ar_event_wire_header_decode_def Let_def AR_EVENT_MAX_PRINCIPAL_LEN_def
          split: if_splits)
    then show ?thesis using padded_name_last assms(4) by (metis list_update_id)
  qed
  have "magic h = load_u32_be w" "version h = load_u16_be (drop 4 w)" "opcode h = load_u16_be (drop 6 w)"
    "wire_topic h = load_u16_be (drop 8 w)" "flags h = load_u16_be (drop 10 w)"
    "sequence h = load_u64_be (drop 12 w)" "transaction_id h = load_u64_be (drop 20 w)"
    "timestamp_nanos h = load_u64_be (drop 28 w)" "producer_pid h = load_u32_be (drop 36 w)"
    "producer_uid h = load_u32_be (drop 40 w)" "producer_gid h = load_u32_be (drop 44 w)"
    "payload_len h = load_u32_be (drop 48 w)"
    using assms(3) by (auto simp: ar_event_wire_header_decode_def Let_def split: if_splits)
  then have "header_fields h = slices w 0 [4, 2, 2, 2, 2, 8, 8, 8, 4, 4, 4, 4]"
    using assms(1) by (simp add: header_fields_def be16.enc_dec be32.enc_dec be64.enc_dec)
  then have fields: "concat (header_fields h) = take 52 w"
    by (simp only: concat_slices) simp
  have "take 52 w @ bytes_at 52 64 w = w" using assms(1) by (simp add: bytes_at_def)
  then show ?thesis using encode_layout [OF assms(2), of h] assms(4) by (simp add: fields name)
qed

section \<open>The hypotheses can be met\<close>

definition demo_header :: ar_event_wire_header where
  "demo_header = \<lparr>magic = AR_EVENT_WIRE_MAGIC, version = 1, opcode = 0x0303, wire_topic = 0x1002,
     flags = 0, sequence = 9, transaction_id = 1, timestamp_nanos = 2, producer_pid = 3,
     producer_uid = 4, producer_gid = 5, payload_len = 6,
     producer_principal = 65 # zeros 63\<rparr>"

lemma demo_padded: "padded_name (65 # zeros 63) = 65 # zeros 63"
proof -
  have "c_str ([65] @ zeros (64 - length [65 :: u8])) 64 = [65]" by (rule c_str_padded) simp_all
  moreover have "take 63 (65 # zeros 63) = 65 # zeros 62" by (simp add: take_Cons')
  ultimately have "c_str (65 # zeros 63) 63 = [65]" by (simp add: c_str_def take_Cons' zeros_def)
  then show ?thesis by (simp add: padded_name_def)
qed

theorem wire_header_roundtrip_witness:
  "\<exists>wire. ar_event_wire_header_encode (Some demo_header) (Some (zeros 116)) = (AR_EVENT_OK, Some wire) \<and>
    ar_event_wire_header_decode (Some wire) (Some zero_header) = (AR_EVENT_OK, Some demo_header)"
  using wire_header_roundtrip [of "zeros 116" demo_header zero_header]
  by (auto simp: demo_header_def AR_EVENT_WIRE_VERSION_def demo_padded)

theorem wire_header_canonical_witness:
  "ar_event_wire_header_encode (Some demo_header) (Some (zeros 116)) =
    (AR_EVENT_OK, Some (concat (header_fields demo_header) @ 65 # zeros 63))"
proof -
  let ?w = "concat (header_fields demo_header) @ 65 # zeros 63"
  have "ar_event_wire_header_decode (Some ?w) (Some zero_header) = (AR_EVENT_OK, Some demo_header)"
    by (subst decode_layout) (simp_all add: demo_header_def AR_EVENT_WIRE_VERSION_def zeros_def)
  moreover have "length ?w = 116" by (simp del: length_concat)
  moreover have "bytes_at 52 64 ?w = 65 # zeros 63" by (simp add: bytes_at_def del: length_concat)
  ultimately show ?thesis
    using wire_header_canonical [of ?w "zeros 116" zero_header demo_header] by (simp add: demo_padded)
qed

end
