(* ===== verification/EventBrokerLaws.thy ===== *)
theory EventBrokerLaws
  imports EventBroker
begin

text \<open>
  What the event broker guarantees: the subscriber queue implements the bounded FIFO
  contract, the store invariant (no dangling or leaked subscription, quotas, exact
  topic accounting) holds in every reachable store, and emit and receive refine a
  list specification of delivery.
\<close>

section \<open>The queue implements the FIFO contract\<close>

definition queue_wf :: "ar_event_subscription \<Rightarrow> bool" where
  "queue_wf s \<longleftrightarrow>
     0 < queue_capacity s \<and> length (queue s) = queue_capacity s \<and>
     queue_head s < queue_capacity s \<and> queue_count s \<le> queue_capacity s"

definition pending_events :: "ar_event_subscription \<Rightarrow> ar_event_message list" where
  "pending_events s = ring_list (queue s) (queue_head s) (queue_count s)"

lemma length_pending_events [simp]: "length (pending_events s) = queue_count s"
  by (simp add: pending_events_def)

lemma pending_events_push:
  "queue_wf s \<Longrightarrow> queue_count s < queue_capacity s \<Longrightarrow>
    pending_events (queue_push s m) = pending_events s @ [m]"
  using ring_list_append [of "queue_count s" "queue s" "queue_head s" m]
  by (simp add: pending_events_def queue_push_def queue_wf_def Let_def)

lemma pending_events_Cons:
  assumes "queue_wf s" and "0 < queue_count s"
  shows "pending_events s = queue s ! queue_head s # pending_events (queue_pop s)"
proof -
  obtain n where n: "queue_count s = Suc n" using assms(2) by (cases "queue_count s") auto
  then show ?thesis
    using assms ring_list_clear_head [of "queue_head s" "queue s" n zero_message]
    by (auto simp: pending_events_def queue_pop_def queue_wf_def ring_list_Suc)
qed

interpretation event_queue: bounded_fifo pending_events queue_capacity queue_wf queue_push queue_pop
proof unfold_locales
  fix q :: ar_event_subscription and m
  assume wf: "queue_wf q"
  show "length (pending_events q) \<le> queue_capacity q" and "0 < queue_capacity q"
    using wf by (simp_all add: queue_wf_def)
  show "pending_events (queue_push q m) = pending_events q @ [m]"
    if "length (pending_events q) < queue_capacity q"
    using wf that by (simp add: pending_events_push)
  show "queue_wf (queue_push q m)" if "length (pending_events q) < queue_capacity q"
    using wf that by (simp add: queue_wf_def queue_push_def Let_def)
  assume ne: "pending_events q \<noteq> []"
  then have pos: "0 < queue_count q" by (metis length_pending_events length_greater_0_conv)
  show "pending_events (queue_pop q) = tl (pending_events q)"
    using wf pos by (simp add: pending_events_Cons)
  show "queue_wf (queue_pop q)" using wf by (auto simp: queue_wf_def queue_pop_def)
qed (simp_all add: queue_push_def queue_pop_def Let_def)

section \<open>One delivery\<close>

text \<open>The message an emit call queues.\<close>

definition event_message :: "ar_event_metadata \<Rightarrow> bytes option \<Rightarrow> nat \<Rightarrow> ar_event_message" where
  "event_message md pl payload_len =
     \<lparr>metadata = md,
      payload = (if 0 < payload_len then Some (take payload_len (the pl)) else None)\<rparr>"

text \<open>
  The specification of one delivery on the list of pending events: what the queue
  holds afterwards, given its capacity, its policy and whether the copy was made.
\<close>

definition deliver ::
  "nat \<Rightarrow> int \<Rightarrow> bool \<Rightarrow> ar_event_message \<Rightarrow> ar_event_message list \<Rightarrow> ar_event_message list" where
  "deliver cap pol copied m evs =
     (if (length evs = cap \<and> pol = AR_EVENT_OVERFLOW_DROP_NEWEST) \<or> \<not> copied then evs
      else drop (Suc (length evs) - cap) (evs @ [m]))"

abbreviation same_subscription :: "ar_event_subscription \<Rightarrow> ar_event_subscription \<Rightarrow> bool" where
  "same_subscription s t \<equiv>
     sub_broker t = sub_broker s \<and> owner t = owner s \<and> topic t = topic s \<and>
     overflow_policy t = overflow_policy s \<and> queue_capacity t = queue_capacity s"

lemma queue_push_same: "same_subscription s (queue_push s m)"
  by (simp add: queue_push_def Let_def)

lemma queue_pop_same: "same_subscription s (queue_pop s)"
  by (simp add: queue_pop_def)

lemma enqueue_drop_oldest:
  assumes "\<not> (queue_count s = queue_capacity s \<and> overflow_policy s = AR_EVENT_OVERFLOW_DROP_NEWEST)"
    and "0 < payload_len \<longrightarrow> copied"
  shows "fst (snd (enqueue_message s md pl payload_len copied r)) =
    event_queue.push_drop_oldest s (event_message md pl payload_len)"
  using assms by (simp add: enqueue_message_def event_queue.push_drop_oldest_def event_message_def Let_def)

lemma enqueue_refused:
  assumes "(queue_count s = queue_capacity s \<and> overflow_policy s = AR_EVENT_OVERFLOW_DROP_NEWEST) \<or>
      (0 < payload_len \<and> \<not> copied)"
  shows "fst (snd (enqueue_message s md pl payload_len copied r)) = s"
  using assms by (auto simp: enqueue_message_def)

lemma enqueue_same_subscription:
  "enqueue_message s md pl payload_len copied r = (e, s', r') \<Longrightarrow> same_subscription s s'"
  by (auto simp: enqueue_message_def Let_def queue_push_same queue_pop_same split: if_splits)

lemma enqueue_wf:
  assumes "queue_wf s" and "enqueue_message s md pl payload_len copied r = (e, s', r')"
  shows "queue_wf s'"
proof -
  have s': "s' = fst (snd (enqueue_message s md pl payload_len copied r))" using assms(2) by simp
  show ?thesis
    using assms(1) enqueue_drop_oldest [of s payload_len copied md pl r]
      enqueue_refused [of s payload_len copied md pl r] event_queue.drop_oldest_step(1) [of s]
    unfolding s' by metis
qed

lemma enqueue_pending:
  assumes "queue_wf s" and "enqueue_message s md pl payload_len copied r = (e, s', r')"
  shows "pending_events s' =
    deliver (queue_capacity s) (overflow_policy s) (payload_len = 0 \<or> copied)
      (event_message md pl payload_len) (pending_events s)"
proof -
  have s': "s' = fst (snd (enqueue_message s md pl payload_len copied r))" using assms(2) by simp
  show ?thesis
  proof (cases "(queue_count s = queue_capacity s \<and>
      overflow_policy s = AR_EVENT_OVERFLOW_DROP_NEWEST) \<or> (0 < payload_len \<and> \<not> copied)")
    case True
    then show ?thesis using enqueue_refused [OF True] by (auto simp: s' deliver_def)
  next
    case False
    then show ?thesis
      using enqueue_drop_oldest [of s payload_len copied md pl r] event_queue.drop_oldest_step(3) [OF assms(1)]
      by (auto simp: s' deliver_def)
  qed
qed

text \<open>The counters: each delivery counts exactly once as delivered or as rejected.\<close>

lemma enqueue_counts:
  "enqueue_message s md pl payload_len copied r = (e, s', r') \<Longrightarrow>
    delivered r' + rejected_newest r' = Suc (delivered r + rejected_newest r) \<and>
    (e = AR_EVENT_OK \<longleftrightarrow> rejected_newest r' = rejected_newest r) \<and>
    rejected_newest r \<le> rejected_newest r' \<and>
    dropped_oldest r' \<le> dropped_oldest r + (delivered r' - delivered r) \<and>
    delivered r \<le> delivered r'"
  by (auto simp: enqueue_message_def Let_def split: if_splits)

section \<open>The delivery loop\<close>

definition enqueued ::
  "ar_event_subscription \<Rightarrow> ar_event_metadata \<Rightarrow> bytes option \<Rightarrow> nat \<Rightarrow> bool \<Rightarrow> ar_event_subscription" where
  "enqueued s md pl payload_len copied =
     fst (snd (enqueue_message s md pl payload_len copied zero_result))"

lemma enqueued_eq:
  "fst (snd (enqueue_message s md pl payload_len copied r)) = enqueued s md pl payload_len copied"
  by (simp add: enqueued_def enqueue_message_def Let_def)

lemma enqueue_message_enqueued:
  "\<exists>e r'. enqueue_message s md pl payload_len copied r = (e, enqueued s md pl payload_len copied, r')"
  by (metis enqueued_eq prod.collapse)

lemma enqueued_same: "same_subscription s (enqueued s md pl payload_len copied)"
  by (metis enqueue_message_enqueued enqueue_same_subscription)

lemma enqueued_wf: "queue_wf s \<Longrightarrow> queue_wf (enqueued s md pl payload_len copied)"
  by (metis enqueue_message_enqueued enqueue_wf)

lemma enqueued_pending:
  "queue_wf s \<Longrightarrow> pending_events (enqueued s md pl payload_len copied) =
    deliver (queue_capacity s) (overflow_policy s) (payload_len = 0 \<or> copied)
      (event_message md pl payload_len) (pending_events s)"
  by (metis enqueue_message_enqueued enqueue_pending)

lemma find_index_Cons_neq [simp]: "x \<noteq> p \<Longrightarrow> find_index x (p # ps) = Suc (find_index x ps)"
  by auto

lemma find_index_less: "p \<in> set ps \<Longrightarrow> find_index p ps < length ps"
  by (induction ps) auto

lemma find_index_nth: "p \<in> set ps \<Longrightarrow> ps ! find_index p ps = p"
  by (induction ps) auto

lemma find_index_absent: "find_index p ps = length ps \<longleftrightarrow> p \<notin> set ps"
  by (induction ps) auto

text \<open>
  The loop always finishes on live subscriptions; it visits every subscription of
  the topic exactly once and touches nothing else.
\<close>

definition delivered_to ::
  "nat \<Rightarrow> addr list \<Rightarrow> ar_event_metadata \<Rightarrow> bytes option \<Rightarrow> nat \<Rightarrow> (nat \<Rightarrow> bool) \<Rightarrow>
   (addr \<rightharpoonup> ar_event_subscription) \<Rightarrow> (addr \<rightharpoonup> ar_event_subscription)" where
  "delivered_to i ps md pl payload_len mem heap =
     (\<lambda>p. if p \<in> set ps
          then map_option (\<lambda>s. if topic s = md_topic md
                 then enqueued s md pl payload_len (mem (i + find_index p ps)) else s) (heap p)
          else heap p)"

lemma delivered_to_Cons_other:
  "p \<notin> set ps \<Longrightarrow> heap p = Some s \<Longrightarrow> topic s \<noteq> md_topic md \<Longrightarrow>
    delivered_to i (p # ps) md pl payload_len mem heap =
    delivered_to (Suc i) ps md pl payload_len mem heap"
  by (rule ext) (auto simp: delivered_to_def cong: if_cong)

lemma delivered_to_Cons_match:
  "p \<notin> set ps \<Longrightarrow> heap p = Some s \<Longrightarrow> topic s = md_topic md \<Longrightarrow>
    delivered_to i (p # ps) md pl payload_len mem heap =
    delivered_to (Suc i) ps md pl payload_len mem
      (heap(p \<mapsto> enqueued s md pl payload_len (mem i)))"
  by (rule ext) (auto simp: delivered_to_def cong: if_cong)

definition matching :: "(addr \<rightharpoonup> ar_event_subscription) \<Rightarrow> u16 \<Rightarrow> addr list \<Rightarrow> addr list" where
  "matching heap tp ps = filter (\<lambda>p. \<exists>s. heap p = Some s \<and> topic s = tp) ps"

lemma matching_upd_other: "p \<notin> set ps \<Longrightarrow> matching (heap(p \<mapsto> s)) tp ps = matching heap tp ps"
  by (auto simp: matching_def intro!: filter_cong)

lemma emit_loop_delivers:
  assumes "distinct ps" and "\<forall>p\<in>set ps. heap p \<noteq> None"
  shows "\<exists>status result.
    emit_loop i ps md pl payload_len mem heap r e =
      Some (status, result, delivered_to i ps md pl payload_len mem heap) \<and>
    delivered result + rejected_newest result =
      delivered r + rejected_newest r + length (matching heap (md_topic md) ps) \<and>
    rejected_newest r \<le> rejected_newest result \<and>
    delivered r \<le> delivered result \<and>
    dropped_oldest result \<le> dropped_oldest r + (delivered result - delivered r) \<and>
    status = (if rejected_newest result = rejected_newest r then e else AR_EVENT_PARTIAL)"
  using assms
proof (induction ps arbitrary: i heap r e)
  case Nil
  then show ?case by (auto simp: delivered_to_def matching_def)
next
  case (Cons p ps)
  then obtain s where s: "heap p = Some s" by auto
  show ?case
  proof (cases "topic s = md_topic md")
    case False
    have "matching heap (md_topic md) (p # ps) = matching heap (md_topic md) ps"
      using False s by (simp add: matching_def)
    then show ?thesis
      using Cons.IH [of heap "Suc i" r e] Cons.prems False s
      by (simp add: delivered_to_Cons_other [where p = p and s = s])
  next
    case True
    obtain e1 r1 where e1: "enqueue_message s md pl payload_len (mem i) r =
        (e1, enqueued s md pl payload_len (mem i), r1)"
      using enqueue_message_enqueued by blast
    let ?heap = "heap(p \<mapsto> enqueued s md pl payload_len (mem i))"
    have m: "matching heap (md_topic md) (p # ps) = p # matching ?heap (md_topic md) ps"
      using True s Cons.prems by (simp add: matching_upd_other) (simp add: matching_def)
    have d: "delivered_to i (p # ps) md pl payload_len mem heap =
        delivered_to (Suc i) ps md pl payload_len mem ?heap"
      using Cons.prems True s by (intro delivered_to_Cons_match) auto
    have IH: "\<exists>status result.
        emit_loop (Suc i) ps md pl payload_len mem ?heap r1
            (if e1 \<noteq> AR_EVENT_OK then AR_EVENT_PARTIAL else e) =
          Some (status, result, delivered_to (Suc i) ps md pl payload_len mem ?heap) \<and>
        delivered result + rejected_newest result =
          delivered r1 + rejected_newest r1 + length (matching ?heap (md_topic md) ps) \<and>
        rejected_newest r1 \<le> rejected_newest result \<and>
        delivered r1 \<le> delivered result \<and>
        dropped_oldest result \<le> dropped_oldest r1 + (delivered result - delivered r1) \<and>
        status = (if rejected_newest result = rejected_newest r1
          then (if e1 \<noteq> AR_EVENT_OK then AR_EVENT_PARTIAL else e) else AR_EVENT_PARTIAL)"
      using Cons.prems by (intro Cons.IH) auto
    then obtain status result where
      run: "emit_loop (Suc i) ps md pl payload_len mem ?heap r1
            (if e1 \<noteq> AR_EVENT_OK then AR_EVENT_PARTIAL else e) =
          Some (status, result, delivered_to (Suc i) ps md pl payload_len mem ?heap)"
      and facts: "delivered result + rejected_newest result =
          delivered r1 + rejected_newest r1 + length (matching ?heap (md_topic md) ps)"
        "rejected_newest r1 \<le> rejected_newest result" "delivered r1 \<le> delivered result"
        "dropped_oldest result \<le> dropped_oldest r1 + (delivered result - delivered r1)"
        "status = (if rejected_newest result = rejected_newest r1
          then (if e1 \<noteq> AR_EVENT_OK then AR_EVENT_PARTIAL else e) else AR_EVENT_PARTIAL)"
      by blast
    have "emit_loop i (p # ps) md pl payload_len mem heap r e =
        Some (status, result, delivered_to i (p # ps) md pl payload_len mem heap)"
      using run s True by (simp add: e1 d)
    moreover have "status = (if rejected_newest result = rejected_newest r then e else AR_EVENT_PARTIAL)"
      using facts enqueue_counts [OF e1] by auto
    moreover have "delivered result + rejected_newest result =
        delivered r + rejected_newest r + length (matching heap (md_topic md) (p # ps))"
      using facts enqueue_counts [OF e1] by (simp add: m)
    ultimately show ?thesis
      using facts enqueue_counts [OF e1]
      by (intro exI [of _ status] exI [of _ result] conjI) linarith+
  qed
qed

section \<open>The invariant\<close>

definition message_ok :: "u16 \<Rightarrow> ar_event_message \<Rightarrow> bool" where
  "message_ok tp m \<longleftrightarrow>
     md_topic (metadata m) = tp \<and>
     (case payload m of None \<Rightarrow> md_payload_len (metadata m) = 0
      | Some bs \<Rightarrow> length bs = md_payload_len (metadata m))"

definition subscription_ok ::
  "addr \<Rightarrow> ar_event_broker \<Rightarrow> ar_event_subscription \<Rightarrow> bool" where
  "subscription_ok b broker s \<longleftrightarrow>
     sub_broker s = Some b \<and> topic s \<noteq> 0 \<and> queue_wf s \<and>
     queue_capacity s = subscriber_queue_depth (config broker) \<and>
     (\<forall>m \<in> set (pending_events s). message_ok (topic s) m)"

definition topics_of :: "(addr \<rightharpoonup> ar_event_subscription) \<Rightarrow> addr list \<Rightarrow> u16 set" where
  "topics_of heap ps = (\<lambda>p. topic (the (heap p))) ` set ps"

definition no_duplicates :: "(addr \<rightharpoonup> ar_event_subscription) \<Rightarrow> addr list \<Rightarrow> bool" where
  "no_duplicates heap ps \<longleftrightarrow>
     (\<forall>p \<in> set ps. \<forall>q \<in> set ps. \<forall>s t. heap p = Some s \<longrightarrow> heap q = Some t \<longrightarrow> p \<noteq> q \<longrightarrow>
        \<not> (topic s = topic t \<and> identity_equal (owner s) (owner t)))"

definition broker_inv ::
  "(addr \<rightharpoonup> ar_event_subscription) \<Rightarrow> addr \<Rightarrow> ar_event_broker \<Rightarrow> bool" where
  "broker_inv heap b broker \<longleftrightarrow>
     config_in_limits (config broker) \<and>
     distinct (subscriptions broker) \<and>
     length (subscriptions broker) \<le> max_subscribers (config broker) \<and>
     topic_count broker = card (topics_of heap (subscriptions broker)) \<and>
     topic_count broker \<le> max_topics (config broker) \<and>
     no_duplicates heap (subscriptions broker) \<and>
     (\<forall>p \<in> set (subscriptions broker). \<exists>s. heap p = Some s \<and> subscription_ok b broker s)"

text \<open>No live broker holds a dangling pointer, and no live subscription is lost.\<close>

definition store_inv :: "event_store \<Rightarrow> bool" where
  "store_inv st \<longleftrightarrow>
     (\<forall>b broker. brokers st b = Some broker \<longrightarrow> broker_inv (subs st) b broker) \<and>
     (\<forall>p s. subs st p = Some s \<longrightarrow>
        (\<exists>b broker. sub_broker s = Some b \<and> brokers st b = Some broker \<and>
           p \<in> set (subscriptions broker)))"

lemma store_inv_broker: "store_inv st \<Longrightarrow> brokers st b = Some broker \<Longrightarrow> broker_inv (subs st) b broker"
  by (simp add: store_inv_def)

lemma store_inv_owner:
  "store_inv st \<Longrightarrow> subs st p = Some s \<Longrightarrow>
    \<exists>b broker. sub_broker s = Some b \<and> brokers st b = Some broker \<and> p \<in> set (subscriptions broker)"
  by (simp add: store_inv_def)

lemma broker_inv_live:
  "broker_inv heap b broker \<Longrightarrow> p \<in> set (subscriptions broker) \<Longrightarrow>
    \<exists>s. heap p = Some s \<and> subscription_ok b broker s"
  by (simp add: broker_inv_def)

lemma broker_inv_nonnull:
  "broker_inv heap b broker \<Longrightarrow> \<forall>p\<in>set (subscriptions broker). heap p \<noteq> None"
  by (fastforce dest: broker_inv_live)

text \<open>The invariant of a broker depends on its own subscriptions only.\<close>

lemma broker_inv_cong:
  assumes "\<And>p. p \<in> set (subscriptions broker) \<Longrightarrow> heap' p = heap p"
  shows "broker_inv heap' b broker = broker_inv heap b broker"
proof -
  have "topics_of heap' (subscriptions broker) = topics_of heap (subscriptions broker)"
    using assms by (auto simp: topics_of_def)
  moreover have "no_duplicates heap' (subscriptions broker) = no_duplicates heap (subscriptions broker)"
    using assms by (simp add: no_duplicates_def)
  ultimately show ?thesis using assms by (simp add: broker_inv_def)
qed

text \<open>Updating queues in place, subscription by subscription, keeps the invariant.\<close>

lemma broker_inv_requeue:
  assumes inv: "broker_inv heap b broker"
    and upd: "\<And>p s. p \<in> set (subscriptions broker) \<Longrightarrow> heap p = Some s \<Longrightarrow>
      \<exists>s'. heap' p = Some s' \<and> same_subscription s s' \<and> subscription_ok b broker s'"
    and same: "config broker' = config broker" "subscriptions broker' = subscriptions broker"
      "topic_count broker' = topic_count broker"
  shows "broker_inv heap' b broker'"
proof -
  have live: "\<exists>s s'. heap p = Some s \<and> heap' p = Some s' \<and> same_subscription s s' \<and>
      subscription_ok b broker s'" if "p \<in> set (subscriptions broker)" for p
    using broker_inv_live [OF inv that] upd [OF that] by blast
  have "topics_of heap' (subscriptions broker) = topics_of heap (subscriptions broker)"
    unfolding topics_of_def by (rule image_cong) (use live in fastforce)+
  moreover have "no_duplicates heap' (subscriptions broker)"
    unfolding no_duplicates_def
  proof (intro ballI allI impI)
    fix p q s' t'
    assume p: "p \<in> set (subscriptions broker)" "q \<in> set (subscriptions broker)"
      and h: "heap' p = Some s'" "heap' q = Some t'" "p \<noteq> q"
    obtain s t where "heap p = Some s" "same_subscription s s'" "heap q = Some t" "same_subscription t t'"
      using live [OF p(1)] live [OF p(2)] h by auto
    moreover have "no_duplicates heap (subscriptions broker)" using inv by (simp add: broker_inv_def)
    ultimately show "\<not> (topic s' = topic t' \<and> identity_equal (owner s') (owner t'))"
      using p h(3) by (simp add: no_duplicates_def)
  qed
  ultimately show ?thesis using inv live
    by (fastforce simp: broker_inv_def same subscription_ok_def)
qed

lemma other_broker_heap:
  assumes "store_inv st" and "brokers st b = Some broker" and "brokers st c = Some broker2" and "b \<noteq> c"
    and "p \<in> set (subscriptions broker)"
  shows "p \<notin> set (subscriptions broker2)"
proof
  assume "p \<in> set (subscriptions broker2)"
  then obtain s where "subs st p = Some s" "sub_broker s = Some c"
    using broker_inv_live [OF store_inv_broker [OF assms(1,3)]] by (auto simp: subscription_ok_def)
  moreover obtain t where "subs st p = Some t" "sub_broker t = Some b"
    using broker_inv_live [OF store_inv_broker [OF assms(1,2)] assms(5)] by (auto simp: subscription_ok_def)
  ultimately show False using assms(4) by simp
qed

section \<open>Every operation keeps the invariant\<close>

lemma topic_present_except_live:
  assumes "\<And>p. p \<in> set ps \<Longrightarrow> Some p \<noteq> ex \<Longrightarrow> heap p \<noteq> None"
  shows "topic_present_except heap ps tp ex =
    Some (\<exists>p \<in> set ps. Some p \<noteq> ex \<and> topic (the (heap p)) = tp)"
  using assms
proof (induction ps)
  case (Cons p ps)
  then show ?case using Cons.prems [of p] by (cases "heap p") auto
qed simp

lemma subscription_exists_live:
  assumes "\<And>p. p \<in> set ps \<Longrightarrow> heap p \<noteq> None"
  shows "subscription_exists heap ps tp consumer =
    Some (\<exists>p \<in> set ps. topic (the (heap p)) = tp \<and> identity_equal (owner (the (heap p))) consumer)"
  using assms
proof (induction ps)
  case (Cons p ps)
  then show ?case using Cons.prems [of p] by (cases "heap p") auto
qed simp

lemma identity_equal_sym: "identity_equal a c = identity_equal c a"
  by (auto simp: identity_equal_def strncmp_eq_def)

lemma create_inv:
  assumes "store_inv st" and "\<And>a. alloc = Some a \<Longrightarrow> brokers st a = None"
    and "ar_event_broker_create cfg auth out alloc arr st = (status, bp, st')"
  shows "store_inv st'"
proof (cases "status = AR_EVENT_OK")
  case False
  then have "st' = st" using assms(3)
    by (auto simp: ar_event_broker_create_def split: if_splits option.splits)
  then show ?thesis using assms(1) by simp
next
  case True
  then obtain c a where c: "config_in_limits c" and a: "alloc = Some a"
    and st': "st' = st\<lparr>brokers := (brokers st)(a \<mapsto>
      \<lparr>config = c, authorize = auth, subscriptions = [], topic_count = 0, next_sequence = 1\<rparr>)\<rparr>"
    using assms(3) by (auto simp: ar_event_broker_create_def split: if_splits option.splits)
  have "broker_inv (subs st) a
      \<lparr>config = c, authorize = auth, subscriptions = [], topic_count = 0, next_sequence = 1\<rparr>"
    using c by (simp add: broker_inv_def topics_of_def no_duplicates_def)
  then show ?thesis using assms(1) assms(2) [OF a] unfolding st' store_inv_def
    by (auto simp: fun_upd_def) (metis option.distinct(1))
qed

lemma destroy_inv:
  assumes inv: "store_inv st" and "ar_event_broker_destroy bp st = Some st'"
  shows "store_inv st'"
proof (cases bp)
  case None
  then show ?thesis using assms by simp
next
  case (Some b)
  then obtain broker where b: "brokers st b = Some broker"
    and st': "st' = st\<lparr>brokers := (brokers st)(b := None),
      subs := free_subscriptions (subscriptions broker) (subs st)\<rparr>"
    using assms(2) by (auto split: option.splits)
  have keep: "broker_inv (subs st') c broker2" if "brokers st' c = Some broker2" for c broker2
  proof -
    from that have c: "brokers st c = Some broker2" "c \<noteq> b" by (auto simp: st' split: if_splits)
    have "subs st' p = subs st p" if "p \<in> set (subscriptions broker2)" for p
      using other_broker_heap [OF inv c(1) b c(2) that] by (simp add: st' free_subscriptions_def)
    then show ?thesis using store_inv_broker [OF inv c(1)] by (simp cong: broker_inv_cong)
  qed
  have "\<exists>c broker2. sub_broker s = Some c \<and> brokers st' c = Some broker2 \<and>
      p \<in> set (subscriptions broker2)" if "subs st' p = Some s" for p s
  proof -
    have p: "p \<notin> set (subscriptions broker)" "subs st p = Some s"
      using that by (auto simp: st' free_subscriptions_def split: if_splits)
    then obtain c broker2 where "sub_broker s = Some c" "brokers st c = Some broker2"
      "p \<in> set (subscriptions broker2)" using store_inv_owner [OF inv] by blast
    moreover from this p b have "c \<noteq> b" by auto
    ultimately show ?thesis by (auto simp: st')
  qed
  with keep show ?thesis by (simp add: store_inv_def)
qed

lemma message_ok_event:
  "payload_len \<le> length (the pl) \<or> payload_len = 0 \<Longrightarrow> md_payload_len md = payload_len \<Longrightarrow>
    message_ok (md_topic md) (event_message md pl payload_len)"
  by (auto simp: message_ok_def event_message_def)

lemma set_deliver: "set (deliver cap pol c m evs) \<subseteq> insert m (set evs)"
  by (auto simp: deliver_def dest: in_set_dropD split: if_splits)

lemma subscription_ok_enqueued:
  assumes "subscription_ok b broker s" and "topic s = md_topic md" and "md_payload_len md = payload_len"
    and "payload_len \<le> length (the pl) \<or> payload_len = 0"
  shows "subscription_ok b broker (enqueued s md pl payload_len c)"
proof -
  have wf: "queue_wf s" using assms(1) by (simp add: subscription_ok_def)
  have "message_ok (topic s) m" if "m \<in> set (pending_events (enqueued s md pl payload_len c))" for m
    using that set_deliver message_ok_event [OF assms(4,3)] assms(1,2)
    unfolding enqueued_pending [OF wf] subscription_ok_def by fastforce
  then show ?thesis
    using assms(1) enqueued_wf [OF wf] enqueued_same [of s md pl payload_len c]
    by (simp add: subscription_ok_def)
qed

lemma subscription_ok_pop:
  assumes "subscription_ok b broker s" and "0 < queue_count s"
  shows "subscription_ok b broker (queue_pop s)"
proof -
  have wf: "queue_wf s" using assms(1) by (simp add: subscription_ok_def)
  have "queue_wf (queue_pop s)" using wf by (auto simp: queue_wf_def queue_pop_def)
  moreover have "set (pending_events (queue_pop s)) \<subseteq> set (pending_events s)"
    by (simp add: pending_events_Cons [OF wf assms(2)] subset_insertI)
  ultimately show ?thesis using assms(1) queue_pop_same [of s] by (auto simp: subscription_ok_def)
qed

lemma fresh_not_subscribed:
  "store_inv st \<Longrightarrow> subs st s = None \<Longrightarrow> brokers st b = Some broker \<Longrightarrow> s \<notin> set (subscriptions broker)"
  using broker_inv_live [OF store_inv_broker, of st b broker s] by auto

text \<open>A store that differs from a good one in one broker and that broker's subscriptions.\<close>

lemma store_inv_update:
  assumes inv: "store_inv st" and b: "brokers st b = Some broker"
    and heap: "\<And>p. p \<notin> set (subscriptions broker) \<union> set (subscriptions broker') \<Longrightarrow> heap p = subs st p"
    and fresh: "\<And>p. p \<in> set (subscriptions broker') - set (subscriptions broker) \<Longrightarrow> subs st p = None"
    and gone: "\<And>p. p \<in> set (subscriptions broker) - set (subscriptions broker') \<Longrightarrow> heap p = None"
    and good: "broker_inv heap b broker'"
  shows "store_inv (st\<lparr>brokers := (brokers st)(b \<mapsto> broker'), subs := heap\<rparr>)"
proof -
  have "broker_inv heap c broker2" if "brokers st c = Some broker2" "c \<noteq> b" for c broker2
  proof -
    have "heap p = subs st p" if p: "p \<in> set (subscriptions broker2)" for p
    proof (rule heap)
      have "subs st p \<noteq> None"
        using broker_inv_live [OF store_inv_broker [OF inv \<open>brokers st c = Some broker2\<close>] p] by auto
      then show "p \<notin> set (subscriptions broker) \<union> set (subscriptions broker')"
        using other_broker_heap [OF inv \<open>brokers st c = Some broker2\<close> b \<open>c \<noteq> b\<close> p] fresh by auto
    qed
    then show ?thesis using store_inv_broker [OF inv that(1)] by (simp cong: broker_inv_cong)
  qed
  moreover have "\<exists>c broker2. sub_broker s = Some c \<and> ((brokers st)(b \<mapsto> broker')) c = Some broker2 \<and>
      p \<in> set (subscriptions broker2)" if p: "heap p = Some s" for p s
  proof (cases "p \<in> set (subscriptions broker')")
    case True
    then show ?thesis using broker_inv_live [OF good True] p by (auto simp: subscription_ok_def)
  next
    case False
    then have "p \<notin> set (subscriptions broker)" using gone p by auto
    with False have "subs st p = Some s" using heap p by auto
    then obtain c broker2 where "sub_broker s = Some c" "brokers st c = Some broker2"
      "p \<in> set (subscriptions broker2)" using store_inv_owner [OF inv] by blast
    moreover from this b \<open>p \<notin> set (subscriptions broker)\<close> have "c \<noteq> b" by auto
    ultimately show ?thesis by auto
  qed
  ultimately show ?thesis using good by (auto simp: store_inv_def)
qed

lemma topics_of_snoc:
  "s \<notin> set ps \<Longrightarrow> topics_of (heap(s \<mapsto> sub)) (ps @ [s]) = insert (topic sub) (topics_of heap ps)"
  by (auto simp: topics_of_def)

lemma in_topics_of: "t \<in> topics_of heap ps \<longleftrightarrow> (\<exists>p \<in> set ps. topic (the (heap p)) = t)"
  by (auto simp: topics_of_def)

lemma finite_topics_of [simp]: "finite (topics_of heap ps)"
  by (simp add: topics_of_def)

lemma add_subscription_inv:
  assumes inv: "store_inv st" and b: "brokers st b = Some broker" and s: "subs st s = None"
    and room: "length (subscriptions broker) < max_subscribers (config broker)"
    and nodup: "\<not> (\<exists>p \<in> set (subscriptions broker). topic (the (subs st p)) = topic sub \<and>
        identity_equal (owner (the (subs st p))) (owner sub))"
    and quota: "topic sub \<in> topics_of (subs st) (subscriptions broker) \<or>
        topic_count broker < max_topics (config broker)"
    and ok: "subscription_ok b broker sub"
    and add: "add_subscription b broker s sub st = Some st'"
  shows "store_inv st'"
proof -
  let ?ps = "subscriptions broker" and ?heap = "(subs st)(s \<mapsto> sub)"
  have binv: "broker_inv (subs st) b broker" using inv b by (rule store_inv_broker)
  have new: "s \<notin> set ?ps" using fresh_not_subscribed [OF inv s b] .
  let ?present = "topic sub \<in> topics_of (subs st) ?ps"
  have "topic_present_except ?heap (?ps @ [s]) (topic sub) (Some s) = Some ?present"
    using new broker_inv_nonnull [OF binv]
    by (subst topic_present_except_live) (auto simp: in_topics_of)
  then have st': "st' = st\<lparr>brokers := (brokers st)(b \<mapsto> broker\<lparr>subscriptions := ?ps @ [s],
      topic_count := (if ?present then topic_count broker else Suc (topic_count broker))\<rparr>), subs := ?heap\<rparr>"
    using add by (simp add: add_subscription_def)
  have dup: "no_duplicates ?heap (?ps @ [s])"
    using binv nodup new by (auto simp: broker_inv_def no_duplicates_def identity_equal_sym split: if_splits)
  have live: "\<exists>t. ?heap p = Some t \<and> subscription_ok b broker t" if "p \<in> set (?ps @ [s])" for p
    using that ok broker_inv_live [OF binv] by auto
  have tc: "(if ?present then topic_count broker else Suc (topic_count broker)) =
      card (topics_of ?heap (?ps @ [s]))"
    using binv by (simp add: topics_of_snoc [OF new] broker_inv_def insert_absorb)
  have bound: "(if ?present then topic_count broker else Suc (topic_count broker)) \<le>
      max_topics (config broker)"
    using quota binv by (auto simp: broker_inv_def)
  have "broker_inv ?heap b (broker\<lparr>subscriptions := ?ps @ [s],
      topic_count := (if ?present then topic_count broker else Suc (topic_count broker))\<rparr>)"
    unfolding broker_inv_def
  proof (intro conjI)
    show "\<forall>p\<in>set (subscriptions (broker\<lparr>subscriptions := ?ps @ [s], topic_count :=
        if ?present then topic_count broker else Suc (topic_count broker)\<rparr>)).
        \<exists>t. ?heap p = Some t \<and> subscription_ok b (broker\<lparr>subscriptions := ?ps @ [s], topic_count :=
        if ?present then topic_count broker else Suc (topic_count broker)\<rparr>) t"
      using live by (simp add: subscription_ok_def)
  qed (use binv dup tc new room bound in \<open>auto simp: broker_inv_def\<close>)
  then show ?thesis unfolding st'
    by (intro store_inv_update [OF inv b]) (auto simp: s new)
qed

lemma subscribe_fail_same:
  "ar_event_broker_subscribe bp consumer tp pol out alloc aq st = Some (status, sp, st') \<Longrightarrow>
    status \<noteq> AR_EVENT_OK \<Longrightarrow> st' = st"
  by (auto simp: ar_event_broker_subscribe_def split: if_splits option.splits bool.splits)

text \<open>What a successful subscribe has checked.\<close>

lemma subscribe_ok_elim:
  assumes "ar_event_broker_subscribe bp consumer tp pol out alloc aq st = Some (AR_EVENT_OK, sp, st')"
  obtains b c broker s present where
    "bp = Some b" "consumer = Some c" "valid_identity (Some c)" "tp \<noteq> 0"
    "brokers st b = Some broker" "alloc = Some s" "sp = Some s"
    "authorize_action broker AR_EVENT_AUTHORIZE_SUBSCRIBE c (Some c) tp = AR_EVENT_OK"
    "length (subscriptions broker) < max_subscribers (config broker)"
    "subscription_exists (subs st) (subscriptions broker) tp c = Some False"
    "topic_present_except (subs st) (subscriptions broker) tp None = Some present"
    "present \<or> topic_count broker < max_topics (config broker)"
    "add_subscription b broker s (new_subscription b broker c tp pol) st = Some st'"
proof -
  have "\<exists>c. consumer = Some c" using assms
    by (cases consumer) (auto simp: ar_event_broker_subscribe_def split: if_splits option.splits)
  then show thesis using assms that
    by (auto simp: ar_event_broker_subscribe_def split: if_splits option.splits bool.splits)
qed

lemma new_subscription_ok:
  assumes "config_in_limits (config broker)" and "tp \<noteq> 0"
  shows "subscription_ok b broker (new_subscription b broker c tp pol)"
  using assms
  by (simp add: subscription_ok_def new_subscription_def queue_wf_def config_in_limits_def pending_events_def)

lemma subscribe_inv:
  assumes inv: "store_inv st" and fresh: "\<And>s. alloc = Some s \<Longrightarrow> subs st s = None"
    and run: "ar_event_broker_subscribe bp consumer tp pol out alloc aq st = Some (status, sp, st')"
  shows "store_inv st'"
proof (cases "status = AR_EVENT_OK")
  case False
  then show ?thesis using subscribe_fail_same [OF run] inv by simp
next
  case True
  from run [unfolded True] show ?thesis
  proof (rule subscribe_ok_elim)
    fix b c broker s present
    assume h: "brokers st b = Some broker" "alloc = Some s" "tp \<noteq> 0"
      "length (subscriptions broker) < max_subscribers (config broker)"
      "subscription_exists (subs st) (subscriptions broker) tp c = Some False"
      "topic_present_except (subs st) (subscriptions broker) tp None = Some present"
      "present \<or> topic_count broker < max_topics (config broker)"
      "add_subscription b broker s (new_subscription b broker c tp pol) st = Some st'"
    have binv: "broker_inv (subs st) b broker" using inv h(1) by (rule store_inv_broker)
    note live = broker_inv_nonnull [OF binv]
    show ?thesis
    proof (rule add_subscription_inv [OF inv h(1) fresh [OF h(2)] h(4) _ _ _ h(8)])
      show "subscription_ok b broker (new_subscription b broker c tp pol)"
        using binv h(3) by (simp add: new_subscription_ok broker_inv_def)
      show "\<not> (\<exists>p\<in>set (subscriptions broker).
          topic (the (subs st p)) = topic (new_subscription b broker c tp pol) \<and>
          identity_equal (owner (the (subs st p))) (owner (new_subscription b broker c tp pol)))"
        using h(5) live by (simp add: subscription_exists_live new_subscription_def)
      show "topic (new_subscription b broker c tp pol) \<in> topics_of (subs st) (subscriptions broker) \<or>
          topic_count broker < max_topics (config broker)"
        using h(6,7) live by (auto simp: topic_present_except_live new_subscription_def in_topics_of)
    qed
  qed
qed

lemma set_swap_remove:
  assumes "distinct xs" and "i < length xs"
  shows "set (butlast (xs[i := last xs])) = set xs - {xs ! i}"
    and "distinct (butlast (xs[i := last xs]))"
proof -
  have m: "mset (butlast (xs[i := last xs])) = mset xs - {# xs ! i #}"
    using assms(2) by (rule mset_swap_remove)
  have "mset xs - {# xs ! i #} = mset (remove1 (xs ! i) xs)" by simp
  with m have mr: "mset (butlast (xs[i := last xs])) = mset (remove1 (xs ! i) xs)" by metis
  show "distinct (butlast (xs[i := last xs]))"
    using mset_eq_imp_distinct_iff [OF mr] assms(1) by (simp add: distinct_remove1)
  show "set (butlast (xs[i := last xs])) = set xs - {xs ! i}"
    using mset_eq_setD [OF mr] assms(1) by simp
qed

lemma remove_subscription_inv:
  assumes inv: "store_inv st" and b: "brokers st b = Some broker"
    and s: "s \<in> set (subscriptions broker)" and sub: "subs st s = Some sub"
    and present: "present \<longleftrightarrow> (\<exists>p \<in> set (subscriptions broker). p \<noteq> s \<and>
      topic (the (subs st p)) = topic sub)"
  shows "store_inv (remove_subscription b broker s (find_index s (subscriptions broker)) (\<not> present) st)"
proof -
  let ?ps = "subscriptions broker"
  let ?i = "find_index s ?ps"
  let ?qs = "butlast (?ps[?i := last ?ps])" and ?heap = "(subs st)(s := None)"
  let ?broker = "broker\<lparr>subscriptions := ?qs, topic_count :=
    (if \<not> present then topic_count broker - 1 else topic_count broker)\<rparr>"
  have binv: "broker_inv (subs st) b broker" using inv b by (rule store_inv_broker)
  have dist: "distinct ?ps" using binv by (simp add: broker_inv_def)
  have qs: "set ?qs = set ?ps - {s}" and dqs: "distinct ?qs"
    using set_swap_remove [OF dist find_index_less [OF s]] by (simp_all add: find_index_nth [OF s])
  have tops: "topics_of (subs st) ?ps = insert (topic sub) (topics_of ?heap ?qs)"
    using s sub by (intro set_eqI) (force simp: in_topics_of qs)
  have pres: "present \<longleftrightarrow> topic sub \<in> topics_of ?heap ?qs"
    by (auto simp: present in_topics_of qs)
  have tc: "topic_count ?broker = card (topics_of ?heap ?qs)"
    using binv by (auto simp: broker_inv_def tops pres insert_absorb)
  have len: "length ?qs \<le> max_subscribers (config broker)"
    using binv by (auto simp: broker_inv_def)
  have "no_duplicates ?heap ?qs"
    using binv by (auto simp: broker_inv_def no_duplicates_def qs)
  moreover have "\<exists>t. ?heap p = Some t \<and> subscription_ok b ?broker t" if "p \<in> set ?qs" for p
    using that broker_inv_live [OF binv, of p] by (auto simp: qs subscription_ok_def)
  moreover have "topic_count ?broker \<le> max_topics (config broker)"
    using binv by (auto simp: broker_inv_def)
  ultimately have good: "broker_inv ?heap b ?broker"
    unfolding broker_inv_def using binv dqs tc len by (simp add: broker_inv_def)
  have "store_inv (st\<lparr>brokers := (brokers st)(b \<mapsto> ?broker), subs := ?heap\<rparr>)"
  proof (rule store_inv_update [OF inv b _ _ _ good])
    fix p assume "p \<notin> set ?ps \<union> set (subscriptions ?broker)"
    then have "p \<noteq> s" using s by blast
    then show "?heap p = subs st p" by simp
  qed (auto simp: qs)
  then show ?thesis by (simp add: remove_subscription_def)
qed

lemma unsubscribe_fail_same:
  "ar_event_broker_unsubscribe bp actor sp st = Some (status, st') \<Longrightarrow>
    status \<noteq> AR_EVENT_OK \<Longrightarrow> st' = st"
  by (auto simp: ar_event_broker_unsubscribe_def Let_def split: if_splits option.splits)

lemma unsubscribe_ok_elim:
  assumes "ar_event_broker_unsubscribe bp actor sp st = Some (AR_EVENT_OK, st')"
  obtains b a s sub broker present where
    "bp = Some b" "sp = Some s" "actor = Some a" "valid_identity (Some a)"
    "subs st s = Some sub" "sub_broker sub = Some b" "brokers st b = Some broker"
    "authorize_action broker AR_EVENT_AUTHORIZE_UNSUBSCRIBE a (Some (owner sub)) (topic sub) = AR_EVENT_OK"
    "s \<in> set (subscriptions broker)"
    "topic_present_except (subs st) (subscriptions broker) (topic sub) (Some s) = Some present"
    "st' = remove_subscription b broker s (find_index s (subscriptions broker)) (\<not> present) st"
proof -
  have "\<exists>a. actor = Some a" using assms
    by (cases actor) (auto simp: ar_event_broker_unsubscribe_def Let_def split: if_splits option.splits)
  then show thesis using assms that
    by (auto simp: ar_event_broker_unsubscribe_def Let_def find_index_absent
        split: if_splits option.splits)
qed

lemma unsubscribe_inv:
  assumes inv: "store_inv st" and run: "ar_event_broker_unsubscribe bp actor sp st = Some (status, st')"
  shows "store_inv st'"
proof (cases "status = AR_EVENT_OK")
  case False
  then show ?thesis using unsubscribe_fail_same [OF run] inv by simp
next
  case True
  from run [unfolded True] show ?thesis
  proof (rule unsubscribe_ok_elim)
    fix b s sub broker present
    assume h: "subs st s = Some sub" "brokers st b = Some broker" "s \<in> set (subscriptions broker)"
      "topic_present_except (subs st) (subscriptions broker) (topic sub) (Some s) = Some present"
      "st' = remove_subscription b broker s (find_index s (subscriptions broker)) (\<not> present) st"
    have "present \<longleftrightarrow> (\<exists>p \<in> set (subscriptions broker). p \<noteq> s \<and> topic (the (subs st p)) = topic sub)"
      using h(4) broker_inv_nonnull [OF store_inv_broker [OF inv h(2)]]
      by (simp add: topic_present_except_live)
    then show ?thesis unfolding h(5) by (rule remove_subscription_inv [OF inv h(2,3,1)])
  qed
qed

text \<open>An accepted emit: the broker's counter advances and the loop delivers.\<close>

definition emit_metadata ::
  "ar_event_broker \<Rightarrow> ar_event_identity \<Rightarrow> u16 \<Rightarrow> u64 \<Rightarrow> u64 \<Rightarrow> nat \<Rightarrow> ar_event_metadata" where
  "emit_metadata broker producer tp transaction_id timestamp_nanos payload_len =
     \<lparr>md_topic = tp, md_sequence = next_sequence broker, md_transaction_id = transaction_id,
      md_timestamp_nanos = timestamp_nanos, md_producer = producer, md_payload_len = payload_len\<rparr>"

lemma emit_cases:
  assumes inv: "store_inv st"
    and run: "ar_event_broker_emit bp producer tp tid ts pl payload_len mem st = Some (status, result, st')"
  obtains (refused) "st' = st" "result = zero_result"
      "status \<in> {AR_EVENT_ERR_INVALID, AR_EVENT_ERR_DENIED, AR_EVENT_ERR_LIMIT}"
  | (accepted) b broker p md where
      "bp = Some b" "brokers st b = Some broker" "producer = Some p" "valid_identity (Some p)" "tp \<noteq> 0"
      "authorize_action broker AR_EVENT_AUTHORIZE_EMIT p None tp = AR_EVENT_OK"
      "payload_len \<le> max_payload_size (config broker)" "payload_len = 0 \<or> pl \<noteq> None"
      "next_sequence broker \<noteq> - 1"
      "md = emit_metadata broker p tp tid ts payload_len"
      "st' = st\<lparr>brokers := (brokers st)(b \<mapsto> broker\<lparr>next_sequence := next_sequence broker + 1\<rparr>),
         subs := delivered_to 0 (subscriptions broker) md pl payload_len mem (subs st)\<rparr>"
      "delivered result + rejected_newest result = length (matching (subs st) tp (subscriptions broker))"
      "dropped_oldest result \<le> delivered result"
      "status = (if rejected_newest result = 0 then AR_EVENT_OK else AR_EVENT_PARTIAL)"
proof (cases "\<exists>b broker p. bp = Some b \<and> brokers st b = Some broker \<and> producer = Some p \<and>
    valid_identity (Some p) \<and> tp \<noteq> 0 \<and> payload_len \<le> max_payload_size (config broker) \<and>
    (payload_len = 0 \<or> pl \<noteq> None) \<and> next_sequence broker \<noteq> - 1 \<and>
    authorize_action broker AR_EVENT_AUTHORIZE_EMIT p None tp = AR_EVENT_OK")
  case False
  then have "st' = st \<and> result = zero_result \<and>
      status \<in> {AR_EVENT_ERR_INVALID, AR_EVENT_ERR_DENIED, AR_EVENT_ERR_LIMIT}"
    using run by (cases producer)
      (auto simp: ar_event_broker_emit_def Let_def split: if_splits option.splits)
  then show thesis using refused by blast
next
  case True
  then obtain b broker p where h: "bp = Some b" "brokers st b = Some broker" "producer = Some p"
    "valid_identity (Some p)" "tp \<noteq> 0" "payload_len \<le> max_payload_size (config broker)"
    "payload_len = 0 \<or> pl \<noteq> None" "next_sequence broker \<noteq> - 1"
    "authorize_action broker AR_EVENT_AUTHORIZE_EMIT p None tp = AR_EVENT_OK" by blast
  define md where "md = emit_metadata broker p tp tid ts payload_len"
  have binv: "broker_inv (subs st) b broker" using inv h(2) by (rule store_inv_broker)
  have "distinct (subscriptions broker)" using binv by (simp add: broker_inv_def)
  from emit_loop_delivers [OF this broker_inv_nonnull [OF binv], of 0 md pl payload_len mem zero_result AR_EVENT_OK]
  obtain e r where loop: "emit_loop 0 (subscriptions broker) md pl payload_len mem (subs st) zero_result
      AR_EVENT_OK = Some (e, r, delivered_to 0 (subscriptions broker) md pl payload_len mem (subs st))"
    and r: "delivered r + rejected_newest r = length (matching (subs st) tp (subscriptions broker))"
      "dropped_oldest r \<le> delivered r"
      "e = (if rejected_newest r = 0 then AR_EVENT_OK else AR_EVENT_PARTIAL)"
    by (auto simp: zero_result_def md_def emit_metadata_def)
  have "ar_event_broker_emit bp producer tp tid ts pl payload_len mem st =
      Some (e, r, st\<lparr>brokers := (brokers st)(b \<mapsto> broker\<lparr>next_sequence := next_sequence broker + 1\<rparr>),
        subs := delivered_to 0 (subscriptions broker) md pl payload_len mem (subs st)\<rparr>)"
    using h loop by (auto simp: ar_event_broker_emit_def md_def emit_metadata_def simp del: valid_identity.simps)
  then show thesis using run r h by (intro accepted [of b broker p md]) (auto simp: md_def)
qed

lemma delivered_to_some:
  "p \<in> set ps \<Longrightarrow> heap p = Some s \<Longrightarrow> delivered_to i ps md pl payload_len mem heap p =
    Some (if topic s = md_topic md then enqueued s md pl payload_len (mem (i + find_index p ps)) else s)"
  by (simp add: delivered_to_def)

lemma emit_inv:
  assumes inv: "store_inv st" and buf: "payload_len \<le> length (the pl) \<or> payload_len = 0"
    and run: "ar_event_broker_emit bp producer tp tid ts pl payload_len mem st = Some (status, result, st')"
  shows "store_inv st'"
  using inv run
proof (cases rule: emit_cases)
  case refused
  then show ?thesis using inv by simp
next
  case (accepted b broker p md)
  let ?heap = "delivered_to 0 (subscriptions broker) md pl payload_len mem (subs st)"
  have binv: "broker_inv (subs st) b broker" using inv accepted(2) by (rule store_inv_broker)
  have "broker_inv ?heap b (broker\<lparr>next_sequence := next_sequence broker + 1\<rparr>)"
  proof (rule broker_inv_requeue [OF binv])
    fix q s assume q: "q \<in> set (subscriptions broker)" "subs st q = Some s"
    have "subscription_ok b broker s" using broker_inv_live [OF binv q(1)] q(2) by simp
    then have "subscription_ok b broker (enqueued s md pl payload_len c)"
      if "topic s = md_topic md" for c
      using that buf accepted(10) by (intro subscription_ok_enqueued) (simp_all add: emit_metadata_def)
    then show "\<exists>s'. ?heap q = Some s' \<and> same_subscription s s' \<and> subscription_ok b broker s'"
      using delivered_to_some [where p = q and s = s and heap = "subs st", OF q]
        \<open>subscription_ok b broker s\<close> enqueued_same by auto
  qed simp_all
  then show ?thesis unfolding accepted(11)
    by (intro store_inv_update [OF inv accepted(2)]) (auto simp: delivered_to_def)
qed

lemma receive_cases:
  assumes run: "ar_event_subscription_receive sp om op cap opl st = Some (status, len, out, st')"
  obtains (refused) "st' = st" "out = None" "status \<noteq> AR_EVENT_OK"
  | (taken) p s where "sp = Some p" "subs st p = Some s" "0 < queue_count s" "status = AR_EVENT_OK"
      "len = md_payload_len (metadata (queue s ! queue_head s))" "len \<le> cap"
      "out = Some (metadata (queue s ! queue_head s),
         if 0 < len then take len (the (payload (queue s ! queue_head s))) else [])"
      "st' = st\<lparr>subs := (subs st)(p \<mapsto> queue_pop s)\<rparr>"
proof (cases "status = AR_EVENT_OK")
  case False
  then show thesis using run refused
    by (auto simp: ar_event_subscription_receive_def Let_def split: if_splits option.splits)
next
  case True
  show thesis using run [unfolded True] True taken
    by (auto simp: ar_event_subscription_receive_def Let_def split: if_splits option.splits)
qed

lemma receive_inv:
  assumes inv: "store_inv st"
    and run: "ar_event_subscription_receive sp om op cap opl st = Some (status, len, out, st')"
  shows "store_inv st'"
  using run
proof (cases rule: receive_cases)
  case refused
  then show ?thesis using inv by simp
next
  case (taken p s)
  obtain b broker where b: "sub_broker s = Some b" "brokers st b = Some broker"
    "p \<in> set (subscriptions broker)" using store_inv_owner [OF inv taken(2)] by blast
  let ?heap = "(subs st)(p \<mapsto> queue_pop s)"
  have binv: "broker_inv (subs st) b broker" using inv b(2) by (rule store_inv_broker)
  have "broker_inv ?heap b broker"
  proof (rule broker_inv_requeue [OF binv])
    fix q t assume q: "q \<in> set (subscriptions broker)" "subs st q = Some t"
    have "subscription_ok b broker t" using broker_inv_live [OF binv q(1)] q(2) by simp
    then show "\<exists>s'. ?heap q = Some s' \<and> same_subscription t s' \<and> subscription_ok b broker s'"
      using q taken(2,3) by (auto simp: queue_pop_same subscription_ok_pop)
  qed simp_all
  then have "store_inv (st\<lparr>brokers := (brokers st)(b \<mapsto> broker), subs := ?heap\<rparr>)"
    by (intro store_inv_update [OF inv b(2)]) (use b(3) in auto)
  moreover have "(brokers st)(b \<mapsto> broker) = brokers st" using b(2) by auto
  ultimately show ?thesis by (simp add: taken(8))
qed

section \<open>Reachable stores\<close>

text \<open>
  One rule per public operation, with the outcome of memory allocation and all call
  arguments free. The caller's obligations are the premises: an address returned by
  \<open>calloc\<close> is not in use, and a payload buffer has the stated length.
\<close>

inductive event_step :: "event_store \<Rightarrow> event_store \<Rightarrow> bool" where
  create: "ar_event_broker_create cfg auth out alloc arr st = (status, bp, st') \<Longrightarrow>
    (\<And>a. alloc = Some a \<Longrightarrow> brokers st a = None) \<Longrightarrow> event_step st st'"
| destroy: "ar_event_broker_destroy bp st = Some st' \<Longrightarrow> event_step st st'"
| subscribe: "ar_event_broker_subscribe bp consumer tp pol out alloc aq st = Some (status, sp, st') \<Longrightarrow>
    (\<And>s. alloc = Some s \<Longrightarrow> subs st s = None) \<Longrightarrow> event_step st st'"
| unsubscribe: "ar_event_broker_unsubscribe bp actor sp st = Some (status, st') \<Longrightarrow> event_step st st'"
| emit: "ar_event_broker_emit bp producer tp tid ts pl payload_len mem st = Some (status, result, st') \<Longrightarrow>
    payload_len \<le> length (the pl) \<or> payload_len = 0 \<Longrightarrow> event_step st st'"
| receive: "ar_event_subscription_receive sp om op cap opl st = Some (status, len, out, st') \<Longrightarrow>
    event_step st st'"

inductive event_reachable :: "event_store \<Rightarrow> bool" where
  start: "event_reachable \<lparr>brokers = Map.empty, subs = Map.empty\<rparr>"
| step: "event_reachable st \<Longrightarrow> event_step st st' \<Longrightarrow> event_reachable st'"

lemma event_step_inv: "event_step st st' \<Longrightarrow> store_inv st \<Longrightarrow> store_inv st'"
  by (cases rule: event_step.cases, assumption)
    (blast intro: create_inv destroy_inv subscribe_inv unsubscribe_inv emit_inv receive_inv)+

lemma reachable_store_inv: "event_reachable st \<Longrightarrow> store_inv st"
proof (induction rule: event_reachable.induct)
  case start
  then show ?case by (simp add: store_inv_def)
next
  case (step st st')
  then show ?case by (blast intro: event_step_inv)
qed

end
