(* ===== verification/EventBrokerSpec.thy ===== *)
theory EventBrokerSpec
  imports EventBrokerLaws
begin

text \<open>
  The promises of the event broker to its clients, on top of the store invariant:
  events are delivered to the subscriptions of their topic and to no other, in the
  order of their sequence numbers, with the overflow rule the subscriber chose;
  receive hands them out first in, first out; nothing happens without the
  authorisation callback's consent; and no operation on live handles is undefined.
\<close>

section \<open>Sequence numbers\<close>

definition in_sequence :: "u64 \<Rightarrow> ar_event_message list \<Rightarrow> bool" where
  "in_sequence next evs \<longleftrightarrow>
     sorted_wrt (<) (map (\<lambda>m. md_sequence (metadata m)) evs) \<and>
     (\<forall>m \<in> set evs. md_sequence (metadata m) < next)"

definition sequence_inv :: "event_store \<Rightarrow> bool" where
  "sequence_inv st \<longleftrightarrow>
     (\<forall>b broker p s. brokers st b = Some broker \<longrightarrow> p \<in> set (subscriptions broker) \<longrightarrow>
        subs st p = Some s \<longrightarrow> in_sequence (next_sequence broker) (pending_events s))"

lemma sequence_invD:
  "sequence_inv st \<Longrightarrow> brokers st b = Some broker \<Longrightarrow> p \<in> set (subscriptions broker) \<Longrightarrow>
    subs st p = Some s \<Longrightarrow> in_sequence (next_sequence broker) (pending_events s)"
  by (simp add: sequence_inv_def)

lemma in_sequence_tl: "in_sequence n (m # evs) \<Longrightarrow> in_sequence n evs"
  by (simp add: in_sequence_def)

lemma in_sequence_weaken: "in_sequence n evs \<Longrightarrow> n \<noteq> - 1 \<Longrightarrow> in_sequence (n + 1) evs"
  using u64_less_succ by (auto simp: in_sequence_def intro: less_trans)

lemma in_sequence_drop: "in_sequence n evs \<Longrightarrow> in_sequence n (drop k evs)"
  by (auto simp: in_sequence_def sorted_wrt_drop simp flip: drop_map dest: in_set_dropD)

lemma in_sequence_deliver:
  assumes "in_sequence n evs" and "n \<noteq> - 1" and "md_sequence (metadata m) = n"
  shows "in_sequence (n + 1) (deliver cap pol c m evs)"
proof -
  have "in_sequence (n + 1) (evs @ [m])"
    using in_sequence_weaken [OF assms(1,2)] assms u64_less_succ
    by (auto simp: in_sequence_def sorted_wrt_append)
  then show ?thesis
    using in_sequence_weaken [OF assms(1,2)] by (simp add: deliver_def in_sequence_drop del: drop_append)
qed

text \<open>Pending queues that are unchanged or shortened, below an unchanged counter.\<close>

lemma sequence_inv_mono:
  assumes "sequence_inv st"
    and "\<And>b broker' p s'. brokers st' b = Some broker' \<Longrightarrow> p \<in> set (subscriptions broker') \<Longrightarrow>
      subs st' p = Some s' \<Longrightarrow> pending_events s' = [] \<or>
      (\<exists>broker s. brokers st b = Some broker \<and> p \<in> set (subscriptions broker) \<and> subs st p = Some s \<and>
        next_sequence broker = next_sequence broker' \<and>
        (pending_events s' = pending_events s \<or> (\<exists>m. pending_events s = m # pending_events s')))"
  shows "sequence_inv st'"
  unfolding sequence_inv_def
proof (intro allI impI)
  fix b broker' p s'
  assume h: "brokers st' b = Some broker'" "p \<in> set (subscriptions broker')" "subs st' p = Some s'"
  from assms(2) [OF h] show "in_sequence (next_sequence broker') (pending_events s')"
  proof
    assume "pending_events s' = []"
    then show ?thesis by (simp add: in_sequence_def)
  next
    assume "\<exists>broker s. brokers st b = Some broker \<and> p \<in> set (subscriptions broker) \<and> subs st p = Some s \<and>
        next_sequence broker = next_sequence broker' \<and>
        (pending_events s' = pending_events s \<or> (\<exists>m. pending_events s = m # pending_events s'))"
    then show ?thesis using sequence_invD [OF assms(1)] in_sequence_tl by metis
  qed
qed

lemma create_sequence:
  assumes "sequence_inv st" and "ar_event_broker_create cfg auth out alloc arr st = (status, bp, st')"
  shows "sequence_inv st'"
  using assms(1) by (rule sequence_inv_mono)
    (use assms(2) in \<open>auto simp: ar_event_broker_create_def split: if_splits option.splits\<close>)

lemma destroy_sequence:
  assumes "sequence_inv st" and "ar_event_broker_destroy bp st = Some st'"
  shows "sequence_inv st'"
  using assms(1) by (rule sequence_inv_mono)
    (use assms(2) in \<open>cases bp; auto simp: free_subscriptions_def split: if_splits option.splits\<close>)

lemma subscribe_sequence:
  assumes "sequence_inv st"
    and run: "ar_event_broker_subscribe bp consumer tp pol out alloc aq st = Some (status, sp, st')"
  shows "sequence_inv st'"
proof (cases "status = AR_EVENT_OK")
  case False
  then show ?thesis using subscribe_fail_same [OF run] assms(1) by simp
next
  case True
  from run [unfolded True] show ?thesis
  proof (rule subscribe_ok_elim)
    fix b c broker s present
    assume h: "brokers st b = Some broker"
      "add_subscription b broker s (new_subscription b broker c tp pol) st = Some st'"
    have "pending_events (new_subscription b broker c tp pol) = []"
      by (simp add: pending_events_def new_subscription_def)
    then show ?thesis using h
      by (intro sequence_inv_mono [OF assms(1)])
        (auto simp: add_subscription_def Let_def split: option.splits if_splits)
  qed
qed

lemma unsubscribe_sequence:
  assumes inv: "store_inv st" and seq: "sequence_inv st"
    and run: "ar_event_broker_unsubscribe bp actor sp st = Some (status, st')"
  shows "sequence_inv st'"
proof (cases "status = AR_EVENT_OK")
  case False
  then show ?thesis using unsubscribe_fail_same [OF run] seq by simp
next
  case True
  from run [unfolded True] show ?thesis
  proof (rule unsubscribe_ok_elim)
    fix b s sub broker present
    assume h: "brokers st b = Some broker" "s \<in> set (subscriptions broker)"
      "st' = remove_subscription b broker s (find_index s (subscriptions broker)) (\<not> present) st"
    let ?ps = "subscriptions broker"
    have "distinct ?ps" using store_inv_broker [OF inv h(1)] by (simp add: broker_inv_def)
    then have "set (butlast (?ps[find_index s ?ps := last ?ps])) \<subseteq> set ?ps"
      using set_swap_remove(1) [OF _ find_index_less [OF h(2)]] by auto
    then show ?thesis unfolding h(3)
      by (intro sequence_inv_mono [OF seq])
        (use h(1) in \<open>auto simp: remove_subscription_def split: if_splits\<close>)
  qed
qed

lemma emit_sequence:
  assumes inv: "store_inv st" and seq: "sequence_inv st"
    and run: "ar_event_broker_emit bp producer tp tid ts pl payload_len mem st = Some (status, result, st')"
  shows "sequence_inv st'"
  using inv run
proof (cases rule: emit_cases)
  case refused
  then show ?thesis using seq by simp
next
  case (accepted b broker a md)
  let ?ps = "subscriptions broker"
  have md: "md_sequence md = next_sequence broker" by (simp add: accepted(10) emit_metadata_def)
  show ?thesis unfolding sequence_inv_def
  proof (intro allI impI)
    fix c broker' p s'
    assume h: "brokers st' c = Some broker'" "p \<in> set (subscriptions broker')" "subs st' p = Some s'"
    show "in_sequence (next_sequence broker') (pending_events s')"
    proof (cases "c = b")
      case False
      then have c: "brokers st c = Some broker'" using h(1) by (simp add: accepted(11))
      then have "p \<notin> set ?ps" using other_broker_heap [OF inv c accepted(2) False h(2)] by simp
      then have "subs st p = Some s'" using h(3) by (simp add: accepted(11) delivered_to_def)
      then show ?thesis using sequence_invD [OF seq c h(2)] by simp
    next
      case True
      then have b': "broker' = broker\<lparr>next_sequence := next_sequence broker + 1\<rparr>"
        using h(1) by (simp add: accepted(11))
      then have p: "p \<in> set ?ps" using h(2) by simp
      then obtain s where s: "subs st p = Some s" "subscription_ok b broker s"
        using broker_inv_live [OF store_inv_broker [OF inv accepted(2)]] by blast
      have old: "in_sequence (next_sequence broker) (pending_events s)"
        using sequence_invD [OF seq accepted(2) p s(1)] .
      have wf: "queue_wf s" using s(2) by (simp add: subscription_ok_def)
      have "s' = (if topic s = md_topic md
          then enqueued s md pl payload_len (mem (0 + find_index p ?ps)) else s)"
        using h(3) s(1) p by (simp add: accepted(11) delivered_to_def)
      then show ?thesis
        using old accepted(9) md wf in_sequence_weaken [OF old accepted(9)]
        by (simp add: b' enqueued_pending in_sequence_deliver event_message_def)
    qed
  qed
qed

lemma receive_sequence:
  assumes inv: "store_inv st" and seq: "sequence_inv st"
    and run: "ar_event_subscription_receive sp om op cap opl st = Some (status, len, out, st')"
  shows "sequence_inv st'"
  using run
proof (cases rule: receive_cases)
  case refused
  then show ?thesis using seq by simp
next
  case (taken p s)
  obtain b broker where "brokers st b = Some broker" "p \<in> set (subscriptions broker)"
    using store_inv_owner [OF inv taken(2)] by blast
  then have "queue_wf s"
    using broker_inv_live [OF store_inv_broker [OF inv]] taken(2) by (force simp: subscription_ok_def)
  then have "pending_events s = queue s ! queue_head s # pending_events (queue_pop s)"
    using taken(3) by (rule pending_events_Cons)
  then show ?thesis unfolding taken(8)
    by (intro sequence_inv_mono [OF seq]) (use taken(2) in \<open>auto split: if_splits\<close>)
qed

lemma event_step_sequence:
  "event_step st st' \<Longrightarrow> store_inv st \<Longrightarrow> sequence_inv st \<Longrightarrow> sequence_inv st'"
  by (cases rule: event_step.cases, assumption)
    (blast intro: create_sequence destroy_sequence subscribe_sequence unsubscribe_sequence
      emit_sequence receive_sequence)+

lemma reachable_sequence_inv: "event_reachable st \<Longrightarrow> sequence_inv st"
proof (induction rule: event_reachable.induct)
  case start
  then show ?case by (simp add: sequence_inv_def)
next
  case (step st st')
  then show ?case using event_step_sequence reachable_store_inv by blast
qed

section \<open>Live calls are defined\<close>

lemma subscribe_defined:
  assumes "store_inv st" and "brokers st b = Some broker" and "\<And>s. alloc = Some s \<Longrightarrow> subs st s = None"
  shows "ar_event_broker_subscribe (Some b) consumer tp pol out alloc aq st \<noteq> None"
proof -
  have live: "\<And>p. p \<in> set (subscriptions broker) \<Longrightarrow> subs st p \<noteq> None"
    using broker_inv_nonnull [OF store_inv_broker [OF assms(1,2)]] by blast
  have "add_subscription b broker s sub st \<noteq> None" if "alloc = Some s" for s sub
  proof -
    have "s \<notin> set (subscriptions broker)" using fresh_not_subscribed [OF assms(1) assms(3) [OF that] assms(2)] .
    then have "topic_present_except ((subs st)(s \<mapsto> sub)) (subscriptions broker @ [s]) (topic sub) (Some s) \<noteq> None"
      using live by (subst topic_present_except_live) auto
    then show ?thesis by (auto simp: add_subscription_def Let_def)
  qed
  then show ?thesis using assms(2) live
    by (auto simp: ar_event_broker_subscribe_def subscription_exists_live topic_present_except_live
        split: option.splits bool.splits)
qed

lemma unsubscribe_defined:
  assumes "store_inv st" and "subs st s = Some sub"
  shows "ar_event_broker_unsubscribe bp actor (Some s) st \<noteq> None"
proof -
  obtain b broker where b: "sub_broker sub = Some b" "brokers st b = Some broker"
    using store_inv_owner [OF assms] by blast
  have "\<And>p. p \<in> set (subscriptions broker) \<Longrightarrow> subs st p \<noteq> None"
    using broker_inv_nonnull [OF store_inv_broker [OF assms(1) b(2)]] by blast
  then show ?thesis using assms(2) b
    by (cases bp) (auto simp: ar_event_broker_unsubscribe_def Let_def topic_present_except_live)
qed

lemma emit_defined:
  assumes "store_inv st" and "brokers st b = Some broker"
  shows "ar_event_broker_emit (Some b) producer tp tid ts pl payload_len mem st \<noteq> None"
proof -
  have binv: "broker_inv (subs st) b broker" using assms by (rule store_inv_broker)
  then have "distinct (subscriptions broker)" by (simp add: broker_inv_def)
  then have "emit_loop 0 (subscriptions broker) md pl payload_len mem (subs st) r e \<noteq> None" for md r e
    using emit_loop_delivers [OF _ broker_inv_nonnull [OF binv]] by (metis option.distinct(1))
  from this [of "\<lparr>md_topic = tp, md_sequence = next_sequence broker, md_transaction_id = tid,
      md_timestamp_nanos = ts, md_producer = the producer, md_payload_len = payload_len\<rparr>"
      zero_result AR_EVENT_OK]
  show ?thesis using assms(2)
    by (auto simp: ar_event_broker_emit_def Let_def split: option.splits)
qed

lemma receive_defined:
  "subs st s = Some sub \<Longrightarrow> ar_event_subscription_receive (Some s) om op cap opl st \<noteq> None"
  by (auto simp: ar_event_subscription_receive_def Let_def)

section \<open>The promises\<close>

text \<open>
  C1: In every store reachable through the public operations, each live broker keeps
  its quotas: at most \<open>max_subscribers\<close> subscriptions and \<open>max_topics\<close> topics, a topic
  counter that is exactly the number of distinct topics subscribed to (so it never
  underflows), and subscriptions that are live, point back to the broker and whose
  ring indexes and fill count are in bounds.
\<close>

theorem broker_quotas_hold:
  assumes "event_reachable st" and "brokers st b = Some broker"
  shows "length (subscriptions broker) \<le> max_subscribers (config broker) \<and>
    distinct (subscriptions broker) \<and>
    topic_count broker = card {topic s | p s. p \<in> set (subscriptions broker) \<and> subs st p = Some s} \<and>
    topic_count broker \<le> max_topics (config broker) \<and>
    (\<forall>p \<in> set (subscriptions broker). \<exists>s. subs st p = Some s \<and> sub_broker s = Some b \<and>
       length (queue s) = subscriber_queue_depth (config broker) \<and>
       queue_head s < length (queue s) \<and> queue_count s \<le> length (queue s))"
proof -
  have binv: "broker_inv (subs st) b broker"
    using reachable_store_inv [OF assms(1)] assms(2) by (rule store_inv_broker)
  have "{topic s | p s. p \<in> set (subscriptions broker) \<and> subs st p = Some s} =
      topics_of (subs st) (subscriptions broker)"
    using broker_inv_live [OF binv] by (force simp: in_topics_of)
  then show ?thesis using binv by (fastforce simp: broker_inv_def subscription_ok_def queue_wf_def)
qed

text \<open>
  C3: No operation on live handles is undefined: in a reachable store, subscribe,
  emit, unsubscribe and receive on live objects always produce an outcome; they
  never follow a dangling pointer.
\<close>

theorem live_calls_defined:
  assumes "event_reachable st" and "brokers st b = Some broker" and "subs st s = Some sub"
    and "subs st fresh = None"
  shows "ar_event_broker_subscribe (Some b) consumer tp pol out (Some fresh) aq st \<noteq> None \<and>
    ar_event_broker_emit (Some b) producer tp tid ts pl payload_len mem st \<noteq> None \<and>
    ar_event_broker_unsubscribe (Some b) actor (Some s) st \<noteq> None \<and>
    ar_event_subscription_receive (Some s) om op cap opl st \<noteq> None"
proof -
  have inv: "store_inv st" using assms(1) by (rule reachable_store_inv)
  have "\<And>a. Some fresh = Some a \<Longrightarrow> subs st a = None" using assms(4) by simp
  note sub = subscribe_defined [OF inv assms(2) this]
  show ?thesis
    by (intro conjI sub emit_defined [OF inv assms(2)] unsubscribe_defined [OF inv assms(3)]
        receive_defined [of st s sub, OF assms(3)])
qed

text \<open>
  C4: Delivery. An accepted emit numbers the event with the broker's counter, advances
  the counter, and changes exactly the queues of the broker's subscriptions on the
  event's topic, each by one \<open>deliver\<close>: the new event goes to the end, a full queue
  gives up its oldest event, or, where the subscriber chose to drop the newest,
  stays as it is. The counters account for every subscription of the topic, and the
  call reports success exactly when none was refused.
\<close>

theorem emit_refines_delivery:
  assumes "event_reachable st" and "brokers st b = Some broker"
    and "ar_event_broker_emit (Some b) (Some producer) tp tid ts pl payload_len mem st =
      Some (status, result, st')"
    and "status = AR_EVENT_OK \<or> status = AR_EVENT_PARTIAL"
  shows "(\<forall>p s. subs st p = Some s \<longrightarrow> (\<exists>s'. subs st' p = Some s' \<and> topic s' = topic s \<and> owner s' = owner s \<and>
        pending_events s' =
          (if p \<in> set (subscriptions broker) \<and> topic s = tp
           then deliver (queue_capacity s) (overflow_policy s)
                  (payload_len = 0 \<or> mem (find_index p (subscriptions broker)))
                  (event_message (emit_metadata broker producer tp tid ts payload_len) pl payload_len)
                  (pending_events s)
           else pending_events s))) \<and>
    brokers st' = (brokers st)(b \<mapsto> broker\<lparr>next_sequence := next_sequence broker + 1\<rparr>) \<and>
    delivered result + rejected_newest result = length (matching (subs st) tp (subscriptions broker)) \<and>
    dropped_oldest result \<le> delivered result \<and>
    (status = AR_EVENT_OK \<longleftrightarrow> rejected_newest result = 0)"
proof -
  have inv: "store_inv st" using assms(1) by (rule reachable_store_inv)
  from inv assms(3) show ?thesis
  proof (cases rule: emit_cases)
    case refused
    then show ?thesis using assms(4) by auto
  next
    case (accepted c broker2 p md)
    then have [simp]: "c = b" "broker2 = broker" "p = producer" using assms(2) by simp_all
    have wf: "queue_wf s" if "q \<in> set (subscriptions broker)" "subs st q = Some s" for q s
      using broker_inv_live [OF store_inv_broker [OF inv assms(2)] that(1)] that(2)
      by (simp add: subscription_ok_def)
    have md: "md = emit_metadata broker producer tp tid ts payload_len" using accepted(10) by simp
    show ?thesis
    proof (intro conjI allI impI)
      fix q s assume q: "subs st q = Some s"
      show "\<exists>s'. subs st' q = Some s' \<and> topic s' = topic s \<and> owner s' = owner s \<and> pending_events s' =
          (if q \<in> set (subscriptions broker) \<and> topic s = tp
           then deliver (queue_capacity s) (overflow_policy s)
                  (payload_len = 0 \<or> mem (find_index q (subscriptions broker)))
                  (event_message (emit_metadata broker producer tp tid ts payload_len) pl payload_len)
                  (pending_events s)
           else pending_events s)"
        using q wf [OF _ q] enqueued_same [of s md pl payload_len]
        by (auto simp: accepted(11) delivered_to_def md emit_metadata_def enqueued_pending)
    qed (simp_all add: accepted(11-14))
  qed
qed

text \<open>
  Receive hands out the oldest pending event and nothing else: on success it
  returns the metadata and the exact payload of the head of the pending list and
  leaves the tail; with too small a buffer it reports the size needed and leaves the
  store untouched; on an empty queue it says so.
\<close>

theorem receive_first_in_first_out:
  assumes "event_reachable st" and "subs st p = Some s"
    and "ar_event_subscription_receive (Some p) True True cap True st = Some (status, len, out, st')"
  shows "(case pending_events s of
      [] \<Rightarrow> status = AR_EVENT_EMPTY \<and> out = None \<and> st' = st
    | m # rest \<Rightarrow>
        len = length (case payload m of None \<Rightarrow> [] | Some bs \<Rightarrow> bs) \<and>
        (if cap < len then status = AR_EVENT_ERR_BUFFER_TOO_SMALL \<and> out = None \<and> st' = st
         else status = AR_EVENT_OK \<and>
           out = Some (metadata m, case payload m of None \<Rightarrow> [] | Some bs \<Rightarrow> bs) \<and>
           brokers st' = brokers st \<and>
           (\<exists>s'. subs st' = (subs st)(p \<mapsto> s') \<and> pending_events s' = rest)))"
proof -
  have inv: "store_inv st" using assms(1) by (rule reachable_store_inv)
  obtain b broker where b: "sub_broker s = Some b" "brokers st b = Some broker"
    "p \<in> set (subscriptions broker)" using store_inv_owner [OF inv assms(2)] by blast
  have ok: "subscription_ok b broker s"
    using broker_inv_live [OF store_inv_broker [OF inv b(2)] b(3)] assms(2) by simp
  then have wf: "queue_wf s" by (simp add: subscription_ok_def)
  show ?thesis
  proof (cases "queue_count s = 0")
    case True
    then have "pending_events s = []" by (simp add: pending_events_def)
    then show ?thesis using True assms(2,3) b(1) by (simp add: ar_event_subscription_receive_def)
  next
    case False
    then have ev: "pending_events s = queue s ! queue_head s # pending_events (queue_pop s)"
      by (intro pending_events_Cons [OF wf]) simp
    then have "message_ok (topic s) (queue s ! queue_head s)" using ok by (simp add: subscription_ok_def)
    then show ?thesis using False assms(2,3) b(1)
      by (auto simp: ev ar_event_subscription_receive_def message_ok_def Let_def
          split: if_splits option.splits)
  qed
qed


lemma enqueued_as_push:
  assumes "queue_wf s" and "payload_len = 0 \<or> copied"
  shows "enqueued s md pl payload_len copied =
    (if overflow_policy s = AR_EVENT_OVERFLOW_DROP_NEWEST
     then event_queue.push_drop_newest s (event_message md pl payload_len)
     else event_queue.push_drop_oldest s (event_message md pl payload_len))"
  using assms
  by (auto simp: enqueued_def enqueue_message_def event_queue.push_drop_newest_def
      event_queue.push_drop_oldest_def event_message_def Let_def)

lemma enqueued_run:
  assumes "queue_wf s"
  shows "foldl (\<lambda>s (md, pl). enqueued s md (Some pl) (length pl) True) s evs =
    foldl (if overflow_policy s = AR_EVENT_OVERFLOW_DROP_NEWEST
           then event_queue.push_drop_newest else event_queue.push_drop_oldest) s
      (map (\<lambda>(md, pl). event_message md (Some pl) (length pl)) evs)"
  using assms
proof (induction evs arbitrary: s)
  case (Cons e evs)
  obtain md pl where e: "e = (md, pl)" by (cases e)
  have "queue_wf (enqueued s md (Some pl) (length pl) True)"
    using Cons.prems by (rule enqueued_wf)
  from Cons.IH [OF this] show ?case
    using Cons.prems enqueued_same [of s md "Some pl" "length pl" True]
    by (simp add: e enqueued_as_push)
qed simp

text \<open>
  Overflow. Over any run of deliveries (with memory available) a queue that drops
  the oldest holds the most recent events that fit, and a queue that drops the
  newest holds the earliest ones.
\<close>

theorem overflow_policies:
  assumes "queue_wf s"
  shows "pending_events (foldl (\<lambda>s (md, pl). fst (snd (enqueue_message s md (Some pl) (length pl) True r))) s evs) =
    (let all = pending_events s @ map (\<lambda>(md, pl). event_message md (Some pl) (length pl)) evs
     in if overflow_policy s = AR_EVENT_OVERFLOW_DROP_NEWEST then take (queue_capacity s) all
        else drop (length all - queue_capacity s) all)"
  using assms
  by (simp add: enqueued_eq enqueued_run event_queue.drop_newest_run event_queue.drop_oldest_run Let_def
      del: take_append drop_append)

lemma authorize_action_OK:
  "authorize_action broker action actor own tp = AR_EVENT_OK \<longleftrightarrow>
    (\<exists>f. authorize broker = Some f \<and> f action actor own tp = 1)"
  by (auto simp: authorize_action_def split: option.splits if_splits)

text \<open>
  C6: Consent. Subscribe and unsubscribe succeed, and emit delivers, only when the
  broker's callback was asked about exactly this action, actor, owner and topic and
  answered 1; every refused call leaves the whole store as it was.
\<close>

theorem nothing_without_consent:
  assumes "event_reachable st" and "brokers st b = Some broker"
    and "\<not> (\<exists>f. authorize broker = Some f \<and>
      (case action of
         AR_EVENT_AUTHORIZE_SUBSCRIBE \<Rightarrow> f action actor (Some actor) tp = 1
       | AR_EVENT_AUTHORIZE_EMIT \<Rightarrow> f action actor None tp = 1
       | AR_EVENT_AUTHORIZE_UNSUBSCRIBE \<Rightarrow>
           (\<exists>sub. subs st s = Some sub \<and> f action actor (Some (owner sub)) (topic sub) = 1)))"
  shows "case action of
      AR_EVENT_AUTHORIZE_SUBSCRIBE \<Rightarrow>
        ar_event_broker_subscribe (Some b) (Some actor) tp pol out alloc aq st = Some (status, sp, st') \<longrightarrow>
          status \<noteq> AR_EVENT_OK \<and> st' = st
    | AR_EVENT_AUTHORIZE_EMIT \<Rightarrow>
        ar_event_broker_emit (Some b) (Some actor) tp tid ts pl payload_len mem st = Some (status, result, st') \<longrightarrow>
          status \<noteq> AR_EVENT_OK \<and> status \<noteq> AR_EVENT_PARTIAL \<and> st' = st
    | AR_EVENT_AUTHORIZE_UNSUBSCRIBE \<Rightarrow>
        ar_event_broker_unsubscribe (Some b) (Some actor) (Some s) st = Some (status, st') \<longrightarrow>
          status \<noteq> AR_EVENT_OK \<and> st' = st"
proof (cases action)
  case AR_EVENT_AUTHORIZE_SUBSCRIBE
  have "status \<noteq> AR_EVENT_OK"
    if "ar_event_broker_subscribe (Some b) (Some actor) tp pol out alloc aq st = Some (status, sp, st')"
    using that assms(2,3) AR_EVENT_AUTHORIZE_SUBSCRIBE
    by (auto elim!: subscribe_ok_elim simp: authorize_action_OK)
  then show ?thesis using subscribe_fail_same by (auto simp: AR_EVENT_AUTHORIZE_SUBSCRIBE)
next
  case AR_EVENT_AUTHORIZE_UNSUBSCRIBE
  have "status \<noteq> AR_EVENT_OK"
    if "ar_event_broker_unsubscribe (Some b) (Some actor) (Some s) st = Some (status, st')"
    using that assms(2,3) AR_EVENT_AUTHORIZE_UNSUBSCRIBE
    by (auto elim!: unsubscribe_ok_elim simp: authorize_action_OK)
  then show ?thesis using unsubscribe_fail_same by (auto simp: AR_EVENT_AUTHORIZE_UNSUBSCRIBE)
next
  case AR_EVENT_AUTHORIZE_EMIT
  have "status \<noteq> AR_EVENT_OK \<and> status \<noteq> AR_EVENT_PARTIAL \<and> st' = st"
    if run: "ar_event_broker_emit (Some b) (Some actor) tp tid ts pl payload_len mem st = Some (status, result, st')"
    using reachable_store_inv [OF assms(1)] run
  proof (cases rule: emit_cases)
    case refused
    then show ?thesis by auto
  next
    case (accepted c broker2 p md)
    then show ?thesis using assms(2,3) AR_EVENT_AUTHORIZE_EMIT by (auto simp: authorize_action_OK)
  qed
  then show ?thesis by (simp add: AR_EVENT_AUTHORIZE_EMIT)
qed

section \<open>The hypotheses can be met\<close>

text \<open>A broker at address 0 with one subscription at address 1, and one event emitted to it.\<close>

definition demo_identity :: ar_event_identity where
  "demo_identity = \<lparr>pid = 7, uid = 0, gid = 0, principal = 65 # zeros 63\<rparr>"

definition demo_config :: ar_event_broker_config where
  "demo_config = \<lparr>max_topics = 2, max_payload_size = 16, max_subscribers = 4, subscriber_queue_depth = 2\<rparr>"

definition demo_broker :: "addr list \<Rightarrow> nat \<Rightarrow> u64 \<Rightarrow> ar_event_broker" where
  "demo_broker ps n seq = \<lparr>config = demo_config, authorize = Some (\<lambda>action _ _ _.
     if action = AR_EVENT_AUTHORIZE_UNSUBSCRIBE then 0 else 1),
     subscriptions = ps, topic_count = n, next_sequence = seq\<rparr>"

definition demo_subscription :: ar_event_subscription where
  "demo_subscription = new_subscription 0 (demo_broker [] 0 1) demo_identity 4097 2"

definition demo_metadata :: ar_event_metadata where
  "demo_metadata = \<lparr>md_topic = 4097, md_sequence = 1, md_transaction_id = 5, md_timestamp_nanos = 6,
     md_producer = demo_identity, md_payload_len = 3\<rparr>"

definition demo_subscribed :: event_store where
  "demo_subscribed = \<lparr>brokers = [0 \<mapsto> demo_broker [1] 1 1], subs = [1 \<mapsto> demo_subscription]\<rparr>"

definition demo_emitted :: event_store where
  "demo_emitted = \<lparr>brokers = [0 \<mapsto> demo_broker [1] 1 2],
     subs = [1 \<mapsto> enqueued demo_subscription demo_metadata (Some [1, 2, 3]) 3 True]\<rparr>"

lemma demo_valid: "valid_identity (Some demo_identity)"
proof -
  have "c_str ([65] @ zeros (64 - length [65 :: u8])) 64 = [65]" by (rule c_str_padded) simp_all
  then have "c_str (65 # zeros 63) 64 = [65]" by simp
  then show ?thesis by (simp add: demo_identity_def c_strnlen_def AR_EVENT_MAX_PRINCIPAL_LEN_def)
qed

lemma demo_create:
  "ar_event_broker_create (Some demo_config) (authorize (demo_broker [] 0 1)) True (Some 0) True
     \<lparr>brokers = Map.empty, subs = Map.empty\<rparr> =
   (AR_EVENT_OK, Some 0, \<lparr>brokers = [0 \<mapsto> demo_broker [] 0 1], subs = Map.empty\<rparr>)"
  by (simp add: ar_event_broker_create_def demo_broker_def demo_config_def config_in_limits_def limits)

lemma demo_subscribe:
  "ar_event_broker_subscribe (Some 0) (Some demo_identity) 4097 2 True (Some 1) True
     \<lparr>brokers = [0 \<mapsto> demo_broker [] 0 1], subs = Map.empty\<rparr> = Some (AR_EVENT_OK, Some 1, demo_subscribed)"
  using demo_valid
  by (simp add: ar_event_broker_subscribe_def demo_broker_def demo_config_def authorize_action_def
      add_subscription_def demo_subscribed_def demo_subscription_def new_subscription_def
      del: valid_identity.simps)

lemma demo_emit:
  "ar_event_broker_emit (Some 0) (Some demo_identity) 4097 5 6 (Some [1, 2, 3]) 3 (\<lambda>_. True) demo_subscribed =
   Some (AR_EVENT_OK, \<lparr>delivered = 1, dropped_oldest = 0, rejected_newest = 0\<rparr>, demo_emitted)"
  using demo_valid
  by (simp add: ar_event_broker_emit_def demo_subscribed_def demo_broker_def demo_config_def
      authorize_action_def demo_subscription_def new_subscription_def enqueue_message_def
      zero_result_def demo_emitted_def demo_metadata_def enqueued_def Let_def
      del: valid_identity.simps)

lemma demo_reachable: "event_reachable demo_subscribed" "event_reachable demo_emitted"
proof -
  show sub: "event_reachable demo_subscribed"
    by (rule event_reachable.step [OF event_reachable.step [OF event_reachable.start
          event_step.create [OF demo_create]] event_step.subscribe [OF demo_subscribe]]) simp_all
  show "event_reachable demo_emitted"
    by (rule event_reachable.step [OF sub event_step.emit [OF demo_emit]]) simp
qed

lemmas demo_eval = demo_subscribed_def demo_emitted_def demo_broker_def demo_config_def
  demo_subscription_def demo_metadata_def new_subscription_def

lemma demo_pending:
  "pending_events (enqueued demo_subscription demo_metadata (Some [1, 2, 3]) 3 True) =
    [event_message demo_metadata (Some [1, 2, 3]) 3]"
  "pending_events demo_subscription = []" "queue_wf demo_subscription"
proof -
  show wf: "queue_wf demo_subscription" by (simp add: queue_wf_def demo_eval)
  show ev: "pending_events demo_subscription = []" by (simp add: pending_events_def demo_eval)
  show "pending_events (enqueued demo_subscription demo_metadata (Some [1, 2, 3]) 3 True) =
      [event_message demo_metadata (Some [1, 2, 3]) 3]"
    unfolding enqueued_pending [OF wf] ev by (simp add: deliver_def demo_eval)
qed

theorem broker_quotas_hold_witness:
  "length (subscriptions (demo_broker [1] 1 2)) \<le> 4 \<and> distinct [1 :: addr]"
  using broker_quotas_hold [OF demo_reachable(2), of 0 "demo_broker [1] 1 2"]
  by (simp add: demo_eval)

theorem live_calls_defined_witness:
  "ar_event_broker_unsubscribe (Some 0) (Some demo_identity) (Some 1) demo_subscribed \<noteq> None"
  using live_calls_defined [OF demo_reachable(1), of 0 "demo_broker [1] 1 1" 1 demo_subscription 2]
  by (simp add: demo_subscribed_def)

theorem emit_refines_delivery_witness:
  "\<exists>s'. subs demo_emitted 1 = Some s' \<and>
    pending_events s' = [event_message demo_metadata (Some [1, 2, 3]) 3]"
proof -
  have "brokers demo_subscribed 0 = Some (demo_broker [1] 1 1)" "subs demo_subscribed 1 = Some demo_subscription"
    by (simp_all add: demo_subscribed_def)
  moreover have "topic demo_subscription = 4097" "queue_capacity demo_subscription = 2"
    "overflow_policy demo_subscription = 2" by (simp_all add: demo_eval)
  moreover have "emit_metadata (demo_broker [1] 1 1) demo_identity 4097 5 6 3 = demo_metadata"
    by (simp add: emit_metadata_def demo_metadata_def demo_broker_def)
  moreover have "subscriptions (demo_broker [1] 1 1) = [1]" by (simp add: demo_broker_def)
  ultimately show ?thesis
    using emit_refines_delivery [OF demo_reachable(1) _ demo_emit, of "demo_broker [1] 1 1",
        THEN conjunct1, THEN spec [of _ 1], THEN spec [of _ demo_subscription]]
    by (auto simp: demo_pending deliver_def)
qed

theorem receive_first_in_first_out_witness:
  "\<exists>st'. ar_event_subscription_receive (Some 1) True True 8 True demo_emitted =
     Some (AR_EVENT_OK, 3, Some (demo_metadata, [1, 2, 3]), st')"
proof -
  have "subs demo_emitted 1 = Some (enqueued demo_subscription demo_metadata (Some [1, 2, 3]) 3 True)"
    by (simp add: demo_emitted_def)
  moreover from this obtain status len out st' where run:
    "ar_event_subscription_receive (Some 1) True True 8 True demo_emitted = Some (status, len, out, st')"
    using receive_defined by (metis not_None_eq prod_cases4)
  ultimately show ?thesis
    using receive_first_in_first_out [OF demo_reachable(2) _ run]
    by (auto simp: demo_pending event_message_def run split: if_splits)
qed


theorem overflow_policies_witness:
  "queue_wf demo_subscription \<and>
   pending_events (foldl (\<lambda>s (md, pl). fst (snd (enqueue_message s md (Some pl) (length pl) True zero_result)))
       demo_subscription [(demo_metadata, [1]), (demo_metadata, [2]), (demo_metadata, [3])]) =
     map (\<lambda>pl. event_message demo_metadata (Some pl) 1) [[2], [3]]"
  using overflow_policies [OF demo_pending(3), of zero_result
      "[(demo_metadata, [1]), (demo_metadata, [2]), (demo_metadata, [3])]"]
  by (simp add: demo_pending) (simp add: demo_eval)

theorem nothing_without_consent_witness:
  "ar_event_broker_unsubscribe (Some 0) (Some demo_identity) (Some 1) demo_subscribed =
    Some (AR_EVENT_ERR_DENIED, demo_subscribed)"
proof -
  have no: "\<not> (\<exists>f. authorize (demo_broker [1] 1 1) = Some f \<and> (\<exists>sub. subs demo_subscribed 1 = Some sub \<and>
      f AR_EVENT_AUTHORIZE_UNSUBSCRIBE demo_identity (Some (owner sub)) (topic sub) = 1))"
    by (simp add: demo_broker_def)
  have st: "st' = demo_subscribed"
    if "ar_event_broker_unsubscribe (Some 0) (Some demo_identity) (Some 1) demo_subscribed = Some (status, st')"
    for status st'
    using nothing_without_consent [OF demo_reachable(1), of 0 "demo_broker [1] 1 1"
        AR_EVENT_AUTHORIZE_UNSUBSCRIBE demo_identity _ 1] no that
    by (simp add: demo_subscribed_def)
  have "\<exists>st'. ar_event_broker_unsubscribe (Some 0) (Some demo_identity) (Some 1) demo_subscribed =
      Some (AR_EVENT_ERR_DENIED, st')"
    using demo_valid
    by (simp add: ar_event_broker_unsubscribe_def demo_eval authorize_action_def del: valid_identity.simps)
  with st show ?thesis by blast
qed

end
