(* ===== verification/Sha512.thy ===== *)
theory Sha512
  imports ByteOrder
begin

text \<open>
  The SHA-512 engine of \<open>src/libraries/crypto/sha512.c\<close>: the block transform, the
  streaming context (chaining state, 128 bit byte counter, partial block) with its
  init, update and final operations, and the one-shot entry point. The theorem shows
  that any sequence of updates followed by final computes the iterated block
  transform of the padded message.
\<close>

section \<open>The round functions\<close>

definition ROTR64 :: "u64 \<Rightarrow> nat \<Rightarrow> u64" where
  "ROTR64 x n = drop_bit n x OR push_bit (64 - n) x"

definition SHR :: "u64 \<Rightarrow> nat \<Rightarrow> u64" where
  "SHR x n = drop_bit n x"

definition Ch :: "u64 \<Rightarrow> u64 \<Rightarrow> u64 \<Rightarrow> u64" where
  "Ch x y z = (x AND y) XOR (NOT x AND z)"

definition Maj :: "u64 \<Rightarrow> u64 \<Rightarrow> u64 \<Rightarrow> u64" where
  "Maj x y z = (x AND y) XOR (x AND z) XOR (y AND z)"

definition Sigma0 :: "u64 \<Rightarrow> u64" where
  "Sigma0 x = ROTR64 x 28 XOR ROTR64 x 34 XOR ROTR64 x 39"

definition Sigma1 :: "u64 \<Rightarrow> u64" where
  "Sigma1 x = ROTR64 x 14 XOR ROTR64 x 18 XOR ROTR64 x 41"

definition sigma0 :: "u64 \<Rightarrow> u64" where
  "sigma0 x = ROTR64 x 1 XOR ROTR64 x 8 XOR SHR x 7"

definition sigma1 :: "u64 \<Rightarrow> u64" where
  "sigma1 x = ROTR64 x 19 XOR ROTR64 x 61 XOR SHR x 6"

definition SHA512_H0 :: "u64 list" where
  "SHA512_H0 =
     [0x6a09e667f3bcc908, 0xbb67ae8584caa73b, 0x3c6ef372fe94f82b, 0xa54ff53a5f1d36f1,
      0x510e527fade682d1, 0x9b05688c2b3e6c1f, 0x1f83d9abfb41bd6b, 0x5be0cd19137e2179]"

text \<open>The table row by row, as the source lays it out.\<close>

definition SHA512_K :: "u64 list" where
  "SHA512_K = concat
     [[0x428a2f98d728ae22, 0x7137449123ef65cd, 0xb5c0fbcfec4d3b2f, 0xe9b5dba58189dbbc],
      [0x3956c25bf348b538, 0x59f111f1b605d019, 0x923f82a4af194f9b, 0xab1c5ed5da6d8118],
      [0xd807aa98a3030242, 0x12835b0145706fbe, 0x243185be4ee4b28c, 0x550c7dc3d5ffb4e2],
      [0x72be5d74f27b896f, 0x80deb1fe3b1696b1, 0x9bdc06a725c71235, 0xc19bf174cf692694],
      [0xe49b69c19ef14ad2, 0xefbe4786384f25e3, 0x0fc19dc68b8cd5b5, 0x240ca1cc77ac9c65],
      [0x2de92c6f592b0275, 0x4a7484aa6ea6e483, 0x5cb0a9dcbd41fbd4, 0x76f988da831153b5],
      [0x983e5152ee66dfab, 0xa831c66d2db43210, 0xb00327c898fb213f, 0xbf597fc7beef0ee4],
      [0xc6e00bf33da88fc2, 0xd5a79147930aa725, 0x06ca6351e003826f, 0x142929670a0e6e70],
      [0x27b70a8546d22ffc, 0x2e1b21385c26c926, 0x4d2c6dfc5ac42aed, 0x53380d139d95b3df],
      [0x650a73548baf63de, 0x766a0abb3c77b2a8, 0x81c2c92e47edaee6, 0x92722c851482353b],
      [0xa2bfe8a14cf10364, 0xa81a664bbc423001, 0xc24b8b70d0f89791, 0xc76c51a30654be30],
      [0xd192e819d6ef5218, 0xd69906245565a910, 0xf40e35855771202a, 0x106aa07032bbd1b8],
      [0x19a4c116b8d2d0c8, 0x1e376c085141ab53, 0x2748774cdf8eeb99, 0x34b0bcb5e19b48a8],
      [0x391c0cb3c5c95a63, 0x4ed8aa4ae3418acb, 0x5b9cca4f7763e373, 0x682e6ff3d6b2b8a3],
      [0x748f82ee5defb2fc, 0x78a5636f43172f60, 0x84c87814a1f0ab72, 0x8cc702081a6439ec],
      [0x90befffa23631e28, 0xa4506cebde82bde9, 0xbef9a3f7b2c67915, 0xc67178f2e372532b],
      [0xca273eceea26619c, 0xd186b8c721c0c207, 0xeada7dd6cde0eb1e, 0xf57d4f7fee6ed178],
      [0x06f067aa72176fba, 0x0a637dc5a2c898a6, 0x113f9804bef90dae, 0x1b710b35131c471b],
      [0x28db77f523047d84, 0x32caab7b40c72493, 0x3c9ebe0a15c9bebc, 0x431d67c49c100d4c],
      [0x4cc5d4becb3e42b6, 0x597f299cfc657e2a, 0x5fcb6fab3ad6faec, 0x6c44198c4a475817]]"

section \<open>The block transform\<close>

definition block_word :: "bytes \<Rightarrow> nat \<Rightarrow> u64" where
  "block_word block t =
     push_bit 56 (ucast (block ! (t * 8 + 0))) OR push_bit 48 (ucast (block ! (t * 8 + 1)))
       OR push_bit 40 (ucast (block ! (t * 8 + 2))) OR push_bit 32 (ucast (block ! (t * 8 + 3)))
       OR push_bit 24 (ucast (block ! (t * 8 + 4))) OR push_bit 16 (ucast (block ! (t * 8 + 5)))
       OR push_bit 8 (ucast (block ! (t * 8 + 6))) OR ucast (block ! (t * 8 + 7))"

text \<open>The schedule: sixteen words of the block, then each word from four earlier ones.\<close>

definition schedule :: "bytes \<Rightarrow> u64 list" where
  "schedule block =
     foldl (\<lambda>w t. w @ [sigma1 (w ! (t - 2)) + w ! (t - 7) + sigma0 (w ! (t - 15)) + w ! (t - 16)])
       (map (block_word block) [0..<16]) [16..<80]"

type_synonym working = "u64 \<times> u64 \<times> u64 \<times> u64 \<times> u64 \<times> u64 \<times> u64 \<times> u64"

fun sha512_round :: "u64 list \<Rightarrow> working \<Rightarrow> nat \<Rightarrow> working" where
  "sha512_round w (a, b, c, d, e, f, g, h) t =
     (let t1 = h + Sigma1 e + Ch e f g + SHA512_K ! t + w ! t;
          t2 = Sigma0 a + Maj a b c
      in (t1 + t2, a, b, c, d + t1, e, f, g))"

definition sha512_transform :: "u64 list \<Rightarrow> bytes \<Rightarrow> u64 list" where
  "sha512_transform st block =
     (case foldl (sha512_round (schedule block))
             (st ! 0, st ! 1, st ! 2, st ! 3, st ! 4, st ! 5, st ! 6, st ! 7) [0..<80] of
        (a, b, c, d, e, f, g, h) \<Rightarrow>
          [st ! 0 + a, st ! 1 + b, st ! 2 + c, st ! 3 + d,
           st ! 4 + e, st ! 5 + f, st ! 6 + g, st ! 7 + h])"

section \<open>The streaming context\<close>

datatype crypto_status = ALRIOS_CRYPTO_OK | ALRIOS_CRYPTO_ERR_NULL_PTR

record alrios_sha512_ctx =
  state :: "u64 list"
  count0 :: u64
  count1 :: u64
  buffer :: bytes

text \<open>Context arguments are pointers; a null context is \<^const>\<open>None\<close>.\<close>

definition alrios_sha512_init :: "alrios_sha512_ctx option \<Rightarrow> crypto_status \<times> alrios_sha512_ctx option" where
  "alrios_sha512_init ctx =
     (case ctx of
        None \<Rightarrow> (ALRIOS_CRYPTO_ERR_NULL_PTR, None)
      | Some _ \<Rightarrow> (ALRIOS_CRYPTO_OK,
          Some \<lparr>state = SHA512_H0, count0 = 0, count1 = 0, buffer = zeros 128\<rparr>))"

text \<open>The loop over whole blocks: the final state, the rest of the input and its length.\<close>

fun transform_blocks :: "u64 list \<Rightarrow> bytes \<Rightarrow> nat \<Rightarrow> u64 list \<times> bytes \<times> nat" where
  "transform_blocks st input left =
     (if 128 \<le> left then transform_blocks (sha512_transform st input) (drop 128 input) (left - 128)
      else (st, input, left))"

declare transform_blocks.simps [simp del]

definition alrios_sha512_update ::
  "alrios_sha512_ctx option \<Rightarrow> bytes option \<Rightarrow> nat \<Rightarrow> crypto_status \<times> alrios_sha512_ctx option" where
  "alrios_sha512_update ctxp data len =
     (case ctxp of
        None \<Rightarrow> (ALRIOS_CRYPTO_ERR_NULL_PTR, None)
      | Some ctx \<Rightarrow>
          (case data of
             None \<Rightarrow> (ALRIOS_CRYPTO_OK, Some ctx)
           | Some input \<Rightarrow>
               if len = 0 then (ALRIOS_CRYPTO_OK, Some ctx)
               else
                 let buffer_idx = unat (count0 ctx mod 128);
                     prev_count0 = count0 ctx;
                     ctx1 = ctx\<lparr>count0 := count0 ctx + of_nat len\<rparr>;
                     ctx2 = (if count0 ctx1 < prev_count0 then ctx1\<lparr>count1 := count1 ctx1 + 1\<rparr> else ctx1);
                     to_fill = 128 - buffer_idx
                 in if 0 < buffer_idx \<and> len < to_fill
                    then (ALRIOS_CRYPTO_OK,
                          Some (ctx2\<lparr>buffer := memwrite (buffer ctx2) buffer_idx (take len input)\<rparr>))
                    else
                      let filled = (if 0 < buffer_idx
                            then memwrite (buffer ctx2) buffer_idx (take to_fill input) else buffer ctx2);
                          st1 = (if 0 < buffer_idx then sha512_transform (state ctx2) filled else state ctx2);
                          input1 = (if 0 < buffer_idx then drop to_fill input else input);
                          left1 = (if 0 < buffer_idx then len - to_fill else len)
                      in case transform_blocks st1 input1 left1 of
                        (st2, input2, left2) \<Rightarrow>
                          (ALRIOS_CRYPTO_OK, Some (ctx2\<lparr>state := st2,
                             buffer := (if 0 < left2 then memwrite filled 0 (take left2 input2)
                                        else filled)\<rparr>))))"

definition be_bytes_of :: "u64 \<Rightarrow> bytes" where
  "be_bytes_of x = map (\<lambda>i. ucast (drop_bit (56 - i * 8) x AND 0xFF)) [0..<8]"

definition zero_ctx :: alrios_sha512_ctx where
  "zero_ctx = \<lparr>state = replicate 8 0, count0 = 0, count1 = 0, buffer = zeros 128\<rparr>"

text \<open>\<open>out\<close> is whether the digest pointer is non-null; the digest is the second component.\<close>

definition alrios_sha512_final ::
  "alrios_sha512_ctx option \<Rightarrow> bool \<Rightarrow> crypto_status \<times> bytes option \<times> alrios_sha512_ctx option" where
  "alrios_sha512_final ctxp out =
     (case ctxp of
        None \<Rightarrow> (ALRIOS_CRYPTO_ERR_NULL_PTR, None, None)
      | Some ctx \<Rightarrow>
          if \<not> out then (ALRIOS_CRYPTO_ERR_NULL_PTR, None, Some ctx)
          else
            let bit_count_lo = push_bit 3 (count0 ctx);
                bit_count_hi = push_bit 3 (count1 ctx) OR drop_bit 61 (count0 ctx);
                idx0 = unat (count0 ctx mod 128);
                buf1 = (buffer ctx)[idx0 := 0x80];
                idx1 = idx0 + 1;
                full = (112 < idx1);
                buf2 = (if full then memwrite buf1 idx1 (zeros (128 - idx1)) else buf1);
                st1 = (if full then sha512_transform (state ctx) buf2 else state ctx);
                idx2 = (if full then 0 else idx1);
                buf3 = memwrite buf2 idx2 (zeros (112 - idx2));
                buf4 = memwrite buf3 112 (be_bytes_of bit_count_hi);
                buf5 = memwrite buf4 120 (be_bytes_of bit_count_lo);
                st2 = sha512_transform st1 buf5
            in (ALRIOS_CRYPTO_OK, Some (concat (map be_bytes_of st2)), Some zero_ctx))"

definition alrios_sha512 :: "bytes option \<Rightarrow> nat \<Rightarrow> bool \<Rightarrow> crypto_status \<times> bytes option" where
  "alrios_sha512 data len out =
     (if \<not> out then (ALRIOS_CRYPTO_ERR_NULL_PTR, None)
      else if 0 < len \<and> data = None then (ALRIOS_CRYPTO_ERR_NULL_PTR, None)
      else case alrios_sha512_init (Some zero_ctx) of
        (ret, ctx) \<Rightarrow>
          if ret \<noteq> ALRIOS_CRYPTO_OK then (ret, None)
          else case alrios_sha512_update ctx data len of
            (ret, ctx) \<Rightarrow>
              if ret \<noteq> ALRIOS_CRYPTO_OK then (ret, None)
              else case alrios_sha512_final ctx True of (ret, digest, _) \<Rightarrow> (ret, digest))"

section \<open>The reference: padding and iteration\<close>

fun blocks :: "bytes \<Rightarrow> bytes list" where
  "blocks bs = (if length bs < 128 then [] else take 128 bs # blocks (drop 128 bs))"

declare blocks.simps [simp del]

definition partial_block :: "bytes \<Rightarrow> bytes" where
  "partial_block bs = drop (128 * (length bs div 128)) bs"

definition sha512_pad :: "bytes \<Rightarrow> bytes" where
  "sha512_pad msg =
     msg @ [0x80] @ zeros ((239 - length msg mod 128) mod 128) @
       store_u64_be (of_nat (8 * length msg div 2 ^ 64)) @ store_u64_be (of_nat (8 * length msg))"

definition sha512_spec :: "bytes \<Rightarrow> bytes" where
  "sha512_spec msg =
     concat (map store_u64_be (foldl sha512_transform SHA512_H0 (blocks (sha512_pad msg))))"

lemma blocks_short [simp]: "length bs < 128 \<Longrightarrow> blocks bs = []"
  by (simp add: blocks.simps)

lemma blocks_long: "128 \<le> length bs \<Longrightarrow> blocks bs = take 128 bs # blocks (drop 128 bs)"
  by (simp add: blocks.simps [of bs])

lemma partial_block_short: "length bs < 128 \<Longrightarrow> partial_block bs = bs"
  by (simp add: partial_block_def)

lemma partial_block_long: "128 \<le> length bs \<Longrightarrow> partial_block bs = partial_block (drop 128 bs)"
proof -
  assume "128 \<le> length bs"
  then have "length bs div 128 = Suc ((length bs - 128) div 128)" by (simp add: le_div_geq)
  then show ?thesis by (simp add: partial_block_def add.commute)
qed

lemma length_partial_block: "length (partial_block bs) = length bs mod 128"
  by (simp add: partial_block_def minus_mult_div_eq_mod)

lemma partial_block_whole: "128 dvd length bs \<Longrightarrow> partial_block bs = []"
  using length_partial_block [of bs] by simp

lemma blocks_append: "blocks (xs @ ys) = blocks xs @ blocks (partial_block xs @ ys)"
proof (induction xs rule: blocks.induct)
  case (1 xs)
  show ?case
  proof (cases "length xs < 128")
    case True
    then show ?thesis by (simp add: partial_block_short)
  next
    case False
    then show ?thesis using 1 by (simp add: blocks_long partial_block_long)
  qed
qed

lemma partial_block_append: "partial_block (xs @ ys) = partial_block (partial_block xs @ ys)"
proof (induction xs rule: blocks.induct)
  case (1 xs)
  show ?case
  proof (cases "length xs < 128")
    case True
    then show ?thesis by (simp add: partial_block_short)
  next
    case False
    then show ?thesis using 1 partial_block_long [of "xs @ ys"] by (simp add: partial_block_long)
  qed
qed

section \<open>The streaming operations against the reference\<close>

text \<open>The transform reads the first 128 bytes behind its pointer only.\<close>

lemma block_word_take: "t < 16 \<Longrightarrow> block_word (take 128 bs) t = block_word bs t"
  by (simp add: block_word_def)

lemma sha512_transform_take: "sha512_transform st (take 128 bs) = sha512_transform st bs"
proof -
  have "map (block_word (take 128 bs)) [0..<16] = map (block_word bs) [0..<16]"
    by (rule map_cong [OF refl], rule block_word_take) simp
  then show ?thesis by (simp only: sha512_transform_def schedule_def)
qed

lemma transform_blocks_eq:
  "q * 128 + r \<le> length input \<Longrightarrow> r < 128 \<Longrightarrow>
    transform_blocks st input (q * 128 + r) =
      (foldl sha512_transform st (blocks (take (q * 128) input)), drop (q * 128) input, r)"
proof (induction q arbitrary: st input)
  case 0
  then show ?case by (simp add: transform_blocks.simps)
next
  case (Suc q)
  have "transform_blocks st input (Suc q * 128 + r) =
      transform_blocks (sha512_transform st input) (drop 128 input) (q * 128 + r)"
    by (simp add: transform_blocks.simps [of st input])
  then show ?case
    using Suc sha512_transform_take [of st input]
    by (simp add: blocks_long take_drop add.commute min_def)
qed

lemma blocks_whole: "blocks (take (128 * (length bs div 128)) bs) = blocks bs"
proof (induction bs rule: blocks.induct)
  case (1 bs)
  show ?case
  proof (cases "length bs < 128")
    case False
    then have "length bs div 128 = Suc ((length bs - 128) div 128)" by (simp add: le_div_geq)
    then show ?thesis using 1 False by (simp add: blocks_long take_drop add.commute)
  qed simp
qed

lemma transform_blocks_all:
  "transform_blocks st input (length input) =
     (foldl sha512_transform st (blocks input), partial_block input, length input mod 128)"
  using transform_blocks_eq [of "length input div 128" "length input mod 128" input st] blocks_whole [of input]
  by (simp add: partial_block_def mult.commute)

text \<open>What a context holds after the bytes \<open>msg\<close> have been absorbed.\<close>

definition absorbed :: "alrios_sha512_ctx \<Rightarrow> bytes \<Rightarrow> bool" where
  "absorbed ctx msg \<longleftrightarrow>
     state ctx = foldl sha512_transform SHA512_H0 (blocks msg) \<and>
     count0 ctx = of_nat (length msg) \<and> count1 ctx = of_nat (length msg div 2 ^ 64) \<and>
     length (buffer ctx) = 128 \<and> take (length msg mod 128) (buffer ctx) = partial_block msg"

lemma absorbed_init: "absorbed \<lparr>state = SHA512_H0, count0 = 0, count1 = 0, buffer = zeros 128\<rparr> []"
  by (simp add: absorbed_def partial_block_short)

lemma count_index: "unat ((of_nat n :: u64) mod 128) = n mod 128"
  by (simp add: unat_mod unsigned_of_nat take_bit_eq_mod mod_mod_cancel)

text \<open>The carry test \<open>count[0] < prev_count0\<close> maintains the 128 bit counter.\<close>

lemma count_carry:
  assumes "k < 2 ^ 64"
  shows "(if (of_nat n + of_nat k :: u64) < of_nat n then of_nat (n div 2 ^ 64) + 1 else of_nat (n div 2 ^ 64))
         = (of_nat ((n + k) div 2 ^ 64) :: u64)"
proof -
  define q r where "q = n div 2 ^ 64" and "r = n mod 2 ^ 64"
  have n: "n = q * 2 ^ 64 + r" and r: "r < 2 ^ 64" by (simp_all add: q_def r_def)
  have un: "unat (of_nat n :: u64) = r" by (simp add: unsigned_of_nat take_bit_eq_mod r_def)
  have us: "unat (of_nat n + of_nat k :: u64) = (r + k) mod 2 ^ 64"
    by (simp add: unat_word_ariths un unsigned_of_nat take_bit_eq_mod r_def mod_simps)
  have nk: "(n + k) div 2 ^ 64 = q + (r + k) div 2 ^ 64" by (simp add: n add.assoc)
  show ?thesis
  proof (cases "r + k < 2 ^ 64")
    case True
    then show ?thesis using nk by (simp add: word_less_nat_alt us un q_def)
  next
    case False
    then have "(r + k) mod 2 ^ 64 = r + k - 2 ^ 64" "(r + k) div 2 ^ 64 = 1"
      using r assms by (simp_all add: mod_if div_if)
    then show ?thesis using nk assms r by (simp add: word_less_nat_alt us un q_def)
  qed
qed

lemma length_mod_append:
  "length (msg @ d) mod 128 = (length (partial_block msg @ d)) mod 128"
  by (simp add: length_partial_block mod_simps)

lemma absorbedI:
  assumes "absorbed ctx msg" and "length d < 2 ^ 64"
    and "count0 c = count0 ctx + of_nat (length d)"
    and "count1 c = (if count0 ctx + of_nat (length d) < count0 ctx then count1 ctx + 1 else count1 ctx)"
    and "state c = foldl sha512_transform (state ctx) (blocks (partial_block msg @ d))"
    and "length (buffer c) = 128"
    and "take (length (partial_block msg @ d) mod 128) (buffer c) = partial_block (partial_block msg @ d)"
  shows "absorbed c (msg @ d)"
  unfolding absorbed_def
proof (intro conjI)
  show "take (length (msg @ d) mod 128) (buffer c) = partial_block (msg @ d)"
    by (subst length_mod_append, subst partial_block_append) (rule assms(7))
  show "state c = foldl sha512_transform SHA512_H0 (blocks (msg @ d))"
    by (subst blocks_append) (use assms(1,5) in \<open>simp add: absorbed_def\<close>)
  show "count1 c = of_nat (length (msg @ d) div 2 ^ 64)"
    using assms(1,4) count_carry [OF assms(2), of "length msg"] by (simp add: absorbed_def split: if_splits)
qed (use assms in \<open>simp_all add: absorbed_def\<close>)

lemma update_absorbs:
  assumes a: "absorbed ctx msg" and len: "length d < 2 ^ 64"
  shows "\<exists>c. alrios_sha512_update (Some ctx) (Some d) (length d) = (ALRIOS_CRYPTO_OK, Some c) \<and>
             absorbed c (msg @ d)"
proof -
  define i p where "i = length msg mod 128" and "p = partial_block msg"
  have i: "unat (count0 ctx mod 128) = i" and buf: "length (buffer ctx) = 128" "take i (buffer ctx) = p"
    and lp: "length p = i" and i128: "i < 128"
    using a by (simp_all add: absorbed_def count_index i_def p_def length_partial_block)
  have fill: "memwrite (buffer ctx) i x = p @ x @ drop (i + length x) (buffer ctx)" for x
    by (simp add: memwrite_def buf)
  consider "d = []" | "d \<noteq> []" "0 < i" "length d < 128 - i" | "d \<noteq> []" "0 < i" "128 - i \<le> length d"
    | "d \<noteq> []" "i = 0" by linarith
  then show ?thesis
  proof cases
    case 1
    then show ?thesis using a by (simp add: alrios_sha512_update_def)
  next
    case 2
    then show ?thesis
      by (auto simp: alrios_sha512_update_def i Let_def fill lp buf partial_block_short
          p_def [symmetric] intro!: absorbedI [OF a len])
  next
    case 3
    then have "blocks (p @ d) = (p @ take (128 - i) d) # blocks (drop (128 - i) d)"
      and "partial_block (p @ d) = partial_block (drop (128 - i) d)"
      and "length (p @ d) mod 128 = (length d - (128 - i)) mod 128"
      using lp i128 by (simp_all add: blocks_long partial_block_long le_mod_geq add.commute)
    note split = this
    let ?filled = "p @ take (128 - i) d" and ?rest = "drop (128 - i) d"
    let ?c = "ctx\<lparr>count0 := count0 ctx + of_nat (length d),
        count1 := (if count0 ctx + of_nat (length d) < count0 ctx then count1 ctx + 1 else count1 ctx),
        state := foldl sha512_transform (sha512_transform (state ctx) ?filled) (blocks ?rest),
        buffer := (if 0 < (length d - (128 - i)) mod 128 then memwrite ?filled 0 (partial_block ?rest) else ?filled)\<rparr>"
    have tb: "transform_blocks (sha512_transform (state ctx) ?filled) ?rest (length d - (128 - i)) =
        (foldl sha512_transform (sha512_transform (state ctx) ?filled) (blocks ?rest), partial_block ?rest,
         (length d - (128 - i)) mod 128)"
      using transform_blocks_all [of "sha512_transform (state ctx) ?filled" ?rest] by simp
    have lr: "length (partial_block ?rest) = (length d - (128 - i)) mod 128"
      by (simp add: length_partial_block)
    have empty: "(length d - (128 - i)) mod 128 = 0 \<Longrightarrow> partial_block ?rest = []"
      using lr by simp
    have lf: "length ?filled = 128" using 3 lp i128 by simp
    moreover have "length (partial_block ?rest) \<le> 128"
      by (simp only: length_partial_block)
    ultimately have lb: "length (memwrite ?filled 0 (partial_block ?rest)) = 128" by simp
    have f: "memwrite (buffer ctx) i (take (128 - i) d) = ?filled"
      using 3 i128 by (simp add: fill buf min_def)
    have "alrios_sha512_update (Some ctx) (Some d) (length d) = (ALRIOS_CRYPTO_OK, Some ?c)"
      using 3 lr by (simp add: alrios_sha512_update_def i Let_def f tb cong: if_cong)
    moreover have "absorbed ?c (msg @ d)"
    proof (rule absorbedI [OF a len])
      show "length (buffer ?c) = 128" using lb lf by simp
    qed (use 3 split lr empty in \<open>simp_all add: memwrite_front p_def [symmetric]\<close>)
    ultimately show ?thesis by blast
  next
    case 4
    then have "p = []" using lp by simp
    with 4 show ?thesis
      using transform_blocks_all [of "state ctx" d]
      by (auto simp: alrios_sha512_update_def i Let_def buf p_def [symmetric]
          memwrite_front length_partial_block partial_block_whole intro!: absorbedI [OF a len])
  qed
qed

lemma low_byte_mask: "(0xFF :: u64) = mask 8"
  by (simp add: mask_eq_exp_minus_1)

lemma be_bytes_of_eq: "be_bytes_of = store_u64_be"
proof (rule ext)
  fix x :: u64
  have "ucast (drop_bit k x AND 0xFF) = (ucast (drop_bit k x) :: u8)" for k
    by (rule bit_word_eqI) (simp add: bit_simps low_byte_mask)
  then show "be_bytes_of x = store_u64_be x"
    by (simp add: be_bytes_of_def store_u64_be_eq be_bytes_def eval_nat_numeral)
qed

text \<open>The two length words of the padding are the bit length of the message.\<close>

lemma bit_count_hi:
  "push_bit 3 (of_nat (n div 2 ^ 64)) OR drop_bit 61 (of_nat n) = (of_nat (8 * n div 2 ^ 64) :: u64)"
proof -
  have "8 * n div 2 ^ 64 = drop_bit 61 n" by (simp add: drop_bit_eq_div div_mult2_eq [of _ 8, symmetric])
  moreover have "n div 2 ^ 64 = drop_bit 64 n" by (simp add: drop_bit_eq_div)
  ultimately show ?thesis
    by (simp only:) (rule bit_word_eqI, auto simp: bit_simps)
qed

lemma bit_count_lo: "push_bit 3 (of_nat n) = (of_nat (8 * n) :: u64)"
  by (simp add: push_bit_eq_mult)

lemma list_update_append_cons:
  "length p = i \<Longrightarrow> i < length xs \<Longrightarrow> take i xs = p \<Longrightarrow> xs[i := v] = p @ v # drop (Suc i) xs"
  by (simp add: upd_conv_take_nth_drop)

lemma final_digest:
  assumes a: "absorbed ctx msg"
  shows "alrios_sha512_final (Some ctx) True = (ALRIOS_CRYPTO_OK, Some (sha512_spec msg), Some zero_ctx)"
proof -
  define i p where "i = length msg mod 128" and "p = partial_block msg"
  have i: "unat (count0 ctx mod 128) = i" and buf: "length (buffer ctx) = 128" "take i (buffer ctx) = p"
    and st: "state ctx = foldl sha512_transform SHA512_H0 (blocks msg)"
    and lp: "length p = i" and i128: "i < 128"
    using a by (simp_all add: absorbed_def count_index i_def p_def length_partial_block)
  define hi lo where "hi = store_u64_be (of_nat (8 * length msg div 2 ^ 64))"
    and "lo = store_u64_be (of_nat (8 * length msg))"
  have hl: "length hi = 8" "length lo = 8" by (simp_all add: hi_def lo_def)
  have bits: "store_u64_be (push_bit 3 (count1 ctx) OR drop_bit 61 (count0 ctx)) = hi"
    "store_u64_be (push_bit 3 (count0 ctx)) = lo"
    using a by (simp_all only: absorbed_def bit_count_hi hi_def lo_def)
      (simp add: bit_count_lo)
  have mark: "(buffer ctx)[i := 0x80] = p @ 0x80 # drop (Suc i) (buffer ctx)"
    using buf lp i128 by (simp add: list_update_append_cons)
  have pad: "blocks (sha512_pad msg) =
      blocks msg @ blocks (p @ [0x80] @ zeros ((239 - i) mod 128) @ hi @ lo)"
    by (simp only: sha512_pad_def p_def i_def hi_def lo_def) (rule blocks_append)
  show ?thesis
  proof (cases "i < 112")
    case True
    then have "(239 - i) mod 128 = 111 - i" by (simp add: mod_if)
    moreover have "memwrite (memwrite (memwrite (p @ 0x80 # drop (Suc i) (buffer ctx)) (Suc i)
        (zeros (111 - i))) 112 hi) 120 lo = p @ [0x80] @ zeros (111 - i) @ hi @ lo"
      using True lp hl buf by (simp add: memwrite_def take_Cons')
    moreover have "blocks (p @ [0x80] @ zeros (111 - i) @ hi @ lo) = [p @ [0x80] @ zeros (111 - i) @ hi @ lo]"
      using True hl lp by (subst blocks_long) simp_all
    ultimately show ?thesis
      using True lp pad
      by (simp add: alrios_sha512_final_def Let_def i bits mark st sha512_spec_def be_bytes_of_eq)
  next
    case False
    then have "(239 - i) mod 128 = 127 - i + 112" using i128 by (simp add: mod_if)
    then have z: "zeros ((239 - i) mod 128) = zeros (127 - i) @ zeros 112"
      by (simp only: zeros_def replicate_add)
    have "memwrite (p @ 0x80 # drop (Suc i) (buffer ctx)) (Suc i) (zeros (127 - i)) =
        p @ [0x80] @ zeros (127 - i)"
      using False i128 lp buf by (simp add: memwrite_def)
    moreover have "memwrite (memwrite (memwrite (p @ [0x80] @ zeros (127 - i)) 0 (zeros 112)) 112 hi) 120 lo =
        zeros 112 @ hi @ lo"
      using False i128 lp hl by (simp add: memwrite_def)
    moreover have "blocks (p @ [0x80] @ zeros ((239 - i) mod 128) @ hi @ lo) =
        [p @ [0x80] @ zeros (127 - i), zeros 112 @ hi @ lo]"
      using i128 lp hl by (simp add: blocks_long z take_Cons' drop_Cons')
    ultimately show ?thesis
      using False hl lp i128 pad
      by (simp add: alrios_sha512_final_def Let_def i bits mark st sha512_spec_def be_bytes_of_eq)
  qed
qed

text \<open>The padded message is a whole number of blocks, so the iteration sees all of it.\<close>

lemma sha512_pad_whole: "128 dvd length (sha512_pad msg)"
proof -
  have "length (sha512_pad msg) = length msg + (239 - length msg mod 128) mod 128 + 17"
    by (simp add: sha512_pad_def)
  moreover define q r where "q = length msg div 128" and "r = length msg mod 128"
  then have "length msg = 128 * q + r" "r < 128" by simp_all
  moreover from this have "(239 - r) mod 128 = (if r < 112 then 111 - r else 239 - r)"
    by (simp add: mod_if)
  ultimately show ?thesis
    by (cases "r < 112") (simp_all add: dvd_eq_mod_eq_0 mod_simps flip: r_def)
qed

lemma length_sha512_transform [simp]: "length (sha512_transform st block) = 8"
  by (simp add: sha512_transform_def split: prod.splits)

lemma length_fold_transform: "length st = 8 \<Longrightarrow> length (foldl sha512_transform st bs) = 8"
  by (induction bs arbitrary: st) simp_all

lemma length_sha512_spec [simp]: "length (sha512_spec msg) = 64"
proof -
  have "length (concat (map store_u64_be ws)) = 8 * length ws" for ws
    by (induction ws) simp_all
  then show ?thesis by (simp add: sha512_spec_def length_fold_transform SHA512_H0_def)
qed

section \<open>The digest\<close>

definition sha512_feed :: "alrios_sha512_ctx option \<Rightarrow> bytes \<Rightarrow> alrios_sha512_ctx option" where
  "sha512_feed ctx d = snd (alrios_sha512_update ctx (Some d) (length d))"

lemma feed_absorbs:
  "absorbed ctx msg \<Longrightarrow> \<forall>d \<in> set ds. length d < 2 ^ 64 \<Longrightarrow>
    \<exists>c. foldl sha512_feed (Some ctx) ds = Some c \<and> absorbed c (msg @ concat ds)"
proof (induction ds arbitrary: ctx msg)
  case (Cons d ds)
  obtain c where "sha512_feed (Some ctx) d = Some c" "absorbed c (msg @ d)"
    using update_absorbs [of ctx msg d] Cons.prems by (auto simp: sha512_feed_def)
  then show ?case using Cons.IH [of c "msg @ d"] Cons.prems by simp
qed simp

lemma one_shot_digest:
  "length d < 2 ^ 64 \<Longrightarrow> alrios_sha512 (Some d) (length d) True = (ALRIOS_CRYPTO_OK, Some (sha512_spec d))"
proof -
  assume "length d < 2 ^ 64"
  from update_absorbs [OF absorbed_init this] show ?thesis
    by (auto simp: alrios_sha512_def alrios_sha512_init_def final_digest)
qed

lemma one_shot_empty: "alrios_sha512 data 0 True = (ALRIOS_CRYPTO_OK, Some (sha512_spec []))"
  by (cases data)
    (simp_all add: alrios_sha512_def alrios_sha512_init_def alrios_sha512_update_def
      final_digest [OF absorbed_init])

text \<open>
  C7: Streaming equals padding and iteration. However a message is cut into updates
  (each of fewer than $2^{64}$ bytes), init, the updates in order and final return OK and the
  digest the reference gives for the whole message: the initial state, transformed
  by every 128 byte block of the message with its padding; final also clears the
  context. In particular the one-shot function returns the same digest.
\<close>

theorem sha512_streaming_digest:
  "\<forall>d \<in> set ds. length d < 2 ^ 64 \<Longrightarrow>
    alrios_sha512_final (foldl sha512_feed (snd (alrios_sha512_init (Some ctx))) ds) True =
      (ALRIOS_CRYPTO_OK, Some (sha512_spec (concat ds)), Some zero_ctx)"
  using feed_absorbs [OF absorbed_init, of ds]
  by (auto simp: alrios_sha512_init_def final_digest)

theorem sha512_streaming_digest_witness:
  "alrios_sha512_final
     (foldl sha512_feed (snd (alrios_sha512_init (Some zero_ctx))) [[0x61], [], [0x62, 0x63]]) True =
   (ALRIOS_CRYPTO_OK, Some (sha512_spec [0x61, 0x62, 0x63]), Some zero_ctx)"
  using sha512_streaming_digest [of "[[0x61], [], [0x62, 0x63]]" zero_ctx] by simp

text \<open>
  The one-shot digest. It is 64 bytes, equal to the reference digest of the
  message, and the padded message it iterates over starts with the message and is a
  whole number of 128 byte blocks; without an output buffer, or with a null input
  of non-zero length, the call is refused.
\<close>

theorem sha512_one_shot:
  assumes "length d < 2 ^ 64"
  shows "alrios_sha512 (Some d) (length d) True = (ALRIOS_CRYPTO_OK, Some (sha512_spec d)) \<and>
    length (sha512_spec d) = 64 \<and> take (length d) (sha512_pad d) = d \<and> 128 dvd length (sha512_pad d) \<and>
    alrios_sha512 None (Suc n) True = (ALRIOS_CRYPTO_ERR_NULL_PTR, None) \<and>
    alrios_sha512 data n False = (ALRIOS_CRYPTO_ERR_NULL_PTR, None)"
  using one_shot_digest [OF assms] sha512_pad_whole [of d]
  by (simp add: alrios_sha512_def [of None] alrios_sha512_def [of data]) (simp add: sha512_pad_def)

theorem sha512_one_shot_witness:
  "alrios_sha512 (Some [0x61, 0x62, 0x63]) (length [0x61, 0x62, 0x63 :: u8]) True =
     (ALRIOS_CRYPTO_OK, Some (sha512_spec [0x61, 0x62, 0x63]))"
  by (rule conjunct1 [OF sha512_one_shot [of "[0x61, 0x62, 0x63]" 0 None]]) simp

end
