(* ===== verification/PosixFile.thy ===== *)
theory PosixFile
  imports Prelude
begin

text \<open>
  The POSIX file interface the persistent components use: one open file description
  with its content, offset, access mode and advisory lock. The kernel may answer a
  call with a short transfer, with \<open>EINTR\<close> or with an error; the answers it will give
  are the field \<open>script\<close>, one outcome per call, and once the script is used up every
  call succeeds in full. A theorem for every script is therefore a theorem for every
  run in which only finitely many calls are disturbed. \<open>errno\<close> is part of the state
  and, as in C, is written by failing calls only.
\<close>

datatype outcome = Progress nat | Interrupted | Failed

datatype errno_code = NoError | EINTR | EIO

datatype access_mode = O_RDONLY | O_WRONLY | O_RDWR

datatype lock_type = F_RDLCK | F_WRLCK

record posix_fd =
  content :: bytes
  pos :: nat
  access :: access_mode
  regular :: bool
  held :: "lock_type option"
  script :: "outcome list"
  errno :: errno_code

definition next_outcome :: "nat \<Rightarrow> posix_fd \<Rightarrow> outcome \<times> posix_fd" where
  "next_outcome request f =
     (case script f of
        [] \<Rightarrow> (Progress request, f)
      | out # rest \<Rightarrow> (out, f\<lparr>script := rest\<rparr>))"

text \<open>A call without transfer: success, or failure with \<open>errno\<close> set.\<close>

definition sys_call :: "posix_fd \<Rightarrow> bool \<times> posix_fd" where
  "sys_call f =
     (case next_outcome 0 f of
        (Progress _, g) \<Rightarrow> (True, g)
      | (Interrupted, g) \<Rightarrow> (False, g\<lparr>errno := EINTR\<rparr>)
      | (Failed, g) \<Rightarrow> (False, g\<lparr>errno := EIO\<rparr>))"

definition file_put :: "bytes \<Rightarrow> nat \<Rightarrow> bytes \<Rightarrow> bytes" where
  "file_put old off data =
     (if data = [] then old
      else take off old @ zeros (off - length old) @ data @ drop (off + length data) old)"

text \<open>
  \<open>pread\<close> and \<open>pwrite\<close> answer the number of bytes transferred, or -1. A read before the
  end of a regular file transfers at least one byte; at the end it answers 0.
\<close>

definition sys_pread :: "nat \<Rightarrow> nat \<Rightarrow> posix_fd \<Rightarrow> int \<times> bytes \<times> posix_fd" where
  "sys_pread request off f =
     (case next_outcome request f of
        (Progress n, g) \<Rightarrow>
          let got = take (max 1 n) (take request (drop off (content g))) in (int (length got), got, g)
      | (Interrupted, g) \<Rightarrow> (-1, [], g\<lparr>errno := EINTR\<rparr>)
      | (Failed, g) \<Rightarrow> (-1, [], g\<lparr>errno := EIO\<rparr>))"

definition sys_pwrite :: "bytes \<Rightarrow> nat \<Rightarrow> posix_fd \<Rightarrow> int \<times> posix_fd" where
  "sys_pwrite data off f =
     (case next_outcome (length data) f of
        (Progress n, g) \<Rightarrow>
          (int (min n (length data)), g\<lparr>content := file_put (content g) off (take n data)\<rparr>)
      | (Interrupted, g) \<Rightarrow> (-1, g\<lparr>errno := EINTR\<rparr>)
      | (Failed, g) \<Rightarrow> (-1, g\<lparr>errno := EIO\<rparr>))"

definition sys_read :: "nat \<Rightarrow> posix_fd \<Rightarrow> int \<times> bytes \<times> posix_fd" where
  "sys_read request f =
     (case sys_pread request (pos f) f of (n, got, g) \<Rightarrow> (n, got, g\<lparr>pos := pos g + length got\<rparr>))"

definition sys_write :: "bytes \<Rightarrow> posix_fd \<Rightarrow> int \<times> posix_fd" where
  "sys_write data f =
     (case sys_pwrite data (pos f) f of (n, g) \<Rightarrow> (n, g\<lparr>pos := pos g + nat n\<rparr>))"

definition sys_lseek :: "nat \<Rightarrow> posix_fd \<Rightarrow> bool \<times> posix_fd" where
  "sys_lseek off f = (case sys_call f of (ok, g) \<Rightarrow> (ok, if ok then g\<lparr>pos := off\<rparr> else g))"

definition sys_ftruncate :: "nat \<Rightarrow> posix_fd \<Rightarrow> bool \<times> posix_fd" where
  "sys_ftruncate n f =
     (case sys_call f of (ok, g) \<Rightarrow>
        (ok, if ok then g\<lparr>content := take n (content g) @ zeros (n - length (content g))\<rparr> else g))"

definition sys_fsync :: "posix_fd \<Rightarrow> bool \<times> posix_fd" where
  "sys_fsync f = sys_call f"

definition sys_fstat :: "posix_fd \<Rightarrow> bool \<times> posix_fd" where
  "sys_fstat f = sys_call f"

definition sys_lock :: "lock_type option \<Rightarrow> posix_fd \<Rightarrow> bool \<times> posix_fd" where
  "sys_lock lt f = (case sys_call f of (ok, g) \<Rightarrow> (ok, if ok then g\<lparr>held := lt\<rparr> else g))"

section \<open>The laws the loops rely on\<close>

lemma file_put_Nil [simp]: "file_put old off [] = old"
  by (simp add: file_put_def)

lemma file_put_inside:
  "off \<le> length old \<Longrightarrow> file_put old off data = take off old @ data @ drop (off + length data) old"
  by (simp add: file_put_def)

lemma length_file_put: "off \<le> length old \<Longrightarrow> length (file_put old off data) = max (length old) (off + length data)"
  by (simp add: file_put_inside)

text \<open>Two writes in a row, the second behind the first, are one write.\<close>

lemma file_put_append:
  "off \<le> length old \<Longrightarrow>
    file_put (file_put old off xs) (off + length xs) ys = file_put old off (xs @ ys)"
  by (simp add: file_put_inside ac_simps)

lemma next_outcome_keeps:
  "next_outcome r f = (out, g) \<Longrightarrow>
    content g = content f \<and> pos g = pos f \<and> access g = access f \<and> regular g = regular f \<and>
    held g = held f \<and> errno g = errno f \<and> length (script g) \<le> length (script f) \<and>
    (out = Progress r \<and> script f = [] \<or> script f = out # script g)"
  by (auto simp: next_outcome_def split: list.splits)

text \<open>\<open>same_file\<close>: what a call that transfers nothing into the file leaves alone.\<close>

definition same_file :: "posix_fd \<Rightarrow> posix_fd \<Rightarrow> bool" where
  "same_file f g \<longleftrightarrow> content g = content f \<and> access g = access f \<and> regular g = regular f"

lemma same_file_refl [simp]: "same_file f f"
  by (simp add: same_file_def)

lemma same_file_trans [trans]: "same_file f g \<Longrightarrow> same_file g h \<Longrightarrow> same_file f h"
  by (simp add: same_file_def)

lemma sys_call_keeps:
  "sys_call f = (ok, g) \<Longrightarrow>
    same_file f g \<and> pos g = pos f \<and> held g = held f \<and> length (script g) \<le> length (script f) \<and>
    (\<not> ok \<longrightarrow> length (script g) < length (script f) \<and> errno g \<noteq> NoError)"
  by (auto simp: sys_call_def same_file_def dest!: next_outcome_keeps split: prod.splits outcome.splits)

lemma sys_pread_cases:
  assumes "sys_pread r off f = (n, got, g)"
  obtains (Data) "n = int (length got)" "got = take (length got) (drop off (content f))"
      "length got \<le> r" "same_file f g" "pos g = pos f" "held g = held f"
      "length (script g) \<le> length (script f)"
      "0 < r \<and> off < length (content f) \<Longrightarrow> 0 < length got"
      "length (content f) \<le> off \<Longrightarrow> got = []"
      "errno g = errno f"
    | (Error) "n = -1" "got = []" "same_file f g" "pos g = pos f" "held g = held f"
      "length (script g) < length (script f)" "errno g \<noteq> NoError"
proof -
  obtain out h where h: "next_outcome r f = (out, h)" by fastforce
  note keeps = next_outcome_keeps [OF h]
  show thesis
  proof (cases out)
    case (Progress k)
    show ?thesis
      by (rule Data)
        (use assms h keeps Progress in \<open>auto simp: sys_pread_def same_file_def Let_def min_def max_def split: if_splits\<close>)
  next
    case Interrupted
    show ?thesis
      by (rule Error) (use assms h keeps Interrupted in \<open>auto simp: sys_pread_def same_file_def\<close>)
  next
    case Failed
    show ?thesis
      by (rule Error) (use assms h keeps Failed in \<open>auto simp: sys_pread_def same_file_def\<close>)
  qed
qed

lemma sys_read_cases:
  assumes "sys_read r f = (n, got, g)"
  obtains (Data) "n = int (length got)" "got = take (length got) (drop (pos f) (content f))"
      "length got \<le> r" "same_file f g" "pos g = pos f + length got" "held g = held f"
      "length (script g) \<le> length (script f)"
      "0 < r \<and> pos f < length (content f) \<Longrightarrow> 0 < length got"
    | (Error) "n = -1" "got = []" "same_file f g" "pos g = pos f" "held g = held f"
      "length (script g) < length (script f)"
proof -
  obtain n' d h where h: "sys_pread r (pos f) f = (n', d, h)" by (metis prod_cases3)
  with assms have g: "n = n'" "got = d" "g = h\<lparr>pos := pos h + length d\<rparr>"
    by (auto simp: sys_read_def)
  from h show thesis
  proof (cases rule: sys_pread_cases)
    case Data
    show ?thesis by (rule that(1)) (use Data g in \<open>auto simp: same_file_def\<close>)
  next
    case Error
    show ?thesis by (rule that(2)) (use Error g in \<open>auto simp: same_file_def\<close>)
  qed
qed

lemma sys_pwrite_cases:
  assumes "sys_pwrite data off f = (n, g)"
  obtains (Data) k where "n = int k" "k \<le> length data" "content g = file_put (content f) off (take k data)"
      "access g = access f" "regular g = regular f" "pos g = pos f" "held g = held f"
      "length (script g) \<le> length (script f)"
      "k = 0 \<and> data \<noteq> [] \<Longrightarrow> length (script g) < length (script f)" "errno g = errno f"
    | (Error) "n = -1" "same_file f g" "pos g = pos f" "held g = held f"
      "length (script g) < length (script f)" "errno g \<noteq> NoError"
proof -
  obtain out h where h: "next_outcome (length data) f = (out, h)" by fastforce
  note keeps = next_outcome_keeps [OF h]
  show thesis
  proof (cases out)
    case (Progress k)
    show ?thesis
      by (rule Data [of "min k (length data)"])
        (use assms h keeps Progress in \<open>auto simp: sys_pwrite_def min_def split: if_splits\<close>)
  next
    case Interrupted
    show ?thesis
      by (rule Error) (use assms h keeps Interrupted in \<open>auto simp: sys_pwrite_def same_file_def\<close>)
  next
    case Failed
    show ?thesis
      by (rule Error) (use assms h keeps Failed in \<open>auto simp: sys_pwrite_def same_file_def\<close>)
  qed
qed

lemma sys_write_cases:
  assumes "sys_write data f = (n, g)"
  obtains (Data) k where "n = int k" "k \<le> length data"
      "content g = file_put (content f) (pos f) (take k data)" "access g = access f"
      "regular g = regular f" "pos g = pos f + k" "held g = held f"
      "length (script g) \<le> length (script f)"
      "k = 0 \<and> data \<noteq> [] \<Longrightarrow> length (script g) < length (script f)"
    | (Error) "n = -1" "same_file f g" "pos g = pos f" "held g = held f"
      "length (script g) < length (script f)"
proof -
  obtain n' h where h: "sys_pwrite data (pos f) f = (n', h)" by fastforce
  with assms have g: "n = n'" "g = h\<lparr>pos := pos h + nat n'\<rparr>"
    by (auto simp: sys_write_def)
  from h show thesis
  proof (cases rule: sys_pwrite_cases)
    case (Data k)
    show ?thesis by (rule that(1) [of k]) (use Data g in auto)
  next
    case Error
    show ?thesis by (rule that(2)) (use Error g in \<open>auto simp: same_file_def\<close>)
  qed
qed

lemma sys_lseek_keeps:
  "sys_lseek off f = (ok, g) \<Longrightarrow>
    same_file f g \<and> held g = held f \<and> length (script g) \<le> length (script f) \<and> (ok \<longrightarrow> pos g = off)"
  by (auto simp: sys_lseek_def same_file_def dest!: sys_call_keeps split: prod.splits if_splits)

lemma sys_ftruncate_keeps:
  "sys_ftruncate n f = (ok, g) \<Longrightarrow>
    access g = access f \<and> regular g = regular f \<and> held g = held f \<and> pos g = pos f \<and>
    length (script g) \<le> length (script f) \<and>
    (if ok then content g = take n (content f) @ zeros (n - length (content f))
     else content g = content f \<and> length (script g) < length (script f))"
  by (auto simp: sys_ftruncate_def same_file_def dest!: sys_call_keeps split: prod.splits)

lemma sys_lock_keeps:
  "sys_lock lt f = (ok, g) \<Longrightarrow>
    same_file f g \<and> pos g = pos f \<and> length (script g) \<le> length (script f) \<and>
    (if ok then held g = lt else held g = held f \<and> length (script g) < length (script f))"
  by (auto simp: sys_lock_def same_file_def dest!: sys_call_keeps split: prod.splits)

text \<open>Without disturbances every call succeeds in full.\<close>

lemma undisturbed_call [simp]: "script f = [] \<Longrightarrow> sys_call f = (True, f)"
  by (simp add: sys_call_def next_outcome_def)

lemma undisturbed_pread [simp]:
  "script f = [] \<Longrightarrow> sys_pread r off f =
     (int (length (take r (drop off (content f)))), take r (drop off (content f)), f)"
  by (cases r) (simp_all add: sys_pread_def next_outcome_def)

lemma undisturbed_pwrite [simp]:
  "script f = [] \<Longrightarrow>
    sys_pwrite data off f = (int (length data), f\<lparr>content := file_put (content f) off data\<rparr>)"
  by (simp add: sys_pwrite_def next_outcome_def)

section \<open>Opening files\<close>

text \<open>
  The file system seen by the path based operations: the files by name, and the
  kernel answers to come. An open description carries the content until it is closed.
\<close>

record os =
  files :: "string \<Rightarrow> bytes option"
  os_script :: "outcome list"
  os_errno :: errno_code

definition sys_open :: "bool \<Rightarrow> access_mode \<Rightarrow> string \<Rightarrow> os \<Rightarrow> posix_fd option \<times> os" where
  "sys_open create acc path w =
     (case os_script w of
        Interrupted # rest \<Rightarrow> (None, w\<lparr>os_script := rest, os_errno := EINTR\<rparr>)
      | Failed # rest \<Rightarrow> (None, w\<lparr>os_script := rest, os_errno := EIO\<rparr>)
      | sc \<Rightarrow>
          (case files w path of
             None \<Rightarrow>
               if create
               then (Some \<lparr>content = [], pos = 0, access = acc, regular = True, held = None,
                           script = tl sc, errno = os_errno w\<rparr>,
                     w\<lparr>files := (files w)(path \<mapsto> []), os_script := tl sc\<rparr>)
               else (None, w\<lparr>os_script := tl sc, os_errno := EIO\<rparr>)
           | Some bs \<Rightarrow>
               (Some \<lparr>content = bs, pos = 0, access = acc, regular = True, held = None,
                      script = tl sc, errno = os_errno w\<rparr>, w\<lparr>os_script := tl sc\<rparr>)))"

text \<open>Closing releases the lock; the callers ignore its result.\<close>

definition sys_close :: "string \<Rightarrow> posix_fd \<Rightarrow> os \<Rightarrow> os" where
  "sys_close path f w =
     w\<lparr>files := (files w)(path \<mapsto> content f), os_script := tl (script f), os_errno := errno f\<rparr>"

lemma sys_open_Some:
  "sys_open create acc path w = (Some f, w') \<Longrightarrow>
    access f = acc \<and> regular f \<and> pos f = 0 \<and> held f = None \<and>
    content f = (case files w path of None \<Rightarrow> [] | Some bs \<Rightarrow> bs) \<and>
    (files w path = None \<longrightarrow> create) \<and> (\<forall>p. p \<noteq> path \<longrightarrow> files w' p = files w p)"
  by (auto simp: sys_open_def split: list.splits outcome.splits option.splits if_splits)

lemma sys_open_None: "sys_open create acc path w = (None, w') \<Longrightarrow> files w' = files w"
  by (auto simp: sys_open_def split: list.splits outcome.splits option.splits if_splits)

lemma files_sys_close [simp]: "files (sys_close path f w) = (files w)(path \<mapsto> content f)"
  by (simp add: sys_close_def)

end
