(* ===== verification/SecurityEpoch.thy ===== *)
theory SecurityEpoch
  imports Sha512 PosixFile
begin

text \<open>
  The security epoch of \<open>src/libraries/policy/security_epoch.c\<close>: the sealed epoch record
  (fields, integrity tag, 128 byte wire image), its advance under the anti-rollback
  rule, its storage in a locked file, the time monitor and the two policy gates.

  HMAC-SHA-512 is computed by OpenSSL; it is the parameter \<open>hmac\<close>, which maps a key and
  a message to the code's MAC or to \<^const>\<open>None\<close> when the provider fails. The unkeyed
  tag uses the SHA-512 engine of \<open>Sha512\<close>. The two clock readings of an operation are
  the parameter \<open>clk\<close>; a failed \<open>clock_gettime\<close> is \<^const>\<open>None\<close>.
\<close>

section \<open>Status codes and records\<close>

datatype epoch_status =
    ALRIOS_EPOCH_OK
  | ALRIOS_EPOCH_ERR_INVALID_ARGUMENT
  | ALRIOS_EPOCH_ERR_ROLLBACK
  | ALRIOS_EPOCH_ERR_INTEGRITY
  | ALRIOS_EPOCH_ERR_IO
  | ALRIOS_EPOCH_ERR_TIME_BACKWARD
  | ALRIOS_EPOCH_ERR_POLICY_OUTDATED
  | ALRIOS_EPOCH_ERR_FORMAT
  | ALRIOS_EPOCH_ERR_EXPIRED
  | ALRIOS_EPOCH_ERR_OVERFLOW

fun epoch_code :: "epoch_status \<Rightarrow> int" where
  "epoch_code ALRIOS_EPOCH_OK = 0"
| "epoch_code ALRIOS_EPOCH_ERR_INVALID_ARGUMENT = -3601"
| "epoch_code ALRIOS_EPOCH_ERR_ROLLBACK = -3602"
| "epoch_code ALRIOS_EPOCH_ERR_INTEGRITY = -3603"
| "epoch_code ALRIOS_EPOCH_ERR_IO = -3604"
| "epoch_code ALRIOS_EPOCH_ERR_TIME_BACKWARD = -3605"
| "epoch_code ALRIOS_EPOCH_ERR_POLICY_OUTDATED = -3606"
| "epoch_code ALRIOS_EPOCH_ERR_FORMAT = -3607"
| "epoch_code ALRIOS_EPOCH_ERR_EXPIRED = -3608"
| "epoch_code ALRIOS_EPOCH_ERR_OVERFLOW = -3609"

record epoch_state =
  version :: u16
  flags :: u16
  epoch :: u64
  updated_at_ns :: u64
  monotonic_anchor_ns :: u64
  integrity_tag :: bytes

type_synonym timespec = "int \<times> int"
type_synonym clocks = "timespec option \<times> timespec option"
type_synonym key = "bytes option"
type_synonym mac = "bytes \<Rightarrow> bytes \<Rightarrow> bytes option"

definition g_epoch_magic :: bytes where
  "g_epoch_magic = [0x41, 0x4C, 0x52, 0x49, 0x45, 0x50, 0x4F, 0x43]"

text \<open>The characters of \<open>ALRIOS-SECURITY-EPOCH-V1\<close>, without the terminator.\<close>

definition g_epoch_domain :: bytes where
  "g_epoch_domain =
     [0x41, 0x4C, 0x52, 0x49, 0x4F, 0x53, 0x2D, 0x53, 0x45, 0x43, 0x55, 0x52, 0x49, 0x54, 0x59, 0x2D,
      0x45, 0x50, 0x4F, 0x43, 0x48, 0x2D, 0x56, 0x31]"

definition zero_state :: epoch_state where
  "zero_state = \<lparr>version = 0, flags = 0, epoch = 0, updated_at_ns = 0, monotonic_anchor_ns = 0,
     integrity_tag = zeros 64\<rparr>"

section \<open>Clocks and tags\<close>

definition timespec_ns :: "timespec \<Rightarrow> u64" where
  "timespec_ns ts = of_int (fst ts) * 1000000000 + of_int (snd ts)"

definition get_current_clocks :: "clocks \<Rightarrow> epoch_status \<times> u64 \<times> u64" where
  "get_current_clocks clk =
     (case fst clk of
        None \<Rightarrow> (ALRIOS_EPOCH_ERR_IO, 0, 0)
      | Some ts_real \<Rightarrow>
          (case snd clk of
             None \<Rightarrow> (ALRIOS_EPOCH_ERR_IO, 0, 0)
           | Some ts_mono \<Rightarrow> (ALRIOS_EPOCH_OK, timespec_ns ts_real, timespec_ns ts_mono)))"

definition compute_integrity_tag :: "mac \<Rightarrow> bytes \<Rightarrow> key \<Rightarrow> epoch_status \<times> bytes" where
  "compute_integrity_tag hmac body key =
     (let tag =
        (case key of
           Some k \<Rightarrow>
             (case hmac (take 32 k) (g_epoch_domain @ body) of
                None \<Rightarrow> None
              | Some m \<Rightarrow> if length m = 64 then Some m else None)
         | None \<Rightarrow>
             (case alrios_sha512_init (Some zero_ctx) of (r1, c1) \<Rightarrow>
                if r1 \<noteq> ALRIOS_CRYPTO_OK then None
                else case alrios_sha512_update c1 (Some g_epoch_domain) (length g_epoch_domain) of (r2, c2) \<Rightarrow>
                  if r2 \<noteq> ALRIOS_CRYPTO_OK then None
                  else case alrios_sha512_update c2 (Some body) (length body) of (r3, c3) \<Rightarrow>
                    if r3 \<noteq> ALRIOS_CRYPTO_OK then None
                    else case alrios_sha512_final c3 True of (r4, digest, _) \<Rightarrow>
                      if r4 \<noteq> ALRIOS_CRYPTO_OK then None else digest))
      in if body = [] then (ALRIOS_EPOCH_ERR_INVALID_ARGUMENT, zeros 64)
         else case tag of
           None \<Rightarrow> (ALRIOS_EPOCH_ERR_INTEGRITY, zeros 64)
         | Some t \<Rightarrow> (ALRIOS_EPOCH_OK, t))"

text \<open>The first 64 bytes of \<open>body\<close> are cleared, then the fields are stored at their offsets.\<close>

definition build_body :: "epoch_state option \<Rightarrow> bytes option \<Rightarrow> epoch_status \<times> bytes option" where
  "build_body stp bodyp =
     (case (stp, bodyp) of
        (Some st, Some body) \<Rightarrow>
          let b0 = memwrite body 0 (zeros 64);
              b1 = memwrite b0 0 g_epoch_magic;
              b2 = memwrite b1 8 (store_u16_be (version st));
              b3 = memwrite b2 10 (store_u16_be (flags st));
              b4 = memwrite b3 12 (store_u64_be (epoch st));
              b5 = memwrite b4 20 (store_u64_be (updated_at_ns st));
              b6 = memwrite b5 28 (store_u64_be (monotonic_anchor_ns st))
          in (ALRIOS_EPOCH_OK, Some b6)
      | _ \<Rightarrow> (ALRIOS_EPOCH_ERR_INVALID_ARGUMENT, bodyp))"

section \<open>The record operations\<close>

definition alrios_epoch_state_verify_integrity :: "mac \<Rightarrow> epoch_state option \<Rightarrow> key \<Rightarrow> epoch_status" where
  "alrios_epoch_state_verify_integrity hmac stp key =
     (case stp of
        None \<Rightarrow> ALRIOS_EPOCH_ERR_INVALID_ARGUMENT
      | Some st \<Rightarrow>
          if version st \<noteq> 1 then ALRIOS_EPOCH_ERR_FORMAT
          else case build_body (Some st) (Some (zeros 64)) of
            (status, body) \<Rightarrow>
              if status \<noteq> ALRIOS_EPOCH_OK then status
              else case compute_integrity_tag hmac (the body) key of
                (status, expected_tag) \<Rightarrow>
                  if status \<noteq> ALRIOS_EPOCH_OK then status
                  else if \<not> memeq (integrity_tag st) expected_tag 64 then ALRIOS_EPOCH_ERR_INTEGRITY
                  else ALRIOS_EPOCH_OK)"

definition alrios_epoch_state_init ::
  "mac \<Rightarrow> clocks \<Rightarrow> epoch_state option \<Rightarrow> u64 \<Rightarrow> key \<Rightarrow> epoch_status \<times> epoch_state option" where
  "alrios_epoch_state_init hmac clk stp initial_epoch key =
     (case stp of
        None \<Rightarrow> (ALRIOS_EPOCH_ERR_INVALID_ARGUMENT, None)
      | Some _ \<Rightarrow>
          let st = zero_state\<lparr>version := 1, flags := 0, epoch := initial_epoch\<rparr>
          in case get_current_clocks clk of
            (status, rt_ns, mono_ns) \<Rightarrow>
              if status \<noteq> ALRIOS_EPOCH_OK then (status, Some st)
              else
                let st = st\<lparr>updated_at_ns := rt_ns, monotonic_anchor_ns := mono_ns\<rparr>
                in case build_body (Some st) (Some (zeros 64)) of
                  (status, body) \<Rightarrow>
                    if status \<noteq> ALRIOS_EPOCH_OK then (status, Some st)
                    else case compute_integrity_tag hmac (the body) key of
                      (status, tag) \<Rightarrow> (status, Some (st\<lparr>integrity_tag := tag\<rparr>)))"

definition alrios_epoch_state_advance ::
  "mac \<Rightarrow> clocks \<Rightarrow> epoch_state option \<Rightarrow> u64 \<Rightarrow> key \<Rightarrow> epoch_status \<times> epoch_state option" where
  "alrios_epoch_state_advance hmac clk stp next_epoch key =
     (case stp of
        None \<Rightarrow> (ALRIOS_EPOCH_ERR_INVALID_ARGUMENT, None)
      | Some st \<Rightarrow>
          let status = alrios_epoch_state_verify_integrity hmac (Some st) key
          in if status \<noteq> ALRIOS_EPOCH_OK then (status, Some st)
          else if next_epoch < epoch st then (ALRIOS_EPOCH_ERR_ROLLBACK, Some st)
          else case get_current_clocks clk of
            (status, rt_ns, mono_ns) \<Rightarrow>
              if status \<noteq> ALRIOS_EPOCH_OK then (status, Some st)
              else if 0 < updated_at_ns st \<and> rt_ns < updated_at_ns st
              then (ALRIOS_EPOCH_ERR_TIME_BACKWARD, Some st)
              else
                let st = st\<lparr>epoch := next_epoch, updated_at_ns := rt_ns, monotonic_anchor_ns := mono_ns\<rparr>
                in case build_body (Some st) (Some (zeros 64)) of
                  (status, body) \<Rightarrow>
                    if status \<noteq> ALRIOS_EPOCH_OK then (status, Some st)
                    else case compute_integrity_tag hmac (the body) key of
                      (status, tag) \<Rightarrow> (status, Some (st\<lparr>integrity_tag := tag\<rparr>)))"

definition alrios_epoch_state_encode ::
  "mac \<Rightarrow> epoch_state option \<Rightarrow> key \<Rightarrow> bytes option \<Rightarrow> epoch_status \<times> bytes option" where
  "alrios_epoch_state_encode hmac stp key out_wire =
     (case (stp, out_wire) of
        (Some st, Some wire) \<Rightarrow>
          let status = alrios_epoch_state_verify_integrity hmac (Some st) key
          in if status \<noteq> ALRIOS_EPOCH_OK then (status, out_wire)
          else case build_body (Some st) out_wire of
            (status, body) \<Rightarrow>
              if status \<noteq> ALRIOS_EPOCH_OK then (status, body)
              else (ALRIOS_EPOCH_OK, Some (memwrite (the body) 64 (take 64 (integrity_tag st))))
      | _ \<Rightarrow> (ALRIOS_EPOCH_ERR_INVALID_ARGUMENT, out_wire))"

definition alrios_epoch_state_decode ::
  "mac \<Rightarrow> bytes option \<Rightarrow> key \<Rightarrow> epoch_state option \<Rightarrow> epoch_status \<times> epoch_state option" where
  "alrios_epoch_state_decode hmac in_wire key out_state =
     (case (in_wire, out_state) of
        (Some wire, Some _) \<Rightarrow>
          if \<not> memeq wire g_epoch_magic 8 then (ALRIOS_EPOCH_ERR_FORMAT, out_state)
          else
            let st = zero_state\<lparr>
                  version := load_u16_be (drop 8 wire), flags := load_u16_be (drop 10 wire),
                  epoch := load_u64_be (drop 12 wire), updated_at_ns := load_u64_be (drop 20 wire),
                  monotonic_anchor_ns := load_u64_be (drop 28 wire),
                  integrity_tag := bytes_at 64 64 wire\<rparr>;
                status = alrios_epoch_state_verify_integrity hmac (Some st) key
            in if status \<noteq> ALRIOS_EPOCH_OK then (status, out_state)
               else (ALRIOS_EPOCH_OK, Some st)
      | _ \<Rightarrow> (ALRIOS_EPOCH_ERR_INVALID_ARGUMENT, out_state))"

section \<open>The record in a file\<close>

text \<open>
  The loops end because a call that makes no progress uses up an outcome of the
  script. \<open>acc\<close> is the part of the buffer that is filled, \<open>sent\<close> the number of bytes written.
\<close>

function read_exact :: "posix_fd \<Rightarrow> nat \<Rightarrow> bytes \<Rightarrow> epoch_status \<times> bytes \<times> posix_fd" where
  "read_exact f len acc =
     (if length acc < len then
        (case sys_read (len - length acc) f of
           (n, got, g) \<Rightarrow>
             if 0 < n then read_exact g len (acc @ got)
             else if n = 0 then (ALRIOS_EPOCH_ERR_IO, acc, g)
             else if errno g \<noteq> EINTR then (ALRIOS_EPOCH_ERR_IO, acc, g)
             else read_exact g len acc)
      else (ALRIOS_EPOCH_OK, acc, f))"
  by pat_completeness auto
termination
proof (relation "measure (\<lambda>(f, len, acc). length (script f) + (len - length acc))", goal_cases)
  case (2 f len acc n y got g)
  then have "sys_read (len - length acc) f = (n, got, g)" by simp
  then show ?case by (cases rule: sys_read_cases) (use 2 in \<open>auto simp flip: length_greater_0_conv\<close>)
next
  case (3 f len acc n y got g)
  then have "sys_read (len - length acc) f = (n, got, g)" by simp
  then show ?case by (cases rule: sys_read_cases) (use 3 in auto)
qed simp

declare read_exact.simps [simp del]

text \<open>A write that answers 0 is judged by whatever \<open>errno\<close> an earlier call has left.\<close>

function write_exact :: "posix_fd \<Rightarrow> bytes \<Rightarrow> nat \<Rightarrow> epoch_status \<times> posix_fd" where
  "write_exact f buf sent =
     (if sent < length buf then
        (case sys_write (drop sent buf) f of
           (n, g) \<Rightarrow>
             if 0 < n then write_exact g buf (sent + nat n)
             else if errno g \<noteq> EINTR then (ALRIOS_EPOCH_ERR_IO, g)
             else write_exact g buf sent)
      else (ALRIOS_EPOCH_OK, f))"
  by pat_completeness auto
termination
proof (relation "measure (\<lambda>(f, buf, sent). length (script f) + (length buf - sent))", goal_cases)
  case (2 f buf sent n g)
  then have "sys_write (drop sent buf) f = (n, g)" by simp
  then show ?case by (cases rule: sys_write_cases) (use 2 in auto)
next
  case (3 f buf sent n g)
  then have "sys_write (drop sent buf) f = (n, g)" by simp
  then show ?case by (cases rule: sys_write_cases) (use 3 in auto)
qed simp

declare write_exact.simps [simp del]

text \<open>A negative descriptor is \<^const>\<open>None\<close>.\<close>

definition alrios_epoch_state_read_fd ::
  "mac \<Rightarrow> posix_fd option \<Rightarrow> key \<Rightarrow> epoch_state option \<Rightarrow> epoch_status \<times> epoch_state option \<times> posix_fd option" where
  "alrios_epoch_state_read_fd hmac fd key out_state =
     (case (fd, out_state) of
        (Some f, Some _) \<Rightarrow>
          (case sys_lseek 0 f of
             (ok, f1) \<Rightarrow>
               if \<not> ok then (ALRIOS_EPOCH_ERR_IO, out_state, Some f1)
               else case read_exact f1 128 [] of
                 (status, wire, f2) \<Rightarrow>
                   if status \<noteq> ALRIOS_EPOCH_OK then (status, out_state, Some f2)
                   else case alrios_epoch_state_decode hmac (Some wire) key out_state of
                     (status, st) \<Rightarrow> (status, st, Some f2))
      | _ \<Rightarrow> (ALRIOS_EPOCH_ERR_INVALID_ARGUMENT, out_state, fd))"

definition alrios_epoch_state_write_fd ::
  "mac \<Rightarrow> posix_fd option \<Rightarrow> key \<Rightarrow> epoch_state option \<Rightarrow> epoch_status \<times> posix_fd option" where
  "alrios_epoch_state_write_fd hmac fd key stp =
     (case (fd, stp) of
        (Some f, Some _) \<Rightarrow>
          (case alrios_epoch_state_encode hmac stp key (Some (zeros 128)) of
             (status, wire) \<Rightarrow>
               if status \<noteq> ALRIOS_EPOCH_OK then (status, Some f)
               else case sys_lseek 0 f of
                 (ok, f1) \<Rightarrow>
                   if \<not> ok then (ALRIOS_EPOCH_ERR_IO, Some f1)
                   else case write_exact f1 (the wire) 0 of
                     (status, f2) \<Rightarrow>
                       if status \<noteq> ALRIOS_EPOCH_OK then (status, Some f2)
                       else case sys_ftruncate 128 f2 of
                         (ok, f3) \<Rightarrow>
                           if \<not> ok then (ALRIOS_EPOCH_ERR_IO, Some f3)
                           else case sys_fsync f3 of
                             (ok, f4) \<Rightarrow>
                               (if ok then ALRIOS_EPOCH_OK else ALRIOS_EPOCH_ERR_IO, Some f4))
      | _ \<Rightarrow> (ALRIOS_EPOCH_ERR_INVALID_ARGUMENT, fd))"

definition alrios_epoch_state_load_file ::
  "mac \<Rightarrow> string option \<Rightarrow> key \<Rightarrow> epoch_state option \<Rightarrow> os \<Rightarrow> epoch_status \<times> epoch_state option \<times> os" where
  "alrios_epoch_state_load_file hmac pathp key out_state w =
     (case (pathp, out_state) of
        (Some path, Some _) \<Rightarrow>
          (case sys_open False O_RDONLY path w of
             (None, w1) \<Rightarrow> (ALRIOS_EPOCH_ERR_IO, out_state, w1)
           | (Some f, w1) \<Rightarrow>
               (case alrios_epoch_state_read_fd hmac (Some f) key out_state of
                  (status, st, f1) \<Rightarrow> (status, st, sys_close path (the f1) w1)))
      | _ \<Rightarrow> (ALRIOS_EPOCH_ERR_INVALID_ARGUMENT, out_state, w))"

definition alrios_epoch_state_save_file ::
  "mac \<Rightarrow> string option \<Rightarrow> key \<Rightarrow> epoch_state option \<Rightarrow> os \<Rightarrow> epoch_status \<times> os" where
  "alrios_epoch_state_save_file hmac pathp key stp w =
     (case (pathp, stp) of
        (Some path, Some _) \<Rightarrow>
          (case sys_open True O_RDWR path w of
             (None, w1) \<Rightarrow> (ALRIOS_EPOCH_ERR_IO, w1)
           | (Some f, w1) \<Rightarrow>
               (case alrios_epoch_state_write_fd hmac (Some f) key stp of
                  (status, f1) \<Rightarrow> (status, sys_close path (the f1) w1)))
      | _ \<Rightarrow> (ALRIOS_EPOCH_ERR_INVALID_ARGUMENT, w))"

text \<open>The part of \<open>alrios_epoch_file_advance\<close> between taking and releasing the lock.\<close>

definition advance_locked ::
  "mac \<Rightarrow> clocks \<Rightarrow> u64 \<Rightarrow> key \<Rightarrow> posix_fd \<Rightarrow> epoch_status \<times> epoch_state \<times> posix_fd" where
  "advance_locked hmac clk next_epoch key f =
     (let (status, st, f1) =
        (if content f = [] then
           (case alrios_epoch_state_init hmac clk (Some zero_state) next_epoch key of
              (status, st) \<Rightarrow> (status, the st, f))
         else
           (case alrios_epoch_state_read_fd hmac (Some f) key (Some zero_state) of
              (status, st, f1) \<Rightarrow>
                if status = ALRIOS_EPOCH_OK then
                  (case alrios_epoch_state_advance hmac clk st next_epoch key of
                     (status, st) \<Rightarrow> (status, the st, the f1))
                else (status, the st, the f1)))
      in if status = ALRIOS_EPOCH_OK then
           (case alrios_epoch_state_write_fd hmac (Some f1) key (Some st) of
              (status, f2) \<Rightarrow> (status, st, the f2))
         else (status, st, f1))"

definition alrios_epoch_file_advance ::
  "mac \<Rightarrow> clocks \<Rightarrow> string option \<Rightarrow> u64 \<Rightarrow> key \<Rightarrow> epoch_state option \<Rightarrow> os \<Rightarrow>
    epoch_status \<times> epoch_state option \<times> os" where
  "alrios_epoch_file_advance hmac clk pathp next_epoch key out_state w =
     (case pathp of
        None \<Rightarrow> (ALRIOS_EPOCH_ERR_INVALID_ARGUMENT, out_state, w)
      | Some path \<Rightarrow>
          (case sys_open True O_RDWR path w of
             (None, w1) \<Rightarrow> (ALRIOS_EPOCH_ERR_IO, out_state, w1)
           | (Some f, w1) \<Rightarrow>
               (case sys_lock (Some F_WRLCK) f of
                  (ok, f1) \<Rightarrow>
                    if \<not> ok then (ALRIOS_EPOCH_ERR_IO, out_state, sys_close path f1 w1)
                    else case sys_fstat f1 of
                      (ok, f2) \<Rightarrow>
                        if \<not> ok then
                          (ALRIOS_EPOCH_ERR_IO, out_state, sys_close path (snd (sys_lock None f2)) w1)
                        else case advance_locked hmac clk next_epoch key f2 of
                          (status, st, f3) \<Rightarrow>
                            (status,
                             if status = ALRIOS_EPOCH_OK \<and> out_state \<noteq> None then Some st else out_state,
                             sys_close path (snd (sys_lock None f3)) w1))))"

section \<open>The time monitor\<close>

record time_monitor =
  last_realtime_ns :: u64
  last_monotonic_ns :: u64
  backward_step_threshold_ns :: u64
  violations_count :: u64
  last_violation_delta_ns :: u64
  tamper_detected :: bool

definition alrios_time_monitor_init :: "time_monitor option \<Rightarrow> u64 \<Rightarrow> epoch_status \<times> time_monitor option" where
  "alrios_time_monitor_init monp threshold =
     (case monp of
        None \<Rightarrow> (ALRIOS_EPOCH_ERR_INVALID_ARGUMENT, None)
      | Some _ \<Rightarrow> (ALRIOS_EPOCH_OK,
          Some \<lparr>last_realtime_ns = 0, last_monotonic_ns = 0, backward_step_threshold_ns = threshold,
                violations_count = 0, last_violation_delta_ns = 0, tamper_detected = False\<rparr>))"

definition alrios_time_monitor_update ::
  "time_monitor option \<Rightarrow> u64 \<Rightarrow> u64 \<Rightarrow> epoch_status \<times> time_monitor option" where
  "alrios_time_monitor_update monp now_realtime_ns now_monotonic_ns =
     (case monp of
        None \<Rightarrow> (ALRIOS_EPOCH_ERR_INVALID_ARGUMENT, None)
      | Some mon \<Rightarrow>
          let observed = mon\<lparr>last_realtime_ns := now_realtime_ns, last_monotonic_ns := now_monotonic_ns\<rparr>;
              violation = (\<lambda>delta. mon\<lparr>tamper_detected := True,
                violations_count := violations_count mon + 1, last_violation_delta_ns := delta\<rparr>)
          in if last_realtime_ns mon = 0 \<and> last_monotonic_ns mon = 0
             then (ALRIOS_EPOCH_OK, Some observed)
             else if now_monotonic_ns < last_monotonic_ns mon
             then (ALRIOS_EPOCH_ERR_TIME_BACKWARD, Some (violation (last_monotonic_ns mon - now_monotonic_ns)))
             else if now_realtime_ns < last_realtime_ns mon \<and>
                     backward_step_threshold_ns mon < last_realtime_ns mon - now_realtime_ns
             then (ALRIOS_EPOCH_ERR_TIME_BACKWARD, Some (violation (last_realtime_ns mon - now_realtime_ns)))
             else (ALRIOS_EPOCH_OK, Some observed))"

definition alrios_time_monitor_sample ::
  "clocks \<Rightarrow> time_monitor option \<Rightarrow> epoch_status \<times> time_monitor option" where
  "alrios_time_monitor_sample clk monp =
     (case monp of
        None \<Rightarrow> (ALRIOS_EPOCH_ERR_INVALID_ARGUMENT, None)
      | Some mon \<Rightarrow>
          (case get_current_clocks clk of
             (status, rt_ns, mono_ns) \<Rightarrow>
               if status \<noteq> ALRIOS_EPOCH_OK then (status, Some mon)
               else alrios_time_monitor_update (Some mon) rt_ns mono_ns))"

definition alrios_time_monitor_verify_against_anchor ::
  "time_monitor option \<Rightarrow> epoch_state option \<Rightarrow> epoch_status" where
  "alrios_time_monitor_verify_against_anchor monp anchorp =
     (case (monp, anchorp) of
        (Some mon, Some anchor) \<Rightarrow>
          if 0 < updated_at_ns anchor \<and> 0 < last_realtime_ns mon \<and>
             last_realtime_ns mon < updated_at_ns anchor
          then ALRIOS_EPOCH_ERR_TIME_BACKWARD
          else ALRIOS_EPOCH_OK
      | _ \<Rightarrow> ALRIOS_EPOCH_ERR_INVALID_ARGUMENT)"

section \<open>The gates\<close>

record crypto_policy =
  min_epoch :: u64
  policy_epoch :: u64
  allowed_algorithms_mask :: u32
  required_capabilities :: u32
  require_pqc :: int
  valid_from_ns :: u64
  valid_until_ns :: u64

definition alrios_security_epoch_gate_policy ::
  "epoch_state option \<Rightarrow> crypto_policy option \<Rightarrow> epoch_status" where
  "alrios_security_epoch_gate_policy stp policyp =
     (case (stp, policyp) of
        (Some st, Some policy) \<Rightarrow>
          if policy_epoch policy < epoch st then ALRIOS_EPOCH_ERR_POLICY_OUTDATED
          else if epoch st < min_epoch policy then ALRIOS_EPOCH_ERR_ROLLBACK
          else if 0 < valid_until_ns policy \<and> valid_until_ns policy < updated_at_ns st
          then ALRIOS_EPOCH_ERR_EXPIRED
          else ALRIOS_EPOCH_OK
      | _ \<Rightarrow> ALRIOS_EPOCH_ERR_INVALID_ARGUMENT)"

text \<open>The enumeration is an \<open>int\<close> in C; a caller may pass a value outside it.\<close>

definition alrios_security_epoch_gate_algorithm :: "epoch_state option \<Rightarrow> int \<Rightarrow> epoch_status" where
  "alrios_security_epoch_gate_algorithm stp algo =
     (case stp of
        None \<Rightarrow> ALRIOS_EPOCH_ERR_INVALID_ARGUMENT
      | Some st \<Rightarrow>
          if algo = 1 then
            (if 2 \<le> epoch st then ALRIOS_EPOCH_ERR_POLICY_OUTDATED else ALRIOS_EPOCH_OK)
          else if algo \<in> {2, 3, 4, 5} then ALRIOS_EPOCH_OK
          else ALRIOS_EPOCH_ERR_INVALID_ARGUMENT)"

definition alrios_crypto_algo_name :: "int \<Rightarrow> string" where
  "alrios_crypto_algo_name algo =
     (if algo = 1 then ''Ed25519 (RFC 8032 / Classic)''
      else if algo = 2 then ''ML-DSA-65 (FIPS 204)''
      else if algo = 3 then ''Ed25519 + ML-DSA-65 Hybrid''
      else if algo = 4 then ''ML-KEM-768 (FIPS 203)''
      else if algo = 5 then ''AES-256-GCM''
      else ''Unknown Algorithm'')"

definition alrios_epoch_strerror :: "int \<Rightarrow> string" where
  "alrios_epoch_strerror err =
     (if err = 0 then ''Success''
      else if err = -3601 then ''Invalid argument''
      else if err = -3602 then ''Rollback attempt rejected''
      else if err = -3603 then ''Security epoch integrity check failed''
      else if err = -3604 then ''I/O error''
      else if err = -3605 then ''Backward time jump or clock rollback detected''
      else if err = -3606 then ''Outdated or revoked crypto policy''
      else if err = -3607 then ''Invalid epoch record format''
      else if err = -3608 then ''Policy expired''
      else if err = -3609 then ''Integer overflow''
      else ''Unknown error'')"

end
