(* ===== verification/SealedRecord.thy ===== *)
theory SealedRecord
  imports Prelude
begin

text \<open>
  The contract of a persisted, integrity protected record format. Two components
  provide it: the epoch record of \<open>SecurityEpoch\<close>, a fixed 128 bytes, and the audit
  block of \<open>AuditChain\<close>, whose header announces its length. \<open>extent\<close> is how far a
  record that starts at the given bytes reaches; \<open>dec\<close> reads exactly one record.
\<close>

locale sealed_record =
  fixes ok :: "'r \<Rightarrow> bool"
    and enc :: "'r \<Rightarrow> bytes"
    and dec :: "bytes \<Rightarrow> 'r option"
    and extent :: "bytes \<Rightarrow> nat"
  assumes dec_enc: "ok r \<Longrightarrow> dec (enc r) = Some r"
    and dec_ok: "dec bs = Some r \<Longrightarrow> ok r"
    and extent_enc: "ok r \<Longrightarrow> extent (enc r @ rest) = length (enc r)"
    and enc_nonempty: "ok r \<Longrightarrow> enc r \<noteq> []"
begin

lemma enc_inject: "ok r \<Longrightarrow> ok s \<Longrightarrow> enc r = enc s \<longleftrightarrow> r = s"
  by (metis dec_enc option.inject)

lemma prefix_free:
  assumes "ok r" "ok s" and eq: "enc r @ xs = enc s @ ys"
  shows "r = s \<and> xs = ys"
proof -
  have "length (enc r) = length (enc s)"
    using extent_enc [OF assms(1), of xs] extent_enc [OF assms(2), of ys] eq by simp
  then show ?thesis using eq enc_inject [OF assms(1,2)] by simp
qed

text \<open>A log, the records one behind the other, determines its records.\<close>

lemma log_inject:
  "\<forall>r \<in> set rs. ok r \<Longrightarrow> \<forall>s \<in> set ss. ok s \<Longrightarrow>
    concat (map enc rs) = concat (map enc ss) \<Longrightarrow> rs = ss"
proof (induction rs arbitrary: ss)
  case Nil
  show ?case by (cases ss) (use Nil.prems enc_nonempty in auto)
next
  case (Cons r rs)
  have "enc r \<noteq> []" using Cons.prems(1) enc_nonempty by simp
  then obtain s ss' where ss: "ss = s # ss'" using Cons.prems(3) by (cases ss) simp_all
  have oks: "ok r" "ok s" "\<forall>r \<in> set rs. ok r" "\<forall>s \<in> set ss'. ok s"
    and eq: "enc r @ concat (map enc rs) = enc s @ concat (map enc ss')"
    using Cons.prems ss by simp_all
  from prefix_free [OF oks(1,2) eq] have "r = s" "concat (map enc rs) = concat (map enc ss')" by simp_all
  with Cons.IH [OF oks(3,4)] show ?case by (simp add: ss)
qed

text \<open>Every record read back is the image of itself: reading is a retraction.\<close>

lemma dec_stable: "dec bs = Some r \<Longrightarrow> dec (enc r) = Some r"
  using dec_enc dec_ok by blast

end

end
