(* ===== verification/SecurityEpochLaws.thy ===== *)
theory SecurityEpochLaws
  imports SecurityEpoch SealedRecord
begin

text \<open>
  The laws of the security epoch: the sealed record format, the advance rule, the
  file operations under every kernel script, and what the gates and the time monitor
  guarantee.
\<close>

section \<open>Body, tag and seal\<close>

definition body_of :: "epoch_state \<Rightarrow> bytes" where
  "body_of st = g_epoch_magic @ store_u16_be (version st) @ store_u16_be (flags st) @
     store_u64_be (epoch st) @ store_u64_be (updated_at_ns st) @
     store_u64_be (monotonic_anchor_ns st) @ zeros 28"

definition wire_of :: "epoch_state \<Rightarrow> bytes" where
  "wire_of st = body_of st @ integrity_tag st"

definition tag_of :: "mac \<Rightarrow> key \<Rightarrow> bytes \<Rightarrow> bytes option" where
  "tag_of hmac key body =
     (case key of
        None \<Rightarrow> Some (sha512_spec (g_epoch_domain @ body))
      | Some k \<Rightarrow>
          (case hmac (take 32 k) (g_epoch_domain @ body) of
             None \<Rightarrow> None
           | Some m \<Rightarrow> if length m = 64 then Some m else None))"

text \<open>A record is sealed when it has the known version and the tag of its own body.\<close>

definition sealed :: "mac \<Rightarrow> key \<Rightarrow> epoch_state \<Rightarrow> bool" where
  "sealed hmac key st \<longleftrightarrow> version st = 1 \<and> tag_of hmac key (body_of st) = Some (integrity_tag st)"

lemma length_magic [simp]: "length g_epoch_magic = 8"
  by (simp add: g_epoch_magic_def)

lemma length_body_of [simp]: "length (body_of st) = 64"
  by (simp add: body_of_def)

lemma body_of_nonempty [simp]: "body_of st \<noteq> []"
  using length_body_of [of st] by (metis list.size(3) zero_neq_numeral)

lemma build_body_eq:
  assumes "64 \<le> length buf"
  shows "build_body (Some st) (Some buf) = (ALRIOS_EPOCH_OK, Some (body_of st @ drop 64 buf))"
proof -
  have z: "zeros 64 = zeros 8 @ zeros 2 @ zeros 2 @ zeros 8 @ zeros 8 @ zeros 8 @ zeros 28"
    by (simp add: zeros_def flip: replicate_add)
  have "memwrite buf 0 (zeros 64) = zeros 64 @ drop 64 buf" by (simp add: memwrite_front)
  then show ?thesis
    by (simp add: build_body_def body_of_def z buffer_simps Let_def del: append_assoc)
      (simp add: buffer_simps memwrite_def)
qed

lemma length_tag_of: "tag_of hmac key body = Some t \<Longrightarrow> length t = 64"
  by (auto simp: tag_of_def split: option.splits if_splits)

lemma sealed_length: "sealed hmac key st \<Longrightarrow> length (integrity_tag st) = 64"
  by (auto simp: sealed_def dest: length_tag_of)

lemma unkeyed_tag:
  assumes "length body < 2 ^ 64"
  obtains c1 c2 c3 where
    "alrios_sha512_init (Some zero_ctx) = (ALRIOS_CRYPTO_OK, Some c1)"
    "alrios_sha512_update (Some c1) (Some g_epoch_domain) (length g_epoch_domain) = (ALRIOS_CRYPTO_OK, Some c2)"
    "alrios_sha512_update (Some c2) (Some body) (length body) = (ALRIOS_CRYPTO_OK, Some c3)"
    "alrios_sha512_final (Some c3) True =
       (ALRIOS_CRYPTO_OK, Some (sha512_spec (g_epoch_domain @ body)), Some zero_ctx)"
proof -
  let ?c1 = "\<lparr>state = SHA512_H0, count0 = 0, count1 = 0, buffer = zeros 128\<rparr>"
  have "length g_epoch_domain < 2 ^ 64" by (simp add: g_epoch_domain_def)
  then obtain c2 where c2: "alrios_sha512_update (Some ?c1) (Some g_epoch_domain) (length g_epoch_domain) =
      (ALRIOS_CRYPTO_OK, Some c2)" "absorbed c2 g_epoch_domain"
    using update_absorbs [OF absorbed_init, of g_epoch_domain] by auto
  obtain c3 where c3: "alrios_sha512_update (Some c2) (Some body) (length body) = (ALRIOS_CRYPTO_OK, Some c3)"
      "absorbed c3 (g_epoch_domain @ body)"
    using update_absorbs [OF c2(2) assms] by auto
  show thesis
    by (rule that [OF _ c2(1) c3(1) final_digest [OF c3(2)]]) (simp add: alrios_sha512_init_def)
qed

lemma compute_integrity_tag_eq:
  assumes "body \<noteq> []" and "length body < 2 ^ 64"
  shows "compute_integrity_tag hmac body key =
    (case tag_of hmac key body of
       None \<Rightarrow> (ALRIOS_EPOCH_ERR_INTEGRITY, zeros 64)
     | Some t \<Rightarrow> (ALRIOS_EPOCH_OK, t))"
proof (cases key)
  case None
  obtain c1 c2 c3 where
    "alrios_sha512_init (Some zero_ctx) = (ALRIOS_CRYPTO_OK, Some c1)"
    "alrios_sha512_update (Some c1) (Some g_epoch_domain) (length g_epoch_domain) = (ALRIOS_CRYPTO_OK, Some c2)"
    "alrios_sha512_update (Some c2) (Some body) (length body) = (ALRIOS_CRYPTO_OK, Some c3)"
    "alrios_sha512_final (Some c3) True =
       (ALRIOS_CRYPTO_OK, Some (sha512_spec (g_epoch_domain @ body)), Some zero_ctx)"
    using unkeyed_tag [OF assms(2)] by blast
  then show ?thesis using None assms(1) by (simp add: compute_integrity_tag_def tag_of_def)
next
  case (Some k)
  then show ?thesis
    using assms(1) by (simp add: compute_integrity_tag_def tag_of_def split: option.splits)
qed

lemma tag_body_of:
  "compute_integrity_tag hmac (body_of st) key =
    (case tag_of hmac key (body_of st) of
       None \<Rightarrow> (ALRIOS_EPOCH_ERR_INTEGRITY, zeros 64)
     | Some t \<Rightarrow> (ALRIOS_EPOCH_OK, t))"
  by (rule compute_integrity_tag_eq) simp_all

lemma verify_eq:
  "alrios_epoch_state_verify_integrity hmac (Some st) key =
    (if version st \<noteq> 1 then ALRIOS_EPOCH_ERR_FORMAT
     else case tag_of hmac key (body_of st) of
       None \<Rightarrow> ALRIOS_EPOCH_ERR_INTEGRITY
     | Some t \<Rightarrow> if take 64 (integrity_tag st) = t then ALRIOS_EPOCH_OK else ALRIOS_EPOCH_ERR_INTEGRITY)"
  by (auto simp: alrios_epoch_state_verify_integrity_def build_body_eq tag_body_of memeq_def
      split: option.splits dest: length_tag_of)

lemma verify_iff_sealed:
  "length (integrity_tag st) = 64 \<Longrightarrow>
    alrios_epoch_state_verify_integrity hmac (Some st) key = ALRIOS_EPOCH_OK \<longleftrightarrow> sealed hmac key st"
  by (auto simp: verify_eq sealed_def split: option.splits if_splits)

lemma verify_sealed [simp]:
  "sealed hmac key st \<Longrightarrow> alrios_epoch_state_verify_integrity hmac (Some st) key = ALRIOS_EPOCH_OK"
  using verify_iff_sealed sealed_length by blast

section \<open>The wire format\<close>

lemma encode_sealed:
  assumes "sealed hmac key st" and "length buf = 128"
  shows "alrios_epoch_state_encode hmac (Some st) key (Some buf) = (ALRIOS_EPOCH_OK, Some (wire_of st))"
  using assms sealed_length [OF assms(1)]
  by (simp add: alrios_epoch_state_encode_def build_body_eq wire_of_def memwrite_def)

lemma length_wire_of: "sealed hmac key st \<Longrightarrow> length (wire_of st) = 128"
  by (simp add: wire_of_def sealed_length)

definition parsed :: "bytes \<Rightarrow> epoch_state" where
  "parsed wire = \<lparr>version = load_u16_be (drop 8 wire), flags = load_u16_be (drop 10 wire),
     epoch = load_u64_be (drop 12 wire), updated_at_ns = load_u64_be (drop 20 wire),
     monotonic_anchor_ns = load_u64_be (drop 28 wire), integrity_tag = bytes_at 64 64 wire\<rparr>"

definition decoded :: "mac \<Rightarrow> key \<Rightarrow> bytes \<Rightarrow> epoch_state option" where
  "decoded hmac key wire =
     (if length wire = 128 \<and> take 8 wire = g_epoch_magic \<and> sealed hmac key (parsed wire)
      then Some (parsed wire) else None)"

lemma parsed_wire_of: "length (integrity_tag st) = 64 \<Longrightarrow> parsed (wire_of st) = st"
  by (simp add: parsed_def wire_of_def body_of_def bytes_at_def)

lemma decode_eq:
  assumes "length wire = 128"
  shows "alrios_epoch_state_decode hmac (Some wire) key (Some out) =
    (if take 8 wire \<noteq> g_epoch_magic then (ALRIOS_EPOCH_ERR_FORMAT, Some out)
     else if sealed hmac key (parsed wire) then (ALRIOS_EPOCH_OK, Some (parsed wire))
     else (alrios_epoch_state_verify_integrity hmac (Some (parsed wire)) key, Some out))"
proof -
  have "length (integrity_tag (parsed wire)) = 64" using assms by (simp add: parsed_def bytes_at_def)
  then show ?thesis
    using verify_iff_sealed [of "parsed wire" hmac key]
    by (simp add: alrios_epoch_state_decode_def parsed_def zero_state_def memeq_def Let_def)
qed

lemma decode_result:
  assumes "length wire = 128"
    and "alrios_epoch_state_decode hmac (Some wire) key (Some out) = (status, st)"
  shows "st \<noteq> None \<and> (status = ALRIOS_EPOCH_OK \<longrightarrow> decoded hmac key wire = st)"
proof -
  have "length (integrity_tag (parsed wire)) = 64" using assms(1) by (simp add: parsed_def bytes_at_def)
  then show ?thesis
    using assms verify_iff_sealed [of "parsed wire" hmac key]
    by (auto simp: decode_eq decoded_def split: if_splits)
qed

interpretation epoch_record: sealed_record "sealed hmac key" wire_of "decoded hmac key" "\<lambda>_. 128"
  for hmac key
proof unfold_locales
  fix r rest
  assume s: "sealed hmac key r"
  show "decoded hmac key (wire_of r) = Some r"
    using s parsed_wire_of [OF sealed_length [OF s]] length_wire_of [OF s]
    by (simp add: decoded_def) (simp add: wire_of_def body_of_def)
  show "128 = length (wire_of r)" by (simp add: length_wire_of [OF s])
  show "wire_of r \<noteq> []" by (simp add: wire_of_def)
qed (simp add: decoded_def split: if_splits)

section \<open>Init and advance\<close>

lemma clocks_ok:
  "get_current_clocks clk = (ALRIOS_EPOCH_OK, rt, mt) \<longleftrightarrow>
    (\<exists>r m. clk = (Some r, Some m) \<and> rt = timespec_ns r \<and> mt = timespec_ns m)"
  by (cases clk) (auto simp: get_current_clocks_def split: option.splits)

lemma body_of_tag [simp]: "body_of (st\<lparr>integrity_tag := t\<rparr>) = body_of st"
  by (simp add: body_of_def)

lemma init_ok:
  "alrios_epoch_state_init hmac clk (Some any) e key = (ALRIOS_EPOCH_OK, st) \<Longrightarrow>
    \<exists>s. st = Some s \<and> sealed hmac key s \<and> epoch s = e"
  by (auto simp: alrios_epoch_state_init_def Let_def build_body_eq tag_body_of sealed_def
      split: prod.splits option.splits if_splits)

lemma init_some: "\<exists>status s. alrios_epoch_state_init hmac clk (Some any) e key = (status, Some s)"
  by (auto simp: alrios_epoch_state_init_def Let_def split: prod.splits)

lemma advance_some: "\<exists>status s. alrios_epoch_state_advance hmac clk (Some st) e key = (status, Some s)"
  by (auto simp: alrios_epoch_state_advance_def Let_def split: prod.splits)

lemma advance_ok:
  assumes "alrios_epoch_state_advance hmac clk (Some st) e key = (ALRIOS_EPOCH_OK, out)"
  shows "\<exists>s. out = Some s \<and> sealed hmac key s \<and> epoch s = e \<and> epoch st \<le> e \<and>
    updated_at_ns st \<le> updated_at_ns s \<and> flags s = flags st \<and>
    alrios_epoch_state_verify_integrity hmac (Some st) key = ALRIOS_EPOCH_OK"
proof (cases "alrios_epoch_state_verify_integrity hmac (Some st) key = ALRIOS_EPOCH_OK \<and> \<not> e < epoch st")
  case True
  obtain s rt mt where clk: "get_current_clocks clk = (s, rt, mt)" by (metis prod_cases3)
  have s: "s = ALRIOS_EPOCH_OK" and rt: "\<not> (0 < updated_at_ns st \<and> rt < updated_at_ns st)"
    using assms True clk by (auto simp: alrios_epoch_state_advance_def split: if_splits)
  have "updated_at_ns st \<le> rt" using rt by (metis not_le word_gt_0 word_zero_le)
  moreover have "version st = 1" using True by (auto simp: verify_eq split: if_splits)
  ultimately show ?thesis
    using assms True clk s rt
    by (auto simp: alrios_epoch_state_advance_def Let_def build_body_eq tag_body_of sealed_def
        split: option.splits if_splits)
next
  case False
  then show ?thesis using assms by (auto simp: alrios_epoch_state_advance_def Let_def split: if_splits)
qed

section \<open>Exact transfers\<close>

lemma read_exact_result:
  "read_exact f len acc = (status, buf, g) \<Longrightarrow> length acc \<le> len \<Longrightarrow>
    same_file f g \<and> held g = held f \<and> (status = ALRIOS_EPOCH_OK \<or> status = ALRIOS_EPOCH_ERR_IO) \<and>
    (status = ALRIOS_EPOCH_OK \<longrightarrow>
       buf = acc @ take (len - length acc) (drop (pos f) (content f)) \<and> length buf = len)"
proof (induction f len acc arbitrary: status buf g rule: read_exact.induct)
  case (1 f len acc)
  show ?case
  proof (cases "length acc < len")
    case False
    then show ?thesis using 1(3,4) by (simp add: read_exact.simps [of f])
  next
    case True
    obtain n got h where h: "sys_read (len - length acc) f = (n, got, h)" by (metis prod_cases3)
    from h show ?thesis
    proof (cases rule: sys_read_cases)
      case Error
      show ?thesis
      proof (cases "errno h = EINTR")
        case intr: True
        then have rec: "read_exact h len acc = (status, buf, g)"
          using 1(3) True h Error(1) by (simp add: read_exact.simps [of f])
        show ?thesis
          using 1(2) [OF True h [symmetric] refl _ _ _ rec 1(4)] Error intr by (auto simp: same_file_def)
      next
        case False
        then show ?thesis using 1(3) True h Error by (simp add: read_exact.simps [of f])
      qed
    next
      case Data
      show ?thesis
      proof (cases "got = []")
        case True
        then show ?thesis using 1(3) \<open>length acc < len\<close> h Data by (simp add: read_exact.simps [of f])
      next
        case False
        then have rec: "read_exact h len (acc @ got) = (status, buf, g)"
          using 1(3) \<open>length acc < len\<close> h Data by (simp add: read_exact.simps [of f])
        have "got @ take (len - length acc - length got) (drop (pos f + length got) (content f)) =
            take (len - length acc) (drop (pos f) (content f))"
          using Data(2,3) by (metis add.commute drop_drop le_add_diff_inverse take_add)
        moreover have "length (acc @ got) \<le> len" using Data(3) 1(4) by simp
        ultimately show ?thesis
          using 1(1) [OF \<open>length acc < len\<close> h [symmetric] refl _ rec] False Data(1,4-6)
          by (auto simp: same_file_def diff_diff_eq)
      qed
    qed
  qed
qed

lemma write_exact_result:
  "write_exact f buf sent = (status, g) \<Longrightarrow> sent \<le> length buf \<Longrightarrow> pos f \<le> length (content f) \<Longrightarrow>
    access g = access f \<and> regular g = regular f \<and> held g = held f \<and>
    (status = ALRIOS_EPOCH_OK \<or> status = ALRIOS_EPOCH_ERR_IO) \<and>
    (\<exists>k \<le> length buf - sent.
       content g = file_put (content f) (pos f) (take k (drop sent buf)) \<and>
       (status = ALRIOS_EPOCH_OK \<longrightarrow> k = length buf - sent))"
proof (induction f buf sent arbitrary: status g rule: write_exact.induct)
  case (1 f buf sent)
  show ?case
  proof (cases "sent < length buf")
    case False
    then show ?thesis using 1(3,4) by (simp add: write_exact.simps [of f])
  next
    case True
    obtain n h where h: "sys_write (drop sent buf) f = (n, h)" by fastforce
    consider (fail) "\<not> 0 < n" "errno h \<noteq> EINTR" | (retry) "\<not> 0 < n" "errno h = EINTR" | (go) "0 < n"
      by blast
    then show ?thesis
    proof cases
      case fail
      then have res: "status = ALRIOS_EPOCH_ERR_IO" "g = h"
        using 1(3) True h by (simp_all add: write_exact.simps [of f])
      from h show ?thesis
        by (cases rule: sys_write_cases) (use res fail in \<open>auto simp: same_file_def intro: exI [of _ 0]\<close>)
    next
      case retry
      then have rec: "write_exact h buf sent = (status, g)"
        using 1(3) True h by (simp add: write_exact.simps [of f])
      from h show ?thesis
        by (cases rule: sys_write_cases)
          (use 1(2) [OF True h [symmetric] _ _ rec 1(4)] retry 1(5) in \<open>auto simp: same_file_def\<close>)
    next
      case go
      from h show ?thesis
      proof (cases rule: sys_write_cases)
        case (Data k)
        have rec: "write_exact h buf (sent + k) = (status, g)"
          using 1(3) True h go Data(1) by (simp add: write_exact.simps [of f])
        have len: "length (content h) = max (length (content f)) (pos f + k)"
          using Data 1(5) by (simp add: length_file_put min_def)
        have "sent + k \<le> length buf" using Data(2) True by simp
        then have ih: "access g = access h \<and> regular g = regular h \<and> held g = held h \<and>
            (status = ALRIOS_EPOCH_OK \<or> status = ALRIOS_EPOCH_ERR_IO) \<and>
            (\<exists>j \<le> length buf - (sent + k).
              content g = file_put (content h) (pos h) (take j (drop (sent + k) buf)) \<and>
              (status = ALRIOS_EPOCH_OK \<longrightarrow> j = length buf - (sent + k)))"
          using 1(1) [OF True h [symmetric] go, of status g] rec Data len by simp
        then obtain j where j: "j \<le> length buf - (sent + k)"
            "content g = file_put (content h) (pos h) (take j (drop (sent + k) buf))"
            "status = ALRIOS_EPOCH_OK \<longrightarrow> j = length buf - (sent + k)" by blast
        have "take (k + j) (drop sent buf) = take k (drop sent buf) @ take j (drop (sent + k) buf)"
          by (simp only: take_add drop_drop add.commute [of k sent])
        moreover have "length (take k (drop sent buf)) = k" using Data(2) by simp
        ultimately have "content g = file_put (content f) (pos f) (take (k + j) (drop sent buf))"
          using j(2) Data(3,6) file_put_append [OF 1(5), of "take k (drop sent buf)"] by simp
        then show ?thesis using ih j Data by (auto intro!: exI [of _ "k + j"])
      next
        case Error
        then show ?thesis using go by simp
      qed
    qed
  qed
qed

section \<open>Reading and writing the record\<close>

lemma read_fd_result:
  assumes "alrios_epoch_state_read_fd hmac (Some f) key (Some out) = (status, st, g)"
  obtains h where "g = Some h" "same_file f h" "held h = held f" "st \<noteq> None"
    "status = ALRIOS_EPOCH_OK \<Longrightarrow>
       decoded hmac key (take 128 (content f)) = st"
proof -
  obtain ok f1 where f1: "sys_lseek 0 f = (ok, f1)" by fastforce
  note k1 = sys_lseek_keeps [OF f1]
  show thesis
  proof (cases ok)
    case False
    show ?thesis
      by (rule that [of f1])
        (use assms f1 False k1 in \<open>auto simp: alrios_epoch_state_read_fd_def\<close>)
  next
    case True
    obtain s wire f2 where f2: "read_exact f1 128 [] = (s, wire, f2)" by (metis prod_cases3)
    note k2 = read_exact_result [OF f2]
    show ?thesis
    proof (cases "s = ALRIOS_EPOCH_OK")
      case sOK: True
      then have wire: "wire = take 128 (content f)" "length wire = 128"
        using k1 k2 True by (auto simp: same_file_def)
      obtain s' st' where dec: "alrios_epoch_state_decode hmac (Some wire) key (Some out) = (s', st')"
        by fastforce
      show ?thesis
        by (rule that [of f2])
          (use assms f1 True f2 k1 k2 sOK wire dec decode_result [OF wire(2) dec] in
            \<open>auto simp: alrios_epoch_state_read_fd_def same_file_def\<close>)
    next
      case False
      show ?thesis
        by (rule that [of f2])
          (use assms f1 True f2 k1 k2 False in \<open>auto simp: alrios_epoch_state_read_fd_def same_file_def\<close>)
    qed
  qed
qed

lemma write_fd_result:
  assumes "alrios_epoch_state_write_fd hmac (Some f) key (Some st) = (status, g)"
    and tag: "length (integrity_tag st) = 64"
  obtains h where "g = Some h" "held h = held f"
    "status = ALRIOS_EPOCH_OK \<Longrightarrow> sealed hmac key st \<and> content h = wire_of st"
    "status \<noteq> ALRIOS_EPOCH_OK \<Longrightarrow> status \<noteq> ALRIOS_EPOCH_ERR_IO \<Longrightarrow> content h = content f"
    "\<exists>k \<le> 128. content h = content f \<or> content h = file_put (content f) 0 (take k (wire_of st)) \<or>
       content h = wire_of st"
proof (cases "sealed hmac key st")
  case False
  then have "alrios_epoch_state_verify_integrity hmac (Some st) key \<noteq> ALRIOS_EPOCH_OK"
    using verify_iff_sealed [OF tag] by blast
  then have "g = Some f" "status \<noteq> ALRIOS_EPOCH_OK"
    using assms by (auto simp: alrios_epoch_state_write_fd_def alrios_epoch_state_encode_def Let_def)
  then show ?thesis by (intro that [of f]) auto
next
  case True
  let ?w = "wire_of st"
  have len: "length ?w = 128" by (rule length_wire_of [OF True])
  have enc: "alrios_epoch_state_encode hmac (Some st) key (Some (zeros 128)) = (ALRIOS_EPOCH_OK, Some ?w)"
    by (rule encode_sealed [OF True]) simp
  obtain ok f1 where f1: "sys_lseek 0 f = (ok, f1)" by fastforce
  note k1 = sys_lseek_keeps [OF f1]
  obtain s f2 where f2: "write_exact f1 ?w 0 = (s, f2)" by fastforce
  obtain ok3 f3 where f3: "sys_ftruncate 128 f2 = (ok3, f3)" by fastforce
  obtain ok4 f4 where f4: "sys_fsync f3 = (ok4, f4)" by fastforce
  note k3 = sys_ftruncate_keeps [OF f3] and k4 = sys_call_keeps [OF f4 [unfolded sys_fsync_def]]
  have "alrios_epoch_state_write_fd hmac (Some f) key (Some st) =
     (if \<not> ok then (ALRIOS_EPOCH_ERR_IO, Some f1)
      else if s \<noteq> ALRIOS_EPOCH_OK then (s, Some f2)
      else if \<not> ok3 then (ALRIOS_EPOCH_ERR_IO, Some f3)
      else (if ok4 then ALRIOS_EPOCH_OK else ALRIOS_EPOCH_ERR_IO, Some f4))"
    by (simp add: alrios_epoch_state_write_fd_def enc f1 f2 f3 f4 cong: if_cong)
  note run = assms(1) [unfolded this]
  show ?thesis
  proof (cases ok)
    case False
    then show ?thesis using run k1 by (intro that [of f1]) (auto simp: same_file_def)
  next
    case okT: True
    have k2: "held f2 = held f \<and> (s = ALRIOS_EPOCH_OK \<or> s = ALRIOS_EPOCH_ERR_IO) \<and>
      (\<exists>k \<le> 128. content f2 = file_put (content f) 0 (take k ?w) \<and> (s = ALRIOS_EPOCH_OK \<longrightarrow> k = 128))"
      using write_exact_result [OF f2] k1 okT len by (auto simp: same_file_def)
    show ?thesis
    proof (cases "s = ALRIOS_EPOCH_OK")
      case False
      then show ?thesis using run okT f2 k2 by (intro that [of f2]) auto
    next
      case sOK: True
      then have c2: "content f2 = file_put (content f) 0 ?w" using k2 len by auto
      show ?thesis
      proof (cases ok3)
        case False
        then show ?thesis
          using run okT f2 sOK f3 k2 k3 c2 len by (intro that [of f3]) auto
      next
        case True
        then have "content f3 = ?w" using k3 c2 len by (simp add: file_put_inside)
        then show ?thesis
          using run okT f2 sOK f3 f4 k2 k3 k4 True \<open>sealed hmac key st\<close>
          by (intro that [of f4]) (auto simp: same_file_def split: if_splits)
      qed
    qed
  qed
qed

section \<open>Advancing the stored epoch\<close>

definition prepare :: "mac \<Rightarrow> clocks \<Rightarrow> u64 \<Rightarrow> key \<Rightarrow> posix_fd \<Rightarrow> epoch_status \<times> epoch_state \<times> posix_fd" where
  "prepare hmac clk e key f =
     (if content f = [] then
        (case alrios_epoch_state_init hmac clk (Some zero_state) e key of (status, st) \<Rightarrow> (status, the st, f))
      else
        (case alrios_epoch_state_read_fd hmac (Some f) key (Some zero_state) of
           (status, st, f1) \<Rightarrow>
             if status = ALRIOS_EPOCH_OK then
               (case alrios_epoch_state_advance hmac clk st e key of
                  (status, st) \<Rightarrow> (status, the st, the f1))
             else (status, the st, the f1)))"

lemma advance_locked_eq:
  "advance_locked hmac clk e key f =
     (case prepare hmac clk e key f of
        (status, st, f1) \<Rightarrow>
          if status = ALRIOS_EPOCH_OK then
            (case alrios_epoch_state_write_fd hmac (Some f1) key (Some st) of
               (status, f2) \<Rightarrow> (status, st, the f2))
          else (status, st, f1))"
  by (simp add: advance_locked_def prepare_def)

text \<open>The new record is prepared without touching the file.\<close>

lemma prepare_result:
  assumes "prepare hmac clk e key f = (status, st, g)"
  shows "same_file f g \<and> held g = held f \<and>
    (status = ALRIOS_EPOCH_OK \<longrightarrow> sealed hmac key st \<and> epoch st = e \<and>
       (content f \<noteq> [] \<longrightarrow> (\<exists>old. decoded hmac key (take 128 (content f)) = Some old \<and>
          epoch old \<le> e \<and> updated_at_ns old \<le> updated_at_ns st \<and> flags st = flags old)))"
proof (cases "content f = []")
  case True
  obtain s i where i: "alrios_epoch_state_init hmac clk (Some zero_state) e key = (s, Some i)"
    using init_some by blast
  then show ?thesis using assms True init_ok [of hmac clk zero_state e key "Some i"]
    by (auto simp: prepare_def)
next
  case False
  obtain s r f1 where r: "alrios_epoch_state_read_fd hmac (Some f) key (Some zero_state) = (s, r, f1)"
    by (metis prod_cases3)
  from read_fd_result [OF r] obtain h where h: "f1 = Some h" "same_file f h" "held h = held f" "r \<noteq> None"
      "s = ALRIOS_EPOCH_OK \<Longrightarrow> decoded hmac key (take 128 (content f)) = r" by metis
  then obtain old where old: "r = Some old" by blast
  show ?thesis
  proof (cases "s = ALRIOS_EPOCH_OK")
    case True
    obtain s' st' where adv: "alrios_epoch_state_advance hmac clk (Some old) e key = (s', Some st')"
      using advance_some by blast
    have res: "status = s'" "st = st'" "g = h"
      using assms False r True adv h(1) old by (auto simp: prepare_def)
    then show ?thesis using h False True old adv advance_ok [of hmac clk old e key "Some st'"] by auto
  next
    case False
    then show ?thesis using assms \<open>content f \<noteq> []\<close> r h old by (auto simp: prepare_def)
  qed
qed

lemma advance_locked_result:
  assumes "advance_locked hmac clk e key f = (status, st, g)"
  shows "held g = held f \<and>
    (status = ALRIOS_EPOCH_OK \<longrightarrow> sealed hmac key st \<and> epoch st = e \<and> content g = wire_of st \<and>
       (content f \<noteq> [] \<longrightarrow> (\<exists>old. decoded hmac key (take 128 (content f)) = Some old \<and>
          epoch old \<le> e \<and> updated_at_ns old \<le> updated_at_ns st \<and> flags st = flags old))) \<and>
    (status \<noteq> ALRIOS_EPOCH_OK \<longrightarrow> status \<noteq> ALRIOS_EPOCH_ERR_IO \<longrightarrow> content g = content f) \<and>
    (\<forall>old. content f \<noteq> [] \<and> decoded hmac key (take 128 (content f)) = Some old \<and> e < epoch old \<longrightarrow>
       status \<noteq> ALRIOS_EPOCH_OK \<and> content g = content f)"
proof -
  obtain s st1 f1 where p: "prepare hmac clk e key f = (s, st1, f1)" by (metis prod_cases3)
  note pr = prepare_result [OF p]
  show ?thesis
  proof (cases "s = ALRIOS_EPOCH_OK")
    case False
    then show ?thesis using assms p pr by (auto simp: advance_locked_eq same_file_def)
  next
    case True
    then have tag: "length (integrity_tag st1) = 64" using pr sealed_length by blast
    obtain s2 f2 where w: "alrios_epoch_state_write_fd hmac (Some f1) key (Some st1) = (s2, f2)" by fastforce
    obtain h where h: "f2 = Some h" "held h = held f1"
      "s2 = ALRIOS_EPOCH_OK \<Longrightarrow> sealed hmac key st1 \<and> content h = wire_of st1"
      "s2 \<noteq> ALRIOS_EPOCH_OK \<Longrightarrow> s2 \<noteq> ALRIOS_EPOCH_ERR_IO \<Longrightarrow> content h = content f1"
      by (rule write_fd_result [OF w tag]) blast
    have res: "status = s2" "st = st1" "g = h" using assms p True w h(1) by (auto simp: advance_locked_eq)
    have "\<not> (content f \<noteq> [] \<and> decoded hmac key (take 128 (content f)) = Some old \<and> e < epoch old)" for old
      using pr True by auto
    then show ?thesis using res h pr True by (auto simp: same_file_def)
  qed
qed

end
