(* ===== verification/SecurityEpochSpec.thy ===== *)
theory SecurityEpochSpec
  imports SecurityEpochLaws
begin

text \<open>
  The properties of the security epoch: no rollback of the stored epoch, the sealed
  wire format, permanence of revocation, the time monitor, and exact transfers.
\<close>

section \<open>No rollback\<close>

definition stored :: "os \<Rightarrow> string \<Rightarrow> bytes" where
  "stored w path = (case files w path of None \<Rightarrow> [] | Some bs \<Rightarrow> bs)"

lemma stored_open:
  "sys_open True O_RDWR path w = (Some f, w1) \<Longrightarrow> content f = stored w path"
  by (simp add: stored_def sys_open_Some)

lemma stored_close [simp]: "stored (sys_close path f w) path = content f"
  by (simp add: stored_def)

lemma stored_failed_open: "sys_open c a path w = (None, w1) \<Longrightarrow> stored w1 p = stored w p"
  by (simp add: stored_def sys_open_None)

lemma content_unlock [simp]: "content (snd (sys_lock lt f)) = content f"
  using sys_lock_keeps [of lt f] by (cases "sys_lock lt f") (auto simp: same_file_def)

text \<open>A run of \<open>alrios_epoch_file_advance\<close> either stops before or runs the locked part.\<close>

lemma file_advance_cases:
  assumes "alrios_epoch_file_advance hmac clk (Some path) e key out w = (status, out', w')"
  obtains (Early) "status = ALRIOS_EPOCH_ERR_IO" "stored w' path = stored w path" "out' = out"
      "\<forall>p. p \<noteq> path \<longrightarrow> files w' p = files w p"
    | (Locked) f st g where "advance_locked hmac clk e key f = (status, st, g)"
      "content f = stored w path" "stored w' path = content g" "held f = Some F_WRLCK"
      "out' = (if status = ALRIOS_EPOCH_OK \<and> out \<noteq> None then Some st else out)"
      "\<forall>p. p \<noteq> path \<longrightarrow> files w' p = files w p"
proof -
  obtain fo w1 where o: "sys_open True O_RDWR path w = (fo, w1)" by fastforce
  show thesis
  proof (cases fo)
    case None
    then show ?thesis using assms o sys_open_None [of True O_RDWR path w w1]
      by (intro Early) (auto simp: alrios_epoch_file_advance_def stored_def)
  next
    case (Some f)
    note k0 = sys_open_Some [OF o [unfolded Some]] and c0 = stored_open [OF o [unfolded Some]]
    obtain ok f1 where f1: "sys_lock (Some F_WRLCK) f = (ok, f1)" by fastforce
    obtain ok2 f2 where f2: "sys_fstat f1 = (ok2, f2)" by fastforce
    obtain s st f3 where f3: "advance_locked hmac clk e key f2 = (s, st, f3)" by (metis prod_cases3)
    note k1 = sys_lock_keeps [OF f1] and k2 = sys_call_keeps [OF f2 [unfolded sys_fstat_def]]
    have run: "alrios_epoch_file_advance hmac clk (Some path) e key out w =
      (if \<not> ok then (ALRIOS_EPOCH_ERR_IO, out, sys_close path f1 w1)
       else if \<not> ok2 then (ALRIOS_EPOCH_ERR_IO, out, sys_close path (snd (sys_lock None f2)) w1)
       else (s, if s = ALRIOS_EPOCH_OK \<and> out \<noteq> None then Some st else out,
             sys_close path (snd (sys_lock None f3)) w1))"
      by (simp add: alrios_epoch_file_advance_def o Some f1 f2 f3 cong: if_cong)
    show ?thesis
    proof (cases "ok \<and> ok2")
      case False
      then show ?thesis using assms run k0 k1 k2 c0
        by (intro Early) (auto simp: same_file_def split: if_splits)
    next
      case True
      show ?thesis
        by (rule Locked [of f2 st f3])
          (use True assms run k0 k1 k2 c0 f3 in \<open>auto simp: same_file_def\<close>)
    qed
  qed
qed

text \<open>
  C8: The stored epoch never rolls back. Whatever the kernel answers (short transfers,
  interrupts, errors): if the file advance reports success, the file holds exactly the
  sealed 128 byte record of the requested epoch, and a record that was there before had a
  valid seal, an epoch no larger and a time stamp no later. A request below the
  stored epoch never succeeds and leaves the file untouched, and so does every
  failure other than an I/O error. Other files are not touched.
\<close>

theorem epoch_file_never_rolls_back:
  assumes "alrios_epoch_file_advance hmac clk (Some path) e key out w = (status, out', w')"
  shows "(status = ALRIOS_EPOCH_OK \<longrightarrow>
      (\<exists>st. stored w' path = wire_of st \<and> length (wire_of st) = 128 \<and> sealed hmac key st \<and> epoch st = e \<and>
        (out \<noteq> None \<longrightarrow> out' = Some st) \<and>
        (stored w path \<noteq> [] \<longrightarrow>
          (\<exists>old. decoded hmac key (take 128 (stored w path)) = Some old \<and> epoch old \<le> e \<and>
            updated_at_ns old \<le> updated_at_ns st \<and> flags st = flags old)))) \<and>
    (\<forall>old. stored w path \<noteq> [] \<and> decoded hmac key (take 128 (stored w path)) = Some old \<and> e < epoch old \<longrightarrow>
      status \<noteq> ALRIOS_EPOCH_OK \<and> stored w' path = stored w path) \<and>
    (status \<noteq> ALRIOS_EPOCH_OK \<and> status \<noteq> ALRIOS_EPOCH_ERR_IO \<longrightarrow>
      stored w' path = stored w path \<and> out' = out) \<and>
    (\<forall>p. p \<noteq> path \<longrightarrow> files w' p = files w p)"
  using assms
proof (cases rule: file_advance_cases)
  case Early
  then show ?thesis by auto
next
  case (Locked f st g)
  note r = advance_locked_result [OF Locked(1)]
  show ?thesis
  proof (intro conjI impI)
    assume ok: "status = ALRIOS_EPOCH_OK"
    show "\<exists>st. stored w' path = wire_of st \<and> length (wire_of st) = 128 \<and> sealed hmac key st \<and> epoch st = e \<and>
        (out \<noteq> None \<longrightarrow> out' = Some st) \<and>
        (stored w path \<noteq> [] \<longrightarrow>
          (\<exists>old. decoded hmac key (take 128 (stored w path)) = Some old \<and> epoch old \<le> e \<and>
            updated_at_ns old \<le> updated_at_ns st \<and> flags st = flags old))"
      by (rule exI [of _ st]) (use r ok Locked length_wire_of in auto)
  qed (use r Locked in auto)
qed

text \<open>The concrete inputs of the witnesses: a constant MAC, a clock and an empty file system.\<close>

definition demo_mac :: mac where
  "demo_mac k m = Some (zeros 64)"

definition demo_clocks :: clocks where
  "demo_clocks = (Some (100, 0), Some (7, 0))"

definition demo_os :: "outcome list \<Rightarrow> os" where
  "demo_os sc = \<lparr>files = (\<lambda>_. None), os_script = sc, os_errno = NoError\<rparr>"

definition demo_state :: epoch_state where
  "demo_state = \<lparr>version = 1, flags = 0, epoch = 5, updated_at_ns = 90000000000,
     monotonic_anchor_ns = 3, integrity_tag = zeros 64\<rparr>"

definition demo_file :: os where
  "demo_file = (demo_os [Progress 0, Progress 0, Progress 0, Progress 0, Interrupted, Progress 9])
     \<lparr>files := [''epoch'' \<mapsto> wire_of demo_state]\<rparr>"

theorem epoch_file_never_rolls_back_witness:
  "(let r = alrios_epoch_file_advance demo_mac demo_clocks (Some ''epoch'') 6 (Some (zeros 32)) None demo_file
    in fst r = ALRIOS_EPOCH_OK \<and> (\<exists>st. stored (snd (snd r)) ''epoch'' = wire_of st \<and> epoch st = 6)) \<and>
   (let r = alrios_epoch_file_advance demo_mac demo_clocks (Some ''epoch'') 4 (Some (zeros 32)) None demo_file
    in fst r = ALRIOS_EPOCH_ERR_ROLLBACK \<and> stored (snd (snd r)) ''epoch'' = wire_of demo_state)"
proof -
  let ?r = "\<lambda>e. alrios_epoch_file_advance demo_mac demo_clocks (Some ''epoch'') e (Some (zeros 32)) None demo_file"
  have "fst (?r 6) = ALRIOS_EPOCH_OK" "fst (?r 4) = ALRIOS_EPOCH_ERR_ROLLBACK" by code_simp+
  moreover have "stored demo_file ''epoch'' = wire_of demo_state"
    by (simp add: stored_def demo_file_def)
  moreover note epoch_file_never_rolls_back [OF surjective_pairing [THEN trans, OF arg_cong2 [of _ _ _ _ Pair, OF refl surjective_pairing]], of demo_mac demo_clocks "''epoch''" 6 "Some (zeros 32)" None demo_file]
   epoch_file_never_rolls_back [OF surjective_pairing [THEN trans, OF arg_cong2 [of _ _ _ _ Pair, OF refl surjective_pairing]], of demo_mac demo_clocks "''epoch''" 4 "Some (zeros 32)" None demo_file]
  ultimately show ?thesis by (auto simp: Let_def)
qed

section \<open>The sealed wire format\<close>

text \<open>
  Encoding and decoding. A record with a 64 byte tag that passes the integrity check
  is encoded, into any 128 byte buffer, as its body followed by its tag, and decoding
  those bytes with the same key gives back the very same record.
\<close>

theorem epoch_wire_roundtrip:
  assumes "alrios_epoch_state_verify_integrity hmac (Some st) key = ALRIOS_EPOCH_OK"
    and "length (integrity_tag st) = 64" and "length buf = 128"
  shows "\<exists>wire. alrios_epoch_state_encode hmac (Some st) key (Some buf) = (ALRIOS_EPOCH_OK, Some wire) \<and>
    length wire = 128 \<and> alrios_epoch_state_decode hmac (Some wire) key (Some any) = (ALRIOS_EPOCH_OK, Some st)"
proof -
  have s: "sealed hmac key st" using assms verify_iff_sealed by blast
  have "decoded hmac key (wire_of st) = Some st" by (rule epoch_record.dec_enc [OF s])
  then have "alrios_epoch_state_decode hmac (Some (wire_of st)) key (Some any) = (ALRIOS_EPOCH_OK, Some st)"
    by (auto simp: decode_eq length_wire_of [OF s] decoded_def split: if_splits)
  then show ?thesis using encode_sealed [OF s assms(3)] length_wire_of [OF s] by blast
qed

theorem epoch_wire_roundtrip_witness:
  "alrios_epoch_state_verify_integrity demo_mac (Some demo_state) (Some (zeros 32)) = ALRIOS_EPOCH_OK \<and>
   (\<exists>wire. alrios_epoch_state_encode demo_mac (Some demo_state) (Some (zeros 32)) (Some (zeros 128)) =
        (ALRIOS_EPOCH_OK, Some wire) \<and> length wire = 128 \<and>
      alrios_epoch_state_decode demo_mac (Some wire) (Some (zeros 32)) (Some zero_state) =
        (ALRIOS_EPOCH_OK, Some demo_state))"
proof -
  have v: "alrios_epoch_state_verify_integrity demo_mac (Some demo_state) (Some (zeros 32)) = ALRIOS_EPOCH_OK"
    by (simp add: verify_eq demo_state_def tag_of_def demo_mac_def)
  show ?thesis
    using v epoch_wire_roundtrip [OF v, of "zeros 128" zero_state] by (simp add: demo_state_def)
qed

lemma take_36_body:
  assumes "length wire = 128" "take 8 wire = g_epoch_magic"
  shows "take 36 (body_of (parsed wire)) = take 36 wire"
proof -
  have "take 36 wire = take 8 wire @ concat (slices wire 8 [2, 2, 8, 8, 8])"
    using take_add [of 8 28 wire] by (simp add: concat_slices del: slices.simps)
  also have "\<dots> = g_epoch_magic @ store_u16_be (load_u16_be (drop 8 wire)) @
      store_u16_be (load_u16_be (drop 10 wire)) @ store_u64_be (load_u64_be (drop 12 wire)) @
      store_u64_be (load_u64_be (drop 20 wire)) @ store_u64_be (load_u64_be (drop 28 wire))"
    using assms by (simp add: be16.enc_dec be64.enc_dec)
  finally show ?thesis by (simp add: body_of_def parsed_def)
qed

text \<open>
  C9: What decoding authenticates. An accepted record has the tag of its own body, and
  its fields and tag are the bytes of the image. Two accepted images with the same tag
  that differ in their first 36 bytes are a collision of the tag function: without one,
  no field of a sealed image can be changed.
\<close>

theorem epoch_decode_authentic:
  assumes "length w1 = 128" "length w2 = 128"
    and d1: "alrios_epoch_state_decode hmac (Some w1) key (Some any1) = (ALRIOS_EPOCH_OK, Some s1)"
    and d2: "alrios_epoch_state_decode hmac (Some w2) key (Some any2) = (ALRIOS_EPOCH_OK, Some s2)"
  shows "tag_of hmac key (body_of s1) = Some (integrity_tag s1) \<and> drop 64 w1 = integrity_tag s1 \<and>
    take 36 (body_of s1) = take 36 w1 \<and>
    (drop 64 w1 = drop 64 w2 \<and> take 36 w1 \<noteq> take 36 w2 \<longrightarrow>
      body_of s1 \<noteq> body_of s2 \<and> tag_of hmac key (body_of s1) = tag_of hmac key (body_of s2))"
proof -
  have p: "s1 = parsed w1" "take 8 w1 = g_epoch_magic" "sealed hmac key s1"
      "s2 = parsed w2" "take 8 w2 = g_epoch_magic" "sealed hmac key s2"
    using decode_result [OF assms(1) d1] decode_result [OF assms(2) d2]
    by (auto simp: decoded_def split: if_splits)
  have "integrity_tag s1 = drop 64 w1" "integrity_tag s2 = drop 64 w2"
    using p assms(1,2) by (simp_all add: parsed_def bytes_at_def)
  moreover have "take 36 (body_of s1) = take 36 w1" "take 36 (body_of s2) = take 36 w2"
    using p take_36_body assms(1,2) by auto
  ultimately show ?thesis using p(3,6) by (auto simp: sealed_def)
qed

theorem epoch_decode_authentic_witness:
  "drop 64 (wire_of demo_state) = integrity_tag demo_state \<and>
   take 36 (body_of demo_state) = take 36 (wire_of demo_state)"
proof -
  have s: "sealed demo_mac (Some (zeros 32)) demo_state"
    by (simp add: sealed_def demo_state_def tag_of_def demo_mac_def)
  have len: "length (wire_of demo_state) = 128" by (rule length_wire_of [OF s])
  have "alrios_epoch_state_decode demo_mac (Some (wire_of demo_state)) (Some (zeros 32)) (Some zero_state) =
      (ALRIOS_EPOCH_OK, Some demo_state)"
    using epoch_record.dec_enc [OF s] by (auto simp: decode_eq len decoded_def split: if_splits)
  from epoch_decode_authentic [OF len len this this] show ?thesis by blast
qed

text \<open>
  The reserved bytes are not authenticated. Bytes 36 to 63 of an image, which the
  encoder writes as zeros, may be replaced by anything: decoding gives the same answer.
\<close>

theorem epoch_reserved_bytes_ignored:
  assumes "length wire = 128" and "length junk = 28"
  shows "alrios_epoch_state_decode hmac (Some (take 36 wire @ junk @ drop 64 wire)) key (Some any) =
    alrios_epoch_state_decode hmac (Some wire) key (Some any)"
proof -
  let ?w = "take 36 wire @ junk @ drop 64 wire"
  have len: "length ?w = 128" using assms by simp
  have u16: "load_u16_be (drop k ?w) = load_u16_be (drop k wire)" if "k + 2 \<le> 36" for k
    using assms that by (subst be16.dec_inject) (simp_all add: take_drop add.commute min_def)
  have u64: "load_u64_be (drop k ?w) = load_u64_be (drop k wire)" if "k + 8 \<le> 36" for k
    using assms that by (subst be64.dec_inject) (simp_all add: take_drop add.commute min_def)
  have "parsed ?w = parsed wire"
    using assms by (simp only: parsed_def u16 u64 bytes_at_def) simp
  moreover have "take 8 ?w = take 8 wire" using assms by simp
  ultimately show ?thesis by (simp only: decode_eq [OF len] decode_eq [OF assms(1)])
qed

theorem epoch_reserved_bytes_ignored_witness:
  "alrios_epoch_state_decode demo_mac (Some (take 36 (zeros 128) @ replicate 28 7 @ drop 64 (zeros 128)))
     None (Some zero_state) =
   alrios_epoch_state_decode demo_mac (Some (zeros 128)) None (Some zero_state)"
  by (rule epoch_reserved_bytes_ignored) simp_all

section \<open>The epoch as a state machine\<close>

text \<open>Every call of advance, whatever it returns, on the record in memory.\<close>

inductive epoch_step :: "mac \<Rightarrow> epoch_state \<Rightarrow> epoch_state \<Rightarrow> bool" for hmac where
  advance: "alrios_epoch_state_advance hmac clk (Some st) e key = (status, Some st') \<Longrightarrow> epoch_step hmac st st'"

inductive epoch_run :: "mac \<Rightarrow> epoch_state \<Rightarrow> epoch_state \<Rightarrow> bool" for hmac where
  start: "epoch_run hmac st st"
| more: "epoch_run hmac st s1 \<Longrightarrow> epoch_step hmac s1 s2 \<Longrightarrow> epoch_run hmac st s2"

inductive_cases epoch_stepE: "epoch_step hmac st st'"

lemma advance_any:
  assumes "alrios_epoch_state_advance hmac clk (Some st) e key = (status, Some s)"
  shows "epoch st \<le> epoch s \<and> updated_at_ns st \<le> updated_at_ns s \<and>
    (status = ALRIOS_EPOCH_ERR_ROLLBACK \<or> status = ALRIOS_EPOCH_ERR_TIME_BACKWARD \<longrightarrow> s = st)"
proof -
  obtain c rt mt where clk: "get_current_clocks clk = (c, rt, mt)" by (metis prod_cases3)
  have "updated_at_ns st \<le> rt" if "\<not> (0 < updated_at_ns st \<and> rt < updated_at_ns st)"
    using that by (metis not_le word_gt_0 word_zero_le)
  then show ?thesis
    using assms clk
    by (auto simp: alrios_epoch_state_advance_def Let_def build_body_eq tag_body_of not_less
        split: if_splits option.splits)
qed

lemma epoch_run_mono: "epoch_run hmac st s \<Longrightarrow> epoch st \<le> epoch s \<and> updated_at_ns st \<le> updated_at_ns s"
  by (induction rule: epoch_run.induct) (auto elim!: epoch_stepE dest!: advance_any)

text \<open>
  C10: Revocation is permanent. Along any sequence of advances, with any outcomes, epoch
  and time stamp never decrease; hence an algorithm that the gate has refused as
  outdated stays refused, and a policy that was outdated or had expired is never
  admitted again.
\<close>

theorem revocation_is_permanent:
  assumes "epoch_run hmac st s"
  shows "epoch st \<le> epoch s \<and> updated_at_ns st \<le> updated_at_ns s \<and>
    (alrios_security_epoch_gate_algorithm (Some st) algo \<noteq> ALRIOS_EPOCH_OK \<longrightarrow>
       alrios_security_epoch_gate_algorithm (Some s) algo \<noteq> ALRIOS_EPOCH_OK) \<and>
    (alrios_security_epoch_gate_policy (Some st) (Some policy)
         \<in> {ALRIOS_EPOCH_ERR_POLICY_OUTDATED, ALRIOS_EPOCH_ERR_EXPIRED} \<longrightarrow>
       alrios_security_epoch_gate_policy (Some s) (Some policy) \<noteq> ALRIOS_EPOCH_OK)"
  using epoch_run_mono [OF assms]
  by (auto simp: alrios_security_epoch_gate_algorithm_def alrios_security_epoch_gate_policy_def
      split: if_splits)

theorem revocation_is_permanent_witness:
  "\<exists>s. epoch_run demo_mac demo_state s \<and> epoch s = 6 \<and>
     alrios_security_epoch_gate_algorithm (Some s) 1 \<noteq> ALRIOS_EPOCH_OK"
proof -
  obtain s where s: "alrios_epoch_state_advance demo_mac demo_clocks (Some demo_state) 6 (Some (zeros 32)) =
      (ALRIOS_EPOCH_OK, Some s)" and e: "epoch s = 6"
    by (auto simp: alrios_epoch_state_advance_def Let_def verify_eq build_body_eq tag_body_of tag_of_def
        demo_mac_def demo_state_def demo_clocks_def get_current_clocks_def timespec_ns_def)
  have r: "epoch_run demo_mac demo_state s" by (rule epoch_run.more [OF epoch_run.start epoch_step.advance [OF s]])
  have "alrios_security_epoch_gate_algorithm (Some demo_state) 1 \<noteq> ALRIOS_EPOCH_OK"
    by (simp add: alrios_security_epoch_gate_algorithm_def demo_state_def)
  then show ?thesis using r e revocation_is_permanent [OF r, of 1] by blast
qed

section \<open>The time monitor\<close>

fun monitor_run :: "time_monitor \<Rightarrow> (u64 \<times> u64) list \<Rightarrow> epoch_status list \<times> time_monitor" where
  "monitor_run mon [] = ([], mon)"
| "monitor_run mon ((rt, mt) # samples) =
     (case alrios_time_monitor_update (Some mon) rt mt of
        (status, mon') \<Rightarrow> (case monitor_run (the mon') samples of (ss, m) \<Rightarrow> (status # ss, m)))"

definition accepted :: "epoch_status list \<Rightarrow> (u64 \<times> u64) list \<Rightarrow> (u64 \<times> u64) list" where
  "accepted ss samples = map snd (filter (\<lambda>(s, x). s = ALRIOS_EPOCH_OK) (zip ss samples))"

lemma accepted_simps [simp]:
  "accepted [] xs = []"
  "accepted (ALRIOS_EPOCH_OK # ss) (x # xs) = x # accepted ss xs"
  "s \<noteq> ALRIOS_EPOCH_OK \<Longrightarrow> accepted (s # ss) (x # xs) = accepted ss xs"
  by (simp_all add: accepted_def)

definition step_within :: "u64 \<Rightarrow> u64 \<Rightarrow> u64 \<Rightarrow> bool" where
  "step_within threshold before now \<longleftrightarrow> before \<le> now \<or> before - now \<le> threshold"

lemma monitor_update_cases:
  assumes "alrios_time_monitor_update (Some mon) rt mt = (status, mon')"
  obtains (Accepted) "status = ALRIOS_EPOCH_OK"
      "mon' = Some (mon\<lparr>last_realtime_ns := rt, last_monotonic_ns := mt\<rparr>)"
      "last_monotonic_ns mon \<le> mt"
      "step_within (backward_step_threshold_ns mon) (last_realtime_ns mon) rt"
    | (Violation) delta where "status = ALRIOS_EPOCH_ERR_TIME_BACKWARD"
      "mon' = Some (mon\<lparr>tamper_detected := True, violations_count := violations_count mon + 1,
         last_violation_delta_ns := delta\<rparr>)"
  using assms
  by (cases "last_realtime_ns mon = 0 \<and> last_monotonic_ns mon = 0")
    (auto simp: alrios_time_monitor_update_def Let_def step_within_def not_less split: if_splits)

lemma monitor_run_keeps:
  "monitor_run mon samples = (ss, m) \<Longrightarrow>
    length ss = length samples \<and> set ss \<subseteq> {ALRIOS_EPOCH_OK, ALRIOS_EPOCH_ERR_TIME_BACKWARD} \<and>
    violations_count m = violations_count mon + of_nat (count_list ss ALRIOS_EPOCH_ERR_TIME_BACKWARD) \<and>
    tamper_detected m = (tamper_detected mon \<or> ALRIOS_EPOCH_ERR_TIME_BACKWARD \<in> set ss) \<and>
    backward_step_threshold_ns m = backward_step_threshold_ns mon"
proof (induction mon samples arbitrary: ss m rule: monitor_run.induct)
  case (2 mon rt mt samples)
  obtain s mon' where u: "alrios_time_monitor_update (Some mon) rt mt = (s, mon')" by fastforce
  obtain ss' where run: "monitor_run (the mon') samples = (ss', m)" and ss: "ss = s # ss'"
    using 2(2) u by (auto split: prod.splits)
  note ih = 2(1) [OF u [symmetric] run]
  from u show ?case
    by (cases rule: monitor_update_cases) (use ih ss in auto)
qed simp

lemma monitor_run_accepted:
  "monitor_run mon samples = (ss, m) \<Longrightarrow>
    sorted (last_monotonic_ns mon # map snd (accepted ss samples)) \<and>
    successively (step_within (backward_step_threshold_ns mon))
      (last_realtime_ns mon # map fst (accepted ss samples)) \<and>
    (last_realtime_ns m, last_monotonic_ns m) =
      last ((last_realtime_ns mon, last_monotonic_ns mon) # accepted ss samples)"
proof (induction mon samples arbitrary: ss m rule: monitor_run.induct)
  case (2 mon rt mt samples)
  obtain s mon' where u: "alrios_time_monitor_update (Some mon) rt mt = (s, mon')" by fastforce
  obtain ss' where run: "monitor_run (the mon') samples = (ss', m)" and ss: "ss = s # ss'"
    using 2(2) u by (auto split: prod.splits)
  note ih = 2(1) [OF u [symmetric] run]
  from u show ?case
  proof (cases rule: monitor_update_cases)
    case Accepted
    then show ?thesis using ih ss by (auto intro: order_trans)
  next
    case Violation
    then show ?thesis using ih ss by auto
  qed
qed simp

text \<open>
  The time monitor over any sequence of samples from a fresh monitor. It raises the
  tamper flag exactly when some sample was rejected, counts the rejections (modulo
  $2^{64}$), and remembers the last accepted sample; among the accepted samples the
  monotonic clock never runs backwards and the real-time clock never steps back by
  more than the threshold from one to the next.
\<close>

theorem time_monitor_detects:
  assumes "alrios_time_monitor_init (Some any) threshold = (ALRIOS_EPOCH_OK, Some mon)"
    and "monitor_run mon samples = (ss, m)"
  shows "tamper_detected m = (ALRIOS_EPOCH_ERR_TIME_BACKWARD \<in> set ss) \<and>
    violations_count m = of_nat (count_list ss ALRIOS_EPOCH_ERR_TIME_BACKWARD) \<and>
    set ss \<subseteq> {ALRIOS_EPOCH_OK, ALRIOS_EPOCH_ERR_TIME_BACKWARD} \<and>
    sorted (map snd (accepted ss samples)) \<and>
    successively (step_within threshold) (map fst (accepted ss samples)) \<and>
    (last_realtime_ns m, last_monotonic_ns m) = last ((0, 0) # accepted ss samples)"
proof -
  have mon: "tamper_detected mon = False" "violations_count mon = 0"
      "backward_step_threshold_ns mon = threshold" "last_realtime_ns mon = 0" "last_monotonic_ns mon = 0"
    using assms(1) by (auto simp: alrios_time_monitor_init_def)
  show ?thesis
    using monitor_run_keeps [OF assms(2)] monitor_run_accepted [OF assms(2)] mon
    by (auto simp: successively_Cons)
qed

theorem time_monitor_detects_witness:
  "\<exists>mon. alrios_time_monitor_init (Some \<lparr>last_realtime_ns = 0, last_monotonic_ns = 0,
        backward_step_threshold_ns = 0, violations_count = 0, last_violation_delta_ns = 0,
        tamper_detected = False\<rparr>) 10 = (ALRIOS_EPOCH_OK, Some mon) \<and>
     (let r = monitor_run mon [(100, 1), (95, 2), (50, 3)]
      in fst r = [ALRIOS_EPOCH_OK, ALRIOS_EPOCH_OK, ALRIOS_EPOCH_ERR_TIME_BACKWARD] \<and> tamper_detected (snd r))"
proof -
  let ?any = "\<lparr>last_realtime_ns = 0, last_monotonic_ns = 0, backward_step_threshold_ns = 0,
    violations_count = 0, last_violation_delta_ns = 0, tamper_detected = False\<rparr> :: time_monitor"
  obtain mon where mon: "alrios_time_monitor_init (Some ?any) 10 = (ALRIOS_EPOCH_OK, Some mon)"
    by (simp add: alrios_time_monitor_init_def)
  let ?r = "monitor_run mon [(100, 1), (95, 2), (50, 3)]"
  have f: "fst ?r = [ALRIOS_EPOCH_OK, ALRIOS_EPOCH_OK, ALRIOS_EPOCH_ERR_TIME_BACKWARD]"
    using mon by (auto simp: alrios_time_monitor_init_def alrios_time_monitor_update_def)
  have "tamper_detected (snd ?r) = (ALRIOS_EPOCH_ERR_TIME_BACKWARD \<in> set (fst ?r))"
    by (rule conjunct1 [OF time_monitor_detects [OF mon surjective_pairing]])
  then have "tamper_detected (snd ?r)" by (simp only: f) simp
  then show ?thesis using mon f by (auto simp: Let_def simp del: monitor_run.simps)
qed

section \<open>Exact transfers\<close>

text \<open>
  Short transfers and interrupts cannot make an exact transfer fail: only an error, or the
  end of the file for a read, and an empty write, can.
\<close>

lemma read_exact_succeeds:
  "Failed \<notin> set (script f) \<Longrightarrow> pos f + (len - length acc) \<le> length (content f) \<Longrightarrow>
    fst (read_exact f len acc) = ALRIOS_EPOCH_OK"
proof (induction f len acc rule: read_exact.induct)
  case (1 f len acc)
  show ?case
  proof (cases "length acc < len")
    case True
    obtain n got h where h: "sys_read (len - length acc) f = (n, got, h)" by (metis prod_cases3)
    then have sub: "set (script h) \<subseteq> set (script f)" and err: "n < 0 \<Longrightarrow> errno h = EINTR"
      using 1(3) by (auto simp: sys_read_def sys_pread_def next_outcome_def Let_def
          split: list.splits outcome.splits prod.splits)
    from h show ?thesis
    proof (cases rule: sys_read_cases)
      case Data
      then have n: "0 < n" using True 1(4) by auto
      have "Failed \<notin> set (script h)" using sub 1(3) by blast
      moreover have "pos h + (len - length (acc @ got)) \<le> length (content h)"
        using Data(3-5) 1(4) True by (simp add: same_file_def)
      ultimately have "fst (read_exact h len (acc @ got)) = ALRIOS_EPOCH_OK"
        by (rule 1(1) [OF True h [symmetric] refl n])
      then show ?thesis using True h n by (simp add: read_exact.simps [of f])
    next
      case Error
      then have "fst (read_exact h len acc) = ALRIOS_EPOCH_OK"
        using 1(2) [OF True h [symmetric] refl] sub err 1(3,4) by (auto simp: same_file_def)
      then show ?thesis using True h Error err by (simp add: read_exact.simps [of f])
    qed
  qed (simp add: read_exact.simps [of f])
qed

lemma write_exact_succeeds:
  "Failed \<notin> set (script f) \<Longrightarrow> Progress 0 \<notin> set (script f) \<Longrightarrow>
    fst (write_exact f buf sent) = ALRIOS_EPOCH_OK"
proof (induction f buf sent rule: write_exact.induct)
  case (1 f buf sent)
  show ?case
  proof (cases "sent < length buf")
    case True
    obtain n h where h: "sys_write (drop sent buf) f = (n, h)" by fastforce
    then have sub: "set (script h) \<subseteq> set (script f)" and err: "\<not> 0 < n \<Longrightarrow> errno h = EINTR"
      using 1(3,4) True by (auto simp: sys_write_def sys_pwrite_def next_outcome_def Let_def
          split: list.splits outcome.splits prod.splits)
    show ?thesis
    proof (cases "0 < n")
      case n: True
      then have "fst (write_exact h buf (sent + nat n)) = ALRIOS_EPOCH_OK"
        using 1(1) [OF True h [symmetric]] sub 1(3,4) by auto
      then show ?thesis using True h n by (simp add: write_exact.simps [of f])
    next
      case False
      then have "fst (write_exact h buf sent) = ALRIOS_EPOCH_OK"
        using 1(2) [OF True h [symmetric]] sub err 1(3,4) by auto
      then show ?thesis using True h False err by (simp add: write_exact.simps [of f])
    qed
  qed (simp add: write_exact.simps [of f])
qed

text \<open>
  Exact transfers. With any mix of short transfers and interrupts, but no error,
  \<open>read_exact\<close> of bytes that are there returns them all, and \<open>write_exact\<close> (when no
  write answers 0) puts the whole buffer at the descriptor's offset.
\<close>

theorem exact_transfers:
  assumes "Failed \<notin> set (script f)" and "Progress 0 \<notin> set (script f)"
    and "pos f + len \<le> length (content f)"
  shows "fst (read_exact f len []) = ALRIOS_EPOCH_OK \<and>
    fst (snd (read_exact f len [])) = take len (drop (pos f) (content f)) \<and>
    fst (write_exact f buf 0) = ALRIOS_EPOCH_OK \<and>
    content (snd (write_exact f buf 0)) = file_put (content f) (pos f) buf"
proof -
  obtain s b g where r: "read_exact f len [] = (s, b, g)" by (metis prod_cases3)
  obtain s' g' where w: "write_exact f buf 0 = (s', g')" by fastforce
  show ?thesis
    using read_exact_succeeds [OF assms(1), of len "[]"] write_exact_succeeds [OF assms(1,2), of buf 0]
      read_exact_result [OF r] write_exact_result [OF w] assms(3) r w
    by auto
qed

definition demo_fd :: posix_fd where
  "demo_fd = \<lparr>content = [1, 2, 3, 4], pos = 1, access = O_RDWR, regular = True, held = None,
     script = [Progress 1, Interrupted, Progress 9], errno = EIO\<rparr>"

theorem exact_transfers_witness:
  "fst (snd (read_exact demo_fd 3 [])) = [2, 3, 4] \<and>
   content (snd (write_exact demo_fd [7, 8, 9, 10] 0)) = [1, 7, 8, 9, 10]"
  using exact_transfers [of demo_fd 3 "[7, 8, 9, 10]"] by (simp add: demo_fd_def file_put_def)

end
