(* ===== verification/AuditChain.thy ===== *)
theory AuditChain
  imports ByteOrder PosixFile
begin

text \<open>
  The audit log of \<open>src/libraries/audit/hash_chain.c\<close>: the block format, the exact
  positioned transfers, the scan that validates the chain and recovers a partial tail,
  and the verify, recover and append operations on a descriptor (POSIX branch).

  SHA-256 is computed by OpenSSL and is the parameter \<open>sha\<close>, a function from the message
  to the digest, \<^const>\<open>None\<close> when the provider fails. Pointers appear where the code
  compares them: a buffer argument is the pair of its address and its bytes, a null
  pointer is \<^const>\<open>None\<close>, and \<open>malloc\<close> is a parameter that answers an address (0 for
  failure) for the n-th byte position and the size requested.
\<close>

section \<open>Status codes, constants, records\<close>

datatype audit_status =
    ALRIOS_AUDIT_OK
  | ALRIOS_AUDIT_ERR_INVALID_ARGUMENT
  | ALRIOS_AUDIT_ERR_CAPACITY
  | ALRIOS_AUDIT_ERR_FORMAT
  | ALRIOS_AUDIT_ERR_VERSION
  | ALRIOS_AUDIT_ERR_LENGTH
  | ALRIOS_AUDIT_ERR_NONCANONICAL
  | ALRIOS_AUDIT_ERR_HASH
  | ALRIOS_AUDIT_ERR_CHAIN
  | ALRIOS_AUDIT_ERR_SEQUENCE
  | ALRIOS_AUDIT_ERR_TRUNCATED
  | ALRIOS_AUDIT_ERR_IO
  | ALRIOS_AUDIT_ERR_OVERFLOW
  | ALRIOS_AUDIT_ERR_BUSY
  | ALRIOS_AUDIT_ERR_OVERLAP

definition AUDIT_HEADER :: nat where
  [limits]: "AUDIT_HEADER = 104"

definition AUDIT_WIRE_MIN :: nat where
  [limits]: "AUDIT_WIRE_MIN = 136"

definition AUDIT_PAYLOAD_MAX :: nat where
  [limits]: "AUDIT_PAYLOAD_MAX = 1048576"

definition AUDIT_WIRE_MAX :: nat where
  [limits]: "AUDIT_WIRE_MAX = 1048712"

text \<open>\<open>sizeof(alrios_audit_block_metadata_t)\<close> on the 64 bit targets.\<close>

definition METADATA_SIZE :: nat where
  [limits]: "METADATA_SIZE = 128"

record block_metadata =
  version :: u16
  sequence :: u64
  timestamp_ns :: u64
  payload_len :: u32
  previous_hash :: bytes
  payload_hash :: bytes
  block_hash :: bytes

record chain_result =
  block_count :: u64
  valid_bytes :: nat
  last_sequence :: u64
  last_hash :: bytes
  tail_recovered :: bool

type_synonym digest = "bytes \<Rightarrow> bytes option"
type_synonym cbuf = "addr \<times> bytes"

definition zero_metadata :: block_metadata where
  "zero_metadata = \<lparr>version = 0, sequence = 0, timestamp_ns = 0, payload_len = 0,
     previous_hash = zeros 32, payload_hash = zeros 32, block_hash = zeros 32\<rparr>"

definition zero_chain_result :: chain_result where
  "zero_chain_result = \<lparr>block_count = 0, valid_bytes = 0, last_sequence = 0, last_hash = zeros 32,
     tail_recovered = False\<rparr>"

definition audit_magic :: bytes where
  "audit_magic = [0x41, 0x4c, 0x52, 0x49, 0x41, 0x55, 0x44, 0x54]"

definition audit_hash_domain :: bytes where
  "audit_hash_domain =
     [0x41, 0x4c, 0x52, 0x49, 0x4f, 0x53, 0x2d, 0x41, 0x55, 0x44, 0x49, 0x54, 0x2d, 0x42,
      0x4c, 0x4f, 0x43, 0x4b, 0x2d, 0x56, 0x31]"

section \<open>Helpers\<close>

type_synonym part = "bytes option \<times> nat"

fun part_bytes :: "part \<Rightarrow> bytes option" where
  "part_bytes (p, n) = (if n = 0 then Some [] else map_option (take n) p)"

definition sha256_parts :: "digest \<Rightarrow> part \<Rightarrow> part \<Rightarrow> part \<Rightarrow> audit_status \<times> bytes" where
  "sha256_parts sha first second third =
     (case (part_bytes first, part_bytes second, part_bytes third) of
        (Some a, Some b, Some c) \<Rightarrow>
          (case sha (a @ b @ c) of
             Some d \<Rightarrow> if length d = 32 then (ALRIOS_AUDIT_OK, d) else (ALRIOS_AUDIT_ERR_HASH, zeros 32)
           | None \<Rightarrow> (ALRIOS_AUDIT_ERR_HASH, zeros 32))
      | _ \<Rightarrow> (ALRIOS_AUDIT_ERR_HASH, zeros 32))"

definition decode_header :: "bytes option \<Rightarrow> nat \<Rightarrow> audit_status \<times> nat \<times> nat" where
  "decode_header wirep available =
     (case wirep of
        None \<Rightarrow> (ALRIOS_AUDIT_ERR_INVALID_ARGUMENT, 0, 0)
      | Some wire \<Rightarrow>
          if available < AUDIT_HEADER then (ALRIOS_AUDIT_ERR_TRUNCATED, 0, 0)
          else if \<not> memeq wire audit_magic 8 then (ALRIOS_AUDIT_ERR_FORMAT, 0, 0)
          else if load_u16_be (drop 8 wire) \<noteq> 1 then (ALRIOS_AUDIT_ERR_VERSION, 0, 0)
          else if unat (load_u16_be (drop 10 wire)) \<noteq> AUDIT_HEADER \<or> load_u32_be (drop 20 wire) \<noteq> 0
          then (ALRIOS_AUDIT_ERR_NONCANONICAL, 0, 0)
          else
            let total_len = unat (load_u32_be (drop 12 wire));
                payload_length = unat (load_u32_be (drop 16 wire));
                expected_total = AUDIT_WIRE_MIN + payload_length
            in if AUDIT_PAYLOAD_MAX < payload_length then (ALRIOS_AUDIT_ERR_LENGTH, 0, 0)
               else if total_len \<noteq> expected_total \<or> total_len < AUDIT_WIRE_MIN \<or> AUDIT_WIRE_MAX < total_len
               then (ALRIOS_AUDIT_ERR_LENGTH, 0, 0)
               else (ALRIOS_AUDIT_OK, expected_total, payload_length))"

section \<open>Blocks\<close>

text \<open>
  The answer is the status, the output buffer, the value of \<open>*out_written\<close> and the
  value of \<open>*out_metadata\<close>. \<open>out_written\<close> and \<open>out_metadata\<close> tell whether the pointer is
  given; the latter by its address.
\<close>

definition alrios_audit_block_encode ::
  "digest \<Rightarrow> cbuf option \<Rightarrow> u64 \<Rightarrow> u64 \<Rightarrow> cbuf option \<Rightarrow> nat \<Rightarrow> cbuf option \<Rightarrow> nat \<Rightarrow> bool \<Rightarrow> addr option
    \<Rightarrow> audit_status \<times> bytes option \<times> nat \<times> block_metadata" where
  "alrios_audit_block_encode sha prevp seq ts payloadp len outp out_capacity out_written out_metadata =
     (let out_bytes = map_option snd outp;
          fail = (\<lambda>st w. (st, w, 0, zero_metadata))
      in case (prevp, outp) of
        (Some (prev_at, prev), Some (out_at, out)) \<Rightarrow>
          if payloadp = None \<and> len \<noteq> 0 \<or> \<not> out_written \<or> seq = 0
          then fail ALRIOS_AUDIT_ERR_INVALID_ARGUMENT out_bytes
          else if AUDIT_PAYLOAD_MAX < len then fail ALRIOS_AUDIT_ERR_LENGTH out_bytes
          else
            let wire_len = AUDIT_WIRE_MIN + len
            in if out_capacity < wire_len then fail ALRIOS_AUDIT_ERR_CAPACITY out_bytes
            else if ranges_overlap prev_at 32 out_at wire_len \<or>
                    ranges_overlap (case payloadp of None \<Rightarrow> 0 | Some (a, _) \<Rightarrow> a) len out_at wire_len \<or>
                    ranges_overlap (case out_metadata of None \<Rightarrow> 0 | Some a \<Rightarrow> a)
                      (if out_metadata = None then 0 else METADATA_SIZE) out_at wire_len
            then fail ALRIOS_AUDIT_ERR_OVERLAP out_bytes
            else case sha256_parts sha (map_option snd payloadp, len) (None, 0) (None, 0) of
              (status, phash) \<Rightarrow>
                if status \<noteq> ALRIOS_AUDIT_OK then fail status out_bytes
                else
                  let w0 = memwrite out 0 (zeros AUDIT_HEADER);
                      w1 = memwrite w0 0 audit_magic;
                      w2 = memwrite w1 8 (store_u16_be 1);
                      w3 = memwrite w2 10 (store_u16_be (of_nat AUDIT_HEADER));
                      w4 = memwrite w3 12 (store_u32_be (of_nat wire_len));
                      w5 = memwrite w4 16 (store_u32_be (of_nat len));
                      w6 = memwrite w5 24 (store_u64_be seq);
                      w7 = memwrite w6 32 (store_u64_be ts);
                      w8 = memwrite w7 40 (take 32 prev);
                      w9 = memwrite w8 72 phash;
                      w10 = (case payloadp of
                               Some (_, p) \<Rightarrow> if len \<noteq> 0 then memwrite w9 AUDIT_HEADER (take len p) else w9
                             | None \<Rightarrow> w9)
                  in case sha256_parts sha (Some audit_hash_domain, length audit_hash_domain)
                            (Some w10, AUDIT_HEADER) (Some (drop AUDIT_HEADER w10), len) of
                    (status, bhash) \<Rightarrow>
                      if status \<noteq> ALRIOS_AUDIT_OK then fail status (Some (memwrite w10 0 (zeros wire_len)))
                      else (ALRIOS_AUDIT_OK, Some (memwrite w10 (AUDIT_HEADER + len) bhash), wire_len,
                            if out_metadata = None then zero_metadata
                            else \<lparr>version = 1, sequence = seq, timestamp_ns = ts, payload_len = of_nat len,
                                  previous_hash = take 32 prev, payload_hash = phash, block_hash = bhash\<rparr>)
      | _ \<Rightarrow> fail ALRIOS_AUDIT_ERR_INVALID_ARGUMENT out_bytes)"

definition alrios_audit_block_verify ::
  "digest \<Rightarrow> cbuf option \<Rightarrow> nat \<Rightarrow> addr option \<Rightarrow> audit_status \<times> block_metadata" where
  "alrios_audit_block_verify sha wirep wire_len out_metadata =
     (case wirep of
        None \<Rightarrow> (ALRIOS_AUDIT_ERR_INVALID_ARGUMENT, zero_metadata)
      | Some (wire_at, wire) \<Rightarrow>
          if (case out_metadata of None \<Rightarrow> False
              | Some a \<Rightarrow> ranges_overlap wire_at wire_len a METADATA_SIZE)
          then (ALRIOS_AUDIT_ERR_OVERLAP, zero_metadata)
          else case decode_header (Some wire) wire_len of
            (status, expected_total, len) \<Rightarrow>
              if status \<noteq> ALRIOS_AUDIT_OK then (status, zero_metadata)
              else if wire_len \<noteq> expected_total
              then (if wire_len < expected_total then ALRIOS_AUDIT_ERR_TRUNCATED else ALRIOS_AUDIT_ERR_LENGTH,
                    zero_metadata)
              else if load_u64_be (drop 24 wire) = 0 then (ALRIOS_AUDIT_ERR_SEQUENCE, zero_metadata)
              else
                let payload = drop AUDIT_HEADER wire;
                    stored_block_hash = drop len payload
                in case sha256_parts sha (Some payload, len) (None, 0) (None, 0) of
                  (status, phash) \<Rightarrow>
                    if status \<noteq> ALRIOS_AUDIT_OK then (status, zero_metadata)
                    else if \<not> memeq phash (drop 72 wire) 32 then (ALRIOS_AUDIT_ERR_HASH, zero_metadata)
                    else case sha256_parts sha (Some audit_hash_domain, length audit_hash_domain)
                                (Some wire, AUDIT_HEADER) (Some payload, len) of
                      (status, bhash) \<Rightarrow>
                        if status \<noteq> ALRIOS_AUDIT_OK \<or> \<not> memeq bhash stored_block_hash 32
                        then (ALRIOS_AUDIT_ERR_HASH, zero_metadata)
                        else (ALRIOS_AUDIT_OK,
                          if out_metadata = None then zero_metadata
                          else \<lparr>version = 1, sequence = load_u64_be (drop 24 wire),
                                timestamp_ns = load_u64_be (drop 32 wire), payload_len = of_nat len,
                                previous_hash = bytes_at 40 32 wire, payload_hash = phash,
                                block_hash = bhash\<rparr>))"

section \<open>Descriptor helpers\<close>

function lock_fd :: "posix_fd \<Rightarrow> lock_type \<Rightarrow> audit_status \<times> posix_fd" where
  "lock_fd f lt =
     (case sys_lock (Some lt) f of
        (ok, g) \<Rightarrow>
          if ok then (ALRIOS_AUDIT_OK, g)
          else if errno g \<noteq> EINTR then (ALRIOS_AUDIT_ERR_BUSY, g)
          else lock_fd g lt)"
  by pat_completeness auto
termination
  by (relation "measure (\<lambda>(f, _). length (script f))")
    (auto dest!: sys_lock_keeps [OF sym])

definition unlock_fd :: "posix_fd \<Rightarrow> audit_status \<times> posix_fd" where
  "unlock_fd f =
     (case sys_lock None f of (ok, g) \<Rightarrow> (if ok then ALRIOS_AUDIT_OK else ALRIOS_AUDIT_ERR_IO, g))"

definition fd_mode_valid :: "posix_fd option \<Rightarrow> bool \<Rightarrow> bool \<times> posix_fd option" where
  "fd_mode_valid fd require_write =
     (case fd of
        None \<Rightarrow> (False, None)
      | Some f \<Rightarrow>
          (case sys_call f of
             (ok, g) \<Rightarrow>
               (ok \<and> (if require_write then access g = O_RDWR
                      else access g = O_RDONLY \<or> access g = O_RDWR), Some g)))"

function read_exact_at :: "posix_fd \<Rightarrow> nat \<Rightarrow> nat \<Rightarrow> bytes \<Rightarrow> audit_status \<times> bytes \<times> posix_fd" where
  "read_exact_at f len offset acc =
     (if length acc < len then
        (if UINT64_MAX - length acc < offset then (ALRIOS_AUDIT_ERR_OVERFLOW, acc, f)
         else
           let current_offset = offset + length acc;
               request = min (len - length acc) SSIZE_MAX
           in if INT64_MAX < current_offset then (ALRIOS_AUDIT_ERR_OVERFLOW, acc, f)
              else case sys_pread request current_offset f of
                (n, got, g) \<Rightarrow>
                  if 0 < n then read_exact_at g len offset (acc @ got)
                  else if n = 0 then (ALRIOS_AUDIT_ERR_TRUNCATED, acc, g)
                  else if errno g \<noteq> EINTR then (ALRIOS_AUDIT_ERR_IO, acc, g)
                  else read_exact_at g len offset acc)
      else (ALRIOS_AUDIT_OK, acc, f))"
  by pat_completeness auto
termination
proof (relation "measure (\<lambda>(f, len, offset, acc). length (script f) + (len - length acc))", goal_cases)
  case (2 f len offset acc current_offset request n y got g)
  then have "sys_pread request current_offset f = (n, got, g)" by simp
  then show ?case
    by (cases rule: sys_pread_cases) (use 2 in \<open>auto simp flip: length_greater_0_conv\<close>)
next
  case (3 f len offset acc current_offset request n y got g)
  then have "sys_pread request current_offset f = (n, got, g)" by simp
  then show ?case by (cases rule: sys_pread_cases) (use 3 in auto)
qed simp

function write_exact_at :: "posix_fd \<Rightarrow> bytes \<Rightarrow> nat \<Rightarrow> nat \<Rightarrow> audit_status \<times> posix_fd" where
  "write_exact_at f buf offset consumed =
     (if consumed < length buf then
        (if UINT64_MAX - consumed < offset then (ALRIOS_AUDIT_ERR_OVERFLOW, f)
         else
           let current_offset = offset + consumed;
               request = min (length buf - consumed) SSIZE_MAX
           in if INT64_MAX < current_offset then (ALRIOS_AUDIT_ERR_OVERFLOW, f)
              else case sys_pwrite (take request (drop consumed buf)) current_offset f of
                (n, g) \<Rightarrow>
                  if 0 < n then write_exact_at g buf offset (consumed + nat n)
                  else if n = 0 then (ALRIOS_AUDIT_ERR_IO, g)
                  else if errno g \<noteq> EINTR then (ALRIOS_AUDIT_ERR_IO, g)
                  else write_exact_at g buf offset consumed)
      else (ALRIOS_AUDIT_OK, f))"
  by pat_completeness auto
termination
proof (relation "measure (\<lambda>(f, buf, offset, consumed). length (script f) + (length buf - consumed))", goal_cases)
  case (2 f buf offset consumed current_offset request n g)
  then have "sys_pwrite (take request (drop consumed buf)) current_offset f = (n, g)" by simp
  then show ?case by (cases rule: sys_pwrite_cases) (use 2 in auto)
next
  case (3 f buf offset consumed current_offset request n g)
  then have "sys_pwrite (take request (drop consumed buf)) current_offset f = (n, g)" by simp
  then show ?case by (cases rule: sys_pwrite_cases) (use 3 in auto)
qed simp

function sync_fd :: "posix_fd \<Rightarrow> audit_status \<times> posix_fd" where
  "sync_fd f =
     (case sys_fsync f of
        (ok, g) \<Rightarrow>
          if ok then (ALRIOS_AUDIT_OK, g)
          else if errno g \<noteq> EINTR then (ALRIOS_AUDIT_ERR_IO, g)
          else sync_fd g)"
  by pat_completeness auto
termination
  by (relation "measure (\<lambda>f. length (script f))")
    (auto simp: sys_fsync_def dest!: sys_call_keeps [OF sym])

function truncate_loop :: "posix_fd \<Rightarrow> nat \<Rightarrow> audit_status \<times> posix_fd" where
  "truncate_loop f len =
     (case sys_ftruncate len f of
        (ok, g) \<Rightarrow>
          if ok then (ALRIOS_AUDIT_OK, g)
          else if errno g \<noteq> EINTR then (ALRIOS_AUDIT_ERR_IO, g)
          else truncate_loop g len)"
  by pat_completeness auto
termination
  by (relation "measure (\<lambda>(f, _). length (script f))")
    (auto dest!: sys_ftruncate_keeps [OF sym])

definition truncate_fd :: "posix_fd \<Rightarrow> nat \<Rightarrow> audit_status \<times> posix_fd" where
  "truncate_fd f len = (if INT64_MAX < len then (ALRIOS_AUDIT_ERR_OVERFLOW, f) else truncate_loop f len)"

declare lock_fd.simps [simp del] read_exact_at.simps [simp del] write_exact_at.simps [simp del]
  sync_fd.simps [simp del] truncate_loop.simps [simp del]

definition magic_prefix :: "bytes \<Rightarrow> nat \<Rightarrow> bool" where
  "magic_prefix bs len \<longleftrightarrow> len \<le> 8 \<and> memeq bs audit_magic len"

definition get_regular_file_size :: "posix_fd \<Rightarrow> audit_status \<times> nat \<times> posix_fd" where
  "get_regular_file_size f =
     (case sys_fstat f of
        (ok, g) \<Rightarrow>
          if \<not> ok \<or> \<not> regular g then (ALRIOS_AUDIT_ERR_IO, 0, g)
          else if INT64_MAX < length (content g) then (ALRIOS_AUDIT_ERR_OVERFLOW, 0, g)
          else (ALRIOS_AUDIT_OK, length (content g), g))"

section \<open>Scanning the chain\<close>

text \<open>
  The locals of \<open>scan_locked\<close> that change from one iteration to the next, and where the
  \<open>goto\<close>s of an iteration lead: to \<open>cleanup\<close> with a status, or to \<open>partial_tail\<close>.
\<close>

record scan_state =
  scan_offset :: nat
  expected_sequence :: u64
  scan_previous :: bytes
  scan_count :: u64
  scan_last :: u64

datatype scan_exit = Cleanup audit_status | PartialTail

text \<open>
  The addresses the run depends on: what \<open>malloc\<close> answers for a record at a file offset,
  and where the locals \<open>metadata\<close> and \<open>chain.last_hash\<close> live.
\<close>

record heap_env =
  malloc :: "nat \<Rightarrow> nat \<Rightarrow> addr"
  metadata_at :: addr
  last_hash_at :: addr

definition scan_block ::
  "digest \<Rightarrow> heap_env \<Rightarrow> nat \<Rightarrow> posix_fd \<Rightarrow> scan_state \<Rightarrow> scan_exit option \<times> scan_state \<times> posix_fd" where
  "scan_block sha env file_size f s =
     (let offset = scan_offset s;
          remaining = file_size - offset
      in if remaining < 8 then
           (case read_exact_at f remaining offset [] of
              (status, header, f1) \<Rightarrow>
                if status \<noteq> ALRIOS_AUDIT_OK then (Some (Cleanup status), s, f1)
                else if \<not> magic_prefix header remaining then (Some (Cleanup ALRIOS_AUDIT_ERR_FORMAT), s, f1)
                else (Some PartialTail, s, f1))
         else case read_exact_at f 8 offset [] of
           (status, header, f1) \<Rightarrow>
             if status \<noteq> ALRIOS_AUDIT_OK then (Some (Cleanup status), s, f1)
             else if \<not> memeq header audit_magic 8 then (Some (Cleanup ALRIOS_AUDIT_ERR_FORMAT), s, f1)
             else if remaining < AUDIT_HEADER then (Some PartialTail, s, f1)
             else case read_exact_at f1 AUDIT_HEADER offset [] of
               (status, header, f2) \<Rightarrow>
                 if status \<noteq> ALRIOS_AUDIT_OK then (Some (Cleanup status), s, f2)
                 else case decode_header (Some header) AUDIT_HEADER of
                   (status, total_len, _) \<Rightarrow>
                     if status \<noteq> ALRIOS_AUDIT_OK then (Some (Cleanup status), s, f2)
                     else if remaining < total_len then (Some PartialTail, s, f2)
                     else
                       let record_at = malloc env offset total_len
                       in if record_at = 0 then (Some (Cleanup ALRIOS_AUDIT_ERR_CAPACITY), s, f2)
                       else case read_exact_at f2 total_len offset [] of
                         (status, record, f3) \<Rightarrow>
                           if status \<noteq> ALRIOS_AUDIT_OK then (Some (Cleanup status), s, f3)
                           else case alrios_audit_block_verify sha (Some (record_at, record)) total_len
                                       (Some (metadata_at env)) of
                             (status, metadata) \<Rightarrow>
                               if status \<noteq> ALRIOS_AUDIT_OK then (Some (Cleanup status), s, f3)
                               else if sequence metadata \<noteq> expected_sequence s
                               then (Some (Cleanup ALRIOS_AUDIT_ERR_SEQUENCE), s, f3)
                               else if \<not> memeq (previous_hash metadata) (scan_previous s) 32
                               then (Some (Cleanup ALRIOS_AUDIT_ERR_CHAIN), s, f3)
                               else
                                 let s1 = s\<lparr>scan_previous := block_hash metadata\<rparr>
                                 in if UINT64_MAX - total_len < offset
                                 then (Some (Cleanup ALRIOS_AUDIT_ERR_OVERFLOW), s1, f3)
                                 else
                                   let s2 = s1\<lparr>scan_offset := offset + total_len,
                                              scan_count := scan_count s1 + 1,
                                              scan_last := sequence metadata\<rparr>
                                   in if expected_sequence s2 = -1 \<and> scan_offset s2 < file_size
                                   then (Some (Cleanup ALRIOS_AUDIT_ERR_SEQUENCE), s2, f3)
                                   else (None, s2\<lparr>expected_sequence := expected_sequence s2 + 1\<rparr>, f3))"

lemma decode_header_total:
  "decode_header wirep n = (ALRIOS_AUDIT_OK, total_len, len) \<Longrightarrow> total_len = 136 + len"
  by (auto simp: decode_header_def Let_def limits split: option.splits if_splits)

lemma scan_block_progress:
  "scan_block sha env file_size f s = (None, s', f') \<Longrightarrow> scan_offset s < scan_offset s'"
  by (auto simp: scan_block_def Let_def split: if_splits prod.splits dest!: decode_header_total)

function scan_loop ::
  "digest \<Rightarrow> heap_env \<Rightarrow> nat \<Rightarrow> posix_fd \<Rightarrow> scan_state \<Rightarrow> scan_exit option \<times> scan_state \<times> posix_fd" where
  "scan_loop sha env file_size f s =
     (if scan_offset s < file_size then
        (case scan_block sha env file_size f s of
           (None, s', f') \<Rightarrow> scan_loop sha env file_size f' s'
         | (Some exit, s', f') \<Rightarrow> (Some exit, s', f'))
      else (None, s, f))"
  by pat_completeness auto
termination
  by (relation "measure (\<lambda>(_, _, file_size, _, s). file_size - scan_offset s)")
    (auto dest!: scan_block_progress [OF sym])

declare scan_loop.simps [simp del]

definition scan_start :: scan_state where
  "scan_start = \<lparr>scan_offset = 0, expected_sequence = 1, scan_previous = zeros 32,
     scan_count = 0, scan_last = 0\<rparr>"

definition scan_result :: "scan_state \<Rightarrow> bool \<Rightarrow> chain_result" where
  "scan_result s recovered =
     \<lparr>block_count = scan_count s, valid_bytes = scan_offset s, last_sequence = scan_last s,
      last_hash = scan_previous s, tail_recovered = recovered\<rparr>"

text \<open>\<open>None\<close> in the middle: \<open>*out_result\<close> is not written.\<close>

definition scan_locked ::
  "digest \<Rightarrow> heap_env \<Rightarrow> posix_fd \<Rightarrow> bool \<Rightarrow> audit_status \<times> chain_result option \<times> posix_fd" where
  "scan_locked sha env f recover_tail =
     (case get_regular_file_size f of
        (status, file_size, f1) \<Rightarrow>
          if status \<noteq> ALRIOS_AUDIT_OK then (status, None, f1)
          else case scan_loop sha env file_size f1 scan_start of
            (exit, s, f2) \<Rightarrow>
              (case exit of
                 None \<Rightarrow> (ALRIOS_AUDIT_OK, Some (scan_result s False), f2)
               | Some (Cleanup status) \<Rightarrow> (status, None, f2)
               | Some PartialTail \<Rightarrow>
                   if \<not> recover_tail then (ALRIOS_AUDIT_ERR_TRUNCATED, None, f2)
                   else case truncate_fd f2 (scan_offset s) of
                     (status, f3) \<Rightarrow>
                       if status \<noteq> ALRIOS_AUDIT_OK then (status, None, f3)
                       else case sync_fd f3 of
                         (status, f4) \<Rightarrow>
                           if status \<noteq> ALRIOS_AUDIT_OK then (status, None, f4)
                           else (ALRIOS_AUDIT_OK, Some (scan_result s True), f4)))"

section \<open>The operations on a descriptor\<close>

text \<open>\<open>out_result\<close>: whether the result pointer is given; its value is in the answer.\<close>

definition chain_operation ::
  "digest \<Rightarrow> heap_env \<Rightarrow> posix_fd option \<Rightarrow> bool \<Rightarrow> bool \<Rightarrow> audit_status \<times> chain_result \<times> posix_fd option" where
  "chain_operation sha env fd recover_tail out_result =
     (if \<not> out_result then (ALRIOS_AUDIT_ERR_INVALID_ARGUMENT, zero_chain_result, fd)
      else case fd_mode_valid fd recover_tail of
        (valid, fd1) \<Rightarrow>
          if \<not> valid then (ALRIOS_AUDIT_ERR_INVALID_ARGUMENT, zero_chain_result, fd1)
          else case lock_fd (the fd1) (if recover_tail then F_WRLCK else F_RDLCK) of
            (status, f2) \<Rightarrow>
              if status \<noteq> ALRIOS_AUDIT_OK then (status, zero_chain_result, Some f2)
              else case scan_locked sha env f2 recover_tail of
                (status, result, f3) \<Rightarrow>
                  (case unlock_fd f3 of
                     (unlock_status, f4) \<Rightarrow>
                       let final = (if status = ALRIOS_AUDIT_OK \<and> unlock_status \<noteq> ALRIOS_AUDIT_OK
                                    then unlock_status else status)
                       in (final, if final = ALRIOS_AUDIT_OK then the result else zero_chain_result, Some f4)))"

definition alrios_audit_chain_verify_fd ::
  "digest \<Rightarrow> heap_env \<Rightarrow> posix_fd option \<Rightarrow> bool \<Rightarrow> audit_status \<times> chain_result \<times> posix_fd option" where
  "alrios_audit_chain_verify_fd sha env fd out_result = chain_operation sha env fd False out_result"

definition alrios_audit_chain_recover_fd ::
  "digest \<Rightarrow> heap_env \<Rightarrow> posix_fd option \<Rightarrow> bool \<Rightarrow> audit_status \<times> chain_result \<times> posix_fd option" where
  "alrios_audit_chain_recover_fd sha env fd out_result = chain_operation sha env fd True out_result"

text \<open>The part of append between taking and releasing the lock.\<close>

definition append_locked ::
  "digest \<Rightarrow> heap_env \<Rightarrow> posix_fd \<Rightarrow> u64 \<Rightarrow> cbuf option \<Rightarrow> nat \<Rightarrow> audit_status \<times> block_metadata \<times> posix_fd" where
  "append_locked sha env f ts payloadp len =
     (case scan_locked sha env f True of
        (status, chainp, f1) \<Rightarrow>
          if status \<noteq> ALRIOS_AUDIT_OK then (status, zero_metadata, f1)
          else
            let chain = the chainp
            in if last_sequence chain = -1 \<or> INT64_MAX - AUDIT_WIRE_MIN < valid_bytes chain \<or>
                  INT64_MAX - valid_bytes chain - AUDIT_WIRE_MIN < len
            then (ALRIOS_AUDIT_ERR_OVERFLOW, zero_metadata, f1)
            else
              let seq = (if block_count chain = 0 then 1 else last_sequence chain + 1);
                  wire_at = malloc env (valid_bytes chain) (AUDIT_WIRE_MIN + len)
              in if wire_at = 0 then (ALRIOS_AUDIT_ERR_CAPACITY, zero_metadata, f1)
              else case alrios_audit_block_encode sha (Some (last_hash_at env, last_hash chain)) seq ts
                          payloadp len (Some (wire_at, zeros (AUDIT_WIRE_MIN + len))) (AUDIT_WIRE_MIN + len)
                          True (Some (metadata_at env)) of
                (status, wire, wire_len, metadata) \<Rightarrow>
                  if status \<noteq> ALRIOS_AUDIT_OK then (status, zero_metadata, f1)
                  else
                    let (status, f3) =
                      (case write_exact_at f1 (take wire_len (the wire)) (valid_bytes chain) 0 of
                         (status, f2) \<Rightarrow> if status = ALRIOS_AUDIT_OK then sync_fd f2 else (status, f2))
                    in if status \<noteq> ALRIOS_AUDIT_OK
                    then
                      let (rollback_status, f5) =
                        (case truncate_fd f3 (valid_bytes chain) of
                           (rollback_status, f4) \<Rightarrow>
                             if rollback_status = ALRIOS_AUDIT_OK then sync_fd f4 else (rollback_status, f4))
                      in (if rollback_status \<noteq> ALRIOS_AUDIT_OK then rollback_status else status,
                          zero_metadata, f5)
                    else (ALRIOS_AUDIT_OK, metadata, f3))"

definition alrios_audit_chain_append_fd ::
  "digest \<Rightarrow> heap_env \<Rightarrow> posix_fd option \<Rightarrow> u64 \<Rightarrow> cbuf option \<Rightarrow> nat \<Rightarrow> bool \<Rightarrow>
    audit_status \<times> block_metadata \<times> posix_fd option" where
  "alrios_audit_chain_append_fd sha env fd ts payloadp len out_metadata =
     (if \<not> out_metadata \<or> payloadp = None \<and> len \<noteq> 0 \<or> AUDIT_PAYLOAD_MAX < len
      then (ALRIOS_AUDIT_ERR_INVALID_ARGUMENT, zero_metadata, fd)
      else case fd_mode_valid fd True of
        (valid, fd1) \<Rightarrow>
          if \<not> valid then (ALRIOS_AUDIT_ERR_INVALID_ARGUMENT, zero_metadata, fd1)
          else case lock_fd (the fd1) F_WRLCK of
            (status, f2) \<Rightarrow>
              if status \<noteq> ALRIOS_AUDIT_OK then (status, zero_metadata, Some f2)
              else case append_locked sha env f2 ts payloadp len of
                (status, metadata, f3) \<Rightarrow>
                  (case unlock_fd f3 of
                     (unlock_status, f4) \<Rightarrow>
                       if status = ALRIOS_AUDIT_OK \<and> unlock_status \<noteq> ALRIOS_AUDIT_OK
                       then (unlock_status, zero_metadata, Some f4)
                       else (status, metadata, Some f4)))"

end
