(* ===== verification/AuditChainLaws.thy ===== *)
theory AuditChainLaws
  imports AuditChain SealedRecord
begin

text \<open>
  The laws of the audit log: the canonical image of a block and the equivalence of
  encoding and verification with it, the transfers, and the meaning of a scan: it
  accepts exactly the images of chains, and stops at an incomplete record.
\<close>

section \<open>The image of a block\<close>

definition hash_of :: "digest \<Rightarrow> bytes \<Rightarrow> bytes" where
  "hash_of sha m = (case sha m of Some d \<Rightarrow> d | None \<Rightarrow> [])"

definition digest_ok :: "digest \<Rightarrow> bytes \<Rightarrow> bool" where
  "digest_ok sha m \<longleftrightarrow> length (hash_of sha m) = 32"

record audit_block =
  b_prev :: bytes
  b_seq :: u64
  b_ts :: u64
  b_payload :: bytes

definition header_of :: "digest \<Rightarrow> audit_block \<Rightarrow> bytes" where
  "header_of sha b = audit_magic @ store_u16_be 1 @ store_u16_be 104 @
     store_u32_be (of_nat (136 + length (b_payload b))) @ store_u32_be (of_nat (length (b_payload b))) @
     store_u32_be 0 @ store_u64_be (b_seq b) @ store_u64_be (b_ts b) @ b_prev b @ hash_of sha (b_payload b)"

definition sealed_text :: "digest \<Rightarrow> audit_block \<Rightarrow> bytes" where
  "sealed_text sha b = audit_hash_domain @ header_of sha b @ b_payload b"

definition block_hash_of :: "digest \<Rightarrow> audit_block \<Rightarrow> bytes" where
  "block_hash_of sha b = hash_of sha (sealed_text sha b)"

definition block_of :: "digest \<Rightarrow> audit_block \<Rightarrow> bytes" where
  "block_of sha b = header_of sha b @ b_payload b @ block_hash_of sha b"

definition valid_block :: "digest \<Rightarrow> audit_block \<Rightarrow> bool" where
  "valid_block sha b \<longleftrightarrow>
     length (b_prev b) = 32 \<and> b_seq b \<noteq> 0 \<and> length (b_payload b) \<le> AUDIT_PAYLOAD_MAX \<and>
     digest_ok sha (b_payload b) \<and> digest_ok sha (sealed_text sha b)"

definition metadata_of :: "digest \<Rightarrow> audit_block \<Rightarrow> block_metadata" where
  "metadata_of sha b =
     \<lparr>version = 1, sequence = b_seq b, timestamp_ns = b_ts b, payload_len = of_nat (length (b_payload b)),
      previous_hash = b_prev b, payload_hash = hash_of sha (b_payload b), block_hash = block_hash_of sha b\<rparr>"

lemma length_audit_magic [simp]: "length audit_magic = 8"
  by (simp add: audit_magic_def)

lemma valid_blockD:
  "valid_block sha b \<Longrightarrow> length (b_prev b) = 32"
  "valid_block sha b \<Longrightarrow> b_seq b \<noteq> 0"
  "valid_block sha b \<Longrightarrow> length (b_payload b) \<le> 1048576"
  "valid_block sha b \<Longrightarrow> length (hash_of sha (b_payload b)) = 32"
  "valid_block sha b \<Longrightarrow> length (block_hash_of sha b) = 32"
  by (simp_all add: valid_block_def digest_ok_def block_hash_of_def limits)

lemma length_header_of: "valid_block sha b \<Longrightarrow> length (header_of sha b) = 104"
  by (simp add: header_of_def valid_blockD)

lemma length_block_of: "valid_block sha b \<Longrightarrow> length (block_of sha b) = 136 + length (b_payload b)"
  by (simp add: block_of_def length_header_of valid_blockD)

lemma sha256_parts_eq:
  "part_bytes p = Some a \<Longrightarrow> part_bytes q = Some b \<Longrightarrow> part_bytes r = Some c \<Longrightarrow>
    sha256_parts sha p q r =
      (if digest_ok sha (a @ b @ c) then (ALRIOS_AUDIT_OK, hash_of sha (a @ b @ c))
       else (ALRIOS_AUDIT_ERR_HASH, zeros 32))"
  by (auto simp: sha256_parts_def digest_ok_def hash_of_def split: option.splits)

lemma unat_u32_small: "n < 2 ^ 32 \<Longrightarrow> unat (of_nat n :: u32) = n"
  by (simp add: unsigned_of_nat take_bit_nat_eq_self)

lemma word_eq_of_nat: "unat w = n \<Longrightarrow> w = of_nat n"
  by (drule sym) simp

lemma decode_header_block:
  assumes "valid_block sha b" and "104 \<le> n"
  shows "decode_header (Some (header_of sha b @ rest)) n =
    (ALRIOS_AUDIT_OK, 136 + length (b_payload b), length (b_payload b))"
proof -
  have "unat (of_nat (length (b_payload b)) :: u32) = length (b_payload b)"
    and "unat (of_nat (136 + length (b_payload b)) :: u32) = 136 + length (b_payload b)"
    using valid_blockD(3) [OF assms(1)] by (auto intro!: unat_u32_small simp del: of_nat_add)
  then show ?thesis
    using assms(2) valid_blockD(3) [OF assms(1)]
    by (simp add: decode_header_def header_of_def memeq_def limits Let_def del: of_nat_add)
qed

text \<open>The encoder writes exactly the image, and leaves what lies behind it.\<close>

lemma encode_image:
  assumes b: "length (b_prev b) = 32" "length (hash_of sha (b_payload b)) = 32" and "136 + length (b_payload b) \<le> length out"
  shows "memwrite (memwrite (memwrite (memwrite (memwrite (memwrite (memwrite (memwrite (memwrite (memwrite
      (memwrite out 0 (zeros 104)) 0 audit_magic) 8 (store_u16_be 1)) 10 (store_u16_be 104))
      12 (store_u32_be (of_nat (136 + length (b_payload b))))) 16 (store_u32_be (of_nat (length (b_payload b)))))
      24 (store_u64_be (b_seq b))) 32 (store_u64_be (b_ts b))) 40 (b_prev b)) 72 (hash_of sha (b_payload b)))
      104 (b_payload b) = header_of sha b @ b_payload b @ drop (104 + length (b_payload b)) out"
proof -
  have z: "zeros 104 = zeros 8 @ zeros 2 @ zeros 2 @ zeros 4 @ zeros 4 @ zeros 4 @ zeros 8 @ zeros 8 @ zeros 32 @ zeros 32"
    by (simp add: zeros_def flip: replicate_add)
  have z4: "store_u32_be 0 = zeros 4"
    by (simp add: store_u32_be_def zeros_def eval_nat_numeral)
  have "memwrite out 0 (zeros 104) = zeros 104 @ drop 104 out" by (simp add: memwrite_front)
  then show ?thesis
    using b by (simp add: z z4 header_of_def memwrite_def add.commute)
qed

definition no_overlap :: "addr \<Rightarrow> addr \<Rightarrow> nat \<Rightarrow> addr \<Rightarrow> addr option \<Rightarrow> bool" where
  "no_overlap prev_at payload_at len out_at meta \<longleftrightarrow>
     \<not> ranges_overlap prev_at 32 out_at (136 + len) \<and>
     \<not> ranges_overlap payload_at len out_at (136 + len) \<and>
     \<not> ranges_overlap (case meta of None \<Rightarrow> 0 | Some a \<Rightarrow> a)
         (if meta = None then 0 else METADATA_SIZE) out_at (136 + len)"

text \<open>The image depends on the two digests; encoding fails when one of them does.\<close>

lemma encode_general:
  assumes b: "length (b_prev b) = 32" "b_seq b \<noteq> 0" "length (b_payload b) \<le> AUDIT_PAYLOAD_MAX"
    and p: "p = (if b_payload b = [] then pe else Some (payload_at, b_payload b))"
    and out: "136 + length (b_payload b) \<le> cap" "cap \<le> length out"
    and ov: "no_overlap prev_at (case p of None \<Rightarrow> 0 | Some (a, _) \<Rightarrow> a) (length (b_payload b)) out_at meta"
  shows "(\<exists>w. alrios_audit_block_encode sha (Some (prev_at, b_prev b)) (b_seq b) (b_ts b) p (length (b_payload b))
      (Some (out_at, out)) cap True meta =
     (if valid_block sha b then
       (ALRIOS_AUDIT_OK, Some (block_of sha b @ drop (136 + length (b_payload b)) out),
        136 + length (b_payload b), if meta = None then zero_metadata else metadata_of sha b)
      else (ALRIOS_AUDIT_ERR_HASH, w, 0, zero_metadata)))"
proof (cases "digest_ok sha (b_payload b)")
  case False
  have "sha256_parts sha (map_option snd p, length (b_payload b)) (None, 0) (None, 0) =
      (ALRIOS_AUDIT_ERR_HASH, zeros 32)"
    using False p by (subst sha256_parts_eq [of _ "b_payload b" _ "[]" _ "[]"]) auto
  moreover have "\<not> (p = None \<and> b_payload b \<noteq> [])" using p by (auto split: if_splits)
  moreover have "\<not> valid_block sha b" using False by (simp add: valid_block_def)
  ultimately show ?thesis
    unfolding alrios_audit_block_encode_def Let_def
    using b out ov [unfolded no_overlap_def] by (simp add: AUDIT_WIRE_MIN_def cong: if_cong)
next
  case dp: True
  let ?n = "length (b_payload b)"
  let ?w9 = "memwrite (memwrite (memwrite (memwrite (memwrite (memwrite (memwrite (memwrite (memwrite
      (memwrite out 0 (zeros 104)) 0 audit_magic) 8 (store_u16_be 1)) 10 (store_u16_be 104))
      12 (store_u32_be (of_nat (136 + ?n)))) 16 (store_u32_be (of_nat ?n)))
      24 (store_u64_be (b_seq b))) 32 (store_u64_be (b_ts b))) 40 (b_prev b)) 72 (hash_of sha (b_payload b))"
  let ?w10 = "header_of sha b @ b_payload b @ drop (104 + ?n) out"
  have hp: "length (hash_of sha (b_payload b)) = 32" using dp by (simp add: digest_ok_def)
  have hlen: "length (header_of sha b) = 104" using b hp by (simp add: header_of_def)
  have vb: "valid_block sha b \<longleftrightarrow> digest_ok sha (sealed_text sha b)" using b dp by (simp add: valid_block_def)
  have img: "memwrite ?w9 104 (b_payload b) = ?w10"
    by (rule encode_image [OF b(1) hp]) (use out in simp)
  let ?v9 = "memwrite (memwrite (memwrite (memwrite (memwrite (memwrite (memwrite (memwrite (memwrite
      (memwrite out 0 (zeros 104)) 0 audit_magic) 8 (store_u16_be 1)) 10 (store_u16_be (of_nat 104)))
      12 (store_u32_be (of_nat (136 + ?n)))) 16 (store_u32_be (of_nat ?n)))
      24 (store_u64_be (b_seq b))) 32 (store_u64_be (b_ts b))) 40 (take 32 (b_prev b))) 72 (hash_of sha (b_payload b))"
  have v9: "?v9 = ?w9" using b(1) by simp
  have w10: "(case p of None \<Rightarrow> ?v9 | Some (a, q) \<Rightarrow> if ?n \<noteq> 0 then memwrite ?v9 104 (take ?n q) else ?v9) = ?w10"
    unfolding v9 using img p by (auto simp del: of_nat_add split: option.splits prod.splits)
  have ph: "sha256_parts sha (map_option snd p, ?n) (None, 0) (None, 0) =
      (ALRIOS_AUDIT_OK, hash_of sha (b_payload b))"
    using dp p by (subst sha256_parts_eq [of _ "b_payload b" _ "[]" _ "[]"]) auto
  have bh: "sha256_parts sha (Some audit_hash_domain, length audit_hash_domain)
      (Some ?w10, 104) (Some (b_payload b @ drop (104 + ?n) out), ?n) =
      (if valid_block sha b then (ALRIOS_AUDIT_OK, block_hash_of sha b) else (ALRIOS_AUDIT_ERR_HASH, zeros 32))"
    using hlen by (subst sha256_parts_eq [of _ audit_hash_domain _ "header_of sha b" _ "b_payload b"])
      (auto simp: vb sealed_text_def block_hash_of_def audit_hash_domain_def)
  have last: "valid_block sha b \<Longrightarrow>
      memwrite ?w10 (104 + ?n) (block_hash_of sha b) = block_of sha b @ drop (136 + ?n) out"
    using hlen valid_blockD(5) [of sha b] by (simp add: memwrite_def block_of_def)
  have pn: "\<not> (p = None \<and> b_payload b \<noteq> [])" using p by (auto split: if_splits)
  show ?thesis
    unfolding alrios_audit_block_encode_def limits Let_def metadata_of_def
    using pn out ov [unfolded no_overlap_def limits] b [unfolded limits]
    by (simp add: ph w10 bh last hlen del: of_nat_add cong: if_cong)
qed

lemma encode_eq:
  assumes b: "valid_block sha b" and p: "p = (if b_payload b = [] then pe else Some (payload_at, b_payload b))"
    and out: "136 + length (b_payload b) \<le> cap" "cap \<le> length out"
    and ov: "no_overlap prev_at (case p of None \<Rightarrow> 0 | Some (a, _) \<Rightarrow> a) (length (b_payload b)) out_at meta"
  shows "alrios_audit_block_encode sha (Some (prev_at, b_prev b)) (b_seq b) (b_ts b) p (length (b_payload b))
      (Some (out_at, out)) cap True meta =
    (ALRIOS_AUDIT_OK, Some (block_of sha b @ drop (136 + length (b_payload b)) out),
     136 + length (b_payload b), if meta = None then zero_metadata else metadata_of sha b)"
  using encode_general [OF _ _ _ p out ov, of sha] b by (simp add: valid_block_def)

section \<open>Verification accepts exactly the images\<close>

definition parsed_block :: "bytes \<Rightarrow> audit_block" where
  "parsed_block wire =
     \<lparr>b_prev = bytes_at 40 32 wire, b_seq = load_u64_be (drop 24 wire), b_ts = load_u64_be (drop 32 wire),
      b_payload = bytes_at 104 (length wire - 136) wire\<rparr>"

lemma parsed_block_of: "valid_block sha b \<Longrightarrow> parsed_block (block_of sha b) = b"
  using length_block_of [of sha b] length_header_of [of sha b] valid_blockD [of sha b]
  by (simp add: parsed_block_def bytes_at_def) (simp add: block_of_def header_of_def)

lemma verify_block:
  assumes b: "valid_block sha b"
    and ov: "case m of None \<Rightarrow> True | Some a \<Rightarrow> \<not> ranges_overlap wire_at (length (block_of sha b)) a METADATA_SIZE"
  shows "alrios_audit_block_verify sha (Some (wire_at, block_of sha b)) (length (block_of sha b)) m =
    (ALRIOS_AUDIT_OK, if m = None then zero_metadata else metadata_of sha b)"
proof -
  let ?n = "length (b_payload b)"
  note len = length_block_of [OF b] and hlen = length_header_of [OF b] and v = valid_blockD [OF b]
  have hd: "decode_header (Some (block_of sha b)) (length (block_of sha b)) = (ALRIOS_AUDIT_OK, 136 + ?n, ?n)"
    using decode_header_block [OF b, of "136 + ?n" "b_payload b @ block_hash_of sha b"]
    unfolding len by (simp add: block_of_def)
  have pb: "load_u64_be (drop 24 (block_of sha b)) = b_seq b" "load_u64_be (drop 32 (block_of sha b)) = b_ts b"
      "bytes_at 40 32 (block_of sha b) = b_prev b" "take 32 (drop 72 (block_of sha b)) = hash_of sha (b_payload b)"
    using v by (simp_all add: block_of_def header_of_def bytes_at_def)
  have db: "drop (?n + 104) (block_of sha b) = block_hash_of sha b" using hlen by (simp add: block_of_def)
  have dr: "drop 104 (block_of sha b) = b_payload b @ block_hash_of sha b" using hlen by (simp add: block_of_def)
  have ph: "sha256_parts sha (Some (b_payload b @ block_hash_of sha b), ?n) (None, 0) (None, 0) =
      (ALRIOS_AUDIT_OK, hash_of sha (b_payload b))"
    using b by (subst sha256_parts_eq [of _ "b_payload b" _ "[]" _ "[]"]) (auto simp: valid_block_def)
  have bh: "sha256_parts sha (Some audit_hash_domain, length audit_hash_domain) (Some (block_of sha b), 104)
      (Some (b_payload b @ block_hash_of sha b), ?n) = (ALRIOS_AUDIT_OK, block_hash_of sha b)"
    using b hlen by (subst sha256_parts_eq [of _ audit_hash_domain _ "header_of sha b" _ "b_payload b"])
      (auto simp: valid_block_def sealed_text_def block_hash_of_def block_of_def audit_hash_domain_def)
  show ?thesis
    unfolding alrios_audit_block_verify_def Let_def AUDIT_HEADER_def metadata_of_def
    using ov v len by (simp add: hd [unfolded len] pb db dr ph bh memeq_def split: option.splits cong: if_cong)
qed

lemma verify_sound:
  assumes "alrios_audit_block_verify sha (Some (wire_at, wire)) (length wire) m = (ALRIOS_AUDIT_OK, md)"
  shows "valid_block sha (parsed_block wire) \<and> wire = block_of sha (parsed_block wire) \<and>
    md = (if m = None then zero_metadata else metadata_of sha (parsed_block wire))"
proof -
  let ?b = "parsed_block wire"
  obtain st total_len n where hd: "decode_header (Some wire) (length wire) = (st, total_len, n)" by (metis prod_cases3)
  have st: "st = ALRIOS_AUDIT_OK" and tl: "length wire = total_len"
    using assms hd by (auto simp: alrios_audit_block_verify_def split: if_splits)
  have h: "take 8 wire = audit_magic" "load_u16_be (drop 8 wire) = 1" "unat (load_u16_be (drop 10 wire)) = 104"
      "load_u32_be (drop 20 wire) = 0" "unat (load_u32_be (drop 12 wire)) = 136 + n"
      "unat (load_u32_be (drop 16 wire)) = n" "n \<le> 1048576" "total_len = 136 + n"
    using hd st by (auto simp: decode_header_def memeq_def limits Let_def split: if_splits)
  have len: "length wire = 136 + n" using tl h by simp
  have payload: "b_payload ?b = take n (drop 104 wire)" using len by (simp add: parsed_block_def bytes_at_def)
  have plen: "length (b_payload ?b) = n" using payload len by simp
  obtain s1 ph where ph: "sha256_parts sha (Some (drop 104 wire), n) (None, 0) (None, 0) = (s1, ph)" by fastforce
  obtain s2 bh where bh: "sha256_parts sha (Some audit_hash_domain, length audit_hash_domain) (Some wire, 104)
      (Some (drop 104 wire), n) = (s2, bh)" by fastforce
  have ok: "s1 = ALRIOS_AUDIT_OK" "s2 = ALRIOS_AUDIT_OK" "load_u64_be (drop 24 wire) \<noteq> 0"
      "take 32 ph = take 32 (drop 72 wire)" "take 32 bh = take 32 (drop n (drop 104 wire))"
    and md: "md = (if m = None then zero_metadata
       else \<lparr>version = 1, sequence = load_u64_be (drop 24 wire), timestamp_ns = load_u64_be (drop 32 wire),
             payload_len = of_nat n, previous_hash = bytes_at 40 32 wire, payload_hash = ph, block_hash = bh\<rparr>)"
    using assms hd st ph bh len h(8)
    by (auto simp: alrios_audit_block_verify_def AUDIT_HEADER_def Let_def memeq_def split: if_splits)
  have phash: "digest_ok sha (b_payload ?b)" "ph = hash_of sha (b_payload ?b)"
    using ph ok(1) payload by (auto simp: sha256_parts_eq [of _ "take n (drop 104 wire)" _ "[]" _ "[]"] split: if_splits)
  have u16: "store_u16_be (load_u16_be (drop 10 wire)) = store_u16_be 104"
    using word_eq_of_nat [OF h(3)] by simp
  have u32: "load_u32_be (drop 12 wire) = of_nat (136 + n)" "load_u32_be (drop 16 wire) = of_nat n"
    using word_eq_of_nat [OF h(5)] word_eq_of_nat [OF h(6)] by simp_all
  have "take 104 wire = take 8 wire @ concat (slices wire 8 [2, 2, 4, 4, 4, 8, 8, 32, 32])"
    using take_add [of 8 96 wire] by (simp add: concat_slices del: slices.simps)
  also have "\<dots> = audit_magic @ store_u16_be (load_u16_be (drop 8 wire)) @ store_u16_be (load_u16_be (drop 10 wire)) @
      store_u32_be (load_u32_be (drop 12 wire)) @ store_u32_be (load_u32_be (drop 16 wire)) @
      store_u32_be (load_u32_be (drop 20 wire)) @ store_u64_be (load_u64_be (drop 24 wire)) @
      store_u64_be (load_u64_be (drop 32 wire)) @ take 32 (drop 40 wire) @ take 32 (drop 72 wire)"
    using len h(1) by (simp add: be16.enc_dec be32.enc_dec be64.enc_dec)
  also have "\<dots> = header_of sha ?b"
    using phash ok(4) h(2,4) plen u16 u32
    by (simp add: header_of_def digest_ok_def parsed_block_def [of wire] bytes_at_def del: of_nat_add)
  finally have header: "take 104 wire = header_of sha ?b" .
  have bhash: "digest_ok sha (sealed_text sha ?b)" "bh = block_hash_of sha ?b"
    using bh ok(2) payload header len
    by (auto simp: sha256_parts_eq [of _ audit_hash_domain _ "take 104 wire" _ "take n (drop 104 wire)"]
        sealed_text_def block_hash_of_def audit_hash_domain_def split: if_splits)
  have valid: "valid_block sha ?b"
    using phash bhash plen h(7) ok(3) len
    by (simp add: valid_block_def limits) (simp add: parsed_block_def bytes_at_def)
  have "drop n (drop 104 wire) = bh"
    using ok(5) bhash len by (simp add: digest_ok_def block_hash_of_def)
  then have "wire = block_of sha ?b"
    using header payload bhash(2) append_take_drop_id [of 104 wire] append_take_drop_id [of n "drop 104 wire"]
    by (simp add: block_of_def)
  then show ?thesis
    using valid md phash bhash plen by (simp add: metadata_of_def) (simp add: parsed_block_def)
qed

definition verified :: "digest \<Rightarrow> bytes \<Rightarrow> audit_block option" where
  "verified sha wire =
     (if fst (alrios_audit_block_verify sha (Some (1, wire)) (length wire) None) = ALRIOS_AUDIT_OK
      then Some (parsed_block wire) else None)"

interpretation audit_record: sealed_record "valid_block sha" "block_of sha" "verified sha"
  "\<lambda>w. fst (snd (decode_header (Some w) 104))" for sha
proof unfold_locales
  fix r rest
  assume v: "valid_block sha r"
  show "verified sha (block_of sha r) = Some r"
    using verify_block [OF v, where m = None and wire_at = 1] parsed_block_of [OF v] by (simp add: verified_def)
  show "fst (snd (decode_header (Some (block_of sha r @ rest)) 104)) = length (block_of sha r)"
    using decode_header_block [OF v, of 104 "b_payload r @ block_hash_of sha r @ rest"] length_block_of [OF v]
    by (simp only: block_of_def append_assoc) simp
  show "block_of sha r \<noteq> []" using length_block_of [OF v] by auto
next
  fix bs r
  assume "verified sha bs = Some r"
  then show "valid_block sha r"
    using verify_sound [of sha 1 bs None] by (auto simp: verified_def prod_eq_iff split: if_splits)
qed

section \<open>Chains\<close>

text \<open>
  Blocks that follow one another: consecutive sequence numbers, each block carrying the
  hash of the one before. A log file that is in order is the image of such a chain.
\<close>

fun linked :: "digest \<Rightarrow> bytes \<Rightarrow> u64 \<Rightarrow> audit_block list \<Rightarrow> bool" where
  "linked sha prev seq [] \<longleftrightarrow> True"
| "linked sha prev seq (b # bs) \<longleftrightarrow>
     b_prev b = prev \<and> b_seq b = seq \<and> valid_block sha b \<and> linked sha (block_hash_of sha b) (seq + 1) bs"

definition chain :: "digest \<Rightarrow> audit_block list \<Rightarrow> bool" where
  "chain sha bs \<longleftrightarrow> linked sha (zeros 32) 1 bs"

definition chain_image :: "digest \<Rightarrow> audit_block list \<Rightarrow> bytes" where
  "chain_image sha bs = concat (map (block_of sha) bs)"

definition tip :: "digest \<Rightarrow> bytes \<Rightarrow> audit_block list \<Rightarrow> bytes" where
  "tip sha prev bs = (if bs = [] then prev else block_hash_of sha (last bs))"

lemma linked_snoc:
  "linked sha prev seq (bs @ [b]) \<longleftrightarrow>
    linked sha prev seq bs \<and> b_prev b = tip sha prev bs \<and> b_seq b = seq + of_nat (length bs) \<and> valid_block sha b"
  by (induction bs arbitrary: prev seq) (auto simp: tip_def algebra_simps)

lemma chain_snoc:
  "chain sha (bs @ [b]) \<longleftrightarrow>
    chain sha bs \<and> b_prev b = tip sha (zeros 32) bs \<and> b_seq b = 1 + of_nat (length bs) \<and> valid_block sha b"
  by (simp add: chain_def linked_snoc)

lemma linked_valid: "linked sha prev seq bs \<Longrightarrow> b \<in> set bs \<Longrightarrow> valid_block sha b"
  by (induction bs arbitrary: prev seq) auto

lemma chain_image_snoc [simp]: "chain_image sha (bs @ [b]) = chain_image sha bs @ block_of sha b"
  by (simp add: chain_image_def)

lemma chain_image_Nil [simp]: "chain_image sha [] = []"
  by (simp add: chain_image_def)

lemma chain_image_length: "linked sha prev seq bs \<Longrightarrow> 136 * length bs \<le> length (chain_image sha bs)"
  by (induction bs arbitrary: prev seq) (auto simp: chain_image_def length_block_of intro: trans_le_add2)

lemma chain_inject: "chain sha bs \<Longrightarrow> chain sha cs \<Longrightarrow> chain_image sha bs = chain_image sha cs \<Longrightarrow> bs = cs"
  unfolding chain_def chain_image_def
  by (rule audit_record.log_inject) (auto dest: linked_valid)

text \<open>What is left of a record whose writing was cut short.\<close>

definition incomplete :: "bytes \<Rightarrow> bool" where
  "incomplete rest \<longleftrightarrow> rest \<noteq> [] \<and>
     (if length rest < 8 then rest = take (length rest) audit_magic
      else if length rest < 104 then take 8 rest = audit_magic
      else fst (decode_header (Some (take 104 rest)) 104) = ALRIOS_AUDIT_OK \<and> take 8 rest = audit_magic \<and>
        length rest < fst (snd (decode_header (Some (take 104 rest)) 104)))"

lemma incomplete_prefix:
  assumes b: "valid_block sha b" and k: "0 < k" "k < length (block_of sha b)"
  shows "incomplete (take k (block_of sha b))"
proof -
  have m: "take 8 (block_of sha b) = audit_magic" by (simp add: block_of_def header_of_def)
  have t: "take 104 (block_of sha b) = header_of sha b" using length_header_of [OF b] by (simp add: block_of_def)
  have ne: "take k (block_of sha b) \<noteq> []" using k by auto
  consider "k < 8" | "8 \<le> k" "k < 104" | "104 \<le> k" by linarith
  then show ?thesis
  proof cases
    case 1
    then have "take k (block_of sha b) = take k audit_magic" by (simp flip: m)
    then show ?thesis using 1 k ne by (simp add: incomplete_def)
  next
    case 2
    then show ?thesis using k ne m by (simp add: incomplete_def min_def)
  next
    case 3
    then show ?thesis
      using k ne m t decode_header_block [OF b, of 104 "[]"] length_block_of [OF b]
      by (simp add: incomplete_def min_def)
  qed
qed

end
