(* ===== verification/AuditScan.thy ===== *)
theory AuditScan
  imports AuditChainLaws
begin

text \<open>
  The laws of the positioned transfers and of the scan, for every kernel script.
\<close>

section \<open>Calls that retry\<close>

definition same_fd :: "posix_fd \<Rightarrow> posix_fd \<Rightarrow> bool" where
  "same_fd f g \<longleftrightarrow> same_file f g \<and> pos g = pos f \<and> held g = held f"

lemma same_fd_refl [simp]: "same_fd f f"
  by (simp add: same_fd_def)

lemma same_fd_trans: "same_fd f g \<Longrightarrow> same_fd g h \<Longrightarrow> same_fd f h"
  by (auto simp: same_fd_def same_file_def)

lemma same_fd_content: "same_fd f g \<Longrightarrow> content g = content f"
  by (simp add: same_fd_def same_file_def)

lemma lock_fd_result:
  "lock_fd f lt = (status, g) \<Longrightarrow>
    same_file f g \<and> pos g = pos f \<and> (status = ALRIOS_AUDIT_OK \<or> status = ALRIOS_AUDIT_ERR_BUSY) \<and>
    (status = ALRIOS_AUDIT_OK \<longrightarrow> held g = Some lt)"
proof (induction f lt rule: lock_fd.induct)
  case (1 f lt)
  obtain ok h where h: "sys_lock (Some lt) f = (ok, h)" by fastforce
  note k = sys_lock_keeps [OF h]
  show ?case
  proof (cases "\<not> ok \<and> errno h = EINTR")
    case True
    then have "lock_fd h lt = (status, g)" using 1(2) h by (simp add: lock_fd.simps [of f])
    from 1(1) [OF h [symmetric] _ _ this] show ?thesis using True k by (auto simp: same_file_def)
  next
    case False
    then show ?thesis using 1(2) h k by (auto simp: lock_fd.simps [of f] split: if_splits)
  qed
qed

lemma sync_fd_result:
  "sync_fd f = (status, g) \<Longrightarrow>
    same_fd f g \<and> (status = ALRIOS_AUDIT_OK \<or> status = ALRIOS_AUDIT_ERR_IO)"
proof (induction f rule: sync_fd.induct)
  case (1 f)
  obtain ok h where h: "sys_fsync f = (ok, h)" by fastforce
  note k = sys_call_keeps [OF h [unfolded sys_fsync_def]]
  show ?case
  proof (cases "\<not> ok \<and> errno h = EINTR")
    case True
    then have "sync_fd h = (status, g)" using 1(2) h by (simp add: sync_fd.simps [of f])
    from 1(1) [OF h [symmetric] _ _ this] show ?thesis using True k by (auto simp: same_fd_def same_file_def)
  next
    case False
    then show ?thesis using 1(2) h k by (auto simp: sync_fd.simps [of f] same_fd_def split: if_splits)
  qed
qed

lemma truncate_loop_result:
  "truncate_loop f n = (status, g) \<Longrightarrow>
    access g = access f \<and> regular g = regular f \<and> held g = held f \<and> pos g = pos f \<and>
    (status = ALRIOS_AUDIT_OK \<or> status = ALRIOS_AUDIT_ERR_IO) \<and>
    content g = (if status = ALRIOS_AUDIT_OK then take n (content f) @ zeros (n - length (content f)) else content f)"
proof (induction f n rule: truncate_loop.induct)
  case (1 f n)
  obtain ok h where h: "sys_ftruncate n f = (ok, h)" by fastforce
  note k = sys_ftruncate_keeps [OF h]
  show ?case
  proof (cases "\<not> ok \<and> errno h = EINTR")
    case True
    then have "truncate_loop h n = (status, g)" using 1(2) h by (simp add: truncate_loop.simps [of f])
    from 1(1) [OF h [symmetric] _ _ this] show ?thesis using True k by auto
  next
    case False
    then show ?thesis using 1(2) h k by (auto simp: truncate_loop.simps [of f] split: if_splits)
  qed
qed

lemma truncate_fd_result:
  assumes "truncate_fd f n = (status, g)" and "n \<le> length (content f)"
  shows "access g = access f \<and> regular g = regular f \<and> held g = held f \<and> pos g = pos f \<and>
    content g = (if status = ALRIOS_AUDIT_OK then take n (content f) else content f)"
  using assms truncate_loop_result [of f n status g] by (auto simp: truncate_fd_def split: if_splits)

lemma read_exact_at_result:
  "read_exact_at f len off acc = (status, buf, g) \<Longrightarrow> length acc \<le> len \<Longrightarrow>
    acc = take (length acc) (drop off (content f)) \<Longrightarrow>
    same_fd f g \<and> (status = ALRIOS_AUDIT_OK \<longrightarrow>
       buf = take len (drop off (content f)) \<and> length buf = len)"
proof (induction f len off acc arbitrary: status buf g rule: read_exact_at.induct)
  case (1 f len off acc)
  define co rq where "co = off + length acc" and "rq = min (len - length acc) SSIZE_MAX"
  obtain n got h where h: "sys_pread rq co f = (n, got, h)" by (metis prod_cases3)
  have ovf: ?case if "\<not> (length acc < len \<and> \<not> UINT64_MAX - length acc < off \<and> \<not> INT64_MAX < co)"
    using that 1(3-5) by (auto simp: read_exact_at.simps [of f] co_def Let_def split: if_splits)
  show ?case
  proof (cases "length acc < len \<and> \<not> UINT64_MAX - length acc < off \<and> \<not> INT64_MAX < co")
    case False
    then show ?thesis by (rule ovf)
  next
    case True
    then have lt: "length acc < len" and c: "\<not> UINT64_MAX - length acc < off" "\<not> INT64_MAX < co" by auto
    have run: "read_exact_at f len off acc =
        (if 0 < n then read_exact_at h len off (acc @ got)
         else if n = 0 then (ALRIOS_AUDIT_ERR_TRUNCATED, acc, h)
         else if errno h \<noteq> EINTR then (ALRIOS_AUDIT_ERR_IO, acc, h)
         else read_exact_at h len off acc)"
      using lt c h by (simp add: read_exact_at.simps [of f] co_def rq_def Let_def)
    note ih = 1(1,2) [OF lt c(1) co_def rq_def c(2) h [symmetric] refl]
    from h show ?thesis
    proof (cases rule: sys_pread_cases)
      case Error
      show ?thesis
      proof (cases "errno h = EINTR")
        case intr: True
        then have rec: "read_exact_at h len off acc = (status, buf, g)" using 1(3) run Error(1) by simp
        show ?thesis
          using ih(2) [OF _ _ _ rec 1(4)] 1(5) Error intr
          by (auto simp: same_fd_def same_file_def)
      next
        case False
        then show ?thesis using 1(3) run Error by (auto simp: same_fd_def)
      qed
    next
      case Data
      show ?thesis
      proof (cases "got = []")
        case True
        then show ?thesis using 1(3) run Data by (auto simp: same_fd_def)
      next
        case False
        then have rec: "read_exact_at h len off (acc @ got) = (status, buf, g)" and n: "0 < n"
          using 1(3) run Data(1) by simp_all
        have same: "same_fd f h" using Data(4-6) by (simp add: same_fd_def)
        have "acc @ got = take (length acc + length got) (drop off (content f))"
          using 1(5) Data(2) by (simp add: co_def take_add add.commute [of off])
        then have prefix: "acc @ got = take (length (acc @ got)) (drop off (content h))"
          unfolding length_append same_fd_content [OF same] .
        have "length (acc @ got) \<le> len" using Data(3) lt by (auto simp: rq_def)
        from ih(1) [OF n rec this prefix] show ?thesis
          using same_fd_trans [OF same] unfolding same_fd_content [OF same] by blast
      qed
    qed
  qed
qed

lemmas read_at_result = read_exact_at_result [where acc = "[]", simplified]

lemma write_exact_at_result:
  "write_exact_at f buf off sent = (status, g) \<Longrightarrow> sent \<le> length buf \<Longrightarrow> off + sent \<le> length (content f) \<Longrightarrow>
    access g = access f \<and> regular g = regular f \<and> held g = held f \<and> pos g = pos f \<and>
    (\<exists>k \<le> length buf - sent.
       content g = file_put (content f) (off + sent) (take k (drop sent buf)) \<and>
       (status = ALRIOS_AUDIT_OK \<longrightarrow> k = length buf - sent))"
proof (induction f buf off sent arbitrary: status g rule: write_exact_at.induct)
  case (1 f buf off sent)
  define co rq where "co = off + sent" and "rq = min (length buf - sent) SSIZE_MAX"
  obtain n h where h: "sys_pwrite (take rq (drop sent buf)) co f = (n, h)" by fastforce
  show ?case
  proof (cases "sent < length buf \<and> \<not> UINT64_MAX - sent < off \<and> \<not> INT64_MAX < co")
    case False
    then show ?thesis using 1(3-5)
      by (auto simp: write_exact_at.simps [of f] co_def Let_def split: if_splits intro: exI [of _ 0])
  next
    case True
    then have lt: "sent < length buf" and c: "\<not> UINT64_MAX - sent < off" "\<not> INT64_MAX < co" by auto
    have run: "write_exact_at f buf off sent =
        (if 0 < n then write_exact_at h buf off (sent + nat n)
         else if n = 0 then (ALRIOS_AUDIT_ERR_IO, h)
         else if errno h \<noteq> EINTR then (ALRIOS_AUDIT_ERR_IO, h)
         else write_exact_at h buf off sent)"
      using lt c h by (simp add: write_exact_at.simps [of f] co_def rq_def Let_def)
    note ih = 1(1,2) [OF lt c(1) co_def rq_def c(2) h [symmetric]]
    from h show ?thesis
    proof (cases rule: sys_pwrite_cases)
      case Error
      show ?thesis
      proof (cases "errno h = EINTR")
        case intr: True
        then have rec: "write_exact_at h buf off sent = (status, g)" using 1(3) run Error(1) by simp
        show ?thesis using ih(2) [OF _ _ _ rec 1(4)] 1(5) Error intr by (auto simp: same_file_def)
      next
        case False
        then show ?thesis using 1(3) run Error by (auto simp: same_file_def intro: exI [of _ 0])
      qed
    next
      case (Data k)
      have k: "k \<le> length buf - sent" "k \<le> rq" using Data(2) by auto
      have put: "content h = file_put (content f) (off + sent) (take k (drop sent buf))"
        using Data(3) k by (simp add: co_def min_def)
      show ?thesis
      proof (cases "k = 0")
        case True
        then show ?thesis using 1(3) run Data put by (auto intro: exI [of _ 0])
      next
        case False
        then have rec: "write_exact_at h buf off (sent + k) = (status, g)" using 1(3) run Data(1) by simp
        have "length (content h) = max (length (content f)) (off + sent + k)"
          using put k 1(5) by (simp add: length_file_put min_def)
        then have pre: "sent + k \<le> length buf" "off + (sent + k) \<le> length (content h)"
          using k lt by simp_all
        have "nat n = k" "0 < n" using Data(1) False by simp_all
        then obtain j where j: "j \<le> length buf - (sent + k)"
            "content g = file_put (content h) (off + (sent + k)) (take j (drop (sent + k) buf))"
            "status = ALRIOS_AUDIT_OK \<longrightarrow> j = length buf - (sent + k)"
          and rest: "access g = access h \<and> regular g = regular h \<and> held g = held h \<and> pos g = pos h"
          using ih(1) [of status g] rec pre by auto
        have "take (k + j) (drop sent buf) = take k (drop sent buf) @ take j (drop (sent + k) buf)"
          by (simp only: take_add drop_drop add.commute [of k sent])
        moreover have "length (take k (drop sent buf)) = k" using k by simp
        ultimately have "content g = file_put (content f) (off + sent) (take (k + j) (drop sent buf))"
          using j(2) put file_put_append [OF 1(5), of "take k (drop sent buf)"] by (simp add: add.assoc)
        then show ?thesis using rest j Data k by (auto intro!: exI [of _ "k + j"])
      qed
    qed
  qed
qed

section \<open>One iteration of the scan\<close>

text \<open>The locals of the scan describe the blocks it has accepted.\<close>

definition scanned :: "digest \<Rightarrow> posix_fd \<Rightarrow> scan_state \<Rightarrow> audit_block list \<Rightarrow> bool" where
  "scanned sha f s bs \<longleftrightarrow>
     chain sha bs \<and> scan_offset s = length (chain_image sha bs) \<and>
     take (scan_offset s) (content f) = chain_image sha bs \<and>
     expected_sequence s = 1 + of_nat (length bs) \<and> scan_previous s = tip sha (zeros 32) bs \<and>
     scan_count s = of_nat (length bs) \<and> scan_last s = of_nat (length bs)"

lemma scanned_start: "scanned sha f scan_start []"
  by (simp add: scanned_def scan_start_def chain_def tip_def)

lemma scanned_same: "scanned sha f s bs \<Longrightarrow> same_fd f g \<Longrightarrow> scanned sha g s bs"
  by (auto simp: scanned_def same_fd_content)

lemma tip_length: "chain sha bs \<Longrightarrow> length (tip sha (zeros 32) bs) = 32"
  by (cases bs rule: rev_cases) (auto simp: tip_def chain_snoc valid_blockD)

text \<open>An iteration that accepts a record has read, verified and linked one block.\<close>

lemma scan_accept:
  assumes inv: "scanned sha f s bs" and len: "length (content f) = file_size"
    and rec: "take total_len (drop (scan_offset s) (content f)) = wire" "length wire = total_len"
    and ver: "alrios_audit_block_verify sha (Some (wire_at, wire)) total_len (Some m) = (ALRIOS_AUDIT_OK, md)"
    and seq: "sequence md = expected_sequence s" and prev: "memeq (previous_hash md) (scan_previous s) 32"
  shows "scanned sha f (s\<lparr>scan_previous := block_hash md, scan_offset := scan_offset s + total_len,
      scan_count := scan_count s + 1, scan_last := sequence md,
      expected_sequence := expected_sequence s + 1\<rparr>) (bs @ [parsed_block wire])"
proof -
  let ?b = "parsed_block wire"
  have v: "valid_block sha ?b" "wire = block_of sha ?b" "md = metadata_of sha ?b"
    using verify_sound [OF ver [folded rec(2)]] by auto
  have c: "chain sha bs" and off: "scan_offset s = length (chain_image sha bs)"
    and img: "take (scan_offset s) (content f) = chain_image sha bs" using inv by (auto simp: scanned_def)
  have "b_prev ?b = tip sha (zeros 32) bs"
    using prev inv v valid_blockD(1) [OF v(1)] tip_length [OF c]
    by (simp add: memeq_full scanned_def metadata_of_def)
  moreover have "b_seq ?b = 1 + of_nat (length bs)" using seq inv v by (simp add: scanned_def metadata_of_def)
  ultimately have "chain sha (bs @ [?b])" using c v by (simp add: chain_snoc)
  moreover have "take (scan_offset s + total_len) (content f) = chain_image sha (bs @ [?b])"
    using img rec v by (simp add: take_add)
  moreover have "length (chain_image sha (bs @ [?b])) = scan_offset s + total_len"
    using off v(2) rec(2) by simp
  ultimately show ?thesis
    using inv v(3) seq by (simp add: scanned_def metadata_of_def tip_def)
qed

text \<open>
  What an iteration does, whatever the kernel answers: it changes nothing in the file;
  it accepts one more block, or finds an incomplete record, or fails.
\<close>

lemma scan_block_result:
  assumes inv: "scanned sha f s bs" and len: "length (content f) = file_size"
    and lt: "scan_offset s < file_size"
    and run: "scan_block sha env file_size f s = (exit, s', f')"
  shows "same_fd f f' \<and> (exit = None \<longrightarrow> (\<exists>b. scanned sha f' s' (bs @ [b]))) \<and>
    (exit = Some PartialTail \<longrightarrow> s' = s \<and> incomplete (drop (scan_offset s) (content f))) \<and>
    exit \<noteq> Some (Cleanup ALRIOS_AUDIT_OK)"
proof -
  define off where "off = scan_offset s"
  let ?rest = "drop off (content f)"
  have rest: "length ?rest = file_size - off" "?rest \<noteq> []" using len lt by (simp_all add: off_def)
  show ?thesis
  proof (cases "file_size - off < 8")
    case True
    obtain st header f1 where r: "read_exact_at f (file_size - off) off [] = (st, header, f1)" by (metis prod_cases3)
    note k = read_at_result [OF r]
    show ?thesis
    proof (cases "st = ALRIOS_AUDIT_OK \<and> magic_prefix header (file_size - off)")
      case mp: True
      then have "header = ?rest" using k rest by simp
      then have "incomplete ?rest"
        using mp True rest by (auto simp: incomplete_def magic_prefix_def memeq_def)
      then show ?thesis using run r True k mp unfolding off_def by (auto simp: scan_block_def)
    next
      case False
      then show ?thesis using run r True k by (auto simp: scan_block_def off_def [symmetric] split: if_splits)
    qed
  next
    case big: False
    obtain st header f1 where r1: "read_exact_at f 8 off [] = (st, header, f1)" by (metis prod_cases3)
    note k1 = read_at_result [OF r1]
    obtain st2 header2 f2 where r2: "read_exact_at f1 AUDIT_HEADER off [] = (st2, header2, f2)" by (metis prod_cases3)
    note k2 = read_at_result [OF r2]
    obtain st3 total_len plen where hd: "decode_header (Some header2) AUDIT_HEADER = (st3, total_len, plen)"
      by (metis prod_cases3)
    obtain st4 wire f3 where r3: "read_exact_at f2 total_len off [] = (st4, wire, f3)" by (metis prod_cases3)
    note k3 = read_at_result [OF r3]
    obtain st5 md where ver: "alrios_audit_block_verify sha (Some (malloc env off total_len, wire)) total_len
        (Some (metadata_at env)) = (st5, md)" by fastforce
    have f12: "same_fd f f1" "same_fd f f2" "same_fd f f3"
      using k1 k2 k3 same_fd_trans by blast+
    let ?s1 = "s\<lparr>scan_previous := block_hash md\<rparr>"
    let ?s2 = "?s1\<lparr>scan_offset := off + total_len, scan_count := scan_count s + 1, scan_last := sequence md\<rparr>"
    have eq: "scan_block sha env file_size f s =
      (if st \<noteq> ALRIOS_AUDIT_OK then (Some (Cleanup st), s, f1)
       else if \<not> memeq header audit_magic 8 then (Some (Cleanup ALRIOS_AUDIT_ERR_FORMAT), s, f1)
       else if file_size - off < AUDIT_HEADER then (Some PartialTail, s, f1)
       else if st2 \<noteq> ALRIOS_AUDIT_OK then (Some (Cleanup st2), s, f2)
       else if st3 \<noteq> ALRIOS_AUDIT_OK then (Some (Cleanup st3), s, f2)
       else if file_size - off < total_len then (Some PartialTail, s, f2)
       else if malloc env off total_len = 0 then (Some (Cleanup ALRIOS_AUDIT_ERR_CAPACITY), s, f2)
       else if st4 \<noteq> ALRIOS_AUDIT_OK then (Some (Cleanup st4), s, f3)
       else if st5 \<noteq> ALRIOS_AUDIT_OK then (Some (Cleanup st5), s, f3)
       else if sequence md \<noteq> expected_sequence s then (Some (Cleanup ALRIOS_AUDIT_ERR_SEQUENCE), s, f3)
       else if \<not> memeq (previous_hash md) (scan_previous s) 32 then (Some (Cleanup ALRIOS_AUDIT_ERR_CHAIN), s, f3)
       else if UINT64_MAX - total_len < off then (Some (Cleanup ALRIOS_AUDIT_ERR_OVERFLOW), ?s1, f3)
       else if expected_sequence s = -1 \<and> off + total_len < file_size
       then (Some (Cleanup ALRIOS_AUDIT_ERR_SEQUENCE), ?s2, f3)
       else (None, ?s2\<lparr>expected_sequence := expected_sequence s + 1\<rparr>, f3))"
      using big by (simp add: scan_block_def off_def [symmetric] Let_def r1 r2 hd r3 ver cong: if_cong)
    note step = run [unfolded eq]
    consider (early) "st \<noteq> ALRIOS_AUDIT_OK \<or> \<not> memeq header audit_magic 8"
      | (partial8) "st = ALRIOS_AUDIT_OK" "memeq header audit_magic 8" "file_size - off < AUDIT_HEADER"
      | (bad) "st = ALRIOS_AUDIT_OK" "memeq header audit_magic 8" "\<not> file_size - off < AUDIT_HEADER"
          "st2 \<noteq> ALRIOS_AUDIT_OK \<or> st3 \<noteq> ALRIOS_AUDIT_OK"
      | (partial) "st = ALRIOS_AUDIT_OK" "memeq header audit_magic 8" "\<not> file_size - off < AUDIT_HEADER"
          "st2 = ALRIOS_AUDIT_OK" "st3 = ALRIOS_AUDIT_OK" "file_size - off < total_len"
      | (full) "st = ALRIOS_AUDIT_OK" "memeq header audit_magic 8" "\<not> file_size - off < AUDIT_HEADER"
          "st2 = ALRIOS_AUDIT_OK" "st3 = ALRIOS_AUDIT_OK" "\<not> file_size - off < total_len"
      by blast
    then show ?thesis
    proof cases
      case early
      then show ?thesis using step f12 by (cases "st = ALRIOS_AUDIT_OK") auto
    next
      case partial8
      then have "header = take 8 ?rest" using k1 by simp
      then have "incomplete ?rest" using partial8 big rest by (simp add: incomplete_def memeq_def AUDIT_HEADER_def)
      then show ?thesis using step partial8 f12 off_def by auto
    next
      case bad
      then show ?thesis using step f12 by (cases "st2 = ALRIOS_AUDIT_OK") auto
    next
      case partial
      then have "header = take 8 ?rest" "header2 = take 104 ?rest"
        using k1 k2 same_fd_content [OF f12(1)] by (auto simp: AUDIT_HEADER_def)
      then have "incomplete ?rest" using partial rest hd by (simp add: incomplete_def memeq_def AUDIT_HEADER_def)
      then show ?thesis using step partial f12 off_def by auto
    next
      case full
      note step3 = step [simplified full if_True if_False simp_thms]
      show ?thesis
      proof (cases exit)
        case None
        then have acc: "f' = f3" "st4 = ALRIOS_AUDIT_OK" "st5 = ALRIOS_AUDIT_OK"
          "sequence md = expected_sequence s" "memeq (previous_hash md) (scan_previous s) 32"
          "s' = ?s2\<lparr>expected_sequence := expected_sequence s + 1\<rparr>"
          using step3 by (simp_all split: if_splits)
        then have wire: "take total_len (drop (scan_offset s) (content f)) = wire" "length wire = total_len"
          using k3 same_fd_content [OF f12(2)] off_def by auto
        have "scanned sha f s' (bs @ [parsed_block wire])"
          using scan_accept [OF inv len wire ver [unfolded acc(3)] acc(4,5)] acc(6) off_def by simp
        then show ?thesis using None acc(1) f12 scanned_same by blast
      next
        case (Some e)
        then show ?thesis using step3 f12 by (auto split: if_splits)
      qed
    qed
  qed
qed

section \<open>The whole scan\<close>

lemma scanned_content:
  assumes "scanned sha f s bs"
  shows "scan_offset s \<le> length (content f) \<and> content f = chain_image sha bs @ drop (scan_offset s) (content f)"
proof -
  have t: "take (scan_offset s) (content f) = chain_image sha bs" "scan_offset s = length (chain_image sha bs)"
    using assms by (auto simp: scanned_def)
  then have "min (length (content f)) (scan_offset s) = scan_offset s" by (metis length_take)
  then show ?thesis using t by (metis append_take_drop_id min.cobounded1)
qed

lemma scan_loop_result:
  "scanned sha f s bs \<Longrightarrow> length (content f) = file_size \<Longrightarrow>
    scan_loop sha env file_size f s = (exit, s', f') \<Longrightarrow>
    same_fd f f' \<and> exit \<noteq> Some (Cleanup ALRIOS_AUDIT_OK) \<and>
    (exit = None \<longrightarrow> (\<exists>cs. scanned sha f' s' cs \<and> scan_offset s' = file_size)) \<and>
    (exit = Some PartialTail \<longrightarrow>
      (\<exists>cs. scanned sha f' s' cs \<and> incomplete (drop (scan_offset s') (content f))))"
proof (induction sha env file_size f s arbitrary: bs rule: scan_loop.induct)
  case (1 sha env file_size f s)
  show ?case
  proof (cases "scan_offset s < file_size")
    case False
    then show ?thesis
      using 1(2-4) scanned_content [OF 1(2)] by (auto simp: scan_loop.simps [of _ _ _ f])
  next
    case True
    obtain e s1 f1 where b: "scan_block sha env file_size f s = (e, s1, f1)" by (metis prod_cases3)
    note r = scan_block_result [OF 1(2,3) True b]
    show ?thesis
    proof (cases e)
      case None
      then obtain b' where inv: "scanned sha f1 s1 (bs @ [b'])" using r by blast
      have same: "same_fd f f1" using r by blast
      have rec: "scan_loop sha env file_size f1 s1 = (exit, s', f')"
        using 1(4) True b None by (simp add: scan_loop.simps [of _ _ _ f])
      have "length (content f1) = file_size" using same_fd_content [OF same] 1(3) by simp
      from 1(1) [OF True b [symmetric] None refl inv this rec] show ?thesis
        using same_fd_trans [OF same] unfolding same_fd_content [OF same] by blast
    next
      case (Some x)
      then have res: "exit = Some x" "s' = s1" "f' = f1"
        using 1(4) True b by (auto simp: scan_loop.simps [of _ _ _ f])
      then show ?thesis using r Some 1(2) scanned_same [OF 1(2)] by auto
    qed
  qed
qed

text \<open>
  The summary of a scan that succeeds: the file is a chain followed by an incomplete
  record or nothing, and after the call it is the chain alone.
\<close>

definition summary :: "digest \<Rightarrow> audit_block list \<Rightarrow> bool \<Rightarrow> chain_result" where
  "summary sha bs recovered =
     \<lparr>block_count = of_nat (length bs), valid_bytes = length (chain_image sha bs),
      last_sequence = of_nat (length bs), last_hash = tip sha (zeros 32) bs, tail_recovered = recovered\<rparr>"

lemma scan_result_summary: "scanned sha f s bs \<Longrightarrow> scan_result s r = summary sha bs r"
  by (simp add: scanned_def scan_result_def summary_def)

definition log_of :: "digest \<Rightarrow> bytes \<Rightarrow> audit_block list \<Rightarrow> bytes \<Rightarrow> bool" where
  "log_of sha bs' bs rest \<longleftrightarrow> chain sha bs \<and> bs' = chain_image sha bs @ rest \<and> (rest = [] \<or> incomplete rest)"

lemma scan_locked_result:
  assumes "scan_locked sha env f recover_tail = (status, result, g)"
  shows "access g = access f \<and> regular g = regular f \<and> held g = held f \<and> pos g = pos f \<and>
    (status = ALRIOS_AUDIT_OK \<longrightarrow> (\<exists>bs rest. log_of sha (content f) bs rest \<and> length (content f) \<le> INT64_MAX \<and>
       content g = chain_image sha bs \<and> result = Some (summary sha bs (rest \<noteq> [])) \<and>
       (rest \<noteq> [] \<longrightarrow> recover_tail))) \<and>
    (status \<noteq> ALRIOS_AUDIT_OK \<longrightarrow> content g = content f \<or>
       recover_tail \<and> (\<exists>bs rest. log_of sha (content f) bs rest \<and> content g = chain_image sha bs)) \<and>
    (\<not> recover_tail \<longrightarrow> content g = content f)"
proof -
  obtain st size f1 where sz: "get_regular_file_size f = (st, size, f1)" by (metis prod_cases3)
  have f1: "same_fd f f1" and szok: "st = ALRIOS_AUDIT_OK \<Longrightarrow> size = length (content f1) \<and> size \<le> INT64_MAX"
    using sz by (auto simp: get_regular_file_size_def sys_fstat_def same_fd_def dest!: sys_call_keeps
        split: prod.splits if_splits)
  show ?thesis
  proof (cases "st = ALRIOS_AUDIT_OK")
    case False
    then show ?thesis using assms sz f1 by (auto simp: scan_locked_def same_fd_def same_file_def)
  next
    case True
    obtain e s f2 where lp: "scan_loop sha env size f1 scan_start = (e, s, f2)" by (metis prod_cases3)
    note r = scan_loop_result [OF scanned_start szok [OF True, THEN conjunct1, symmetric] lp]
    have f2: "same_fd f f2" using r f1 same_fd_trans by blast
    note c = same_fd_content [OF f1] same_fd_content [OF f2]
    show ?thesis
    proof (cases e)
      case None
      then obtain bs where bs: "scanned sha f2 s bs" "scan_offset s = size" using r by blast
      then have "content f = chain_image sha bs" using scanned_content [OF bs(1)] szok [OF True] c by simp
      then show ?thesis
        using assms sz True lp None f2 bs scan_result_summary [OF bs(1)] szok [OF True] c
        by (auto simp: scan_locked_def log_of_def scanned_def same_fd_def same_file_def)
    next
      case (Some x)
      show ?thesis
      proof (cases x)
        case (Cleanup y)
        then show ?thesis using assms sz True lp Some f2 r c
          by (auto simp: scan_locked_def same_fd_def same_file_def)
      next
        case PartialTail
        then obtain bs where bs: "scanned sha f2 s bs" "incomplete (drop (scan_offset s) (content f))"
          using r Some c by auto
        note sc = scanned_content [OF bs(1)]
        have lg: "log_of sha (content f) bs (drop (scan_offset s) (content f))"
          using bs sc c by (simp add: log_of_def scanned_def)
        have off: "scan_offset s = length (chain_image sha bs)" using bs by (simp add: scanned_def)
        show ?thesis
        proof (cases recover_tail)
          case False
          then show ?thesis using assms sz True lp Some PartialTail f2 c
            by (auto simp: scan_locked_def same_fd_def same_file_def)
        next
          case rec: True
          obtain st3 f3 where f3: "truncate_fd f2 (scan_offset s) = (st3, f3)" by fastforce
          obtain st4 f4 where f4: "sync_fd f3 = (st4, f4)" by fastforce
          note k3 = truncate_fd_result [OF f3 sc [THEN conjunct1]] and k4 = sync_fd_result [OF f4]
          have t: "take (scan_offset s) (content f2) = chain_image sha bs"
            using bs by (auto simp: scanned_def)
          have ne: "drop (scan_offset s) (content f) \<noteq> []" using bs(2) by (auto simp: incomplete_def)
          have run: "scan_locked sha env f recover_tail =
            (if st3 \<noteq> ALRIOS_AUDIT_OK then (st3, None, f3)
             else if st4 \<noteq> ALRIOS_AUDIT_OK then (st4, None, f4)
             else (ALRIOS_AUDIT_OK, Some (scan_result s True), f4))"
            using rec by (simp add: scan_locked_def sz True lp Some PartialTail f3 f4 cong: if_cong)
          show ?thesis
          proof (cases "st3 = ALRIOS_AUDIT_OK")
            case False
            then show ?thesis using assms run k3 f2 c rec by (auto simp: same_fd_def same_file_def)
          next
            case ok3: True
            then have cg: "content f4 = chain_image sha bs" and st4: "same_fd f3 f4"
              using k3 k4 t same_fd_content by auto
            show ?thesis
            proof (cases "st4 = ALRIOS_AUDIT_OK")
              case False
              then show ?thesis using assms run ok3 cg st4 k3 f2 lg rec by (auto simp: same_fd_def same_file_def)
            next
              case ok4: True
              then have res: "status = ALRIOS_AUDIT_OK" "result = Some (summary sha bs True)" "g = f4"
                using assms run ok3 scan_result_summary [OF bs(1)] by auto
              then show ?thesis
                using cg st4 k3 f2 lg ne rec szok [OF True] c
                by (auto simp: same_fd_def same_file_def intro!: exI [of _ bs]
                    exI [of _ "drop (scan_offset s) (content f)"])
            qed
          qed
        qed
      qed
    qed
  qed
qed

end
