(* ===== verification/AuditSpec.thy ===== *)
theory AuditSpec
  imports AuditScan
begin

text \<open>
  The properties of the audit log: canonical blocks, sound verification, recovery that
  removes nothing but an incomplete record, and an append that is consistent under
  every failure of the kernel.
\<close>

section \<open>Appending under the lock\<close>

lemma encode_ok_cond:
  assumes "alrios_audit_block_encode sha (Some (prev_at, prev)) seq ts p len (Some (out_at, out)) cap w m =
    (ALRIOS_AUDIT_OK, wire, n, md)"
  shows "no_overlap prev_at (case p of None \<Rightarrow> 0 | Some (a, _) \<Rightarrow> a) len out_at m \<and>
    len \<le> AUDIT_PAYLOAD_MAX \<and> seq \<noteq> 0"
  using assms
  by (auto simp: alrios_audit_block_encode_def Let_def no_overlap_def AUDIT_WIRE_MIN_def split: if_splits)

definition payload_bytes :: "cbuf option \<Rightarrow> nat \<Rightarrow> bytes" where
  "payload_bytes p len = (case p of None \<Rightarrow> [] | Some (_, q) \<Rightarrow> take len q)"

text \<open>The block that append adds to a chain.\<close>

definition next_block :: "digest \<Rightarrow> audit_block list \<Rightarrow> u64 \<Rightarrow> bytes \<Rightarrow> audit_block" where
  "next_block sha bs ts payload =
     \<lparr>b_prev = tip sha (zeros 32) bs, b_seq = 1 + of_nat (length bs), b_ts = ts, b_payload = payload\<rparr>"

lemma chain_next:
  "chain sha bs \<Longrightarrow> valid_block sha (next_block sha bs ts q) \<Longrightarrow> chain sha (bs @ [next_block sha bs ts q])"
  by (simp add: chain_snoc next_block_def)

text \<open>The payload argument in the form the encoder's law expects; at most \<open>len\<close> bytes are read.\<close>

lemma encode_take:
  "alrios_audit_block_encode sha prev seq ts (Some (a, q)) len outp cap w m =
   alrios_audit_block_encode sha prev seq ts (Some (a, take len q)) len outp cap w m"
proof -
  have h: "sha256_parts sha (Some (take len q), len) r t = sha256_parts sha (Some q, len) r t" for r t
    by (simp add: sha256_parts_def)
  have d: "(Some x = None) = False" for x :: cbuf by simp
  show ?thesis
    unfolding alrios_audit_block_encode_def option.map snd_conv option.case prod.case take_take min.idem h d
    by (rule refl)
qed

lemma encode_next:
  assumes "chain sha bs" and p: "p = None \<longrightarrow> len = 0" "\<forall>a q. p = Some (a, q) \<longrightarrow> len \<le> length q"
    and run: "alrios_audit_block_encode sha (Some (prev_at, tip sha (zeros 32) bs)) (1 + of_nat (length bs)) ts
      p len (Some (out_at, zeros (136 + len))) (136 + len) True (Some m_at) = (ALRIOS_AUDIT_OK, wire, n, md)"
  shows "let b = next_block sha bs ts (payload_bytes p len)
    in valid_block sha b \<and> wire = Some (block_of sha b) \<and> n = length (block_of sha b) \<and> md = metadata_of sha b"
proof -
  define q where "q = payload_bytes p len"
  define b where "b = next_block sha bs ts q"
  have q: "length q = len" using p by (cases p) (auto simp: q_def payload_bytes_def)
  define p' where "p' = (case p of None \<Rightarrow> None | Some (a, r) \<Rightarrow> Some (a, take len r))"
  have run': "alrios_audit_block_encode sha (Some (prev_at, b_prev b)) (b_seq b) (b_ts b)
      p' (length (b_payload b)) (Some (out_at, zeros (136 + len))) (136 + len) True (Some m_at) =
      (ALRIOS_AUDIT_OK, wire, n, md)"
    using run encode_take by (cases p) (auto simp: b_def next_block_def q p'_def)
  have form: "p' = (if b_payload b = [] then p' else Some (case p of None \<Rightarrow> 0 | Some (a, _) \<Rightarrow> a, b_payload b))"
    using q p by (cases p) (auto simp: p'_def b_def next_block_def q_def payload_bytes_def)
  note c = encode_ok_cond [OF run']
  have lb: "length (b_payload b) = len" by (simp add: b_def next_block_def q)
  have pre: "length (b_prev b) = 32" "b_seq b \<noteq> 0" "length (b_payload b) \<le> AUDIT_PAYLOAD_MAX"
    using tip_length [OF assms(1)] c by (simp_all add: b_def next_block_def)
  obtain w where "alrios_audit_block_encode sha (Some (prev_at, b_prev b)) (b_seq b) (b_ts b) p' (length (b_payload b))
      (Some (out_at, zeros (136 + len))) (136 + len) True (Some m_at) =
     (if valid_block sha b then
       (ALRIOS_AUDIT_OK, Some (block_of sha b @ drop (136 + length (b_payload b)) (zeros (136 + len))),
        136 + length (b_payload b), if Some m_at = None then zero_metadata else metadata_of sha b)
      else (ALRIOS_AUDIT_ERR_HASH, w, 0, zero_metadata))"
    using encode_general [where sha = sha, OF pre form _ _ c [THEN conjunct1], of "136 + len" "zeros (136 + len)"] lb
    by auto
  then have "valid_block sha b \<and> wire = Some (block_of sha b) \<and> n = 136 + len \<and> md = metadata_of sha b"
    using run' lb by (simp split: if_splits)
  then show ?thesis using length_block_of [of sha b] q
    by (auto simp: b_def q_def next_block_def Let_def)
qed

text \<open>Writing the block and, when that fails, truncating back to the valid length.\<close>

lemma write_block_result:
  assumes w: "write_exact_at f1 block (length img) 0 = (st2, f2)" and c: "content f1 = img"
    and sy: "(if st2 = ALRIOS_AUDIT_OK then sync_fd f2 else (st2, f2)) = (st3, f3)"
  shows "access f3 = access f1 \<and> regular f3 = regular f1 \<and> held f3 = held f1 \<and> pos f3 = pos f1 \<and>
    (\<exists>k \<le> length block. content f3 = img @ take k block \<and> (st3 = ALRIOS_AUDIT_OK \<longrightarrow> k = length block))"
proof -
  note k2 = write_exact_at_result [OF w]
  obtain k where k: "k \<le> length block" "content f2 = img @ take k block"
      "st2 = ALRIOS_AUDIT_OK \<longrightarrow> k = length block"
    using k2 c by (auto simp: file_put_inside)
  show ?thesis
  proof (cases "st2 = ALRIOS_AUDIT_OK")
    case True
    then have "sync_fd f2 = (st3, f3)" using sy by simp
    from sync_fd_result [OF this] show ?thesis
      using k2 k True c by (auto simp: same_fd_def same_file_def)
  next
    case False
    then show ?thesis using sy k2 k c by auto
  qed
qed

lemma rollback_result:
  assumes t: "truncate_fd f3 (length img) = (st4, f4)" and c: "content f3 = img @ written"
    and sy: "(if st4 = ALRIOS_AUDIT_OK then sync_fd f4 else (st4, f4)) = (st5, f5)"
  shows "access f5 = access f3 \<and> regular f5 = regular f3 \<and> held f5 = held f3 \<and> pos f5 = pos f3 \<and>
    (content f5 = img \<or> content f5 = img @ written) \<and> (st5 = ALRIOS_AUDIT_OK \<longrightarrow> content f5 = img)"
proof -
  note k4 = truncate_fd_result [OF t, unfolded c, simplified]
  show ?thesis
  proof (cases "st4 = ALRIOS_AUDIT_OK")
    case True
    then have "sync_fd f4 = (st5, f5)" using sy by simp
    from sync_fd_result [OF this] show ?thesis
      using k4 True c by (auto simp: same_fd_def same_file_def)
  next
    case False
    then show ?thesis using sy k4 c by auto
  qed
qed

text \<open>
  The outcome of append on the file content: \<open>after\<close> holds the old chain or the chain with
  the new block, and possibly what is left of a record that was not written completely.
\<close>

definition append_outcome :: "digest \<Rightarrow> bytes \<Rightarrow> bytes \<Rightarrow> u64 \<Rightarrow> bytes \<Rightarrow> bool" where
  "append_outcome sha before after ts q \<longleftrightarrow>
     after = before \<or>
     (\<exists>bs rest. log_of sha before bs rest \<and>
        (after = chain_image sha bs \<or>
         (let b = next_block sha bs ts q
          in valid_block sha b \<and> (\<exists>k. after = chain_image sha bs @ take k (block_of sha b)))))"

lemma append_locked_result:
  assumes run: "append_locked sha env f ts p len = (status, md, g)"
    and p: "p = None \<longrightarrow> len = 0" "\<forall>a q. p = Some (a, q) \<longrightarrow> len \<le> length q"
  shows "access g = access f \<and> regular g = regular f \<and> held g = held f \<and> pos g = pos f \<and>
    append_outcome sha (content f) (content g) ts (payload_bytes p len) \<and>
    (status = ALRIOS_AUDIT_OK \<longrightarrow>
      (\<exists>bs rest. log_of sha (content f) bs rest \<and>
        (let b = next_block sha bs ts (payload_bytes p len)
         in chain sha (bs @ [b]) \<and> content g = chain_image sha (bs @ [b]) \<and> md = metadata_of sha b)))"
proof -
  obtain st chainp f1 where sc: "scan_locked sha env f True = (st, chainp, f1)" by (metis prod_cases3)
  note r1 = scan_locked_result [OF sc]
  show ?thesis
  proof (cases "st = ALRIOS_AUDIT_OK")
    case False
    then show ?thesis using run sc r1 by (auto simp: append_locked_def append_outcome_def)
  next
    case True
    then obtain bs rest where lg: "log_of sha (content f) bs rest" and c1: "content f1 = chain_image sha bs"
      and ch: "chainp = Some (summary sha bs (rest \<noteq> []))" using r1 by blast
    have chain: "chain sha bs" using lg by (simp add: log_of_def)
    define img where "img = chain_image sha bs"
    have seq: "(if (of_nat (length bs) :: u64) = 0 then 1 else of_nat (length bs) + 1) = 1 + (of_nat (length bs) :: u64)"
      by simp
    have base: "append_outcome sha (content f) (content f1) ts q" for q
      using lg c1 by (auto simp: append_outcome_def)
    obtain st2 wire n md2 where enc: "alrios_audit_block_encode sha
        (Some (last_hash_at env, tip sha (zeros 32) bs)) (1 + of_nat (length bs)) ts
        p len (Some (malloc env (length img) (136 + len), zeros (136 + len))) (136 + len)
        True (Some (metadata_at env)) = (st2, wire, n, md2)" by (metis prod_cases4)
    obtain st3 f2 where w: "write_exact_at f1 (take n (the wire)) (length img) 0 = (st3, f2)" by fastforce
    obtain st4 f3 where sy: "(if st3 = ALRIOS_AUDIT_OK then sync_fd f2 else (st3, f2)) = (st4, f3)" by fastforce
    obtain st5 f4 where tr: "truncate_fd f3 (length img) = (st5, f4)" by fastforce
    obtain st6 f5 where sy2: "(if st5 = ALRIOS_AUDIT_OK then sync_fd f4 else (st5, f4)) = (st6, f5)" by fastforce
    let ?over = "(of_nat (length bs) :: u64) = -1 \<or> INT64_MAX - 136 < length img \<or> INT64_MAX - length img - 136 < len"
    have eq: "append_locked sha env f ts p len =
      (if ?over then (ALRIOS_AUDIT_ERR_OVERFLOW, zero_metadata, f1)
       else if malloc env (length img) (136 + len) = 0 then (ALRIOS_AUDIT_ERR_CAPACITY, zero_metadata, f1)
       else if st2 \<noteq> ALRIOS_AUDIT_OK then (st2, zero_metadata, f1)
       else if st4 \<noteq> ALRIOS_AUDIT_OK
       then (if st6 \<noteq> ALRIOS_AUDIT_OK then st6 else st4, zero_metadata, f5)
       else (ALRIOS_AUDIT_OK, md2, f3))"
      using sy sy2
      by (simp add: append_locked_def sc True ch summary_def img_def [symmetric] Let_def seq AUDIT_WIRE_MIN_def
          enc w tr cong: if_cong)
    show ?thesis
    proof (cases "\<not> ?over \<and> malloc env (length img) (136 + len) \<noteq> 0 \<and> st2 = ALRIOS_AUDIT_OK")
      case False
      then show ?thesis using run eq r1 base by (auto split: if_splits)
    next
      case go: True
      define b where "b = next_block sha bs ts (payload_bytes p len)"
      have b: "valid_block sha b" "wire = Some (block_of sha b)" "n = length (block_of sha b)" "md2 = metadata_of sha b"
        using encode_next [OF chain p enc [unfolded go [THEN conjunct2, THEN conjunct2]]]
        by (simp_all add: b_def Let_def)
      have w': "write_exact_at f1 (block_of sha b) (length img) 0 = (st3, f2)" using w b by simp
      note r3 = write_block_result [OF w' c1 [folded img_def] sy]
      then obtain k where k: "content f3 = img @ take k (block_of sha b)"
          "st4 = ALRIOS_AUDIT_OK \<longrightarrow> k = length (block_of sha b)" by blast
      note r5 = rollback_result [OF tr k(1) sy2]
      have any: "append_outcome sha (content f) (img @ take j (block_of sha b)) ts (payload_bytes p len)"
        "append_outcome sha (content f) img ts (payload_bytes p len)" for j
        using lg b(1) by (auto simp: append_outcome_def b_def img_def Let_def)
      show ?thesis
      proof (cases "st4 = ALRIOS_AUDIT_OK")
        case True
        then have res: "status = ALRIOS_AUDIT_OK" "md = md2" "g = f3" using run eq go by auto
        have "content g = chain_image sha (bs @ [b])" "md = metadata_of sha b" "chain sha (bs @ [b])"
          using res k True b(1,4) chain_next [OF chain b(1) [unfolded b_def]] by (simp_all add: img_def b_def)
        moreover have "append_outcome sha (content f) (content g) ts (payload_bytes p len)"
          using any(1) [of k] k(1) res by simp
        ultimately show ?thesis using r1 r3 res lg by (auto simp: Let_def b_def)
      next
        case False
        then have res: "g = f5" "status \<noteq> ALRIOS_AUDIT_OK" using run eq go by (auto split: if_splits)
        then show ?thesis using r1 r3 r5 any by auto
      qed
    qed
  qed
qed

section \<open>A log content has one reading\<close>

lemma incomplete_no_block:
  assumes "rest = [] \<or> incomplete rest" and b: "valid_block sha b"
  shows "rest \<noteq> block_of sha b @ xs"
proof
  assume eq: "rest = block_of sha b @ xs"
  have len: "length rest = 136 + length (b_payload b) + length xs" using eq length_block_of [OF b] by simp
  have "take 104 rest = header_of sha b" using eq length_header_of [OF b] by (simp add: block_of_def)
  then have "fst (snd (decode_header (Some (take 104 rest)) 104)) = 136 + length (b_payload b)"
    using decode_header_block [OF b, of 104 "[]"] by simp
  then show False using assms(1) len by (auto simp: incomplete_def)
qed

lemma linked_log_unique:
  "linked sha p1 s1 bs \<Longrightarrow> linked sha p2 s2 cs \<Longrightarrow> rest = [] \<or> incomplete rest \<Longrightarrow>
    rest' = [] \<or> incomplete rest' \<Longrightarrow> chain_image sha bs @ rest = chain_image sha cs @ rest' \<Longrightarrow>
    bs = cs \<and> rest = rest'"
proof (induction bs arbitrary: cs p1 s1 p2 s2)
  case Nil
  then show ?case
    using incomplete_no_block [OF Nil.prems(3)] by (cases cs) (auto simp: chain_image_def)
next
  case (Cons b bs)
  note b = Cons.prems(1) [simplified]
  have "cs \<noteq> []"
    using incomplete_no_block [OF Cons.prems(4), of sha b "chain_image sha bs @ rest"] b Cons.prems(5) by (auto simp: chain_image_def)
  then obtain c cs' where cs: "cs = c # cs'" by (cases cs) auto
  note c = Cons.prems(2) [unfolded cs, simplified]
  have eq: "block_of sha b @ (chain_image sha bs @ rest) = block_of sha c @ (chain_image sha cs' @ rest')"
    using Cons.prems(5) by (simp add: cs chain_image_def)
  have "b = c" and rest: "chain_image sha bs @ rest = chain_image sha cs' @ rest'"
    using audit_record.prefix_free [OF _ _ eq] b c by auto
  then show ?case using Cons.IH [OF _ _ Cons.prems(3,4) rest] b c by (auto simp: cs)
qed

lemma log_unique: "log_of sha x bs rest \<Longrightarrow> log_of sha x cs rest' \<Longrightarrow> bs = cs \<and> rest = rest'"
  unfolding log_of_def chain_def using linked_log_unique by metis

lemma log_partial:
  assumes "chain sha bs" and b: "b = next_block sha bs ts q" "valid_block sha b"
  shows "\<exists>bs' rest'. log_of sha (chain_image sha bs @ take k (block_of sha b)) bs' rest' \<and>
    (bs' = bs \<or> bs' = bs @ [b])"
proof -
  consider "k = 0" | "0 < k" "k < length (block_of sha b)" | "length (block_of sha b) \<le> k" by linarith
  then show ?thesis
  proof cases
    case 1
    then show ?thesis using assms by (auto simp: log_of_def)
  next
    case 2
    then show ?thesis using assms incomplete_prefix [OF b(2)] by (auto simp: log_of_def)
  next
    case 3
    then show ?thesis using assms chain_next [of sha bs ts q] by (intro exI [of _ "bs @ [b]"]) (auto simp: log_of_def)
  qed
qed

section \<open>A concrete log\<close>

text \<open>The inputs of the witnesses: a constant digest, an environment and a log of one block.\<close>

definition demo_sha :: digest where
  "demo_sha m = Some (zeros 32)"

definition demo_env :: heap_env where
  "demo_env = \<lparr>malloc = (\<lambda>i n. 65536), metadata_at = 256, last_hash_at = 512\<rparr>"

definition demo_log :: "outcome list \<Rightarrow> bytes \<Rightarrow> posix_fd" where
  "demo_log sc bs = \<lparr>content = bs, pos = 0, access = O_RDWR, regular = True, held = None, script = sc,
     errno = NoError\<rparr>"

definition demo_block :: audit_block where
  "demo_block = \<lparr>b_prev = zeros 32, b_seq = 1, b_ts = 77, b_payload = [1, 2, 3]\<rparr>"

lemma demo_block_valid: "valid_block demo_sha demo_block"
  by (simp add: valid_block_def demo_block_def digest_ok_def hash_of_def demo_sha_def limits)

lemma demo_block_chain: "chain demo_sha [demo_block]"
  using demo_block_valid by (simp add: chain_def) (simp add: demo_block_def)

section \<open>The descriptor operations\<close>

lemma fd_mode_some: "fd_mode_valid (Some f) w = (ok, fd1) \<Longrightarrow> \<exists>f1. fd1 = Some f1 \<and> same_fd f f1"
  by (auto simp: fd_mode_valid_def same_fd_def dest!: sys_call_keeps split: prod.splits)

lemma unlock_fd_result: "unlock_fd f = (st, g) \<Longrightarrow>
    same_file f g \<and> pos g = pos f \<and> (st = ALRIOS_AUDIT_OK \<longrightarrow> held g = None)"
  by (auto simp: unlock_fd_def dest!: sys_lock_keeps split: prod.splits if_splits)

text \<open>A chain operation is its scan, between two calls that do not touch the file.\<close>

lemma chain_operation_cases:
  assumes "chain_operation sha env (Some f) rec True = (status, result, fd)"
  obtains (Early) g where "fd = Some g" "content g = content f" "pos g = pos f" "status \<noteq> ALRIOS_AUDIT_OK"
    | (Scan) f2 st r f3 g where "fd = Some g" "content f2 = content f" "pos f2 = pos f"
      "scan_locked sha env f2 rec = (st, r, f3)" "content g = content f3" "pos g = pos f3"
      "status = ALRIOS_AUDIT_OK \<longrightarrow> st = ALRIOS_AUDIT_OK \<and> result = the r \<and> held g = None"
proof -
  obtain ok fd1 where m: "fd_mode_valid (Some f) rec = (ok, fd1)" by fastforce
  then obtain f1 where f1: "fd1 = Some f1" "same_fd f f1" using fd_mode_some by blast
  obtain st2 f2 where l: "lock_fd f1 (if rec then F_WRLCK else F_RDLCK) = (st2, f2)" by fastforce
  note k2 = lock_fd_result [OF l]
  obtain st r f3 where sc: "scan_locked sha env f2 rec = (st, r, f3)" by (metis prod_cases3)
  obtain us g where u: "unlock_fd f3 = (us, g)" by fastforce
  note k4 = unlock_fd_result [OF u]
  show thesis
  proof (cases "ok \<and> st2 = ALRIOS_AUDIT_OK")
    case False
    show ?thesis
    proof (cases ok)
      case ok: True
      show ?thesis
        by (rule Early [of f2])
          (use assms m f1 l k2 False ok in \<open>auto simp: chain_operation_def same_fd_def same_file_def\<close>)
    next
      case nok: False
      show ?thesis
        by (rule Early [of f1])
          (use assms m f1 nok in \<open>auto simp: chain_operation_def same_fd_def same_file_def\<close>)
    qed
  next
    case True
    have eq: "(if st = ALRIOS_AUDIT_OK \<and> us \<noteq> ALRIOS_AUDIT_OK then us else st) = status"
      "fd = Some g" "status = ALRIOS_AUDIT_OK \<longrightarrow> result = the r"
      using assms m f1 l sc u True by (auto simp: chain_operation_def Let_def)
    show ?thesis
      by (rule Scan [of g f2 st r f3])
        (use f1 k2 sc k4 eq in \<open>auto simp: same_fd_def same_file_def split: if_splits\<close>)
  qed
qed

section \<open>Undisturbed runs\<close>

text \<open>For the size of a record, \<open>malloc\<close> succeeds with memory that is disjoint from the local \<open>metadata\<close>.\<close>

definition fresh :: "heap_env \<Rightarrow> bool" where
  "fresh env \<longleftrightarrow>
     (\<forall>i n. n \<le> AUDIT_WIRE_MAX \<longrightarrow>
        malloc env i n \<noteq> 0 \<and> \<not> ranges_overlap (malloc env i n) n (metadata_at env) METADATA_SIZE)"

lemma undisturbed_read:
  assumes "script f = []" "off + len \<le> length (content f)" "length (content f) \<le> INT64_MAX"
  shows "read_exact_at f len off [] = (ALRIOS_AUDIT_OK, take len (drop off (content f)), f)"
proof (cases "len = 0")
  case True
  then show ?thesis by (simp add: read_exact_at.simps [of f])
next
  case False
  have "min len SSIZE_MAX = len" using assms by (simp add: limits)
  moreover have "length (take len (drop off (content f))) = len" using assms by simp
  ultimately show ?thesis
    using assms False
    by (subst read_exact_at.simps) (simp add: limits, subst read_exact_at.simps, simp)
qed

lemma u64_of_nat_nonzero: "0 < k \<Longrightarrow> k < 2 ^ 64 \<Longrightarrow> (of_nat k :: u64) \<noteq> 0"
proof
  assume k: "0 < k" "k < 2 ^ 64" and "(of_nat k :: u64) = 0"
  then have "unat (of_nat k :: u64) = 0" by simp
  then show False using k by (simp add: unsigned_of_nat take_bit_nat_eq_self)
qed

lemma chain_length_word:
  assumes "chain sha bs" "length (chain_image sha bs) \<le> INT64_MAX"
  shows "of_nat (length bs) \<noteq> (-1 :: u64)" "1 + of_nat (length bs) \<noteq> (-1 :: u64)"
proof -
  have "136 * length bs \<le> INT64_MAX"
    using assms chain_image_length [of sha "zeros 32" 1 bs] by (simp add: chain_def)
  then have "length bs + 2 < 2 ^ 64" by (simp add: limits)
  then have "(of_nat (length bs + 1) :: u64) \<noteq> 0" "(of_nat (length bs + 2) :: u64) \<noteq> 0"
    by (intro u64_of_nat_nonzero; simp)+
  then show "of_nat (length bs) \<noteq> (-1 :: u64)" "1 + of_nat (length bs) \<noteq> (-1 :: u64)"
    by (simp_all add: eq_neg_iff_add_eq_0 algebra_simps)
qed

lemma scan_block_complete:
  assumes inv: "scanned sha f s bs" and s: "script f = []" and max: "length (content f) \<le> INT64_MAX"
    and env: "fresh env" and b: "chain sha (bs @ [b])"
    and c: "drop (scan_offset s) (content f) = block_of sha b @ rest"
  shows "\<exists>s'. scan_block sha env (length (content f)) f s = (None, s', f) \<and> scan_offset s < scan_offset s'"
proof -
  define off where "off = scan_offset s"
  let ?n = "136 + length (b_payload b)"
  have v: "valid_block sha b" "b_prev b = tip sha (zeros 32) bs" "b_seq b = 1 + of_nat (length bs)"
    using b by (auto simp: chain_snoc)
  note len = length_block_of [OF v(1)]
  have size: "length (content f) - off = ?n + length rest" "off + ?n \<le> length (content f)"
    using arg_cong [OF c, of length] len by (auto simp: off_def)
  have rd: "read_exact_at f k off [] = (ALRIOS_AUDIT_OK, take k (block_of sha b @ rest), f)" if "k \<le> ?n" for k
    using undisturbed_read [OF s, of off k] that size max c by (simp add: off_def)
  have hd: "take 104 (block_of sha b @ rest) = header_of sha b" "take 8 (block_of sha b @ rest) = audit_magic"
    using length_header_of [OF v(1)] by (simp_all add: block_of_def) (simp add: header_of_def)
  have dec: "decode_header (Some (header_of sha b)) 104 = (ALRIOS_AUDIT_OK, ?n, length (b_payload b))"
    using decode_header_block [OF v(1), of 104 "[]"] by simp
  have al: "malloc env off ?n \<noteq> 0" "\<not> ranges_overlap (malloc env off ?n) ?n (metadata_at env) METADATA_SIZE"
    using env valid_blockD(3) [OF v(1)] by (auto simp: fresh_def AUDIT_WIRE_MAX_def)
  have ver: "alrios_audit_block_verify sha (Some (malloc env off ?n, block_of sha b)) ?n (Some (metadata_at env)) =
      (ALRIOS_AUDIT_OK, metadata_of sha b)"
    using verify_block [OF v(1), where m = "Some (metadata_at env)" and wire_at = "malloc env off ?n"] al len by simp
  have seq: "1 + (of_nat (length bs) :: u64) \<noteq> -1"
    by (rule chain_length_word) (use inv scanned_content [OF inv] max in \<open>auto simp: scanned_def\<close>)
  have "\<not> UINT64_MAX - ?n < off" using size max by (simp add: limits)
  then show ?thesis
    using inv v size al rd [of 8] rd [of 104] rd [of ?n] len hd dec ver seq
    by (simp add: scan_block_def off_def [symmetric] AUDIT_HEADER_def memeq_def metadata_of_def scanned_def)
qed

lemma chain_append_prefix: "chain sha (bs @ cs) \<Longrightarrow> chain sha bs"
  by (induction cs rule: rev_induct) (auto simp: chain_snoc simp flip: append_assoc)

lemma scan_loop_complete:
  assumes "script f = []" "length (content f) \<le> INT64_MAX" "fresh env"
  shows "scanned sha f s bs \<Longrightarrow> chain sha (bs @ cs) \<Longrightarrow> content f = chain_image sha (bs @ cs) \<Longrightarrow>
    \<exists>s'. scan_loop sha env (length (content f)) f s = (None, s', f)"
proof (induction cs arbitrary: s bs)
  case Nil
  then have "\<not> scan_offset s < length (content f)" by (simp add: scanned_def)
  then show ?case by (simp add: scan_loop.simps [of _ _ _ f])
next
  case (Cons b cs)
  have off: "scan_offset s = length (chain_image sha bs)" using Cons.prems(1) by (simp add: scanned_def)
  have c: "drop (scan_offset s) (content f) = block_of sha b @ chain_image sha cs"
    unfolding off Cons.prems(3) by (simp add: chain_image_def)
  have b: "chain sha (bs @ [b])" using chain_append_prefix [of sha "bs @ [b]" cs] Cons.prems(2) by simp
  obtain s1 where s1: "scan_block sha env (length (content f)) f s = (None, s1, f)"
    using scan_block_complete [OF Cons.prems(1) assms b c] by blast
  have ne: "block_of sha b \<noteq> []"
    using audit_record.enc_nonempty b by (auto simp: chain_snoc)
  then have lt: "scan_offset s < length (content f)"
    using c by (metis append_is_Nil_conv drop_all not_le)
  obtain b' where b': "scanned sha f s1 (bs @ [b'])"
    using scan_block_result [OF Cons.prems(1) refl lt s1] by blast
  define xs where "xs = drop (scan_offset s1) (content f)"
  have "chain sha (bs @ [b'])" and img: "content f = chain_image sha (bs @ [b']) @ xs"
    using b' scanned_content [OF b'] by (auto simp: scanned_def xs_def)
  then have v: "valid_block sha b'" "valid_block sha b" using b by (auto simp: chain_snoc)
  have "block_of sha b' @ xs = block_of sha b @ chain_image sha cs"
    using img Cons.prems(3) by (simp add: chain_image_def)
  then have "b' = b" using audit_record.prefix_free [OF v] by blast
  then have "scanned sha f s1 (bs @ [b])" using b' by simp
  from Cons.IH [OF this] show ?case
    using Cons.prems s1 lt by (simp add: scan_loop.simps [of _ _ _ f s])
qed

lemma scan_undisturbed:
  assumes "chain sha bs" "content f = chain_image sha bs" "length (content f) \<le> INT64_MAX"
    and "script f = []" "regular f" "fresh env"
  shows "scan_locked sha env f rt = (ALRIOS_AUDIT_OK, Some (summary sha bs False), f)"
proof -
  have sz: "get_regular_file_size f = (ALRIOS_AUDIT_OK, length (content f), f)"
    using assms(3-5) by (simp add: get_regular_file_size_def sys_fstat_def)
  obtain s' where lp: "scan_loop sha env (length (content f)) f scan_start = (None, s', f)"
    using scan_loop_complete [OF assms(4,3,6) scanned_start, of sha bs] assms(1,2) by auto
  obtain cs where cs: "scanned sha f s' cs" "scan_offset s' = length (content f)"
    using scan_loop_result [OF scanned_start refl lp] by blast
  have "content f = chain_image sha cs" using scanned_content [OF cs(1)] cs(2) by simp
  then have "cs = bs" using chain_inject cs(1) assms(1,2) by (auto simp: scanned_def)
  then show ?thesis using sz lp scan_result_summary [OF cs(1)] by (simp add: scan_locked_def)
qed

lemma verify_undisturbed:
  assumes "chain sha bs" "content f = chain_image sha bs" "length (content f) \<le> INT64_MAX"
    and "script f = []" "regular f" "access f \<noteq> O_WRONLY" "fresh env"
  shows "\<exists>g. alrios_audit_chain_verify_fd sha env (Some f) True = (ALRIOS_AUDIT_OK, summary sha bs False, Some g)"
proof -
  let ?f = "f\<lparr>held := Some F_RDLCK\<rparr>"
  have m: "fd_mode_valid (Some f) False = (True, Some f)"
    using assms(4,6) by (cases "access f") (simp_all add: fd_mode_valid_def)
  have l: "lock_fd f F_RDLCK = (ALRIOS_AUDIT_OK, ?f)"
    using assms(4) by (simp add: lock_fd.simps [of f] sys_lock_def)
  have sc: "scan_locked sha env ?f False = (ALRIOS_AUDIT_OK, Some (summary sha bs False), ?f)"
    using scan_undisturbed [OF assms(1), of ?f env False] assms by simp
  have "unlock_fd ?f = (ALRIOS_AUDIT_OK, f\<lparr>held := None\<rparr>)"
    using assms(4) by (simp add: unlock_fd_def sys_lock_def)
  then show ?thesis
    using m l sc by (simp add: alrios_audit_chain_verify_fd_def chain_operation_def)
qed

lemma demo_env_fresh: "fresh demo_env"
  by (auto simp: fresh_def demo_env_def ranges_overlap_def limits)

lemma demo_empty_chain: "chain demo_sha []"
  by (simp add: chain_def)

lemma demo_next_valid: "valid_block demo_sha (next_block demo_sha [] 77 [1, 2, 3])"
  by (simp add: valid_block_def next_block_def tip_def digest_ok_def hash_of_def demo_sha_def limits)

lemma undisturbed_write:
  assumes "script f = []" "off + length buf \<le> INT64_MAX" "buf \<noteq> []"
  shows "write_exact_at f buf off 0 = (ALRIOS_AUDIT_OK, f\<lparr>content := file_put (content f) off buf\<rparr>)"
proof -
  have "min (length buf) SSIZE_MAX = length buf" using assms by (simp add: limits)
  then show ?thesis
    using assms by (subst write_exact_at.simps) (simp add: limits, subst write_exact_at.simps, simp)
qed

lemma append_undisturbed:
  assumes ch: "chain sha bs" and c: "content f = chain_image sha bs" and v: "valid_block sha (next_block sha bs ts q)"
    and max: "length (content f) + 136 + length q \<le> INT64_MAX"
    and s: "script f = []" and "regular f" "access f = O_RDWR" and env: "fresh env"
    and ov: "\<forall>i. no_overlap (last_hash_at env) payload_at (length q) (malloc env i (136 + length q)) (Some (metadata_at env))"
  shows "\<exists>g. alrios_audit_chain_append_fd sha env (Some f) ts (Some (payload_at, q)) (length q) True =
    (ALRIOS_AUDIT_OK, metadata_of sha (next_block sha bs ts q), Some g)"
proof -
  let ?b = "next_block sha bs ts q" and ?f = "f\<lparr>held := Some F_WRLCK\<rparr>"
  let ?off = "length (chain_image sha bs)"
  have q: "length q \<le> 1048576" "b_payload ?b = q" using valid_blockD(3) [OF v] by (simp_all add: next_block_def)
  have m: "fd_mode_valid (Some f) True = (True, Some f)" using s assms(7) by (simp add: fd_mode_valid_def)
  have l: "lock_fd f F_WRLCK = (ALRIOS_AUDIT_OK, ?f)" using s by (simp add: lock_fd.simps [of f] sys_lock_def)
  have sc: "scan_locked sha env ?f True = (ALRIOS_AUDIT_OK, Some (summary sha bs False), ?f)"
    using scan_undisturbed [OF ch, of ?f env True] c max s assms(6) env by simp
  have al: "malloc env ?off (136 + length q) \<noteq> 0" using env q(1) by (auto simp: fresh_def AUDIT_WIRE_MAX_def)
  have enc: "alrios_audit_block_encode sha (Some (last_hash_at env, tip sha (zeros 32) bs)) (1 + of_nat (length bs)) ts
      (Some (payload_at, q)) (length q) (Some (malloc env ?off (136 + length q), zeros (136 + length q)))
      (136 + length q) True (Some (metadata_at env)) =
      (ALRIOS_AUDIT_OK, Some (block_of sha ?b), 136 + length q, metadata_of sha ?b)"
    using encode_eq [OF v, where p = "Some (payload_at, q)" and pe = "Some (payload_at, q)"
        and payload_at = payload_at and cap = "136 + length q" and out = "zeros (136 + length q)"
        and prev_at = "last_hash_at env" and out_at = "malloc env ?off (136 + length q)"
        and meta = "Some (metadata_at env)"] ov q(2)
    by (simp add: next_block_def)
  have len: "length (block_of sha ?b) = 136 + length q" using length_block_of [OF v] q(2) by simp
  then have w: "write_exact_at ?f (block_of sha ?b) ?off 0 =
      (ALRIOS_AUDIT_OK, ?f\<lparr>content := file_put (content f) ?off (block_of sha ?b)\<rparr>)"
    using undisturbed_write [of ?f ?off "block_of sha ?b"] audit_record.enc_nonempty [OF v] s max c by auto
  have seq: "of_nat (length bs) \<noteq> (-1 :: u64)"
    by (rule chain_length_word [OF ch]) (use c max in simp)
  have seq1: "(if (of_nat (length bs) :: u64) = 0 then 1 else of_nat (length bs) + 1) = 1 + (of_nat (length bs) :: u64)"
    by simp
  have sy: "sync_fd g = (ALRIOS_AUDIT_OK, g)" if "script g = []" for g
    using that by (simp add: sync_fd.simps [of g] sys_fsync_def)
  have ap: "append_locked sha env ?f ts (Some (payload_at, q)) (length q) =
      (ALRIOS_AUDIT_OK, metadata_of sha ?b, ?f\<lparr>content := file_put (content f) ?off (block_of sha ?b)\<rparr>)"
    using al seq max [unfolded c] s
    by (simp add: append_locked_def sc summary_def Let_def AUDIT_WIRE_MIN_def seq1 enc len w sy
        cong: if_cong) (simp add: limits)
  show ?thesis
    using m l ap q(1) s
    by (simp add: alrios_audit_chain_append_fd_def AUDIT_PAYLOAD_MAX_def unlock_fd_def sys_lock_def)
qed

lemma verify_fd_result:
  assumes "alrios_audit_chain_verify_fd sha env (Some f) True = (status, result, fd)"
  shows "\<exists>g. fd = Some g \<and> content g = content f \<and> pos g = pos f \<and>
    (status = ALRIOS_AUDIT_OK \<longrightarrow> held g = None \<and> length (content f) \<le> INT64_MAX \<and>
      (\<exists>bs. chain sha bs \<and> content f = chain_image sha bs \<and> result = summary sha bs False))"
  using assms unfolding alrios_audit_chain_verify_fd_def
proof (cases rule: chain_operation_cases)
  case (Early g)
  then show ?thesis by auto
next
  case (Scan f2 st r f3 g)
  show ?thesis using scan_locked_result [OF Scan(4)] Scan by (auto simp: log_of_def)
qed

text \<open>
  C11: Verification is sound and read-only. Whatever it returns and whatever the kernel
  answers, the file and the descriptor's offset are as before. If it returns OK, the
  file is exactly the image of a chain of valid blocks (consecutive numbers from 1,
  each carrying its predecessor's hash, both digests right), the result counts that
  chain and reports its last hash, and the lock is released.
\<close>

theorem audit_verify_sound:
  assumes "alrios_audit_chain_verify_fd sha env (Some f) True = (status, result, fd)"
  shows "\<exists>g. fd = Some g \<and> content g = content f \<and> pos g = pos f \<and>
    (status = ALRIOS_AUDIT_OK \<longrightarrow> held g = None \<and>
      (\<exists>bs. chain sha bs \<and> content f = chain_image sha bs \<and> result = summary sha bs False))"
  using verify_fd_result [OF assms] by blast

theorem audit_verify_sound_witness:
  "\<exists>result fd. alrios_audit_chain_verify_fd demo_sha demo_env
      (Some (demo_log [] (block_of demo_sha demo_block))) True = (ALRIOS_AUDIT_OK, result, fd) \<and>
    (\<exists>bs. chain demo_sha bs \<and> block_of demo_sha demo_block = chain_image demo_sha bs \<and>
      result = summary demo_sha bs False)"
proof -
  let ?f = "demo_log [] (block_of demo_sha demo_block)"
  obtain g where r: "alrios_audit_chain_verify_fd demo_sha demo_env (Some ?f) True =
      (ALRIOS_AUDIT_OK, summary demo_sha [demo_block] False, Some g)"
    using verify_undisturbed [OF demo_block_chain _ _ _ _ _ demo_env_fresh, of ?f] length_block_of [OF demo_block_valid]
    by (auto simp: demo_log_def chain_image_def limits demo_block_def)
  show ?thesis using audit_verify_sound [OF r] r by (simp add: demo_log_def)
qed


lemma garbage_no_log: "\<not> log_of demo_sha [7] bs rest"
proof
  assume l: "log_of demo_sha [7] bs rest"
  show False
  proof (cases bs)
    case Nil
    then show ?thesis using l by (auto simp: log_of_def incomplete_def audit_magic_def)
  next
    case (Cons b cs)
    then have "136 \<le> length (chain_image demo_sha bs)"
      using l chain_image_length [of demo_sha "zeros 32" 1 bs] by (simp add: log_of_def chain_def)
    moreover have "chain_image demo_sha bs @ rest = [7]" using l by (simp add: log_of_def)
    then have "length (chain_image demo_sha bs @ rest) = 1" by simp
    ultimately show ?thesis by simp
  qed
qed


text \<open>Append, too, is its locked part between calls that do not touch the file.\<close>

lemma append_fd_cases:
  assumes run: "alrios_audit_chain_append_fd sha env (Some f) ts p len True = (status, md, fd)"
  obtains (Early) g where "fd = Some g" "content g = content f" "pos g = pos f" "status \<noteq> ALRIOS_AUDIT_OK"
    | (Locked) f2 st md3 f3 g where "fd = Some g" "p = None \<longrightarrow> len = 0" "content f2 = content f" "pos f2 = pos f"
      "append_locked sha env f2 ts p len = (st, md3, f3)" "content g = content f3" "pos g = pos f3"
      "status = ALRIOS_AUDIT_OK \<longrightarrow> st = ALRIOS_AUDIT_OK \<and> md = md3 \<and> held g = None"
proof (cases "p = None \<and> len \<noteq> 0 \<or> AUDIT_PAYLOAD_MAX < len")
  case True
  then show ?thesis using run by (intro Early [of f]) (auto simp: alrios_audit_chain_append_fd_def)
next
  case args: False
  obtain ok fd1 where m: "fd_mode_valid (Some f) True = (ok, fd1)" by fastforce
  then obtain f1 where f1: "fd1 = Some f1" "same_fd f f1" using fd_mode_some by blast
  obtain st2 f2 where l: "lock_fd f1 F_WRLCK = (st2, f2)" by fastforce
  note k2 = lock_fd_result [OF l]
  obtain st md3 f3 where ap: "append_locked sha env f2 ts p len = (st, md3, f3)" by (metis prod_cases3)
  obtain us g where u: "unlock_fd f3 = (us, g)" by fastforce
  note k4 = unlock_fd_result [OF u]
  have eq: "alrios_audit_chain_append_fd sha env (Some f) ts p len True =
    (if \<not> ok then (ALRIOS_AUDIT_ERR_INVALID_ARGUMENT, zero_metadata, Some f1)
     else if st2 \<noteq> ALRIOS_AUDIT_OK then (st2, zero_metadata, Some f2)
     else if st = ALRIOS_AUDIT_OK \<and> us \<noteq> ALRIOS_AUDIT_OK then (us, zero_metadata, Some g)
     else (st, md3, Some g))"
    using args ap
    by (cases p) (simp_all add: alrios_audit_chain_append_fd_def m f1 l u cong: if_cong)
  consider "\<not> ok" | "ok" "st2 \<noteq> ALRIOS_AUDIT_OK" | "ok" "st2 = ALRIOS_AUDIT_OK" by blast
  then show ?thesis
  proof cases
    case 1
    show ?thesis by (rule Early [of f1]) (use 1 run eq f1 in \<open>auto simp: same_fd_def same_file_def\<close>)
  next
    case 2
    show ?thesis by (rule Early [of f2]) (use 2 run eq f1 k2 in \<open>auto simp: same_fd_def same_file_def\<close>)
  next
    case 3
    show ?thesis
      by (rule Locked [of g f2 st md3 f3])
        (use 3 args run eq f1 k2 k4 ap in \<open>auto simp: same_fd_def same_file_def split: if_splits\<close>)
  qed
qed

text \<open>
  C13: Append is consistent under every failure. Starting from a log (a chain and possibly
  an incomplete record left by an earlier crash), whatever the kernel answers, the file
  is a log again, with the old chain or the old chain and the new block, never anything
  else; the descriptor's offset is kept. With OK the file is exactly the old chain with
  the new block, the lock is released, and the metadata describes the block.
\<close>

theorem audit_append_consistent:
  assumes run: "alrios_audit_chain_append_fd sha env (Some f) ts p len True = (status, md, fd)"
    and payload: "\<forall>a q. p = Some (a, q) \<longrightarrow> len \<le> length q"
    and log: "log_of sha (content f) bs rest"
  shows "\<exists>g bs' rest'. fd = Some g \<and> pos g = pos f \<and> log_of sha (content g) bs' rest' \<and>
    (bs' = bs \<or> bs' = bs @ [next_block sha bs ts (payload_bytes p len)]) \<and>
    (status = ALRIOS_AUDIT_OK \<longrightarrow>
      bs' = bs @ [next_block sha bs ts (payload_bytes p len)] \<and> rest' = [] \<and> held g = None \<and>
      md = metadata_of sha (next_block sha bs ts (payload_bytes p len)))"
  using run
proof (cases rule: append_fd_cases)
  case (Early g)
  then show ?thesis using log by (intro exI [of _ g] exI [of _ bs] exI [of _ rest]) auto
next
  case (Locked f2 st md3 f3 g)
  let ?b = "next_block sha bs ts (payload_bytes p len)"
  note r = append_locked_result [OF Locked(5,2) payload, unfolded Locked(3,4)]
  have ch: "chain sha bs" using log by (simp add: log_of_def)
  have u: "log_of sha (content f) bs2 rest2 \<longleftrightarrow> bs2 = bs \<and> rest2 = rest" for bs2 rest2
    using log_unique [OF _ log] log by blast
  show ?thesis
  proof (cases "status = ALRIOS_AUDIT_OK")
    case True
    then have "chain sha (bs @ [?b])" "content f3 = chain_image sha (bs @ [?b])" "md3 = metadata_of sha ?b"
      using r Locked(8) u by (auto simp: Let_def)
    then show ?thesis
      using r Locked(1,6-8) True by (intro exI [of _ g] exI [of _ "bs @ [?b]"]) (auto simp: log_of_def)
  next
    case False
    have "append_outcome sha (content f) (content f3) ts (payload_bytes p len)" using r by blast
    then consider "content f3 = content f" | "content f3 = chain_image sha bs"
      | k where "valid_block sha ?b" "content f3 = chain_image sha bs @ take k (block_of sha ?b)"
      by (auto simp: append_outcome_def Let_def u)
    then have "\<exists>bs' rest'. log_of sha (content f3) bs' rest' \<and> (bs' = bs \<or> bs' = bs @ [?b])"
    proof cases
      case 1
      then show ?thesis using log by auto
    next
      case 2
      then show ?thesis using ch by (auto simp: log_of_def)
    next
      case 3
      then show ?thesis using log_partial [OF ch refl 3(1), of k] by simp
    qed
    then show ?thesis using r Locked(1,6,7) False by auto
  qed
qed

theorem audit_append_consistent_witness:
  "\<exists>md g. alrios_audit_chain_append_fd demo_sha demo_env (Some (demo_log [] [])) 77 (Some (1024, [1, 2, 3]))
      (length [1, 2, 3 :: u8]) True = (ALRIOS_AUDIT_OK, md, Some g) \<and>
    log_of demo_sha (content g) [next_block demo_sha [] 77 [1, 2, 3]] []"
proof -
  obtain g where r: "alrios_audit_chain_append_fd demo_sha demo_env (Some (demo_log [] [])) 77 (Some (1024, [1, 2, 3]))
      (length [1, 2, 3 :: u8]) True = (ALRIOS_AUDIT_OK, metadata_of demo_sha (next_block demo_sha [] 77 [1, 2, 3]), Some g)"
    using append_undisturbed [OF demo_empty_chain _ demo_next_valid _ _ _ _ demo_env_fresh, of "demo_log [] []" 1024]
    by (auto simp: demo_log_def demo_env_def no_overlap_def ranges_overlap_def limits)
  have "log_of demo_sha (content (demo_log [] [])) [] []" by (simp add: log_of_def demo_log_def chain_def)
  from audit_append_consistent [OF r _ this] show ?thesis using r by (auto simp: payload_bytes_def)
qed

text \<open>
  Append succeeds when it can. On a log that is a chain, with calls that succeed, memory
  that is available and disjoint from the arguments, and room in the file, append
  returns OK with the metadata of the next block.
\<close>

theorem audit_append_succeeds:
  assumes "chain sha bs" "content f = chain_image sha bs" "valid_block sha (next_block sha bs ts q)"
    and "length (content f) + 136 + length q \<le> INT64_MAX"
    and "script f = []" "regular f" "access f = O_RDWR" "fresh env"
    and "\<forall>i. no_overlap (last_hash_at env) payload_at (length q) (malloc env i (136 + length q)) (Some (metadata_at env))"
  shows "\<exists>g. alrios_audit_chain_append_fd sha env (Some f) ts (Some (payload_at, q)) (length q) True =
    (ALRIOS_AUDIT_OK, metadata_of sha (next_block sha bs ts q), Some g)"
  by (rule append_undisturbed [OF assms])

theorem audit_append_succeeds_witness:
  "\<exists>g. alrios_audit_chain_append_fd demo_sha demo_env (Some (demo_log [] [])) 77 (Some (1024, [1, 2, 3]))
      (length [1, 2, 3 :: u8]) True =
    (ALRIOS_AUDIT_OK, metadata_of demo_sha (next_block demo_sha [] 77 [1, 2, 3]), Some g)"
  by (rule audit_append_succeeds [OF demo_empty_chain _ demo_next_valid _ _ _ _ demo_env_fresh])
    (simp_all add: demo_log_def demo_env_def no_overlap_def ranges_overlap_def limits)

section \<open>Blocks\<close>

lemma ranges_overlap_sym: "ranges_overlap a n b m = ranges_overlap b m a n"
  by (auto simp: ranges_overlap_def)

text \<open>
  What is encoded verifies. For a valid block, an output buffer of the right size
  and objects that do not overlap it, encoding succeeds, writes the whole buffer, and
  verification of the buffer succeeds with the same metadata as encoding reported.
\<close>

theorem audit_block_roundtrip:
  assumes "valid_block sha b" and "length out = 136 + length (b_payload b)"
    and "no_overlap prev_at payload_at (length (b_payload b)) out_at (Some m_at)"
  shows "\<exists>wire. alrios_audit_block_encode sha (Some (prev_at, b_prev b)) (b_seq b) (b_ts b)
      (Some (payload_at, b_payload b)) (length (b_payload b)) (Some (out_at, out)) (length out) True (Some m_at) =
      (ALRIOS_AUDIT_OK, Some wire, length out, metadata_of sha b) \<and> length wire = length out \<and>
    alrios_audit_block_verify sha (Some (out_at, wire)) (length wire) (Some m_at) =
      (ALRIOS_AUDIT_OK, metadata_of sha b)"
proof -
  have "\<not> ranges_overlap out_at (length (block_of sha b)) m_at METADATA_SIZE"
    using assms length_block_of ranges_overlap_sym by (auto simp: no_overlap_def)
  then show ?thesis
    using encode_eq [OF assms(1), where p = "Some (payload_at, b_payload b)" and pe = "Some (payload_at, b_payload b)"
        and payload_at = payload_at and cap = "length out" and out = out and prev_at = prev_at and out_at = out_at
        and meta = "Some m_at"]
      verify_block [OF assms(1), where m = "Some m_at" and wire_at = out_at] assms length_block_of [OF assms(1)]
    by simp
qed

theorem audit_block_roundtrip_witness:
  "\<exists>wire. alrios_audit_block_encode demo_sha (Some (512, b_prev demo_block)) (b_seq demo_block) (b_ts demo_block)
      (Some (1024, b_payload demo_block)) (length (b_payload demo_block)) (Some (65536, zeros 139)) 139 True (Some 256) =
      (ALRIOS_AUDIT_OK, Some wire, 139, metadata_of demo_sha demo_block) \<and>
    alrios_audit_block_verify demo_sha (Some (65536, wire)) (length wire) (Some 256) =
      (ALRIOS_AUDIT_OK, metadata_of demo_sha demo_block)"
  using audit_block_roundtrip [OF demo_block_valid, of "zeros 139" 512 1024 65536 256]
  by (auto simp: demo_block_def no_overlap_def ranges_overlap_def limits)

text \<open>
  Verification accepts canonical images only. Accepted bytes are the image of
  exactly one block, that block is valid, and the reported metadata is its metadata: no
  two encodings of a block and no second reading of the bytes exist.
\<close>

theorem audit_verify_canonical:
  assumes "alrios_audit_block_verify sha (Some (wire_at, wire)) (length wire) (Some m_at) = (ALRIOS_AUDIT_OK, md)"
  shows "\<exists>b. valid_block sha b \<and> wire = block_of sha b \<and> md = metadata_of sha b \<and>
    (\<forall>c. valid_block sha c \<and> wire = block_of sha c \<longrightarrow> c = b)"
proof -
  note v = verify_sound [OF assms]
  have "c = parsed_block wire" if "valid_block sha c \<and> wire = block_of sha c" for c
    using parsed_block_of that by metis
  then show ?thesis using v by auto
qed

theorem audit_verify_canonical_witness:
  "\<exists>b. valid_block demo_sha b \<and> block_of demo_sha demo_block = block_of demo_sha b"
proof -
  have "alrios_audit_block_verify demo_sha (Some (65536, block_of demo_sha demo_block))
      (length (block_of demo_sha demo_block)) (Some 256) = (ALRIOS_AUDIT_OK, metadata_of demo_sha demo_block)"
    using verify_block [OF demo_block_valid, where m = "Some 256" and wire_at = 65536]
      length_block_of [OF demo_block_valid]
    by (simp add: ranges_overlap_def limits demo_block_def)
  from audit_verify_canonical [OF this] show ?thesis by blast
qed

section \<open>The last hash commits to the whole log\<close>

text \<open>A collision between two logs: a block of each with different sealed texts and the same hash.\<close>

definition logs_collide :: "digest \<Rightarrow> audit_block list \<Rightarrow> audit_block list \<Rightarrow> bool" where
  "logs_collide sha bs cs \<longleftrightarrow> (\<exists>b\<in>set bs. \<exists>c\<in>set cs.
     sealed_text sha b \<noteq> sealed_text sha c \<and> block_hash_of sha b = block_hash_of sha c)"

lemma block_hash_inject:
  assumes "valid_block sha b" "valid_block sha c" "sealed_text sha b = sealed_text sha c"
  shows "b = c"
proof -
  have "header_of sha b @ b_payload b = header_of sha c @ b_payload c"
    using assms(3) by (simp add: sealed_text_def)
  then have "block_of sha b = block_of sha c"
    unfolding block_of_def append_assoc [symmetric] using assms(3) by (simp add: block_hash_of_def)
  then show ?thesis using audit_record.enc_inject assms(1,2) by blast
qed

lemma chain_commits:
  "chain sha bs \<Longrightarrow> chain sha cs \<Longrightarrow> length bs = length cs \<Longrightarrow>
    tip sha (zeros 32) bs = tip sha (zeros 32) cs \<Longrightarrow> bs = cs \<or> logs_collide sha bs cs"
proof (induction bs arbitrary: cs rule: rev_induct)
  case Nil
  then show ?case by simp
next
  case (snoc b bs)
  then obtain c cs' where cs: "cs = cs' @ [c]" by (metis append_Nil2 length_0_conv rev_exhaust snoc_eq_iff_butlast)
  have ih: "chain sha bs" "valid_block sha b" "b_prev b = tip sha (zeros 32) bs"
    and "chain sha cs'" "valid_block sha c" "b_prev c = tip sha (zeros 32) cs'"
    and h: "block_hash_of sha b = block_hash_of sha c"
    using snoc.prems by (auto simp: cs chain_snoc tip_def)
  show ?case
  proof (cases "sealed_text sha b = sealed_text sha c")
    case True
    then have "b = c" using block_hash_inject ih(2) \<open>valid_block sha c\<close> by blast
    then have "bs = cs' \<or> logs_collide sha bs cs'"
      using snoc.IH [of cs'] snoc.prems(3) ih \<open>chain sha cs'\<close> \<open>b_prev c = _\<close> by (simp add: cs)
    then show ?thesis using \<open>b = c\<close> by (auto simp: cs logs_collide_def)
  next
    case False
    then show ?thesis using h by (auto simp: cs logs_collide_def)
  qed
qed

lemma chain_length_bound: "chain sha bs \<Longrightarrow> length (chain_image sha bs) \<le> INT64_MAX \<Longrightarrow> length bs < 2 ^ 64"
  using chain_image_length [of sha "zeros 32" 1 bs] by (simp add: chain_def limits)

text \<open>
  C14: The last hash commits to the log. Two log files that both verify, with the same
  number of blocks and the same last hash, have the same contents byte for byte, unless
  the two logs exhibit a collision of the digest: a block of one and a block of the other
  whose sealed texts differ and whose hashes are equal. Who knows the count and the last
  hash detects any altered, removed or reordered block.
\<close>

theorem audit_chain_commits:
  assumes f: "alrios_audit_chain_verify_fd sha env (Some f) True = (ALRIOS_AUDIT_OK, r, fd)"
    and g: "alrios_audit_chain_verify_fd sha env' (Some g) True = (ALRIOS_AUDIT_OK, r', gd)"
    and same: "block_count r = block_count r'" "last_hash r = last_hash r'"
  shows "content f = content g \<or>
    (\<exists>bs cs. content f = chain_image sha bs \<and> content g = chain_image sha cs \<and> logs_collide sha bs cs)"
proof -
  obtain bs where bs: "chain sha bs" "content f = chain_image sha bs" "r = summary sha bs False"
    "length (content f) \<le> INT64_MAX" using verify_fd_result [OF f] by blast
  obtain cs where cs: "chain sha cs" "content g = chain_image sha cs" "r' = summary sha cs False"
    "length (content g) \<le> INT64_MAX" using verify_fd_result [OF g] by blast
  have count: "length bs < 2 ^ 64" "length cs < 2 ^ 64" using bs cs chain_length_bound by metis+
  have "unat (of_nat (length bs) :: u64) = unat (of_nat (length cs) :: u64)"
    using same(1) unfolding bs(3) cs(3) by (simp add: summary_def)
  then have "length bs = length cs" using count by (simp add: unsigned_of_nat take_bit_nat_eq_self)
  then have "bs = cs \<or> logs_collide sha bs cs"
    using chain_commits bs cs same(2) by (simp add: summary_def)
  then show ?thesis using bs cs by auto
qed

theorem audit_chain_commits_witness:
  "\<exists>r fd gd. alrios_audit_chain_verify_fd demo_sha demo_env
      (Some (demo_log [] (block_of demo_sha demo_block))) True = (ALRIOS_AUDIT_OK, r, fd) \<and>
    alrios_audit_chain_verify_fd demo_sha demo_env
      (Some (demo_log [] (block_of demo_sha demo_block)\<lparr>pos := 7\<rparr>)) True = (ALRIOS_AUDIT_OK, r, gd) \<and>
    (content (demo_log [] (block_of demo_sha demo_block)) = content (demo_log [] (block_of demo_sha demo_block)\<lparr>pos := 7\<rparr>) \<or>
    (\<exists>bs cs. block_of demo_sha demo_block = chain_image demo_sha bs \<and>
      block_of demo_sha demo_block = chain_image demo_sha cs \<and> logs_collide demo_sha bs cs))"
proof -
  let ?f = "demo_log [] (block_of demo_sha demo_block)"
  have runs: "\<exists>g. alrios_audit_chain_verify_fd demo_sha demo_env (Some (?f\<lparr>pos := p\<rparr>)) True =
      (ALRIOS_AUDIT_OK, summary demo_sha [demo_block] False, Some g)" for p
    using verify_undisturbed [OF demo_block_chain _ _ _ _ _ demo_env_fresh, of "?f\<lparr>pos := p\<rparr>"]
      length_block_of [OF demo_block_valid]
    by (simp add: demo_log_def chain_image_def limits demo_block_def)
  have "?f\<lparr>pos := pos ?f\<rparr> = ?f" by simp
  then obtain g h where r: "alrios_audit_chain_verify_fd demo_sha demo_env (Some ?f) True =
      (ALRIOS_AUDIT_OK, summary demo_sha [demo_block] False, Some g)"
    and r': "alrios_audit_chain_verify_fd demo_sha demo_env (Some (?f\<lparr>pos := 7\<rparr>)) True =
      (ALRIOS_AUDIT_OK, summary demo_sha [demo_block] False, Some h)"
    using runs [of "pos ?f"] runs [of 7] by auto
  have "content ?f = block_of demo_sha demo_block" by (simp add: demo_log_def)
  with r r' audit_chain_commits [OF r r' refl refl] show ?thesis by auto
qed

section \<open>Verification is complete\<close>

text \<open>
  Verification is complete. On a regular file that is the image of a chain, opened for
  reading, with calls that succeed and memory that is available, verification returns OK
  and the summary of the chain.
\<close>

theorem audit_verify_complete:
  assumes "chain sha bs" "content f = chain_image sha bs" "length (content f) \<le> INT64_MAX"
    and "script f = []" "regular f" "access f \<noteq> O_WRONLY" "fresh env"
  shows "\<exists>g. alrios_audit_chain_verify_fd sha env (Some f) True = (ALRIOS_AUDIT_OK, summary sha bs False, Some g)"
  by (rule verify_undisturbed [OF assms])

theorem audit_verify_complete_witness:
  "\<exists>g. alrios_audit_chain_verify_fd demo_sha demo_env (Some (demo_log [] (block_of demo_sha demo_block))) True =
     (ALRIOS_AUDIT_OK, summary demo_sha [demo_block] False, Some g)"
  using audit_verify_complete [OF demo_block_chain _ _ _ _ _ demo_env_fresh, of "demo_log [] (block_of demo_sha demo_block)"]
    length_block_of [OF demo_block_valid]
  by (simp add: demo_log_def chain_image_def limits demo_block_def)

end
