(* ===== verification/Drain.thy ===== *)
theory Drain
  imports Prelude
begin

text \<open>
  The connection drain of \<open>src/libraries/deploy/drain.c\<close>: the tracker of open streams with
  its state machine, the bounded wait for completion, and the process watcher that
  escalates from waiting to SIGTERM to SIGKILL.

  The spin lock makes the code between taking and releasing it one atomic section; the
  definitions with suffix \<open>_locked\<close> are these sections, and the loads of the atomic
  state before them are separate. Readings of the monotonic clock are arguments, in
  milliseconds.
\<close>

section \<open>States and records\<close>

datatype drain_status =
    ALRIOS_DRAIN_OK
  | ALRIOS_DRAIN_ERR_INVALID
  | ALRIOS_DRAIN_ERR_STATE
  | ALRIOS_DRAIN_ERR_TIMEOUT
  | ALRIOS_DRAIN_ERR_LIMIT
  | ALRIOS_DRAIN_ERR_NOT_FOUND
  | STILL_DRAINING

datatype drain_state =
    ALRIOS_DRAIN_STATE_IDLE
  | ALRIOS_DRAIN_STATE_ACTIVE
  | ALRIOS_DRAIN_STATE_DRAINING
  | ALRIOS_DRAIN_STATE_COMPLETED
  | ALRIOS_DRAIN_STATE_TIMED_OUT

text \<open>The zero value is what \<open>calloc\<close> leaves; it is none of the named stream states.\<close>

datatype stream_state =
    STREAM_STATE_ZERO
  | ALRIOS_STREAM_STATE_OPEN
  | ALRIOS_STREAM_STATE_CLOSING
  | ALRIOS_STREAM_STATE_CLOSED

record drain_stream =
  stream_id :: u64
  stream_fd :: int
  stream_state_of :: stream_state
  connected_at_ms :: u64
  user_data :: addr

record drain_config =
  drain_timeout_ms :: u32
  grace_period_ms :: u32
  max_streams :: u32

record drain_tracker =
  config :: drain_config
  drain_state_of :: drain_state
  streams :: "drain_stream list"
  stream_capacity :: nat
  active_count :: nat
  drain_start_ms :: u64
  total_accepted :: u64
  total_completed :: u64
  total_timed_out :: u64
  notify_pipe :: "int \<times> int"
  notify_bytes :: nat

record drain_stats =
  st_accepted :: u64
  st_completed :: u64
  st_timed_out :: u64
  st_active :: u64

definition drain_monotonic_ms :: "(int \<times> int) option \<Rightarrow> u64" where
  "drain_monotonic_ms ts =
     (case ts of
        None \<Rightarrow> 0
      | Some (tv_sec, tv_nsec) \<Rightarrow> of_int tv_sec * 1000 + of_int tv_nsec div 1000000)"

definition zero_stream :: drain_stream where
  "zero_stream = \<lparr>stream_id = 0, stream_fd = 0, stream_state_of = STREAM_STATE_ZERO,
     connected_at_ms = 0, user_data = 0\<rparr>"

section \<open>The tracker\<close>

text \<open>
  \<open>alloc\<close>: whether \<open>calloc\<close> succeeds; \<open>pipe\<close>: the descriptors of the notify pipe, or
  \<^const>\<open>None\<close> when it cannot be created.
\<close>

definition alrios_drain_tracker_init ::
  "bool \<Rightarrow> (int \<times> int) option \<Rightarrow> drain_tracker option \<Rightarrow> drain_config option \<Rightarrow> drain_status \<times> drain_tracker option" where
  "alrios_drain_tracker_init alloc pipe trackerp configp =
     (case trackerp of
        None \<Rightarrow> (ALRIOS_DRAIN_ERR_INVALID, None)
      | Some _ \<Rightarrow>
          let c0 = (case configp of Some c \<Rightarrow> c
                    | None \<Rightarrow> \<lparr>drain_timeout_ms = 5000, grace_period_ms = 1000, max_streams = 1024\<rparr>);
              c1 = (if drain_timeout_ms c0 = 0 then c0\<lparr>drain_timeout_ms := 5000\<rparr> else c0);
              c2 = (if max_streams c1 = 0 then c1\<lparr>max_streams := 1024\<rparr> else c1);
              cap = unat (max_streams c2);
              base = \<lparr>config = c2, drain_state_of = ALRIOS_DRAIN_STATE_IDLE, streams = [], stream_capacity = cap,
                active_count = 0, drain_start_ms = 0, total_accepted = 0, total_completed = 0,
                total_timed_out = 0, notify_pipe = (0, 0), notify_bytes = 0\<rparr>
          in if \<not> alloc then (ALRIOS_DRAIN_ERR_INVALID, Some base)
             else (ALRIOS_DRAIN_OK,
                   Some (base\<lparr>streams := replicate cap zero_stream,
                              notify_pipe := (case pipe of None \<Rightarrow> (-1, -1) | Some p \<Rightarrow> p),
                              drain_state_of := ALRIOS_DRAIN_STATE_ACTIVE\<rparr>)))"

text \<open>The answer holds the descriptors that are closed and the tracker.\<close>

definition alrios_drain_tracker_destroy :: "drain_tracker option \<Rightarrow> int list \<times> drain_tracker option" where
  "alrios_drain_tracker_destroy trackerp =
     (case trackerp of
        None \<Rightarrow> ([], None)
      | Some tr \<Rightarrow>
          (case notify_pipe tr of (r, w) \<Rightarrow>
             (filter (\<lambda>fd. 0 \<le> fd) [r, w],
              Some (tr\<lparr>notify_pipe := (if 0 \<le> r then -1 else r, if 0 \<le> w then -1 else w),
                       streams := [], stream_capacity := 0, active_count := 0,
                       drain_state_of := ALRIOS_DRAIN_STATE_IDLE\<rparr>))))"

text \<open>
  The scan of the stream table in register: \<^const>\<open>None\<close> for a duplicate, else the first
  free slot, or the capacity when there is none. \<open>i\<close> is the index of the head.
\<close>

fun register_scan :: "u64 \<Rightarrow> nat \<Rightarrow> drain_stream list \<Rightarrow> nat \<Rightarrow> nat \<Rightarrow> nat option" where
  "register_scan sid cap [] i free_idx = Some free_idx"
| "register_scan sid cap (s # ss) i free_idx =
     (if stream_id s = sid \<and> stream_state_of s \<noteq> ALRIOS_STREAM_STATE_CLOSED then None
      else register_scan sid cap ss (Suc i)
        (if free_idx = cap \<and> (stream_id s = 0 \<or> stream_state_of s = ALRIOS_STREAM_STATE_CLOSED)
         then i else free_idx))"

definition register_locked :: "u64 \<Rightarrow> int \<Rightarrow> u64 \<Rightarrow> addr \<Rightarrow> drain_tracker \<Rightarrow> drain_status \<times> drain_tracker" where
  "register_locked now fd sid ud tr =
     (if drain_state_of tr \<noteq> ALRIOS_DRAIN_STATE_ACTIVE then (ALRIOS_DRAIN_ERR_STATE, tr)
      else case register_scan sid (stream_capacity tr) (streams tr) 0 (stream_capacity tr) of
        None \<Rightarrow> (ALRIOS_DRAIN_ERR_INVALID, tr)
      | Some free_idx \<Rightarrow>
          if stream_capacity tr \<le> free_idx then (ALRIOS_DRAIN_ERR_LIMIT, tr)
          else (ALRIOS_DRAIN_OK,
                tr\<lparr>streams := (streams tr)[free_idx :=
                      \<lparr>stream_id = sid, stream_fd = fd, stream_state_of = ALRIOS_STREAM_STATE_OPEN,
                       connected_at_ms = now, user_data = ud\<rparr>],
                    active_count := active_count tr + 1,
                    total_accepted := total_accepted tr + 1\<rparr>))"

definition alrios_drain_stream_register ::
  "u64 \<Rightarrow> drain_tracker option \<Rightarrow> int \<Rightarrow> u64 \<Rightarrow> addr \<Rightarrow> drain_status \<times> drain_tracker option" where
  "alrios_drain_stream_register now trackerp fd sid ud =
     (case trackerp of
        None \<Rightarrow> (ALRIOS_DRAIN_ERR_INVALID, None)
      | Some tr \<Rightarrow>
          if sid = 0 then (ALRIOS_DRAIN_ERR_INVALID, Some tr)
          else if drain_state_of tr \<noteq> ALRIOS_DRAIN_STATE_ACTIVE then (ALRIOS_DRAIN_ERR_STATE, Some tr)
          else case register_locked now fd sid ud tr of (st, tr') \<Rightarrow> (st, Some tr'))"

fun find_stream :: "u64 \<Rightarrow> drain_stream list \<Rightarrow> nat \<Rightarrow> nat option" where
  "find_stream sid [] i = None"
| "find_stream sid (s # ss) i =
     (if stream_id s = sid \<and> stream_state_of s \<noteq> ALRIOS_STREAM_STATE_CLOSED then Some i
      else find_stream sid ss (Suc i))"

definition complete_locked :: "u64 \<Rightarrow> drain_tracker \<Rightarrow> drain_status \<times> drain_tracker" where
  "complete_locked sid tr =
     (case find_stream sid (streams tr) 0 of
        None \<Rightarrow> (ALRIOS_DRAIN_ERR_NOT_FOUND, tr)
      | Some i \<Rightarrow>
          let tr1 = tr\<lparr>streams := (streams tr)[i := (streams tr ! i)\<lparr>stream_state_of := ALRIOS_STREAM_STATE_CLOSED,
                                                              stream_id := 0\<rparr>],
                       active_count := (if 0 < active_count tr then active_count tr - 1 else active_count tr),
                       total_completed := total_completed tr + 1\<rparr>
          in (ALRIOS_DRAIN_OK,
              if drain_state_of tr1 = ALRIOS_DRAIN_STATE_DRAINING \<and> active_count tr1 = 0
              then tr1\<lparr>drain_state_of := ALRIOS_DRAIN_STATE_COMPLETED\<rparr> else tr1))"

definition alrios_drain_stream_complete ::
  "drain_tracker option \<Rightarrow> u64 \<Rightarrow> drain_status \<times> drain_tracker option" where
  "alrios_drain_stream_complete trackerp sid =
     (case trackerp of
        None \<Rightarrow> (ALRIOS_DRAIN_ERR_INVALID, None)
      | Some tr \<Rightarrow>
          if sid = 0 then (ALRIOS_DRAIN_ERR_INVALID, Some tr)
          else case complete_locked sid tr of (st, tr') \<Rightarrow> (st, Some tr'))"

definition alrios_drain_is_draining :: "drain_tracker option \<Rightarrow> bool" where
  "alrios_drain_is_draining trackerp =
     (case trackerp of None \<Rightarrow> False | Some tr \<Rightarrow> drain_state_of tr = ALRIOS_DRAIN_STATE_DRAINING)"

definition alrios_drain_active_count :: "drain_tracker option \<Rightarrow> nat" where
  "alrios_drain_active_count trackerp = (case trackerp of None \<Rightarrow> 0 | Some tr \<Rightarrow> active_count tr)"

text \<open>\<open>notify_bytes\<close> counts the bytes written to the pipe; \<open>wr\<close> is whether the write succeeds.\<close>

definition begin_locked :: "u64 \<Rightarrow> bool \<Rightarrow> drain_tracker \<Rightarrow> drain_tracker" where
  "begin_locked now wr tr =
     tr\<lparr>drain_start_ms := now,
        drain_state_of := (if active_count tr = 0 then ALRIOS_DRAIN_STATE_COMPLETED else ALRIOS_DRAIN_STATE_DRAINING),
        notify_bytes := (if 0 \<le> snd (notify_pipe tr) \<and> wr then notify_bytes tr + 1 else notify_bytes tr)\<rparr>"

definition alrios_drain_begin :: "u64 \<Rightarrow> bool \<Rightarrow> drain_tracker option \<Rightarrow> drain_status \<times> drain_tracker option" where
  "alrios_drain_begin now wr trackerp =
     (case trackerp of
        None \<Rightarrow> (ALRIOS_DRAIN_ERR_INVALID, None)
      | Some tr \<Rightarrow> (ALRIOS_DRAIN_OK, Some (begin_locked now wr tr)))"

definition time_out_locked :: "drain_tracker \<Rightarrow> drain_tracker" where
  "time_out_locked tr =
     tr\<lparr>drain_state_of := ALRIOS_DRAIN_STATE_TIMED_OUT,
        total_timed_out := total_timed_out tr + of_nat (active_count tr)\<rparr>"

definition poll_locked :: "u64 \<Rightarrow> drain_tracker \<Rightarrow> drain_status \<times> drain_tracker" where
  "poll_locked now tr =
     (if active_count tr = 0 then (ALRIOS_DRAIN_OK, tr\<lparr>drain_state_of := ALRIOS_DRAIN_STATE_COMPLETED\<rparr>)
      else if drain_start_ms tr + ucast (drain_timeout_ms (config tr)) \<le> now
      then (ALRIOS_DRAIN_ERR_TIMEOUT, time_out_locked tr)
      else (STILL_DRAINING, tr))"

definition alrios_drain_poll :: "u64 \<Rightarrow> drain_tracker option \<Rightarrow> drain_status \<times> drain_tracker option" where
  "alrios_drain_poll now trackerp =
     (case trackerp of
        None \<Rightarrow> (ALRIOS_DRAIN_ERR_INVALID, None)
      | Some tr \<Rightarrow>
          (case drain_state_of tr of
             ALRIOS_DRAIN_STATE_COMPLETED \<Rightarrow> (ALRIOS_DRAIN_OK, Some tr)
           | ALRIOS_DRAIN_STATE_TIMED_OUT \<Rightarrow> (ALRIOS_DRAIN_ERR_TIMEOUT, Some tr)
           | ALRIOS_DRAIN_STATE_DRAINING \<Rightarrow>
               (case poll_locked now tr of (st, tr') \<Rightarrow> (st, Some tr'))
           | _ \<Rightarrow> (STILL_DRAINING, Some tr)))"

definition alrios_drain_get_stats ::
  "drain_tracker option \<Rightarrow> bool \<Rightarrow> drain_status \<times> drain_stats option" where
  "alrios_drain_get_stats trackerp out_stats =
     (case trackerp of
        None \<Rightarrow> (ALRIOS_DRAIN_ERR_INVALID, None)
      | Some tr \<Rightarrow>
          if \<not> out_stats then (ALRIOS_DRAIN_ERR_INVALID, None)
          else (ALRIOS_DRAIN_OK,
                Some \<lparr>st_accepted = total_accepted tr, st_completed = total_completed tr,
                      st_timed_out = total_timed_out tr, st_active = of_nat (active_count tr)\<rparr>))"

section \<open>The bounded wait\<close>

text \<open>What other threads may do while a thread waits: one atomic section each.\<close>

datatype drain_event =
    Register u64 int u64 addr
  | Complete u64
  | Begin u64 bool
  | Poll u64

fun apply_event :: "drain_event \<Rightarrow> drain_tracker \<Rightarrow> drain_tracker" where
  "apply_event (Register now fd sid ud) tr =
     the (snd (alrios_drain_stream_register now (Some tr) fd sid ud))"
| "apply_event (Complete sid) tr = the (snd (alrios_drain_stream_complete (Some tr) sid))"
| "apply_event (Begin now wr) tr = the (snd (alrios_drain_begin now wr (Some tr)))"
| "apply_event (Poll now) tr = the (snd (alrios_drain_poll now (Some tr)))"

text \<open>
  One iteration of the waiting loop: the clock readings of the poll and of the deadline
  test, what others do between the poll and the deadline section, and what they do
  while this thread sleeps. The loop runs through a list of such turns; \<^const>\<open>None\<close>
  is a wait that is not over when the list ends.
\<close>

record wait_turn =
  poll_now :: u64
  between :: "drain_event list"
  deadline_now :: u64
  asleep :: "drain_event list"

fun wait_loop :: "u64 \<Rightarrow> wait_turn list \<Rightarrow> drain_tracker \<Rightarrow> (drain_status \<times> drain_tracker) option" where
  "wait_loop deadline [] tr = None"
| "wait_loop deadline (t # ts) tr =
     (case alrios_drain_poll (poll_now t) (Some tr) of
        (pr, tr1) \<Rightarrow>
          if pr = ALRIOS_DRAIN_OK then Some (ALRIOS_DRAIN_OK, the tr1)
          else if pr = ALRIOS_DRAIN_ERR_TIMEOUT then Some (ALRIOS_DRAIN_ERR_TIMEOUT, the tr1)
          else
            let tr2 = fold apply_event (between t) (the tr1)
            in if deadline \<le> deadline_now t then Some (ALRIOS_DRAIN_ERR_TIMEOUT, time_out_locked tr2)
               else wait_loop deadline ts (fold apply_event (asleep t) tr2))"

definition alrios_drain_wait_complete ::
  "u64 \<Rightarrow> wait_turn list \<Rightarrow> drain_tracker option \<Rightarrow> int \<Rightarrow> (drain_status \<times> drain_tracker option) option" where
  "alrios_drain_wait_complete now turns trackerp timeout_ms =
     (case trackerp of
        None \<Rightarrow> Some (ALRIOS_DRAIN_ERR_INVALID, None)
      | Some tr \<Rightarrow>
          let limit0 = (if 0 < timeout_ms then of_int timeout_ms else drain_timeout_ms (config tr));
              limit_ms = (if limit0 = 0 then 5000 else limit0);
              deadline = now + ucast limit_ms
          in map_option (\<lambda>(st, tr'). (st, Some tr')) (wait_loop deadline turns tr))"

section \<open>The process watcher\<close>

datatype ar_signal = SIGNAL_TERM | SIGNAL_KILL

text \<open>The status word of \<open>waitpid\<close> and its macros.\<close>

definition WIFEXITED :: "u32 \<Rightarrow> bool" where
  "WIFEXITED s \<longleftrightarrow> s AND 0x7f = 0"

definition WEXITSTATUS :: "u32 \<Rightarrow> int" where
  "WEXITSTATUS s = uint (drop_bit 8 (s AND 0xff00))"

definition WTERMSIG :: "u32 \<Rightarrow> int" where
  "WTERMSIG s = uint (s AND 0x7f)"

definition WIFSIGNALED :: "u32 \<Rightarrow> bool" where
  "WIFSIGNALED s \<longleftrightarrow> s AND 0x7f \<noteq> 0 \<and> s AND 0x7f \<noteq> 0x7f"

text \<open>
  What the process answers in one iteration: the result and status of the non-blocking
  wait, whether signal 0 can be delivered, and the clock reading after it.
\<close>

record await_turn =
  wait_result :: int
  wait_status :: u32
  probe_ok :: bool
  await_now :: u64

definition exit_code :: "u32 \<Rightarrow> int \<Rightarrow> int" where
  "exit_code s old =
     (if WIFEXITED s then WEXITSTATUS s else if WIFSIGNALED s then - WTERMSIG s else old)"

datatype phase_end = Reaped u32 | Gone | Expired

text \<open>The loop of phases 1 and 2; the rest of the turns is left for the next phase.\<close>

fun await_phase :: "u64 \<Rightarrow> await_turn list \<Rightarrow> (phase_end \<times> await_turn list) option" where
  "await_phase deadline [] = None"
| "await_phase deadline (t # ts) =
     (if 0 < wait_result t then Some (Reaped (wait_status t), ts)
      else if wait_result t < 0 \<and> \<not> probe_ok t then Some (Gone, ts)
      else if deadline \<le> await_now t then Some (Expired, ts)
      else await_phase deadline ts)"

text \<open>The twenty attempts of phase 3: the exit status that is stored.\<close>

fun await_killed :: "nat \<Rightarrow> await_turn list \<Rightarrow> int \<Rightarrow> int option" where
  "await_killed 0 ts code = Some code"
| "await_killed (Suc n) [] code = None"
| "await_killed (Suc n) (t # ts) code =
     (if wait_result t \<noteq> 0 then Some (if 0 < wait_result t then exit_code (wait_status t) code else code)
      else await_killed n ts code)"

record await_result =
  aw_status :: drain_status
  aw_exit :: int
  aw_signals :: "ar_signal list"

text \<open>
  \<open>now1\<close> and \<open>now2\<close> are the readings that start the two deadlines. The answer holds the
  status, the value for \<open>*out_exit_status\<close> and the signals sent, in order.
\<close>

definition alrios_drain_process_await ::
  "u64 \<Rightarrow> u64 \<Rightarrow> await_turn list \<Rightarrow> int \<Rightarrow> u32 \<Rightarrow> u32 \<Rightarrow> await_result option" where
  "alrios_drain_process_await now1 now2 turns pid timeout_ms grace_ms =
     (if pid \<le> 1 then Some \<lparr>aw_status = ALRIOS_DRAIN_ERR_INVALID, aw_exit = 0, aw_signals = []\<rparr>
      else
        let wait_limit_ms = (if 0 < timeout_ms then timeout_ms else 5000);
            grace_limit_ms = (if 0 < grace_ms then grace_ms else 1000)
        in case await_phase (now1 + ucast wait_limit_ms) turns of
          None \<Rightarrow> None
        | Some (Reaped s, _) \<Rightarrow>
            Some \<lparr>aw_status = ALRIOS_DRAIN_OK, aw_exit = exit_code s 0, aw_signals = []\<rparr>
        | Some (Gone, _) \<Rightarrow> Some \<lparr>aw_status = ALRIOS_DRAIN_OK, aw_exit = 0, aw_signals = []\<rparr>
        | Some (Expired, turns2) \<Rightarrow>
            (case await_phase (now2 + ucast grace_limit_ms) turns2 of
               None \<Rightarrow> None
             | Some (Reaped s, _) \<Rightarrow>
                 Some \<lparr>aw_status = ALRIOS_DRAIN_OK, aw_exit = exit_code s 0, aw_signals = [SIGNAL_TERM]\<rparr>
             | Some (Gone, _) \<Rightarrow>
                 Some \<lparr>aw_status = ALRIOS_DRAIN_OK, aw_exit = 0, aw_signals = [SIGNAL_TERM]\<rparr>
             | Some (Expired, turns3) \<Rightarrow>
                 map_option (\<lambda>code. \<lparr>aw_status = ALRIOS_DRAIN_ERR_TIMEOUT, aw_exit = code,
                                     aw_signals = [SIGNAL_TERM, SIGNAL_KILL]\<rparr>)
                   (await_killed 20 turns3 0)))"

end
