(* ===== verification/DrainSpec.thy ===== *)
theory DrainSpec
  imports Drain
begin

text \<open>
  The properties of the drain tracker under any interleaving of its atomic sections, of
  the bounded wait, and of the process watcher.
\<close>

section \<open>Open streams\<close>

definition open_stream :: "drain_stream \<Rightarrow> bool" where
  "open_stream s \<longleftrightarrow> stream_id s \<noteq> 0 \<and> stream_state_of s \<noteq> ALRIOS_STREAM_STATE_CLOSED"

definition open_ids :: "drain_tracker \<Rightarrow> u64 list" where
  "open_ids tr = map stream_id (filter open_stream (streams tr))"

definition tracker_inv :: "drain_tracker \<Rightarrow> bool" where
  "tracker_inv tr \<longleftrightarrow>
     length (streams tr) = stream_capacity tr \<and> active_count tr = length (open_ids tr) \<and>
     distinct (open_ids tr) \<and> total_accepted tr = total_completed tr + of_nat (active_count tr) \<and>
     (drain_state_of tr = ALRIOS_DRAIN_STATE_COMPLETED \<longrightarrow> active_count tr = 0) \<and>
     (drain_state_of tr = ALRIOS_DRAIN_STATE_DRAINING \<longrightarrow> 0 < active_count tr)"

lemma register_scan_Some:
  "register_scan sid cap ss i fr = Some k \<Longrightarrow> sid \<noteq> 0 \<Longrightarrow>
    sid \<notin> set (map stream_id (filter open_stream ss)) \<and>
    (k = fr \<or> fr = cap \<and> i \<le> k \<and> k < i + length ss \<and> \<not> open_stream (ss ! (k - i)))"
proof (induction ss arbitrary: i fr)
  case (Cons s ss)
  from Cons.prems have n: "\<not> (stream_id s = sid \<and> stream_state_of s \<noteq> ALRIOS_STREAM_STATE_CLOSED)"
    by (auto split: if_splits)
  let ?fr = "if fr = cap \<and> (stream_id s = 0 \<or> stream_state_of s = ALRIOS_STREAM_STATE_CLOSED) then i else fr"
  have "register_scan sid cap ss (Suc i) ?fr = Some k" using Cons.prems n by (simp split: if_splits)
  from Cons.IH [OF this Cons.prems(2)] show ?case
    using n by (auto simp: open_stream_def nth_Cons' Suc_diff_le split: if_splits)
qed simp

lemma find_stream_Some:
  "find_stream sid ss i = Some k \<Longrightarrow> sid \<noteq> 0 \<Longrightarrow>
    i \<le> k \<and> k < i + length ss \<and> open_stream (ss ! (k - i)) \<and> stream_id (ss ! (k - i)) = sid"
  by (induction ss arbitrary: i) (fastforce simp: open_stream_def nth_Cons' split: if_splits)+

lemma find_stream_None:
  "find_stream sid ss i = None \<Longrightarrow> sid \<noteq> 0 \<Longrightarrow> sid \<notin> set (map stream_id (filter open_stream ss))"
  by (induction ss arbitrary: i) (auto simp: open_stream_def split: if_splits)

lemma split_at:
  assumes "k < length xs"
  obtains ys zs where "xs = ys @ xs ! k # zs" "\<And>v. xs[k := v] = ys @ v # zs"
  using assms by (metis id_take_nth_drop upd_conv_take_nth_drop)

text \<open>Opening a free slot and closing an open one.\<close>

lemma open_slot:
  assumes k: "k < length ss" and free: "\<not> open_stream (ss ! k)" and v: "open_stream v"
    and d: "distinct (map stream_id (filter open_stream ss))"
    and new: "stream_id v \<notin> set (map stream_id (filter open_stream ss))"
  shows "distinct (map stream_id (filter open_stream (ss[k := v]))) \<and>
    length (filter open_stream (ss[k := v])) = Suc (length (filter open_stream ss)) \<and>
    set (map stream_id (filter open_stream (ss[k := v]))) =
      insert (stream_id v) (set (map stream_id (filter open_stream ss)))"
proof -
  obtain ys zs where s: "ss = ys @ ss ! k # zs" "ss[k := v] = ys @ v # zs" using split_at [OF k] by metis
  have "filter open_stream ss = filter open_stream ys @ filter open_stream zs"
    using free by (subst s(1)) simp
  then show ?thesis using v d new by (auto simp: s(2))
qed

lemma close_slot:
  assumes k: "k < length ss" and "open_stream (ss ! k)" and v: "\<not> open_stream v"
    and d: "distinct (map stream_id (filter open_stream ss))"
  shows "distinct (map stream_id (filter open_stream (ss[k := v]))) \<and>
    length (filter open_stream ss) = Suc (length (filter open_stream (ss[k := v]))) \<and>
    set (map stream_id (filter open_stream (ss[k := v]))) =
      set (map stream_id (filter open_stream ss)) - {stream_id (ss ! k)}"
proof -
  obtain ys zs where s: "ss = ys @ ss ! k # zs" "ss[k := v] = ys @ v # zs" using split_at [OF k] by metis
  have f: "filter open_stream ss = filter open_stream ys @ ss ! k # filter open_stream zs"
    using assms(2) by (subst s(1)) simp
  then have "filter open_stream (ss[k := v]) = filter open_stream ys @ filter open_stream zs"
    using v by (simp add: s(2))
  then show ?thesis using d f by auto
qed

section \<open>Every atomic section keeps the invariant\<close>

lemma register_locked_inv:
  assumes inv: "tracker_inv tr" and sid: "sid \<noteq> 0" and run: "register_locked now fd sid ud tr = (st, tr')"
  shows "tracker_inv tr' \<and>
    (st \<noteq> ALRIOS_DRAIN_OK \<longrightarrow> tr' = tr) \<and>
    (st = ALRIOS_DRAIN_OK \<longrightarrow> drain_state_of tr = ALRIOS_DRAIN_STATE_ACTIVE \<and> sid \<notin> set (open_ids tr) \<and>
       set (open_ids tr') = insert sid (set (open_ids tr)) \<and> active_count tr' = Suc (active_count tr) \<and>
       drain_state_of tr' = ALRIOS_DRAIN_STATE_ACTIVE)"
proof (cases "st = ALRIOS_DRAIN_OK")
  case False
  then show ?thesis using run inv by (auto simp: register_locked_def split: if_splits option.splits)
next
  case True
  then obtain k where k: "register_scan sid (stream_capacity tr) (streams tr) 0 (stream_capacity tr) = Some k"
      "k < stream_capacity tr" and act: "drain_state_of tr = ALRIOS_DRAIN_STATE_ACTIVE"
    using run by (auto simp: register_locked_def split: if_splits option.splits)
  let ?v = "\<lparr>stream_id = sid, stream_fd = fd, stream_state_of = ALRIOS_STREAM_STATE_OPEN,
    connected_at_ms = now, user_data = ud\<rparr>"
  have tr': "tr' = tr\<lparr>streams := (streams tr)[k := ?v], active_count := active_count tr + 1,
      total_accepted := total_accepted tr + 1\<rparr>"
    using run k act by (auto simp: register_locked_def)
  have v: "open_stream ?v" using sid by (simp add: open_stream_def)
  note sc = register_scan_Some [OF k(1) sid]
  have "k < length (streams tr)" "\<not> open_stream (streams tr ! k)"
    using sc k(2) inv by (auto simp: tracker_inv_def)
  from open_slot [OF this v] sc inv act True tr' show ?thesis
    by (auto simp: tracker_inv_def open_ids_def)
qed

lemma complete_locked_inv:
  assumes inv: "tracker_inv tr" and sid: "sid \<noteq> 0" and run: "complete_locked sid tr = (st, tr')"
  shows "tracker_inv tr' \<and> set (open_ids tr') = set (open_ids tr) - {sid} \<and>
    (st = ALRIOS_DRAIN_OK) = (sid \<in> set (open_ids tr)) \<and>
    (st = ALRIOS_DRAIN_OK \<longrightarrow> active_count tr = Suc (active_count tr')) \<and>
    total_accepted tr' = total_accepted tr \<and>
    (drain_state_of tr' = drain_state_of tr \<or>
     drain_state_of tr = ALRIOS_DRAIN_STATE_DRAINING \<and> drain_state_of tr' = ALRIOS_DRAIN_STATE_COMPLETED)"
proof (cases "find_stream sid (streams tr) 0")
  case None
  then show ?thesis
    using run inv find_stream_None [OF None sid] by (auto simp: complete_locked_def open_ids_def)
next
  case (Some k)
  let ?v = "(streams tr ! k)\<lparr>stream_state_of := ALRIOS_STREAM_STATE_CLOSED, stream_id := 0\<rparr>"
  have v: "\<not> open_stream ?v" by (simp add: open_stream_def)
  have k: "k < length (streams tr)" "open_stream (streams tr ! k)" "stream_id (streams tr ! k) = sid"
    using find_stream_Some [OF Some sid] by auto
  have d: "distinct (map stream_id (filter open_stream (streams tr)))"
    using inv by (simp add: tracker_inv_def open_ids_def)
  note c = close_slot [OF k(1,2) v d]
  have act: "active_count tr = length (filter open_stream (streams tr))"
    using inv by (simp add: tracker_inv_def open_ids_def)
  have mem: "sid \<in> set (open_ids tr)" using k nth_mem [OF k(1)] by (auto simp: open_ids_def)
  have pos: "active_count tr = Suc (length (filter open_stream ((streams tr)[k := ?v])))"
    using c act by simp
  have res: "st = ALRIOS_DRAIN_OK" "streams tr' = (streams tr)[k := ?v]" "active_count tr' = active_count tr - 1"
      "stream_capacity tr' = stream_capacity tr" "total_accepted tr' = total_accepted tr"
      "total_completed tr' = total_completed tr + 1"
      "drain_state_of tr' = (if drain_state_of tr = ALRIOS_DRAIN_STATE_DRAINING \<and> active_count tr - 1 = 0
         then ALRIOS_DRAIN_STATE_COMPLETED else drain_state_of tr)"
    using run pos by (auto simp: complete_locked_def Some Let_def split: if_splits)
  have oi: "open_ids tr' = map stream_id (filter open_stream ((streams tr)[k := ?v]))"
    by (simp add: open_ids_def res(2))
  have "total_accepted tr = total_completed tr + of_nat (active_count tr)"
    using inv by (simp add: tracker_inv_def)
  then have acc: "total_accepted tr = total_completed tr + 1 + of_nat (active_count tr - 1)"
    unfolding pos by simp
  have "tracker_inv tr'"
    unfolding tracker_inv_def
  proof (intro conjI)
    show "total_accepted tr' = total_completed tr' + of_nat (active_count tr')" using acc res(3,5,6) by simp
    show "active_count tr' = length (open_ids tr')" using pos by (simp add: res(3) oi)
    show "distinct (open_ids tr')" using c by (simp add: oi)
  qed (use inv res(2-4,7) pos in \<open>auto simp: tracker_inv_def split: if_splits\<close>)
  moreover have "set (open_ids tr') = set (open_ids tr) - {sid}"
    unfolding oi using c k(3) by (simp add: open_ids_def)
  ultimately show ?thesis using res(1,3,5,7) pos mem by auto
qed

lemma begin_locked_inv: "tracker_inv tr \<Longrightarrow> tracker_inv (begin_locked now wr tr)"
  by (simp add: tracker_inv_def begin_locked_def open_ids_def)

lemma time_out_locked_inv: "tracker_inv tr \<Longrightarrow> tracker_inv (time_out_locked tr)"
  by (simp add: tracker_inv_def time_out_locked_def open_ids_def)

lemma poll_inv:
  assumes "tracker_inv tr" "alrios_drain_poll now (Some tr) = (st, tr')"
  shows "\<exists>t. tr' = Some t \<and> tracker_inv t \<and> streams t = streams tr \<and> total_accepted t = total_accepted tr \<and>
    active_count t = active_count tr \<and>
    (st = ALRIOS_DRAIN_OK \<longrightarrow> drain_state_of t = ALRIOS_DRAIN_STATE_COMPLETED) \<and>
    (st = ALRIOS_DRAIN_ERR_TIMEOUT \<longrightarrow> drain_state_of t = ALRIOS_DRAIN_STATE_TIMED_OUT) \<and>
    (st = ALRIOS_DRAIN_OK \<or> st = ALRIOS_DRAIN_ERR_TIMEOUT \<or> st = STILL_DRAINING \<and> t = tr)"
  using assms
  by (auto simp: alrios_drain_poll_def poll_locked_def time_out_locked_def tracker_inv_def open_ids_def
      split: drain_state.splits if_splits)

lemma init_inv:
  "alrios_drain_tracker_init al p (Some any) c = (ALRIOS_DRAIN_OK, Some tr) \<Longrightarrow>
    tracker_inv tr \<and> drain_state_of tr = ALRIOS_DRAIN_STATE_ACTIVE \<and> 0 < stream_capacity tr \<and> open_ids tr = []"
  by (auto simp: alrios_drain_tracker_init_def tracker_inv_def open_ids_def open_stream_def zero_stream_def
      Let_def unat_gt_0 split: if_splits)

text \<open>
  When the table cannot be allocated, initialisation returns before the pipe is marked as
  absent; destroying the tracker then closes descriptor 0, twice.
\<close>

lemma destroy_after_failed_init:
  assumes "alrios_drain_tracker_init False p (Some any) c = (st, tr)"
  shows "st = ALRIOS_DRAIN_ERR_INVALID \<and> fst (alrios_drain_tracker_destroy tr) = [0, 0]"
  using assms by (auto simp: alrios_drain_tracker_init_def alrios_drain_tracker_destroy_def Let_def)

section \<open>Interleavings\<close>

definition begun :: "drain_tracker \<Rightarrow> bool" where
  "begun tr \<longleftrightarrow> drain_state_of tr \<in>
     {ALRIOS_DRAIN_STATE_DRAINING, ALRIOS_DRAIN_STATE_COMPLETED, ALRIOS_DRAIN_STATE_TIMED_OUT}"

text \<open>
  The runs of a tracker: any sequence of the operations of any threads, of the locked
  section of a poll that read the state before another thread moved it on, and of the
  deadline section with which a waiting thread gives up.
\<close>

inductive drain_step :: "drain_tracker \<Rightarrow> drain_tracker \<Rightarrow> bool" where
  event: "drain_step tr (apply_event e tr)"
| late_poll: "begun tr \<Longrightarrow> drain_step tr (snd (poll_locked now tr))"
| give_up: "drain_step tr (time_out_locked tr)"

inductive drain_run :: "drain_tracker \<Rightarrow> drain_tracker \<Rightarrow> bool" where
  start: "drain_run tr tr"
| more: "drain_run tr t1 \<Longrightarrow> drain_step t1 t2 \<Longrightarrow> drain_run tr t2"

inductive_cases drain_stepE: "drain_step tr tr'"

text \<open>What any event does to a tracker that satisfies the invariant.\<close>

lemma apply_event_inv:
  assumes inv: "tracker_inv tr"
  shows "tracker_inv (apply_event e tr) \<and>
    (begun tr \<longrightarrow> begun (apply_event e tr) \<and> total_accepted (apply_event e tr) = total_accepted tr \<and>
      set (open_ids (apply_event e tr)) \<subseteq> set (open_ids tr))"
proof (cases e)
  case (Register now fd sid ud)
  obtain st t where r: "register_locked now fd sid ud tr = (st, t)" by fastforce
  show ?thesis
    using register_locked_inv [OF inv _ r] inv r
    by (cases "sid = 0") (auto simp: Register alrios_drain_stream_register_def begun_def)
next
  case (Complete sid)
  obtain st t where r: "complete_locked sid tr = (st, t)" by fastforce
  show ?thesis
  proof (cases "sid = 0")
    case True
    then show ?thesis using inv by (simp add: Complete alrios_drain_stream_complete_def)
  next
    case False
    then have t: "apply_event e tr = t" by (simp add: Complete alrios_drain_stream_complete_def r)
    from complete_locked_inv [OF inv False r] show ?thesis
      unfolding t begun_def by (elim conjE disjE) simp_all
  qed
next
  case (Begin now wr)
  then show ?thesis using begin_locked_inv [OF inv]
    by (auto simp: alrios_drain_begin_def begun_def begin_locked_def open_ids_def)
next
  case (Poll now)
  obtain st t where r: "alrios_drain_poll now (Some tr) = (st, t)" by fastforce
  show ?thesis using poll_inv [OF inv r] r by (auto simp: Poll begun_def open_ids_def)
qed

lemma late_poll_inv:
  assumes "tracker_inv tr" "begun tr"
  shows "tracker_inv (snd (poll_locked now tr)) \<and> begun (snd (poll_locked now tr)) \<and>
    total_accepted (snd (poll_locked now tr)) = total_accepted tr \<and>
    open_ids (snd (poll_locked now tr)) = open_ids tr"
  using assms by (auto simp: poll_locked_def time_out_locked_def tracker_inv_def open_ids_def begun_def)

lemma drain_step_inv:
  "drain_step tr tr' \<Longrightarrow> tracker_inv tr \<Longrightarrow> tracker_inv tr' \<and>
    (begun tr \<longrightarrow> begun tr' \<and> total_accepted tr' = total_accepted tr \<and> set (open_ids tr') \<subseteq> set (open_ids tr))"
proof (erule drain_stepE)
  fix e assume "tracker_inv tr" "tr' = apply_event e tr"
  then show ?thesis using apply_event_inv by simp
next
  fix now assume "tracker_inv tr" "tr' = snd (poll_locked now tr)" "begun tr"
  then show ?thesis using late_poll_inv by simp
next
  assume "tracker_inv tr" "tr' = time_out_locked tr"
  then show ?thesis using time_out_locked_inv by (auto simp: time_out_locked_def begun_def open_ids_def)
qed

lemma drain_run_inv:
  "drain_run tr tr' \<Longrightarrow> tracker_inv tr \<Longrightarrow> tracker_inv tr' \<and>
    (begun tr \<longrightarrow> begun tr' \<and> total_accepted tr' = total_accepted tr \<and> set (open_ids tr') \<subseteq> set (open_ids tr))"
  by (induction rule: drain_run.induct) (auto dest!: drain_step_inv)

lemma fold_events_run: "drain_run t0 tr \<Longrightarrow> drain_run t0 (fold apply_event es tr)"
  by (induction es arbitrary: tr) (auto intro: drain_run.more drain_step.event)

text \<open>
  C15: The accounting of the tracker. In every run of a freshly initialised tracker, with
  any interleaving of operations by any threads: the count is the number of open
  streams and never exceeds the capacity, open streams have distinct identifiers, the
  accepted streams are the completed and the open ones together, a completed drain has
  no open stream and a drain in progress has one.
\<close>

theorem drain_accounting:
  assumes "alrios_drain_tracker_init True p (Some any) c = (ALRIOS_DRAIN_OK, Some t0)" and "drain_run t0 tr"
  shows "active_count tr = length (open_ids tr) \<and> active_count tr \<le> stream_capacity tr \<and>
    distinct (open_ids tr) \<and> total_accepted tr = total_completed tr + of_nat (active_count tr) \<and>
    (drain_state_of tr = ALRIOS_DRAIN_STATE_COMPLETED \<longrightarrow> open_ids tr = []) \<and>
    (drain_state_of tr = ALRIOS_DRAIN_STATE_DRAINING \<longrightarrow> open_ids tr \<noteq> [])"
proof -
  have inv: "tracker_inv tr" using drain_run_inv [OF assms(2)] init_inv [OF assms(1)] by blast
  have "length (open_ids tr) \<le> length (streams tr)" by (simp add: open_ids_def)
  then show ?thesis using inv by (auto simp: tracker_inv_def)
qed

text \<open>A tracker for two streams, with one registered, for the witnesses.\<close>

definition demo_drain_config :: drain_config where
  "demo_drain_config = \<lparr>drain_timeout_ms = 50, grace_period_ms = 10, max_streams = 2\<rparr>"

definition demo_tracker :: drain_tracker where
  "demo_tracker = \<lparr>config = demo_drain_config, drain_state_of = ALRIOS_DRAIN_STATE_ACTIVE,
     streams = [zero_stream, zero_stream], stream_capacity = 2, active_count = 0, drain_start_ms = 0,
     total_accepted = 0, total_completed = 0, total_timed_out = 0, notify_pipe = (-1, -1), notify_bytes = 0\<rparr>"

definition demo_busy :: drain_tracker where
  "demo_busy = demo_tracker\<lparr>
     streams := [\<lparr>stream_id = 42, stream_fd = 7, stream_state_of = ALRIOS_STREAM_STATE_OPEN,
       connected_at_ms = 1, user_data = 0\<rparr>, zero_stream],
     active_count := 1, total_accepted := 1\<rparr>"

lemma replicate_2: "replicate 2 x = [x, x]"
  by (simp add: numeral_2_eq_2)

lemma demo_tracker_init:
  "alrios_drain_tracker_init True None (Some demo_busy) (Some demo_drain_config) = (ALRIOS_DRAIN_OK, Some demo_tracker)"
  by (simp add: demo_tracker_def demo_drain_config_def alrios_drain_tracker_init_def Let_def numeral_2_eq_2 [symmetric]
      replicate_2)

lemma demo_busy_event: "apply_event (Register 1 7 42 0) demo_tracker = demo_busy"
  by (simp add: demo_busy_def demo_tracker_def zero_stream_def alrios_drain_stream_register_def
      register_locked_def)

lemma demo_busy_run: "drain_run demo_tracker demo_busy"
  using drain_run.more [OF drain_run.start drain_step.event] demo_busy_event by metis

lemma demo_busy_inv: "tracker_inv demo_busy"
  using drain_run_inv [OF demo_busy_run] init_inv [OF demo_tracker_init] by blast

theorem drain_accounting_witness:
  "drain_run demo_tracker demo_busy \<and> active_count demo_busy = length (open_ids demo_busy) \<and>
   open_ids demo_busy = [42]"
  using drain_accounting [OF demo_tracker_init demo_busy_run] demo_busy_run
  by (simp add: demo_busy_def zero_stream_def open_ids_def open_stream_def)

text \<open>
  Draining admits no new work. Once a drain has begun, then in every further run the
  tracker never becomes active again, no stream is accepted, and the open streams are
  some of those that were open; a registration is refused.
\<close>

theorem drain_admits_nothing:
  assumes "tracker_inv tr" "drain_run (begin_locked now wr tr) tr'" "sid \<noteq> 0"
  shows "total_accepted tr' = total_accepted tr \<and> set (open_ids tr') \<subseteq> set (open_ids tr) \<and>
    drain_state_of tr' \<noteq> ALRIOS_DRAIN_STATE_ACTIVE \<and>
    alrios_drain_stream_register t (Some tr') fd sid ud = (ALRIOS_DRAIN_ERR_STATE, Some tr')"
proof -
  let ?b = "begin_locked now wr tr"
  have "begun ?b" "total_accepted ?b = total_accepted tr" "open_ids ?b = open_ids tr"
    by (auto simp: begun_def begin_locked_def open_ids_def)
  then show ?thesis
    using drain_run_inv [OF assms(2) begin_locked_inv [OF assms(1)]] assms(3)
    by (auto simp: begun_def alrios_drain_stream_register_def)
qed

theorem drain_admits_nothing_witness:
  "alrios_drain_stream_register 9 (Some (begin_locked 2 True demo_busy)) 8 43 0 =
     (ALRIOS_DRAIN_ERR_STATE, Some (begin_locked 2 True demo_busy))"
  using drain_admits_nothing [OF demo_busy_inv drain_run.start, of 43 2 True 9 8 0] by simp

section \<open>The bounded wait\<close>

lemma wait_loop_result:
  "tracker_inv tr \<Longrightarrow> wait_loop deadline turns tr = Some (st, tr') \<Longrightarrow>
    tracker_inv tr' \<and>
    (st = ALRIOS_DRAIN_OK \<and> drain_state_of tr' = ALRIOS_DRAIN_STATE_COMPLETED \<and> active_count tr' = 0 \<or>
     st = ALRIOS_DRAIN_ERR_TIMEOUT \<and> drain_state_of tr' = ALRIOS_DRAIN_STATE_TIMED_OUT)"
proof (induction turns arbitrary: tr)
  case (Cons t ts)
  obtain pr p where poll: "alrios_drain_poll (poll_now t) (Some tr) = (pr, p)" by fastforce
  then obtain tr1 where p: "p = Some tr1" and r: "tracker_inv tr1"
      "pr = ALRIOS_DRAIN_OK \<longrightarrow> drain_state_of tr1 = ALRIOS_DRAIN_STATE_COMPLETED"
      "pr = ALRIOS_DRAIN_ERR_TIMEOUT \<longrightarrow> drain_state_of tr1 = ALRIOS_DRAIN_STATE_TIMED_OUT"
    using poll_inv [OF Cons.prems(1) poll] by blast
  have ev: "tracker_inv (fold apply_event es x)" if "tracker_inv x" for es x
    using drain_run_inv [OF fold_events_run [OF drain_run.start]] that by blast
  show ?case
  proof (cases "pr = ALRIOS_DRAIN_OK \<or> pr = ALRIOS_DRAIN_ERR_TIMEOUT")
    case True
    then show ?thesis using Cons.prems poll p r by (auto simp: tracker_inv_def)
  next
    case False
    then show ?thesis
      using Cons.prems(2) Cons.IH [OF ev [OF ev [OF r(1)]]] poll p time_out_locked_inv [OF ev [OF r(1)]]
      by (auto simp: Let_def time_out_locked_def split: if_splits)
  qed
qed simp

lemma wait_loop_ends:
  "\<exists>t \<in> set turns. deadline \<le> deadline_now t \<Longrightarrow> wait_loop deadline turns tr \<noteq> None"
  by (induction turns arbitrary: tr) (auto simp: Let_def split: prod.splits)

lemma limit_ms_positive:
  assumes "0 < ms" "ms < 2 ^ 31"
  shows "(of_int ms :: u32) \<noteq> 0" "(ucast (of_int ms :: u32) :: u64) = of_int ms"
proof -
  have u: "uint (of_int ms :: u32) = ms"
    using assms by (simp add: unsigned_of_int take_bit_int_eq_self)
  then show "(of_int ms :: u32) \<noteq> 0" using assms by (metis less_irrefl unsigned_0)
  show "(ucast (of_int ms :: u32) :: u64) = of_int ms" using u by (metis of_int_uint)
qed

text \<open>
  The wait is bounded and honest. As soon as one turn reads the clock at or past the
  deadline, the wait has returned. It returns OK only with no open stream left and the
  drain completed; otherwise it reports a timeout, and the tracker is timed out.
\<close>

theorem drain_wait_bounded:
  assumes inv: "tracker_inv tr" and ms: "0 < timeout_ms" "timeout_ms < 2 ^ 31"
    and turn: "\<exists>t \<in> set turns. now + of_int timeout_ms \<le> deadline_now t"
  shows "\<exists>st tr'. alrios_drain_wait_complete now turns (Some tr) timeout_ms = Some (st, Some tr') \<and>
    (st = ALRIOS_DRAIN_OK \<and> active_count tr' = 0 \<and> drain_state_of tr' = ALRIOS_DRAIN_STATE_COMPLETED \<or>
     st = ALRIOS_DRAIN_ERR_TIMEOUT \<and> drain_state_of tr' = ALRIOS_DRAIN_STATE_TIMED_OUT)"
proof -
  let ?d = "now + of_int timeout_ms"
  obtain st tr' where r: "wait_loop ?d turns tr = Some (st, tr')" using wait_loop_ends [OF turn, of tr] by auto
  then have "alrios_drain_wait_complete now turns (Some tr) timeout_ms = Some (st, Some tr')"
    using ms limit_ms_positive [OF ms] by (simp add: alrios_drain_wait_complete_def Let_def)
  then show ?thesis using wait_loop_result [OF inv r] by blast
qed

theorem drain_wait_bounded_witness:
  "\<exists>st tr'. alrios_drain_wait_complete 1 [\<lparr>poll_now = 2, between = [Begin 2 True], deadline_now = 101, asleep = []\<rparr>]
     (Some demo_busy) 100 = Some (st, Some tr') \<and>
     (st = ALRIOS_DRAIN_OK \<and> active_count tr' = 0 \<and> drain_state_of tr' = ALRIOS_DRAIN_STATE_COMPLETED \<or>
      st = ALRIOS_DRAIN_ERR_TIMEOUT \<and> drain_state_of tr' = ALRIOS_DRAIN_STATE_TIMED_OUT)"
  by (rule drain_wait_bounded [OF demo_busy_inv]) simp_all

text \<open>
  A wait on a tracker whose drain was never begun. The poll reports such a tracker as
  still draining whatever it holds, so at the deadline the wait moves it from active to
  timed out, and it refuses new streams from then on, without a drain having been
  requested.
\<close>

theorem wait_times_out_active_tracker:
  assumes "drain_state_of tr = ALRIOS_DRAIN_STATE_ACTIVE" and "0 < timeout_ms" "timeout_ms < 2 ^ 31"
    and "now + of_int timeout_ms \<le> deadline_now t" and "between t = []" and "sid \<noteq> 0"
  shows "\<exists>tr'. alrios_drain_wait_complete now [t] (Some tr) timeout_ms = Some (ALRIOS_DRAIN_ERR_TIMEOUT, Some tr') \<and>
    drain_state_of tr' = ALRIOS_DRAIN_STATE_TIMED_OUT \<and>
    alrios_drain_stream_register later (Some tr') fd sid ud = (ALRIOS_DRAIN_ERR_STATE, Some tr')"
proof -
  have "wait_loop (now + of_int timeout_ms) [t] tr = Some (ALRIOS_DRAIN_ERR_TIMEOUT, time_out_locked tr)"
    using assms(1,4,5) by (simp add: alrios_drain_poll_def)
  then show ?thesis
    using limit_ms_positive [OF assms(2,3)] assms(2,6)
    by (simp add: alrios_drain_wait_complete_def alrios_drain_stream_register_def time_out_locked_def)
qed

theorem wait_times_out_active_tracker_witness:
  "\<exists>tr'. alrios_drain_wait_complete 1 [\<lparr>poll_now = 2, between = [], deadline_now = 101, asleep = []\<rparr>]
     (Some demo_busy) 100 = Some (ALRIOS_DRAIN_ERR_TIMEOUT, Some tr') \<and>
   drain_state_of tr' = ALRIOS_DRAIN_STATE_TIMED_OUT \<and>
   alrios_drain_stream_register 200 (Some tr') 8 43 0 = (ALRIOS_DRAIN_ERR_STATE, Some tr')"
  by (rule wait_times_out_active_tracker) (simp_all add: demo_busy_def demo_tracker_def)

section \<open>The process watcher\<close>

lemma await_phase_expired:
  "await_phase d ts = Some (Expired, rest) \<Longrightarrow>
    \<exists>pre t. ts = pre @ t # rest \<and> d \<le> await_now t \<and> (\<forall>u \<in> set (pre @ [t]). wait_result u \<le> 0)"
proof (induction ts)
  case (Cons t ts)
  show ?case
  proof (cases "d \<le> await_now t")
    case True
    then have "ts = rest" "wait_result t \<le> 0" using Cons.prems by (auto split: if_splits)
    then show ?thesis using True by (metis append_Nil list.set_cases self_append_conv2 set_ConsD list.distinct(1))
  next
    case False
    then have "await_phase d ts = Some (Expired, rest)" "wait_result t \<le> 0" using Cons.prems by (auto split: if_splits)
    then obtain pre u where "ts = pre @ u # rest" "d \<le> await_now u" "\<forall>v \<in> set (pre @ [u]). wait_result v \<le> 0"
      using Cons.IH by blast
    then show ?thesis using \<open>wait_result t \<le> 0\<close> by (intro exI [of _ "t # pre"] exI [of _ u]) auto
  qed
qed simp

lemma await_phase_ends:
  "\<exists>t \<in> set ts. d \<le> await_now t \<Longrightarrow> await_phase d ts \<noteq> None"
  by (induction ts) auto

lemma await_killed_ends: "n \<le> length ts \<Longrightarrow> await_killed n ts code \<noteq> None"
  by (induction n ts code rule: await_killed.induct) auto

text \<open>
  C16: Escalation is ordered and never early. The watcher sends nothing, TERM alone, or
  TERM and then KILL. TERM is sent only after a reading of the clock at or past the first
  deadline with the process not reaped up to then, KILL only after a further such reading
  at or past the grace deadline; success is reported exactly when KILL was not sent.
\<close>

theorem process_await_escalates_in_order:
  assumes run: "alrios_drain_process_await now1 now2 turns pid tmo grace = Some r" and pid: "1 < pid"
  defines "d1 \<equiv> now1 + ucast (if tmo = 0 then 5000 else tmo)"
    and "d2 \<equiv> now2 + ucast (if grace = 0 then 1000 else grace)"
  shows "aw_signals r \<in> {[], [SIGNAL_TERM], [SIGNAL_TERM, SIGNAL_KILL]} \<and>
    aw_status r = (if SIGNAL_KILL \<in> set (aw_signals r) then ALRIOS_DRAIN_ERR_TIMEOUT else ALRIOS_DRAIN_OK) \<and>
    (SIGNAL_TERM \<in> set (aw_signals r) \<longrightarrow>
      (\<exists>pre t rest. turns = pre @ t # rest \<and> d1 \<le> await_now t \<and> (\<forall>u \<in> set (pre @ [t]). wait_result u \<le> 0) \<and>
        (SIGNAL_KILL \<in> set (aw_signals r) \<longrightarrow>
          (\<exists>pre' t' rest'. rest = pre' @ t' # rest' \<and> d2 \<le> await_now t' \<and>
            (\<forall>u \<in> set (pre' @ [t']). wait_result u \<le> 0)))))"
proof -
  have d: "now1 + ucast (if 0 < tmo then tmo else 5000) = d1" "now2 + ucast (if 0 < grace then grace else 1000) = d2"
    by (simp_all add: d1_def d2_def word_gt_0)
  obtain e rest where p1: "await_phase d1 turns = Some (e, rest)"
    using run pid by (auto simp: alrios_drain_process_await_def d split: option.splits)
  show ?thesis
  proof (cases "e = Expired")
    case False
    then show ?thesis using run pid p1
      by (cases e) (auto simp: alrios_drain_process_await_def d)
  next
    case e: True
    note x1 = await_phase_expired [OF p1 [unfolded e]]
    obtain e2 rest2 where p2: "await_phase d2 rest = Some (e2, rest2)"
      using run pid p1 e by (auto simp: alrios_drain_process_await_def d split: option.splits)
    show ?thesis
    proof (cases "e2 = Expired")
      case False
      then have "aw_signals r = [SIGNAL_TERM] \<and> aw_status r = ALRIOS_DRAIN_OK" using run pid p1 e p2
        by (cases e2) (auto simp: alrios_drain_process_await_def d)
      then show ?thesis using x1 by auto
    next
      case True
      then have "aw_signals r = [SIGNAL_TERM, SIGNAL_KILL] \<and> aw_status r = ALRIOS_DRAIN_ERR_TIMEOUT"
        using run pid p1 e p2 by (auto simp: alrios_drain_process_await_def d)
      then show ?thesis using x1 await_phase_expired [OF p2 [unfolded True]] by (simp, blast)
    qed
  qed
qed

definition demo_await :: "await_turn list" where
  "demo_await = map (\<lambda>(w, n). \<lparr>wait_result = w, wait_status = 9, probe_ok = True, await_now = n\<rparr>)
     [(0, 5), (0, 60), (0, 61), (0, 80), (7, 81)]"

theorem process_await_escalates_in_order_witness:
  "alrios_drain_process_await 1 60 demo_await 7 50 10 =
     Some \<lparr>aw_status = ALRIOS_DRAIN_ERR_TIMEOUT, aw_exit = -9, aw_signals = [SIGNAL_TERM, SIGNAL_KILL]\<rparr> \<and>
   (\<exists>pre t rest. demo_await = pre @ t # rest \<and> 51 \<le> await_now t \<and> (\<forall>u \<in> set (pre @ [t]). wait_result u \<le> 0))"
proof -
  have run: "alrios_drain_process_await 1 60 demo_await 7 50 10 =
     Some \<lparr>aw_status = ALRIOS_DRAIN_ERR_TIMEOUT, aw_exit = -9, aw_signals = [SIGNAL_TERM, SIGNAL_KILL]\<rparr>"
    by code_simp
  from process_await_escalates_in_order [OF run] show ?thesis using run by auto
qed

lemma await_phase_until:
  "\<forall>t \<in> set a. await_now t < d \<Longrightarrow> d \<le> await_now t1 \<Longrightarrow>
    \<exists>e rest. await_phase d (a @ t1 # w) = Some (e, rest) \<and> (e = Expired \<longrightarrow> rest = w)"
  by (induction a) auto

lemma await_phase_within:
  "\<exists>t \<in> set b. d \<le> await_now t \<Longrightarrow>
    \<exists>e rest. await_phase d (b @ c) = Some (e, rest) \<and> length c \<le> length rest"
  by (induction b) auto

text \<open>
  C17: The watcher returns. With a reading at or past the first deadline, a later one at
  or past the grace deadline and twenty more turns, it has an answer, whatever the
  process does and whatever its identifier is.
\<close>

theorem process_await_returns:
  assumes d: "d1 = now1 + ucast (if tmo = 0 then 5000 else tmo)" "d2 = now2 + ucast (if grace = 0 then 1000 else grace)"
    and a: "\<forall>t \<in> set a. await_now t < d1" "d1 \<le> await_now t1"
    and b: "\<exists>t \<in> set b. d2 \<le> await_now t" and c: "20 \<le> length c"
  shows "\<exists>r. alrios_drain_process_await now1 now2 (a @ t1 # b @ c) pid tmo grace = Some r"
proof -
  have dd: "now1 + ucast (if 0 < tmo then tmo else 5000) = d1" "now2 + ucast (if 0 < grace then grace else 1000) = d2"
    by (simp_all add: d word_gt_0)
  obtain e1 r1 where p1: "await_phase d1 (a @ t1 # b @ c) = Some (e1, r1)" and e1: "e1 = Expired \<longrightarrow> r1 = b @ c"
    using await_phase_until [OF a, of "b @ c"] by blast
  obtain e2 r2 where p2: "await_phase d2 (b @ c) = Some (e2, r2)" and "length c \<le> length r2"
    using await_phase_within [OF b] by blast
  then obtain code where p3: "await_killed 20 r2 0 = Some code"
    using c await_killed_ends [of 20 r2 0] by auto
  show ?thesis
    using p1 e1 p2 p3 by (cases e1; cases e2) (simp_all add: alrios_drain_process_await_def dd)
qed

theorem process_await_returns_witness:
  "\<exists>r. alrios_drain_process_await 1 60 (take 1 demo_await @ demo_await ! 1 # drop 2 demo_await @
     replicate 20 (demo_await ! 0)) 7 50 10 = Some r"
  by (rule process_await_returns [of 51 1 50 70 60 10])
    (simp_all add: demo_await_def)

end
