(* ===== verification/CString.thy ===== *)
theory CString
  imports Prelude "HOL-Library.List_Lexorder"
begin

text \<open>
  C strings: the bytes before the terminating NUL. String literals, the character class
  and the comparison the parsers use, and the order on byte strings that the sign of
  \<open>strcmp\<close> decides.
\<close>

definition ascii :: "string \<Rightarrow> bytes" where
  "ascii s = map of_char s"

definition isdigit :: "u8 \<Rightarrow> bool" where
  "isdigit c \<longleftrightarrow> 0x30 \<le> c \<and> c \<le> 0x39"

definition digit_value :: "u8 \<Rightarrow> nat" where
  "digit_value c = unat (c - 0x30)"

text \<open>\<open>strcmp\<close>: the difference of the first bytes that differ, the terminator being 0.\<close>

fun strcmp :: "bytes \<Rightarrow> bytes \<Rightarrow> int" where
  "strcmp [] [] = 0"
| "strcmp (a # as) [] = uint a"
| "strcmp [] (b # bs) = - uint b"
| "strcmp (a # as) (b # bs) = (if a = b then strcmp as bs else uint a - uint b)"

lemma uint_pos: "0 < uint (a :: u8) \<longleftrightarrow> a \<noteq> 0"
proof -
  have "0 \<le> uint a" by (rule unsigned_greater_eq)
  moreover have "uint a = 0 \<longleftrightarrow> a = 0" by (rule uint_0_iff)
  ultimately show ?thesis by linarith
qed

lemma strcmp_negative: "0 \<notin> set b \<Longrightarrow> strcmp a b < 0 \<longleftrightarrow> a < b"
  by (induction a b rule: strcmp.induct) (auto simp: uint_pos word_less_def)

lemma strcmp_zero: "0 \<notin> set a \<Longrightarrow> 0 \<notin> set b \<Longrightarrow> strcmp a b = 0 \<longleftrightarrow> a = b"
  by (induction a b rule: strcmp.induct) (auto simp: word_uint_eq_iff)

section \<open>Decimal numbers\<close>

text \<open>The number a string of digits denotes.\<close>

definition decimal :: "bytes \<Rightarrow> nat" where
  "decimal ds = foldl (\<lambda>n c. n * 10 + digit_value c) 0 ds"

lemma decimal_Nil [simp]: "decimal [] = 0"
  by (simp add: decimal_def)

lemma decimal_snoc [simp]: "decimal (ds @ [c]) = decimal ds * 10 + digit_value c"
  by (simp add: decimal_def)

lemma digit_value_less: "isdigit c \<Longrightarrow> digit_value c < 10"
proof -
  assume "isdigit c"
  then have "0x30 \<le> unat c" "unat c \<le> 0x39" by (simp_all add: isdigit_def word_le_nat_alt)
  then show ?thesis by (simp add: digit_value_def unat_sub_if')
qed

end
