(* ===== verification/Psi.thy ===== *)
theory Psi
  imports CString Complex_Main
begin

text \<open>
  The memory-pressure monitor of \<open>src/libraries/resources/psi.c\<close>: the parser of
  \<open>/proc/pressure/memory\<close>, the classification of a sample, and the choice of the processes
  that are warned or shed.

  A \<open>double\<close> is the rational it denotes. \<open>strtod\<close> on digits with at most one point denotes
  a decimal fraction and rounds it to a representable number: the parameter \<open>rnd\<close> is that
  rounding. With fewer than 64 characters of this kind \<open>strtod\<close> consumes them all, leaves
  \<open>errno\<close> alone and never yields an infinity, so the tests on these are not repeated.
\<close>

section \<open>Samples and candidates\<close>

datatype psi_status =
    ALRIOS_PSI_OK
  | ALRIOS_PSI_ERR_ARGUMENT
  | ALRIOS_PSI_ERR_IO
  | ALRIOS_PSI_ERR_FORMAT
  | ALRIOS_PSI_ERR_TOO_LARGE
  | ALRIOS_PSI_ERR_UNSUPPORTED
  | ALRIOS_PSI_ERR_NO_CANDIDATE
  | ALRIOS_PSI_ERR_NOTIFY

record psi_values =
  avg10 :: rat
  avg60 :: rat
  avg300 :: rat
  total_us :: u64

record psi_sample =
  some_values :: psi_values
  full_values :: psi_values

datatype psi_level =
    ALRIOS_PSI_PRESSURE_NORMAL
  | ALRIOS_PSI_PRESSURE_WARNING
  | ALRIOS_PSI_PRESSURE_SHEDDING

datatype psi_tier =
    ALRIOS_PSI_TIER_CORE
  | ALRIOS_PSI_TIER_WORKER
  | ALRIOS_PSI_TIER_BEST_EFFORT

fun tier_value :: "psi_tier \<Rightarrow> nat" where
  "tier_value ALRIOS_PSI_TIER_CORE = 0"
| "tier_value ALRIOS_PSI_TIER_WORKER = 1"
| "tier_value ALRIOS_PSI_TIER_BEST_EFFORT = 2"

text \<open>Tiers are compared by the value of the enumerator.\<close>

instantiation psi_tier :: linorder
begin

definition less_eq_psi_tier :: "psi_tier \<Rightarrow> psi_tier \<Rightarrow> bool" where
  "less_eq_psi_tier a b \<longleftrightarrow> tier_value a \<le> tier_value b"

definition less_psi_tier :: "psi_tier \<Rightarrow> psi_tier \<Rightarrow> bool" where
  "less_psi_tier a b \<longleftrightarrow> tier_value a < tier_value b"

instance
proof
  fix a b :: psi_tier
  assume "a \<le> b" "b \<le> a"
  then show "a = b" by (cases a; cases b) (simp_all add: less_eq_psi_tier_def)
qed (auto simp: less_eq_psi_tier_def less_psi_tier_def)

end

text \<open>\<open>cand_name\<close> is \<^const>\<open>None\<close> for a null pointer.\<close>

record psi_candidate =
  cand_name :: "bytes option"
  process_id :: int
  tier :: psi_tier
  allow_shedding :: bool
  deny_shedding :: bool
  protected_process :: bool

datatype psi_notification_type = ALRIOS_PSI_NOTIFY_WARNING | ALRIOS_PSI_NOTIFY_SHED

text \<open>The candidate pointer of a notification is its index in the array of candidates.\<close>

record psi_notification =
  event_type :: psi_notification_type
  event_level :: psi_level
  pressure_percent :: rat
  event_candidate :: "nat option"

definition ALRIOS_PSI_MAX_SOURCE_BYTES :: nat where
  "ALRIOS_PSI_MAX_SOURCE_BYTES = 4096"

definition zero_values :: psi_values where
  "zero_values = \<lparr>avg10 = 0, avg60 = 0, avg300 = 0, total_us = 0\<rparr>"

definition zero_sample :: psi_sample where
  "zero_sample = \<lparr>some_values = zero_values, full_values = zero_values\<rparr>"

section \<open>Fields\<close>

text \<open>The character loop of \<open>parse_double_field\<close>: the head has index \<open>i\<close> of \<open>n\<close>.\<close>

fun double_chars :: "nat \<Rightarrow> nat \<Rightarrow> bool \<Rightarrow> bytes \<Rightarrow> bool" where
  "double_chars n i decimal_seen [] = True"
| "double_chars n i decimal_seen (c # cs) =
     (if c = 0x2e then
        if decimal_seen \<or> i = 0 \<or> i + 1 = n then False else double_chars n (i + 1) True cs
      else if \<not> isdigit c then False else double_chars n (i + 1) decimal_seen cs)"

text \<open>The decimal fraction that digits with at most one point spell.\<close>

definition decimal_fraction :: "bytes \<Rightarrow> rat" where
  "decimal_fraction cs =
     (let whole = takeWhile (\<lambda>c. c \<noteq> 0x2e) cs; frac = drop (length whole + 1) cs
      in of_nat (decimal (whole @ frac)) / 10 ^ length frac)"

definition parse_double_field :: "(rat \<Rightarrow> rat) \<Rightarrow> bytes \<Rightarrow> psi_status + rat" where
  "parse_double_field rnd val =
     (if val = [] \<or> 64 \<le> length val then Inl ALRIOS_PSI_ERR_FORMAT
      else if \<not> double_chars (length val) 0 False val then Inl ALRIOS_PSI_ERR_FORMAT
      else let parsed = rnd (decimal_fraction val)
           in if parsed < 0 \<or> 100 < parsed then Inl ALRIOS_PSI_ERR_FORMAT else Inr parsed)"

fun total_digits :: "u64 \<Rightarrow> bytes \<Rightarrow> psi_status + u64" where
  "total_digits parsed [] = Inr parsed"
| "total_digits parsed (c # cs) =
     (if \<not> isdigit c then Inl ALRIOS_PSI_ERR_FORMAT
      else let digit = of_nat (digit_value c)
           in if (- 1 - digit) div 10 < parsed then Inl ALRIOS_PSI_ERR_FORMAT
              else total_digits (parsed * 10 + digit) cs)"

definition parse_total_field :: "bytes \<Rightarrow> psi_status + u64" where
  "parse_total_field val = (if val = [] then Inl ALRIOS_PSI_ERR_FORMAT else total_digits 0 val)"

section \<open>Lines\<close>

definition field_names :: "bytes list" where
  "field_names = [ascii ''avg10'', ascii ''avg60'', ascii ''avg300'', ascii ''total'']"

fun field_index_of :: "bytes \<Rightarrow> nat \<Rightarrow> bytes list \<Rightarrow> nat option" where
  "field_index_of name i [] = None"
| "field_index_of name i (f # fs) = (if name = f then Some i else field_index_of name (i + 1) fs)"

text \<open>Storing a field: the status, and the values with the field written when it parses.\<close>

definition store_field :: "(rat \<Rightarrow> rat) \<Rightarrow> nat \<Rightarrow> bytes \<Rightarrow> psi_values \<Rightarrow> psi_status \<times> psi_values" where
  "store_field rnd i val v =
     (if i = 3 then
        (case parse_total_field val of Inl e \<Rightarrow> (e, v) | Inr x \<Rightarrow> (ALRIOS_PSI_OK, v\<lparr>total_us := x\<rparr>))
      else
        (case parse_double_field rnd val of
           Inl e \<Rightarrow> (e, v)
         | Inr x \<Rightarrow> (ALRIOS_PSI_OK,
             if i = 0 then v\<lparr>avg10 := x\<rparr> else if i = 1 then v\<lparr>avg60 := x\<rparr> else v\<lparr>avg300 := x\<rparr>)))"

text \<open>
  The token loop: \<open>rest\<close> is the line from the current position, \<open>seen\<close> the flags of the
  four fields.
\<close>

function parse_tokens :: "(rat \<Rightarrow> rat) \<Rightarrow> bool list \<Rightarrow> bytes \<Rightarrow> psi_values \<Rightarrow> psi_status \<times> psi_values" where
  "parse_tokens rnd seen rest v =
     (if rest = [] then (if list_all id seen then ALRIOS_PSI_OK else ALRIOS_PSI_ERR_FORMAT, v)
      else if hd rest = 0x20 then (ALRIOS_PSI_ERR_FORMAT, v)
      else
        let token = takeWhile (\<lambda>c. c \<noteq> 0x20) rest;
            behind = drop (length token) rest;
            name = takeWhile (\<lambda>c. c \<noteq> 0x3d) token;
            val = drop (length name + 1) token
        in if \<exists>c \<in> set token. c = 0x09 \<or> c = 0x0d \<or> c = 0 then (ALRIOS_PSI_ERR_FORMAT, v)
           else if name = [] \<or> length token \<le> length name + 1 then (ALRIOS_PSI_ERR_FORMAT, v)
           else case field_index_of name 0 field_names of
             None \<Rightarrow> (ALRIOS_PSI_ERR_FORMAT, v)
           | Some i \<Rightarrow>
               if seen ! i then (ALRIOS_PSI_ERR_FORMAT, v)
               else case store_field rnd i val v of (st, v') \<Rightarrow>
                 if st \<noteq> ALRIOS_PSI_OK then (st, v')
                 else if behind \<noteq> [] \<and> tl behind = [] then (ALRIOS_PSI_ERR_FORMAT, v')
                 else parse_tokens rnd (seen[i := True]) (tl behind) v')"
  by pat_completeness auto

termination
proof (relation "measure (\<lambda>(rnd, seen, rest, v). length rest)", simp)
  fix seen :: "bool list" and rest token behind :: bytes and v v' st i name val and rnd :: "rat \<Rightarrow> rat"
  assume ne: "rest \<noteq> []" and sp: "hd rest \<noteq> 0x20"
    and tok: "token = takeWhile (\<lambda>c. c \<noteq> 0x20) rest" and b: "behind = drop (length token) rest"
  have "token \<noteq> []" using ne sp tok by (cases rest) auto
  then have "length (tl behind) < length rest" using ne b by (cases token; cases rest) auto
  then show "((rnd, seen[i := True], tl behind, v'), rnd, seen, rest, v)
      \<in> measure (\<lambda>(rnd, seen, rest, v). length rest)" by simp
qed

declare parse_tokens.simps [simp del]

definition parse_psi_line :: "(rat \<Rightarrow> rat) \<Rightarrow> bytes \<Rightarrow> bytes \<Rightarrow> psi_values \<Rightarrow> psi_status \<times> psi_values" where
  "parse_psi_line rnd line expected_name out_values =
     (let n = length expected_name
      in if length line \<le> n \<or> take n line \<noteq> expected_name \<or> line ! n \<noteq> 0x20
         then (ALRIOS_PSI_ERR_FORMAT, out_values)
         else parse_tokens rnd [False, False, False, False] (drop (n + 1) line) zero_values)"

definition alrios_psi_parse_memory ::
  "(rat \<Rightarrow> rat) \<Rightarrow> bytes option \<Rightarrow> psi_sample option \<Rightarrow> psi_status \<times> psi_sample option" where
  "alrios_psi_parse_memory rnd datap outp =
     (case (datap, outp) of
        (Some data, Some old) \<Rightarrow>
          if length data = 0 \<or> ALRIOS_PSI_MAX_SOURCE_BYTES < length data then
            (if ALRIOS_PSI_MAX_SOURCE_BYTES < length data then ALRIOS_PSI_ERR_TOO_LARGE
             else ALRIOS_PSI_ERR_FORMAT, outp)
          else if 0 \<in> set data then (ALRIOS_PSI_ERR_FORMAT, outp)
          else
            let line1 = takeWhile (\<lambda>c. c \<noteq> 0x0a) data;
                first_end = length line1
            in if first_end = length data \<or> first_end = 0 then (ALRIOS_PSI_ERR_FORMAT, outp)
               else
                 let second_start = first_end + 1;
                     line2 = takeWhile (\<lambda>c. c \<noteq> 0x0a) (drop second_start data);
                     second_end = second_start + length line2
                 in if line2 = [] then (ALRIOS_PSI_ERR_FORMAT, outp)
                    else if second_end < length data \<and> second_end + 1 \<noteq> length data
                    then (ALRIOS_PSI_ERR_FORMAT, outp)
                    else case parse_psi_line rnd line1 (ascii ''some'') zero_values of (st1, some1) \<Rightarrow>
                      if st1 \<noteq> ALRIOS_PSI_OK then (st1, Some (zero_sample\<lparr>some_values := some1\<rparr>))
                      else case parse_psi_line rnd line2 (ascii ''full'') zero_values of (st2, full2) \<Rightarrow>
                        if st2 \<noteq> ALRIOS_PSI_OK then (st2, Some zero_sample)
                        else (ALRIOS_PSI_OK, Some \<lparr>some_values = some1, full_values = full2\<rparr>)
      | _ \<Rightarrow> (ALRIOS_PSI_ERR_ARGUMENT, outp))"

section \<open>Sources\<close>

text \<open>
  What the C stream of a file does: whether it opens, the bytes behind it, and whether
  reading, reading one byte more, and closing fail.
\<close>

datatype fopen_result = Opened | No_entry | Open_error

record psi_stream =
  fopen_as :: fopen_result
  stream_bytes :: bytes
  fread_error :: bool
  fgetc_error :: bool
  fclose_error :: bool

text \<open>The answer is the status and the bytes now at the front of the buffer.\<close>

definition read_file_source :: "psi_stream option \<Rightarrow> nat \<Rightarrow> psi_status + bytes" where
  "read_file_source filep capacity =
     (case filep of
        None \<Rightarrow> Inl ALRIOS_PSI_ERR_ARGUMENT
      | Some f \<Rightarrow>
          if capacity < 2 then Inl ALRIOS_PSI_ERR_ARGUMENT
          else case fopen_as f of
            No_entry \<Rightarrow> Inl ALRIOS_PSI_ERR_UNSUPPORTED
          | Open_error \<Rightarrow> Inl ALRIOS_PSI_ERR_IO
          | Opened \<Rightarrow>
              let got = take capacity (stream_bytes f)
              in if fread_error f then Inl ALRIOS_PSI_ERR_IO
                 else if length got = capacity \<and> \<not> fgetc_error f \<and> capacity < length (stream_bytes f)
                 then Inl ALRIOS_PSI_ERR_TOO_LARGE
                 else if length got = capacity \<and> fgetc_error f then Inl ALRIOS_PSI_ERR_IO
                 else if fclose_error f then Inl ALRIOS_PSI_ERR_IO
                 else Inr got)"

text \<open>
  A source is a function from the capacity of the buffer to an answer; the number of
  bytes it claims is the length of the list.
\<close>

definition alrios_psi_read_source ::
  "(rat \<Rightarrow> rat) \<Rightarrow> (nat \<Rightarrow> psi_status + bytes) option \<Rightarrow> psi_sample option \<Rightarrow> psi_status \<times> psi_sample option" where
  "alrios_psi_read_source rnd sourcep outp =
     (case (sourcep, outp) of
        (Some read, Some _) \<Rightarrow>
          (case read ALRIOS_PSI_MAX_SOURCE_BYTES of
             Inl e \<Rightarrow> (e, outp)
           | Inr data \<Rightarrow>
               if ALRIOS_PSI_MAX_SOURCE_BYTES < length data then (ALRIOS_PSI_ERR_TOO_LARGE, outp)
               else alrios_psi_parse_memory rnd (Some data) outp)
      | _ \<Rightarrow> (ALRIOS_PSI_ERR_ARGUMENT, outp))"

definition alrios_psi_read_memory_path ::
  "(rat \<Rightarrow> rat) \<Rightarrow> (bytes \<Rightarrow> psi_stream) \<Rightarrow> bytes option \<Rightarrow> psi_sample option \<Rightarrow> psi_status \<times> psi_sample option" where
  "alrios_psi_read_memory_path rnd fs pathp outp =
     (case (pathp, outp) of
        (Some path, Some _) \<Rightarrow> alrios_psi_read_source rnd (Some (read_file_source (Some (fs path)))) outp
      | _ \<Rightarrow> (ALRIOS_PSI_ERR_ARGUMENT, outp))"

definition alrios_psi_read_memory ::
  "(rat \<Rightarrow> rat) \<Rightarrow> (bytes \<Rightarrow> psi_stream) \<Rightarrow> psi_sample option \<Rightarrow> psi_status \<times> psi_sample option" where
  "alrios_psi_read_memory rnd fs outp =
     alrios_psi_read_memory_path rnd fs (Some (ascii ''/proc/pressure/memory'')) outp"

section \<open>Classification\<close>

definition alrios_psi_memory_pressure_percent :: "psi_sample option \<Rightarrow> rat" where
  "alrios_psi_memory_pressure_percent samplep =
     (case samplep of None \<Rightarrow> 0 | Some s \<Rightarrow> avg10 (some_values s))"

definition alrios_psi_classify_memory :: "psi_sample option \<Rightarrow> psi_level" where
  "alrios_psi_classify_memory samplep =
     (let pressure = alrios_psi_memory_pressure_percent samplep
      in if 90 \<le> pressure then ALRIOS_PSI_PRESSURE_SHEDDING
         else if 80 \<le> pressure then ALRIOS_PSI_PRESSURE_WARNING
         else ALRIOS_PSI_PRESSURE_NORMAL)"

section \<open>Candidates\<close>

definition extract_basename :: "bytes option \<Rightarrow> bytes option" where
  "extract_basename pathp =
     (case pathp of
        None \<Rightarrow> None
      | Some path \<Rightarrow>
          if 0x2f \<in> set path then Some (rev (takeWhile (\<lambda>c. c \<noteq> 0x2f) (rev path))) else Some path)"

definition protected_names :: "bytes list" where
  "protected_names =
     map ascii [''arcore'', ''arkernel'', ''arauth'', ''ardb'', ''ar_resourced'', ''supervisor'', ''router'',
       ''guest_router'', ''ar_supervisor'', ''ar_router'', ''ar_auditd'', ''ar_chronod'', ''ar_cored'', ''ar_eventd'']"

definition alrios_psi_is_core_daemon :: "bytes option \<Rightarrow> bool" where
  "alrios_psi_is_core_daemon namep =
     (if namep = None \<or> namep = Some [] then False
      else list_ex (\<lambda>p. strcmp (the (extract_basename namep)) p = 0) protected_names)"

definition candidate_is_eligible :: "psi_candidate \<Rightarrow> bool" where
  "candidate_is_eligible c \<longleftrightarrow>
     cand_name c \<noteq> None \<and> cand_name c \<noteq> Some [] \<and> 0 < process_id c \<and> allow_shedding c \<and>
     \<not> deny_shedding c \<and> \<not> protected_process c \<and> tier c \<noteq> ALRIOS_PSI_TIER_CORE \<and>
     \<not> alrios_psi_is_core_daemon (cand_name c)"

definition candidate_is_worker :: "psi_candidate \<Rightarrow> bool" where
  "candidate_is_worker c \<longleftrightarrow>
     cand_name c \<noteq> None \<and> cand_name c \<noteq> Some [] \<and> 0 < process_id c \<and>
     \<not> protected_process c \<and> tier c \<noteq> ALRIOS_PSI_TIER_CORE \<and>
     \<not> alrios_psi_is_core_daemon (cand_name c)"

definition compare_candidate_priority :: "psi_candidate \<Rightarrow> psi_candidate \<Rightarrow> int" where
  "compare_candidate_priority a b =
     (if tier b < tier a then -1
      else if tier a < tier b then 1
      else
        let name_cmp = strcmp (the (cand_name a)) (the (cand_name b))
        in if name_cmp \<noteq> 0 then name_cmp
           else if process_id a < process_id b then -1
           else if process_id b < process_id a then 1
           else 0)"

text \<open>The loop of select: \<open>best\<close> is \<^const>\<open>None\<close> while \<open>have_best\<close> is 0.\<close>

fun select_loop :: "psi_candidate list \<Rightarrow> nat \<Rightarrow> psi_candidate list \<Rightarrow> nat option \<Rightarrow> nat option" where
  "select_loop cands i [] best = best"
| "select_loop cands i (c # cs) best =
     select_loop cands (i + 1) cs
       (if \<not> candidate_is_eligible c then best
        else case best of
          None \<Rightarrow> Some i
        | Some b \<Rightarrow> if compare_candidate_priority c (cands ! b) < 0 then Some i else best)"

definition alrios_psi_select_candidate ::
  "psi_candidate list option \<Rightarrow> bool \<Rightarrow> nat \<Rightarrow> psi_status \<times> nat" where
  "alrios_psi_select_candidate candidatesp has_out old =
     (case candidatesp of
        None \<Rightarrow> (ALRIOS_PSI_ERR_ARGUMENT, old)
      | Some cands \<Rightarrow>
          if cands = [] \<or> \<not> has_out then (ALRIOS_PSI_ERR_ARGUMENT, old)
          else case select_loop cands 0 cands None of
            None \<Rightarrow> (ALRIOS_PSI_ERR_NO_CANDIDATE, old)
          | Some best_index \<Rightarrow> (ALRIOS_PSI_OK, best_index))"

section \<open>Evaluation\<close>

text \<open>The indices of the workers, in the order of the array.\<close>

fun collect_workers :: "nat \<Rightarrow> psi_candidate list \<Rightarrow> nat list \<Rightarrow> nat list" where
  "collect_workers i [] worker_indices = worker_indices"
| "collect_workers i (c # cs) worker_indices =
     collect_workers (i + 1) cs (if candidate_is_worker c then worker_indices @ [i] else worker_indices)"

text \<open>
  The insertion sort on the array of indices: the inner loop moves larger entries up and
  answers the free position.
\<close>

fun shift_up :: "(nat \<Rightarrow> nat \<Rightarrow> int) \<Rightarrow> nat \<Rightarrow> nat \<Rightarrow> nat list \<Rightarrow> nat list \<times> nat" where
  "shift_up cmp key_idx 0 ws = (ws, 0)"
| "shift_up cmp key_idx (Suc j) ws =
     (if cmp key_idx (ws ! j) < 0 then shift_up cmp key_idx j (ws[Suc j := ws ! j]) else (ws, Suc j))"

definition insert_step :: "(nat \<Rightarrow> nat \<Rightarrow> int) \<Rightarrow> nat \<Rightarrow> nat list \<Rightarrow> nat list" where
  "insert_step cmp i ws = (case shift_up cmp (ws ! i) i ws of (ws', j) \<Rightarrow> ws'[j := ws ! i])"

definition insertion_sort :: "(nat \<Rightarrow> nat \<Rightarrow> int) \<Rightarrow> nat list \<Rightarrow> nat list" where
  "insertion_sort cmp ws = fold (insert_step cmp) [1..<length ws] ws"

text \<open>
  The callback is a state transformer: it answers 0 for success. The notifications stop
  at the first failure.
\<close>

fun notify_all ::
  "('s \<Rightarrow> psi_notification \<Rightarrow> int \<times> 's) \<Rightarrow> psi_notification \<Rightarrow> nat list \<Rightarrow> 's \<Rightarrow> psi_status \<times> 's" where
  "notify_all notify ev [] s = (ALRIOS_PSI_OK, s)"
| "notify_all notify ev (w # ws) s =
     (case notify s (ev\<lparr>event_candidate := Some w\<rparr>) of (r, s') \<Rightarrow>
        if r \<noteq> 0 then (ALRIOS_PSI_ERR_NOTIFY, s') else notify_all notify ev ws s')"

text \<open>
  \<open>out\<close> is \<open>*out_candidate_index\<close>, \<^const>\<open>None\<close> for a null pointer; \<open>alloc\<close> is whether the
  array for more than 64 candidates can be allocated.
\<close>

definition alrios_psi_evaluate ::
  "bool \<Rightarrow> psi_sample option \<Rightarrow> psi_candidate list option \<Rightarrow> ('s \<Rightarrow> psi_notification \<Rightarrow> int \<times> 's) option \<Rightarrow>
   's \<Rightarrow> nat option \<Rightarrow> psi_status \<times> 's \<times> nat option" where
  "alrios_psi_evaluate alloc samplep candidatesp notifyp s out =
     (case (samplep, notifyp) of
        (Some sample, Some notify) \<Rightarrow>
          (let level = alrios_psi_classify_memory samplep
           in if level = ALRIOS_PSI_PRESSURE_NORMAL then (ALRIOS_PSI_OK, s, out)
              else
                let ev = \<lparr>event_type = (if level = ALRIOS_PSI_PRESSURE_SHEDDING then ALRIOS_PSI_NOTIFY_SHED
                                       else ALRIOS_PSI_NOTIFY_WARNING),
                          event_level = level,
                          pressure_percent = alrios_psi_memory_pressure_percent samplep,
                          event_candidate = None\<rparr>
                in if level = ALRIOS_PSI_PRESSURE_SHEDDING then
                     (case alrios_psi_select_candidate candidatesp True 0 of (st, idx) \<Rightarrow>
                        if st \<noteq> ALRIOS_PSI_OK then (st, s, out)
                        else case notify s (ev\<lparr>event_candidate := Some idx\<rparr>) of (r, s') \<Rightarrow>
                          (if r \<noteq> 0 then ALRIOS_PSI_ERR_NOTIFY else ALRIOS_PSI_OK, s', map_option (\<lambda>_. idx) out))
                   else
                     let cands = (case candidatesp of None \<Rightarrow> [] | Some cs \<Rightarrow> cs);
                         ws = insertion_sort (\<lambda>a b. compare_candidate_priority (cands ! a) (cands ! b))
                                (collect_workers 0 cands [])
                     in if 64 < length cands \<and> \<not> alloc then (ALRIOS_PSI_ERR_IO, s, out)
                        else if ws \<noteq> [] then
                          (case notify_all notify ev ws s of (st, s') \<Rightarrow> (st, s', map_option (\<lambda>_. hd ws) out))
                        else
                          (case notify s ev of (r, s') \<Rightarrow>
                             (if r \<noteq> 0 then ALRIOS_PSI_ERR_NOTIFY else ALRIOS_PSI_OK, s', out)))
      | _ \<Rightarrow> (ALRIOS_PSI_ERR_ARGUMENT, s, out))"

definition alrios_psi_status_string :: "int \<Rightarrow> string" where
  "alrios_psi_status_string status =
     (if status = 0 then ''ok''
      else if status = -1 then ''invalid argument''
      else if status = -2 then ''I/O failure''
      else if status = -3 then ''malformed PSI source''
      else if status = -4 then ''PSI source exceeds limit''
      else if status = -5 then ''Linux memory PSI is unavailable''
      else if status = -6 then ''no eligible shedding candidate''
      else if status = -7 then ''pressure notification failed''
      else ''unknown PSI error'')"

end
