(* ===== verification/PsiParse.thy ===== *)
theory PsiParse
  imports Psi
begin

text \<open>
  The language the pressure parser accepts: the fields of a line in any order, each
  exactly once, separated by single blanks, and the values they denote.
\<close>

section \<open>Numbers\<close>

abbreviation dec_from :: "nat \<Rightarrow> bytes \<Rightarrow> nat" where
  "dec_from \<equiv> foldl (\<lambda>n c. n * 10 + digit_value c)"

lemma dec_from_grows: "n \<le> dec_from n cs"
proof (induction cs arbitrary: n)
  case (Cons c cs)
  from Cons.IH [of "n * 10 + digit_value c"] show ?case by simp
qed simp

lemma unat_small: "d < 10 \<Longrightarrow> unat (of_nat d :: u64) = d"
  by (simp add: unsigned_of_nat take_bit_nat_eq_self)

text \<open>The overflow guard of the total is exact.\<close>

lemma total_guard:
  fixes p :: u64
  assumes "d < 10"
  shows "(- 1 - of_nat d) div 10 < p \<longleftrightarrow> 2 ^ 64 \<le> unat p * 10 + d"
proof -
  have "unat (- 1 - of_nat d :: u64) = 2 ^ 64 - 1 - d"
    using assms by (simp add: unat_sub_if' unsigned_minus_1_eq_mask mask_eq_exp_minus_1 unat_small)
  then have "unat ((- 1 - of_nat d) div 10 :: u64) = (2 ^ 64 - 1 - d) div 10"
    by (simp add: unat_div)
  then show ?thesis using assms by (simp add: word_less_nat_alt) linarith
qed

lemma total_digits_eq:
  "total_digits p cs =
    (if list_all isdigit cs \<and> dec_from (unat p) cs < 2 ^ 64 then Inr (of_nat (dec_from (unat p) cs))
     else Inl ALRIOS_PSI_ERR_FORMAT)"
proof (induction cs arbitrary: p)
  case Nil
  then show ?case using unsigned_less [of p] by simp
next
  case (Cons c cs)
  show ?case
  proof (cases "isdigit c")
    case True
    have d: "digit_value c < 10" using True by (rule digit_value_less)
    show ?thesis
    proof (cases "2 ^ 64 \<le> unat p * 10 + digit_value c")
      case big: True
      then have "\<not> dec_from (unat p) (c # cs) < 2 ^ 64"
        using dec_from_grows [of "unat p * 10 + digit_value c" cs] by simp
      then show ?thesis using True big by (simp add: total_guard [OF d])
    next
      case False
      then have "unat (p * 10 + of_nat (digit_value c)) = unat p * 10 + digit_value c"
        using d by (simp add: unat_word_ariths unat_small)
      then show ?thesis using True False Cons.IH by (simp add: total_guard [OF d])
    qed
  qed simp
qed

lemma parse_total_field_eq:
  "parse_total_field x =
    (if x \<noteq> [] \<and> list_all isdigit x \<and> decimal x < 2 ^ 64 then Inr (of_nat (decimal x))
     else Inl ALRIOS_PSI_ERR_FORMAT)"
  by (auto simp: parse_total_field_def total_digits_eq decimal_def)

lemma double_chars_seen:
  "double_chars n i True cs \<longleftrightarrow> list_all isdigit cs"
  by (induction cs arbitrary: i) (auto simp: isdigit_def)

text \<open>Digits, or digits with a point strictly between two of them.\<close>

definition decimal_syntax :: "bytes \<Rightarrow> bool" where
  "decimal_syntax cs \<longleftrightarrow> cs \<noteq> [] \<and>
     (list_all isdigit cs \<or>
      (\<exists>w f. cs = w @ 0x2e # f \<and> w \<noteq> [] \<and> f \<noteq> [] \<and> list_all isdigit w \<and> list_all isdigit f))"

lemma not_digit_point: "\<not> isdigit 0x2e"
  by (simp add: isdigit_def)

lemma double_chars_eq:
  "double_chars n i False cs \<longleftrightarrow>
    list_all isdigit cs \<or>
    (\<exists>w f. cs = w @ 0x2e # f \<and> 0 < i + length w \<and> i + length w + 1 \<noteq> n \<and> list_all isdigit w \<and> list_all isdigit f)"
proof (induction cs arbitrary: i)
  case (Cons c cs)
  show ?case
  proof (cases "c = 0x2e")
    case True
    have "(\<exists>w f. c # cs = w @ 0x2e # f \<and> 0 < i + length w \<and> i + length w + 1 \<noteq> n \<and> list_all isdigit w \<and>
        list_all isdigit f) \<longleftrightarrow> 0 < i \<and> i + 1 \<noteq> n \<and> list_all isdigit cs"
    proof (intro iffI)
      assume "0 < i \<and> i + 1 \<noteq> n \<and> list_all isdigit cs"
      then show "\<exists>w f. c # cs = w @ 0x2e # f \<and> 0 < i + length w \<and> i + length w + 1 \<noteq> n \<and> list_all isdigit w \<and>
        list_all isdigit f" using True by (intro exI [of _ "[]"] exI [of _ cs]) simp
    qed (use True not_digit_point in \<open>auto simp: Cons_eq_append_conv\<close>)
    then show ?thesis using True not_digit_point by (simp add: double_chars_seen)
  next
    case False
    then have "(\<exists>w f. c # cs = w @ 0x2e # f \<and> P w f) \<longleftrightarrow> (\<exists>w f. cs = w @ 0x2e # f \<and> P (c # w) f)" for P
      by (auto simp: Cons_eq_append_conv)
    then show ?thesis using False Cons.IH [of "i + 1"] by (auto simp del: ex_simps)
  qed
qed simp

lemma double_chars_syntax: "cs \<noteq> [] \<Longrightarrow> double_chars (length cs) 0 False cs \<longleftrightarrow> decimal_syntax cs"
proof -
  have "(cs = w @ 0x2e # f \<and> 0 < 0 + length w \<and> 0 + length w + 1 \<noteq> length cs \<and> list_all isdigit w \<and> list_all isdigit f)
    \<longleftrightarrow> (cs = w @ 0x2e # f \<and> w \<noteq> [] \<and> f \<noteq> [] \<and> list_all isdigit w \<and> list_all isdigit f)" for w f
    by auto
  then show "cs \<noteq> [] \<Longrightarrow> ?thesis" unfolding double_chars_eq decimal_syntax_def by simp
qed

lemma decimal_syntax_chars: "decimal_syntax cs \<Longrightarrow> c \<in> set cs \<Longrightarrow> isdigit c \<or> c = 0x2e"
  by (auto simp: decimal_syntax_def list_all_iff)

lemma parse_double_field_eq:
  "parse_double_field rnd x =
    (if decimal_syntax x \<and> length x < 64 \<and> 0 \<le> rnd (decimal_fraction x) \<and> rnd (decimal_fraction x) \<le> 100
     then Inr (rnd (decimal_fraction x)) else Inl ALRIOS_PSI_ERR_FORMAT)"
  by (cases "x = []") (auto simp: parse_double_field_def Let_def double_chars_syntax decimal_syntax_def [of "[]"])

section \<open>Lines\<close>

text \<open>A field is its index in \<^const>\<open>field_names\<close> with the text of its value.\<close>

type_synonym psi_field = "nat \<times> bytes"

definition field_text :: "psi_field \<Rightarrow> bytes" where
  "field_text f = field_names ! fst f @ 0x3d # snd f"

fun render_fields :: "psi_field list \<Rightarrow> bytes" where
  "render_fields [] = []"
| "render_fields [f] = field_text f"
| "render_fields (f # g # fs) = field_text f @ 0x20 # render_fields (g # fs)"

definition good_value :: "(rat \<Rightarrow> rat) \<Rightarrow> psi_field \<Rightarrow> bool" where
  "good_value rnd f \<longleftrightarrow> fst f < 4 \<and>
     (if fst f = 3 then \<exists>x. parse_total_field (snd f) = Inr x else \<exists>x. parse_double_field rnd (snd f) = Inr x)"

definition put_field :: "(rat \<Rightarrow> rat) \<Rightarrow> psi_values \<Rightarrow> psi_field \<Rightarrow> psi_values" where
  "put_field rnd v f = snd (store_field rnd (fst f) (snd f) v)"

lemma store_field_good:
  "i < 4 \<Longrightarrow> store_field rnd i x v = (ALRIOS_PSI_OK, v') \<longleftrightarrow> good_value rnd (i, x) \<and> v' = put_field rnd v (i, x)"
  by (auto simp: store_field_def good_value_def put_field_def parse_total_field_eq parse_double_field_eq
      split: if_splits)

lemma good_value_chars: "good_value rnd (i, x) \<Longrightarrow> x \<noteq> [] \<and> (\<forall>c \<in> set x. isdigit c \<or> c = 0x2e)"
  by (auto simp: good_value_def parse_total_field_eq parse_double_field_eq list_all_iff
      dest: decimal_syntax_chars split: if_splits)
    (simp add: decimal_syntax_def)

lemma nat_less_4: "i < 4 \<longleftrightarrow> i = 0 \<or> i = 1 \<or> i = 2 \<or> i = (3 :: nat)"
  by auto

lemma field_name_chars:
  "i < 4 \<Longrightarrow> field_names ! i \<noteq> [] \<and>
    (\<forall>c \<in> set (field_names ! i). c \<noteq> 0x3d \<and> c \<noteq> 0x20 \<and> c \<noteq> 0 \<and> c \<noteq> 0x0a \<and> c \<noteq> 0x09 \<and> c \<noteq> 0x0d)"
  by (auto simp: nat_less_4 field_names_def ascii_def)

lemma field_index_of_name: "field_index_of n 0 field_names = Some i \<longleftrightarrow> i < 4 \<and> n = field_names ! i"
proof
  assume "i < 4 \<and> n = field_names ! i"
  then show "field_index_of n 0 field_names = Some i"
    unfolding nat_less_4 by (elim conjE disjE) (simp_all add: field_names_def ascii_def)
qed (auto simp: field_names_def split: if_splits)

lemma value_char_plain:
  "isdigit c \<or> c = 0x2e \<Longrightarrow> c \<noteq> 0x3d \<and> c \<noteq> 0x20 \<and> c \<noteq> 0 \<and> c \<noteq> 0x0a \<and> c \<noteq> 0x09 \<and> c \<noteq> 0x0d"
  by (auto simp: isdigit_def)

lemma field_text_chars:
  "good_value rnd f \<Longrightarrow> c \<in> set (field_text f) \<Longrightarrow> c \<noteq> 0x20 \<and> c \<noteq> 0 \<and> c \<noteq> 0x0a \<and> c \<noteq> 0x09 \<and> c \<noteq> 0x0d"
proof (cases f)
  case (Pair i x)
  assume g: "good_value rnd f" and c: "c \<in> set (field_text f)"
  have "i < 4" using g by (simp add: good_value_def Pair)
  then show ?thesis
    using c field_name_chars [of i] value_char_plain [of c] good_value_chars g by (auto simp: field_text_def Pair)
qed

lemma field_text_ne [simp]: "field_text f \<noteq> []"
  by (simp add: field_text_def)

lemma render_fields_Cons:
  "render_fields (f # fs) = field_text f @ (if fs = [] then [] else 0x20 # render_fields fs)"
  by (cases fs) simp_all

lemma render_fields_empty [simp]: "render_fields fs = [] \<longleftrightarrow> fs = []"
  by (cases fs) (simp_all add: render_fields_Cons)

lemma render_fields_chars:
  "\<forall>f \<in> set fs. good_value rnd f \<Longrightarrow> c \<in> set (render_fields fs) \<Longrightarrow> c \<noteq> 0 \<and> c \<noteq> 0x0a"
proof (induction fs)
  case (Cons f fs)
  then show ?case using field_text_chars [of rnd f c] by (auto simp: render_fields_Cons split: if_splits)
qed simp

text \<open>One turn of the token loop on a line that starts with a well-formed field.\<close>

lemma takeWhile_front: "(\<forall>c \<in> set xs. P c) \<Longrightarrow> ys = [] \<or> \<not> P (hd ys) \<Longrightarrow> takeWhile P (xs @ ys) = xs"
  by (cases ys) (auto simp: takeWhile_append)

lemma parse_tokens_field:
  assumes g: "good_value rnd (i, x)" and new: "\<not> seen ! i"
  shows "parse_tokens rnd seen (field_text (i, x)) v = parse_tokens rnd (seen[i := True]) [] (put_field rnd v (i, x))"
    and "rest \<noteq> [] \<Longrightarrow> parse_tokens rnd seen (field_text (i, x) @ 0x20 # rest) v =
      parse_tokens rnd (seen[i := True]) rest (put_field rnd v (i, x))"
proof -
  let ?t = "field_text (i, x)"
  have i: "i < 4" using g by (simp add: good_value_def)
  have plain: "\<forall>c \<in> set ?t. c \<noteq> 0x20" "\<not> (\<exists>c \<in> set ?t. c = 0x09 \<or> c = 0x0d \<or> c = 0)" "hd ?t \<noteq> 0x20"
    using field_text_chars [OF g] hd_in_set [OF field_text_ne, of "(i, x)"] by auto
  have name: "takeWhile (\<lambda>c. c \<noteq> 0x3d) ?t = field_names ! i"
    unfolding field_text_def fst_conv by (rule takeWhile_front) (use field_name_chars [OF i] in auto)
  have ok: "store_field rnd i x v = (ALRIOS_PSI_OK, put_field rnd v (i, x))"
    using store_field_good [OF i] g by blast
  have val: "drop (Suc (length (field_names ! i))) ?t = x" "\<not> length ?t \<le> Suc (length (field_names ! i))"
    using good_value_chars [OF g] by (simp_all add: field_text_def)
  have ix: "field_index_of (field_names ! i) 0 field_names = Some i" using i by (simp add: field_index_of_name)
  have tok: "takeWhile (\<lambda>c. c \<noteq> 0x20) (?t @ w) = ?t" if "w = [] \<or> hd w = 0x20" for w
    by (rule takeWhile_front) (use plain that in auto)
  note facts = plain name ok val ix new field_name_chars [OF i]
  show "parse_tokens rnd seen ?t v = parse_tokens rnd (seen[i := True]) [] (put_field rnd v (i, x))"
    unfolding parse_tokens.simps [of rnd seen ?t v] Let_def tok [of "[]", unfolded append_Nil2, OF disjI1 [OF refl]] name
    by (simp add: facts)
  show "parse_tokens rnd seen (?t @ 0x20 # rest) v =
      parse_tokens rnd (seen[i := True]) rest (put_field rnd v (i, x))" if "rest \<noteq> []"
    unfolding parse_tokens.simps [of rnd seen "?t @ 0x20 # rest" v] Let_def tok [of "0x20 # rest", unfolded list.sel, OF disjI2 [OF refl]] name
    using that by (simp add: facts)
qed

lemma parse_tokens_complete:
  "length seen = 4 \<Longrightarrow> distinct (map fst fs) \<Longrightarrow> \<forall>f \<in> set fs. good_value rnd f \<Longrightarrow>
    set (map fst fs) = {i. i < 4 \<and> \<not> seen ! i} \<Longrightarrow>
    parse_tokens rnd seen (render_fields fs) v = (ALRIOS_PSI_OK, foldl (put_field rnd) v fs)"
proof (induction fs arbitrary: seen v)
  case Nil
  then have "list_all id seen" by (auto simp: list_all_length)
  then show ?case by (simp add: parse_tokens.simps)
next
  case (Cons f fs)
  obtain i x where f: "f = (i, x)" by fastforce
  have g: "good_value rnd (i, x)" and "i < 4" and new: "\<not> seen ! i" using Cons.prems(3,4) f by auto
  have sub: "set (map fst fs) = {j. j < 4 \<and> \<not> seen[i := True] ! j}"
  proof -
    have "set (map fst fs) = {j. j < 4 \<and> \<not> seen ! j} - {i}" using Cons.prems(2,4) f by auto
    then show ?thesis using \<open>i < 4\<close> Cons.prems(1) by (auto simp: nth_list_update)
  qed
  have "parse_tokens rnd seen (render_fields (f # fs)) v =
      parse_tokens rnd (seen[i := True]) (render_fields fs) (put_field rnd v (i, x))"
    using parse_tokens_field [OF g new] by (cases "fs = []") (simp_all add: render_fields_Cons f)
  also have "\<dots> = (ALRIOS_PSI_OK, foldl (put_field rnd) (put_field rnd v (i, x)) fs)"
    using Cons.IH [of "seen[i := True]" "put_field rnd v (i, x)"] Cons.prems sub by simp
  finally show ?case by (simp add: f)
qed

lemma split_at_char:
  "length (takeWhile (\<lambda>c. c \<noteq> k) xs) < length xs \<Longrightarrow>
    xs = takeWhile (\<lambda>c. c \<noteq> k) xs @ k # drop (Suc (length (takeWhile (\<lambda>c. c \<noteq> k) xs))) xs"
  by (induction xs) auto

text \<open>What an accepting run has consumed in its first turn.\<close>

lemma parse_tokens_accepts:
  assumes run: "parse_tokens rnd seen rest v = (ALRIOS_PSI_OK, v')" and ne: "rest \<noteq> []"
  obtains i x more where "good_value rnd (i, x)" "\<not> seen ! i"
    "rest = field_text (i, x) \<and> more = [] \<or> rest = field_text (i, x) @ 0x20 # more \<and> more \<noteq> []"
    "parse_tokens rnd (seen[i := True]) more (put_field rnd v (i, x)) = (ALRIOS_PSI_OK, v')"
proof -
  define tok where "tok = takeWhile (\<lambda>c. c \<noteq> 0x20) rest"
  define beh where "beh = drop (length tok) rest"
  define name where "name = takeWhile (\<lambda>c. c \<noteq> 0x3d) tok"
  define val where "val = drop (length name + 1) tok"
  note ok = run [unfolded parse_tokens.simps [of rnd seen rest v] Let_def, folded tok_def,
      folded beh_def name_def, folded val_def, unfolded if_not_P [OF ne]]
  have c1: "hd rest \<noteq> 0x20" by (rule notI) (use ok in simp)
  have c2: "\<not> (\<exists>c \<in> set tok. c = 0x09 \<or> c = 0x0d \<or> c = 0)"
    by (rule notI) (use ok c1 in \<open>simp only: if_True if_False prod.inject psi_status.distinct simp_thms\<close>)
  have c3: "\<not> (name = [] \<or> length tok \<le> length name + 1)"
    by (rule notI) (use ok c1 c2 in \<open>simp only: if_True if_False prod.inject psi_status.distinct simp_thms\<close>)
  note ok' = ok [unfolded if_not_P [OF c1] if_not_P [OF c2] if_not_P [OF c3]]
  obtain i where i: "field_index_of name 0 field_names = Some i" "\<not> seen ! i"
    using ok' by (simp split: option.splits if_splits)
  obtain w where w: "store_field rnd i val v = (ALRIOS_PSI_OK, w)" "\<not> (beh \<noteq> [] \<and> tl beh = [])"
      "parse_tokens rnd (seen[i := True]) (tl beh) w = (ALRIOS_PSI_OK, v')"
    using ok' i by (auto split: prod.splits if_splits)
  have ix: "i < 4" "name = field_names ! i" using i(1) by (simp_all add: field_index_of_name)
  have g: "good_value rnd (i, val)" "w = put_field rnd v (i, val)" using w(1) store_field_good [OF ix(1)] by auto
  have "tok = name @ 0x3d # val"
    using split_at_char [of "0x3d" tok] c3 unfolding name_def [symmetric] val_def by simp
  then have tok: "tok = field_text (i, val)" by (simp add: field_text_def ix)
  have "beh = [] \<and> rest = tok \<or> beh \<noteq> [] \<and> rest = tok @ 0x20 # tl beh"
  proof (cases "length tok < length rest")
    case True
    then show ?thesis using split_at_char [of "0x20" rest]
      unfolding tok_def [symmetric] beh_def by (simp add: tl_drop drop_Suc)
  next
    case False
    then have "beh = []" by (simp add: beh_def)
    moreover have "tok = rest" using False unfolding tok_def
      by (metis length_takeWhile_le linorder_not_less nat_less_le takeWhile_eq_take take_all)
    ultimately show ?thesis by simp
  qed
  then show ?thesis using that [OF g(1) i(2), of "tl beh"] w(2,3) g(2) tok by auto
qed

lemma parse_tokens_sound:
  "parse_tokens rnd seen rest v = (ALRIOS_PSI_OK, v') \<Longrightarrow> length seen = 4 \<Longrightarrow>
    \<exists>fs. rest = render_fields fs \<and> distinct (map fst fs) \<and> (\<forall>f \<in> set fs. good_value rnd f) \<and>
      set (map fst fs) = {i. i < 4 \<and> \<not> seen ! i} \<and> v' = foldl (put_field rnd) v fs"
proof (induction "length rest" arbitrary: seen rest v rule: less_induct)
  case less
  show ?case
  proof (cases "rest = []")
    case True
    then have "list_all id seen" "v' = v" using less.prems by (simp_all add: parse_tokens.simps split: if_splits)
    then show ?thesis using True less.prems(2) by (intro exI [of _ "[]"]) (auto simp: list_all_length)
  next
    case False
    from parse_tokens_accepts [OF less.prems(1) this] obtain i x rest' where
      g: "good_value rnd (i, x)" "\<not> seen ! i" and
      r: "rest = field_text (i, x) \<and> rest' = [] \<or> rest = field_text (i, x) @ 0x20 # rest' \<and> rest' \<noteq> []" and
      run: "parse_tokens rnd (seen[i := True]) rest' (put_field rnd v (i, x)) = (ALRIOS_PSI_OK, v')" .
    have i: "i < 4" using g by (simp add: good_value_def)
    have "length rest' < length rest" using r by auto
    from less.hyps [OF this run] less.prems(2) obtain fs where
      fs: "rest' = render_fields fs" "distinct (map fst fs)" "\<forall>f \<in> set fs. good_value rnd f"
        "set (map fst fs) = {j. j < 4 \<and> \<not> seen[i := True] ! j}" "v' = foldl (put_field rnd) (put_field rnd v (i, x)) fs"
      by auto
    have set': "{j. j < 4 \<and> \<not> seen ! j} = insert i {j. j < 4 \<and> \<not> seen[i := True] ! j}"
      using i g(2) less.prems(2) by (auto simp: nth_list_update)
    have "rest = render_fields ((i, x) # fs)" using r fs(1) by (auto simp: render_fields_Cons)
    moreover have "i \<notin> set (map fst fs)" using fs(4) i less.prems(2) by simp
    ultimately show ?thesis using fs g set' by (intro exI [of _ "(i, x) # fs"]) auto
  qed
qed

section \<open>Values\<close>

definition average_text :: "(rat \<Rightarrow> rat) \<Rightarrow> bytes \<Rightarrow> rat \<Rightarrow> bool" where
  "average_text rnd t x \<longleftrightarrow>
     decimal_syntax t \<and> length t < 64 \<and> x = rnd (decimal_fraction t) \<and> 0 \<le> x \<and> x \<le> 100"

definition total_text :: "bytes \<Rightarrow> u64 \<Rightarrow> bool" where
  "total_text t x \<longleftrightarrow> t \<noteq> [] \<and> list_all isdigit t \<and> unat x = decimal t"

text \<open>
  A line that spells the values \<open>v\<close>: the name, and the four fields once each in some order.
\<close>

definition psi_line :: "(rat \<Rightarrow> rat) \<Rightarrow> bytes \<Rightarrow> bytes \<Rightarrow> psi_values \<Rightarrow> bool" where
  "psi_line rnd name line v \<longleftrightarrow>
     (\<exists>t10 t60 t300 tt fs. mset fs = mset [(0, t10), (1, t60), (2, t300), (3, tt)] \<and>
        line = name @ 0x20 # render_fields fs \<and>
        average_text rnd t10 (avg10 v) \<and> average_text rnd t60 (avg60 v) \<and>
        average_text rnd t300 (avg300 v) \<and> total_text tt (total_us v))"

lemma parse_double_text: "parse_double_field rnd t = Inr x \<longleftrightarrow> average_text rnd t x"
  by (auto simp: parse_double_field_eq average_text_def)

lemma unat_eq_iff: "unat (x :: u64) = n \<longleftrightarrow> n < 2 ^ 64 \<and> x = of_nat n"
proof
  assume "unat x = n"
  then show "n < 2 ^ 64 \<and> x = of_nat n" using unsigned_less [of x] by auto
qed (simp add: unsigned_of_nat take_bit_nat_eq_self)

lemma parse_total_text: "parse_total_field t = Inr x \<longleftrightarrow> total_text t x"
  by (auto simp: parse_total_field_eq total_text_def unat_eq_iff)

lemma good_value_text:
  "good_value rnd (i, t) \<longleftrightarrow> i < 4 \<and> (if i = 3 then \<exists>x. total_text t x else \<exists>x. average_text rnd t x)"
  by (simp add: good_value_def parse_double_text parse_total_text)

lemma put_field_good:
  "good_value rnd (i, t) \<Longrightarrow> put_field rnd v (i, t) =
    (if i = 3 then v\<lparr>total_us := of_nat (decimal t)\<rparr>
     else if i = 0 then v\<lparr>avg10 := rnd (decimal_fraction t)\<rparr>
     else if i = 1 then v\<lparr>avg60 := rnd (decimal_fraction t)\<rparr>
     else v\<lparr>avg300 := rnd (decimal_fraction t)\<rparr>)"
  by (auto simp: good_value_def put_field_def store_field_def parse_double_field_eq parse_total_field_eq
      split: if_splits)

text \<open>Fields with different names can be stored in any order.\<close>

lemma put_field_commute:
  assumes "good_value rnd f" "good_value rnd g" "fst f \<noteq> fst g"
  shows "put_field rnd (put_field rnd v f) g = put_field rnd (put_field rnd v g) f"
proof -
  obtain i x j y where fg: "f = (i, x)" "g = (j, y)" by fastforce
  then have "i < 4" "j < 4" "i \<noteq> j" using assms by (auto simp: good_value_text)
  then show ?thesis using assms(1,2) unfolding fg by (simp add: put_field_good)
qed

lemma foldl_put_commute:
  "\<forall>g \<in> set fs. good_value rnd g \<and> fst f \<noteq> fst g \<Longrightarrow> good_value rnd f \<Longrightarrow>
    foldl (put_field rnd) (put_field rnd v f) fs = put_field rnd (foldl (put_field rnd) v fs) f"
  by (induction fs arbitrary: v) (simp_all add: put_field_commute)

lemma foldl_put_mset:
  "mset fs = mset gs \<Longrightarrow> distinct (map fst fs) \<Longrightarrow> \<forall>f \<in> set fs. good_value rnd f \<Longrightarrow>
    foldl (put_field rnd) v fs = foldl (put_field rnd) v gs"
proof (induction fs arbitrary: gs v)
  case (Cons f fs)
  then have "f \<in> set gs" by (metis list.set_intros(1) mset_eq_setD)
  then obtain as bs where gs: "gs = as @ f # bs" by (meson split_list)
  have m: "mset fs = mset (as @ bs)" using Cons.prems(1) gs by simp
  have "set as \<subseteq> set fs" using mset_eq_setD [OF m] by auto
  then have as: "\<forall>g \<in> set as. good_value rnd g \<and> fst f \<noteq> fst g" using Cons.prems(2,3) by auto
  have "foldl (put_field rnd) v (f # fs) = foldl (put_field rnd) (put_field rnd v f) (as @ bs)"
    using Cons.IH [OF m] Cons.prems(2,3) by simp
  also have "\<dots> = foldl (put_field rnd) v gs"
    using foldl_put_commute [OF as] Cons.prems(3) by (simp add: gs)
  finally show ?case .
qed simp

lemma four_indices: "{i. i < 4} = {0, 1, 2, 3 :: nat}"
  by auto

lemma none_seen: "{i. i < 4 \<and> \<not> [False, False, False, False] ! i} = {i. i < 4}"
  by (auto simp: nat_less_4)

lemma fields_split:
  assumes "distinct (map fst fs)" "set (map fst fs) = {i. i < 4}"
  obtains t10 t60 t300 tt where "mset fs = mset [(0 :: nat, t10), (1, t60), (2, t300), (3, tt)]"
proof -
  have has: "\<exists>t. (i, t) \<in> set fs" if "i \<in> {0, 1, 2, 3}" for i
  proof -
    have "i \<in> fst ` set fs" using that assms(2) unfolding four_indices set_map by blast
    then show ?thesis by (metis imageE prod.collapse)
  qed
  obtain a b c d where m: "(0, a) \<in> set fs" "(1, b) \<in> set fs" "(2, c) \<in> set fs" "(3, d) \<in> set fs"
    using has [of 0] has [of 1] has [of 2] has [of 3] by simp blast
  let ?l = "[(0 :: nat, a), (1, b), (2, c), (3, d)]"
  have "set fs = set ?l"
  proof
    show "set fs \<subseteq> set ?l"
    proof
      fix f assume f: "f \<in> set fs"
      then have "fst f \<in> set (map fst fs)" by simp
      then have "fst f \<in> {0, 1, 2, 3}" unfolding assms(2) four_indices .
      moreover have "f = g" if "g \<in> set fs" "fst f = fst g" for g
        using assms(1) f that by (metis eq_key_imp_eq_value prod.collapse)
      ultimately show "f \<in> set ?l" using m by auto
    qed
  qed (use m in auto)
  moreover have "distinct fs" using assms(1) by (simp add: distinct_map)
  moreover have "distinct ?l" by simp
  ultimately have "mset fs = mset ?l" using set_eq_iff_mset_eq_distinct by blast
  then show ?thesis by (rule that)
qed

definition four_values :: "(rat \<Rightarrow> rat) \<Rightarrow> bytes \<Rightarrow> bytes \<Rightarrow> bytes \<Rightarrow> bytes \<Rightarrow> psi_values" where
  "four_values rnd a b c d = \<lparr>avg10 = rnd (decimal_fraction a), avg60 = rnd (decimal_fraction b),
     avg300 = rnd (decimal_fraction c), total_us = of_nat (decimal d)\<rparr>"

lemma four_fields:
  "\<forall>f \<in> {(0, a), (1, b), (2, c), (3, d)}. good_value rnd f \<Longrightarrow>
    foldl (put_field rnd) zero_values [(0, a), (1, b), (2, c), (3, d)] = four_values rnd a b c d"
  by (simp add: put_field_good zero_values_def four_values_def)

lemma four_texts:
  "average_text rnd a (avg10 v) \<and> average_text rnd b (avg60 v) \<and> average_text rnd c (avg300 v) \<and>
     total_text d (total_us v) \<longleftrightarrow>
   (\<forall>f \<in> {(0, a), (1, b), (2, c), (3, d)}. good_value rnd f) \<and> v = four_values rnd a b c d"
  by (cases v) (auto simp: good_value_text four_values_def average_text_def total_text_def unat_eq_iff)

lemma parse_psi_line_eq:
  "parse_psi_line rnd line name old = (ALRIOS_PSI_OK, v) \<longleftrightarrow> psi_line rnd name line v"
proof
  assume run: "parse_psi_line rnd line name old = (ALRIOS_PSI_OK, v)"
  let ?n = "length name"
  have p: "?n < length line" "take ?n line = name" "line ! ?n = 0x20"
      "parse_tokens rnd [False, False, False, False] (drop (?n + 1) line) zero_values = (ALRIOS_PSI_OK, v)"
    using run by (auto simp: parse_psi_line_def Let_def split: if_splits)
  have line: "line = name @ 0x20 # drop (?n + 1) line"
    using p(1-3) by (metis Cons_nth_drop_Suc Suc_eq_plus1 append_take_drop_id)
  from parse_tokens_sound [OF p(4)] none_seen obtain fs where fs: "drop (?n + 1) line = render_fields fs"
      "distinct (map fst fs)" "\<forall>f \<in> set fs. good_value rnd f" "set (map fst fs) = {i. i < 4}"
      "v = foldl (put_field rnd) zero_values fs" by auto
  obtain a b c d where m: "mset fs = mset [(0, a), (1, b), (2, c), (3, d)]" using fields_split [OF fs(2,4)] .
  have g: "\<forall>f \<in> {(0, a), (1, b), (2, c), (3, d)}. good_value rnd f" using fs(3) mset_eq_setD [OF m] by simp
  have "v = four_values rnd a b c d" using fs(5) foldl_put_mset [OF m fs(2,3)] four_fields [OF g] by simp
  then show "psi_line rnd name line v"
    unfolding psi_line_def using m line fs(1) four_texts [of rnd a v b c d] g by metis
next
  assume "psi_line rnd name line v"
  then obtain a b c d fs where m: "mset fs = mset [(0, a), (1, b), (2, c), (3, d)]"
      and line: "line = name @ 0x20 # render_fields fs" and x: "average_text rnd a (avg10 v)"
        "average_text rnd b (avg60 v)" "average_text rnd c (avg300 v)" "total_text d (total_us v)"
    by (auto simp: psi_line_def)
  have "mset (map fst fs) = mset [0, 1, 2, 3]" using arg_cong [OF m, of "image_mset fst"] by simp
  from mset_eq_imp_distinct_iff [OF this] mset_eq_setD [OF this]
  have d: "distinct (map fst fs)" "set (map fst fs) = {0, 1, 2, 3}" by (simp_all del: set_map)
  have g: "\<forall>f \<in> {(0, a), (1, b), (2, c), (3, d)}. good_value rnd f" and v: "v = four_values rnd a b c d"
    using x four_texts by blast+
  then have g': "\<forall>f \<in> set fs. good_value rnd f" using mset_eq_setD [OF m] by simp
  have "foldl (put_field rnd) zero_values fs = v"
    using foldl_put_mset [OF m d(1) g'] four_fields [OF g] v by simp
  then have "parse_tokens rnd [False, False, False, False] (render_fields fs) zero_values = (ALRIOS_PSI_OK, v)"
    using parse_tokens_complete [OF _ d(1) g', of "[False, False, False, False]" zero_values]
    unfolding d(2) none_seen four_indices by simp
  then show "parse_psi_line rnd line name old = (ALRIOS_PSI_OK, v)" by (simp add: parse_psi_line_def line)
qed

section \<open>The file\<close>

lemma psi_line_chars: "psi_line rnd name line v \<Longrightarrow> 0 \<notin> set name \<Longrightarrow> 0x0a \<notin> set name \<Longrightarrow>
    line \<noteq> [] \<and> 0 \<notin> set line \<and> 0x0a \<notin> set line"
proof -
  assume "psi_line rnd name line v" and n: "0 \<notin> set name" "0x0a \<notin> set name"
  then obtain a b c d fs where m: "mset fs = mset [(0, a), (1, b), (2, c), (3, d)]"
      and line: "line = name @ 0x20 # render_fields fs"
      and x: "average_text rnd a (avg10 v) \<and> average_text rnd b (avg60 v) \<and> average_text rnd c (avg300 v) \<and>
        total_text d (total_us v)"
    unfolding psi_line_def by blast
  have "\<forall>f \<in> set fs. good_value rnd f" using x four_texts mset_eq_setD [OF m] by auto
  from render_fields_chars [OF this] n show ?thesis by (auto simp: line)
qed

lemma takeWhile_until: "k \<notin> set xs \<Longrightarrow> takeWhile (\<lambda>c. c \<noteq> k) (xs @ k # ys) = xs"
  by (rule takeWhile_front) auto

lemma ascii_name_chars [simp]:
  "0 \<notin> set (ascii ''some'')" "10 \<notin> set (ascii ''some'')" "0 \<notin> set (ascii ''full'')" "10 \<notin> set (ascii ''full'')"
  by (simp_all add: ascii_def)

text \<open>Cutting the file into its two lines.\<close>

lemma two_lines:
  fixes data :: bytes
  defines "l1 \<equiv> takeWhile (\<lambda>c. c \<noteq> 0x0a) data"
  defines "l2 \<equiv> takeWhile (\<lambda>c. c \<noteq> 0x0a) (drop (length l1 + 1) data)"
  assumes "length l1 \<noteq> length data"
    "\<not> (length l1 + 1 + length l2 < length data \<and> length l1 + 1 + length l2 + 1 \<noteq> length data)"
  shows "\<exists>e \<in> {[], [0x0a]}. data = l1 @ 0x0a # l2 @ e"
proof -
  have lt: "length l1 < length data" using assms(3) length_takeWhile_le [of _ data] unfolding l1_def by (simp add: le_neq_implies_less)
  let ?r = "drop (length l1 + 1) data"
  have d: "data = l1 @ 0x0a # ?r" using split_at_char [of "0x0a" data] lt unfolding l1_def by simp
  show ?thesis
  proof (cases "length l2 < length ?r")
    case True
    have r: "?r = l2 @ 0x0a # drop (Suc (length l2)) ?r" using split_at_char [of "0x0a" ?r] True unfolding l2_def by simp
    have "drop (Suc (length l2)) ?r = []" using assms(4) True by auto
    then have "?r = l2 @ [0x0a]" using r by simp
    then show ?thesis using d by auto
  next
    case False
    then have "l2 = ?r" unfolding l2_def by (metis length_takeWhile_le linorder_not_less nat_less_le takeWhile_eq_take take_all)
    then show ?thesis using d by auto
  qed
qed


end
