(* ===== verification/PsiSpec.thy ===== *)
theory PsiSpec
  imports PsiParse "HOL-Library.Product_Lexorder"
begin

text \<open>
  Who is warned and who is shed: the insertion sort on the index array is the stable
  sort by priority, selection finds the first candidate of least priority key, and no
  notification ever names a protected process.
\<close>

section \<open>Sorting indices with a comparison function\<close>

lemma sorted_map_while:
  "sorted (map f xs) \<Longrightarrow> sorted (map f (dropWhile P xs))"
  "sorted (map f xs) \<Longrightarrow> sorted (map f (takeWhile P xs))"
proof -
  assume "sorted (map f xs)"
  then show "sorted (map f (dropWhile P xs))" "sorted (map f (takeWhile P xs))"
    by (metis drop_map dropWhile_eq_drop sorted_wrt_drop, metis take_map takeWhile_eq_take sorted_wrt_take)
qed

text \<open>
  The contract between the sort and the comparison: on good indices a negative answer
  means a smaller key.
\<close>

locale priority_order =
  fixes cmp :: "nat \<Rightarrow> nat \<Rightarrow> int" and key :: "nat \<Rightarrow> 'k :: linorder" and good :: "nat \<Rightarrow> bool"
  assumes cmp_negative: "good a \<Longrightarrow> good b \<Longrightarrow> cmp a b < 0 \<longleftrightarrow> key a < key b"
begin

text \<open>Insertion behind everything that is not larger.\<close>

definition ins :: "nat \<Rightarrow> nat list \<Rightarrow> nat list" where
  "ins k xs = takeWhile (\<lambda>a. key a \<le> key k) xs @ k # dropWhile (\<lambda>a. key a \<le> key k) xs"

lemma shift_up_ins:
  "j < length ws \<Longrightarrow> \<forall>a \<in> set (k # take j ws). good a \<Longrightarrow> sorted (map key (take j ws)) \<Longrightarrow>
    (case shift_up cmp k j ws of (ws', i) \<Rightarrow> ws'[i := k]) = ins k (take j ws) @ drop (Suc j) ws"
proof (induction j arbitrary: ws)
  case 0
  then show ?case by (cases ws) (simp_all add: ins_def)
next
  case (Suc j)
  have tk: "take (Suc j) ws = take j ws @ [ws ! j]" using Suc.prems(1) by (simp add: take_Suc_conv_app_nth)
  have good: "good k" "good (ws ! j)" using Suc.prems(2) by (simp_all add: tk)
  have srt: "sorted (map key (take j ws))" "\<forall>a \<in> set (take j ws). key a \<le> key (ws ! j)"
    using Suc.prems(3) by (auto simp: tk sorted_append)
  show ?case
  proof (cases "cmp k (ws ! j) < 0")
    case True
    let ?w = "ws[Suc j := ws ! j]"
    have "drop (Suc j) ?w = ws ! j # drop (Suc (Suc j)) ws"
      using Suc.prems(1) by (metis Cons_nth_drop_Suc drop_update_cancel length_list_update lessI nth_list_update_eq)
    moreover have "\<not> key (ws ! j) \<le> key k" using True good cmp_negative by simp
    then have "ins k (take (Suc j) ws) = ins k (take j ws) @ [ws ! j]"
      by (simp add: ins_def tk takeWhile_tail dropWhile_append3)
    ultimately show ?thesis using True Suc.IH [of ?w] Suc.prems srt by (simp add: tk)
  next
    case False
    then have "key (ws ! j) \<le> key k" using good cmp_negative by (simp add: not_less)
    then have all: "\<forall>a \<in> set (take (Suc j) ws). key a \<le> key k" using srt(2) by (auto simp: tk)
    then have "takeWhile (\<lambda>a. key a \<le> key k) (take (Suc j) ws) = take (Suc j) ws"
        "dropWhile (\<lambda>a. key a \<le> key k) (take (Suc j) ws) = []" by (simp_all del: take_Suc)
    then have "ins k (take (Suc j) ws) = take (Suc j) ws @ [k]" unfolding ins_def by simp
    then show ?thesis using False Suc.prems(1) by (simp add: upd_conv_take_nth_drop)
  qed
qed

lemma ins_sort_key: "ins k (sort_key key xs) = sort_key key (xs @ [k])"
proof (rule properties_for_sort_key [symmetric])
  let ?s = "sort_key key xs" and ?P = "\<lambda>a. key a \<le> key k"
  have d: "\<forall>a \<in> set (dropWhile ?P ?s). key k < key a"
  proof -
    have "sorted (map key (dropWhile ?P ?s))" by (simp add: sorted_map_while)
    moreover have "dropWhile ?P ?s \<noteq> [] \<Longrightarrow> \<not> ?P (hd (dropWhile ?P ?s))" by (rule hd_dropWhile)
    ultimately show ?thesis by (cases "dropWhile ?P ?s") (auto simp: not_le simp del: dropWhile_eq_Nil_conv)
  qed
  show "mset (ins k ?s) = mset (xs @ [k])"
    by (simp add: ins_def) (metis mset_append mset_sort takeWhile_dropWhile_id)
  show "sorted (map key (ins k ?s))"
    using d by (auto simp: ins_def sorted_append sorted_map_while
        dest: set_takeWhileD intro: order_trans less_imp_le)
  fix c assume "c \<in> set (ins k ?s)"
  have "filter (\<lambda>x. key c = key x) (takeWhile ?P ?s) @ filter (\<lambda>x. key c = key x) (dropWhile ?P ?s) =
      filter (\<lambda>x. key c = key x) ?s"
    by (metis filter_append takeWhile_dropWhile_id)
  moreover have "filter (\<lambda>x. key c = key x) (dropWhile ?P ?s) = []" if "key c = key k"
    using d that by (auto simp: filter_empty_conv)
  ultimately have "filter (\<lambda>x. key c = key x) (ins k ?s) = filter (\<lambda>x. key c = key x) (?s @ [k])"
    by (cases "key c = key k") (simp_all add: ins_def)
  then show "filter (\<lambda>x. key c = key x) (ins k ?s) = filter (\<lambda>x. key c = key x) (xs @ [k])"
    by (simp add: eq_commute [of "key c"] sort_key_stable)
qed

lemma insertion_sort_prefix:
  assumes "\<forall>a \<in> set ws. good a" "m < length ws"
  shows "fold (insert_step cmp) [1..<Suc m] ws = sort_key key (take (Suc m) ws) @ drop (Suc m) ws"
  using assms(2)
proof (induction m)
  case 0
  then show ?case by (cases ws) simp_all
next
  case (Suc m)
  let ?s = "sort_key key (take (Suc m) ws)"
  let ?w = "?s @ drop (Suc m) ws"
  have len: "length ?s = Suc m" using Suc.prems by simp
  have nth: "?w ! Suc m = ws ! Suc m" "drop (Suc (Suc m)) ?w = drop (Suc (Suc m)) ws" "take (Suc m) ?w = ?s"
    using Suc.prems len by (simp_all add: nth_append)
  have good: "\<forall>a \<in> set (ws ! Suc m # take (Suc m) ?w). good a"
    using assms(1) Suc.prems nth by (auto dest: in_set_takeD)
  have "fold (insert_step cmp) [1..<Suc (Suc m)] ws = insert_step cmp (Suc m) ?w"
    using Suc.IH Suc.prems by simp
  also have "\<dots> = ins (ws ! Suc m) ?s @ drop (Suc (Suc m)) ws"
    using shift_up_ins [of "Suc m" ?w "ws ! Suc m"] Suc.prems good nth unfolding insert_step_def by simp
  also have "\<dots> = sort_key key (take (Suc (Suc m)) ws) @ drop (Suc (Suc m)) ws"
    using Suc.prems by (simp add: ins_sort_key take_Suc_conv_app_nth [of "Suc m"])
  finally show ?case .
qed

lemma insertion_sort_sort_key: "\<forall>a \<in> set ws. good a \<Longrightarrow> insertion_sort cmp ws = sort_key key ws"
proof (cases ws)
  case (Cons a as)
  assume "\<forall>a \<in> set ws. good a"
  from insertion_sort_prefix [OF this, of "length as"] show ?thesis
    by (simp add: insertion_sort_def Cons)
qed (simp add: insertion_sort_def)

end

section \<open>The priority of a candidate\<close>

text \<open>The names are C strings: no NUL before their end.\<close>

definition c_names :: "psi_candidate list \<Rightarrow> bool" where
  "c_names cands \<longleftrightarrow> (\<forall>c \<in> set cands. \<forall>n. cand_name c = Some n \<longrightarrow> 0 \<notin> set n)"

text \<open>Least first: best-effort before worker before core, then by name, then by process.\<close>

definition priority :: "psi_candidate \<Rightarrow> int \<times> bytes \<times> int" where
  "priority c = (- int (tier_value (tier c)), the (cand_name c), process_id c)"

definition c_named :: "psi_candidate \<Rightarrow> bool" where
  "c_named c \<longleftrightarrow> cand_name c \<noteq> None \<and> 0 \<notin> set (the (cand_name c))"

lemma compare_negative:
  assumes "c_named a" "c_named b"
  shows "compare_candidate_priority a b < 0 \<longleftrightarrow> priority a < priority b"
proof -
  obtain m n where n: "cand_name a = Some m" "cand_name b = Some n" "0 \<notin> set m" "0 \<notin> set n"
    using assms by (auto simp: c_named_def)
  consider "tier_value (tier b) < tier_value (tier a)" | "tier_value (tier a) < tier_value (tier b)"
    | "tier_value (tier a) = tier_value (tier b)" by linarith
  then show ?thesis
  proof cases
    case 3
    then show ?thesis
      using strcmp_negative [OF n(4), of m] strcmp_zero [OF n(3,4)]
      by (cases "m = n") (auto simp: compare_candidate_priority_def priority_def less_psi_tier_def n(1,2) Let_def)
  qed (simp_all add: compare_candidate_priority_def priority_def less_psi_tier_def)
qed

interpretation candidate_order: priority_order
  "\<lambda>a b. compare_candidate_priority (cands ! a) (cands ! b)" "\<lambda>i. priority (cands ! i)" "\<lambda>i. c_named (cands ! i)"
  for cands
  by unfold_locales (rule compare_negative)

lemma collect_workers_eq:
  "collect_workers i cs ws = ws @ map ((+) i) [k \<leftarrow> [0..<length cs]. candidate_is_worker (cs ! k)]"
proof (induction i cs ws rule: collect_workers.induct)
  case (2 i c cs ws)
  have "[k \<leftarrow> [0..<length (c # cs)]. candidate_is_worker ((c # cs) ! k)] =
      (if candidate_is_worker c then [0] else []) @ map Suc [k \<leftarrow> [0..<length cs]. candidate_is_worker (cs ! k)]"
  proof -
    have "[0..<length (c # cs)] = 0 # map Suc [0..<length cs]" by (simp add: upt_conv_Cons map_Suc_upt del: upt_Suc)
    then show ?thesis by (simp add: filter_map comp_def del: upt_Suc)
  qed
  then show ?case using 2 by (simp add: comp_def del: upt_Suc)
qed simp

text \<open>The workers of an array, in the order in which they are to be warned.\<close>

definition workers_by_priority :: "psi_candidate list \<Rightarrow> nat list" where
  "workers_by_priority cands =
     sort_key (\<lambda>i. priority (cands ! i)) [i \<leftarrow> [0..<length cands]. candidate_is_worker (cands ! i)]"

lemma worker_c_named: "c_names cands \<Longrightarrow> i < length cands \<Longrightarrow> candidate_is_worker (cands ! i) \<Longrightarrow> c_named (cands ! i)"
  unfolding c_names_def c_named_def candidate_is_worker_def by (metis nth_mem option.collapse)

lemma plus_0: "map ((+) (0 :: nat)) xs = xs"
  by (simp add: map_idI)

lemma sorted_workers:
  "c_names cands \<Longrightarrow>
    insertion_sort (\<lambda>a b. compare_candidate_priority (cands ! a) (cands ! b)) (collect_workers 0 cands []) =
    workers_by_priority cands"
  unfolding workers_by_priority_def collect_workers_eq
  by (subst candidate_order.insertion_sort_sort_key) (auto simp: worker_c_named comp_def plus_0)

section \<open>Selection\<close>

definition first_best :: "psi_candidate list \<Rightarrow> nat \<Rightarrow> nat \<Rightarrow> bool" where
  "first_best cands n b \<longleftrightarrow> b < n \<and> candidate_is_eligible (cands ! b) \<and>
     (\<forall>j < n. candidate_is_eligible (cands ! j) \<longrightarrow>
        priority (cands ! b) \<le> priority (cands ! j) \<and> (j < b \<longrightarrow> priority (cands ! b) < priority (cands ! j)))"

lemma eligible_c_named: "c_names cands \<Longrightarrow> i < length cands \<Longrightarrow> candidate_is_eligible (cands ! i) \<Longrightarrow> c_named (cands ! i)"
  unfolding c_names_def c_named_def candidate_is_eligible_def by (metis nth_mem option.collapse)

text \<open>What the scan has established before index \<open>n\<close>.\<close>

definition scanned_to :: "psi_candidate list \<Rightarrow> nat \<Rightarrow> nat option \<Rightarrow> bool" where
  "scanned_to cands n best \<longleftrightarrow>
     (case best of
        None \<Rightarrow> \<forall>j < n. \<not> candidate_is_eligible (cands ! j)
      | Some b \<Rightarrow> first_best cands n b)"

lemma scanned_step:
  assumes "c_names cands" "n < length cands" "scanned_to cands n best"
  shows "scanned_to cands (Suc n)
    (if \<not> candidate_is_eligible (cands ! n) then best
     else case best of
       None \<Rightarrow> Some n
     | Some b \<Rightarrow> if compare_candidate_priority (cands ! n) (cands ! b) < 0 then Some n else best)"
proof (cases "candidate_is_eligible (cands ! n)")
  case False
  then show ?thesis using assms(3)
    by (cases best) (auto simp: scanned_to_def first_best_def less_Suc_eq)
next
  case el: True
  show ?thesis
  proof (cases best)
    case None
    then show ?thesis using el assms(3) by (auto simp: scanned_to_def first_best_def less_Suc_eq)
  next
    case (Some b)
    then have b: "first_best cands n b" using assms(3) by (simp add: scanned_to_def)
    then have "c_named (cands ! b)" using eligible_c_named [OF assms(1)] assms(2) by (simp add: first_best_def)
    then have cmp: "compare_candidate_priority (cands ! n) (cands ! b) < 0 \<longleftrightarrow> priority (cands ! n) < priority (cands ! b)"
      using compare_negative eligible_c_named [OF assms(1,2) el] by blast
    show ?thesis
    proof (cases "priority (cands ! n) < priority (cands ! b)")
      case True
      then have "first_best cands (Suc n) n" using b el
        by (auto simp: first_best_def less_Suc_eq intro: less_imp_le less_le_trans)
      then show ?thesis using True cmp el Some by (simp add: scanned_to_def)
    next
      case False
      then have "first_best cands (Suc n) b" using b el
        by (auto simp: first_best_def less_Suc_eq not_less)
      then show ?thesis using False cmp el Some by (simp add: scanned_to_def)
    qed
  qed
qed

lemma select_loop_scanned:
  "c_names cands \<Longrightarrow> n \<le> length cands \<Longrightarrow> scanned_to cands n best \<Longrightarrow>
    scanned_to cands (length cands) (select_loop cands n (drop n cands) best)"
proof (induction "length cands - n" arbitrary: n best)
  case (Suc k)
  then have n: "n < length cands" by simp
  show ?case
    using Suc.hyps(1) [of "Suc n"] Suc.hyps(2) Suc.prems n scanned_step [OF Suc.prems(1) n Suc.prems(3)]
    by (simp add: Cons_nth_drop_Suc [symmetric, of n cands])
qed simp

lemma select_candidate_eq:
  assumes "c_names cands" "cands \<noteq> []"
  shows "(\<exists>b. alrios_psi_select_candidate (Some cands) True old = (ALRIOS_PSI_OK, b) \<and> first_best cands (length cands) b) \<or>
    alrios_psi_select_candidate (Some cands) True old = (ALRIOS_PSI_ERR_NO_CANDIDATE, old) \<and>
      (\<forall>j < length cands. \<not> candidate_is_eligible (cands ! j))"
  using select_loop_scanned [OF assms(1), of 0 None] assms(2)
  by (auto simp: alrios_psi_select_candidate_def scanned_to_def split: option.splits)

section \<open>Evaluation\<close>

text \<open>A callback that also records what it was told.\<close>

definition recording ::
  "('s \<Rightarrow> psi_notification \<Rightarrow> int \<times> 's) \<Rightarrow> 's \<times> psi_notification list \<Rightarrow> psi_notification \<Rightarrow>
   int \<times> 's \<times> psi_notification list" where
  "recording notify sl ev = (case notify (fst sl) ev of (r, s') \<Rightarrow> (r, s', snd sl @ [ev]))"

lemma recording_step: "notify s ev = (r, t) \<Longrightarrow> recording notify (s, told) ev = (r, t, told @ [ev])"
  by (simp add: recording_def)

definition psi_event :: "psi_notification_type \<Rightarrow> psi_sample \<Rightarrow> nat option \<Rightarrow> psi_notification" where
  "psi_event ty sample c =
     \<lparr>event_type = ty, event_level = alrios_psi_classify_memory (Some sample),
      pressure_percent = avg10 (some_values sample), event_candidate = c\<rparr>"

lemma notify_all_recording:
  "notify_all (recording notify) ev ws (s, told) = (st, s', told') \<Longrightarrow>
    \<exists>n \<le> length ws. told' = told @ map (\<lambda>w. ev\<lparr>event_candidate := Some w\<rparr>) (take n ws) \<and>
      (if st = ALRIOS_PSI_OK then n = length ws else st = ALRIOS_PSI_ERR_NOTIFY)"
proof (induction ws arbitrary: s told)
  case (Cons w ws)
  obtain r t where r: "notify s (ev\<lparr>event_candidate := Some w\<rparr>) = (r, t)" by fastforce
  show ?case
  proof (cases "r = 0")
    case True
    then have "notify_all (recording notify) ev ws (t, told @ [ev\<lparr>event_candidate := Some w\<rparr>]) = (st, s', told')"
      using Cons.prems by (simp add: recording_step [of notify, OF r])
    from Cons.IH [OF this] obtain n where "n \<le> length ws"
      "told' = (told @ [ev\<lparr>event_candidate := Some w\<rparr>]) @ map (\<lambda>w. ev\<lparr>event_candidate := Some w\<rparr>) (take n ws)"
      "if st = ALRIOS_PSI_OK then n = length ws else st = ALRIOS_PSI_ERR_NOTIFY" by blast
    then show ?thesis by (intro exI [of _ "Suc n"]) (auto split: if_splits)
  next
    case False
    then show ?thesis using Cons.prems by (intro exI [of _ 1]) (auto simp: recording_step [of notify, OF r])
  qed
qed auto

lemma pressure_levels:
  "alrios_psi_classify_memory (Some sample) = ALRIOS_PSI_PRESSURE_SHEDDING \<longleftrightarrow> 90 \<le> avg10 (some_values sample)"
  "alrios_psi_classify_memory (Some sample) = ALRIOS_PSI_PRESSURE_WARNING \<longleftrightarrow>
     80 \<le> avg10 (some_values sample) \<and> avg10 (some_values sample) < 90"
  "alrios_psi_classify_memory (Some sample) = ALRIOS_PSI_PRESSURE_NORMAL \<longleftrightarrow> avg10 (some_values sample) < 80"
  by (auto simp: alrios_psi_classify_memory_def alrios_psi_memory_pressure_percent_def Let_def)

text \<open>
  Warnings go to every worker, in order of priority. Between 80 and 90 percent the
  callback is told of the workers one by one, sorted stably by descending tier, then name,
  then process number; the sequence stops only at a failing callback, OK means that all
  have been told, and the index reported is the first of them.
\<close>

theorem psi_warns_workers_in_order:
  assumes p: "80 \<le> avg10 (some_values sample)" "avg10 (some_values sample) < 90" and names: "c_names cands"
    and mem: "alloc \<or> length cands \<le> 64" and ne: "workers_by_priority cands \<noteq> []"
    and run: "alrios_psi_evaluate alloc (Some sample) (Some cands) (Some (recording notify)) (s, []) out = (st, (s', told), out')"
  shows "out' = map_option (\<lambda>_. hd (workers_by_priority cands)) out \<and>
    (\<exists>n \<le> length (workers_by_priority cands).
       told = map (psi_event ALRIOS_PSI_NOTIFY_WARNING sample \<circ> Some) (take n (workers_by_priority cands)) \<and>
       (if st = ALRIOS_PSI_OK then n = length (workers_by_priority cands) else st = ALRIOS_PSI_ERR_NOTIFY))"
proof -
  let ?ev = "psi_event ALRIOS_PSI_NOTIFY_WARNING sample None"
  have level: "alrios_psi_classify_memory (Some sample) = ALRIOS_PSI_PRESSURE_WARNING" using p pressure_levels by blast
  obtain st2 s2 told2 where na: "notify_all (recording notify) ?ev (workers_by_priority cands) (s, []) = (st2, s2, told2)"
    by (metis prod_cases3)
  have "alrios_psi_evaluate alloc (Some sample) (Some cands) (Some (recording notify)) (s, []) out =
      (st2, (s2, told2), map_option (\<lambda>_. hd (workers_by_priority cands)) out)"
    using mem ne na by (auto simp: alrios_psi_evaluate_def level sorted_workers [OF names] psi_event_def
        alrios_psi_memory_pressure_percent_def)
  with run have eq: "st2 = st" "told2 = told" "out' = map_option (\<lambda>_. hd (workers_by_priority cands)) out" by auto
  have "(\<lambda>w. ?ev\<lparr>event_candidate := Some w\<rparr>) = psi_event ALRIOS_PSI_NOTIFY_WARNING sample \<circ> Some"
    by (simp add: psi_event_def fun_eq_iff)
  with notify_all_recording [OF na] eq show ?thesis by auto
qed

text \<open>
  Exactly one process is shed, the right one. At 90 percent and above the callback is
  told once, of the first eligible candidate of least priority key; when no candidate is
  eligible it is told nothing and the answer says so.
\<close>

theorem psi_sheds_first_best:
  assumes p: "90 \<le> avg10 (some_values sample)" and names: "c_names cands" and ne: "cands \<noteq> []"
    and run: "alrios_psi_evaluate alloc (Some sample) (Some cands) (Some (recording notify)) (s, []) out = (st, (s', told), out')"
  shows "if \<exists>j < length cands. candidate_is_eligible (cands ! j)
    then \<exists>b. first_best cands (length cands) b \<and> told = [psi_event ALRIOS_PSI_NOTIFY_SHED sample (Some b)] \<and>
      st \<in> {ALRIOS_PSI_OK, ALRIOS_PSI_ERR_NOTIFY} \<and> out' = map_option (\<lambda>_. b) out
    else told = [] \<and> st = ALRIOS_PSI_ERR_NO_CANDIDATE \<and> out' = out"
proof -
  have level: "alrios_psi_classify_memory (Some sample) = ALRIOS_PSI_PRESSURE_SHEDDING" using p pressure_levels by blast
  from select_candidate_eq [OF names ne, of 0] show ?thesis
  proof (elim disjE exE conjE)
    fix b assume b: "alrios_psi_select_candidate (Some cands) True 0 = (ALRIOS_PSI_OK, b)" "first_best cands (length cands) b"
    have "\<exists>j < length cands. candidate_is_eligible (cands ! j)" using b(2) by (auto simp: first_best_def)
    moreover have "told = [psi_event ALRIOS_PSI_NOTIFY_SHED sample (Some b)] \<and>
        st \<in> {ALRIOS_PSI_OK, ALRIOS_PSI_ERR_NOTIFY} \<and> out' = map_option (\<lambda>_. b) out"
    proof -
      obtain r t where "notify s (psi_event ALRIOS_PSI_NOTIFY_SHED sample (Some b)) = (r, t)" by fastforce
      from recording_step [of notify, OF this, of "[]"] show ?thesis
        using run b(1) by (cases "r = 0") (auto simp: alrios_psi_evaluate_def level psi_event_def
            alrios_psi_memory_pressure_percent_def)
    qed
    ultimately show ?thesis using b(2) by auto
  next
    assume "alrios_psi_select_candidate (Some cands) True 0 = (ALRIOS_PSI_ERR_NO_CANDIDATE, 0)"
      "\<forall>j < length cands. \<not> candidate_is_eligible (cands ! j)"
    then show ?thesis using run by (auto simp: alrios_psi_evaluate_def level)
  qed
qed

section \<open>Protected processes\<close>

lemma shift_up_set: "j < length ws \<Longrightarrow> set (fst (shift_up cmp k j ws)) \<subseteq> set ws"
proof (induction j arbitrary: ws)
  case (Suc j)
  have "set (ws[Suc j := ws ! j]) \<subseteq> set ws" using Suc.prems by (intro set_update_subsetI) simp_all
  then show ?case using Suc.IH [of "ws[Suc j := ws ! j]"] Suc.prems by auto
qed simp

lemma insert_step_set: "i < length ws \<Longrightarrow> set (insert_step cmp i ws) \<subseteq> set ws"
proof -
  assume i: "i < length ws"
  obtain ws' j where s: "shift_up cmp (ws ! i) i ws = (ws', j)" by fastforce
  have "set ws' \<subseteq> set ws" using shift_up_set [OF i, of cmp "ws ! i"] s by simp
  then show ?thesis using i by (simp add: insert_step_def s set_update_subsetI)
qed

lemma shift_up_length: "length (fst (shift_up cmp k j ws)) = length ws"
  by (induction j arbitrary: ws) auto

lemma insert_step_length: "length (insert_step cmp i ws) = length ws"
  using shift_up_length [of cmp "ws ! i" i ws] by (cases "shift_up cmp (ws ! i) i ws") (simp add: insert_step_def)

lemma insertion_sort_set: "set (insertion_sort cmp ws) \<subseteq> set ws"
proof -
  have "set (fold (insert_step cmp) is us) \<subseteq> set us" if "\<forall>i \<in> set is. i < length us" for "is" us
    using that
  proof (induction "is" arbitrary: us)
    case (Cons i "is")
    have "set (fold (insert_step cmp) is (insert_step cmp i us)) \<subseteq> set (insert_step cmp i us)"
      using Cons.IH [of "insert_step cmp i us"] Cons.prems by (simp add: insert_step_length)
    also have "\<dots> \<subseteq> set us" using insert_step_set [of i us cmp] Cons.prems by simp
    finally show ?case by simp
  qed simp
  then show ?thesis by (simp add: insertion_sort_def)
qed

lemma drop_eq_ConsD: "drop i xs = x # ys \<Longrightarrow> i < length xs \<and> x = xs ! i \<and> ys = drop (Suc i) xs"
  by (induction xs arbitrary: i) (auto simp: drop_Cons split: nat.splits)

lemma select_loop_eligible:
  "select_loop cands i cs best = Some b \<Longrightarrow> cs = drop i cands \<Longrightarrow>
    (\<forall>k. best = Some k \<longrightarrow> k < length cands \<and> candidate_is_eligible (cands ! k)) \<Longrightarrow>
    b < length cands \<and> candidate_is_eligible (cands ! b)"
proof (induction cands i cs best rule: select_loop.induct)
  case (2 cands i c cs best)
  have "i < length cands" "c = cands ! i" "cs = drop (i + 1) cands"
    using drop_eq_ConsD [of i cands c cs] "2.prems"(2) by simp_all
  note c = this
  let ?best = "if \<not> candidate_is_eligible c then best
     else case best of None \<Rightarrow> Some i | Some b \<Rightarrow> if compare_candidate_priority c (cands ! b) < 0 then Some i else best"
  have "select_loop cands (i + 1) cs ?best = Some b" using "2.prems"(1) by simp
  moreover have "k < length cands \<and> candidate_is_eligible (cands ! k)" if "?best = Some k" for k
    using that "2.prems"(3) c(1,2) by (simp split: if_splits option.splits)
  ultimately show ?case using "2.IH" c(3) by blast
qed simp

lemma eligible_worker: "candidate_is_eligible c \<Longrightarrow> candidate_is_worker c"
  by (simp add: candidate_is_eligible_def candidate_is_worker_def)

text \<open>Whatever is told, and whatever the names are, the candidate is one of the workers.\<close>

lemma evaluate_told:
  assumes run: "alrios_psi_evaluate alloc samplep (Some cands) (Some (recording notify)) (s, []) out = (st, (s', told), out')"
    and ev: "ev \<in> set told" "event_candidate ev = Some i"
  shows "i < length cands \<and> (if event_type ev = ALRIOS_PSI_NOTIFY_SHED then candidate_is_eligible (cands ! i)
    else candidate_is_worker (cands ! i))"
proof (cases samplep)
  case None
  then show ?thesis using run ev by (simp add: alrios_psi_evaluate_def)
next
  case (Some sample)
  note ev_def = alrios_psi_evaluate_def Some alrios_psi_memory_pressure_percent_def
  show ?thesis
  proof (cases "alrios_psi_classify_memory samplep")
    case ALRIOS_PSI_PRESSURE_NORMAL
    then show ?thesis using run ev by (simp add: ev_def)
  next
    case sh: ALRIOS_PSI_PRESSURE_SHEDDING
    obtain b where b: "alrios_psi_select_candidate (Some cands) True 0 = (ALRIOS_PSI_OK, b)"
        "told = [psi_event ALRIOS_PSI_NOTIFY_SHED sample (Some b)]"
      using run ev(1) sh by (auto simp: ev_def recording_def psi_event_def split: prod.splits if_splits)
    then have "select_loop cands 0 cands None = Some b"
      by (auto simp: alrios_psi_select_candidate_def split: if_splits option.splits)
    from select_loop_eligible [OF this] show ?thesis using b(2) ev by (simp add: psi_event_def)
  next
    case wa: ALRIOS_PSI_PRESSURE_WARNING
    let ?e = "psi_event ALRIOS_PSI_NOTIFY_WARNING sample None"
    let ?ws = "insertion_sort (\<lambda>a b. compare_candidate_priority (cands ! a) (cands ! b)) (collect_workers 0 cands [])"
    have ws: "\<forall>w \<in> set ?ws. w < length cands \<and> candidate_is_worker (cands ! w)"
      using insertion_sort_set [of _ "collect_workers 0 cands []"] by (auto simp: collect_workers_eq dest!: subsetD)
    have level: "alrios_psi_classify_memory (Some sample) = ALRIOS_PSI_PRESSURE_WARNING" using wa Some by simp
    show ?thesis
    proof (cases "?ws = []")
      case True
      obtain r t where "notify s ?e = (r, t)" by fastforce
      from recording_step [of notify, OF this, of "[]"] True have "ev = ?e" using run ev(1) level
        by (auto simp: ev_def Let_def psi_event_def split: if_splits)
      then show ?thesis using ev(2) by (simp add: psi_event_def)
    next
      case False
      obtain st2 s2 told2 where na: "notify_all (recording notify) ?e ?ws (s, []) = (st2, s2, told2)" by (metis prod_cases3)
      then have "told = told2 \<or> told = []" using run level False
        by (auto simp: ev_def Let_def psi_event_def split: if_splits)
      with ev(1) have "told = told2" by auto
      with notify_all_recording [OF na] obtain n where "told = map (\<lambda>w. ?e\<lparr>event_candidate := Some w\<rparr>) (take n ?ws)"
        by auto
      then have "i \<in> set (take n ?ws)" "event_type ev = ALRIOS_PSI_NOTIFY_WARNING"
        using ev by (auto simp: psi_event_def)
      then show ?thesis using ws set_take_subset [of n ?ws] by auto
    qed
  qed
qed

text \<open>
  C19: Protected processes are never touched. Whatever the pressure, the candidates, their
  names and the callback, a notification that names a candidate names one that has a
  name and a positive process number, is not marked protected, is not of the core tier and
  is not one of the core daemons; a request to shed names one that allows it and does not
  deny it.
\<close>

theorem psi_spares_protected:
  assumes run: "alrios_psi_evaluate alloc samplep (Some cands) (Some (recording notify)) (s, []) out = (st, (s', told), out')"
    and ev: "ev \<in> set told" "event_candidate ev = Some i"
  shows "\<exists>name. i < length cands \<and> cand_name (cands ! i) = Some name \<and> name \<noteq> [] \<and> 0 < process_id (cands ! i) \<and>
    \<not> protected_process (cands ! i) \<and> tier (cands ! i) \<noteq> ALRIOS_PSI_TIER_CORE \<and>
    \<not> alrios_psi_is_core_daemon (Some name) \<and>
    (event_type ev = ALRIOS_PSI_NOTIFY_SHED \<longrightarrow> allow_shedding (cands ! i) \<and> \<not> deny_shedding (cands ! i))"
  using evaluate_told [OF run ev] eligible_worker [of "cands ! i"]
  by (auto simp: candidate_is_eligible_def candidate_is_worker_def split: if_splits)

section \<open>An array of candidates\<close>

text \<open>A core daemon, two workers and a best-effort process, for the witnesses.\<close>

definition demo_candidates :: "psi_candidate list" where
  "demo_candidates =
     (let cand = \<lambda>n p t. \<lparr>cand_name = Some (ascii n), process_id = p, tier = t, allow_shedding = True,
        deny_shedding = False, protected_process = False\<rparr>
      in [cand ''/usr/bin/ardb'' 5 ALRIOS_PSI_TIER_WORKER, cand ''web'' 30 ALRIOS_PSI_TIER_WORKER,
          cand ''batch'' 40 ALRIOS_PSI_TIER_BEST_EFFORT, cand ''mail'' 50 ALRIOS_PSI_TIER_WORKER])"

definition demo_sample :: "rat \<Rightarrow> psi_sample" where
  "demo_sample p = zero_sample\<lparr>some_values := zero_values\<lparr>avg10 := p\<rparr>\<rparr>"

lemma demo_names: "c_names demo_candidates"
  by (simp add: c_names_def demo_candidates_def ascii_def Let_def)

lemma demo_workers: "workers_by_priority demo_candidates = [2, 3, 1]"
  by code_simp

lemma demo_warning_run:
  "alrios_psi_evaluate True (Some (demo_sample 85)) (Some demo_candidates)
     (Some (recording (\<lambda>s ev. (if event_candidate ev = Some 3 then 1 else 0, s)))) ((), []) (Some 9) =
   (ALRIOS_PSI_ERR_NOTIFY, ((), map (psi_event ALRIOS_PSI_NOTIFY_WARNING (demo_sample 85) \<circ> Some) [2, 3]), Some 2)"
  by code_simp

lemma demo_shedding_run:
  "alrios_psi_evaluate True (Some (demo_sample 95)) (Some demo_candidates)
     (Some (recording (\<lambda>s ev. (0, s)))) ((), []) (Some 9) =
   (ALRIOS_PSI_OK, ((), [psi_event ALRIOS_PSI_NOTIFY_SHED (demo_sample 95) (Some 2)]), Some 2)"
  by code_simp

theorem psi_warns_workers_in_order_witness:
  "\<exists>n \<le> 3. map (psi_event ALRIOS_PSI_NOTIFY_WARNING (demo_sample 85) \<circ> Some) [2, 3] =
     map (psi_event ALRIOS_PSI_NOTIFY_WARNING (demo_sample 85) \<circ> Some) (take n [2, 3, 1])"
proof -
  have p: "80 \<le> avg10 (some_values (demo_sample 85))" "avg10 (some_values (demo_sample 85)) < 90"
    by (simp_all add: demo_sample_def)
  have "workers_by_priority demo_candidates \<noteq> []" by (simp add: demo_workers)
  from psi_warns_workers_in_order [OF p demo_names _ this demo_warning_run]
  have "\<exists>n \<le> length [2, 3, 1 :: nat]. map (psi_event ALRIOS_PSI_NOTIFY_WARNING (demo_sample 85) \<circ> Some) [2, 3] =
      map (psi_event ALRIOS_PSI_NOTIFY_WARNING (demo_sample 85) \<circ> Some) (take n [2, 3, 1])"
    unfolding demo_workers by blast
  moreover have "length [2, 3, 1 :: nat] = 3" by simp
  ultimately show ?thesis by metis
qed

theorem psi_sheds_first_best_witness:
  "\<exists>b. first_best demo_candidates 4 b \<and>
     [psi_event ALRIOS_PSI_NOTIFY_SHED (demo_sample 95) (Some 2)] = [psi_event ALRIOS_PSI_NOTIFY_SHED (demo_sample 95) (Some b)]"
proof -
  have el: "candidate_is_eligible (demo_candidates ! 1)" by code_simp
  have len: "length demo_candidates = 4" by (simp add: demo_candidates_def Let_def)
  then have "\<exists>j < length demo_candidates. candidate_is_eligible (demo_candidates ! j)" using el by (intro exI [of _ 1]) simp
  moreover have "demo_candidates \<noteq> []" "90 \<le> avg10 (some_values (demo_sample 95))"
    using len by (auto simp: demo_sample_def)
  ultimately show ?thesis using psi_sheds_first_best [OF _ demo_names _ demo_shedding_run] unfolding len by auto
qed

theorem psi_spares_protected_witness:
  "\<exists>name. cand_name (demo_candidates ! 2) = Some name \<and> \<not> alrios_psi_is_core_daemon (Some name)"
proof -
  from psi_spares_protected [OF demo_shedding_run, of "psi_event ALRIOS_PSI_NOTIFY_SHED (demo_sample 95) (Some 2)" 2]
  show ?thesis by (auto simp: psi_event_def)
qed

end
