(* ===== verification/PackageIndex.thy ===== *)
theory PackageIndex
  imports ByteOrder CString PosixFile
begin

text \<open>
  The signed package index of \<open>src/libraries/package/index.c\<close>: which paths an index may
  name, the parser of the wire format with its digest and signature checks, and the
  verification of an installed directory against a parsed index.

  SHA-256 and Ed25519 come from OpenSSL: they are fields of the environment, together with
  the answers of the allocator and of the OpenSSL calls that may fail.
\<close>

section \<open>Records\<close>

datatype index_status =
    ALRIOS_PACKAGE_INDEX_OK
  | ALRIOS_PACKAGE_INDEX_ERR_ARGUMENT
  | ALRIOS_PACKAGE_INDEX_ERR_IO
  | ALRIOS_PACKAGE_INDEX_ERR_MEMORY
  | ALRIOS_PACKAGE_INDEX_ERR_LIMIT
  | ALRIOS_PACKAGE_INDEX_ERR_PATH
  | ALRIOS_PACKAGE_INDEX_ERR_MUTABLE
  | ALRIOS_PACKAGE_INDEX_ERR_SYMLINK
  | ALRIOS_PACKAGE_INDEX_ERR_FILE_TYPE
  | ALRIOS_PACKAGE_INDEX_ERR_CRYPTO
  | ALRIOS_PACKAGE_INDEX_ERR_FORMAT
  | ALRIOS_PACKAGE_INDEX_ERR_SIGNATURE
  | ALRIOS_PACKAGE_INDEX_ERR_HASH
  | ALRIOS_PACKAGE_INDEX_ERR_UNSUPPORTED
  | ALRIOS_PACKAGE_INDEX_ERR_CHANGED

record index_entry =
  entry_path :: bytes
  entry_size :: u64
  entry_mode :: u32
  entry_sha256 :: bytes

record package_index =
  file_count :: u32
  total_uncompressed_size :: u64
  index_entries :: "index_entry list"

record index_env =
  sha256 :: "bytes \<Rightarrow> bytes"
  ed25519_verify :: "bytes \<Rightarrow> bytes \<Rightarrow> bytes \<Rightarrow> bool"
  md_ctx_new :: bool
  digest_init :: bool
  digest_update :: bool
  digest_final :: bool
  verify_init :: bool
  malloc_message :: bool
  calloc_entries :: bool
  malloc_path :: "nat \<Rightarrow> bool"

definition SIZE_MAX :: nat where
  [limits]: "SIZE_MAX = 18446744073709551615"

definition INDEX_MAGIC :: bytes where
  "INDEX_MAGIC = ascii ''ARAPPINDEXv1'' @ [0, 0, 0, 0]"

definition INDEX_HEADER_SIZE :: nat where
  "INDEX_HEADER_SIZE = 144"

definition INDEX_SIGNED_HEADER_SIZE :: nat where
  "INDEX_SIGNED_HEADER_SIZE = 80"

definition INDEX_ENTRY_PREFIX_SIZE :: nat where
  "INDEX_ENTRY_PREFIX_SIZE = 52"

definition INDEX_MAX_PATH_SIZE :: nat where
  "INDEX_MAX_PATH_SIZE = 1024"

definition INDEX_MAX_FILES :: nat where
  "INDEX_MAX_FILES = 100000"

definition INDEX_MAX_WIRE_SIZE :: nat where
  "INDEX_MAX_WIRE_SIZE = 64 * 1024 * 1024"

definition zero_index :: package_index where
  "zero_index = \<lparr>file_count = 0, total_uncompressed_size = 0, index_entries = []\<rparr>"

section \<open>Paths\<close>

definition checked_add_size :: "nat \<Rightarrow> nat \<Rightarrow> nat option" where
  "checked_add_size left right = (if SIZE_MAX - left < right then None else Some (left + right))"

definition all_zero :: "bytes \<Rightarrow> nat \<Rightarrow> bool" where
  "all_zero data n \<longleftrightarrow> fold (\<lambda>b acc. acc OR b) (take n data) 0 = 0"

definition bad_segment :: "bytes \<Rightarrow> nat \<Rightarrow> nat \<Rightarrow> bool" where
  "bad_segment path segment_start index \<longleftrightarrow>
     (let segment_size = index - segment_start
      in segment_size = 0 \<or>
         segment_size = 1 \<and> path ! segment_start = 0x2e \<or>
         segment_size = 2 \<and> path ! segment_start = 0x2e \<and> path ! (segment_start + 1) = 0x2e)"

text \<open>The loop of \<open>valid_path\<close> at \<open>index\<close>; past the last byte it sees a slash.\<close>

function path_scan :: "bytes \<Rightarrow> nat \<Rightarrow> nat \<Rightarrow> bool" where
  "path_scan path segment_start index =
     (if length path < index then True
      else
        let val = (if index = length path then 0x2f else path ! index)
        in if val = 0x5c \<or> val < 0x20 \<or> val = 0x7f then False
           else if val = 0x2f then
             if bad_segment path segment_start index then False
             else path_scan path (index + 1) (index + 1)
           else path_scan path segment_start (index + 1))"
  by pat_completeness auto
termination
  by (relation "measure (\<lambda>(path, s, i). Suc (length path) - i)") auto

declare path_scan.simps [simp del]

definition valid_path :: "bytes \<Rightarrow> bool" where
  "valid_path path \<longleftrightarrow>
     \<not> (path = [] \<or> INDEX_MAX_PATH_SIZE \<le> length path \<or> path ! 0 = 0x2f \<or> path ! 0 = 0x5c \<or>
        path ! (length path - 1) = 0x2f \<or> path ! (length path - 1) = 0x5c \<or> 0 \<in> set path) \<and>
     path_scan path 0 0"

definition ascii_lower :: "u8 \<Rightarrow> u8" where
  "ascii_lower a = (if 0x41 \<le> a \<and> a \<le> 0x5a then a + 0x20 else a)"

fun ascii_equal_case_insensitive :: "bytes \<Rightarrow> bytes \<Rightarrow> nat \<Rightarrow> bool" where
  "ascii_equal_case_insensitive left right 0 = True"
| "ascii_equal_case_insensitive left right (Suc n) =
     (if ascii_lower (hd left) \<noteq> ascii_lower (hd right) then False
      else ascii_equal_case_insensitive (tl left) (tl right) n)"

definition mutable_extensions :: "bytes list" where
  "mutable_extensions =
     map ascii [''.db'', ''.sqlite'', ''.session'', ''.lock'', ''.wal'', ''.shm'', ''.log'', ''.tmp'']"

definition alrios_package_index_path_is_mutable :: "bytes option \<Rightarrow> bool" where
  "alrios_package_index_path_is_mutable pathp =
     (case pathp of
        None \<Rightarrow> True
      | Some path \<Rightarrow>
          if \<not> valid_path path then True
          else list_ex (\<lambda>ext. length ext \<le> length path \<and>
                 ascii_equal_case_insensitive (drop (length path - length ext) path) ext (length ext))
               mutable_extensions)"

section \<open>Digests and signature\<close>

definition sha256_memory :: "index_env \<Rightarrow> bytes \<Rightarrow> index_status + bytes" where
  "sha256_memory env data =
     (if \<not> md_ctx_new env then Inl ALRIOS_PACKAGE_INDEX_ERR_MEMORY
      else if digest_init env \<and> (data = [] \<or> digest_update env) \<and> digest_final env \<and> length (sha256 env data) = 32
      then Inr (sha256 env data)
      else Inl ALRIOS_PACKAGE_INDEX_ERR_CRYPTO)"

text \<open>The loop reads until the end of the file; \<open>seen\<close> are the bytes fed to the digest so far.\<close>

function sha256_fd_loop :: "index_env \<Rightarrow> u64 \<Rightarrow> posix_fd \<Rightarrow> u64 \<Rightarrow> bytes \<Rightarrow> index_status + bytes" where
  "sha256_fd_loop env expected_size fd tot seen =
     (case sys_read 16384 fd of (received, buffer, fd') \<Rightarrow>
        if received < 0 then
          if errno fd' = EINTR then sha256_fd_loop env expected_size fd' tot seen
          else Inl ALRIOS_PACKAGE_INDEX_ERR_IO
        else if received = 0 then
          if tot \<noteq> expected_size then Inl ALRIOS_PACKAGE_INDEX_ERR_CHANGED
          else if digest_final env \<and> length (sha256 env seen) = 32 then Inr (sha256 env seen)
          else Inl ALRIOS_PACKAGE_INDEX_ERR_CRYPTO
        else if - 1 - tot < of_int received then Inl ALRIOS_PACKAGE_INDEX_ERR_LIMIT
        else if expected_size < tot + of_int received then Inl ALRIOS_PACKAGE_INDEX_ERR_CHANGED
        else if \<not> digest_update env then Inl ALRIOS_PACKAGE_INDEX_ERR_CRYPTO
        else sha256_fd_loop env expected_size fd' (tot + of_int received) (seen @ buffer))"
  by pat_completeness auto
termination
proof (relation "measure (\<lambda>(env, es, fd, t, s). length (script fd) + (length (content fd) - pos fd))", goal_cases)
  case (2 env es fd t s x y buffer fd')
  then obtain n where "sys_read 16384 fd = (n, buffer, fd')" "n < 0" by metis
  then show ?case by (cases rule: sys_read_cases) (auto simp: same_file_def)
next
  case (3 env es fd t s x y buffer fd')
  then obtain n where n: "sys_read 16384 fd = (n, buffer, fd')" "\<not> n < 0" "n \<noteq> 0" by metis
  from n(1) show ?case
  proof (cases rule: sys_read_cases)
    case Data
    have len: "0 < length buffer" using Data(1) n(3) by simp
    moreover have "pos fd < length (content fd)"
    proof (rule ccontr)
      assume "\<not> pos fd < length (content fd)"
      then have "drop (pos fd) (content fd) = []" by simp
      then have "buffer = []" using Data(2) by (metis take_Nil)
      then show False using len by simp
    qed
    moreover have "length (content fd') = length (content fd)" using Data(4) by (simp add: same_file_def)
    ultimately have "length (script fd') + (length (content fd') - pos fd') <
        length (script fd) + (length (content fd) - pos fd)" using Data(5,7) by linarith
    then show ?thesis by simp
  qed (use n in auto)
qed simp

declare sha256_fd_loop.simps [simp del]

definition sha256_fd :: "index_env \<Rightarrow> posix_fd \<Rightarrow> u64 \<Rightarrow> index_status + bytes" where
  "sha256_fd env fd expected_size =
     (if \<not> md_ctx_new env \<or> \<not> digest_init env then Inl ALRIOS_PACKAGE_INDEX_ERR_CRYPTO
      else sha256_fd_loop env expected_size fd 0 [])"

definition verify_signature :: "index_env \<Rightarrow> bytes \<Rightarrow> bytes \<Rightarrow> index_status" where
  "verify_signature env public_key wire =
     (case checked_add_size INDEX_SIGNED_HEADER_SIZE (length wire - INDEX_HEADER_SIZE) of
        None \<Rightarrow> ALRIOS_PACKAGE_INDEX_ERR_LIMIT
      | Some message_size \<Rightarrow>
          if \<not> malloc_message env then ALRIOS_PACKAGE_INDEX_ERR_MEMORY
          else
            let message = take INDEX_SIGNED_HEADER_SIZE wire @ drop INDEX_HEADER_SIZE wire
            in if md_ctx_new env \<and> verify_init env \<and> ed25519_verify env public_key (take 64 (drop 80 wire)) message
               then ALRIOS_PACKAGE_INDEX_OK else ALRIOS_PACKAGE_INDEX_ERR_SIGNATURE)"

section \<open>The parser\<close>

definition alrios_package_index_free :: "package_index option \<Rightarrow> package_index option" where
  "alrios_package_index_free indexp = map_option (\<lambda>_. zero_index) indexp"

text \<open>
  One entry: \<open>cursor\<close> holds the remaining bytes, \<open>prev\<close> the path of the entry before it.
  The answer is the entry, the bytes behind it and the new total.
\<close>

definition parse_entry ::
  "index_env \<Rightarrow> nat \<Rightarrow> bytes option \<Rightarrow> u64 \<Rightarrow> bytes \<Rightarrow> index_status + index_entry \<times> bytes \<times> u64" where
  "parse_entry env entry_index prev computed_total cursor =
     (if length cursor < INDEX_ENTRY_PREFIX_SIZE then Inl ALRIOS_PACKAGE_INDEX_ERR_FORMAT
      else
        let path_size = unat (load_u16_be cursor);
            unix_mode = load_u32_be (drop 4 cursor);
            file_size = read_u64_be (drop 8 cursor);
            path = take path_size (drop INDEX_ENTRY_PREFIX_SIZE cursor)
        in if load_u16_be (drop 2 cursor) \<noteq> 0 \<or> load_u32_be (drop 48 cursor) \<noteq> 0 \<or> path_size = 0 \<or>
              INDEX_MAX_PATH_SIZE \<le> path_size \<or> length cursor - INDEX_ENTRY_PREFIX_SIZE < path_size
           then Inl ALRIOS_PACKAGE_INDEX_ERR_FORMAT
           else if unix_mode AND NOT 0x1ff \<noteq> 0 then Inl ALRIOS_PACKAGE_INDEX_ERR_FORMAT
           else if \<not> valid_path path then Inl ALRIOS_PACKAGE_INDEX_ERR_PATH
           else if \<not> malloc_path env entry_index then Inl ALRIOS_PACKAGE_INDEX_ERR_MEMORY
           else if alrios_package_index_path_is_mutable (Some path) then Inl ALRIOS_PACKAGE_INDEX_ERR_MUTABLE
           else if (case prev of None \<Rightarrow> False | Some p \<Rightarrow> 0 \<le> strcmp p path)
           then Inl ALRIOS_PACKAGE_INDEX_ERR_FORMAT
           else if - 1 - computed_total < file_size then Inl ALRIOS_PACKAGE_INDEX_ERR_LIMIT
           else Inr (\<lparr>entry_path = path, entry_size = file_size, entry_mode = unix_mode,
                      entry_sha256 = take 32 (drop 16 cursor)\<rparr>,
                     drop path_size (drop INDEX_ENTRY_PREFIX_SIZE cursor), computed_total + file_size))"

text \<open>The loop over the \<open>n\<close> entries that are left.\<close>

fun parse_entries ::
  "index_env \<Rightarrow> nat \<Rightarrow> nat \<Rightarrow> bytes option \<Rightarrow> u64 \<Rightarrow> bytes \<Rightarrow> index_status + index_entry list \<times> bytes \<times> u64" where
  "parse_entries env 0 entry_index prev computed_total cursor = Inr ([], cursor, computed_total)"
| "parse_entries env (Suc n) entry_index prev computed_total cursor =
     (case parse_entry env entry_index prev computed_total cursor of
        Inl e \<Rightarrow> Inl e
      | Inr (entry, cursor', total') \<Rightarrow>
          (case parse_entries env n (entry_index + 1) (Some (entry_path entry)) total' cursor' of
             Inl e \<Rightarrow> Inl e
           | Inr (es, rest, tot) \<Rightarrow> Inr (entry # es, rest, tot)))"

definition parse_verified :: "index_env \<Rightarrow> bytes \<Rightarrow> index_status \<times> package_index" where
  "parse_verified env wire =
     (let count = load_u32_be (drop 24 wire); total_size = read_u64_be (drop 32 wire)
      in if 0 < count \<and> \<not> calloc_entries env then (ALRIOS_PACKAGE_INDEX_ERR_MEMORY, zero_index)
         else case parse_entries env (unat count) 0 None 0 (drop INDEX_HEADER_SIZE wire) of
           Inl e \<Rightarrow> (e, zero_index)
         | Inr (es, remaining, computed_total) \<Rightarrow>
             if remaining \<noteq> [] \<or> computed_total \<noteq> total_size
             then (ALRIOS_PACKAGE_INDEX_ERR_FORMAT, zero_index)
             else (ALRIOS_PACKAGE_INDEX_OK,
                   \<lparr>file_count = count, total_uncompressed_size = total_size, index_entries = es\<rparr>))"

definition alrios_package_index_parse_and_verify ::
  "index_env \<Rightarrow> bytes option \<Rightarrow> bytes option \<Rightarrow> package_index option \<Rightarrow> index_status \<times> package_index option" where
  "alrios_package_index_parse_and_verify env wirep keyp outp =
     (case (wirep, keyp, outp) of
        (Some wire, Some public_key, Some _) \<Rightarrow>
          if length wire < INDEX_HEADER_SIZE \<or> INDEX_MAX_WIRE_SIZE < length wire \<or> \<not> memeq wire INDEX_MAGIC 16
          then (ALRIOS_PACKAGE_INDEX_ERR_FORMAT, Some zero_index)
          else if load_u16_be (drop 16 wire) \<noteq> 1 \<or> unat (load_u16_be (drop 18 wire)) \<noteq> INDEX_HEADER_SIZE \<or>
                  load_u32_be (drop 20 wire) \<noteq> 1 \<or> INDEX_MAX_FILES < unat (load_u32_be (drop 24 wire)) \<or>
                  \<not> all_zero (drop 28 wire) 4 \<or> \<not> all_zero (drop 72 wire) 8
          then (ALRIOS_PACKAGE_INDEX_ERR_UNSUPPORTED, Some zero_index)
          else (case sha256_memory env (drop INDEX_HEADER_SIZE wire) of
             Inl e \<Rightarrow> (e, Some zero_index)
           | Inr entry_digest \<Rightarrow>
               if \<not> memeq entry_digest (drop 40 wire) 32 then (ALRIOS_PACKAGE_INDEX_ERR_HASH, Some zero_index)
               else
                 let result = verify_signature env public_key wire
                 in if result \<noteq> ALRIOS_PACKAGE_INDEX_OK then (result, Some zero_index)
                    else case parse_verified env wire of (st, index) \<Rightarrow> (st, Some index))
      | _ \<Rightarrow> (ALRIOS_PACKAGE_INDEX_ERR_ARGUMENT, outp))"

section \<open>Directories\<close>

text \<open>
  A file tree. A regular file has the size and mode that \<open>fstat\<close> reports and the bytes
  that reading it delivers, which differ from that size when the file is changed in
  between.
\<close>

record reg_file =
  st_size :: int
  st_mode :: u32
  file_data :: bytes

datatype fs_node =
    Directory "(bytes \<times> fs_node) list"
  | Regular reg_file
  | Symlink bytes
  | Special

datatype open_errno = No_errno | ELOOP | ENOENT | ENOTDIR

text \<open>
  \<open>openat\<close> with \<open>O_NOFOLLOW\<close>, with and without \<open>O_DIRECTORY\<close>. Which of \<open>ELOOP\<close> and \<open>ENOTDIR\<close>
  the first one reports for a symbolic link is the choice of the kernel: \<open>dlink\<close>.
\<close>

definition openat_directory :: "open_errno \<Rightarrow> fs_node option \<Rightarrow> open_errno + (bytes \<times> fs_node) list" where
  "openat_directory dlink node =
     (case node of
        None \<Rightarrow> Inl ENOENT
      | Some (Directory entries) \<Rightarrow> Inr entries
      | Some (Symlink _) \<Rightarrow> Inl dlink
      | Some _ \<Rightarrow> Inl ENOTDIR)"

definition openat_file :: "fs_node option \<Rightarrow> open_errno + fs_node" where
  "openat_file node =
     (case node of
        None \<Rightarrow> Inl ENOENT
      | Some (Symlink _) \<Rightarrow> Inl ELOOP
      | Some n \<Rightarrow> Inr n)"

text \<open>
  The walk through the components of the path. A failure carries the value of \<open>errno\<close>
  afterwards: a node that opens but is no regular file leaves the value it had before.
\<close>

function open_relative_regular_file ::
  "open_errno \<Rightarrow> open_errno \<Rightarrow> (bytes \<times> fs_node) list \<Rightarrow> bytes \<Rightarrow> open_errno + reg_file" where
  "open_relative_regular_file dlink errno0 directory cursor =
     (let component = takeWhile (\<lambda>c. c \<noteq> 0x2f) cursor
      in if length component < length cursor then
           (case openat_directory dlink (map_of directory component) of
              Inl e \<Rightarrow> Inl e
            | Inr next_dir \<Rightarrow>
                open_relative_regular_file dlink errno0 next_dir (drop (length component + 1) cursor))
         else
           (case openat_file (map_of directory cursor) of
              Inl e \<Rightarrow> Inl e
            | Inr (Regular f) \<Rightarrow> Inr f
            | Inr _ \<Rightarrow> Inl errno0))"
  by pat_completeness auto
termination
  by (relation "measure (\<lambda>(d, e, dir, cursor). length cursor)") auto

declare open_relative_regular_file.simps [simp del]

definition opened_file :: "outcome list \<Rightarrow> reg_file \<Rightarrow> posix_fd" where
  "opened_file sc f = \<lparr>content = file_data f, pos = 0, access = O_RDONLY, regular = True, held = None,
     script = sc, errno = NoError\<rparr>"

text \<open>\<open>scripts i\<close>: the answers of the kernel while entry \<open>i\<close> is read.\<close>

fun verify_entries ::
  "index_env \<Rightarrow> open_errno \<Rightarrow> open_errno \<Rightarrow> (nat \<Rightarrow> outcome list) \<Rightarrow> (bytes \<times> fs_node) list \<Rightarrow> nat \<Rightarrow>
   index_entry list \<Rightarrow> index_status" where
  "verify_entries env dlink errno0 scripts root i [] = ALRIOS_PACKAGE_INDEX_OK"
| "verify_entries env dlink errno0 scripts root i (entry # es) =
     (if alrios_package_index_path_is_mutable (Some (entry_path entry)) then ALRIOS_PACKAGE_INDEX_ERR_MUTABLE
      else case open_relative_regular_file dlink errno0 root (entry_path entry) of
        Inl e \<Rightarrow> if e = ELOOP then ALRIOS_PACKAGE_INDEX_ERR_SYMLINK else ALRIOS_PACKAGE_INDEX_ERR_IO
      | Inr f \<Rightarrow>
          if st_size f < 0 \<or> of_int (st_size f) \<noteq> entry_size entry \<or> st_mode f AND 0x1ff \<noteq> entry_mode entry
          then ALRIOS_PACKAGE_INDEX_ERR_CHANGED
          else case sha256_fd env (opened_file (scripts i) f) (entry_size entry) of
            Inl e \<Rightarrow> e
          | Inr digest \<Rightarrow>
              if \<not> memeq digest (entry_sha256 entry) 32 then ALRIOS_PACKAGE_INDEX_ERR_HASH
              else verify_entries env dlink errno0 scripts root (i + 1) es)"

text \<open>\<open>root\<close> is what \<open>root_directory\<close> names; the empty name is refused.\<close>

definition alrios_package_index_verify_directory ::
  "index_env \<Rightarrow> open_errno \<Rightarrow> open_errno \<Rightarrow> (nat \<Rightarrow> outcome list) \<Rightarrow> package_index option \<Rightarrow> bytes option \<Rightarrow>
   (bytes \<Rightarrow> fs_node option) \<Rightarrow> index_status" where
  "alrios_package_index_verify_directory env dlink errno0 scripts indexp rootp fs =
     (case (indexp, rootp) of
        (Some index, Some root_directory) \<Rightarrow>
          if root_directory = [] \<or> (index_entries index = [] \<and> file_count index \<noteq> 0)
          then ALRIOS_PACKAGE_INDEX_ERR_ARGUMENT
          else (case openat_directory dlink (fs root_directory) of
             Inl e \<Rightarrow> if e = ELOOP then ALRIOS_PACKAGE_INDEX_ERR_SYMLINK else ALRIOS_PACKAGE_INDEX_ERR_IO
           | Inr root \<Rightarrow> verify_entries env dlink errno0 scripts root 0 (index_entries index))
      | _ \<Rightarrow> ALRIOS_PACKAGE_INDEX_ERR_ARGUMENT)"

definition alrios_package_index_error_string :: "int \<Rightarrow> string" where
  "alrios_package_index_error_string code =
     (if code = 0 then ''success''
      else if code = -4001 then ''invalid argument''
      else if code = -4002 then ''I/O error''
      else if code = -4003 then ''out of memory''
      else if code = -4004 then ''size or file limit exceeded''
      else if code = -4005 then ''invalid or non-canonical file path''
      else if code = -4006 then ''forbidden mutable file extension''
      else if code = -4007 then ''symlink encountered or symlink loop detected''
      else if code = -4008 then ''unsupported file type''
      else if code = -4009 then ''cryptographic operation failed''
      else if code = -4010 then ''malformed index format or wire corruption''
      else if code = -4011 then ''Ed25519 signature verification failed''
      else if code = -4012 then ''content hash mismatch''
      else if code = -4013 then ''unsupported version or flags''
      else if code = -4014 then ''file modified during index creation or validation''
      else ''unknown index error'')"

end
