(* ===== verification/PackageIndexSpec.thy ===== *)
theory PackageIndexSpec
  imports PackageIndex
begin

text \<open>
  What the package index guarantees: the paths it may name, the wire format it accepts,
  byte for byte, and what a verified directory contains.
\<close>

section \<open>Paths\<close>

text \<open>The components of a path.\<close>

fun segments :: "bytes \<Rightarrow> bytes list" where
  "segments [] = [[]]"
| "segments (c # cs) = (if c = 0x2f then [] # segments cs else (c # hd (segments cs)) # tl (segments cs))"

lemma segments_ne [simp]: "segments p \<noteq> []"
  by (induction p) auto

definition good_segment :: "bytes \<Rightarrow> bool" where
  "good_segment s \<longleftrightarrow> s \<notin> {[], ascii ''.'', ascii ''..''}"

definition path_char :: "u8 \<Rightarrow> bool" where
  "path_char c \<longleftrightarrow> 0x20 \<le> c \<and> c \<noteq> 0x7f \<and> c \<noteq> 0x5c"

lemma bad_segment_eq:
  assumes "s \<le> i" "i \<le> length path"
  shows "bad_segment path s i \<longleftrightarrow> \<not> good_segment (drop s (take i path))"
proof -
  define seg where "seg = drop s (take i path)"
  have len: "length seg = i - s" using assms by (simp add: seg_def)
  have nth: "k < i - s \<Longrightarrow> seg ! k = path ! (s + k)" for k using assms by (simp add: seg_def)
  have "bad_segment path s i \<longleftrightarrow> length seg = 0 \<or> length seg = 1 \<and> seg ! 0 = 0x2e \<or>
      length seg = 2 \<and> seg ! 0 = 0x2e \<and> seg ! 1 = 0x2e"
    using len nth [of 0] nth [of 1] by (auto simp: bad_segment_def Let_def)
  also have "\<dots> \<longleftrightarrow> seg = [] \<or> seg = [0x2e] \<or> seg = [0x2e, 0x2e]"
    by (cases seg; cases "tl seg"; cases "tl (tl seg)") auto
  finally show ?thesis by (simp add: good_segment_def ascii_def seg_def)
qed

text \<open>The scan with a current segment \<open>drop s (take i path)\<close> and the bytes \<open>drop i path\<close> ahead.\<close>

lemma path_scan_eq:
  "s \<le> i \<Longrightarrow> i \<le> length path \<Longrightarrow>
    path_scan path s i \<longleftrightarrow>
      list_all path_char (drop i path) \<and> good_segment (drop s (take i path) @ hd (segments (drop i path))) \<and>
      list_all good_segment (tl (segments (drop i path)))"
proof (induction "length path - i" arbitrary: s i)
  case 0
  then have i: "i = length path" by simp
  have "path_scan path (Suc i) (Suc i)" by (subst path_scan.simps) (simp add: i)
  then show ?case using 0 i bad_segment_eq [of s i path] by (subst path_scan.simps) (simp add: Let_def)
next
  case (Suc n)
  then have i: "i < length path" by simp
  let ?c = "path ! i"
  have d: "drop i path = ?c # drop (Suc i) path" using i by (simp add: Cons_nth_drop_Suc)
  have tk: "take (Suc i) path = take i path @ [?c]" using i by (simp add: take_Suc_conv_app_nth)
  have IH: "s' \<le> Suc i \<Longrightarrow> path_scan path s' (Suc i) \<longleftrightarrow> list_all path_char (drop (Suc i) path) \<and>
      good_segment (drop s' (take (Suc i) path) @ hd (segments (drop (Suc i) path))) \<and>
      list_all good_segment (tl (segments (drop (Suc i) path)))" for s'
    using Suc.hyps i by simp
  have all: "list_all good_segment (segments q) \<longleftrightarrow> good_segment (hd (segments q)) \<and> list_all good_segment (tl (segments q))" for q
    by (cases "segments q") (use segments_ne [of q] in auto)
  have step: "path_scan path s i \<longleftrightarrow> path_char ?c \<and>
      (if ?c = 0x2f then \<not> bad_segment path s i \<and> path_scan path (Suc i) (Suc i) else path_scan path s (Suc i))"
    using i by (subst path_scan.simps) (auto simp: Let_def path_char_def not_less)
  show ?case
  proof (cases "?c = 0x2f")
    case True
    then show ?thesis using step IH [of "Suc i"] bad_segment_eq [of s i path] Suc.prems
      by (auto simp: d all)
  next
    case False
    then show ?thesis using step IH [of s] Suc.prems by (auto simp: d tk)
  qed
qed

lemma segments_first: "list_all good_segment (segments p) \<Longrightarrow> p \<noteq> [] \<Longrightarrow> p ! 0 \<noteq> 0x2f"
  by (cases p) (auto simp: good_segment_def)

lemma segments_snoc: "p \<noteq> [] \<Longrightarrow> last p = 0x2f \<Longrightarrow> \<exists>s ss. segments p = s # ss @ [[]]"
proof (induction p)
  case (Cons c cs)
  show ?case
  proof (cases "cs = []")
    case True
    then show ?thesis using Cons.prems by auto
  next
    case False
    then obtain s ss where "segments cs = s # ss @ [[]]" using Cons by auto
    then show ?thesis by (cases "c = 0x2f") (auto intro: exI [of _ "s # ss"])
  qed
qed simp

lemma segments_last: "p \<noteq> [] \<Longrightarrow> last p = 0x2f \<Longrightarrow> [] \<in> set (segments p)"
  using segments_snoc by fastforce

text \<open>
  C20: The path check is the intended one. A path passes exactly when it has between 1
  and 1023 bytes, none of them a control character, DEL or a backslash, and none of its
  components is empty, a single dot or two dots; so it is relative and stays below the
  directory it is resolved in.
\<close>

theorem valid_path_exact:
  "valid_path path \<longleftrightarrow>
    path \<noteq> [] \<and> length path < 1024 \<and> list_all (\<lambda>c. 0x20 \<le> c \<and> c \<noteq> 0x7f \<and> c \<noteq> 0x5c) path \<and>
    list_all (\<lambda>s. s \<noteq> [] \<and> s \<noteq> ascii ''.'' \<and> s \<noteq> ascii ''..'') (segments path)"
proof -
  have g: "good_segment = (\<lambda>s. s \<noteq> [] \<and> s \<noteq> ascii ''.'' \<and> s \<noteq> ascii ''..'')"
    and c: "path_char = (\<lambda>c. 0x20 \<le> c \<and> c \<noteq> 0x7f \<and> c \<noteq> 0x5c)"
    by (auto simp: good_segment_def path_char_def)
  have scan: "path_scan path 0 0 \<longleftrightarrow> list_all path_char path \<and> list_all good_segment (segments path)"
    using path_scan_eq [of 0 0 path] by (cases "segments path") (use segments_ne [of path] in auto)
  have "path ! 0 \<noteq> 0x2f \<and> path ! 0 \<noteq> 0x5c \<and> path ! (length path - 1) \<noteq> 0x2f \<and> path ! (length path - 1) \<noteq> 0x5c \<and>
      0 \<notin> set path"
    if "path \<noteq> []" "list_all path_char path" "list_all good_segment (segments path)"
  proof -
    have "path_char (path ! 0)" "path_char (last path)" using that(1,2) by (auto simp: list_all_iff)
    moreover have "last path \<noteq> 0x2f" using segments_last [OF that(1)] that(3) by (auto simp: list_all_iff good_segment_def)
    moreover have "0 \<notin> set path" using that(2) by (auto simp: list_all_iff path_char_def)
    ultimately show ?thesis using segments_first [OF that(3,1)] that(1) by (simp add: path_char_def last_conv_nth)
  qed
  then show ?thesis unfolding valid_path_def scan INDEX_MAX_PATH_SIZE_def g [symmetric] c [symmetric]
    by (auto simp: not_le)
qed

section \<open>Entries on the wire\<close>

definition entry_bytes :: "index_entry \<Rightarrow> bytes" where
  "entry_bytes e =
     store_u16_be (of_nat (length (entry_path e))) @ store_u16_be 0 @ store_u32_be (entry_mode e) @
     store_u64_be (entry_size e) @ entry_sha256 e @ store_u32_be 0 @ entry_path e"

definition good_entry :: "index_entry \<Rightarrow> bool" where
  "good_entry e \<longleftrightarrow> valid_path (entry_path e) \<and> \<not> alrios_package_index_path_is_mutable (Some (entry_path e)) \<and>
     entry_mode e AND NOT 0x1ff = 0 \<and> length (entry_sha256 e) = 32"

lemma valid_path_length: "valid_path p \<Longrightarrow> p \<noteq> [] \<and> length p < 1024 \<and> 0 \<notin> set p"
  by (simp add: valid_path_def INDEX_MAX_PATH_SIZE_def not_le)

lemma path_size_load: "length p < 1024 \<Longrightarrow> unat (of_nat (length p) :: u16) = length p"
  by (simp add: unsigned_of_nat take_bit_nat_eq_self)

lemma u64_add_guard: "\<not> - 1 - a < (b :: u64) \<longleftrightarrow> unat a + unat b < 2 ^ 64"
proof -
  have "unat a < 2 ^ 64" using unsigned_less [of a] by simp
  then have "unat (- 1 - a) = 2 ^ 64 - 1 - unat a"
    by (simp add: unat_sub_if' unsigned_minus_1_eq_mask mask_eq_exp_minus_1)
  then show ?thesis using \<open>unat a < 2 ^ 64\<close> by (simp add: word_less_nat_alt) linarith
qed

lemma store_loads:
  "2 \<le> length bs \<Longrightarrow> store_u16_be (load_u16_be bs) = take 2 bs"
  "4 \<le> length bs \<Longrightarrow> store_u32_be (load_u32_be bs) = take 4 bs"
  "8 \<le> length bs \<Longrightarrow> store_u64_be (read_u64_be bs) = take 8 bs"
  by (simp_all add: be16.enc_dec be32.enc_dec be64.enc_dec read_u64_be_eq)

lemma read_store: "read_u64_be (store_u64_be v @ rest) = v"
  by (simp add: read_u64_be_eq)

lemma glue: "m = k + n \<Longrightarrow> take k (drop n xs) @ drop m xs = drop n xs"
  by (metis append_take_drop_id drop_drop)

text \<open>The conditions under which one entry is accepted.\<close>

definition next_entry :: "index_env \<Rightarrow> nat \<Rightarrow> bytes option \<Rightarrow> u64 \<Rightarrow> index_entry \<Rightarrow> bool" where
  "next_entry env i prev tot e \<longleftrightarrow> good_entry e \<and> malloc_path env i \<and>
     (case prev of None \<Rightarrow> True | Some p \<Rightarrow> p < entry_path e) \<and> unat tot + unat (entry_size e) < 2 ^ 64"

lemma parse_entry_sound:
  assumes run: "parse_entry env i prev tot cursor = Inr (e, rest, tot')"
  shows "cursor = entry_bytes e @ rest \<and> next_entry env i prev tot e \<and> tot' = tot + entry_size e"
proof -
  define n where "n = unat (load_u16_be cursor)"
  define p where "p = take n (drop 52 cursor)"
  have c: "52 \<le> length cursor" "load_u16_be (drop 2 cursor) = 0" "load_u32_be (drop 48 cursor) = 0"
      "n \<le> length cursor - 52" "load_u32_be (drop 4 cursor) AND NOT 0x1ff = 0" "valid_path p" "malloc_path env i"
      "\<not> alrios_package_index_path_is_mutable (Some p)" "\<not> (case prev of None \<Rightarrow> False | Some q \<Rightarrow> 0 \<le> strcmp q p)"
      "\<not> - 1 - tot < read_u64_be (drop 8 cursor)"
      "e = \<lparr>entry_path = p, entry_size = read_u64_be (drop 8 cursor), entry_mode = load_u32_be (drop 4 cursor),
         entry_sha256 = take 32 (drop 16 cursor)\<rparr>" "rest = drop n (drop 52 cursor)"
      "tot' = tot + read_u64_be (drop 8 cursor)"
    using run unfolding parse_entry_def Let_def INDEX_ENTRY_PREFIX_SIZE_def n_def [symmetric] p_def [symmetric]
    by (simp_all split: if_splits)
  have len: "length p = n" using c(1,4) by (simp add: p_def)
  have "(of_nat (length p) :: u16) = load_u16_be cursor" unfolding len n_def by simp
  then have "entry_bytes e @ rest = take 2 cursor @ take 2 (drop 2 cursor) @ take 4 (drop 4 cursor) @
      take 8 (drop 8 cursor) @ take 32 (drop 16 cursor) @ take 4 (drop 48 cursor) @ p @ rest"
    using c(1) store_loads(1) [of "drop 2 cursor"] store_loads(2) [of "drop 48 cursor"]
    unfolding c(2,3) by (simp add: entry_bytes_def c(11) store_loads)
  also have "\<dots> = cursor" by (simp only: p_def c(12) append_take_drop_id) (simp add: glue)
  finally have "cursor = entry_bytes e @ rest" by simp
  moreover have "case prev of None \<Rightarrow> True | Some q \<Rightarrow> q < p"
    using c(9) strcmp_negative valid_path_length [OF c(6)] by (auto split: option.splits simp: not_le)
  moreover have "unat tot + unat (read_u64_be (drop 8 cursor)) < 2 ^ 64" using c(10) u64_add_guard by blast
  moreover have "entry_path e = p" "entry_size e = read_u64_be (drop 8 cursor)" "entry_mode e = load_u32_be (drop 4 cursor)"
      "length (entry_sha256 e) = 32"
    using c(1) by (simp_all add: c(11))
  ultimately show ?thesis unfolding next_entry_def good_entry_def using c(5-8,13) by metis
qed

lemma parse_entry_complete:
  assumes "next_entry env i prev tot e"
  shows "parse_entry env i prev tot (entry_bytes e @ rest) = Inr (e, rest, tot + entry_size e)"
proof -
  let ?c = "entry_bytes e @ rest" and ?p = "entry_path e"
  have v: "valid_path ?p" "\<not> alrios_package_index_path_is_mutable (Some ?p)" "entry_mode e AND NOT 0x1ff = 0"
      "length (entry_sha256 e) = 32" "malloc_path env i"
    using assms by (simp_all add: next_entry_def good_entry_def)
  note p = valid_path_length [OF v(1)]
  have f: "load_u16_be ?c = of_nat (length ?p)" "load_u16_be (drop 2 ?c) = 0" "load_u32_be (drop 4 ?c) = entry_mode e"
      "read_u64_be (drop 8 ?c) = entry_size e" "take 32 (drop 16 ?c) = entry_sha256 e" "load_u32_be (drop 48 ?c) = 0"
      "drop 52 ?c = ?p @ rest" "length ?c = 52 + length ?p + length rest"
    using v(4) by (simp_all add: entry_bytes_def read_store)
  have s: "\<not> (case prev of None \<Rightarrow> False | Some q \<Rightarrow> 0 \<le> strcmp q ?p)"
    using assms strcmp_negative [of ?p] p by (auto simp: next_entry_def not_le split: option.splits)
  have g: "\<not> - 1 - tot < entry_size e" using assms u64_add_guard by (simp add: next_entry_def)
  have t: "take (length ?p) (?p @ rest) = ?p" by simp
  have l: "unat (of_nat (length ?p) :: u16) = length ?p" using p path_size_load by blast
  show ?thesis
    unfolding parse_entry_def INDEX_ENTRY_PREFIX_SIZE_def INDEX_MAX_PATH_SIZE_def Let_def f l t
    using v p s g by simp
qed

lemma parse_entry_iff:
  "parse_entry env i prev tot cursor = Inr (e, rest, tot') \<longleftrightarrow>
    cursor = entry_bytes e @ rest \<and> next_entry env i prev tot e \<and> tot' = tot + entry_size e"
  using parse_entry_sound parse_entry_complete by metis

lemma parse_entries_Suc:
  "parse_entries env (Suc n) i prev tot cursor = Inr (es, rest, tot') \<longleftrightarrow>
    (\<exists>e es' c'. es = e # es' \<and> cursor = entry_bytes e @ c' \<and> next_entry env i prev tot e \<and>
       parse_entries env n (i + 1) (Some (entry_path e)) (tot + entry_size e) c' = Inr (es', rest, tot'))"
proof (cases "parse_entry env i prev tot cursor")
  case (Inl x)
  then have "\<not> (cursor = entry_bytes e @ c' \<and> next_entry env i prev tot e)" for e c'
    using parse_entry_complete by (metis sum.distinct(1))
  then show ?thesis using Inl by auto
next
  case (Inr y)
  obtain e c' t' where y: "y = (e, c', t')" by (metis prod_cases3)
  have sound: "cursor = entry_bytes e @ c'" "next_entry env i prev tot e" "t' = tot + entry_size e"
    using parse_entry_sound Inr y by blast+
  have uniq: "e2 = e \<and> c2 = c'" if "cursor = entry_bytes e2 @ c2" "next_entry env i prev tot e2" for e2 c2
    using parse_entry_complete [OF that(2), of c2] Inr y that(1) by simp
  have "parse_entries env (Suc n) i prev tot cursor = Inr (es, rest, tot') \<longleftrightarrow>
      (\<exists>es'. es = e # es' \<and> parse_entries env n (i + 1) (Some (entry_path e)) t' c' = Inr (es', rest, tot'))"
    using Inr y by (auto split: sum.splits prod.splits)
  then show ?thesis using sound uniq by metis
qed

abbreviation sizes :: "index_entry list \<Rightarrow> nat" where
  "sizes es \<equiv> sum_list (map (\<lambda>e. unat (entry_size e)) es)"

definition entry_list :: "index_env \<Rightarrow> nat \<Rightarrow> bytes option \<Rightarrow> index_entry list \<Rightarrow> bool" where
  "entry_list env i prev es \<longleftrightarrow> list_all good_entry es \<and> (\<forall>k < length es. malloc_path env (i + k)) \<and>
     sorted_wrt (<) (map entry_path es) \<and>
     (\<forall>p. prev = Some p \<longrightarrow> (\<forall>e \<in> set es. p < entry_path e))"

lemma entry_list_Cons:
  "entry_list env i prev (e # es) \<longleftrightarrow> good_entry e \<and> malloc_path env i \<and>
     (\<forall>p. prev = Some p \<longrightarrow> p < entry_path e) \<and> entry_list env (i + 1) (Some (entry_path e)) es"
  unfolding entry_list_def by (auto simp: All_less_Suc2 intro: less_trans)

lemma parse_entries_iff:
  "parse_entries env n i prev tot cursor = Inr (es, rest, tot') \<longleftrightarrow>
    n = length es \<and> cursor = concat (map entry_bytes es) @ rest \<and> entry_list env i prev es \<and>
    unat tot' = unat tot + sizes es"
proof (induction n arbitrary: i prev tot cursor es)
  case 0
  have "tot = tot' \<longleftrightarrow> unat tot' = unat tot" by (metis word_eq_iff_unsigned)
  then show ?case by (auto simp: entry_list_def)
next
  case (Suc n)
  have add: "unat (tot + entry_size e) = unat tot + unat (entry_size e)"
    if "unat tot + unat (entry_size e) < 2 ^ 64" for e
    using that by (simp add: unat_word_ariths)
  have bound: "unat tot + unat (entry_size e) < 2 ^ 64" if "unat tot' = unat tot + sizes (e # es')" for e es'
  proof -
    have "unat tot' < 2 ^ 64" using unsigned_less [of tot'] by simp
    then show ?thesis using that by simp
  qed
  show ?case
  proof (cases es)
    case Nil
    then show ?thesis by (simp add: parse_entries_Suc del: parse_entries.simps)
  next
    case (Cons e es')
    then show ?thesis
      unfolding parse_entries_Suc Suc.IH next_entry_def using add [of e] bound [of e es']
      by (auto simp: entry_list_Cons split: option.splits)
  qed
qed

section \<open>The index on the wire\<close>

definition entry_stream :: "index_entry list \<Rightarrow> bytes" where
  "entry_stream es = concat (map entry_bytes es)"

text \<open>The 80 signed bytes of the header.\<close>

definition signed_header :: "package_index \<Rightarrow> bytes \<Rightarrow> bytes" where
  "signed_header index digest =
     INDEX_MAGIC @ store_u16_be 1 @ store_u16_be 144 @ store_u32_be 1 @ store_u32_be (file_count index) @
     zeros 4 @ store_u64_be (total_uncompressed_size index) @ digest @ zeros 8"

definition well_formed_index :: "package_index \<Rightarrow> bool" where
  "well_formed_index index \<longleftrightarrow>
     list_all good_entry (index_entries index) \<and> sorted_wrt (<) (map entry_path (index_entries index)) \<and>
     unat (file_count index) = length (index_entries index) \<and> length (index_entries index) \<le> 100000 \<and>
     unat (total_uncompressed_size index) = sizes (index_entries index)"

text \<open>The resources a successful parse of \<open>n\<close> entries takes.\<close>

definition parse_resources :: "index_env \<Rightarrow> nat \<Rightarrow> bytes \<Rightarrow> bool" where
  "parse_resources env n stream \<longleftrightarrow>
     md_ctx_new env \<and> digest_init env \<and> (stream = [] \<or> digest_update env) \<and> digest_final env \<and>
     length (sha256 env stream) = 32 \<and> verify_init env \<and> malloc_message env \<and>
     (0 < n \<longrightarrow> calloc_entries env) \<and> list_all (malloc_path env) [0..<n]"

lemma fold_or_zero: "fold (\<lambda>b acc. acc OR b) bs (a :: u8) = 0 \<longleftrightarrow> a = 0 \<and> (\<forall>b \<in> set bs. b = 0)"
  by (induction bs arbitrary: a) (auto simp: or_eq_0_iff)

lemma all_zero_eq: "n \<le> length bs \<Longrightarrow> all_zero bs n \<longleftrightarrow> take n bs = zeros n"
  unfolding all_zero_def fold_or_zero by (auto simp: zeros_def intro: replicate_eqI)

lemma length_INDEX_MAGIC [simp]: "length INDEX_MAGIC = 16"
  by (simp add: INDEX_MAGIC_def ascii_def)

text \<open>The header cut into its fields.\<close>

lemma header_cut:
  "wire = take 16 wire @ take 2 (drop 16 wire) @ take 2 (drop 18 wire) @ take 4 (drop 20 wire) @
    take 4 (drop 24 wire) @ take 4 (drop 28 wire) @ take 8 (drop 32 wire) @ take 32 (drop 40 wire) @
    take 8 (drop 72 wire) @ take 64 (drop 80 wire) @ drop 144 wire"
  by (simp add: glue)

text \<open>What the header checks establish.\<close>

definition header_accepted :: "bytes \<Rightarrow> bool" where
  "header_accepted wire \<longleftrightarrow> 144 \<le> length wire \<and> length wire \<le> 67108864 \<and> memeq wire INDEX_MAGIC 16 \<and>
     load_u16_be (drop 16 wire) = 1 \<and> unat (load_u16_be (drop 18 wire)) = 144 \<and> load_u32_be (drop 20 wire) = 1 \<and>
     unat (load_u32_be (drop 24 wire)) \<le> 100000 \<and> all_zero (drop 28 wire) 4 \<and> all_zero (drop 72 wire) 8"

lemma signed_header_accepted:
  assumes h: "header_accepted wire" and "load_u32_be (drop 24 wire) = file_count index"
    "read_u64_be (drop 32 wire) = total_uncompressed_size index" "take 32 (drop 40 wire) = digest"
  shows "take 80 wire = signed_header index digest \<and> wire = signed_header index digest @ take 64 (drop 80 wire) @ drop 144 wire"
proof -
  have len: "144 \<le> length wire" using h by (simp add: header_accepted_def)
  have "load_u16_be (drop 18 wire) = 144" using h by (metis header_accepted_def of_nat_numeral of_nat_unat ucast_id)
  then have f: "take 16 wire = INDEX_MAGIC" "take 2 (drop 16 wire) = store_u16_be 1" "take 2 (drop 18 wire) = store_u16_be 144"
      "take 4 (drop 20 wire) = store_u32_be 1" "take 4 (drop 24 wire) = store_u32_be (file_count index)"
      "take 4 (drop 28 wire) = zeros 4" "take 8 (drop 32 wire) = store_u64_be (total_uncompressed_size index)"
      "take 8 (drop 72 wire) = zeros 8"
    using h len assms(2,3) store_loads [of "drop 16 wire"] store_loads [of "drop 18 wire"] store_loads [of "drop 20 wire"]
      store_loads [of "drop 24 wire"] store_loads [of "drop 32 wire"]
    by (simp_all add: header_accepted_def memeq_def all_zero_eq)
  have w: "wire = signed_header index digest @ take 64 (drop 80 wire) @ drop 144 wire"
    using header_cut [of wire] unfolding f assms(4) signed_header_def by simp
  have "length (signed_header index digest) = 80" using assms(4) len by (auto simp: signed_header_def)
  then show ?thesis using w by (metis append_eq_conv_conj)
qed

text \<open>No error path answers OK.\<close>

lemma errors_are_errors:
  "sha256_memory env data \<noteq> Inl ALRIOS_PACKAGE_INDEX_OK"
  "parse_entry env i prev tot cursor \<noteq> Inl ALRIOS_PACKAGE_INDEX_OK"
  by (simp_all add: sha256_memory_def parse_entry_def Let_def)

lemma parse_entries_errors: "parse_entries env n i prev tot cursor \<noteq> Inl ALRIOS_PACKAGE_INDEX_OK"
proof (induction n arbitrary: i prev tot cursor)
  case (Suc n)
  then show ?case using errors_are_errors(2) [of env i prev tot cursor] by (auto split: sum.splits)
qed simp

lemma parse_and_verify_stages:
  "alrios_package_index_parse_and_verify env (Some wire) (Some key) (Some old) = (ALRIOS_PACKAGE_INDEX_OK, Some index) \<longleftrightarrow>
    header_accepted wire \<and> (\<exists>d. sha256_memory env (drop 144 wire) = Inr d \<and> memeq d (drop 40 wire) 32) \<and>
    verify_signature env key wire = ALRIOS_PACKAGE_INDEX_OK \<and>
    parse_verified env wire = (ALRIOS_PACKAGE_INDEX_OK, index)"
proof (cases "header_accepted wire")
  case True
  then have "\<not> (length wire < 144 \<or> 67108864 < length wire \<or> \<not> memeq wire INDEX_MAGIC 16)"
      "\<not> (load_u16_be (drop 16 wire) \<noteq> 1 \<or> unat (load_u16_be (drop 18 wire)) \<noteq> 144 \<or> load_u32_be (drop 20 wire) \<noteq> 1 \<or>
         100000 < unat (load_u32_be (drop 24 wire)) \<or> \<not> all_zero (drop 28 wire) 4 \<or> \<not> all_zero (drop 72 wire) 8)"
    by (auto simp: header_accepted_def)
  then show ?thesis using True
    unfolding alrios_package_index_parse_and_verify_def INDEX_HEADER_SIZE_def INDEX_MAX_WIRE_SIZE_def INDEX_MAX_FILES_def
      Let_def prod.case option.case
    using errors_are_errors(1) [of env "drop 144 wire"] by (auto split: sum.splits prod.splits)
next
  case False
  then show ?thesis
    unfolding alrios_package_index_parse_and_verify_def INDEX_HEADER_SIZE_def INDEX_MAX_WIRE_SIZE_def INDEX_MAX_FILES_def
      Let_def prod.case option.case
    by (auto simp: header_accepted_def)
qed

lemma parse_verified_iff:
  "parse_verified env wire = (ALRIOS_PACKAGE_INDEX_OK, index) \<longleftrightarrow>
    load_u32_be (drop 24 wire) = file_count index \<and> read_u64_be (drop 32 wire) = total_uncompressed_size index \<and>
    (0 < file_count index \<longrightarrow> calloc_entries env) \<and>
    parse_entries env (unat (file_count index)) 0 None 0 (drop 144 wire) =
      Inr (index_entries index, [], total_uncompressed_size index)"
  using parse_entries_errors
  by (cases index) (auto simp: parse_verified_def Let_def INDEX_HEADER_SIZE_def split: sum.splits prod.splits if_splits)

lemma verify_signature_iff:
  "length wire \<le> 67108864 \<Longrightarrow> verify_signature env key wire = ALRIOS_PACKAGE_INDEX_OK \<longleftrightarrow>
    malloc_message env \<and> md_ctx_new env \<and> verify_init env \<and>
    ed25519_verify env key (take 64 (drop 80 wire)) (take 80 wire @ drop 144 wire)"
  by (auto simp: verify_signature_def checked_add_size_def limits INDEX_SIGNED_HEADER_SIZE_def INDEX_HEADER_SIZE_def Let_def
      split: if_splits)

lemma sha256_memory_iff:
  "sha256_memory env data = Inr d \<longleftrightarrow> md_ctx_new env \<and> digest_init env \<and> (data = [] \<or> digest_update env) \<and>
    digest_final env \<and> length (sha256 env data) = 32 \<and> d = sha256 env data"
  by (auto simp: sha256_memory_def)

lemma index_entries_iff:
  "parse_entries env (unat (file_count index)) 0 None 0 stream = Inr (index_entries index, [], total_uncompressed_size index) \<and>
     unat (file_count index) \<le> 100000 \<longleftrightarrow>
   stream = entry_stream (index_entries index) \<and> well_formed_index index \<and>
     list_all (malloc_path env) [0..<length (index_entries index)]"
  by (auto simp: parse_entries_iff entry_list_def well_formed_index_def entry_stream_def list_all_iff)

text \<open>The fields of a wire that is put together from a header.\<close>

lemma wire_fields:
  assumes "wire = signed_header index digest @ sig @ stream" "length digest = 32" "length sig = 64"
  shows "take 80 wire = signed_header index digest" "take 64 (drop 80 wire) = sig" "drop 144 wire = stream"
    "load_u32_be (drop 24 wire) = file_count index" "read_u64_be (drop 32 wire) = total_uncompressed_size index"
    "take 32 (drop 40 wire) = digest" "144 \<le> length wire"
  using assms(2,3) by (simp_all add: assms(1) signed_header_def read_store)

lemma wire_header_accepted:
  assumes "wire = signed_header index digest @ sig @ stream" "length digest = 32" "length sig = 64"
    "length wire \<le> 67108864" "unat (file_count index) \<le> 100000"
  shows "header_accepted wire"
  unfolding header_accepted_def
  using assms(2-5) wire_fields(4,7) [OF assms(1-3)]
  by (simp add: all_zero_eq memeq_def) (simp add: assms(1) signed_header_def)

text \<open>The canonical encoding of an index with a signature.\<close>

definition canonical_wire :: "index_env \<Rightarrow> package_index \<Rightarrow> bytes \<Rightarrow> bytes" where
  "canonical_wire env index sig =
     (let stream = entry_stream (index_entries index)
      in signed_header index (sha256 env stream) @ sig @ stream)"

definition signed_text :: "index_env \<Rightarrow> package_index \<Rightarrow> bytes" where
  "signed_text env index =
     (let stream = entry_stream (index_entries index) in signed_header index (sha256 env stream) @ stream)"

lemma parsed_wire_canonical:
  assumes "alrios_package_index_parse_and_verify env (Some wire) (Some key) (Some old) = (ALRIOS_PACKAGE_INDEX_OK, Some index)"
  shows "\<exists>sig. length sig = 64 \<and> wire = canonical_wire env index sig \<and> length wire \<le> 64 * 1024 * 1024 \<and>
    ed25519_verify env key sig (signed_text env index) \<and> well_formed_index index \<and>
    parse_resources env (length (index_entries index)) (entry_stream (index_entries index))"
proof -
  from assms have h: "header_accepted wire"
      and "\<exists>d. sha256_memory env (drop 144 wire) = Inr d \<and> memeq d (drop 40 wire) 32"
      and v: "verify_signature env key wire = ALRIOS_PACKAGE_INDEX_OK"
      and p: "parse_verified env wire = (ALRIOS_PACKAGE_INDEX_OK, index)"
    unfolding parse_and_verify_stages by blast+
  then have d: "md_ctx_new env \<and> digest_init env \<and> (drop 144 wire = [] \<or> digest_update env) \<and> digest_final env"
      "length (sha256 env (drop 144 wire)) = 32" "take 32 (drop 40 wire) = sha256 env (drop 144 wire)"
    by (auto simp: sha256_memory_iff memeq_def)
  have len: "144 \<le> length wire" "length wire \<le> 67108864" "unat (load_u32_be (drop 24 wire)) \<le> 100000"
    using h by (auto simp: header_accepted_def)
  note q = p [unfolded parse_verified_iff]
  have e: "drop 144 wire = entry_stream (index_entries index)" "well_formed_index index"
      "list_all (malloc_path env) [0..<length (index_entries index)]"
    using index_entries_iff [of env index "drop 144 wire"] q len(3) by auto
  have w: "take 80 wire = signed_header index (sha256 env (drop 144 wire))"
      "wire = signed_header index (sha256 env (drop 144 wire)) @ take 64 (drop 80 wire) @ drop 144 wire"
    using signed_header_accepted [OF h _ _ d(3)] q by blast+
  have "0 < length (index_entries index) \<longrightarrow> calloc_entries env"
    using q e(2) by (metis well_formed_index_def unat_gt_0 word_gt_0)
  then have "parse_resources env (length (index_entries index)) (entry_stream (index_entries index))"
    using d e verify_signature_iff [OF len(2)] v by (simp add: parse_resources_def)
  moreover have "length (take 64 (drop 80 wire)) = 64" using len(1) by simp
  ultimately show ?thesis
    using w e verify_signature_iff [OF len(2)] v len(2)
    unfolding canonical_wire_def signed_text_def Let_def by (intro exI [of _ "take 64 (drop 80 wire)"]) simp
qed

lemma canonical_wire_parses:
  assumes sig: "length sig = 64" and len: "length (canonical_wire env index sig) \<le> 64 * 1024 * 1024"
    and ver: "ed25519_verify env key sig (signed_text env index)" and wf: "well_formed_index index"
    and res: "parse_resources env (length (index_entries index)) (entry_stream (index_entries index))"
  shows "alrios_package_index_parse_and_verify env (Some (canonical_wire env index sig)) (Some key) (Some old) =
    (ALRIOS_PACKAGE_INDEX_OK, Some index)"
proof -
  define stream where "stream = entry_stream (index_entries index)"
  define wire where "wire = canonical_wire env index sig"
  have w: "wire = signed_header index (sha256 env stream) @ sig @ stream" "length wire \<le> 67108864"
    using len by (simp_all add: wire_def canonical_wire_def stream_def Let_def)
  have d: "length (sha256 env stream) = 32" using res by (simp add: parse_resources_def stream_def)
  note f = wire_fields [OF w(1) d sig]
  have count: "unat (file_count index) \<le> 100000" "0 < file_count index \<longrightarrow> calloc_entries env"
    using wf res by (auto simp: well_formed_index_def parse_resources_def word_gt_0 unat_gt_0 [symmetric])
  have "parse_verified env wire = (ALRIOS_PACKAGE_INDEX_OK, index)"
    using index_entries_iff [of env index stream] wf res f count unfolding parse_verified_iff
    by (simp add: stream_def parse_resources_def)
  moreover have "memeq (sha256 env stream) (drop 40 wire) 32" using f(6) d by (simp add: memeq_def)
  moreover have "sha256_memory env stream = Inr (sha256 env stream)"
    using res by (simp add: sha256_memory_iff parse_resources_def stream_def)
  ultimately have "alrios_package_index_parse_and_verify env (Some wire) (Some key) (Some old) =
      (ALRIOS_PACKAGE_INDEX_OK, Some index)"
    unfolding parse_and_verify_stages verify_signature_iff [OF w(2)] f
    using wire_header_accepted [OF w(1) d sig w(2) count(1)] ver res
    by (simp add: parse_resources_def signed_text_def stream_def Let_def)
  then show ?thesis by (simp add: wire_def)
qed

text \<open>
  C21: The index format is exact. Parsing succeeds with a given index if and only if the
  wire is the canonical encoding of that index, at most 64 MiB long: the 80 byte header
  with the digest of the entry stream, a signature of 64 bytes that verifies under the
  expected key over header and stream, and the stream; the entries have
  admissible immutable paths in strictly ascending order, permission bits only, and sizes
  that add up to the announced total; there are at most 100000 of them; and the
  allocations and OpenSSL calls have succeeded.
\<close>

theorem index_parse_exact:
  "alrios_package_index_parse_and_verify env (Some wire) (Some key) (Some old) = (ALRIOS_PACKAGE_INDEX_OK, Some index) \<longleftrightarrow>
    (\<exists>sig. length sig = 64 \<and> wire = canonical_wire env index sig \<and> length wire \<le> 64 * 1024 * 1024 \<and>
       ed25519_verify env key sig (signed_text env index) \<and> well_formed_index index \<and>
       parse_resources env (length (index_entries index)) (entry_stream (index_entries index)))"
  using parsed_wire_canonical canonical_wire_parses by blast

section \<open>Reading a file\<close>

lemma of_nat_received: "n \<le> 16384 \<Longrightarrow> unat (of_int (int n) :: u64) = n"
  by (simp add: unsigned_of_nat take_bit_nat_eq_self)

lemma take_more: "xs = take k (drop n ys) \<Longrightarrow> length xs = k \<Longrightarrow> take n ys @ xs = take (n + k) ys"
  by (simp add: take_add)

text \<open>A digest that is delivered is that of the whole file, whose size is as expected.\<close>

lemma sha256_fd_loop_sound:
  "sha256_fd_loop env expected fd tot seen = Inr d \<Longrightarrow> seen = take (pos fd) (content fd) \<Longrightarrow>
    unat tot = length seen \<Longrightarrow> pos fd \<le> length (content fd) \<Longrightarrow>
    d = sha256 env (content fd) \<and> unat expected = length (content fd) \<and> length d = 32"
proof (induction env expected fd tot seen rule: sha256_fd_loop.induct)
  case (1 env expected fd tot seen)
  obtain n buf fd' where r: "sys_read 16384 fd = (n, buf, fd')" by (metis prod_cases3)
  from r show ?case
  proof (cases rule: sys_read_cases)
    case Error
    have e: "errno fd' = EINTR" "sha256_fd_loop env expected fd' tot seen = Inr d"
      using "1.prems"(1) Error(1) r by (auto simp: sha256_fd_loop.simps [of env expected fd] split: if_splits)
    have c: "content fd' = content fd" using Error(3) by (simp add: same_file_def)
    show ?thesis using "1.IH"(1) [OF r [symmetric] refl _ e] "1.prems"(2-4) Error(1,4) c by auto
  next
    case Data
    have c: "content fd' = content fd" using Data(4) by (simp add: same_file_def)
    show ?thesis
    proof (cases "buf = []")
      case True
      then have "length (content fd) \<le> pos fd" using Data(8) by fastforce
      then have "seen = content fd" using "1.prems"(2) by simp
      moreover have "tot = expected" "d = sha256 env seen" "length d = 32"
        using "1.prems"(1) True Data(1) r by (auto simp: sha256_fd_loop.simps [of env expected fd] split: if_splits)
      ultimately show ?thesis using "1.prems"(3) by simp
    next
      case False
      then have n: "\<not> n < 0" "n \<noteq> 0" using Data(1) by auto
      have g: "\<not> - 1 - tot < of_int n" "\<not> expected < tot + of_int n" "\<not> \<not> digest_update env"
          "sha256_fd_loop env expected fd' (tot + of_int n) (seen @ buf) = Inr d"
        using "1.prems"(1) n r by (auto simp: sha256_fd_loop.simps [of env expected fd] split: if_splits)
      have "seen @ buf = take (pos fd') (content fd')"
        unfolding c Data(5) "1.prems"(2) by (rule take_more [OF Data(2) refl])
      moreover have "unat (tot + of_int n) = length (seen @ buf)"
        using g(1) u64_add_guard of_nat_received [OF Data(3)] "1.prems"(3) Data(1) by (simp add: unat_word_ariths)
      moreover have "pos fd' \<le> length (content fd')"
        using Data(2,5) c "1.prems"(4) by (metis add_le_cancel_left le_add_diff_inverse length_drop length_take min.cobounded1)
      ultimately show ?thesis using "1.IH"(2) [OF r [symmetric] refl n g(1-3) g(4)] c by auto
    qed
  qed
qed

text \<open>Interruptions and short reads do not keep a digest from being delivered.\<close>

lemma sys_read_unfailing:
  "sys_read r fd = (n, buf, fd') \<Longrightarrow> Failed \<notin> set (script fd) \<Longrightarrow>
    Failed \<notin> set (script fd') \<and> (n < 0 \<longrightarrow> errno fd' = EINTR)"
  by (auto simp: sys_read_def sys_pread_def next_outcome_def Let_def split: list.splits outcome.splits prod.splits)

lemma sha256_fd_loop_complete:
  "Failed \<notin> set (script fd) \<Longrightarrow> seen = take (pos fd) (content fd) \<Longrightarrow>
    unat tot = length seen \<Longrightarrow> pos fd \<le> length (content fd) \<Longrightarrow> unat expected = length (content fd) \<Longrightarrow>
    digest_update env \<Longrightarrow> digest_final env \<Longrightarrow> length (sha256 env (content fd)) = 32 \<Longrightarrow>
    sha256_fd_loop env expected fd tot seen = Inr (sha256 env (content fd))"
proof (induction env expected fd tot seen rule: sha256_fd_loop.induct)
  case (1 env expected fd tot seen)
  obtain n buf fd' where r: "sys_read 16384 fd = (n, buf, fd')" by (metis prod_cases3)
  note unf = sys_read_unfailing [OF r "1.prems"(1)]
  from r show ?case
  proof (cases rule: sys_read_cases)
    case Error
    have c: "content fd' = content fd" using Error(3) by (simp add: same_file_def)
    have e: "n < 0" "errno fd' = EINTR" using Error(1) unf by auto
    have "sha256_fd_loop env expected fd' tot seen = Inr (sha256 env (content fd'))"
      by (rule "1.IH"(1) [OF r [symmetric] refl e]) (use unf "1.prems" Error(4) c in auto)
    then show ?thesis using e r c by (simp add: sha256_fd_loop.simps [of env expected fd])
  next
    case Data
    have c: "content fd' = content fd" using Data(4) by (simp add: same_file_def)
    show ?thesis
    proof (cases "buf = []")
      case True
      then have "length (content fd) \<le> pos fd" using Data(8) by fastforce
      then have s: "seen = content fd" using "1.prems"(2) by simp
      then have "tot = expected" using "1.prems"(3,5) by (metis word_eq_iff_unsigned)
      then show ?thesis using s True Data(1) r "1.prems"(7,8) by (simp add: sha256_fd_loop.simps [of env expected fd])
    next
      case False
      then have n: "\<not> n < 0" "n \<noteq> 0" using Data(1) by auto
      have fit: "pos fd' \<le> length (content fd')"
        using Data(2,5) c "1.prems"(4) by (metis add_le_cancel_left le_add_diff_inverse length_drop length_take min.cobounded1)
      have seen': "seen @ buf = take (pos fd') (content fd')"
        unfolding c Data(5) "1.prems"(2) by (rule take_more [OF Data(2) refl])
      have sum: "unat tot + length buf \<le> unat expected" using fit c Data(5) "1.prems"(2-5) by simp
      have rec: "unat (of_int n :: u64) = length buf" using of_nat_received [OF Data(3)] Data(1) by simp
      have "unat expected < 2 ^ 64" using unsigned_less [of expected] by simp
      then have g1: "\<not> - 1 - tot < of_int n" using u64_add_guard [of tot "of_int n"] sum rec by simp
      have tot': "unat (tot + of_int n) = unat tot + length buf"
        using u64_add_guard [of tot "of_int n"] g1 rec by (simp add: unat_word_ariths)
      then have g2: "\<not> expected < tot + of_int n" using sum by (simp add: word_less_nat_alt)
      have "sha256_fd_loop env expected fd' (tot + of_int n) (seen @ buf) = Inr (sha256 env (content fd'))"
        by (rule "1.IH"(2) [OF r [symmetric] refl n g1 g2])
          (use unf "1.prems" c fit seen' tot' Data(5) in auto)
      then show ?thesis using n r c g1 g2 "1.prems"(6) by (simp add: sha256_fd_loop.simps [of env expected fd])
    qed
  qed
qed

lemma sha256_fd_sound:
  "sha256_fd env (opened_file sc f) expected = Inr d \<Longrightarrow>
    d = sha256 env (file_data f) \<and> unat expected = length (file_data f) \<and> length d = 32"
  using sha256_fd_loop_sound [of env expected "opened_file sc f" 0 "[]" d]
  by (auto simp: sha256_fd_def opened_file_def split: if_splits)

lemma sha256_fd_complete:
  assumes "md_ctx_new env" "digest_init env" "digest_update env" "digest_final env"
    "length (sha256 env (file_data f)) = 32" "Failed \<notin> set sc" "unat expected = length (file_data f)"
  shows "sha256_fd env (opened_file sc f) expected = Inr (sha256 env (file_data f))"
proof -
  have "sha256_fd_loop env expected (opened_file sc f) 0 [] = Inr (sha256 env (content (opened_file sc f)))"
    by (rule sha256_fd_loop_complete) (use assms in \<open>simp_all add: opened_file_def\<close>)
  then show ?thesis using assms(1,2) by (simp add: sha256_fd_def opened_file_def)
qed

lemma sha256_fd_loop_errors: "sha256_fd_loop env expected fd tot seen \<noteq> Inl ALRIOS_PACKAGE_INDEX_OK"
proof (induction env expected fd tot seen rule: sha256_fd_loop.induct)
  case (1 env expected fd tot seen)
  obtain n buf fd' where r: "sys_read 16384 fd = (n, buf, fd')" by (metis prod_cases3)
  note IH = "1.IH"(1) [OF r [symmetric] refl] "1.IH"(2) [OF r [symmetric] refl]
  consider "n < 0" | "n = 0" | "\<not> n < 0" "n \<noteq> 0" by linarith
  then show ?case
    using IH r by cases (simp_all add: sha256_fd_loop.simps [of env expected fd])
qed

lemma sha256_fd_errors: "sha256_fd env fd expected \<noteq> Inl ALRIOS_PACKAGE_INDEX_OK"
  by (simp add: sha256_fd_def sha256_fd_loop_errors)

section \<open>Resolving a path\<close>

text \<open>The regular file a list of components leads to, through real directories only.\<close>

fun resolve :: "(bytes \<times> fs_node) list \<Rightarrow> bytes list \<Rightarrow> reg_file option" where
  "resolve dir [] = None"
| "resolve dir [s] = (case map_of dir s of Some (Regular f) \<Rightarrow> Some f | _ \<Rightarrow> None)"
| "resolve dir (s # t # ss) = (case map_of dir s of Some (Directory d) \<Rightarrow> resolve d (t # ss) | _ \<Rightarrow> None)"

lemma segments_step:
  "segments p = (let c = takeWhile (\<lambda>c. c \<noteq> 0x2f) p
     in if length c < length p then c # segments (drop (length c + 1) p) else [p])"
  by (induction p) (auto simp: Let_def)

lemma open_relative_resolve:
  "open_relative_regular_file dlink e0 dir p = Inr f \<longleftrightarrow> resolve dir (segments p) = Some f"
proof (induction dlink e0 dir p rule: open_relative_regular_file.induct)
  case (1 dlink e0 dir p)
  let ?c = "takeWhile (\<lambda>c. c \<noteq> 0x2f) p"
  show ?case
  proof (cases "length ?c < length p")
    case True
    obtain t ts where rest: "segments (drop (length ?c + 1) p) = t # ts" using segments_ne by (metis list.exhaust)
    have seg: "segments p = ?c # t # ts" using segments_step [of p] True rest by (simp add: Let_def)
    show ?thesis
    proof (cases "map_of dir ?c")
      case None
      then show ?thesis using True seg by (simp add: open_relative_regular_file.simps [of dlink e0 dir] openat_directory_def Let_def)
    next
      case (Some node)
      then show ?thesis using True seg rest "1.IH" [OF refl True]
        by (cases node) (simp_all add: open_relative_regular_file.simps [of dlink e0 dir] openat_directory_def Let_def)
    qed
  next
    case False
    then have seg: "segments p = [p]" using segments_step [of p] by (simp add: Let_def)
    show ?thesis using False
      unfolding open_relative_regular_file.simps [of dlink e0 dir] Let_def seg
      by (auto simp: openat_file_def split: option.splits fs_node.splits)
  qed
qed

section \<open>A verified directory\<close>

text \<open>What an entry promises about the tree below \<open>root\<close>.\<close>

definition entry_holds :: "index_env \<Rightarrow> (bytes \<times> fs_node) list \<Rightarrow> index_entry \<Rightarrow> bool" where
  "entry_holds env root e \<longleftrightarrow>
     (\<exists>f. resolve root (segments (entry_path e)) = Some f \<and> length (file_data f) = unat (entry_size e) \<and>
        st_mode f AND 0x1ff = entry_mode e \<and> sha256 env (file_data f) = take 32 (entry_sha256 e))"

lemma verify_entries_sound:
  "verify_entries env dlink e0 scripts root i es = ALRIOS_PACKAGE_INDEX_OK \<Longrightarrow> list_all (entry_holds env root) es"
proof (induction es arbitrary: i)
  case (Cons e es)
  obtain f where f: "open_relative_regular_file dlink e0 root (entry_path e) = Inr f"
    using Cons.prems by (auto split: sum.splits if_splits)
  obtain d where d: "sha256_fd env (opened_file (scripts i) f) (entry_size e) = Inr d"
      "st_mode f AND 0x1ff = entry_mode e" "memeq d (entry_sha256 e) 32"
      "verify_entries env dlink e0 scripts root (i + 1) es = ALRIOS_PACKAGE_INDEX_OK"
    using Cons.prems f sha256_fd_errors by (auto split: sum.splits if_splits)
  have "entry_holds env root e"
    using f d(2,3) sha256_fd_sound [OF d(1)] by (auto simp: entry_holds_def open_relative_resolve memeq_def)
  then show ?case using Cons.IH [OF d(4)] by simp
qed simp

lemma verify_entries_complete:
  assumes env: "md_ctx_new env" "digest_init env" "digest_update env" "digest_final env" "\<forall>d. length (sha256 env d) = 32"
    and scripts: "\<forall>k. Failed \<notin> set (scripts k)"
  shows "list_all (\<lambda>e. \<not> alrios_package_index_path_is_mutable (Some (entry_path e)) \<and>
      (\<exists>f. resolve root (segments (entry_path e)) = Some f \<and> 0 \<le> st_size f \<and> of_int (st_size f) = entry_size e \<and>
        length (file_data f) = unat (entry_size e) \<and> st_mode f AND 0x1ff = entry_mode e \<and>
        sha256 env (file_data f) = entry_sha256 e)) es \<Longrightarrow>
    verify_entries env dlink e0 scripts root i es = ALRIOS_PACKAGE_INDEX_OK"
proof (induction es arbitrary: i)
  case (Cons e es)
  then obtain f where f: "\<not> alrios_package_index_path_is_mutable (Some (entry_path e))"
      "resolve root (segments (entry_path e)) = Some f" "0 \<le> st_size f \<and> of_int (st_size f) = entry_size e"
      "length (file_data f) = unat (entry_size e)" "st_mode f AND 0x1ff = entry_mode e"
      "sha256 env (file_data f) = entry_sha256 e" by auto
  have "sha256_fd env (opened_file (scripts i) f) (entry_size e) = Inr (entry_sha256 e)"
    using sha256_fd_complete [OF env(1-4) _ _ f(4) [symmetric]] env(5) scripts f(6) by metis
  moreover have "open_relative_regular_file dlink e0 root (entry_path e) = Inr f"
    using f(2) by (simp add: open_relative_resolve)
  moreover have "of_int (st_size f) = entry_size e" "\<not> st_size f < 0" using f(3,4) by simp_all
  moreover have "verify_entries env dlink e0 scripts root (i + 1) es = ALRIOS_PACKAGE_INDEX_OK"
    by (rule Cons.IH) (use Cons.prems in simp)
  ultimately show ?case using f(1,5) by simp
qed simp

text \<open>What an unchanged tree offers to an entry.\<close>

definition entry_intact :: "index_env \<Rightarrow> (bytes \<times> fs_node) list \<Rightarrow> index_entry \<Rightarrow> bool" where
  "entry_intact env root e \<longleftrightarrow>
     (\<exists>f. resolve root (segments (entry_path e)) = Some f \<and> 0 \<le> st_size f \<and> of_int (st_size f) = entry_size e \<and>
        length (file_data f) = unat (entry_size e) \<and> st_mode f AND 0x1ff = entry_mode e \<and>
        sha256 env (file_data f) = entry_sha256 e)"

lemma intact_tree_verifies:
  assumes env: "md_ctx_new env" "digest_init env" "digest_update env" "digest_final env" "\<forall>d. length (sha256 env d) = 32"
    and scripts: "\<forall>k. Failed \<notin> set (scripts k)"
    and root: "name \<noteq> []" "fs name = Some (Directory root)" and wf: "well_formed_index index"
    and files: "list_all (entry_intact env root) (index_entries index)"
  shows "alrios_package_index_verify_directory env dlink e0 scripts (Some index) (Some name) fs = ALRIOS_PACKAGE_INDEX_OK"
proof -
  have "\<not> (index_entries index = [] \<and> file_count index \<noteq> 0)"
    using wf by (auto simp: well_formed_index_def unat_eq_zero)
  moreover have "verify_entries env dlink e0 scripts root 0 (index_entries index) = ALRIOS_PACKAGE_INDEX_OK"
    by (rule verify_entries_complete [OF env scripts])
      (use wf files in \<open>auto simp: well_formed_index_def good_entry_def list_all_iff entry_intact_def\<close>)
  ultimately show ?thesis using root
    by (simp add: alrios_package_index_verify_directory_def openat_directory_def)
qed

text \<open>
  C22: What a verified directory holds. When verification answers OK, the root is a real
  directory and every entry leads, through real directories and never through a symbolic
  link, to a regular file whose bytes have the announced size and digest and whose
  permission bits are the announced ones; whatever the kernel did to the reads, and
  however the files changed meanwhile.
\<close>

theorem verified_directory_holds:
  assumes "alrios_package_index_verify_directory env dlink e0 scripts (Some index) (Some name) fs = ALRIOS_PACKAGE_INDEX_OK"
  shows "\<exists>root. fs name = Some (Directory root) \<and> list_all (entry_holds env root) (index_entries index)"
  using assms verify_entries_sound [of env dlink e0 scripts _ 0 "index_entries index"]
  by (auto simp: alrios_package_index_verify_directory_def openat_directory_def
      split: if_splits option.splits fs_node.splits sum.splits)

text \<open>
  An intact directory verifies. When every entry of a well-formed index leads to an unchanged
  regular file of the announced size, permissions and digest, and OpenSSL does not fail,
  verification answers OK, however often the reads are interrupted or cut short.
\<close>

theorem intact_directory_verifies:
  assumes env: "md_ctx_new env" "digest_init env" "digest_update env" "digest_final env" "\<forall>d. length (sha256 env d) = 32"
    and scripts: "\<forall>k. Failed \<notin> set (scripts k)"
    and root: "name \<noteq> []" "fs name = Some (Directory root)" and wf: "well_formed_index index"
    and files: "list_all (entry_intact env root) (index_entries index)"
  shows "alrios_package_index_verify_directory env dlink e0 scripts (Some index) (Some name) fs = ALRIOS_PACKAGE_INDEX_OK"
  by (rule intact_tree_verifies [where fs = fs and name = name, OF env scripts root wf files])

section \<open>A small package\<close>

text \<open>One program below \<open>bin\<close>, with a toy digest, for the witnesses.\<close>

definition demo_index_env :: index_env where
  "demo_index_env = \<lparr>sha256 = (\<lambda>d. zeros 31 @ [of_nat (length d)]), ed25519_verify = (\<lambda>k s m. True), md_ctx_new = True,
     digest_init = True, digest_update = True, digest_final = True, verify_init = True, malloc_message = True,
     calloc_entries = True, malloc_path = (\<lambda>i. True)\<rparr>"

definition demo_reg_file :: reg_file where
  "demo_reg_file = \<lparr>st_size = 3, st_mode = 0x81ed, file_data = [1, 2, 3]\<rparr>"

definition demo_index :: package_index where
  "demo_index = \<lparr>file_count = 1, total_uncompressed_size = 3,
     index_entries = [\<lparr>entry_path = ascii ''bin/app'', entry_size = 3, entry_mode = 0x1ed, entry_sha256 = zeros 31 @ [3]\<rparr>]\<rparr>"

definition demo_root :: "(bytes \<times> fs_node) list" where
  "demo_root = [(ascii ''bin'', Directory [(ascii ''app'', Regular demo_reg_file)])]"

definition demo_fs :: "bytes \<Rightarrow> fs_node option" where
  "demo_fs name = (if name = ascii ''/pkg'' then Some (Directory demo_root) else None)"

lemma demo_fs_root: "ascii ''/pkg'' \<noteq> []" "demo_fs (ascii ''/pkg'') = Some (Directory demo_root)"
  by (simp_all add: ascii_def demo_fs_def)

lemma demo_good: "good_entry \<lparr>entry_path = ascii ''bin/app'', entry_size = 3, entry_mode = 0x1ed, entry_sha256 = zeros 31 @ [3]\<rparr>"
  by code_simp

lemma demo_index_wf: "well_formed_index demo_index"
  using demo_good by (simp add: well_formed_index_def demo_index_def)

lemma demo_resolve: "resolve demo_root (segments (ascii ''bin/app'')) = Some demo_reg_file"
  by code_simp

lemma demo_intact: "list_all (entry_intact demo_index_env demo_root) (index_entries demo_index)"
  using demo_resolve by (simp add: entry_intact_def demo_index_def demo_index_env_def) (simp add: demo_reg_file_def)

theorem intact_directory_verifies_witness:
  "alrios_package_index_verify_directory demo_index_env ENOTDIR No_errno (\<lambda>i. [Interrupted, Progress 1]) (Some demo_index)
     (Some (ascii ''/pkg'')) demo_fs = ALRIOS_PACKAGE_INDEX_OK"
  by (rule intact_directory_verifies [where root = demo_root])
    (simp_all add: demo_fs_root demo_index_wf demo_intact, simp_all add: demo_index_env_def)

theorem verified_directory_holds_witness:
  "\<exists>root. demo_fs (ascii ''/pkg'') = Some (Directory root) \<and> list_all (entry_holds demo_index_env root) (index_entries demo_index)"
proof (rule verified_directory_holds)
  show "alrios_package_index_verify_directory demo_index_env ENOTDIR No_errno (\<lambda>i. []) (Some demo_index)
      (Some (ascii ''/pkg'')) demo_fs = ALRIOS_PACKAGE_INDEX_OK"
    by (rule intact_tree_verifies [where root = demo_root])
      (simp_all add: demo_fs_root demo_index_wf demo_intact, simp_all add: demo_index_env_def)
qed

end
