(* ===== verification/QSort.thy ===== *)
theory QSort
  imports Prelude
begin

text \<open>
  \<open>qsort\<close> of the C library, and the contract between it and a comparison function. The result of
  \<open>qsort\<close> is specified up to elements that compare equal; where the program calls it, no two
  elements do, so that insertion gives the one possible result. The locale \<open>c_comparison\<close> holds
  what the library demands of a comparison on the elements that satisfy \<open>ok\<close>. The package index
  sorts its entries with it, the canonical manifest the members of an object.
\<close>

fun qsort_insert :: "('a \<Rightarrow> 'a \<Rightarrow> int) \<Rightarrow> 'a \<Rightarrow> 'a list \<Rightarrow> 'a list" where
  "qsort_insert cmp x [] = [x]"
| "qsort_insert cmp x (y # ys) = (if cmp x y < 0 then x # y # ys else y # qsort_insert cmp x ys)"

definition qsort :: "('a \<Rightarrow> 'a \<Rightarrow> int) \<Rightarrow> 'a list \<Rightarrow> 'a list" where
  "qsort cmp xs = fold (qsort_insert cmp) xs []"

lemma mset_qsort_insert [simp]: "mset (qsort_insert cmp x ys) = add_mset x (mset ys)"
  by (induction ys) auto

lemma set_qsort_insert [simp]: "set (qsort_insert cmp x ys) = insert x (set ys)"
  by (metis mset_qsort_insert set_mset_add_mset_insert set_mset_mset)

lemma mset_fold_insert: "mset (fold (qsort_insert cmp) xs ys) = mset xs + mset ys"
  by (induction xs arbitrary: ys) simp_all

lemma mset_qsort [simp]: "mset (qsort cmp xs) = mset xs"
  by (simp add: qsort_def mset_fold_insert)

lemma set_qsort [simp]: "set (qsort cmp xs) = set xs"
  using mset_qsort [of cmp xs] by (metis set_mset_mset)

lemma length_qsort [simp]: "length (qsort cmp xs) = length xs"
  using mset_qsort [of cmp xs] by (metis size_mset)

locale c_comparison =
  fixes ok :: "'a \<Rightarrow> bool"
    and cmp :: "'a \<Rightarrow> 'a \<Rightarrow> int"
  assumes flip: "ok x \<Longrightarrow> ok y \<Longrightarrow> cmp x y < 0 \<longleftrightarrow> 0 < cmp y x"
    and chain: "ok x \<Longrightarrow> ok y \<Longrightarrow> ok z \<Longrightarrow> cmp x y < 0 \<Longrightarrow> cmp y z < 0 \<Longrightarrow> cmp x z < 0"
begin

text \<open>Strictly ascending lists, and lists in which no two elements compare equal.\<close>

abbreviation ascending :: "'a list \<Rightarrow> bool" where
  "ascending \<equiv> sorted_wrt (\<lambda>x y. cmp x y < 0)"

lemma insert_ascending:
  assumes "ok x" "\<forall>y \<in> set ys. ok y" "ascending ys" "\<forall>y \<in> set ys. cmp x y \<noteq> 0"
  shows "ascending (qsort_insert cmp x ys)"
  using assms
proof (induction ys)
  case (Cons y ys)
  show ?case
  proof (cases "cmp x y < 0")
    case True
    then show ?thesis using Cons.prems chain [of x y] by auto
  next
    case False
    then have "cmp y x < 0" using Cons.prems flip [of y x] by force
    then show ?thesis using Cons False by auto
  qed
qed simp

lemma fold_insert_ascending:
  assumes "\<forall>x \<in> set (xs @ ys). ok x" "ascending ys" "\<forall>x \<in> set xs. \<forall>y \<in> set ys. cmp x y \<noteq> 0"
    and "sorted_wrt (\<lambda>x y. cmp y x \<noteq> 0) xs"
  shows "ascending (fold (qsort_insert cmp) xs ys)"
  using assms
proof (induction xs arbitrary: ys)
  case (Cons x xs)
  have "ascending (qsort_insert cmp x ys)" using Cons.prems by (intro insert_ascending) auto
  then show ?case using Cons.prems by (auto intro!: Cons.IH)
qed simp

text \<open>Sorting a list without equal elements gives an ascending one.\<close>

lemma qsort_ascending:
  assumes "\<forall>x \<in> set xs. ok x" and "sorted_wrt (\<lambda>x y. cmp y x \<noteq> 0) xs"
  shows "ascending (qsort cmp xs)"
  using fold_insert_ascending [of xs "[]"] assms by (simp add: qsort_def)

lemma insert_last: "\<forall>y \<in> set ys. \<not> cmp x y < 0 \<Longrightarrow> qsort_insert cmp x ys = ys @ [x]"
  by (induction ys) simp_all

lemma fold_insert_last:
  "\<forall>x \<in> set (ys @ xs). ok x \<Longrightarrow> ascending (ys @ xs) \<Longrightarrow> fold (qsort_insert cmp) xs ys = ys @ xs"
proof (induction xs arbitrary: ys)
  case (Cons x xs)
  have "\<not> cmp x y < 0" if y: "y \<in> set ys" for y
  proof -
    have "ok x" "ok y" "cmp y x < 0" using Cons.prems y by (simp_all add: sorted_wrt_append)
    then show ?thesis using flip [of x y] flip [of y x] by simp
  qed
  then show ?case using Cons by (simp add: insert_last)
qed simp

text \<open>An ascending list is left as it is.\<close>

lemma qsort_id: "\<forall>x \<in> set xs. ok x \<Longrightarrow> ascending xs \<Longrightarrow> qsort cmp xs = xs"
  using fold_insert_last [of "[]" xs] by (simp add: qsort_def)

lemma ascending_distinct:
  "\<forall>x \<in> set xs. ok x \<Longrightarrow> ascending xs \<Longrightarrow> sorted_wrt (\<lambda>x y. cmp y x \<noteq> 0) xs"
proof (rule sorted_wrt_mono_rel [of xs "\<lambda>x y. cmp x y < 0"])
  show "cmp y x \<noteq> 0" if "\<forall>x \<in> set xs. ok x" "x \<in> set xs" "y \<in> set xs" "cmp x y < 0" for x y
    using that flip [of x y] by auto
qed

end

end
