(* ===== verification/IndexWriter.thy ===== *)
theory IndexWriter
  imports PackageIndex QSort
begin

text \<open>
  The index writer of \<open>src/libraries/package/index_writer.c\<close>: the walk over a directory,
  the encoding and signing of the index it found, the replacement of the index file, and
  the key files of the signing tool.

  The directory is the tree of \<open>PackageIndex\<close>; the pairs of a directory are what
  \<open>readdir\<close> delivers, in that order. OpenSSL, the allocator and the answers of the kernel
  are fields of the environment. Functions that the source repeats from \<open>index.c\<close>
  (\<open>checked_add_size\<close>, \<open>sha256_fd\<close>, \<open>sha256_memory\<close>) are those of \<open>PackageIndex\<close>.
\<close>

section \<open>Environment and state\<close>

text \<open>
  \<open>dir_error\<close>: the \<open>errno\<close> of an \<open>openat\<close> of a directory that fails. \<open>swapped\<close>: what is
  found under a name when it is opened, if that is not what \<open>fstatat\<close> saw, and whether it
  has the same device and inode. \<open>readdir_fails\<close>: after how many items \<open>readdir\<close> reports an
  error. All by the relative path.
\<close>

record write_env =
  crypto :: index_env
  ed25519_sign :: "bytes \<Rightarrow> bytes \<Rightarrow> bytes"
  sign_key_new :: bool
  sign_init :: bool
  sign_message :: bool
  calloc_wire :: bool
  realloc_items :: "nat \<Rightarrow> bool"
  malloc_entry :: "nat \<Rightarrow> bool"
  malloc_join :: "bytes \<Rightarrow> bool"
  dup_ok :: "bytes \<Rightarrow> bool"
  fdopendir_ok :: "bytes \<Rightarrow> bool"
  readdir_fails :: "bytes \<Rightarrow> nat option"
  fstatat_ok :: "bytes \<Rightarrow> bool"
  fstat_ok :: "bytes \<Rightarrow> bool"
  dir_error :: "bytes \<Rightarrow> open_errno option"
  swapped :: "bytes \<Rightarrow> (fs_node option \<times> bool) option"
  read_script :: "bytes \<Rightarrow> outcome list"

text \<open>\<open>build_entry_t\<close> has the fields of an index entry.\<close>

record build_entries =
  items :: "index_entry list"
  capacity :: nat
  total_size :: u64

definition SIZEOF_BUILD_ENTRY :: nat where
  "SIZEOF_BUILD_ENTRY = 56"

definition no_entries :: build_entries where
  "no_entries = \<lparr>items = [], capacity = 0, total_size = 0\<rparr>"

definition write_u64_be :: "u64 \<Rightarrow> bytes" where
  "write_u64_be v = store_u32_be (ucast (drop_bit 32 v)) @ store_u32_be (ucast v)"

section \<open>The walk\<close>

text \<open>The growth of the array: the new capacity, or an error.\<close>

definition grow_capacity :: "write_env \<Rightarrow> nat \<Rightarrow> index_status + nat" where
  "grow_capacity env cap =
     (let new_capacity = (if cap = 0 then 32 else cap * 2);
          new_capacity = (if new_capacity < cap \<or> INDEX_MAX_FILES < new_capacity \<or>
                             SIZE_MAX div SIZEOF_BUILD_ENTRY < new_capacity
                          then INDEX_MAX_FILES else new_capacity)
      in if new_capacity \<le> cap then Inl ALRIOS_PACKAGE_INDEX_ERR_LIMIT
         else if \<not> realloc_items env new_capacity then Inl ALRIOS_PACKAGE_INDEX_ERR_MEMORY
         else Inr new_capacity)"

definition append_entry ::
  "write_env \<Rightarrow> build_entries \<Rightarrow> bytes \<Rightarrow> reg_file \<Rightarrow> index_status \<times> build_entries" where
  "append_entry env entries path f =
     (if st_size f < 0 then (ALRIOS_PACKAGE_INDEX_ERR_ARGUMENT, entries)
      else if path = [] \<or> INDEX_MAX_PATH_SIZE \<le> length path then (ALRIOS_PACKAGE_INDEX_ERR_PATH, entries)
      else if alrios_package_index_path_is_mutable (Some path) then (ALRIOS_PACKAGE_INDEX_ERR_MUTABLE, entries)
      else if INDEX_MAX_FILES \<le> length (items entries) then (ALRIOS_PACKAGE_INDEX_ERR_LIMIT, entries)
      else if - 1 - total_size entries < of_int (st_size f) then (ALRIOS_PACKAGE_INDEX_ERR_LIMIT, entries)
      else case (if length (items entries) = capacity entries then grow_capacity env (capacity entries)
                 else Inr (capacity entries)) of
        Inl e \<Rightarrow> (e, entries)
      | Inr cap \<Rightarrow>
          let entries = entries\<lparr>capacity := cap\<rparr>
          in if \<not> malloc_entry env (length (items entries)) then (ALRIOS_PACKAGE_INDEX_ERR_MEMORY, entries)
             else case sha256_fd (crypto env) (opened_file (read_script env path) f) (of_int (st_size f)) of
               Inl e \<Rightarrow> (e, entries)
             | Inr digest \<Rightarrow>
                 (ALRIOS_PACKAGE_INDEX_OK,
                  entries\<lparr>items := items entries @
                            [\<lparr>entry_path = path, entry_size = of_int (st_size f),
                              entry_mode = st_mode f AND 0x1ff, entry_sha256 = digest\<rparr>],
                          total_size := total_size entries + of_int (st_size f)\<rparr>))"

definition join_relative_path :: "write_env \<Rightarrow> bytes \<Rightarrow> bytes \<Rightarrow> index_status + bytes" where
  "join_relative_path env prefix name =
     (if name = [] \<or> 0x2f \<in> set name \<or> 0x5c \<in> set name \<or> name = ascii ''.'' \<or> name = ascii ''..''
      then Inl ALRIOS_PACKAGE_INDEX_ERR_PATH
      else case checked_add_size (length prefix) (if prefix = [] then 0 else 1) of
        None \<Rightarrow> Inl ALRIOS_PACKAGE_INDEX_ERR_PATH
      | Some n \<Rightarrow>
          (case checked_add_size n (length name) of
             None \<Rightarrow> Inl ALRIOS_PACKAGE_INDEX_ERR_PATH
           | Some path_size \<Rightarrow>
               if INDEX_MAX_PATH_SIZE \<le> path_size then Inl ALRIOS_PACKAGE_INDEX_ERR_PATH
               else
                 let path = (if prefix \<noteq> [] then prefix @ [0x2f] @ name else name)
                 in if \<not> malloc_join env path then Inl ALRIOS_PACKAGE_INDEX_ERR_MEMORY else Inr path))"

definition open_status :: "open_errno \<Rightarrow> index_status" where
  "open_status e = (if e = ELOOP then ALRIOS_PACKAGE_INDEX_ERR_SYMLINK else ALRIOS_PACKAGE_INDEX_ERR_IO)"

text \<open>A regular file: it is opened, compared with what \<open>fstatat\<close> saw, and appended.\<close>

definition collect_file ::
  "write_env \<Rightarrow> bytes \<Rightarrow> reg_file \<Rightarrow> build_entries \<Rightarrow> index_status \<times> build_entries" where
  "collect_file env relative_path f entries =
     (case (case swapped env relative_path of None \<Rightarrow> (Some (Regular f), True) | Some s \<Rightarrow> s) of
        (node, same_inode) \<Rightarrow>
          (case openat_file node of
             Inl e \<Rightarrow> (open_status e, entries)
           | Inr (Regular g) \<Rightarrow>
               if \<not> fstat_ok env relative_path \<or> \<not> same_inode \<or> st_size g \<noteq> st_size f
               then (ALRIOS_PACKAGE_INDEX_ERR_CHANGED, entries)
               else append_entry env entries relative_path g
           | Inr _ \<Rightarrow> (ALRIOS_PACKAGE_INDEX_ERR_CHANGED, entries)))"

text \<open>
  The loop over the items of a directory; \<open>left\<close> counts down to the failure of \<open>readdir\<close>.
  The recursion enters a directory with the list of its items.
\<close>

definition skipped_names :: "bytes list" where
  "skipped_names = map ascii [''.'', ''..'', ''.arapp.index'']"

fun collect_items ::
  "write_env \<Rightarrow> bytes \<Rightarrow> nat option \<Rightarrow> (bytes \<times> fs_node) list \<Rightarrow> build_entries \<Rightarrow> index_status \<times> build_entries" where
  "collect_items env prefix left [] entries =
     (if left = Some 0 then ALRIOS_PACKAGE_INDEX_ERR_IO else ALRIOS_PACKAGE_INDEX_OK, entries)"
| "collect_items env prefix left ((name, node) # rest) entries =
     (if left = Some 0 then (ALRIOS_PACKAGE_INDEX_ERR_IO, entries)
      else
        let left' = map_option (\<lambda>n. n - 1) left
        in if name \<in> set skipped_names then collect_items env prefix left' rest entries
           else case join_relative_path env prefix name of
             Inl e \<Rightarrow> (e, entries)
           | Inr relative_path \<Rightarrow>
               if \<not> fstatat_ok env relative_path then (ALRIOS_PACKAGE_INDEX_ERR_IO, entries)
               else case
                 (case node of
                    Symlink _ \<Rightarrow> (ALRIOS_PACKAGE_INDEX_ERR_SYMLINK, entries)
                  | Directory d \<Rightarrow>
                      (case dir_error env relative_path of
                         Some e \<Rightarrow> (open_status e, entries)
                       | None \<Rightarrow>
                           if \<not> dup_ok env relative_path \<or> \<not> fdopendir_ok env relative_path
                           then (ALRIOS_PACKAGE_INDEX_ERR_IO, entries)
                           else collect_items env relative_path (readdir_fails env relative_path) d entries)
                  | Special \<Rightarrow> (ALRIOS_PACKAGE_INDEX_ERR_FILE_TYPE, entries)
                  | Regular f \<Rightarrow> collect_file env relative_path f entries) of
                 (status, entries') \<Rightarrow>
                   if status \<noteq> ALRIOS_PACKAGE_INDEX_OK then (status, entries')
                   else collect_items env prefix left' rest entries')"

definition collect_directory ::
  "write_env \<Rightarrow> (bytes \<times> fs_node) list \<Rightarrow> bytes \<Rightarrow> build_entries \<Rightarrow> index_status \<times> build_entries" where
  "collect_directory env directory prefix entries =
     (if \<not> dup_ok env prefix \<or> \<not> fdopendir_ok env prefix then (ALRIOS_PACKAGE_INDEX_ERR_IO, entries)
      else collect_items env prefix (readdir_fails env prefix) directory entries)"

section \<open>Order and encoding\<close>

definition compare_entries :: "index_entry \<Rightarrow> index_entry \<Rightarrow> int" where
  "compare_entries left right = strcmp (entry_path left) (entry_path right)"

text \<open>The loop that adds up the size of the entry stream and checks the order.\<close>

fun stream_size :: "bytes option \<Rightarrow> index_entry list \<Rightarrow> nat \<Rightarrow> index_status + nat" where
  "stream_size prev [] entries_size = Inr entries_size"
| "stream_size prev (e # es) entries_size =
     (case checked_add_size INDEX_ENTRY_PREFIX_SIZE (length (entry_path e)) of
        None \<Rightarrow> Inl ALRIOS_PACKAGE_INDEX_ERR_LIMIT
      | Some n \<Rightarrow>
          (case checked_add_size entries_size n of
             None \<Rightarrow> Inl ALRIOS_PACKAGE_INDEX_ERR_LIMIT
           | Some entries_size' \<Rightarrow>
               if (case prev of None \<Rightarrow> False | Some p \<Rightarrow> 0 \<le> strcmp p (entry_path e))
               then Inl ALRIOS_PACKAGE_INDEX_ERR_PATH
               else stream_size (Some (entry_path e)) es entries_size'))"

fun encode_entries :: "index_entry list \<Rightarrow> nat \<Rightarrow> nat \<Rightarrow> bytes \<Rightarrow> index_status \<times> bytes" where
  "encode_entries [] offset output_size output =
     (if offset = output_size then ALRIOS_PACKAGE_INDEX_OK else ALRIOS_PACKAGE_INDEX_ERR_FORMAT, output)"
| "encode_entries (e # es) offset output_size output =
     (let path_size = length (entry_path e)
      in if 65535 < path_size then (ALRIOS_PACKAGE_INDEX_ERR_LIMIT, output)
         else case checked_add_size INDEX_ENTRY_PREFIX_SIZE path_size of
           None \<Rightarrow> (ALRIOS_PACKAGE_INDEX_ERR_LIMIT, output)
         | Some entry_len \<Rightarrow>
             if output_size - offset < entry_len then (ALRIOS_PACKAGE_INDEX_ERR_LIMIT, output)
             else
               let output = memwrite output offset (zeros INDEX_ENTRY_PREFIX_SIZE);
                   output = memwrite output offset (store_u16_be (of_nat path_size));
                   output = memwrite output (offset + 4) (store_u32_be (entry_mode e));
                   output = memwrite output (offset + 8) (write_u64_be (entry_size e));
                   output = memwrite output (offset + 16) (take 32 (entry_sha256 e));
                   output = memwrite output (offset + 48) (store_u32_be 0);
                   output = memwrite output (offset + INDEX_ENTRY_PREFIX_SIZE) (entry_path e)
               in encode_entries es (offset + entry_len) output_size output)"

definition sign_wire :: "write_env \<Rightarrow> bytes \<Rightarrow> bytes \<Rightarrow> index_status \<times> bytes" where
  "sign_wire env wire private_key =
     (case checked_add_size INDEX_SIGNED_HEADER_SIZE (length wire - INDEX_HEADER_SIZE) of
        None \<Rightarrow> (ALRIOS_PACKAGE_INDEX_ERR_LIMIT, wire)
      | Some message_size \<Rightarrow>
          if \<not> sign_message env then (ALRIOS_PACKAGE_INDEX_ERR_MEMORY, wire)
          else
            let message = take INDEX_SIGNED_HEADER_SIZE wire @ drop INDEX_HEADER_SIZE wire;
                signature = ed25519_sign env private_key message
            in if sign_key_new env \<and> md_ctx_new (crypto env) \<and> sign_init env \<and> length signature = 64
               then (ALRIOS_PACKAGE_INDEX_OK, memwrite wire 80 signature)
               else (ALRIOS_PACKAGE_INDEX_ERR_CRYPTO, wire))"

text \<open>The header fields the writer fills in, then stream, digest and signature.\<close>

definition build_wire :: "write_env \<Rightarrow> bytes \<Rightarrow> build_entries \<Rightarrow> nat \<Rightarrow> index_status \<times> bytes" where
  "build_wire env private_key entries entries_size =
     (let wire = zeros (INDEX_HEADER_SIZE + entries_size);
          wire = memwrite wire 0 INDEX_MAGIC;
          wire = memwrite wire 16 (store_u16_be 1);
          wire = memwrite wire 18 (store_u16_be (of_nat INDEX_HEADER_SIZE));
          wire = memwrite wire 20 (store_u32_be 1);
          wire = memwrite wire 24 (store_u32_be (of_nat (length (items entries))));
          wire = memwrite wire 32 (write_u64_be (total_size entries))
      in case encode_entries (items entries) 0 entries_size (drop INDEX_HEADER_SIZE wire) of
        (result, stream) \<Rightarrow>
          let wire = take INDEX_HEADER_SIZE wire @ stream
          in if result \<noteq> ALRIOS_PACKAGE_INDEX_OK then (result, wire)
             else case sha256_memory (crypto env) stream of
               Inl e \<Rightarrow> (e, wire)
             | Inr digest \<Rightarrow> sign_wire env (memwrite wire 40 digest) private_key)"

definition alrios_package_index_build_directory ::
  "write_env \<Rightarrow> open_errno \<Rightarrow> bytes option \<Rightarrow> (bytes \<Rightarrow> fs_node option) \<Rightarrow> bytes option \<Rightarrow> index_status \<times> bytes option" where
  "alrios_package_index_build_directory env dlink rootp fs keyp =
     (case (rootp, keyp) of
        (Some root_directory, Some private_key) \<Rightarrow>
          if root_directory = [] then (ALRIOS_PACKAGE_INDEX_ERR_ARGUMENT, None)
          else (case openat_directory dlink (fs root_directory) of
             Inl e \<Rightarrow> (open_status e, None)
           | Inr root \<Rightarrow>
               (case collect_directory env root [] no_entries of
                  (result, entries) \<Rightarrow>
                    if result \<noteq> ALRIOS_PACKAGE_INDEX_OK then (result, None)
                    else
                      let entries = entries\<lparr>items := qsort compare_entries (items entries)\<rparr>
                      in case stream_size None (items entries) 0 of
                        Inl e \<Rightarrow> (e, None)
                      | Inr entries_size \<Rightarrow>
                          (case checked_add_size INDEX_HEADER_SIZE entries_size of
                             None \<Rightarrow> (ALRIOS_PACKAGE_INDEX_ERR_LIMIT, None)
                           | Some wire_size \<Rightarrow>
                               if INDEX_MAX_WIRE_SIZE < wire_size \<or> 4294967295 < length (items entries)
                               then (ALRIOS_PACKAGE_INDEX_ERR_LIMIT, None)
                               else if \<not> calloc_wire env then (ALRIOS_PACKAGE_INDEX_ERR_MEMORY, None)
                               else case build_wire env private_key entries entries_size of
                                 (result, wire) \<Rightarrow>
                                   if result \<noteq> ALRIOS_PACKAGE_INDEX_OK then (result, None)
                                   else (ALRIOS_PACKAGE_INDEX_OK, Some wire))))
      | _ \<Rightarrow> (ALRIOS_PACKAGE_INDEX_ERR_ARGUMENT, None))"

section \<open>Replacing the index file\<close>

text \<open>
  The directory of the output file: which names exist, with their contents. \<open>mkstemp_name\<close>
  are the six characters \<open>mkstemp\<close> puts in place of the \<open>X\<close>s, or nothing when it fails; it
  creates a file that did not exist. A failing \<open>mkstemp\<close> leaves the template as it is.
\<close>

record write_io =
  disk :: "bytes \<Rightarrow> bytes option"
  malloc_temporary :: bool
  mkstemp_name :: "bytes option"
  fchmod_ok :: bool
  write_script :: "outcome list"
  close_ok :: bool
  rename_ok :: bool
  unlink_ok :: bool

function write_all :: "posix_fd \<Rightarrow> bytes \<Rightarrow> index_status \<times> posix_fd" where
  "write_all fd data =
     (if data = [] then (ALRIOS_PACKAGE_INDEX_OK, fd)
      else case sys_write data fd of (written, fd') \<Rightarrow>
        if written < 0 then
          if errno fd' = EINTR then write_all fd' data else (ALRIOS_PACKAGE_INDEX_ERR_IO, fd')
        else if written = 0 then (ALRIOS_PACKAGE_INDEX_ERR_IO, fd')
        else write_all fd' (drop (nat written) data))"
  by pat_completeness auto
termination
proof (relation "measure (\<lambda>(fd, data). length (script fd) + length data)", goal_cases)
  case (2 fd data x fd')
  then obtain n where "sys_write data fd = (n, fd')" "n < 0" by metis
  then show ?case by (cases rule: sys_write_cases) (auto simp: same_file_def)
next
  case (3 fd data x fd')
  then obtain n where n: "sys_write data fd = (n, fd')" "\<not> n < 0" "n \<noteq> 0" "x = n" by metis
  from n(1) show ?case
    by (cases rule: sys_write_cases) (use n 3(1) in \<open>auto simp: same_file_def\<close>)
qed simp

declare write_all.simps [simp del]

definition temporary_template :: "bytes \<Rightarrow> bytes \<Rightarrow> bytes" where
  "temporary_template output_path suffix = output_path @ ascii ''.tmp.'' @ suffix"

definition created_file :: "outcome list \<Rightarrow> posix_fd" where
  "created_file sc = \<lparr>content = [], pos = 0, access = O_RDWR, regular = True, held = None, script = sc, errno = NoError\<rparr>"

text \<open>The part behind \<open>mkstemp\<close>: the answer and the contents written to the temporary file.\<close>

definition write_temporary :: "write_io \<Rightarrow> bytes \<Rightarrow> index_status \<times> bytes" where
  "write_temporary io wire =
     (case write_all (created_file (write_script io)) wire of
        (result, fd) \<Rightarrow>
          (case (if result = ALRIOS_PACKAGE_INDEX_OK then sys_fsync fd else (True, fd)) of
             (synced, fd') \<Rightarrow>
               let result = (if result = ALRIOS_PACKAGE_INDEX_OK \<and> \<not> synced
                             then ALRIOS_PACKAGE_INDEX_ERR_IO else result);
                   result = (if \<not> close_ok io \<and> result = ALRIOS_PACKAGE_INDEX_OK
                             then ALRIOS_PACKAGE_INDEX_ERR_IO else result)
               in (result, content fd')))"

definition unlink_temporary :: "write_io \<Rightarrow> bytes \<Rightarrow> (bytes \<Rightarrow> bytes option) \<Rightarrow> bytes \<Rightarrow> bytes option" where
  "unlink_temporary io path names = (if unlink_ok io then names(path := None) else names)"

definition alrios_package_index_write_directory ::
  "write_env \<Rightarrow> open_errno \<Rightarrow> bytes option \<Rightarrow> (bytes \<Rightarrow> fs_node option) \<Rightarrow> bytes option \<Rightarrow> bytes option \<Rightarrow>
   write_io \<Rightarrow> index_status \<times> (bytes \<Rightarrow> bytes option)" where
  "alrios_package_index_write_directory env dlink rootp fs outputp keyp io =
     (case outputp of
        None \<Rightarrow> (ALRIOS_PACKAGE_INDEX_ERR_ARGUMENT, disk io)
      | Some output_path \<Rightarrow>
          if output_path = [] then (ALRIOS_PACKAGE_INDEX_ERR_ARGUMENT, disk io)
          else case alrios_package_index_build_directory env dlink rootp fs keyp of
            (result, wirep) \<Rightarrow>
              if result \<noteq> ALRIOS_PACKAGE_INDEX_OK then (result, disk io)
              else case checked_add_size (length output_path) 12 of
                None \<Rightarrow> (ALRIOS_PACKAGE_INDEX_ERR_LIMIT, disk io)
              | Some _ \<Rightarrow>
                  if \<not> malloc_temporary io then (ALRIOS_PACKAGE_INDEX_ERR_MEMORY, disk io)
                  else case mkstemp_name io of
                    None \<Rightarrow>
                      (ALRIOS_PACKAGE_INDEX_ERR_IO,
                       unlink_temporary io (temporary_template output_path (ascii ''XXXXXX'')) (disk io))
                  | Some suffix \<Rightarrow>
                      let path = temporary_template output_path suffix;
                          created = (disk io)(path \<mapsto> [])
                      in if \<not> fchmod_ok io then (ALRIOS_PACKAGE_INDEX_ERR_IO, unlink_temporary io path created)
                         else case write_temporary io (the wirep) of
                           (result, written) \<Rightarrow>
                             let names = created(path \<mapsto> written)
                             in if result \<noteq> ALRIOS_PACKAGE_INDEX_OK then (result, unlink_temporary io path names)
                                else if \<not> rename_ok io
                                then (ALRIOS_PACKAGE_INDEX_ERR_IO, unlink_temporary io path names)
                                else (ALRIOS_PACKAGE_INDEX_OK, names(output_path \<mapsto> written, path := None)))"

section \<open>Key files\<close>

definition hex_char_to_val :: "u8 \<Rightarrow> int" where
  "hex_char_to_val c =
     (if 0x30 \<le> c \<and> c \<le> 0x39 then uint (c - 0x30)
      else if 0x61 \<le> c \<and> c \<le> 0x66 then uint (c - 0x61 + 10)
      else if 0x41 \<le> c \<and> c \<le> 0x46 then uint (c - 0x41 + 10)
      else -1)"

text \<open>The answers of the stream functions, and the bytes \<open>fread\<close> delivers.\<close>

record key_stream =
  seek_end_ok :: bool
  tell :: int
  seek_set_ok :: bool
  malloc_buffer :: bool
  read_data :: bytes

definition read_key_file :: "key_stream option \<Rightarrow> index_status + bytes" where
  "read_key_file file =
     (case file of
        None \<Rightarrow> Inl ALRIOS_PACKAGE_INDEX_ERR_IO
      | Some f \<Rightarrow>
          if \<not> seek_end_ok f then Inl ALRIOS_PACKAGE_INDEX_ERR_IO
          else if tell f < 0 \<or> 65536 < tell f then Inl ALRIOS_PACKAGE_INDEX_ERR_LIMIT
          else if \<not> seek_set_ok f then Inl ALRIOS_PACKAGE_INDEX_ERR_IO
          else if \<not> malloc_buffer f then Inl ALRIOS_PACKAGE_INDEX_ERR_MEMORY
          else let buffer = take (nat (tell f)) (read_data f)
            in if int (length buffer) \<noteq> tell f then Inl ALRIOS_PACKAGE_INDEX_ERR_IO else Inr buffer)"

definition is_hex :: "bytes \<Rightarrow> bool" where
  "is_hex buffer \<longleftrightarrow> list_all (\<lambda>c. \<not> hex_char_to_val c < 0) (take 64 buffer)"

definition hex_bytes :: "bytes \<Rightarrow> bytes" where
  "hex_bytes buffer =
     map (\<lambda>i. of_int ((hex_char_to_val (buffer ! (i * 2)) * 16) + hex_char_to_val (buffer ! (i * 2 + 1)))) [0..<32]"

text \<open>\<open>pem\<close>: the raw key of a PEM text, if OpenSSL finds one and it fits into 32 bytes.\<close>

definition pem_key :: "(bytes \<Rightarrow> bytes option) \<Rightarrow> bytes \<Rightarrow> bytes \<Rightarrow> index_status \<times> bytes" where
  "pem_key pem buffer out =
     (case pem buffer of
        None \<Rightarrow> (ALRIOS_PACKAGE_INDEX_ERR_CRYPTO, out)
      | Some raw \<Rightarrow>
          if length raw = 32 then (ALRIOS_PACKAGE_INDEX_OK, raw)
          else (ALRIOS_PACKAGE_INDEX_ERR_CRYPTO, memwrite out 0 raw))"

definition alrios_package_index_load_private_key_file ::
  "(bytes \<Rightarrow> bytes option) \<Rightarrow> bytes option \<Rightarrow> (bytes \<Rightarrow> key_stream option) \<Rightarrow> bytes option \<Rightarrow>
   index_status \<times> bytes option" where
  "alrios_package_index_load_private_key_file pem pathp fopen outp =
     (case (pathp, outp) of
        (Some key_path, Some out) \<Rightarrow>
          if key_path = [] then (ALRIOS_PACKAGE_INDEX_ERR_ARGUMENT, outp)
          else (case read_key_file (fopen key_path) of
             Inl e \<Rightarrow> (e, outp)
           | Inr buffer \<Rightarrow>
               if length buffer = 32 then (ALRIOS_PACKAGE_INDEX_OK, Some buffer)
               else if length buffer = 64 then
                 (ALRIOS_PACKAGE_INDEX_OK, Some (if is_hex buffer then hex_bytes buffer else take 32 buffer))
               else case pem_key pem buffer out of (st, key) \<Rightarrow> (st, Some key))
      | _ \<Rightarrow> (ALRIOS_PACKAGE_INDEX_ERR_ARGUMENT, outp))"

definition alrios_package_index_load_public_key_file ::
  "(bytes \<Rightarrow> bytes option) \<Rightarrow> bytes option \<Rightarrow> (bytes \<Rightarrow> key_stream option) \<Rightarrow> bytes option \<Rightarrow>
   index_status \<times> bytes option" where
  "alrios_package_index_load_public_key_file pem pathp fopen outp =
     (case (pathp, outp) of
        (Some key_path, Some out) \<Rightarrow>
          if key_path = [] then (ALRIOS_PACKAGE_INDEX_ERR_ARGUMENT, outp)
          else (case read_key_file (fopen key_path) of
             Inl e \<Rightarrow> (e, outp)
           | Inr buffer \<Rightarrow>
               if length buffer = 32 then (ALRIOS_PACKAGE_INDEX_OK, Some buffer)
               else if length buffer = 64 \<and> is_hex buffer then (ALRIOS_PACKAGE_INDEX_OK, Some (hex_bytes buffer))
               else case pem_key pem buffer out of (st, key) \<Rightarrow> (st, Some key))
      | _ \<Rightarrow> (ALRIOS_PACKAGE_INDEX_ERR_ARGUMENT, outp))"

text \<open>\<open>derive\<close>: the raw public key OpenSSL derives from a raw private key.\<close>

definition alrios_package_index_public_key_from_private ::
  "(bytes \<Rightarrow> bytes option) \<Rightarrow> bytes option \<Rightarrow> bytes option \<Rightarrow> index_status \<times> bytes option" where
  "alrios_package_index_public_key_from_private derive keyp outp =
     (case (keyp, outp) of
        (Some private_key, Some out) \<Rightarrow> (case pem_key derive private_key out of (st, key) \<Rightarrow> (st, Some key))
      | _ \<Rightarrow> (ALRIOS_PACKAGE_INDEX_ERR_ARGUMENT, outp))"

end
