(* ===== verification/IndexWriterSpec.thy ===== *)
theory IndexWriterSpec
  imports IndexWriter PackageIndexSpec "HOL-Library.Multiset"
begin

text \<open>
  What the index writer guarantees: the index lists exactly the regular files of the tree,
  the parser accepts it under the matching key, the directory verifies against it, and the
  index file is replaced as a whole or not at all.
\<close>

section \<open>Entries\<close>

lemma write_u64_be_eq: "write_u64_be v = store_u64_be v"
proof -
  have "read_u64_be (write_u64_be v) = v"
    by (simp add: read_u64_be_def write_u64_be_def) (rule bit_word_eqI, auto simp: bit_simps)
  then have "store_u64_be v = take 8 (write_u64_be v)"
    using store_loads(3) [of "write_u64_be v"] by (simp add: write_u64_be_def)
  then show ?thesis by (simp add: write_u64_be_def)
qed

definition entry_for :: "index_env \<Rightarrow> bytes \<times> reg_file \<Rightarrow> index_entry" where
  "entry_for env = (\<lambda>(path, f). \<lparr>entry_path = path, entry_size = of_int (st_size f),
     entry_mode = st_mode f AND 0x1ff, entry_sha256 = sha256 env (file_data f)\<rparr>)"

text \<open>What holds of the collected entries throughout; the array never overflows.\<close>

definition entries_ok :: "build_entries \<Rightarrow> bool" where
  "entries_ok es \<longleftrightarrow> list_all good_entry (items es) \<and> unat (total_size es) = sizes (items es) \<and>
     length (items es) \<le> capacity es \<and> capacity es \<le> 100000"

lemma grow_capacity_bounds:
  "grow_capacity env cap = Inr n \<Longrightarrow> cap < n \<and> n \<le> 100000"
  by (auto simp: grow_capacity_def Let_def INDEX_MAX_FILES_def split: if_splits)

lemma low_bits: "(m AND 511) AND - 512 = (0 :: u32)"
  by (simp add: and.assoc)

text \<open>A regular file that was taken in.\<close>

definition taken_in :: "index_env \<Rightarrow> bytes \<times> reg_file \<Rightarrow> bool" where
  "taken_in env = (\<lambda>(path, f). good_entry (entry_for env (path, f)) \<and> 0 \<le> st_size f \<and>
     length (file_data f) = unat (of_int (st_size f) :: u64))"

lemma append_entry_ok:
  assumes "append_entry env es path f = (ALRIOS_PACKAGE_INDEX_OK, es')"
  shows "items es' = items es @ [entry_for (crypto env) (path, f)] \<and> taken_in (crypto env) (path, f) \<and>
    unat (total_size es') = unat (total_size es) + unat (of_int (st_size f) :: u64) \<and>
    (length (items es) \<le> capacity es \<and> capacity es \<le> 100000 \<longrightarrow>
      length (items es') \<le> capacity es' \<and> capacity es' \<le> 100000)"
proof -
  let ?room = "if length (items es) = capacity es then grow_capacity env (capacity es) else Inr (capacity es)"
  let ?read = "sha256_fd (crypto env) (opened_file (read_script env path) f) (of_int (st_size f))"
  have err: "e \<noteq> ALRIOS_PACKAGE_INDEX_OK" if "?room = Inl e \<or> ?read = Inl e" for e
    using that sha256_fd_errors by (auto simp: grow_capacity_def Let_def split: if_splits)
  have g1: "\<not> st_size f < 0" "\<not> alrios_package_index_path_is_mutable (Some path)"
      "\<not> - 1 - total_size es < (of_int (st_size f) :: u64)"
    using assms by (simp_all add: append_entry_def split: if_splits)
  obtain cap where g4: "?room = Inr cap"
    using assms err by (cases ?room) (simp_all add: append_entry_def split: if_splits)
  obtain digest where g5: "?read = Inr digest"
    using assms err g4 by (cases ?read) (simp_all add: append_entry_def Let_def split: if_splits)
  note g = g1 g4 g5
  have es': "es' = es\<lparr>capacity := cap, items := items es @ [\<lparr>entry_path = path, entry_size = of_int (st_size f),
      entry_mode = st_mode f AND 0x1ff, entry_sha256 = digest\<rparr>], total_size := total_size es + of_int (st_size f)\<rparr>"
    using assms g4 g5 by (simp add: append_entry_def Let_def split: if_splits)
  note d = sha256_fd_sound [OF g(5)]
  have v: "valid_path path" using g(2) by (auto simp: alrios_package_index_path_is_mutable_def split: if_splits)
  have "unat (total_size es + of_int (st_size f)) = unat (total_size es) + unat (of_int (st_size f) :: u64)"
    using g(3) unfolding u64_add_guard by (simp add: unat_word_ariths)
  moreover have "length (items es) \<le> capacity es \<and> capacity es \<le> 100000 \<longrightarrow>
      length (items es) + 1 \<le> cap \<and> cap \<le> 100000"
    using g(4) grow_capacity_bounds [of env "capacity es" cap] by (auto split: if_splits)
  ultimately show ?thesis
    using g(1,2) d v low_bits [of "st_mode f"]
    by (simp add: es' entry_for_def taken_in_def good_entry_def) (metis)
qed

section \<open>The files of a tree\<close>

definition join :: "bytes \<Rightarrow> bytes \<Rightarrow> bytes" where
  "join prefix name = (if prefix = [] then name else prefix @ [0x2f] @ name)"

text \<open>The regular files below a directory with their relative paths, in the order of the walk.\<close>

fun tree_files :: "bytes \<Rightarrow> (bytes \<times> fs_node) list \<Rightarrow> (bytes \<times> reg_file) list" where
  "tree_files prefix [] = []"
| "tree_files prefix ((name, node) # rest) =
     (if name \<in> set skipped_names then []
      else case node of
        Regular f \<Rightarrow> [(join prefix name, f)]
      | Directory d \<Rightarrow> tree_files (join prefix name) d
      | _ \<Rightarrow> []) @ tree_files prefix rest"

text \<open>Trees of directories and regular files only, with names that can be components.\<close>

definition name_ok :: "bytes \<Rightarrow> bool" where
  "name_ok name \<longleftrightarrow> good_segment name \<and> 0x2f \<notin> set name \<and> 0x5c \<notin> set name"

fun clean_tree :: "(bytes \<times> fs_node) list \<Rightarrow> bool" where
  "clean_tree [] \<longleftrightarrow> True"
| "clean_tree ((name, node) # rest) \<longleftrightarrow>
     (name \<in> set skipped_names \<or> name_ok name \<and>
      (case node of Regular _ \<Rightarrow> True | Directory d \<Rightarrow> clean_tree d | _ \<Rightarrow> False)) \<and> clean_tree rest"

lemma join_relative_path_Inr:
  "join_relative_path env prefix name = Inr path \<Longrightarrow> path = join prefix name \<and> name_ok name"
  by (auto simp: join_relative_path_def join_def name_ok_def good_segment_def Let_def
      split: if_splits option.splits)

lemma join_relative_path_errors: "join_relative_path env prefix name \<noteq> Inl ALRIOS_PACKAGE_INDEX_OK"
  by (auto simp: join_relative_path_def Let_def split: if_splits option.splits)

section \<open>The walk\<close>

text \<open>The entries have grown by the given files.\<close>

definition grown :: "index_env \<Rightarrow> build_entries \<Rightarrow> (bytes \<times> reg_file) list \<Rightarrow> build_entries \<Rightarrow> bool" where
  "grown env es fs es' \<longleftrightarrow>
     items es' = items es @ map (entry_for env) fs \<and> list_all (taken_in env) fs \<and>
     unat (total_size es') = unat (total_size es) + sizes (map (entry_for env) fs) \<and>
     (length (items es) \<le> capacity es \<and> capacity es \<le> 100000 \<longrightarrow>
       length (items es') \<le> capacity es' \<and> capacity es' \<le> 100000)"

lemma grown_Nil: "grown env es [] es"
  by (simp add: grown_def)

lemma grown_trans: "grown env es fs es' \<Longrightarrow> grown env es' gs es'' \<Longrightarrow> grown env es (fs @ gs) es''"
  by (auto simp: grown_def)

lemma append_entry_grown:
  "append_entry env es path f = (ALRIOS_PACKAGE_INDEX_OK, es') \<Longrightarrow> grown (crypto env) es [(path, f)] es'"
  using append_entry_ok [of env es path f es'] by (auto simp: grown_def entry_for_def)

lemma open_status_error [simp]: "open_status e \<noteq> ALRIOS_PACKAGE_INDEX_OK"
  by (simp add: open_status_def)

text \<open>One step of the loop: what the item contributes, then the rest.\<close>

lemma collect_items_step:
  assumes run: "collect_items env prefix left ((name, node) # rest) es = (ALRIOS_PACKAGE_INDEX_OK, es')"
    and new: "name \<notin> set skipped_names" and unswapped: "\<forall>p. swapped env p = None"
  shows "name_ok name \<and> (\<exists>es1 l. collect_items env prefix l rest es1 = (ALRIOS_PACKAGE_INDEX_OK, es') \<and>
    (case node of
       Regular f \<Rightarrow> grown (crypto env) es [(join prefix name, f)] es1
     | Directory d \<Rightarrow> \<exists>k. collect_items env (join prefix name) k d es = (ALRIOS_PACKAGE_INDEX_OK, es1)
     | _ \<Rightarrow> False))"
proof -
  obtain rel where j: "join_relative_path env prefix name = Inr rel"
    using run new join_relative_path_errors [of env prefix name]
    by (cases "join_relative_path env prefix name") (auto split: if_splits)
  note rel = join_relative_path_Inr [OF j]
  show ?thesis
  proof (cases node)
    case (Regular f)
    obtain st es1 where c: "collect_file env rel f es = (st, es1)" by fastforce
    then have "st = ALRIOS_PACKAGE_INDEX_OK" "\<exists>l. collect_items env prefix l rest es1 = (ALRIOS_PACKAGE_INDEX_OK, es')"
      using run new j Regular by (auto simp: Let_def split: if_splits)
    moreover have "grown (crypto env) es [(rel, f)] es1" if "st = ALRIOS_PACKAGE_INDEX_OK"
      using c that unswapped append_entry_grown by (auto simp: collect_file_def openat_file_def split: if_splits)
    ultimately show ?thesis using rel Regular by auto
  next
    case (Directory d)
    then show ?thesis
      using run new j rel by (auto simp: Let_def split: if_splits option.splits prod.splits)
  qed (use run new j in \<open>auto simp: Let_def split: if_splits\<close>)
qed

lemma collect_items_ok:
  assumes unswapped: "\<forall>p. swapped env p = None"
  shows "collect_items env prefix left d es = (ALRIOS_PACKAGE_INDEX_OK, es') \<Longrightarrow>
    grown (crypto env) es (tree_files prefix d) es' \<and> clean_tree d"
proof (induction prefix d arbitrary: left es es' rule: tree_files.induct)
  case (1 prefix)
  then show ?case by (auto simp: grown_Nil split: if_splits)
next
  case (2 prefix name node rest)
  show ?case
  proof (cases "name \<in> set skipped_names")
    case True
    then show ?thesis using "2.prems" "2.IH"(2) by (auto simp: Let_def split: if_splits)
  next
    case False
    from collect_items_step [OF "2.prems" False unswapped] obtain es1 l where
      s: "name_ok name" "collect_items env prefix l rest es1 = (ALRIOS_PACKAGE_INDEX_OK, es')"
      "case node of Regular f \<Rightarrow> grown (crypto env) es [(join prefix name, f)] es1
        | Directory d \<Rightarrow> \<exists>k. collect_items env (join prefix name) k d es = (ALRIOS_PACKAGE_INDEX_OK, es1) | _ \<Rightarrow> False"
      by blast
    note rest = "2.IH"(2) [OF s(2)]
    show ?thesis
    proof (cases node)
      case (Directory d)
      then have "grown (crypto env) es (tree_files (join prefix name) d) es1 \<and> clean_tree d"
        using "2.IH"(1) [OF False Directory] s(3) by auto
      then show ?thesis using rest s(1) False Directory grown_trans by auto
    qed (use rest s False grown_trans in fastforce)+
  qed
qed

section \<open>Paths and components\<close>

text \<open>No directory lists a name twice.\<close>

fun distinct_tree :: "(bytes \<times> fs_node) list \<Rightarrow> bool" where
  "distinct_tree [] \<longleftrightarrow> True"
| "distinct_tree ((name, node) # rest) \<longleftrightarrow>
     name \<notin> fst ` set rest \<and> (case node of Directory d \<Rightarrow> distinct_tree d | _ \<Rightarrow> True) \<and> distinct_tree rest"

definition listed_names :: "bytes list \<Rightarrow> bool" where
  "listed_names ss \<longleftrightarrow> list_all (\<lambda>s. s \<notin> set skipped_names) ss"

lemma resolve_Cons_other: "ss \<noteq> [] \<Longrightarrow> hd ss \<noteq> name \<Longrightarrow> resolve ((name, node) # rest) ss = resolve rest ss"
  by (cases "(rest, ss)" rule: resolve.cases) auto

lemma resolve_first:
  assumes "resolve d ss = Some f"
  obtains s ss' node where "ss = s # ss'" "(s, node) \<in> set d"
    "ss' = [] \<and> node = Regular f \<or> (\<exists>d'. node = Directory d' \<and> resolve d' ss' = Some f \<and> ss' \<noteq> [])"
  using assms
  by (cases "(d, ss)" rule: resolve.cases) (auto split: option.splits fs_node.splits dest!: map_of_SomeD)

lemma resolve_first_in: "resolve d ss = Some f \<Longrightarrow> ss \<noteq> [] \<and> hd ss \<in> fst ` set d"
  by (erule resolve_first) force

lemma tree_files_resolved:
  "distinct_tree d \<Longrightarrow> (p, f) \<in> set (tree_files prefix d) \<Longrightarrow>
    \<exists>ss. p = foldl join prefix ss \<and> resolve d ss = Some f \<and> listed_names ss"
proof (induction prefix d rule: tree_files.induct)
  case (2 prefix name node rest)
  show ?case
  proof (cases "(p, f) \<in> set (tree_files prefix rest)")
    case True
    then obtain ss where ss: "p = foldl join prefix ss" "resolve rest ss = Some f" "listed_names ss"
      using "2.IH"(2) "2.prems"(1) by auto
    moreover have "ss \<noteq> []" "hd ss \<noteq> name" using resolve_first_in [OF ss(2)] "2.prems"(1) by auto
    ultimately show ?thesis using resolve_Cons_other by metis
  next
    case False
    then have new: "name \<notin> set skipped_names" using "2.prems"(2) by (auto split: if_splits)
    show ?thesis
    proof (cases node)
      case (Directory d)
      then obtain ss where ss: "p = foldl join (join prefix name) ss" "resolve d ss = Some f" "listed_names ss"
        using "2.IH"(1) [OF new Directory] "2.prems" False new by auto
      then have "resolve ((name, node) # rest) (name # ss) = Some f"
        using Directory by (cases ss) auto
      then show ?thesis using ss new by (intro exI [of _ "name # ss"]) (auto simp: listed_names_def)
    next
      case (Regular g)
      then show ?thesis using "2.prems" False new
        by (intro exI [of _ "[name]"]) (auto simp: listed_names_def)
    qed (use "2.prems" False new in auto)
  qed
qed simp

lemma tree_files_member:
  "(name, node) \<in> set d \<Longrightarrow> name \<notin> set skipped_names \<Longrightarrow>
    (node = Regular f \<longrightarrow> (join prefix name, f) \<in> set (tree_files prefix d)) \<and>
    (\<forall>d' x. node = Directory d' \<longrightarrow> x \<in> set (tree_files (join prefix name) d') \<longrightarrow> x \<in> set (tree_files prefix d))"
  by (induction d) auto

lemma resolved_tree_files:
  "resolve d ss = Some f \<Longrightarrow> listed_names ss \<Longrightarrow> (foldl join prefix ss, f) \<in> set (tree_files prefix d)"
proof (induction ss arbitrary: d prefix)
  case (Cons s ss)
  from Cons.prems(1) show ?case
  proof (cases rule: resolve_first)
    case (1 s' ss' node)
    have new: "s \<notin> set skipped_names" using Cons.prems(2) by (simp add: listed_names_def)
    have "(s, node) \<in> set d" using 1 by simp
    note m = tree_files_member [OF this new, of f prefix]
    from 1(3) show ?thesis
    proof
      assume "ss' = [] \<and> node = Regular f"
      then show ?thesis using m 1(1) by simp
    next
      assume "\<exists>d'. node = Directory d' \<and> resolve d' ss' = Some f \<and> ss' \<noteq> []"
      then obtain d' where d': "node = Directory d'" "resolve d' ss = Some f" using 1(1) by auto
      then have "(foldl join (join prefix s) ss, f) \<in> set (tree_files (join prefix s) d')"
        using Cons by (simp add: listed_names_def)
      then show ?thesis using m d'(1) by simp
    qed
  qed
qed simp

lemma clean_member:
  "clean_tree d \<Longrightarrow> (name, node) \<in> set d \<Longrightarrow> name \<notin> set skipped_names \<Longrightarrow>
    name_ok name \<and> (\<forall>d'. node = Directory d' \<longrightarrow> clean_tree d')"
  by (induction d rule: clean_tree.induct) auto

lemma clean_resolve: "clean_tree d \<Longrightarrow> resolve d ss = Some f \<Longrightarrow> listed_names ss \<Longrightarrow> list_all name_ok ss"
proof (induction ss arbitrary: d)
  case (Cons s ss)
  from Cons.prems(2) show ?case
  proof (cases rule: resolve_first)
    case (1 s' ss' node)
    then have "name_ok s \<and> (\<forall>d'. node = Directory d' \<longrightarrow> clean_tree d')"
      using clean_member [OF Cons.prems(1)] Cons.prems(3) by (auto simp: listed_names_def)
    then show ?thesis using 1 Cons by (auto simp: listed_names_def)
  qed
qed simp

text \<open>A path is its components joined.\<close>

lemma foldl_join: "q \<noteq> [] \<Longrightarrow> foldl join q ss = q @ concat (map ((#) 0x2f) ss)"
  by (induction ss arbitrary: q) (simp_all add: join_def)

lemma segments_join: "segments p = s # ss \<Longrightarrow> p = s @ concat (map ((#) 0x2f) ss)"
proof (induction p arbitrary: s ss)
  case (Cons c cs)
  obtain t ts where "segments cs = t # ts" using segments_ne by (metis list.exhaust)
  moreover note Cons.IH [OF calculation]
  ultimately show ?case using Cons.prems by (simp split: if_splits)
    (metis append_Nil concat.simps(2) list.simps(9) append_Cons)+
qed simp

lemma segments_concat:
  "0x2f \<notin> set s \<Longrightarrow> list_all (\<lambda>t. 0x2f \<notin> set t) ss \<Longrightarrow> segments (s @ concat (map ((#) 0x2f) ss)) = s # ss"
proof (induction ss arbitrary: s)
  case Nil
  then show ?case by (induction s) auto
next
  case (Cons t ts)
  have "segments (t @ concat (map ((#) 0x2f) ts)) = t # ts" using Cons by simp
  then show ?case using Cons.prems(1) by (induction s) auto
qed

lemma path_components:
  "list_all name_ok ss \<Longrightarrow> ss \<noteq> [] \<Longrightarrow> segments (foldl join [] ss) = ss"
  "list_all (\<lambda>s. s \<noteq> []) (segments p) \<Longrightarrow> foldl join [] (segments p) = p"
proof -
  assume ok: "list_all name_ok ss" "ss \<noteq> []"
  then obtain s ts where ss: "ss = s # ts" "s \<noteq> []" by (cases ss) (auto simp: name_ok_def good_segment_def)
  have "list_all (\<lambda>t. 0x2f \<notin> set t) ss" using ok(1) by (auto simp: list_all_iff name_ok_def)
  then show "segments (foldl join [] ss) = ss"
    using segments_concat [of s ts] ss by (simp add: join_def [of "[]"] foldl_join)
next
  assume ne: "list_all (\<lambda>s. s \<noteq> []) (segments p)"
  obtain s ss where s: "segments p = s # ss" using segments_ne by (metis list.exhaust)
  then show "foldl join [] (segments p) = p"
    using ne segments_join [OF s] by (simp add: join_def [of "[]"] foldl_join)
qed

lemma tree_files_iff:
  assumes clean: "clean_tree d" and dist: "distinct_tree d"
  shows "(p, f) \<in> set (tree_files [] d) \<longleftrightarrow> resolve d (segments p) = Some f \<and> listed_names (segments p)"
proof
  assume "(p, f) \<in> set (tree_files [] d)"
  then obtain ss where ss: "p = foldl join [] ss" "resolve d ss = Some f" "listed_names ss"
    using tree_files_resolved [OF dist] by blast
  then show "resolve d (segments p) = Some f \<and> listed_names (segments p)"
    using path_components(1) clean_resolve [OF clean ss(2,3)] resolve_first_in [OF ss(2)] by simp
next
  assume r: "resolve d (segments p) = Some f \<and> listed_names (segments p)"
  then have "list_all name_ok (segments p)" using clean_resolve [OF clean] by blast
  then have "list_all (\<lambda>s. s \<noteq> []) (segments p)" by (auto simp: list_all_iff name_ok_def good_segment_def)
  then show "(p, f) \<in> set (tree_files [] d)" using resolved_tree_files [of d "segments p" f "[]"] r path_components(2) by simp
qed

section \<open>The wire\<close>

lemma length_entry_bytes: "good_entry e \<Longrightarrow> length (entry_bytes e) = 52 + length (entry_path e)"
  by (simp add: entry_bytes_def good_entry_def)

lemma entry_stream_simps [simp]:
  "entry_stream [] = []" "entry_stream (e # es) = entry_bytes e @ entry_stream es"
  by (simp_all add: entry_stream_def)

lemma good_entryD: "good_entry e \<Longrightarrow> 0 \<notin> set (entry_path e) \<and> length (entry_path e) < 1024 \<and> length (entry_sha256 e) = 32"
  by (simp add: good_entry_def valid_path_length)

lemma stream_size_iff:
  "list_all good_entry es \<Longrightarrow> n \<le> SIZE_MAX \<Longrightarrow> stream_size prev es n = Inr m \<longleftrightarrow>
    m = n + length (entry_stream es) \<and> m \<le> SIZE_MAX \<and> sorted_wrt (<) (map entry_path es) \<and>
    (\<forall>p. prev = Some p \<longrightarrow> (\<forall>e \<in> set es. p < entry_path e))"
proof (induction es arbitrary: prev n)
  case (Cons e es)
  let ?len = "52 + length (entry_path e)"
  have g: "0 \<notin> set (entry_path e)" "length (entry_path e) < 1024" "length (entry_bytes e) = ?len"
    using Cons.prems(1) good_entryD [of e] length_entry_bytes [of e] by simp_all
  have add: "checked_add_size INDEX_ENTRY_PREFIX_SIZE (length (entry_path e)) = Some ?len"
    using g(2) by (simp add: checked_add_size_def INDEX_ENTRY_PREFIX_SIZE_def limits)
  have order: "\<not> 0 \<le> strcmp p (entry_path e) \<longleftrightarrow> p < entry_path e" for p
    using strcmp_negative [OF g(1), of p] by linarith
  show ?case
  proof (cases "n + ?len \<le> SIZE_MAX")
    case True
    then have "checked_add_size n ?len = Some (n + ?len)" by (simp add: checked_add_size_def)
    then have "stream_size prev (e # es) n = Inr m \<longleftrightarrow> (\<forall>p. prev = Some p \<longrightarrow> p < entry_path e) \<and>
        stream_size (Some (entry_path e)) es (n + ?len) = Inr m"
      using add order by (cases prev) (auto simp del: length_append)
    then show ?thesis using Cons.IH [of "n + ?len" "Some (entry_path e)"] Cons.prems True g(3)
      by (auto intro: less_trans)
  next
    case False
    then have "checked_add_size n ?len = None" using Cons.prems(2) by (simp add: checked_add_size_def)
    then show ?thesis using add False g(3) by simp
  qed
qed auto

lemma memwrite_offset:
  "length front = off \<Longrightarrow> memwrite (front @ rest) (off + k) src = front @ memwrite rest k src"
  by (auto simp: memwrite_def)

lemma entry_image:
  assumes e: "good_entry e" and len: "52 + length (entry_path e) \<le> length out"
  shows "memwrite (memwrite (memwrite (memwrite (memwrite (memwrite (memwrite out 0 (zeros 52))
      0 (store_u16_be (of_nat (length (entry_path e))))) 4 (store_u32_be (entry_mode e)))
      8 (store_u64_be (entry_size e))) 16 (entry_sha256 e)) 48 (store_u32_be 0)) 52 (entry_path e) =
    entry_bytes e @ drop (52 + length (entry_path e)) out"
proof -
  have z: "zeros 52 = zeros 2 @ zeros 2 @ zeros 4 @ zeros 8 @ zeros 32 @ zeros 4"
    by (simp add: zeros_def flip: replicate_add)
  have z2: "store_u16_be 0 = zeros 2" by (simp add: store_u16_be_def zeros_def eval_nat_numeral)
  have "memwrite out 0 (zeros 52) = zeros 52 @ drop 52 out" by (simp add: memwrite_front)
  then show ?thesis
    using good_entryD [OF e] by (simp add: z z2 entry_bytes_def memwrite_def add.commute)
qed

lemma entry_image_at:
  assumes "good_entry e" "52 + length (entry_path e) \<le> length rest" "length front = off"
  shows "memwrite (memwrite (memwrite (memwrite (memwrite (memwrite (memwrite (front @ rest) off (zeros 52))
      off (store_u16_be (of_nat (length (entry_path e))))) (off + 4) (store_u32_be (entry_mode e)))
      (off + 8) (store_u64_be (entry_size e))) (off + 16) (entry_sha256 e)) (off + 48) (store_u32_be 0))
      (off + 52) (entry_path e) = front @ entry_bytes e @ drop (52 + length (entry_path e)) rest"
proof -
  have "memwrite (front @ r) off src = front @ memwrite r 0 src" for r src
    using memwrite_offset [OF assms(3), of r 0 src] by simp
  then show ?thesis
    using entry_image [OF assms(1,2)] by (simp add: memwrite_offset [OF assms(3)])
qed

lemma encode_entries_eq:
  "list_all good_entry es \<Longrightarrow> off + length (entry_stream es) \<le> output_size \<Longrightarrow> length out = output_size \<Longrightarrow>
    encode_entries es off output_size out =
      (if off + length (entry_stream es) = output_size then ALRIOS_PACKAGE_INDEX_OK else ALRIOS_PACKAGE_INDEX_ERR_FORMAT,
       take off out @ entry_stream es @ drop (off + length (entry_stream es)) out)"
proof (induction es arbitrary: off out)
  case (Cons e es)
  let ?len = "52 + length (entry_path e)"
  have g: "good_entry e" "length (entry_path e) < 1024" "length (entry_sha256 e) = 32" "length (entry_bytes e) = ?len"
    using Cons.prems(1) good_entryD [of e] length_entry_bytes [of e] by simp_all
  have add: "checked_add_size INDEX_ENTRY_PREFIX_SIZE (length (entry_path e)) = Some ?len"
    using g(2) by (simp add: checked_add_size_def INDEX_ENTRY_PREFIX_SIZE_def limits)
  define front rest where "front = take off out" and "rest = drop off out"
  have out: "out = front @ rest" "length front = off" "?len \<le> length rest"
    using Cons.prems g(4) by (simp_all add: front_def rest_def)
  have fits: "\<not> output_size - off < ?len" using Cons.prems(2) g(4) by simp
  define out' where "out' = front @ entry_bytes e @ drop ?len rest"
  have "encode_entries (e # es) off output_size out = encode_entries es (off + ?len) output_size out'"
    using add g(2,3) fits entry_image_at [OF g(1) out(3,2)]
    by (simp add: Let_def INDEX_ENTRY_PREFIX_SIZE_def write_u64_be_eq out'_def out(1))
  moreover have "length out' = output_size" using out Cons.prems(3) g(4) by (simp add: out'_def)
  moreover have "take (off + ?len) out' = front @ entry_bytes e" using out(2) g(4) by (simp add: out'_def)
  moreover have "drop (off + (?len + k)) out' = drop (off + (?len + k)) out" for k
    using out(1,2) g(4) by (simp add: out'_def add.commute)
  ultimately show ?case
    using Cons.IH [of "off + ?len" out'] Cons.prems g(4) by (simp add: front_def add.assoc)
qed (simp add: take_all_iff)

text \<open>The index that a list of entries amounts to.\<close>

definition index_of :: "build_entries \<Rightarrow> package_index" where
  "index_of es = \<lparr>file_count = of_nat (length (items es)), total_uncompressed_size = total_size es,
     index_entries = items es\<rparr>"

lemma header_image:
  assumes "length d = 32"
  shows "memwrite (take 144 (memwrite (memwrite (memwrite (memwrite (memwrite (memwrite (zeros (144 + n))
      0 INDEX_MAGIC) 16 (store_u16_be 1)) 18 (store_u16_be 144)) 20 (store_u32_be 1))
      24 (store_u32_be (of_nat (length (items es))))) 32 (store_u64_be (total_size es))) @ stream) 40 d =
    signed_header (index_of es) d @ zeros 64 @ stream"
proof -
  have z: "zeros (144 + n) = zeros 16 @ zeros 2 @ zeros 2 @ zeros 4 @ zeros 4 @ zeros 4 @ zeros 8 @ zeros 32 @
      zeros 8 @ zeros 64 @ zeros n"
    by (simp add: zeros_def flip: replicate_add)
  show ?thesis using assms unfolding z by (simp add: memwrite_def signed_header_def index_of_def)
qed

lemma build_wire_ok:
  assumes run: "build_wire env key es n = (ALRIOS_PACKAGE_INDEX_OK, wire)"
    and good: "list_all good_entry (items es)" and n: "n = length (entry_stream (items es))" "144 + n \<le> 67108864"
  shows "length (sha256 (crypto env) (entry_stream (items es))) = 32 \<and>
    (let sig = ed25519_sign env key (signed_text (crypto env) (index_of es))
     in length sig = 64 \<and> wire = canonical_wire (crypto env) (index_of es) sig)"
proof -
  let ?stream = "entry_stream (items es)"
  define base where "base = memwrite (memwrite (memwrite (memwrite (memwrite (memwrite (zeros (144 + n))
      0 INDEX_MAGIC) 16 (store_u16_be 1)) 18 (store_u16_be 144)) 20 (store_u32_be 1))
      24 (store_u32_be (of_nat (length (items es))))) 32 (store_u64_be (total_size es))"
  have len: "length base = 144 + n" by (simp add: base_def)
  have enc: "encode_entries (items es) 0 n (drop 144 base) = (ALRIOS_PACKAGE_INDEX_OK, ?stream)"
    using encode_entries_eq [OF good, of 0 n "drop 144 base"] n(1) len by simp
  obtain d where d: "sha256_memory (crypto env) ?stream = Inr d"
      "sign_wire env (memwrite (take 144 base @ ?stream) 40 d) key = (ALRIOS_PACKAGE_INDEX_OK, wire)"
    using run enc sha256_memory_iff
    by (auto simp: build_wire_def Let_def INDEX_HEADER_SIZE_def write_u64_be_eq sha256_memory_def
        simp flip: base_def split: sum.splits if_splits)
  have dl: "length d = 32" "d = sha256 (crypto env) ?stream" using d(1) by (auto simp: sha256_memory_iff)
  let ?hdr = "signed_header (index_of es) d"
  have hdr: "length ?hdr = 80" using dl by (simp add: signed_header_def)
  have unsigned: "memwrite (take 144 base @ ?stream) 40 d = ?hdr @ zeros 64 @ ?stream"
    using header_image [OF dl(1), of n es ?stream] by (simp add: base_def)
  have sgn: "signed_text (crypto env) (index_of es) = ?hdr @ ?stream"
    by (simp add: signed_text_def Let_def dl(2)) (simp add: index_of_def)
  have wire: "canonical_wire (crypto env) (index_of es) sig = ?hdr @ sig @ ?stream" for sig
    by (simp add: canonical_wire_def Let_def dl(2)) (simp add: index_of_def)
  have "memwrite (?hdr @ zeros 64 @ ?stream) 80 sig = ?hdr @ sig @ ?stream" if "length sig = 64" for sig
    using that hdr by (simp add: memwrite_def)
  then show ?thesis
    using d(2) dl hdr n(2) n(1) [symmetric] unfolding unsigned sgn wire
    by (auto simp: sign_wire_def checked_add_size_def limits Let_def INDEX_SIGNED_HEADER_SIZE_def
        INDEX_HEADER_SIZE_def split: if_splits)
qed

section \<open>Sorting\<close>

lemma sizes_qsort: "sizes (qsort cmp xs) = sizes xs"
  by (simp flip: sum_mset_sum_list)

lemma compare_entries_negative:
  "0 \<notin> set (entry_path y) \<Longrightarrow> compare_entries x y < 0 \<longleftrightarrow> entry_path x < entry_path y"
  by (simp add: compare_entries_def strcmp_negative)

lemma strcmp_flip: "strcmp b a = - strcmp a b"
  by (induction a b rule: strcmp.induct) auto

interpretation entry_order: c_comparison "\<lambda>e. 0 \<notin> set (entry_path e)" compare_entries
proof unfold_locales
  show "compare_entries x y < 0 \<longleftrightarrow> 0 < compare_entries y x" for x y
    using strcmp_flip [of "entry_path x" "entry_path y"] by (simp add: compare_entries_def)
  show "compare_entries x z < 0"
    if "0 \<notin> set (entry_path y)" "0 \<notin> set (entry_path z)" "compare_entries x y < 0" "compare_entries y z < 0" for x y z
    using that by (auto simp: compare_entries_negative)
qed

lemma sorted_qsort:
  assumes "list_all (\<lambda>e. 0 \<notin> set (entry_path e)) xs" "distinct (map entry_path xs)"
  shows "sorted_wrt (<) (map entry_path (qsort compare_entries xs))"
proof -
  have ok: "\<forall>e \<in> set xs. 0 \<notin> set (entry_path e)" using assms(1) by (simp add: list_all_iff)
  have "sorted_wrt (\<lambda>x y. entry_path x \<noteq> entry_path y) xs"
    using assms(2) by (simp add: distinct_map distinct_conv_nth sorted_wrt_iff_nth_less)
  then have "sorted_wrt (\<lambda>x y. compare_entries y x \<noteq> 0) xs"
    by (rule sorted_wrt_mono_rel [rotated]) (use ok in \<open>auto simp: compare_entries_def strcmp_zero\<close>)
  from entry_order.qsort_ascending [OF ok this] show ?thesis
    unfolding sorted_wrt_map
    by (rule sorted_wrt_mono_rel [rotated]) (use ok in \<open>auto simp: compare_entries_negative\<close>)
qed

section \<open>The index of a directory\<close>

lemma build_directory_stages:
  "alrios_package_index_build_directory env dlink (Some name) fs (Some key) = (ALRIOS_PACKAGE_INDEX_OK, Some wire) \<longleftrightarrow>
    name \<noteq> [] \<and> (\<exists>root es n. fs name = Some (Directory root) \<and>
      collect_directory env root [] no_entries = (ALRIOS_PACKAGE_INDEX_OK, es) \<and>
      stream_size None (qsort compare_entries (items es)) 0 = Inr n \<and> 144 + n \<le> 67108864 \<and>
      length (items es) \<le> 4294967295 \<and> calloc_wire env \<and>
      build_wire env key (es\<lparr>items := qsort compare_entries (items es)\<rparr>) n = (ALRIOS_PACKAGE_INDEX_OK, wire))"
  (is "?run \<longleftrightarrow> _")
proof (cases "name \<noteq> [] \<and> (\<exists>root. fs name = Some (Directory root))")
  case True
  then obtain root where root: "fs name = Some (Directory root)" "name \<noteq> []" by blast
  obtain st es where c: "collect_directory env root [] no_entries = (st, es)" by fastforce
  show ?thesis
    using root c
    by (auto simp: alrios_package_index_build_directory_def openat_directory_def Let_def INDEX_HEADER_SIZE_def
        INDEX_MAX_WIRE_SIZE_def checked_add_size_def limits split: sum.splits if_splits prod.splits)
next
  case False
  then show ?thesis
    by (auto simp: alrios_package_index_build_directory_def openat_directory_def
        split: option.splits fs_node.splits)
qed

text \<open>What a successful run of the writer has found and written.\<close>

lemma built_index:
  assumes run: "alrios_package_index_build_directory env dlink (Some name) fs (Some key) = (ALRIOS_PACKAGE_INDEX_OK, Some wire)"
    and root: "fs name = Some (Directory root)" and still: "\<forall>p. swapped env p = None"
  obtains index where "well_formed_index index" "clean_tree root" "list_all (taken_in (crypto env)) (tree_files [] root)"
    "set (index_entries index) = entry_for (crypto env) ` set (tree_files [] root)"
    "wire = canonical_wire (crypto env) index (ed25519_sign env key (signed_text (crypto env) index))"
    "length (ed25519_sign env key (signed_text (crypto env) index)) = 64" "length wire \<le> 64 * 1024 * 1024"
proof -
  obtain es n where es: "collect_directory env root [] no_entries = (ALRIOS_PACKAGE_INDEX_OK, es)"
      "stream_size None (qsort compare_entries (items es)) 0 = Inr n" "144 + n \<le> 67108864"
      "build_wire env key (es\<lparr>items := qsort compare_entries (items es)\<rparr>) n = (ALRIOS_PACKAGE_INDEX_OK, wire)"
    using run root unfolding build_directory_stages by auto
  have g: "grown (crypto env) no_entries (tree_files [] root) es" "clean_tree root"
    using es(1) collect_items_ok [OF still] by (auto simp: collect_directory_def split: if_splits)
  let ?es = "es\<lparr>items := qsort compare_entries (items es)\<rparr>" and ?index = "index_of (es\<lparr>items := qsort compare_entries (items es)\<rparr>)"
  have items: "items es = map (entry_for (crypto env)) (tree_files [] root)"
      "list_all (taken_in (crypto env)) (tree_files [] root)" "length (items es) \<le> 100000"
      "unat (total_size es) = sizes (items es)"
    using g(1) by (auto simp: grown_def no_entries_def)
  have good: "list_all good_entry (items ?es)" using items(1,2) by (auto simp: list_all_iff taken_in_def)
  have n: "n = length (entry_stream (items ?es))" "sorted_wrt (<) (map entry_path (items ?es))"
    using stream_size_iff [OF good, of 0 None n] es(2) by auto
  have wf: "well_formed_index ?index"
    using good n(2) items(3,4)
    by (simp add: well_formed_index_def index_of_def sizes_qsort unsigned_of_nat take_bit_nat_eq_self)
  let ?sig = "ed25519_sign env key (signed_text (crypto env) ?index)"
  have w: "length ?sig = 64" "wire = canonical_wire (crypto env) ?index ?sig"
    using build_wire_ok [OF es(4) good n(1) es(3)] by (simp_all add: Let_def)
  have "length (sha256 (crypto env) (entry_stream (items ?es))) = 32"
    using build_wire_ok [OF es(4) good n(1) es(3)] by blast
  then have "length wire = 144 + n"
    using w(1) n(1) unfolding w(2) by (simp add: canonical_wire_def signed_header_def Let_def index_of_def)
  then show thesis using that [of ?index] wf g(2) items w es(3) by (simp add: index_of_def)
qed

text \<open>A reader whose allocations and OpenSSL calls succeed.\<close>

definition unfailing :: "index_env \<Rightarrow> bool" where
  "unfailing env \<longleftrightarrow> md_ctx_new env \<and> digest_init env \<and> digest_update env \<and> digest_final env \<and> verify_init env \<and>
     malloc_message env \<and> calloc_entries env \<and> (\<forall>i. malloc_path env i) \<and> (\<forall>d. length (sha256 env d) = 32)"

lemma taken_in_intact:
  assumes "(p, f) \<in> set (tree_files [] root)" "clean_tree root" "distinct_tree root" "taken_in env (p, f)"
    "sha256 penv = sha256 env"
  shows "entry_intact penv root (entry_for env (p, f))"
  using assms tree_files_iff [OF assms(2,3), of p f]
  by (auto simp: entry_intact_def entry_for_def taken_in_def)

lemma built_index_parses:
  assumes run: "alrios_package_index_build_directory env dlink (Some name) fs (Some key) = (ALRIOS_PACKAGE_INDEX_OK, Some wire)"
    and root: "fs name = Some (Directory root)" "distinct_tree root" and still: "\<forall>p. swapped env p = None"
    and keys: "\<forall>m. ed25519_verify penv public (ed25519_sign env key m) m"
    and penv: "unfailing penv" "sha256 penv = sha256 (crypto env)"
  obtains index where "well_formed_index index"
    "alrios_package_index_parse_and_verify penv (Some wire) (Some public) (Some old) = (ALRIOS_PACKAGE_INDEX_OK, Some index)"
    "entry_path ` set (index_entries index) = {p. \<exists>f. resolve root (segments p) = Some f \<and> listed_names (segments p)}"
    "list_all (entry_intact penv root) (index_entries index)"
proof -
  from built_index [OF run root(1) still] obtain index where
    i: "well_formed_index index" "clean_tree root" "list_all (taken_in (crypto env)) (tree_files [] root)"
      "set (index_entries index) = entry_for (crypto env) ` set (tree_files [] root)"
      "wire = canonical_wire (crypto env) index (ed25519_sign env key (signed_text (crypto env) index))"
      "length (ed25519_sign env key (signed_text (crypto env) index)) = 64" "length wire \<le> 64 * 1024 * 1024"
    by metis
  have same: "canonical_wire penv = canonical_wire (crypto env)" "signed_text penv = signed_text (crypto env)"
    by (auto simp: canonical_wire_def signed_text_def penv(2) fun_eq_iff)
  have "parse_resources penv (length (index_entries index)) (entry_stream (index_entries index))"
    using penv(1) by (simp add: parse_resources_def unfailing_def list_all_iff)
  then have parse: "alrios_package_index_parse_and_verify penv (Some wire) (Some public) (Some old) =
      (ALRIOS_PACKAGE_INDEX_OK, Some index)"
    using canonical_wire_parses [OF i(6), of penv index public old] i(1,5,7) keys by (simp add: same)
  have paths: "entry_path (entry_for (crypto env) (p, f)) = p" for p f by (simp add: entry_for_def)
  have "entry_path ` set (index_entries index) = {p. \<exists>f. (p, f) \<in> set (tree_files [] root)}"
    unfolding i(4) by (force simp: paths image_iff)
  moreover have "list_all (entry_intact penv root) (index_entries index)"
    using i(3) taken_in_intact [OF _ i(2) root(2) _ penv(2)] unfolding list_all_iff i(4) by fastforce
  ultimately show thesis using that [OF i(1) parse] tree_files_iff [OF i(2) root(2)] by simp
qed

text \<open>
  The index written for a directory is accepted by the reader and lists the directory
  exactly. When the writer succeeds on a tree that does not change meanwhile, the reader
  with the matching public key parses its output; the paths of the entries are exactly
  the paths of the regular files below the directory, apart from files and directories
  called \<open>.arapp.index\<close>; and each entry has the size, the permissions and the digest of
  its file.
\<close>

theorem written_index_lists_directory:
  assumes "alrios_package_index_build_directory env dlink (Some name) fs (Some key) = (ALRIOS_PACKAGE_INDEX_OK, Some wire)"
    and "fs name = Some (Directory root)" "distinct_tree root" and "\<forall>p. swapped env p = None"
    and "\<forall>m. ed25519_verify penv public (ed25519_sign env key m) m"
    and "unfailing penv" "sha256 penv = sha256 (crypto env)"
  shows "\<exists>index. alrios_package_index_parse_and_verify penv (Some wire) (Some public) (Some old) =
      (ALRIOS_PACKAGE_INDEX_OK, Some index) \<and>
    entry_path ` set (index_entries index) = {p. \<exists>f. resolve root (segments p) = Some f \<and> listed_names (segments p)} \<and>
    list_all (entry_intact penv root) (index_entries index)"
  by (rule built_index_parses [OF assms, of old]) blast


section \<open>When the writer succeeds\<close>

text \<open>A tree the writer can take in, and an environment in which nothing fails.\<close>

fun admissible :: "bytes \<Rightarrow> (bytes \<times> fs_node) list \<Rightarrow> bool" where
  "admissible prefix [] \<longleftrightarrow> True"
| "admissible prefix ((name, node) # rest) \<longleftrightarrow>
     (name \<in> set skipped_names \<or>
      name_ok name \<and> length (join prefix name) < 1024 \<and>
      (case node of
         Regular f \<Rightarrow> \<not> alrios_package_index_path_is_mutable (Some (join prefix name)) \<and>
           st_size f = int (length (file_data f))
       | Directory d \<Rightarrow> admissible (join prefix name) d
       | _ \<Rightarrow> False)) \<and> admissible prefix rest"

definition smooth :: "write_env \<Rightarrow> bool" where
  "smooth env \<longleftrightarrow> unfailing (crypto env) \<and> sign_key_new env \<and> sign_init env \<and> sign_message env \<and> calloc_wire env \<and>
     (\<forall>n. realloc_items env n \<and> malloc_entry env n) \<and>
     (\<forall>p. malloc_join env p \<and> dup_ok env p \<and> fdopendir_ok env p \<and> readdir_fails env p = None \<and> fstatat_ok env p \<and>
       fstat_ok env p \<and> dir_error env p = None \<and> swapped env p = None \<and> Failed \<notin> set (read_script env p)) \<and>
     (\<forall>key m. length (ed25519_sign env key m) = 64)"

abbreviation data_size :: "(bytes \<times> reg_file) list \<Rightarrow> nat" where
  "data_size fs \<equiv> sum_list (map (\<lambda>(p, f). length (file_data f)) fs)"

lemma grow_capacity_succeeds: "smooth env \<Longrightarrow> cap < 100000 \<Longrightarrow> \<exists>n. grow_capacity env cap = Inr n"
  by (auto simp: grow_capacity_def Let_def smooth_def INDEX_MAX_FILES_def)

lemma append_entry_succeeds:
  assumes env: "smooth env" and p: "\<not> alrios_package_index_path_is_mutable (Some path)" "length path < 1024"
    and f: "st_size f = int (length (file_data f))" "unat (total_size es) + length (file_data f) < 2 ^ 64"
    and room: "length (items es) < 100000" "length (items es) \<le> capacity es"
  shows "\<exists>es'. append_entry env es path f = (ALRIOS_PACKAGE_INDEX_OK, es')"
proof -
  have sz: "unat (of_int (st_size f) :: u64) = length (file_data f)"
    using f by (simp add: unsigned_of_nat take_bit_nat_eq_self)
  have v: "valid_path path" using p(1) by (auto simp: alrios_package_index_path_is_mutable_def split: if_splits)
  have "\<exists>cap. (if length (items es) = capacity es then grow_capacity env (capacity es) else Inr (capacity es)) = Inr cap"
    using grow_capacity_succeeds [OF env, of "capacity es"] room by auto
  then obtain cap where cap: "(if length (items es) = capacity es then grow_capacity env (capacity es) else Inr (capacity es)) = Inr cap"
    by blast
  have "sha256_fd (crypto env) (opened_file (read_script env path) f) (of_int (st_size f)) =
      Inr (sha256 (crypto env) (file_data f))"
    by (rule sha256_fd_complete) (use env sz in \<open>simp_all add: smooth_def unfailing_def\<close>)
  moreover have "\<not> - 1 - total_size es < (of_int (st_size f) :: u64)" unfolding u64_add_guard using f(2) sz by simp
  ultimately show ?thesis
    using p room f(1) cap env valid_path_length [OF v]
    by (simp add: append_entry_def Let_def INDEX_MAX_PATH_SIZE_def INDEX_MAX_FILES_def smooth_def)
qed

lemma join_relative_path_succeeds:
  assumes "smooth env" "name_ok name" "length (join prefix name) < 1024"
  shows "join_relative_path env prefix name = Inr (join prefix name)"
  using assms
  by (auto simp: join_relative_path_def join_def name_ok_def good_segment_def smooth_def checked_add_size_def limits
      INDEX_MAX_PATH_SIZE_def split: if_splits)

lemma collect_items_succeeds:
  assumes env: "smooth env"
  shows "admissible prefix d \<Longrightarrow> length (items es) \<le> capacity es \<Longrightarrow> capacity es \<le> 100000 \<Longrightarrow>
    length (items es) + length (tree_files prefix d) \<le> 100000 \<Longrightarrow>
    unat (total_size es) + data_size (tree_files prefix d) < 2 ^ 64 \<Longrightarrow>
    \<exists>es'. collect_items env prefix None d es = (ALRIOS_PACKAGE_INDEX_OK, es') \<and>
      length (items es') \<le> capacity es' \<and> capacity es' \<le> 100000 \<and>
      length (items es') = length (items es) + length (tree_files prefix d) \<and>
      unat (total_size es') = unat (total_size es) + data_size (tree_files prefix d)"
proof (induction prefix d arbitrary: es rule: tree_files.induct)
  case (2 prefix name node rest)
  show ?case
  proof (cases "name \<in> set skipped_names")
    case True
    then show ?thesis using "2.prems" "2.IH"(2) [of es] by simp
  next
    case new: False
    let ?rel = "join prefix name"
    have nm: "join_relative_path env prefix name = Inr ?rel"
      using join_relative_path_succeeds [OF env] "2.prems"(1) new by simp
    have go: "collect_items env prefix None ((name, node) # rest) es = collect_items env prefix None rest es1"
      if "node = Regular f \<and> append_entry env es ?rel f = (ALRIOS_PACKAGE_INDEX_OK, es1) \<or>
        node = Directory d \<and> collect_items env ?rel None d es = (ALRIOS_PACKAGE_INDEX_OK, es1)" for es1 f d
      using that env nm new by (auto simp: smooth_def collect_file_def openat_file_def)
    show ?thesis
    proof (cases node)
      case (Regular f)
      obtain es1 where a: "append_entry env es ?rel f = (ALRIOS_PACKAGE_INDEX_OK, es1)"
        using append_entry_succeeds [OF env, of ?rel f es] "2.prems" new Regular by auto
      note k = append_entry_ok [OF a]
      have sz: "unat (of_int (st_size f) :: u64) = length (file_data f)" using k by (simp add: taken_in_def)
      show ?thesis
        using "2.IH"(2) [of es1] "2.prems" new Regular k sz go [of f es1] a by (auto simp: add.assoc)
    next
      case (Directory d)
      obtain es1 where a: "collect_items env ?rel None d es = (ALRIOS_PACKAGE_INDEX_OK, es1)"
          "length (items es1) \<le> capacity es1" "capacity es1 \<le> 100000"
          "length (items es1) = length (items es) + length (tree_files ?rel d)"
          "unat (total_size es1) = unat (total_size es) + data_size (tree_files ?rel d)"
        using "2.IH"(1) [OF new Directory, of es] "2.prems" new Directory by auto
      show ?thesis
        using "2.IH"(2) [of es1] "2.prems" new Directory a go [of _ es1 d] by (auto simp: add.assoc)
    qed (use "2.prems" new in auto)
  qed
qed simp

lemma foldl_join_inject:
  assumes "foldl join prefix ss = foldl join prefix ts" "list_all name_ok ss" "list_all name_ok ts" "ss \<noteq> []" "ts \<noteq> []"
  shows "ss = ts"
proof (cases "prefix = []")
  case True
  then show ?thesis using assms path_components(1) by metis
next
  case False
  then have "concat (map ((#) 0x2f) ss) = concat (map ((#) 0x2f) ts)" using assms(1) by (simp add: foldl_join)
  moreover have "list_all (\<lambda>t. 0x2f \<notin> set t) ss" "list_all (\<lambda>t. 0x2f \<notin> set t) ts"
    using assms(2,3) by (auto simp: list_all_iff name_ok_def)
  ultimately show ?thesis using segments_concat [of "[]" ss] segments_concat [of "[]" ts] by simp
qed

lemma tree_files_distinct:
  "clean_tree d \<Longrightarrow> distinct_tree d \<Longrightarrow> distinct (map fst (tree_files prefix d))"
proof (induction prefix d rule: tree_files.induct)
  case (2 prefix name node rest)
  let ?here = "if name \<in> set skipped_names then [] else case node of Regular f \<Rightarrow> [(join prefix name, f)]
      | Directory d \<Rightarrow> tree_files (join prefix name) d | _ \<Rightarrow> []"
  have one: "tree_files prefix [(name, node)] = ?here" by simp
  have here: "distinct (map fst ?here)"
    using "2.IH"(1) "2.prems" by (auto split: fs_node.splits)
  have cl: "clean_tree [(name, node)]" "distinct_tree [(name, node)]" "clean_tree rest" "distinct_tree rest"
    using "2.prems" by simp_all
  have "fst x \<noteq> fst y" if x: "x \<in> set ?here" and y: "y \<in> set (tree_files prefix rest)" for x y
  proof
    assume eq: "fst x = fst y"
    obtain ss where ss: "fst x = foldl join prefix ss" "resolve [(name, node)] ss = Some (snd x)" "listed_names ss"
      using tree_files_resolved [OF cl(2), of "fst x" "snd x" prefix] x unfolding one by auto
    obtain ts where ts: "fst y = foldl join prefix ts" "resolve rest ts = Some (snd y)" "listed_names ts"
      using tree_files_resolved [OF cl(4), of "fst y" "snd y" prefix] y by auto
    have "ss \<noteq> []" "hd ss = name" "ts \<noteq> []" "hd ts \<in> fst ` set rest"
      using resolve_first_in [OF ss(2)] resolve_first_in [OF ts(2)] by auto
    moreover have "ss = ts"
      using foldl_join_inject [of prefix ss ts] eq ss ts calculation clean_resolve [OF cl(1) ss(2,3)]
        clean_resolve [OF cl(3) ts(2,3)] by simp
    ultimately show False using "2.prems"(2) by auto
  qed
  then have "set (map fst ?here) \<inter> set (map fst (tree_files prefix rest)) = {}" by auto
  then show ?case using here "2.IH"(2) [OF cl(3,4)] by (simp only: tree_files.simps map_append distinct_append)
qed simp

lemma admissible_clean: "admissible prefix d \<Longrightarrow> clean_tree d"
  by (induction prefix d rule: tree_files.induct) (auto split: fs_node.splits)

lemma sha256_memory_succeeds: "unfailing env \<Longrightarrow> sha256_memory env d = Inr (sha256 env d)"
  by (simp add: sha256_memory_def unfailing_def)

lemma build_wire_succeeds:
  assumes env: "smooth env" and good: "list_all good_entry (items es)"
    and n: "n = length (entry_stream (items es))" "144 + n \<le> 67108864"
  shows "\<exists>wire. build_wire env key es n = (ALRIOS_PACKAGE_INDEX_OK, wire)"
proof -
  have "encode_entries (items es) 0 n out = (ALRIOS_PACKAGE_INDEX_OK, entry_stream (items es))" if "length out = n" for out
    using encode_entries_eq [OF good, of 0 n out] that n(1) by simp
  moreover have "sha256_memory (crypto env) d = Inr (sha256 (crypto env) d)" "length (sha256 (crypto env) d) = 32" for d
    using env sha256_memory_succeeds by (auto simp: smooth_def unfailing_def)
  ultimately show ?thesis
    using env n(2) n(1) [symmetric]
    by (simp add: build_wire_def Let_def INDEX_HEADER_SIZE_def sign_wire_def checked_add_size_def limits
        INDEX_SIGNED_HEADER_SIZE_def smooth_def unfailing_def write_u64_be_eq)
qed

lemma build_directory_succeeds:
  assumes "smooth env" "name \<noteq> []" "fs name = Some (Directory root)" "admissible [] root" "distinct_tree root"
    and "length (tree_files [] root) \<le> 100000" "data_size (tree_files [] root) < 2 ^ 64"
    and "144 + sum_list (map (\<lambda>(p, f). 52 + length p) (tree_files [] root)) \<le> 64 * 1024 * 1024"
  shows "\<exists>wire. alrios_package_index_build_directory env dlink (Some name) fs (Some key) = (ALRIOS_PACKAGE_INDEX_OK, Some wire)"
proof -
  let ?fs = "tree_files [] root"
  obtain es where es: "collect_items env [] None root no_entries = (ALRIOS_PACKAGE_INDEX_OK, es)"
    using collect_items_succeeds [OF assms(1,4), of no_entries] assms(6,7) by (auto simp: no_entries_def)
  have c: "collect_directory env root [] no_entries = (ALRIOS_PACKAGE_INDEX_OK, es)"
    using es assms(1) by (simp add: collect_directory_def smooth_def)
  have "grown (crypto env) no_entries ?fs es"
    using collect_items_ok [OF _ es] assms(1) by (simp add: smooth_def)
  then have items: "items es = map (entry_for (crypto env)) ?fs" "list_all (taken_in (crypto env)) ?fs"
    by (auto simp: grown_def no_entries_def)
  let ?es = "es\<lparr>items := qsort compare_entries (items es)\<rparr>"
  have good: "list_all good_entry (items ?es)" "list_all good_entry (items es)"
    using items by (auto simp: list_all_iff taken_in_def)
  have paths: "map entry_path (items es) = map fst ?fs" by (simp add: items(1) entry_for_def split_beta)
  have "sorted_wrt (<) (map entry_path (items ?es))"
    using sorted_qsort [of "items es"] good(2) good_entryD tree_files_distinct [OF admissible_clean [OF assms(4)] assms(5), of "[]"]
    by (simp add: paths list_all_iff)
  moreover have len: "144 + length (entry_stream (items ?es)) \<le> 67108864"
  proof -
    have "length (entry_stream es') = sum_list (map (\<lambda>e. 52 + length (entry_path e)) es')" if "list_all good_entry es'" for es'
      using that by (induction es') (auto simp: length_entry_bytes)
    then have "length (entry_stream (items ?es)) = sum_list (map (\<lambda>e. 52 + length (entry_path e)) (items es))"
      using good(1) by (simp flip: sum_mset_sum_list)
    also have "\<dots> = sum_list (map (\<lambda>(p, f). 52 + length p) ?fs)"
      by (simp add: items(1) entry_for_def case_prod_unfold comp_def)
    finally show ?thesis using assms(8) by simp
  qed
  ultimately have "stream_size None (items ?es) 0 = Inr (length (entry_stream (items ?es)))"
    using stream_size_iff [OF good(1), of 0 None] by (simp add: limits)
  moreover obtain wire where "build_wire env key ?es (length (entry_stream (items ?es))) = (ALRIOS_PACKAGE_INDEX_OK, wire)"
    using build_wire_succeeds [OF assms(1) good(1) refl len] by blast
  ultimately show ?thesis
    unfolding build_directory_stages using assms c len items(1) by (auto simp: smooth_def)
qed

text \<open>
  The writer succeeds. On a tree of directories and regular files with admissible,
  distinct names and immutable paths shorter than 1024 bytes, with at most 100000 files
  whose sizes add up to less than \<open>2 ^ 64\<close> and whose index fits into 64 MiB, and in an
  environment where no call fails for good, an index is built; reads may be interrupted
  or cut short.
\<close>

theorem index_writer_succeeds:
  assumes "smooth env" "name \<noteq> []" "fs name = Some (Directory root)" "admissible [] root" "distinct_tree root"
    and "length (tree_files [] root) \<le> 100000" "data_size (tree_files [] root) < 2 ^ 64"
    and "144 + sum_list (map (\<lambda>(p, f). 52 + length p) (tree_files [] root)) \<le> 64 * 1024 * 1024"
  shows "\<exists>wire. alrios_package_index_build_directory env dlink (Some name) fs (Some key) = (ALRIOS_PACKAGE_INDEX_OK, Some wire)"
  by (rule build_directory_succeeds [where fs = fs and name = name, OF assms])

section \<open>Replacing the index file\<close>

text \<open>Whatever the kernel answers, a successful write has written everything.\<close>

lemma write_all_ok:
  "pos fd = length (content fd) \<Longrightarrow> write_all fd data = (ALRIOS_PACKAGE_INDEX_OK, fd') \<Longrightarrow>
    content fd' = content fd @ data"
proof (induction fd data arbitrary: fd' rule: write_all.induct)
  case (1 fd data)
  obtain n g where w: "sys_write data fd = (n, g)" by fastforce
  show ?case
  proof (cases "data = []")
    case True
    then show ?thesis using "1.prems" by (simp add: write_all.simps)
  next
    case False
    from w show ?thesis
    proof (cases rule: sys_write_cases)
      case (Data k)
      then have k: "0 < k" "write_all g (drop (nat n) data) = (ALRIOS_PACKAGE_INDEX_OK, fd')"
        using "1.prems"(2) w False by (auto simp: write_all.simps [of fd data] split: if_splits)
      have c: "content g = content fd @ take k data" "pos g = length (content g)"
        using Data "1.prems"(1) by (auto simp: file_put_def)
      have "content fd' = content g @ drop (nat n) data"
        by (rule "1.IH"(2) [OF False w [symmetric] _ _ c(2) k(2)]) (use Data(1) k(1) in simp_all)
      then show ?thesis using c(1) Data(1) by simp
    next
      case Error
      then have e: "write_all g data = (ALRIOS_PACKAGE_INDEX_OK, fd')" "errno g = EINTR"
        using "1.prems"(2) w False by (auto simp: write_all.simps [of fd data] split: if_splits)
      have c: "pos g = length (content g)" "content g = content fd" using Error "1.prems"(1) by (auto simp: same_file_def)
      have "content fd' = content g @ data"
        by (rule "1.IH"(1) [OF False w [symmetric] _ e(2) c(1) e(1)]) (use Error in simp)
      then show ?thesis using c(2) by simp
    qed
  qed
qed

lemma write_temporary_ok:
  assumes "write_temporary io wire = (ALRIOS_PACKAGE_INDEX_OK, written)"
  shows "written = wire"
proof -
  obtain st fd where w: "write_all (created_file (write_script io)) wire = (st, fd)" by fastforce
  obtain ok g where s: "sys_fsync fd = (ok, g)" by fastforce
  have "st = ALRIOS_PACKAGE_INDEX_OK" "written = content g"
    using assms w s by (auto simp: write_temporary_def Let_def split: if_splits)
  moreover have "content g = content fd" using s sys_call_keeps by (auto simp: sys_fsync_def same_file_def)
  ultimately show ?thesis using write_all_ok [OF _ w [simplified \<open>st = _\<close>]] by (simp add: created_file_def)
qed

text \<open>The names the writer may create: the template with or without its last six characters replaced.\<close>

definition temporary_names :: "write_io \<Rightarrow> bytes \<Rightarrow> bytes set" where
  "temporary_names io output_path =
     (case mkstemp_name io of None \<Rightarrow> {temporary_template output_path (ascii ''XXXXXX'')}
      | Some suffix \<Rightarrow> {temporary_template output_path suffix})"

lemma template_neq [simp]: "temporary_template out suffix \<noteq> out" "out \<noteq> temporary_template out suffix"
  by (simp_all add: temporary_template_def ascii_def)

lemma stream_size_error: "stream_size prev es n \<noteq> Inl ALRIOS_PACKAGE_INDEX_OK"
  by (induction es arbitrary: prev n) (auto split: option.splits)

lemma build_directory_some:
  "alrios_package_index_build_directory env dlink rootp fs keyp = (ALRIOS_PACKAGE_INDEX_OK, wirep) \<Longrightarrow> \<exists>wire. wirep = Some wire"
  by (cases wirep)
    (auto simp: alrios_package_index_build_directory_def Let_def stream_size_error
      split: option.splits if_splits sum.splits prod.splits)


section \<open>Key files\<close>

definition hex_digit :: "bool \<Rightarrow> nat \<Rightarrow> u8" where
  "hex_digit upper n = (if n < 10 then of_nat (0x30 + n) else of_nat ((if upper then 0x41 else 0x61) + n - 10))"

text \<open>The hexadecimal text of a key, in upper or lower case.\<close>

definition hex_text :: "bool \<Rightarrow> bytes \<Rightarrow> bytes" where
  "hex_text upper key = concat (map (\<lambda>b. [hex_digit upper (unat b div 16), hex_digit upper (unat b mod 16)]) key)"

lemma hex_digit_value: "n < 16 \<Longrightarrow> hex_char_to_val (hex_digit upper n) = int n"
proof -
  have "list_all (\<lambda>n. hex_char_to_val (hex_digit True n) = int n \<and> hex_char_to_val (hex_digit False n) = int n) [0..<16]"
    by code_simp
  then show "n < 16 \<Longrightarrow> ?thesis" by (cases upper) (simp_all add: list_all_iff)
qed

lemma length_hex_text [simp]: "length (hex_text upper key) = 2 * length key"
  by (induction key) (simp_all add: hex_text_def)

lemma hex_text_nth:
  "i < length key \<Longrightarrow> hex_text upper key ! (i * 2) = hex_digit upper (unat (key ! i) div 16) \<and>
    hex_text upper key ! (i * 2 + 1) = hex_digit upper (unat (key ! i) mod 16)"
proof (induction key arbitrary: i)
  case (Cons b key)
  then show ?case by (cases i) (simp_all add: hex_text_def)
qed simp

lemma byte_digits: "unat (b :: u8) div 16 < 16" "unat b mod 16 < 16"
proof -
  have "unat b < 2 ^ LENGTH(8)" by (rule unsigned_less)
  then show "unat b div 16 < 16" by (simp add: less_mult_imp_div_less)
qed simp

lemma is_hex_text: "is_hex (hex_text upper key)"
proof -
  have "list_all (\<lambda>c. \<not> hex_char_to_val c < 0) (hex_text upper key)"
    by (induction key) (simp_all add: hex_text_def hex_digit_value byte_digits)
  then show ?thesis unfolding is_hex_def list_all_iff by (meson in_set_takeD)
qed

lemma hex_bytes_text:
  assumes "length key = 32"
  shows "hex_bytes (hex_text upper key) = key"
proof (rule nth_equalityI)
  fix i assume "i < length (hex_bytes (hex_text upper key))"
  then have i: "i < 32" by (simp add: hex_bytes_def)
  have "int (n div 16) * 16 + int (n mod 16) = int n" for n
    using div_mult_mod_eq [of n 16] by (metis of_nat_add of_nat_mult of_nat_numeral)
  then have "word_of_int (int (unat (key ! i) div 16) * 16 + int (unat (key ! i) mod 16)) = key ! i" by simp
  then show "hex_bytes (hex_text upper key) ! i = key ! i"
    using i hex_text_nth [of i key upper] assms
    by (simp add: hex_bytes_def hex_digit_value byte_digits [of "key ! i"])
qed (simp add: hex_bytes_def assms)

text \<open>
  Key files in all accepted notations load the same key. A 32 byte key is loaded, as
  a private and as a public key, from a file that holds its bytes and from a file that holds
  its 64 hexadecimal digits, in upper or lower case.
\<close>

theorem key_file_notations:
  assumes "length key = 32" "path \<noteq> []" "text = key \<or> text = hex_text upper key"
    and "fopen path = Some \<lparr>seek_end_ok = True, tell = int (length text), seek_set_ok = True, malloc_buffer = True, read_data = text\<rparr>"
  shows "alrios_package_index_load_private_key_file pem (Some path) fopen (Some out) = (ALRIOS_PACKAGE_INDEX_OK, Some key) \<and>
    alrios_package_index_load_public_key_file pem' (Some path) fopen (Some out) = (ALRIOS_PACKAGE_INDEX_OK, Some key)"
proof -
  have "read_key_file (fopen path) = Inr text" using assms by (auto simp: read_key_file_def)
  then show ?thesis
    using assms(1-3) is_hex_text hex_bytes_text
    by (auto simp: alrios_package_index_load_private_key_file_def alrios_package_index_load_public_key_file_def)
qed

section \<open>A small package\<close>

text \<open>The package of \<open>PackageIndexSpec\<close>, an environment where nothing fails, and a toy signature.\<close>

definition demo_write_env :: write_env where
  "demo_write_env = \<lparr>crypto = demo_index_env, ed25519_sign = (\<lambda>k m. zeros 64), sign_key_new = True, sign_init = True,
     sign_message = True, calloc_wire = True, realloc_items = (\<lambda>n. True), malloc_entry = (\<lambda>n. True),
     malloc_join = (\<lambda>p. True), dup_ok = (\<lambda>p. True), fdopendir_ok = (\<lambda>p. True), readdir_fails = (\<lambda>p. None),
     fstatat_ok = (\<lambda>p. True), fstat_ok = (\<lambda>p. True), dir_error = (\<lambda>p. None), swapped = (\<lambda>p. None),
     read_script = (\<lambda>p. [Interrupted])\<rparr>"

lemma demo_unfailing: "unfailing demo_index_env"
  by (simp add: unfailing_def demo_index_env_def)

lemma demo_smooth: "smooth demo_write_env"
  using demo_unfailing by (simp add: smooth_def demo_write_env_def)

lemma demo_admissible: "admissible [] demo_root" "distinct_tree demo_root"
  by code_simp+

lemma demo_tree_files: "tree_files [] demo_root = [(ascii ''bin/app'', demo_reg_file)]"
  by code_simp

lemma demo_tree_size:
  "length (tree_files [] demo_root) \<le> 100000" "data_size (tree_files [] demo_root) < 2 ^ 64"
  "144 + sum_list (map (\<lambda>(p, f). 52 + length p) (tree_files [] demo_root)) \<le> 64 * 1024 * 1024"
  by (simp_all add: demo_tree_files demo_reg_file_def ascii_def)

lemma demo_built:
  "\<exists>wire. alrios_package_index_build_directory demo_write_env ENOTDIR (Some (ascii ''/pkg'')) demo_fs (Some (zeros 32)) =
    (ALRIOS_PACKAGE_INDEX_OK, Some wire)"
  by (rule build_directory_succeeds [where fs = demo_fs, OF demo_smooth demo_fs_root demo_admissible demo_tree_size])

lemma demo_keys:
  "\<forall>p. swapped demo_write_env p = None"
  "\<forall>m. ed25519_verify demo_index_env (zeros 32) (ed25519_sign demo_write_env (zeros 32) m) m"
  "sha256 demo_index_env = sha256 (crypto demo_write_env)"
  by (simp_all add: demo_write_env_def) (simp add: demo_index_env_def)

theorem written_index_lists_directory_witness:
  "\<exists>wire index. alrios_package_index_build_directory demo_write_env ENOTDIR (Some (ascii ''/pkg'')) demo_fs (Some (zeros 32)) =
      (ALRIOS_PACKAGE_INDEX_OK, Some wire) \<and>
    alrios_package_index_parse_and_verify demo_index_env (Some wire) (Some (zeros 32)) (Some zero_index) =
      (ALRIOS_PACKAGE_INDEX_OK, Some index) \<and>
    ascii ''bin/app'' \<in> entry_path ` set (index_entries index)"
proof -
  obtain wire where w: "alrios_package_index_build_directory demo_write_env ENOTDIR (Some (ascii ''/pkg'')) demo_fs
      (Some (zeros 32)) = (ALRIOS_PACKAGE_INDEX_OK, Some wire)" using demo_built by blast
  have "listed_names (segments (ascii ''bin/app''))" by code_simp
  with w demo_resolve written_index_lists_directory
    [OF w demo_fs_root(2) demo_admissible(2) demo_keys(1,2) demo_unfailing demo_keys(3), of zero_index]
  show ?thesis by blast
qed


theorem index_writer_succeeds_witness:
  "\<exists>wire. alrios_package_index_build_directory demo_write_env ENOTDIR (Some (ascii ''/pkg'')) demo_fs (Some (zeros 32)) =
    (ALRIOS_PACKAGE_INDEX_OK, Some wire)"
  by (rule index_writer_succeeds [where fs = demo_fs, OF demo_smooth demo_fs_root demo_admissible demo_tree_size])

definition demo_io :: write_io where
  "demo_io = \<lparr>disk = Map.empty, malloc_temporary = True, mkstemp_name = Some (ascii ''abcdef''), fchmod_ok = True,
     write_script = [], close_ok = True, rename_ok = True, unlink_ok = True\<rparr>"

lemma demo_write_temporary: "write_temporary demo_io wire = (ALRIOS_PACKAGE_INDEX_OK, wire)"
  by (cases "wire = []")
    (simp_all add: write_temporary_def demo_io_def created_file_def write_all.simps [of _ wire] write_all.simps [of _ "[]"]
      sys_write_def sys_fsync_def file_put_def Let_def)


theorem key_file_notations_witness:
  "alrios_package_index_load_private_key_file (\<lambda>t. None) (Some (ascii ''key''))
      (\<lambda>p. Some \<lparr>seek_end_ok = True, tell = 64, seek_set_ok = True, malloc_buffer = True,
        read_data = hex_text True (replicate 32 0xab)\<rparr>) (Some (zeros 32)) =
    (ALRIOS_PACKAGE_INDEX_OK, Some (replicate 32 0xab))"
  using key_file_notations [of "replicate 32 0xab" "ascii ''key''" "hex_text True (replicate 32 0xab)" True
      "\<lambda>p. Some \<lparr>seek_end_ok = True, tell = 64, seek_set_ok = True, malloc_buffer = True,
        read_data = hex_text True (replicate 32 0xab)\<rparr>"]
  by (simp add: ascii_def)

end
