(* ===== verification/GuestChannel.thy ===== *)
theory GuestChannel
  imports ByteOrder
begin

text \<open>
  The guest channel of \<open>src/libraries/ipc/guest_channel.c\<close>: frames over a local socket that
  keeps message boundaries, with the credentials the kernel attaches to each datagram.

  A socket is the list of datagrams it has been given to send, the list that waits to be
  received, and the answers the kernel will give: \<open>send_script\<close>, \<open>recv_script\<close> and
  \<open>poll_script\<close>, one answer per call. Behind the end of a script calls succeed.
\<close>

datatype guest_status =
    AR_GUEST_OK
  | AR_GUEST_ERR_INVALID
  | AR_GUEST_ERR_UNSUPPORTED
  | AR_GUEST_ERR_SYSTEM
  | AR_GUEST_ERR_AUTH
  | AR_GUEST_ERR_PROTOCOL
  | AR_GUEST_ERR_LIMIT
  | AR_GUEST_ERR_TIMEOUT
  | AR_GUEST_ERR_WOULD_BLOCK
  | AR_GUEST_ERR_CLOSED
  | AR_GUEST_ERR_BUFFER_TOO_SMALL
  | AR_GUEST_ERR_BACKPRESSURE
  | AR_GUEST_ERR_NOT_FOUND
  | AR_GUEST_ERR_EXISTS
  | AR_GUEST_ERR_NOMEM

definition AR_GUEST_WIRE_MAGIC :: u32 where
  "AR_GUEST_WIRE_MAGIC = 0x41524743"
definition AR_GUEST_WIRE_VERSION :: u16 where
  "AR_GUEST_WIRE_VERSION = 1"
definition AR_GUEST_HARD_MAX_PAYLOAD_SIZE :: u32 where
  "AR_GUEST_HARD_MAX_PAYLOAD_SIZE = 65536 - 24"
definition AR_GUEST_FLAGS_ALLOWED :: u32 where
  "AR_GUEST_FLAGS_ALLOWED = 1 OR 2"
definition AR_GUEST_MATCH_PID :: u32 where
  "AR_GUEST_MATCH_PID = 1"
definition AR_GUEST_MATCH_UID :: u32 where
  "AR_GUEST_MATCH_UID = 2"
definition AR_GUEST_MATCH_GID :: u32 where
  "AR_GUEST_MATCH_GID = 4"

record guest_identity =
  peer_pid :: u32
  peer_uid :: u32
  peer_gid :: u32

record guest_policy =
  match_flags :: u32
  expected :: guest_identity

record channel_config =
  chan_max_payload :: u32
  io_timeout_ms :: int
  peer_policy :: guest_policy

record frame_header =
  frame_type :: u16
  frame_flags :: u32
  frame_request :: u64
  frame_length :: u32

section \<open>The socket\<close>

record datagram =
  dg_data :: bytes
  dg_creds :: "guest_identity option"

text \<open>\<open>Sent n\<close>: the call answers that it has taken at most \<open>n\<close> bytes.\<close>

datatype send_outcome = Sent nat | Send_EINTR | Send_EAGAIN | Send_EPIPE | Send_error

datatype recv_outcome = Received | Recv_EINTR | Recv_ECONNRESET | Recv_error

datatype poll_outcome = Poll_ready bool bool | Poll_EINTR | Poll_timeout | Poll_error

record guest_socket =
  sock_out :: "datagram list"
  sock_in :: "datagram list"
  sock_eof :: bool
  send_script :: "send_outcome list"
  recv_script :: "recv_outcome list"
  poll_script :: "poll_outcome list"

record guest_channel =
  chan_fd :: int
  chan_peer :: guest_identity
  chan_config :: channel_config
  chan_sock :: guest_socket

text \<open>
  The loops that repeat an interrupted call. \<open>Poll_ready hup inp\<close> has the error bits
  (\<open>POLLERR\<close>, \<open>POLLHUP\<close>, \<open>POLLNVAL\<close>) and \<open>POLLIN\<close> of the answer.
\<close>

fun poll_loop :: "poll_outcome list \<Rightarrow> poll_outcome \<times> poll_outcome list" where
  "poll_loop [] = (Poll_ready False True, [])"
| "poll_loop (p # ps) = (if p = Poll_EINTR then poll_loop ps else (p, ps))"

fun send_loop :: "nat \<Rightarrow> send_outcome list \<Rightarrow> send_outcome \<times> send_outcome list" where
  "send_loop n [] = (Sent n, [])"
| "send_loop n (s # ss) = (if s = Send_EINTR then send_loop n ss else (s, ss))"

fun recv_loop :: "recv_outcome list \<Rightarrow> recv_outcome \<times> recv_outcome list" where
  "recv_loop [] = (Received, [])"
| "recv_loop (r # rs) = (if r = Recv_EINTR then recv_loop rs else (r, rs))"

text \<open>\<open>drain_datagram\<close> tries once to take the first datagram away.\<close>

definition drain_datagram :: "guest_socket \<Rightarrow> guest_socket" where
  "drain_datagram s =
     (case recv_script s of
        [] \<Rightarrow> s\<lparr>sock_in := tl (sock_in s)\<rparr>
      | r # rs \<Rightarrow>
          if r = Received then s\<lparr>sock_in := tl (sock_in s), recv_script := rs\<rparr> else s\<lparr>recv_script := rs\<rparr>)"

section \<open>Opening and closing\<close>

text \<open>\<open>opened\<close>: the descriptors \<open>socketpair\<close> delivers, if it does.\<close>

definition ar_guest_channel_socketpair :: "(int \<times> int) option \<Rightarrow> bool \<Rightarrow> guest_status \<times> (int \<times> int) option" where
  "ar_guest_channel_socketpair opened out_fds =
     (if \<not> out_fds then (AR_GUEST_ERR_INVALID, None)
      else case opened of None \<Rightarrow> (AR_GUEST_ERR_SYSTEM, None) | Some fds \<Rightarrow> (AR_GUEST_OK, Some fds))"

text \<open>Whether credentials contradict a policy.\<close>

definition policy_violated :: "guest_policy \<Rightarrow> guest_identity \<Rightarrow> bool" where
  "policy_violated pol cred \<longleftrightarrow>
     match_flags pol AND AR_GUEST_MATCH_PID \<noteq> 0 \<and> peer_pid cred \<noteq> peer_pid (expected pol) \<or>
     match_flags pol AND AR_GUEST_MATCH_UID \<noteq> 0 \<and> peer_uid cred \<noteq> peer_uid (expected pol) \<or>
     match_flags pol AND AR_GUEST_MATCH_GID \<noteq> 0 \<and> peer_gid cred \<noteq> peer_gid (expected pol)"

text \<open>
  \<open>peercred\<close> is the answer to \<open>SO_PEERCRED\<close>, \<open>passcred\<close> whether \<open>SO_PASSCRED\<close> could be set,
  \<open>alloc\<close> whether \<open>calloc\<close> succeeded; \<open>sock\<close> is the socket behind the descriptor.
\<close>

definition ar_guest_channel_attach ::
  "guest_identity option \<Rightarrow> bool \<Rightarrow> bool \<Rightarrow> guest_socket \<Rightarrow> int \<Rightarrow> channel_config option \<Rightarrow>
   guest_status \<times> guest_channel option" where
  "ar_guest_channel_attach peercred passcred alloc sock fd configp =
     (if fd < 0 then (AR_GUEST_ERR_INVALID, None)
      else if (case configp of None \<Rightarrow> False | Some c \<Rightarrow> AR_GUEST_HARD_MAX_PAYLOAD_SIZE < chan_max_payload c)
      then (AR_GUEST_ERR_LIMIT, None)
      else case peercred of
        None \<Rightarrow> (AR_GUEST_ERR_AUTH, None)
      | Some ucred \<Rightarrow>
          if (case configp of None \<Rightarrow> False
              | Some c \<Rightarrow> match_flags (peer_policy c) \<noteq> 0 \<and> policy_violated (peer_policy c) ucred)
          then (AR_GUEST_ERR_AUTH, None)
          else if \<not> passcred then (AR_GUEST_ERR_SYSTEM, None)
          else if \<not> alloc then (AR_GUEST_ERR_NOMEM, None)
          else
            let config = (case configp of Some c \<Rightarrow> c
                  | None \<Rightarrow> \<lparr>chan_max_payload = AR_GUEST_HARD_MAX_PAYLOAD_SIZE, io_timeout_ms = 1000,
                      peer_policy = \<lparr>match_flags = 0, expected = \<lparr>peer_pid = 0, peer_uid = 0, peer_gid = 0\<rparr>\<rparr>\<rparr>);
                config = (if chan_max_payload config = 0
                          then config\<lparr>chan_max_payload := AR_GUEST_HARD_MAX_PAYLOAD_SIZE\<rparr> else config)
            in (AR_GUEST_OK, Some \<lparr>chan_fd = fd, chan_peer = ucred, chan_config = config, chan_sock = sock\<rparr>))"

text \<open>The descriptor that closing a channel closes.\<close>

definition ar_guest_channel_close :: "guest_channel option \<Rightarrow> int list" where
  "ar_guest_channel_close channelp =
     (case channelp of None \<Rightarrow> [] | Some c \<Rightarrow> if 0 \<le> chan_fd c then [chan_fd c] else [])"

definition ar_guest_channel_fd :: "guest_channel option \<Rightarrow> int" where
  "ar_guest_channel_fd channelp = (case channelp of None \<Rightarrow> -1 | Some c \<Rightarrow> chan_fd c)"

definition ar_guest_channel_peer ::
  "guest_channel option \<Rightarrow> guest_identity option \<Rightarrow> guest_status \<times> guest_identity option" where
  "ar_guest_channel_peer channelp out_peer =
     (case (channelp, out_peer) of
        (Some c, Some _) \<Rightarrow> (AR_GUEST_OK, Some (chan_peer c))
      | _ \<Rightarrow> (AR_GUEST_ERR_INVALID, out_peer))"

section \<open>Frames\<close>

text \<open>The packed header in the byte order of the supported targets, least significant byte first.\<close>

definition ar_guest_wire_header :: "u32 \<Rightarrow> u16 \<Rightarrow> frame_header \<Rightarrow> bytes" where
  "ar_guest_wire_header magic version h =
     rev (store_u32_be magic) @ rev (store_u16_be version) @ rev (store_u16_be (frame_type h)) @
     rev (store_u32_be (frame_flags h)) @ rev (store_u64_be (frame_request h)) @ rev (store_u32_be (frame_length h))"

definition header_magic :: "bytes \<Rightarrow> u32" where
  "header_magic w = load_u32_be (rev (take 4 w))"
definition header_version :: "bytes \<Rightarrow> u16" where
  "header_version w = load_u16_be (rev (take 2 (drop 4 w)))"
definition header_frame :: "bytes \<Rightarrow> frame_header" where
  "header_frame w =
     \<lparr>frame_type = load_u16_be (rev (take 2 (drop 6 w))),
      frame_flags = load_u32_be (rev (take 4 (drop 8 w))),
      frame_request = load_u64_be (rev (take 8 (drop 12 w))),
      frame_length = load_u32_be (rev (take 4 (drop 20 w)))\<rparr>"

text \<open>
  Waiting for room and handing the frame to the socket. \<open>self\<close> are the credentials of the
  sending process, which the kernel checks and delivers.
\<close>

definition send_attempt :: "guest_identity \<Rightarrow> guest_channel \<Rightarrow> bytes \<Rightarrow> nat \<Rightarrow> guest_status \<times> guest_channel" where
  "send_attempt self c data total_expected =
     (let s = chan_sock c
      in case (if 0 < io_timeout_ms (chan_config c) then poll_loop (poll_script s)
               else (Poll_ready False False, poll_script s)) of
        (p, polls) \<Rightarrow>
          let s = s\<lparr>poll_script := polls\<rparr>
          in (case p of
            Poll_timeout \<Rightarrow> (AR_GUEST_ERR_TIMEOUT, c\<lparr>chan_sock := s\<rparr>)
          | Poll_ready hup inp \<Rightarrow>
              if hup then (AR_GUEST_ERR_CLOSED, c\<lparr>chan_sock := s\<rparr>)
              else (case send_loop total_expected (send_script s) of
                (out, sends) \<Rightarrow>
                  let s = s\<lparr>send_script := sends\<rparr>
                  in case out of
                    Sent n \<Rightarrow>
                      (if min n total_expected \<noteq> total_expected then AR_GUEST_ERR_PROTOCOL else AR_GUEST_OK,
                       c\<lparr>chan_sock := s\<lparr>sock_out := sock_out s @
                         [\<lparr>dg_data = take (min n total_expected) data, dg_creds = Some self\<rparr>]\<rparr>\<rparr>)
                  | Send_EAGAIN \<Rightarrow> (AR_GUEST_ERR_WOULD_BLOCK, c\<lparr>chan_sock := s\<rparr>)
                  | Send_EPIPE \<Rightarrow> (AR_GUEST_ERR_CLOSED, c\<lparr>chan_sock := s\<rparr>)
                  | _ \<Rightarrow> (AR_GUEST_ERR_SYSTEM, c\<lparr>chan_sock := s\<rparr>))
          | _ \<Rightarrow> (AR_GUEST_ERR_SYSTEM, c\<lparr>chan_sock := s\<rparr>)))"

definition ar_guest_channel_send ::
  "guest_identity \<Rightarrow> guest_channel option \<Rightarrow> u16 \<Rightarrow> u32 \<Rightarrow> u64 \<Rightarrow> bytes option \<Rightarrow> u32 \<Rightarrow>
   guest_status \<times> guest_channel option" where
  "ar_guest_channel_send self channelp mtype flags request_id payloadp payload_length =
     (case channelp of
        None \<Rightarrow> (AR_GUEST_ERR_INVALID, None)
      | Some c \<Rightarrow>
          if chan_fd c < 0 then (AR_GUEST_ERR_INVALID, Some c)
          else if 0 < payload_length \<and> payloadp = None then (AR_GUEST_ERR_INVALID, Some c)
          else if flags AND NOT AR_GUEST_FLAGS_ALLOWED \<noteq> 0 then (AR_GUEST_ERR_INVALID, Some c)
          else if chan_max_payload (chan_config c) < payload_length \<or> AR_GUEST_HARD_MAX_PAYLOAD_SIZE < payload_length
          then (AR_GUEST_ERR_LIMIT, Some c)
          else
            let header = ar_guest_wire_header AR_GUEST_WIRE_MAGIC AR_GUEST_WIRE_VERSION
                  \<lparr>frame_type = mtype, frame_flags = flags, frame_request = request_id, frame_length = payload_length\<rparr>;
                data = header @ (if 0 < payload_length then take (unat payload_length) (the payloadp) else [])
            in case send_attempt self c data (24 + unat payload_length) of (st, c') \<Rightarrow> (st, Some c'))"

section \<open>Receiving\<close>

text \<open>What is wrong with a peeked datagram, in the order of the checks.\<close>

definition frame_refused :: "guest_channel \<Rightarrow> datagram \<Rightarrow> guest_status option" where
  "frame_refused c d =
     (let pol = peer_policy (chan_config c); h = header_frame (dg_data d)
      in if length (dg_data d) < 24 then Some AR_GUEST_ERR_PROTOCOL
         else case dg_creds d of
           None \<Rightarrow> Some AR_GUEST_ERR_AUTH
         | Some cred \<Rightarrow>
             if policy_violated pol cred then Some AR_GUEST_ERR_AUTH
             else if match_flags pol = 0 \<and> (peer_uid cred \<noteq> peer_uid (chan_peer c) \<or> peer_pid cred \<noteq> peer_pid (chan_peer c))
             then Some AR_GUEST_ERR_AUTH
             else if header_magic (dg_data d) \<noteq> AR_GUEST_WIRE_MAGIC \<or> header_version (dg_data d) \<noteq> AR_GUEST_WIRE_VERSION
             then Some AR_GUEST_ERR_PROTOCOL
             else if frame_flags h AND NOT AR_GUEST_FLAGS_ALLOWED \<noteq> 0 then Some AR_GUEST_ERR_PROTOCOL
             else if chan_max_payload (chan_config c) < frame_length h \<or> AR_GUEST_HARD_MAX_PAYLOAD_SIZE < frame_length h
             then Some AR_GUEST_ERR_LIMIT
             else if length (dg_data d) \<noteq> 24 + unat (frame_length h) then Some AR_GUEST_ERR_PROTOCOL
             else None)"

text \<open>
  The part behind \<open>poll\<close>. The answers are the status, the caller's header, the caller's
  buffer and the channel. A channel has one reader, so the second \<open>recvmsg\<close> finds the datagram
  the first one peeked at, and the comparison of its length cannot fail.
\<close>

definition receive_frame ::
  "guest_channel \<Rightarrow> frame_header \<Rightarrow> bytes option \<Rightarrow> u32 \<Rightarrow>
   guest_status \<times> frame_header \<times> bytes option \<times> guest_channel" where
  "receive_frame c out_header out_payload payload_capacity =
     (case recv_loop (recv_script (chan_sock c)) of
        (r, rs) \<Rightarrow>
          let c = c\<lparr>chan_sock := (chan_sock c)\<lparr>recv_script := rs\<rparr>\<rparr>
          in (case r of
            Recv_ECONNRESET \<Rightarrow> (AR_GUEST_ERR_CLOSED, out_header, out_payload, c)
          | Received \<Rightarrow>
              (case sock_in (chan_sock c) of
                 [] \<Rightarrow> (if sock_eof (chan_sock c) then AR_GUEST_ERR_CLOSED else AR_GUEST_ERR_WOULD_BLOCK,
                        out_header, out_payload, c)
               | d # ds \<Rightarrow>
                   if dg_data d = [] then (AR_GUEST_ERR_CLOSED, out_header, out_payload, c)
                   else (case frame_refused c d of
                      Some e \<Rightarrow> (e, out_header, out_payload, c\<lparr>chan_sock := drain_datagram (chan_sock c)\<rparr>)
                    | None \<Rightarrow>
                        let h = header_frame (dg_data d)
                        in if payload_capacity < frame_length h
                           then (AR_GUEST_ERR_BUFFER_TOO_SMALL, h, out_payload, c)
                           else (case recv_loop (recv_script (chan_sock c)) of
                              (Received, rs') \<Rightarrow>
                                (AR_GUEST_OK, h,
                                 if 0 < frame_length h
                                 then Some (memwrite (the out_payload) 0 (drop 24 (dg_data d))) else out_payload,
                                 c\<lparr>chan_sock := (chan_sock c)\<lparr>sock_in := ds, recv_script := rs'\<rparr>\<rparr>)
                            | (_, rs') \<Rightarrow>
                                (AR_GUEST_ERR_SYSTEM, out_header, out_payload,
                                 c\<lparr>chan_sock := (chan_sock c)\<lparr>recv_script := rs'\<rparr>\<rparr>))))
          | _ \<Rightarrow> (AR_GUEST_ERR_SYSTEM, out_header, out_payload, c)))"

definition ar_guest_channel_receive ::
  "guest_channel option \<Rightarrow> frame_header option \<Rightarrow> bytes option \<Rightarrow> u32 \<Rightarrow>
   guest_status \<times> frame_header option \<times> bytes option \<times> guest_channel option" where
  "ar_guest_channel_receive channelp headerp out_payload payload_capacity =
     (case (channelp, headerp) of
        (Some c, Some out_header) \<Rightarrow>
          if chan_fd c < 0 \<or> 0 < payload_capacity \<and> out_payload = None
          then (AR_GUEST_ERR_INVALID, headerp, out_payload, channelp)
          else (case (if io_timeout_ms (chan_config c) \<noteq> 0 then poll_loop (poll_script (chan_sock c))
                      else (Poll_ready False True, poll_script (chan_sock c))) of
             (p, polls) \<Rightarrow>
               let c = c\<lparr>chan_sock := (chan_sock c)\<lparr>poll_script := polls\<rparr>\<rparr>
               in (case p of
                 Poll_timeout \<Rightarrow> (AR_GUEST_ERR_TIMEOUT, headerp, out_payload, Some c)
               | Poll_ready hup inp \<Rightarrow>
                   if hup \<and> \<not> inp then (AR_GUEST_ERR_CLOSED, headerp, out_payload, Some c)
                   else (case receive_frame c out_header out_payload payload_capacity of
                     (st, h, buf, c') \<Rightarrow> (st, Some h, buf, Some c'))
               | _ \<Rightarrow> (AR_GUEST_ERR_SYSTEM, headerp, out_payload, Some c)))
      | _ \<Rightarrow> (AR_GUEST_ERR_INVALID, headerp, out_payload, channelp))"

end
