(* ===== verification/GuestRouter.thy ===== *)
theory GuestRouter
  imports GuestChannel RingFifo
begin

text \<open>
  The guest router of \<open>src/libraries/supervisor/guest_router.c\<close>: a table of guests, each with
  a channel it owns and a circular queue for messages the socket does not take at once.
\<close>

section \<open>State\<close>

record queue_entry =
  qe_type :: u16
  qe_flags :: u32
  qe_request :: u64
  qe_length :: u32
  qe_payload :: "bytes option"

record route_stats =
  messages_sent :: u64
  messages_received :: u64
  messages_dropped :: u64
  auth_failures :: u64
  protocol_errors :: u64

text \<open>\<open>app_id\<close> is the array of 64 characters.\<close>

record route_entry =
  app_id :: bytes
  active :: bool
  quarantined :: bool
  channel :: "guest_channel option"
  route_policy :: guest_policy
  stats :: route_stats
  gq_slots :: "queue_entry list"
  gq_capacity :: nat
  gq_head :: nat
  gq_count :: nat

datatype flood_policy = AR_GUEST_FLOOD_DROP | AR_GUEST_FLOOD_BACKPRESSURE | AR_GUEST_FLOOD_DISCONNECT

record router_config =
  max_guests :: nat
  max_guest_queue :: nat
  router_max_payload :: u32
  router_timeout_ms :: int
  flood_policy_of :: flood_policy

record guest_router =
  router_config_of :: router_config
  entries :: "route_entry list"
  guest_count :: nat

definition AR_GUEST_ROUTER_MAX_GUESTS :: nat where
  "AR_GUEST_ROUTER_MAX_GUESTS = 64"
definition AR_GUEST_APP_ID_MAX_LEN :: nat where
  "AR_GUEST_APP_ID_MAX_LEN = 64"

definition zero_queue_entry :: queue_entry where
  "zero_queue_entry = \<lparr>qe_type = 0, qe_flags = 0, qe_request = 0, qe_length = 0, qe_payload = None\<rparr>"

definition zero_policy :: guest_policy where
  "zero_policy = \<lparr>match_flags = 0, expected = \<lparr>peer_pid = 0, peer_uid = 0, peer_gid = 0\<rparr>\<rparr>"

definition zero_entry :: route_entry where
  "zero_entry = \<lparr>app_id = zeros 64, active = False, quarantined = False, channel = None, route_policy = zero_policy,
     stats = \<lparr>messages_sent = 0, messages_received = 0, messages_dropped = 0, auth_failures = 0, protocol_errors = 0\<rparr>,
     gq_slots = [], gq_capacity = 0, gq_head = 0, gq_count = 0\<rparr>"

section \<open>The queue\<close>

definition gq_pop :: "route_entry \<Rightarrow> route_entry" where
  "gq_pop e =
     e\<lparr>gq_slots := (gq_slots e)[gq_head e := (gq_slots e ! gq_head e)\<lparr>qe_payload := None\<rparr>],
       gq_head := (gq_head e + 1) mod gq_capacity e,
       gq_count := gq_count e - 1\<rparr>"

definition gq_push :: "route_entry \<Rightarrow> queue_entry \<Rightarrow> route_entry" where
  "gq_push e q =
     (let tail = (gq_head e + gq_count e) mod gq_capacity e
      in e\<lparr>gq_slots := (gq_slots e)[tail := q], gq_count := gq_count e + 1\<rparr>)"

definition free_entry_queue :: "route_entry \<Rightarrow> route_entry" where
  "free_entry_queue e = e\<lparr>gq_slots := [], gq_capacity := 0, gq_head := 0, gq_count := 0\<rparr>"

text \<open>The loop runs until the queue is empty or the channel does not take the first message.\<close>

fun flush_loop :: "guest_identity \<Rightarrow> nat \<Rightarrow> route_entry \<Rightarrow> guest_status \<times> route_entry" where
  "flush_loop self 0 e = (AR_GUEST_OK, e)"
| "flush_loop self (Suc n) e =
     (let q = gq_slots e ! gq_head e
      in case ar_guest_channel_send self (channel e) (qe_type q) (qe_flags q) (qe_request q) (qe_payload q) (qe_length q) of
        (rc, ch) \<Rightarrow>
          if rc = AR_GUEST_OK then flush_loop self n (gq_pop (e\<lparr>channel := ch\<rparr>))
          else (rc, e\<lparr>channel := ch\<rparr>))"

definition flush_entry_queue :: "guest_identity \<Rightarrow> route_entry \<Rightarrow> guest_status \<times> route_entry" where
  "flush_entry_queue self e = flush_loop self (gq_count e) e"

section \<open>The table\<close>

definition entry_matches :: "route_entry \<Rightarrow> bytes \<Rightarrow> bool" where
  "entry_matches e name \<longleftrightarrow> active e \<and> strncmp_eq (app_id e) name AR_GUEST_APP_ID_MAX_LEN"

fun find_from :: "nat \<Rightarrow> route_entry list \<Rightarrow> bytes \<Rightarrow> nat option" where
  "find_from i [] name = None"
| "find_from i (e # es) name = (if entry_matches e name then Some i else find_from (i + 1) es name)"

definition find_entry :: "guest_router option \<Rightarrow> bytes option \<Rightarrow> nat option" where
  "find_entry routerp namep =
     (case (routerp, namep) of
        (Some r, Some name) \<Rightarrow> find_from 0 (take (max_guests (router_config_of r)) (entries r)) name
      | _ \<Rightarrow> None)"

definition set_entry :: "guest_router \<Rightarrow> nat \<Rightarrow> route_entry \<Rightarrow> guest_router" where
  "set_entry r i e = r\<lparr>entries := (entries r)[i := e]\<rparr>"

definition ar_guest_router_create ::
  "router_config option \<Rightarrow> bool \<Rightarrow> bool \<Rightarrow> bool \<Rightarrow> guest_status \<times> guest_router option" where
  "ar_guest_router_create configp out_router alloc alloc_entries =
     (if \<not> out_router then (AR_GUEST_ERR_INVALID, None)
      else if \<not> alloc then (AR_GUEST_ERR_NOMEM, None)
      else
        let c = (case configp of Some c \<Rightarrow> c
              | None \<Rightarrow> \<lparr>max_guests = AR_GUEST_ROUTER_MAX_GUESTS, max_guest_queue = 64,
                  router_max_payload = AR_GUEST_HARD_MAX_PAYLOAD_SIZE, router_timeout_ms = 0,
                  flood_policy_of = AR_GUEST_FLOOD_DROP\<rparr>);
            c = (if max_guests c = 0 then c\<lparr>max_guests := AR_GUEST_ROUTER_MAX_GUESTS\<rparr> else c);
            c = (if max_guest_queue c = 0 then c\<lparr>max_guest_queue := 64\<rparr> else c);
            c = (if router_max_payload c = 0 \<or> AR_GUEST_HARD_MAX_PAYLOAD_SIZE < router_max_payload c
                 then c\<lparr>router_max_payload := AR_GUEST_HARD_MAX_PAYLOAD_SIZE\<rparr> else c)
        in if \<not> alloc_entries then (AR_GUEST_ERR_NOMEM, None)
           else (AR_GUEST_OK,
                 Some \<lparr>router_config_of = c, entries = replicate (max_guests c) zero_entry, guest_count = 0\<rparr>))"

text \<open>Destroying answers the descriptors it closes.\<close>

definition ar_guest_router_destroy :: "guest_router option \<Rightarrow> int list" where
  "ar_guest_router_destroy routerp =
     (case routerp of
        None \<Rightarrow> []
      | Some r \<Rightarrow> concat (map (\<lambda>e. if active e then ar_guest_channel_close (channel e) else [])
                   (take (max_guests (router_config_of r)) (entries r))))"

fun free_slot :: "nat \<Rightarrow> route_entry list \<Rightarrow> nat option" where
  "free_slot i [] = None"
| "free_slot i (e # es) = (if \<not> active e then Some i else free_slot (i + 1) es)"

text \<open>
  What the environment answers while a guest is attached: the four answers of the channel
  and whether the queue could be allocated.
\<close>

record attach_env =
  env_peercred :: "guest_identity option"
  env_passcred :: bool
  env_alloc_channel :: bool
  env_socket :: guest_socket
  env_alloc_queue :: bool

text \<open>The entry of a new guest.\<close>

definition attached_entry ::
  "router_config \<Rightarrow> guest_channel option \<Rightarrow> bytes \<Rightarrow> guest_policy option \<Rightarrow> route_entry" where
  "attached_entry cfg ch name policyp =
     zero_entry\<lparr>gq_slots := replicate (max_guest_queue cfg) zero_queue_entry, gq_capacity := max_guest_queue cfg,
       channel := ch, active := True, app_id := name @ zeros (64 - length name),
       route_policy := (case policyp of Some p \<Rightarrow> p | None \<Rightarrow> zero_policy)\<rparr>"

text \<open>Attaching answers the status, the descriptors it closes and the router.\<close>

definition ar_guest_router_attach ::
  "attach_env \<Rightarrow> guest_router option \<Rightarrow> bytes option \<Rightarrow> int \<Rightarrow> guest_policy option \<Rightarrow>
   guest_status \<times> int list \<times> guest_router option" where
  "ar_guest_router_attach env routerp namep host_fd policyp =
     (case (routerp, namep) of
        (Some r, Some name) \<Rightarrow>
          if host_fd < 0 \<or> name = [] then (AR_GUEST_ERR_INVALID, [], routerp)
          else if AR_GUEST_APP_ID_MAX_LEN \<le> length name then (AR_GUEST_ERR_INVALID, [], routerp)
          else if find_entry routerp namep \<noteq> None then (AR_GUEST_ERR_EXISTS, [], routerp)
          else if max_guests (router_config_of r) \<le> guest_count r then (AR_GUEST_ERR_LIMIT, [], routerp)
          else
            let cfg = \<lparr>chan_max_payload = router_max_payload (router_config_of r), io_timeout_ms = 0,
                  peer_policy = (case policyp of Some p \<Rightarrow> p | None \<Rightarrow> zero_policy)\<rparr>
            in case ar_guest_channel_attach (env_peercred env) (env_passcred env) (env_alloc_channel env)
                 (env_socket env) host_fd (Some cfg) of
              (rc, ch) \<Rightarrow>
                if rc \<noteq> AR_GUEST_OK then (rc, [], routerp)
                else (case free_slot 0 (take (max_guests (router_config_of r)) (entries r)) of
                  None \<Rightarrow> (AR_GUEST_ERR_LIMIT, ar_guest_channel_close ch, routerp)
                | Some i \<Rightarrow>
                    if \<not> env_alloc_queue env
                    then (AR_GUEST_ERR_NOMEM, ar_guest_channel_close ch, Some (set_entry r i zero_entry))
                    else
                      (AR_GUEST_OK, [],
                       Some ((set_entry r i (attached_entry (router_config_of r) ch name policyp))
                         \<lparr>guest_count := guest_count r + 1\<rparr>)))
      | _ \<Rightarrow> (AR_GUEST_ERR_INVALID, [], routerp))"

definition ar_guest_router_register ::
  "attach_env \<Rightarrow> (int \<times> int) option \<Rightarrow> guest_router option \<Rightarrow> bytes option \<Rightarrow> guest_policy option \<Rightarrow> bool \<Rightarrow>
   guest_status \<times> int option \<times> int list \<times> guest_router option" where
  "ar_guest_router_register env sockets routerp namep policyp out_guest_fd =
     (case (routerp, namep) of
        (Some r, Some name) \<Rightarrow>
          if \<not> out_guest_fd \<or> name = [] then (AR_GUEST_ERR_INVALID, None, [], routerp)
          else if AR_GUEST_APP_ID_MAX_LEN \<le> length name then (AR_GUEST_ERR_INVALID, None, [], routerp)
          else if find_entry routerp namep \<noteq> None then (AR_GUEST_ERR_EXISTS, None, [], routerp)
          else if max_guests (router_config_of r) \<le> guest_count r then (AR_GUEST_ERR_LIMIT, None, [], routerp)
          else (case ar_guest_channel_socketpair sockets True of
             (rc, sv) \<Rightarrow>
               if rc \<noteq> AR_GUEST_OK then (rc, None, [], routerp)
               else (case ar_guest_router_attach env routerp namep (fst (the sv)) policyp of
                  (rc, closed, r') \<Rightarrow>
                    if rc \<noteq> AR_GUEST_OK
                    then (rc, None, closed @ [fst (the sv), snd (the sv)], r')
                    else (AR_GUEST_OK, Some (snd (the sv)), closed, r')))
      | _ \<Rightarrow> (AR_GUEST_ERR_INVALID, None, [], routerp))"

definition ar_guest_router_unregister ::
  "guest_router option \<Rightarrow> bytes option \<Rightarrow> guest_status \<times> int list \<times> guest_router option" where
  "ar_guest_router_unregister routerp namep =
     (case find_entry routerp namep of
        None \<Rightarrow> (AR_GUEST_ERR_NOT_FOUND, [], routerp)
      | Some i \<Rightarrow>
          let r = the routerp
          in (AR_GUEST_OK, ar_guest_channel_close (channel (entries r ! i)),
              Some ((set_entry r i zero_entry)
                \<lparr>guest_count := (if 0 < guest_count r then guest_count r - 1 else guest_count r)\<rparr>)))"

definition ar_guest_router_has_guest :: "guest_router option \<Rightarrow> bytes option \<Rightarrow> bool" where
  "ar_guest_router_has_guest routerp namep =
     (case (routerp, namep) of
        (Some r, Some name) \<Rightarrow>
          list_ex (\<lambda>e. active e \<and> \<not> quarantined e \<and> strncmp_eq (app_id e) name AR_GUEST_APP_ID_MAX_LEN)
            (take (max_guests (router_config_of r)) (entries r))
      | _ \<Rightarrow> False)"

definition ar_guest_router_get_stats ::
  "guest_router option \<Rightarrow> bytes option \<Rightarrow> route_stats option \<Rightarrow> guest_status \<times> route_stats option" where
  "ar_guest_router_get_stats routerp namep out_stats =
     (case (routerp, namep, out_stats) of
        (Some r, Some name, Some _) \<Rightarrow>
          (case find_entry routerp namep of
             None \<Rightarrow> (AR_GUEST_ERR_NOT_FOUND, out_stats)
           | Some i \<Rightarrow> (AR_GUEST_OK, Some (stats (entries r ! i))))
      | _ \<Rightarrow> (AR_GUEST_ERR_INVALID, out_stats))"

section \<open>Sending\<close>

definition count_sent :: "route_entry \<Rightarrow> route_entry" where
  "count_sent e = e\<lparr>stats := (stats e)\<lparr>messages_sent := messages_sent (stats e) + 1\<rparr>\<rparr>"

text \<open>
  The part of a send behind the direct attempt: the message is put into the queue if there
  is room, and otherwise the flood policy decides. \<open>alloc\<close>: whether the payload could be copied.
\<close>

definition enqueue_or_drop ::
  "flood_policy \<Rightarrow> bool \<Rightarrow> u16 \<Rightarrow> u32 \<Rightarrow> u64 \<Rightarrow> bytes option \<Rightarrow> u32 \<Rightarrow> route_entry \<Rightarrow> guest_status \<times> route_entry" where
  "enqueue_or_drop flood alloc mtype flags request_id payloadp payload_length e =
     (if gq_count e < gq_capacity e then
        let q = \<lparr>qe_type = mtype, qe_flags = flags, qe_request = request_id, qe_length = payload_length, qe_payload = None\<rparr>
        in if 0 < payload_length \<and> payloadp \<noteq> None then
             if \<not> alloc
             then (AR_GUEST_ERR_NOMEM,
                   e\<lparr>gq_slots := (gq_slots e)[(gq_head e + gq_count e) mod gq_capacity e := q]\<rparr>)
             else (AR_GUEST_OK,
                   count_sent (gq_push e (q\<lparr>qe_payload := Some (take (unat payload_length) (the payloadp))\<rparr>)))
           else (AR_GUEST_OK, count_sent (gq_push e q))
      else
        let e = e\<lparr>stats := (stats e)\<lparr>messages_dropped := messages_dropped (stats e) + 1\<rparr>\<rparr>
        in (case flood of
              AR_GUEST_FLOOD_DISCONNECT \<Rightarrow> (AR_GUEST_ERR_CLOSED, e\<lparr>quarantined := True\<rparr>)
            | AR_GUEST_FLOOD_BACKPRESSURE \<Rightarrow> (AR_GUEST_ERR_BACKPRESSURE, e)
            | AR_GUEST_FLOOD_DROP \<Rightarrow> (AR_GUEST_ERR_WOULD_BLOCK, e)))"

definition send_entry ::
  "guest_identity \<Rightarrow> flood_policy \<Rightarrow> bool \<Rightarrow> u16 \<Rightarrow> u32 \<Rightarrow> u64 \<Rightarrow> bytes option \<Rightarrow> u32 \<Rightarrow> route_entry \<Rightarrow>
   guest_status \<times> route_entry" where
  "send_entry self flood alloc mtype flags request_id payloadp payload_length e =
     (if quarantined e then (AR_GUEST_ERR_CLOSED, e)
      else
        let e = (if 0 < gq_count e then snd (flush_entry_queue self e) else e)
        in if gq_count e = 0 then
             (case ar_guest_channel_send self (channel e) mtype flags request_id payloadp payload_length of
                (rc, ch) \<Rightarrow>
                  let e = e\<lparr>channel := ch\<rparr>
                  in if rc = AR_GUEST_OK then (AR_GUEST_OK, count_sent e)
                     else if rc = AR_GUEST_ERR_CLOSED then (AR_GUEST_ERR_CLOSED, e\<lparr>quarantined := True\<rparr>)
                     else if rc \<noteq> AR_GUEST_ERR_WOULD_BLOCK then (rc, e)
                     else enqueue_or_drop flood alloc mtype flags request_id payloadp payload_length e)
           else enqueue_or_drop flood alloc mtype flags request_id payloadp payload_length e)"

definition ar_guest_router_send ::
  "guest_identity \<Rightarrow> bool \<Rightarrow> guest_router option \<Rightarrow> bytes option \<Rightarrow> u16 \<Rightarrow> u32 \<Rightarrow> u64 \<Rightarrow> bytes option \<Rightarrow> u32 \<Rightarrow>
   guest_status \<times> guest_router option" where
  "ar_guest_router_send self alloc routerp namep mtype flags request_id payloadp payload_length =
     (case (routerp, namep) of
        (Some r, Some name) \<Rightarrow>
          (case find_entry routerp namep of
             None \<Rightarrow> (AR_GUEST_ERR_NOT_FOUND, routerp)
           | Some i \<Rightarrow>
               (case send_entry self (flood_policy_of (router_config_of r)) alloc mtype flags request_id payloadp
                       payload_length (entries r ! i) of
                  (rc, e) \<Rightarrow> (rc, Some (set_entry r i e))))
      | _ \<Rightarrow> (AR_GUEST_ERR_INVALID, routerp))"

text \<open>The broadcast loop; \<open>alloc i\<close> for the copy made for slot \<open>i\<close>.\<close>

definition broadcast_step ::
  "guest_identity \<Rightarrow> (nat \<Rightarrow> bool) \<Rightarrow> u16 \<Rightarrow> u32 \<Rightarrow> u64 \<Rightarrow> bytes option \<Rightarrow> u32 \<Rightarrow> nat \<Rightarrow>
   bool \<times> guest_router \<Rightarrow> bool \<times> guest_router" where
  "broadcast_step self alloc mtype flags request_id payloadp payload_length i = (\<lambda>(any_sent, r).
     if active (entries r ! i) \<and> \<not> quarantined (entries r ! i) then
       (case ar_guest_router_send self (alloc i) (Some r) (Some (c_str (app_id (entries r ! i)) 64)) mtype flags
               request_id payloadp payload_length of
          (rc, r') \<Rightarrow> (any_sent \<or> rc = AR_GUEST_OK, the r'))
     else (any_sent, r))"

definition ar_guest_router_broadcast ::
  "guest_identity \<Rightarrow> (nat \<Rightarrow> bool) \<Rightarrow> guest_router option \<Rightarrow> u16 \<Rightarrow> u32 \<Rightarrow> u64 \<Rightarrow> bytes option \<Rightarrow> u32 \<Rightarrow>
   guest_status \<times> guest_router option" where
  "ar_guest_router_broadcast self alloc routerp mtype flags request_id payloadp payload_length =
     (case routerp of
        None \<Rightarrow> (AR_GUEST_ERR_INVALID, None)
      | Some r \<Rightarrow>
          (case fold (broadcast_step self alloc mtype flags request_id payloadp payload_length)
                  [0..<max_guests (router_config_of r)] (False, r) of
             (any_sent, r') \<Rightarrow> (if any_sent then AR_GUEST_OK else AR_GUEST_ERR_NOT_FOUND, Some r')))"

definition ar_guest_router_flush ::
  "guest_identity \<Rightarrow> guest_router option \<Rightarrow> bytes option \<Rightarrow> guest_status \<times> guest_router option" where
  "ar_guest_router_flush self routerp namep =
     (case (routerp, namep) of
        (Some r, Some name) \<Rightarrow>
          (case find_entry routerp namep of
             None \<Rightarrow> (AR_GUEST_ERR_NOT_FOUND, routerp)
           | Some i \<Rightarrow>
               (case flush_entry_queue self (entries r ! i) of (rc, e) \<Rightarrow> (rc, Some (set_entry r i e))))
      | _ \<Rightarrow> (AR_GUEST_ERR_INVALID, routerp))"

section \<open>Dispatching\<close>

text \<open>The guests that are polled, and the answer of \<open>poll\<close> for each: error bits, \<open>POLLIN\<close>, \<open>POLLOUT\<close>.\<close>

record poll_events =
  ev_error :: bool
  ev_in :: bool
  ev_out :: bool

definition polled :: "guest_router \<Rightarrow> nat list" where
  "polled r =
     take AR_GUEST_ROUTER_MAX_GUESTS
       (filter (\<lambda>i. active (entries r ! i) \<and> \<not> quarantined (entries r ! i) \<and> channel (entries r ! i) \<noteq> None \<and>
                 0 \<le> ar_guest_channel_fd (channel (entries r ! i)))
         [0..<max_guests (router_config_of r)])"

type_synonym guest_handler = "guest_router \<Rightarrow> bytes \<Rightarrow> frame_header \<Rightarrow> bytes \<Rightarrow> guest_router"

text \<open>
  The loop that receives at most \<open>quota\<close> messages from slot \<open>i\<close>. The handler may call the
  router again: it maps the router it finds to the one it leaves.
\<close>

fun receive_loop :: "guest_handler option \<Rightarrow> nat \<Rightarrow> nat \<Rightarrow> nat \<times> guest_router \<Rightarrow> nat \<times> guest_router" where
  "receive_loop handler i 0 (processed, r) = (processed, r)"
| "receive_loop handler i (Suc quota) (processed, r) =
     (let e = entries r ! i
      in case ar_guest_channel_receive (channel e)
             (Some \<lparr>frame_type = 0, frame_flags = 0, frame_request = 0, frame_length = 0\<rparr>) (Some (zeros 65512)) 65512 of
        (rc, h, buf, ch) \<Rightarrow>
          let e = e\<lparr>channel := ch\<rparr>
          in if rc = AR_GUEST_OK then
               let e = e\<lparr>stats := (stats e)\<lparr>messages_received := messages_received (stats e) + 1\<rparr>\<rparr>;
                   r = set_entry r i e;
                   r = (case handler of None \<Rightarrow> r | Some f \<Rightarrow> f r (app_id e) (the h) (the buf))
               in receive_loop handler i quota (processed + 1, r)
             else if rc = AR_GUEST_ERR_CLOSED then (processed, set_entry r i (e\<lparr>quarantined := True\<rparr>))
             else if rc = AR_GUEST_ERR_AUTH
             then (processed, set_entry r i (e\<lparr>stats := (stats e)\<lparr>auth_failures := auth_failures (stats e) + 1\<rparr>\<rparr>))
             else if rc = AR_GUEST_ERR_PROTOCOL \<or> rc = AR_GUEST_ERR_LIMIT
             then (processed, set_entry r i (e\<lparr>stats := (stats e)\<lparr>protocol_errors := protocol_errors (stats e) + 1\<rparr>\<rparr>))
             else (processed, set_entry r i e))"

definition dispatch_step ::
  "guest_identity \<Rightarrow> guest_handler option \<Rightarrow> nat \<times> poll_events \<Rightarrow> nat \<times> guest_router \<Rightarrow> nat \<times> guest_router" where
  "dispatch_step self handler = (\<lambda>(i, ev) (processed, r).
     if ev_error ev \<and> \<not> ev_in ev
     then (processed, set_entry r i ((entries r ! i)\<lparr>quarantined := True\<rparr>))
     else
       let r = (if ev_out ev \<and> 0 < gq_count (entries r ! i)
                then set_entry r i (snd (flush_entry_queue self (entries r ! i))) else r)
       in if ev_in ev then receive_loop handler i 16 (processed, r) else (processed, r))"

text \<open>\<open>answer\<close>: the events \<open>poll\<close> reports for the polled guests, or nothing when it answers 0 or fails.\<close>

definition ar_guest_router_dispatch ::
  "guest_identity \<Rightarrow> guest_handler option \<Rightarrow> poll_events list option \<Rightarrow> guest_router option \<Rightarrow>
   (guest_status + nat) \<times> guest_router option" where
  "ar_guest_router_dispatch self handler answer routerp =
     (case routerp of
        None \<Rightarrow> (Inl AR_GUEST_ERR_INVALID, None)
      | Some r \<Rightarrow>
          if polled r = [] then (Inr 0, Some r)
          else (case answer of
             None \<Rightarrow> (Inr 0, Some r)
           | Some evs \<Rightarrow>
               (case fold (dispatch_step self handler) (zip (polled r) evs) (0, r) of
                  (processed, r') \<Rightarrow> (Inr processed, Some r'))))"

end
