(* ===== verification/GuestChannelSpec.thy ===== *)
theory GuestChannelSpec
  imports GuestChannel
begin

text \<open>
  What a guest channel guarantees: a frame that was sent is received unchanged by a peer that
  accepts the sender, a frame is handed out only if the kernel's credentials, the header and the
  length pass every check, and a refused frame is taken away without touching the caller's
  memory.
\<close>

section \<open>The frame on the wire\<close>

lemma length_wire_header [simp]: "length (ar_guest_wire_header m v h) = 24"
  by (simp add: ar_guest_wire_header_def)

lemma wire_header_fields [simp]:
  "header_magic (ar_guest_wire_header m v h @ xs) = m"
  "header_version (ar_guest_wire_header m v h @ xs) = v"
  "header_frame (ar_guest_wire_header m v h @ xs) = h"
  by (simp_all add: ar_guest_wire_header_def header_magic_def header_version_def header_frame_def)

lemma header_frame_take: "24 \<le> n \<Longrightarrow> header_frame (take n w) = header_frame w"
  by (simp add: header_frame_def drop_take min_def)

text \<open>The bytes one call of \<open>ar_guest_channel_send\<close> puts together.\<close>

definition guest_frame :: "u16 \<Rightarrow> u32 \<Rightarrow> u64 \<Rightarrow> bytes option \<Rightarrow> u32 \<Rightarrow> bytes" where
  "guest_frame mtype flags request_id payloadp n =
     ar_guest_wire_header AR_GUEST_WIRE_MAGIC AR_GUEST_WIRE_VERSION
       \<lparr>frame_type = mtype, frame_flags = flags, frame_request = request_id, frame_length = n\<rparr> @
     (if 0 < n then take (unat n) (the payloadp) else [])"

text \<open>The caller's buffer holds what the length says.\<close>

definition payload_holds :: "bytes option \<Rightarrow> u32 \<Rightarrow> bool" where
  "payload_holds payloadp n \<longleftrightarrow> (case payloadp of None \<Rightarrow> True | Some p \<Rightarrow> unat n \<le> length p)"

text \<open>What a channel accepts for sending.\<close>

definition sendable :: "guest_channel \<Rightarrow> u32 \<Rightarrow> bytes option \<Rightarrow> u32 \<Rightarrow> bool" where
  "sendable c flags payloadp n \<longleftrightarrow>
     0 \<le> chan_fd c \<and> (0 < n \<longrightarrow> payloadp \<noteq> None) \<and> flags AND NOT AR_GUEST_FLAGS_ALLOWED = 0 \<and>
     n \<le> chan_max_payload (chan_config c) \<and> n \<le> AR_GUEST_HARD_MAX_PAYLOAD_SIZE"

text \<open>A datagram as long as its header says; a truncated frame is not.\<close>

definition whole_frame :: "datagram \<Rightarrow> bool" where
  "whole_frame d \<longleftrightarrow>
     24 \<le> length (dg_data d) \<and> length (dg_data d) = 24 + unat (frame_length (header_frame (dg_data d)))"

definition frames_out :: "guest_channel \<Rightarrow> datagram list" where
  "frames_out c = filter whole_frame (sock_out (chan_sock c))"

lemma length_guest_frame:
  "payload_holds payloadp n \<Longrightarrow> (0 < n \<Longrightarrow> payloadp \<noteq> None) \<Longrightarrow>
    length (guest_frame t f q payloadp n) = 24 + unat n"
  by (cases "0 < n") (auto simp: guest_frame_def payload_holds_def word_greater_zero_iff)

lemma guest_frame_fields [simp]:
  "header_magic (guest_frame t f q pl n) = AR_GUEST_WIRE_MAGIC"
  "header_version (guest_frame t f q pl n) = AR_GUEST_WIRE_VERSION"
  "header_frame (guest_frame t f q pl n) =
     \<lparr>frame_type = t, frame_flags = f, frame_request = q, frame_length = n\<rparr>"
  by (simp_all add: guest_frame_def)

lemma drop_guest_frame [simp]:
  "drop 24 (guest_frame t f q pl n) = (if 0 < n then take (unat n) (the pl) else [])"
  by (simp add: guest_frame_def)

lemma whole_guest_frame:
  assumes "payload_holds pl n" and "0 < n \<Longrightarrow> pl \<noteq> None"
  shows "whole_frame \<lparr>dg_data = guest_frame t f q pl n, dg_creds = k\<rparr>"
  using length_guest_frame [OF assms] by (simp add: whole_frame_def)

lemma truncated_not_whole:
  assumes "m < 24 + unat n"
  shows "\<not> whole_frame \<lparr>dg_data = take m (guest_frame t f q pl n), dg_creds = k\<rparr>"
proof
  assume "whole_frame \<lparr>dg_data = take m (guest_frame t f q pl n), dg_creds = k\<rparr>"
  then have l: "24 \<le> length (take m (guest_frame t f q pl n))"
    and eq: "length (take m (guest_frame t f q pl n)) =
      24 + unat (frame_length (header_frame (take m (guest_frame t f q pl n))))"
    by (simp_all add: whole_frame_def)
  from l have "24 \<le> m" by simp
  with eq have "length (take m (guest_frame t f q pl n)) = 24 + unat n"
    by (simp add: header_frame_take)
  moreover have "length (take m (guest_frame t f q pl n)) \<le> m" by simp
  ultimately show False using assms by linarith
qed

section \<open>Sending\<close>

text \<open>A call of send keeps everything of a channel but its send and poll scripts and its output.\<close>

definition same_but_output :: "guest_channel \<Rightarrow> guest_channel \<Rightarrow> bool" where
  "same_but_output c c' \<longleftrightarrow>
     chan_fd c' = chan_fd c \<and> chan_peer c' = chan_peer c \<and> chan_config c' = chan_config c \<and>
     sock_in (chan_sock c') = sock_in (chan_sock c) \<and> sock_eof (chan_sock c') = sock_eof (chan_sock c) \<and>
     recv_script (chan_sock c') = recv_script (chan_sock c)"

lemma same_but_output_refl [simp]: "same_but_output c c"
  by (simp add: same_but_output_def)

lemma same_but_output_trans:
  "same_but_output a b \<Longrightarrow> same_but_output b c \<Longrightarrow> same_but_output a c"
  by (simp add: same_but_output_def)

lemma send_refused:
  assumes "\<not> sendable c flags pl n"
  shows "\<exists>e. ar_guest_channel_send self (Some c) t flags q pl n = (e, Some c) \<and>
    e \<in> {AR_GUEST_ERR_INVALID, AR_GUEST_ERR_LIMIT}"
  using assms by (auto simp: ar_guest_channel_send_def sendable_def not_le)

lemma send_attempts:
  assumes "sendable c flags pl n"
  shows "ar_guest_channel_send self (Some c) t flags q pl n =
    (case send_attempt self c (guest_frame t flags q pl n) (24 + unat n) of (st, c') \<Rightarrow> (st, Some c'))"
  using assms
  by (auto simp: ar_guest_channel_send_def sendable_def guest_frame_def Let_def not_less split: prod.split)

lemma attempt_outcome:
  assumes "send_attempt self c data total_expected = (st, c')"
  shows "same_but_output c c' \<and>
    (st = AR_GUEST_OK \<and> sock_out (chan_sock c') =
       sock_out (chan_sock c) @ [\<lparr>dg_data = take total_expected data, dg_creds = Some self\<rparr>] \<or>
     st = AR_GUEST_ERR_PROTOCOL \<and> (\<exists>m < total_expected. sock_out (chan_sock c') =
       sock_out (chan_sock c) @ [\<lparr>dg_data = take m data, dg_creds = Some self\<rparr>]) \<or>
     st \<notin> {AR_GUEST_OK, AR_GUEST_ERR_PROTOCOL} \<and> sock_out (chan_sock c') = sock_out (chan_sock c))"
proof -
  have "st = AR_GUEST_ERR_PROTOCOL \<Longrightarrow> ?thesis"
    using assms
    by (auto simp: send_attempt_def same_but_output_def Let_def min_def
        intro: le_neq_implies_less split: prod.splits poll_outcome.splits send_outcome.splits if_splits)
  moreover have "st \<noteq> AR_GUEST_ERR_PROTOCOL \<Longrightarrow> ?thesis"
    using assms
    by (auto simp: send_attempt_def same_but_output_def Let_def min_def
        split: prod.splits poll_outcome.splits send_outcome.splits if_splits)
  ultimately show ?thesis by blast
qed

text \<open>One send: success delivers exactly the frame, anything else delivers nothing.\<close>

lemma send_outcome:
  assumes "ar_guest_channel_send self (Some c) t flags q pl n = (st, ch)" and "payload_holds pl n"
  obtains c' where "ch = Some c'" and "same_but_output c c'"
    and "st = AR_GUEST_OK \<Longrightarrow> sendable c flags pl n"
    and "frames_out c' = frames_out c @
      (if st = AR_GUEST_OK then [\<lparr>dg_data = guest_frame t flags q pl n, dg_creds = Some self\<rparr>] else [])"
proof (cases "sendable c flags pl n")
  case False
  with assms(1) send_refused [OF False, of self t q] that show ?thesis by auto
next
  case True
  obtain c' where a: "send_attempt self c (guest_frame t flags q pl n) (24 + unat n) = (st, c')"
    and ch: "ch = Some c'"
    using assms(1) by (auto simp: send_attempts [OF True] split: prod.splits)
  have pl: "0 < n \<Longrightarrow> pl \<noteq> None" using True by (simp add: sendable_def)
  have all: "take (24 + unat n) (guest_frame t flags q pl n) = guest_frame t flags q pl n"
    using length_guest_frame [OF assms(2) pl] by simp
  show ?thesis
  proof (rule that [OF ch])
    show "frames_out c' = frames_out c @
        (if st = AR_GUEST_OK then [\<lparr>dg_data = guest_frame t flags q pl n, dg_creds = Some self\<rparr>] else [])"
      using attempt_outcome [OF a] whole_guest_frame [OF assms(2) pl]
      by (auto simp: frames_out_def all truncated_not_whole)
  qed (use attempt_outcome [OF a] True in auto)
qed

lemma send_success:
  assumes "ar_guest_channel_send self (Some c) t flags q pl n = (AR_GUEST_OK, Some c')" and "payload_holds pl n"
  shows "sendable c flags pl n \<and> sock_out (chan_sock c') =
    sock_out (chan_sock c) @ [\<lparr>dg_data = guest_frame t flags q pl n, dg_creds = Some self\<rparr>]"
proof -
  have ok: "sendable c flags pl n" using send_refused [of c flags pl n self t q] assms(1) by auto
  then have "send_attempt self c (guest_frame t flags q pl n) (24 + unat n) = (AR_GUEST_OK, c')"
    using assms(1) by (simp add: send_attempts split: prod.splits)
  from attempt_outcome [OF this] length_guest_frame [OF assms(2)] ok show ?thesis
    by (simp add: sendable_def)
qed

lemma send_succeeds:
  assumes "sendable c flags pl n" and "send_script (chan_sock c) = []"
    and "io_timeout_ms (chan_config c) \<le> 0"
  shows "\<exists>c'. ar_guest_channel_send self (Some c) t flags q pl n = (AR_GUEST_OK, Some c') \<and>
    chan_config c' = chan_config c \<and> chan_fd c' = chan_fd c \<and> send_script (chan_sock c') = []"
  using assms(2,3) by (auto simp: send_attempts [OF assms(1)] send_attempt_def Let_def)

section \<open>Receiving\<close>

text \<open>The credentials a channel takes frames from.\<close>

definition accepts_peer :: "guest_channel \<Rightarrow> guest_identity \<Rightarrow> bool" where
  "accepts_peer c cred \<longleftrightarrow>
     \<not> policy_violated (peer_policy (chan_config c)) cred \<and>
     (match_flags (peer_policy (chan_config c)) = 0 \<longrightarrow>
       peer_uid cred = peer_uid (chan_peer c) \<and> peer_pid cred = peer_pid (chan_peer c))"

lemma frame_accepted_iff:
  "frame_refused c d = None \<longleftrightarrow>
     whole_frame d \<and> (\<exists>cred. dg_creds d = Some cred \<and> accepts_peer c cred) \<and>
     header_magic (dg_data d) = AR_GUEST_WIRE_MAGIC \<and> header_version (dg_data d) = AR_GUEST_WIRE_VERSION \<and>
     frame_flags (header_frame (dg_data d)) AND NOT AR_GUEST_FLAGS_ALLOWED = 0 \<and>
     frame_length (header_frame (dg_data d)) \<le> chan_max_payload (chan_config c) \<and>
     frame_length (header_frame (dg_data d)) \<le> AR_GUEST_HARD_MAX_PAYLOAD_SIZE"
  by (cases "dg_creds d")
    (auto simp: frame_refused_def whole_frame_def accepts_peer_def Let_def not_less)

lemma frame_refused_sock [simp]: "frame_refused (c\<lparr>chan_sock := s\<rparr>) d = frame_refused c d"
  by (cases c) (simp only: frame_refused_def Let_def guest_channel.simps cong del: option.case_cong_weak if_weak_cong)

lemma receive_quiet:
  assumes "0 \<le> chan_fd c" and "poll_script (chan_sock c) = []" and "buf \<noteq> None"
  shows "ar_guest_channel_receive (Some c) (Some h) buf cap =
    (case receive_frame c h buf cap of (st, h', buf', c') \<Rightarrow> (st, Some h', buf', Some c'))"
proof -
  have "c\<lparr>chan_sock := (chan_sock c)\<lparr>poll_script := []\<rparr>\<rparr> = c"
    using assms(2) by (cases c; cases "chan_sock c") simp
  note keep = this
  show ?thesis using assms by (auto simp: ar_guest_channel_receive_def Let_def not_less keep)
qed

lemma receive_frame_accepted:
  assumes "recv_script (chan_sock c) = []" and "sock_in (chan_sock c) = d # ds"
    and "frame_refused c d = None" and "frame_length (header_frame (dg_data d)) \<le> cap"
  shows "receive_frame c h (Some buf) cap =
    (AR_GUEST_OK, header_frame (dg_data d),
     Some (drop 24 (dg_data d) @ drop (unat (frame_length (header_frame (dg_data d)))) buf),
     c\<lparr>chan_sock := (chan_sock c)\<lparr>sock_in := ds\<rparr>\<rparr>)"
proof -
  have same: "c\<lparr>chan_sock := (chan_sock c)\<lparr>recv_script := []\<rparr>\<rparr> = c"
    using assms(1) by (cases c; cases "chan_sock c") simp
  have whole: "whole_frame d" using assms(3) by (simp add: frame_accepted_iff)
  then have "length (dg_data d) = 24 + unat (frame_length (header_frame (dg_data d)))"
    and "dg_data d \<noteq> []"
    by (auto simp: whole_frame_def)
  moreover have "(chan_sock c)\<lparr>sock_in := ds, recv_script := []\<rparr> = (chan_sock c)\<lparr>sock_in := ds\<rparr>"
    using assms(1) by (cases "chan_sock c") simp
  ultimately show ?thesis using assms
    by (auto simp: receive_frame_def Let_def same memwrite_def word_greater_zero_iff)
qed

lemma receive_frame_refused:
  assumes "recv_script (chan_sock c) = []" and "sock_in (chan_sock c) = d # ds"
    and "dg_data d \<noteq> []" and "frame_refused c d = Some e"
  shows "receive_frame c h buf cap = (e, h, buf, c\<lparr>chan_sock := (chan_sock c)\<lparr>sock_in := ds\<rparr>\<rparr>)"
proof -
  have same: "c\<lparr>chan_sock := (chan_sock c)\<lparr>recv_script := []\<rparr>\<rparr> = c"
    using assms(1) by (cases c; cases "chan_sock c") simp
  show ?thesis using assms by (simp add: receive_frame_def Let_def same drain_datagram_def)
qed

text \<open>The three ways a receive ends, for every script.\<close>

lemma receive_frame_outcome:
  assumes "receive_frame c h buf cap = (st, h', buf', c')"
  shows "if st = AR_GUEST_OK then
      (\<exists>d ds. sock_in (chan_sock c) = d # ds \<and> sock_in (chan_sock c') = ds \<and> frame_refused c d = None \<and>
        h' = header_frame (dg_data d) \<and> frame_length h' \<le> cap \<and>
        buf' = (if 0 < frame_length h' then Some (memwrite (the buf) 0 (drop 24 (dg_data d))) else buf))
    else buf' = buf \<and>
      (if st = AR_GUEST_ERR_BUFFER_TOO_SMALL
       then (\<exists>d ds. sock_in (chan_sock c) = d # ds \<and> h' = header_frame (dg_data d)) \<and>
            sock_in (chan_sock c') = sock_in (chan_sock c)
       else h' = h \<and> (sock_in (chan_sock c') = sock_in (chan_sock c) \<or>
         (\<exists>d ds. sock_in (chan_sock c) = d # ds \<and> sock_in (chan_sock c') = ds \<and> frame_refused c d = Some st)))"
proof -
  have never: "frame_refused c d \<notin> {Some AR_GUEST_OK, Some AR_GUEST_ERR_BUFFER_TOO_SMALL}" for d
    by (simp add: frame_refused_def Let_def split: option.split)
  show ?thesis
    using assms never
    by (auto simp: receive_frame_def Let_def drain_datagram_def not_less
        split: prod.splits recv_outcome.splits list.splits option.splits if_splits)
qed

lemma receive_outcome:
  assumes "ar_guest_channel_receive (Some c) (Some h) buf cap = (st, h', buf', c')"
  shows "if st = AR_GUEST_OK then
      (\<exists>d ds c1. sock_in (chan_sock c) = d # ds \<and> c' = Some c1 \<and> sock_in (chan_sock c1) = ds \<and>
        frame_refused c d = None \<and>
        h' = Some (header_frame (dg_data d)) \<and> frame_length (header_frame (dg_data d)) \<le> cap \<and>
        buf' = (if 0 < frame_length (header_frame (dg_data d))
          then Some (memwrite (the buf) 0 (drop 24 (dg_data d))) else buf))
    else buf' = buf \<and> (\<exists>c1. c' = Some c1 \<and>
      (if st = AR_GUEST_ERR_BUFFER_TOO_SMALL
       then (\<exists>d ds. sock_in (chan_sock c) = d # ds \<and> h' = Some (header_frame (dg_data d))) \<and>
            sock_in (chan_sock c1) = sock_in (chan_sock c)
       else h' = Some h \<and> (sock_in (chan_sock c1) = sock_in (chan_sock c) \<or>
         (\<exists>d ds. sock_in (chan_sock c) = d # ds \<and> sock_in (chan_sock c1) = ds \<and> frame_refused c d = Some st))))"
proof -
  consider (early) c1 where "st \<noteq> AR_GUEST_OK" "st \<noteq> AR_GUEST_ERR_BUFFER_TOO_SMALL" "h' = Some h"
      "buf' = buf" "c' = Some c1" "sock_in (chan_sock c1) = sock_in (chan_sock c)"
    | (frame) c2 h1 c1 where "receive_frame c2 h buf cap = (st, h1, buf', c1)"
      "h' = Some h1" "c' = Some c1" "sock_in (chan_sock c2) = sock_in (chan_sock c)"
      "frame_refused c2 = frame_refused c"
    using assms
    by (auto simp: ar_guest_channel_receive_def Let_def fun_eq_iff
        split: prod.splits poll_outcome.splits if_splits)
  then show ?thesis
  proof cases
    case early
    then show ?thesis by simp
  next
    case frame
    from receive_frame_outcome [OF frame(1)] frame(2-5) show ?thesis
      by (cases "st = AR_GUEST_OK") (auto split: if_splits)
  qed
qed

text \<open>A receive keeps the descriptor and what was sent.\<close>

lemma receive_frame_keeps:
  "receive_frame c h buf cap = (st, h', buf', c') \<Longrightarrow>
    chan_fd c' = chan_fd c \<and> sock_out (chan_sock c') = sock_out (chan_sock c)"
  by (auto simp: receive_frame_def Let_def drain_datagram_def
      split: prod.splits recv_outcome.splits list.splits option.splits if_splits)

lemma receive_keeps:
  "ar_guest_channel_receive (Some c) (Some h) buf cap = (st, h', buf', ch) \<Longrightarrow>
    \<exists>c'. ch = Some c' \<and> chan_fd c' = chan_fd c \<and> sock_out (chan_sock c') = sock_out (chan_sock c)"
  by (auto simp: ar_guest_channel_receive_def Let_def dest: receive_frame_keeps
      split: prod.splits poll_outcome.splits if_splits)

section \<open>Properties\<close>

text \<open>
  A message that was sent arrives unchanged. When a send succeeds, the datagram it leaves,
  received by a channel whose policy accepts the sender and whose limit and buffer have room
  for it, is answered with the header of the call, its payload at the front of the buffer, and
  the datagram alone taken from the socket.
\<close>

theorem guest_message_arrives:
  assumes sent: "ar_guest_channel_send self (Some c) t flags q pl n = (AR_GUEST_OK, Some c')"
    and pl: "payload_holds pl n"
    and peer: "sock_in (chan_sock r) = last (sock_out (chan_sock c')) # ds" "0 \<le> chan_fd r" "accepts_peer r self"
    and quiet: "poll_script (chan_sock r) = []" "recv_script (chan_sock r) = []"
    and room: "n \<le> chan_max_payload (chan_config r)" "n \<le> cap"
  shows "ar_guest_channel_receive (Some r) (Some h) (Some buf) cap =
    (AR_GUEST_OK, Some \<lparr>frame_type = t, frame_flags = flags, frame_request = q, frame_length = n\<rparr>,
     Some ((if 0 < n then take (unat n) (the pl) else []) @ drop (unat n) buf),
     Some (r\<lparr>chan_sock := (chan_sock r)\<lparr>sock_in := ds\<rparr>\<rparr>))"
proof -
  let ?d = "\<lparr>dg_data = guest_frame t flags q pl n, dg_creds = Some self\<rparr>"
  have ok: "sendable c flags pl n" and out: "last (sock_out (chan_sock c')) = ?d"
    using send_success [OF sent pl] by auto
  then have "frame_refused r ?d = None"
    using peer(3) room(1) whole_guest_frame [OF pl] by (simp add: frame_accepted_iff sendable_def)
  then have "receive_frame r h (Some buf) cap = (AR_GUEST_OK, header_frame (dg_data ?d),
     Some (drop 24 (dg_data ?d) @ drop (unat (frame_length (header_frame (dg_data ?d)))) buf),
     r\<lparr>chan_sock := (chan_sock r)\<lparr>sock_in := ds\<rparr>\<rparr>)"
    using peer(1) quiet(2) room(2) unfolding out by (intro receive_frame_accepted) simp_all
  then show ?thesis using receive_quiet [OF peer(2) quiet(1), of "Some buf" h cap] by simp
qed

text \<open>Two processes on the two ends of a socket pair.\<close>

definition host_identity :: guest_identity where
  "host_identity = \<lparr>peer_pid = 100, peer_uid = 0, peer_gid = 0\<rparr>"

definition idle_socket :: guest_socket where
  "idle_socket = \<lparr>sock_out = [], sock_in = [], sock_eof = False, send_script = [], recv_script = [], poll_script = []\<rparr>"

definition guest_end :: "datagram list \<Rightarrow> guest_channel" where
  "guest_end ds =
     \<lparr>chan_fd = 4, chan_peer = host_identity,
      chan_config = \<lparr>chan_max_payload = 16, io_timeout_ms = 1000,
        peer_policy = \<lparr>match_flags = 0, expected = host_identity\<rparr>\<rparr>,
      chan_sock = idle_socket\<lparr>sock_in := ds\<rparr>\<rparr>"

theorem guest_message_arrives_witness:
  "ar_guest_channel_receive (Some (guest_end [\<lparr>dg_data = guest_frame 7 1 42 (Some [1, 2, 3]) 3,
       dg_creds = Some host_identity\<rparr>]))
     (Some \<lparr>frame_type = 0, frame_flags = 0, frame_request = 0, frame_length = 0\<rparr>) (Some [9, 9, 9, 9]) 4 =
   (AR_GUEST_OK, Some \<lparr>frame_type = 7, frame_flags = 1, frame_request = 42, frame_length = 3\<rparr>,
    Some [1, 2, 3, 9], Some (guest_end []))"
proof -
  let ?c = "guest_end []"
  let ?d = "\<lparr>dg_data = guest_frame 7 1 42 (Some [1, 2, 3]) 3, dg_creds = Some host_identity\<rparr>"
  have "sendable ?c 1 (Some [1, 2, 3]) 3"
    by (simp add: sendable_def guest_end_def AR_GUEST_FLAGS_ALLOWED_def AR_GUEST_HARD_MAX_PAYLOAD_SIZE_def)
  then have sent: "ar_guest_channel_send host_identity (Some ?c) 7 1 42 (Some [1, 2, 3]) 3 =
      (AR_GUEST_OK, Some (?c\<lparr>chan_sock := idle_socket\<lparr>sock_out := [?d]\<rparr>\<rparr>))"
    by (simp add: send_attempts send_attempt_def guest_end_def idle_socket_def length_guest_frame payload_holds_def)
  show ?thesis
    by (rule trans [OF guest_message_arrives [OF sent, where r = "guest_end [?d]" and ds = "[]" and
            cap = 4 and buf = "[9, 9, 9, 9]"]])
      (simp_all add: payload_holds_def guest_end_def idle_socket_def accepts_peer_def policy_violated_def)
qed

text \<open>
  C37: Only authentic, well-formed frames are handed out. A receive that answers success has taken
  exactly the first datagram, which carried kernel credentials the channel accepts, the magic
  and the version, no unknown flag, and exactly the number of payload bytes it announces, within
  the limits of the channel and the caller. Any other answer leaves the caller's buffer alone,
  and takes a datagram away only if the answer names what was wrong with it.
\<close>

theorem guest_receive_authentic:
  assumes "ar_guest_channel_receive (Some c) (Some h) buf cap = (st, h', buf', Some c')"
  shows "if st = AR_GUEST_OK then
      (\<exists>d ds cred. sock_in (chan_sock c) = d # ds \<and> sock_in (chan_sock c') = ds \<and>
        dg_creds d = Some cred \<and> accepts_peer c cred \<and>
        header_magic (dg_data d) = AR_GUEST_WIRE_MAGIC \<and> header_version (dg_data d) = AR_GUEST_WIRE_VERSION \<and>
        h' = Some (header_frame (dg_data d)) \<and>
        frame_flags (header_frame (dg_data d)) AND NOT AR_GUEST_FLAGS_ALLOWED = 0 \<and>
        frame_length (header_frame (dg_data d)) \<le> min cap (chan_max_payload (chan_config c)) \<and>
        length (drop 24 (dg_data d)) = unat (frame_length (header_frame (dg_data d))) \<and>
        buf' = (if drop 24 (dg_data d) = [] then buf else Some (memwrite (the buf) 0 (drop 24 (dg_data d)))))
    else buf' = buf \<and>
      (sock_in (chan_sock c') \<noteq> sock_in (chan_sock c) \<longrightarrow>
        (\<exists>d. sock_in (chan_sock c) = d # sock_in (chan_sock c') \<and> frame_refused c d = Some st))"
proof (cases "st = AR_GUEST_OK")
  case True
  from receive_outcome [OF assms] True obtain d ds where
    d: "sock_in (chan_sock c) = d # ds" "sock_in (chan_sock c') = ds" "frame_refused c d = None"
      "h' = Some (header_frame (dg_data d))" "frame_length (header_frame (dg_data d)) \<le> cap"
      "buf' = (if 0 < frame_length (header_frame (dg_data d))
          then Some (memwrite (the buf) 0 (drop 24 (dg_data d))) else buf)"
    by auto
  from d(3) obtain cred where "dg_creds d = Some cred" "accepts_peer c cred" "whole_frame d"
    by (auto simp: frame_accepted_iff)
  moreover from this have "length (drop 24 (dg_data d)) = unat (frame_length (header_frame (dg_data d)))"
    by (simp add: whole_frame_def)
  moreover from this have "drop 24 (dg_data d) = [] \<longleftrightarrow> \<not> 0 < frame_length (header_frame (dg_data d))"
    by (metis length_0_conv unat_eq_zero word_neq_0_conv)
  ultimately show ?thesis using True d by (auto simp: frame_accepted_iff)
next
  case False
  then show ?thesis using receive_outcome [OF assms] by (auto split: if_splits)
qed

theorem guest_receive_authentic_witness:
  "case ar_guest_channel_receive (Some (guest_end [\<lparr>dg_data = guest_frame 7 1 42 None 0, dg_creds = Some host_identity\<rparr>]))
       (Some \<lparr>frame_type = 0, frame_flags = 0, frame_request = 0, frame_length = 0\<rparr>) (Some []) 0 of
     (st, h, buf, c') \<Rightarrow> st = AR_GUEST_OK \<and> c' \<noteq> None \<and> sock_in (chan_sock (the c')) = []"
proof -
  let ?d = "\<lparr>dg_data = guest_frame 7 1 42 None 0, dg_creds = Some host_identity\<rparr>"
  let ?h = "\<lparr>frame_type = 0, frame_flags = 0, frame_request = 0, frame_length = 0\<rparr>"
  have "frame_refused (guest_end [?d]) ?d = None"
    by (simp add: frame_accepted_iff whole_guest_frame payload_holds_def guest_end_def accepts_peer_def
        policy_violated_def AR_GUEST_FLAGS_ALLOWED_def)
  then have "ar_guest_channel_receive (Some (guest_end [?d])) (Some ?h) (Some []) 0 =
      (AR_GUEST_OK, Some (header_frame (dg_data ?d)), Some [], Some (guest_end []))"
    using receive_frame_accepted [of "guest_end [?d]" ?d "[]" 0 ?h "[]"] receive_quiet [of "guest_end [?d]" "Some []" ?h 0]
    by (simp add: guest_end_def idle_socket_def)
  with guest_receive_authentic [OF this] show ?thesis by (auto simp: guest_end_def idle_socket_def)
qed

text \<open>
  A frame that fails a check does not block the channel. The receive call answers the error
  of the first failed check (too short, no or foreign credentials, wrong magic or version,
  unknown flag, too long, wrong length), leaves the caller's header and buffer alone and removes
  the datagram, so that the next call sees the next one.
\<close>

theorem guest_refused_frame_removed:
  assumes "sock_in (chan_sock c) = d # ds" and "dg_data d \<noteq> []" and "frame_refused c d = Some e"
    and "0 \<le> chan_fd c" and "poll_script (chan_sock c) = []" and "recv_script (chan_sock c) = []"
  shows "ar_guest_channel_receive (Some c) (Some h) (Some buf) cap =
    (e, Some h, Some buf, Some (c\<lparr>chan_sock := (chan_sock c)\<lparr>sock_in := ds\<rparr>\<rparr>)) \<and>
    e \<in> {AR_GUEST_ERR_AUTH, AR_GUEST_ERR_PROTOCOL, AR_GUEST_ERR_LIMIT} \<and>
    (whole_frame d \<and> \<not> (\<exists>cred. dg_creds d = Some cred \<and> accepts_peer c cred) \<longrightarrow> e = AR_GUEST_ERR_AUTH)"
proof (intro conjI impI)
  show "ar_guest_channel_receive (Some c) (Some h) (Some buf) cap =
      (e, Some h, Some buf, Some (c\<lparr>chan_sock := (chan_sock c)\<lparr>sock_in := ds\<rparr>\<rparr>))"
    using receive_frame_refused [OF assms(6,1,2,3)] receive_quiet [OF assms(4,5)] by simp
  show "e \<in> {AR_GUEST_ERR_AUTH, AR_GUEST_ERR_PROTOCOL, AR_GUEST_ERR_LIMIT}"
    using assms(3) by (auto simp: frame_refused_def Let_def split: option.splits if_splits)
  show "e = AR_GUEST_ERR_AUTH"
    if "whole_frame d \<and> \<not> (\<exists>cred. dg_creds d = Some cred \<and> accepts_peer c cred)"
    using assms(3) that
    by (auto simp: frame_refused_def Let_def whole_frame_def accepts_peer_def split: option.splits if_splits)
qed

theorem guest_refused_frame_removed_witness:
  "let forged = \<lparr>dg_data = guest_frame 7 1 42 None 0, dg_creds = Some \<lparr>peer_pid = 666, peer_uid = 0, peer_gid = 0\<rparr>\<rparr>;
       h = \<lparr>frame_type = 0, frame_flags = 0, frame_request = 0, frame_length = 0\<rparr>
   in ar_guest_channel_receive (Some (guest_end [forged])) (Some h) (Some []) 0 =
      (AR_GUEST_ERR_AUTH, Some h, Some [], Some (guest_end []))"
proof -
  let ?d = "\<lparr>dg_data = guest_frame 7 1 42 None 0, dg_creds = Some \<lparr>peer_pid = 666, peer_uid = 0, peer_gid = 0\<rparr>\<rparr>"
  have e: "frame_refused (guest_end [?d]) ?d = Some AR_GUEST_ERR_AUTH"
    by (simp add: frame_refused_def guest_frame_def guest_end_def policy_violated_def host_identity_def)
  show ?thesis
    using guest_refused_frame_removed [of "guest_end [?d]" ?d "[]", OF _ _ e]
    by (simp add: guest_end_def idle_socket_def guest_frame_def ar_guest_wire_header_def store_u32_be_def)
qed

text \<open>A policy whose only bits are unknown ones switches the check of the sender off.\<close>

lemma unknown_match_flags_accept_all:
  assumes "match_flags (peer_policy (chan_config c)) = 8"
  shows "accepts_peer c cred"
  using assms
  by (simp add: accepts_peer_def policy_violated_def AR_GUEST_MATCH_PID_def AR_GUEST_MATCH_UID_def
      AR_GUEST_MATCH_GID_def)

end
