(* ===== verification/GuestRouterSpec.thy ===== *)
theory GuestRouterSpec
  imports GuestRouter GuestChannelSpec "HOL-Library.Sublist"
begin

text \<open>
  What the guest router guarantees. The queue of a guest is a second instance of the bounded FIFO
  contract; what a guest has been and will be given grows by exactly the messages the router
  accepted, in that order; the table stays consistent under every operation, the ones a message
  handler issues from inside \<open>dispatch\<close> included; and a message the channel can never send,
  accepted into the queue, blocks its guest for ever.
\<close>

section \<open>The queue implements the FIFO contract\<close>

definition gq_wf :: "route_entry \<Rightarrow> bool" where
  "gq_wf e \<longleftrightarrow>
     0 < gq_capacity e \<and> length (gq_slots e) = gq_capacity e \<and>
     gq_head e < gq_capacity e \<and> gq_count e \<le> gq_capacity e"

definition gq_contents :: "route_entry \<Rightarrow> queue_entry list" where
  "gq_contents e = ring_list (gq_slots e) (gq_head e) (gq_count e)"

lemma length_gq_contents [simp]: "length (gq_contents e) = gq_count e"
  by (simp add: gq_contents_def)

lemma gq_contents_empty: "gq_contents e = [] \<longleftrightarrow> gq_count e = 0"
  by (metis length_0_conv length_gq_contents)

lemma gq_contents_Nil [simp]: "gq_count e = 0 \<Longrightarrow> gq_contents e = []"
  by (simp add: gq_contents_empty)

lemma gq_contents_push:
  "gq_wf e \<Longrightarrow> gq_count e < gq_capacity e \<Longrightarrow> gq_contents (gq_push e q) = gq_contents e @ [q]"
  using ring_list_append [of "gq_count e" "gq_slots e" "gq_head e" q]
  by (simp add: gq_contents_def gq_push_def gq_wf_def Let_def)

lemma gq_contents_Cons:
  assumes "gq_wf e" and "0 < gq_count e"
  shows "gq_contents e = gq_slots e ! gq_head e # gq_contents (gq_pop e)"
proof -
  obtain n where n: "gq_count e = Suc n" using assms(2) by (cases "gq_count e") auto
  then show ?thesis
    using assms ring_list_clear_head [of "gq_head e" "gq_slots e" n]
    by (auto simp: gq_contents_def gq_pop_def gq_wf_def ring_list_Suc)
qed

interpretation guest_queue: bounded_fifo gq_contents gq_capacity gq_wf gq_push gq_pop
proof unfold_locales
  fix e :: route_entry and q
  assume wf: "gq_wf e"
  show "length (gq_contents e) \<le> gq_capacity e" and "0 < gq_capacity e"
    using wf by (simp_all add: gq_wf_def)
  show "gq_contents (gq_push e q) = gq_contents e @ [q]" if "length (gq_contents e) < gq_capacity e"
    using wf that by (simp add: gq_contents_push)
  show "gq_wf (gq_push e q)" if "length (gq_contents e) < gq_capacity e"
    using wf that by (simp add: gq_wf_def gq_push_def Let_def)
  assume ne: "gq_contents e \<noteq> []"
  then show "gq_contents (gq_pop e) = tl (gq_contents e)"
    using wf by (simp add: gq_contents_Cons gq_contents_empty)
  show "gq_wf (gq_pop e)" using wf by (auto simp: gq_wf_def gq_pop_def)
qed (simp_all add: gq_push_def gq_pop_def Let_def)

text \<open>The slot behind the last message is not part of the content.\<close>

lemma gq_contents_free_slot:
  assumes "gq_wf e" and "gq_count e < gq_capacity e"
  shows "gq_contents (e\<lparr>gq_slots := (gq_slots e)[(gq_head e + gq_count e) mod gq_capacity e := q]\<rparr>) = gq_contents e"
proof -
  have "ring_list ((gq_slots e)[(gq_head e + gq_count e) mod gq_capacity e := q]) (gq_head e) (Suc (gq_count e)) =
      gq_contents e @ [q]"
    using assms gq_contents_push [OF assms, of q] by (simp add: gq_contents_def gq_push_def Let_def)
  then show ?thesis by (simp add: gq_contents_def ring_list_def)
qed

section \<open>What a guest is given\<close>

definition queue_frame :: "guest_identity \<Rightarrow> queue_entry \<Rightarrow> datagram" where
  "queue_frame self q =
     \<lparr>dg_data = guest_frame (qe_type q) (qe_flags q) (qe_request q) (qe_payload q) (qe_length q), dg_creds = Some self\<rparr>"

text \<open>The frames the socket has taken and, behind them, the frames of the queued messages.\<close>

definition outbound :: "guest_identity \<Rightarrow> route_entry \<Rightarrow> datagram list" where
  "outbound self e =
     (case channel e of None \<Rightarrow> [] | Some c \<Rightarrow> frames_out c) @ map (queue_frame self) (gq_contents e)"

definition entry_ok :: "route_entry \<Rightarrow> bool" where
  "entry_ok e \<longleftrightarrow>
     (\<exists>c. channel e = Some c \<and> 0 \<le> chan_fd c) \<and> gq_wf e \<and>
     (\<forall>q \<in> set (gq_contents e). payload_holds (qe_payload q) (qe_length q))"

text \<open>What sending never changes of an entry.\<close>

definition same_guest :: "route_entry \<Rightarrow> route_entry \<Rightarrow> bool" where
  "same_guest e e' \<longleftrightarrow>
     app_id e' = app_id e \<and> active e' = active e \<and> route_policy e' = route_policy e \<and> gq_capacity e' = gq_capacity e"

lemma same_guest_refl [simp]: "same_guest e e"
  by (simp add: same_guest_def)

lemma same_guest_trans: "same_guest a b \<Longrightarrow> same_guest b c \<Longrightarrow> same_guest a c"
  by (simp add: same_guest_def)

lemma entry_ok_cong:
  assumes "entry_ok e" and "gq_slots e' = gq_slots e" and "gq_capacity e' = gq_capacity e"
    and "gq_head e' = gq_head e" and "gq_count e' = gq_count e"
    and "channel e' = Some c" and "0 \<le> chan_fd c"
  shows "entry_ok e'"
  using assms by (simp add: entry_ok_def gq_wf_def gq_contents_def)

text \<open>One send on the channel of an entry.\<close>

lemma entry_channel_send:
  assumes "entry_ok e" and "payload_holds pl n"
    and "ar_guest_channel_send self (channel e) t flags q pl n = (rc, ch)"
  shows "entry_ok (e\<lparr>channel := ch\<rparr>)"
    and "outbound self (e\<lparr>channel := ch\<rparr>) =
      (case channel e of None \<Rightarrow> [] | Some c \<Rightarrow> frames_out c) @
      (if rc = AR_GUEST_OK then [\<lparr>dg_data = guest_frame t flags q pl n, dg_creds = Some self\<rparr>] else []) @
      map (queue_frame self) (gq_contents e)"
proof -
  obtain c where c: "channel e = Some c" "0 \<le> chan_fd c" using assms(1) by (auto simp: entry_ok_def)
  obtain c' where c': "ch = Some c'" "same_but_output c c'"
    "frames_out c' = frames_out c @
      (if rc = AR_GUEST_OK then [\<lparr>dg_data = guest_frame t flags q pl n, dg_creds = Some self\<rparr>] else [])"
    using assms(3) c(1) by (auto elim: send_outcome [OF _ assms(2)])
  then show "entry_ok (e\<lparr>channel := ch\<rparr>)"
    using c by (intro entry_ok_cong [OF assms(1), where c = c']) (auto simp: same_but_output_def)
  show "outbound self (e\<lparr>channel := ch\<rparr>) =
      (case channel e of None \<Rightarrow> [] | Some c \<Rightarrow> frames_out c) @
      (if rc = AR_GUEST_OK then [\<lparr>dg_data = guest_frame t flags q pl n, dg_creds = Some self\<rparr>] else []) @
      map (queue_frame self) (gq_contents e)"
    using c c' by (simp add: outbound_def gq_contents_def)
qed

lemma flush_loop_outcome:
  assumes "entry_ok e" and "flush_loop self (gq_count e) e = (rc, e')"
  shows "entry_ok e' \<and> outbound self e' = outbound self e \<and> same_guest e e' \<and> stats e' = stats e \<and>
    quarantined e' = quarantined e \<and> (rc = AR_GUEST_OK \<longleftrightarrow> gq_count e' = 0) \<and>
    suffix (gq_contents e') (gq_contents e)"
  using assms
proof (induction "gq_count e" arbitrary: e rule: nat.induct)
  case zero
  from zero(1) [symmetric] zero(3) have "rc = AR_GUEST_OK \<and> e' = e" by simp
  then show ?case using zero by simp
next
  case (Suc n)
  let ?q = "gq_slots e ! gq_head e"
  have wf: "gq_wf e" and pos: "0 < gq_count e" using Suc by (simp_all add: entry_ok_def)
  note cons = gq_contents_Cons [OF wf pos]
  have pl: "payload_holds (qe_payload ?q) (qe_length ?q)"
    using Suc.prems(1) cons by (simp add: entry_ok_def)
  obtain st ch where s: "ar_guest_channel_send self (channel e) (qe_type ?q) (qe_flags ?q) (qe_request ?q)
      (qe_payload ?q) (qe_length ?q) = (st, ch)" by (metis surj_pair)
  let ?e1 = "e\<lparr>channel := ch\<rparr>"
  note one = entry_channel_send [OF Suc.prems(1) pl s]
  show ?case
  proof (cases "st = AR_GUEST_OK")
    case True
    let ?e2 = "gq_pop ?e1"
    have c2: "gq_contents ?e2 = gq_contents (gq_pop e)" by (simp add: gq_contents_def gq_pop_def)
    obtain c where c: "ch = Some c" "0 \<le> chan_fd c" using one(1) by (auto simp: entry_ok_def)
    have wf2: "gq_wf ?e2" using wf by (auto simp: gq_wf_def gq_pop_def)
    have ch2: "channel ?e2 = ch" by (simp add: gq_pop_def)
    have ok2: "entry_ok ?e2" using wf2 c ch2 c2 cons Suc.prems(1) by (simp add: entry_ok_def)
    have "outbound self ?e2 = (case ch of None \<Rightarrow> [] | Some c \<Rightarrow> frames_out c) @ map (queue_frame self) (gq_contents (gq_pop e))"
      by (simp add: outbound_def ch2 c2)
    moreover have "outbound self e = (case channel e of None \<Rightarrow> [] | Some c \<Rightarrow> frames_out c) @
        queue_frame self ?q # map (queue_frame self) (gq_contents (gq_pop e))"
      by (simp add: outbound_def cons)
    moreover have "(case ch of None \<Rightarrow> [] | Some c \<Rightarrow> frames_out c) =
        (case channel e of None \<Rightarrow> [] | Some c \<Rightarrow> frames_out c) @ [queue_frame self ?q]"
      using one(2) True by (simp add: outbound_def gq_contents_def queue_frame_def)
    ultimately have out2: "outbound self ?e2 = outbound self e" by simp
    have n: "n = gq_count ?e2" using Suc.hyps(2) by (simp add: gq_pop_def)
    have "flush_loop self (gq_count ?e2) ?e2 = (rc, e')"
      using Suc.prems(2) s True n Suc.hyps(2) [symmetric] by simp
    note ih = Suc.hyps(1) [OF n ok2 this]
    have "same_guest e ?e2" "stats ?e2 = stats e" "quarantined ?e2 = quarantined e"
      by (simp_all add: same_guest_def gq_pop_def)
    then show ?thesis using ih out2 c2 cons by (auto intro: same_guest_trans suffix_ConsI)
  next
    case False
    have "rc = st" and "e' = ?e1" using Suc.prems(2) s False Suc.hyps(2) [symmetric] by simp_all
    then show ?thesis using False one pos
      by (simp add: outbound_def same_guest_def gq_contents_def)
  qed
qed

section \<open>One send\<close>

lemma guest_frame_copied:
  "guest_frame t f q (Some (take (unat n) p)) n = guest_frame t f q (Some p) n"
  by (simp add: guest_frame_def)

lemma guest_frame_no_payload: "\<not> 0 < n \<Longrightarrow> guest_frame t f q pl n = guest_frame t f q None n"
  by (simp add: guest_frame_def)

lemma push_outbound:
  assumes "entry_ok e" and "gq_count e < gq_capacity e" and "payload_holds (qe_payload m) (qe_length m)"
  shows "entry_ok (count_sent (gq_push e m))"
    and "outbound self (count_sent (gq_push e m)) = outbound self e @ [queue_frame self m]"
proof -
  have wf: "gq_wf e" using assms(1) by (simp add: entry_ok_def)
  have g: "gq_contents (count_sent (gq_push e m)) = gq_contents (gq_push e m)"
    "gq_wf (count_sent (gq_push e m)) = gq_wf (gq_push e m)"
    "channel (count_sent (gq_push e m)) = channel e"
    by (simp_all add: count_sent_def gq_contents_def gq_wf_def gq_push_def Let_def)
  note push = gq_contents_push [OF wf assms(2)] guest_queue.wf_push [OF wf]
  show "entry_ok (count_sent (gq_push e m))"
    using assms push by (auto simp: entry_ok_def g)
  show "outbound self (count_sent (gq_push e m)) = outbound self e @ [queue_frame self m]"
    by (simp add: outbound_def g push)
qed

text \<open>A message that is put aside is appended, and one that is dropped changes nothing.\<close>

lemma enqueue_outcome:
  assumes "entry_ok e" and "payload_holds pl n"
    and "enqueue_or_drop flood alloc t f q pl n e = (rc, e')"
  shows "entry_ok e' \<and> same_guest e e' \<and> outbound self e' = outbound self e @
    (if rc = AR_GUEST_OK then [\<lparr>dg_data = guest_frame t f q pl n, dg_creds = Some self\<rparr>] else [])"
proof (cases "gq_count e < gq_capacity e")
  case False
  have "entry_ok e' \<and> outbound self e' = outbound self e"
    if "channel e' = channel e" "gq_slots e' = gq_slots e" "gq_capacity e' = gq_capacity e"
      "gq_head e' = gq_head e" "gq_count e' = gq_count e"
    using that assms(1) by (auto simp: entry_ok_def gq_wf_def outbound_def gq_contents_def)
  then show ?thesis using False assms(3)
    by (auto simp: enqueue_or_drop_def Let_def same_guest_def split: flood_policy.splits)
next
  case room: True
  have wf: "gq_wf e" using assms(1) by (simp add: entry_ok_def)
  let ?m = "\<lambda>p. \<lparr>qe_type = t, qe_flags = f, qe_request = q, qe_length = n, qe_payload = p\<rparr>"
  have same: "same_guest e (count_sent (gq_push e m))" for m
    by (simp add: same_guest_def count_sent_def gq_push_def Let_def)
  consider (nomem) "rc = AR_GUEST_ERR_NOMEM"
      "e' = e\<lparr>gq_slots := (gq_slots e)[(gq_head e + gq_count e) mod gq_capacity e := ?m None]\<rparr>"
    | (copy) p where "pl = Some p" "rc = AR_GUEST_OK" "e' = count_sent (gq_push e (?m (Some (take (unat n) p))))"
    | (plain) "\<not> 0 < n \<or> pl = None" "rc = AR_GUEST_OK" "e' = count_sent (gq_push e (?m None))"
    using assms(3) room by (auto simp: enqueue_or_drop_def Let_def split: if_splits)
  then show ?thesis
  proof cases
    case nomem
    have c: "gq_contents e' = gq_contents e" unfolding nomem(2) by (rule gq_contents_free_slot [OF wf room])
    then have "entry_ok e'" using assms(1) nomem(2) by (auto simp: entry_ok_def gq_wf_def)
    moreover have "outbound self e' = outbound self e" using c nomem(2) by (simp add: outbound_def)
    ultimately show ?thesis using nomem by (simp add: same_guest_def)
  next
    case copy
    have "payload_holds (Some (take (unat n) p)) n" using assms(2) copy(1) by (simp add: payload_holds_def)
    from push_outbound [where m = "?m (Some (take (unat n) p))", OF assms(1) room] this show ?thesis
      using copy same by (simp add: queue_frame_def guest_frame_copied)
  next
    case plain
    have "queue_frame self (?m None) = \<lparr>dg_data = guest_frame t f q pl n, dg_creds = Some self\<rparr>"
      using plain(1) guest_frame_no_payload [of n t f q pl] by (auto simp: queue_frame_def)
    with push_outbound [where m = "?m None", OF assms(1) room] show ?thesis
      using plain same by (simp add: payload_holds_def)
  qed
qed

lemma send_entry_outcome:
  assumes "entry_ok e" and "payload_holds pl n"
    and "send_entry self flood alloc t f q pl n e = (rc, e')"
  shows "entry_ok e' \<and> same_guest e e' \<and> outbound self e' = outbound self e @
    (if rc = AR_GUEST_OK then [\<lparr>dg_data = guest_frame t f q pl n, dg_creds = Some self\<rparr>] else [])"
proof (cases "quarantined e")
  case True
  then show ?thesis using assms by (simp add: send_entry_def)
next
  case False
  define e1 where "e1 = (if 0 < gq_count e then snd (flush_entry_queue self e) else e)"
  obtain st1 ef where ef: "flush_loop self (gq_count e) e = (st1, ef)" by (metis surj_pair)
  then have "e1 = (if 0 < gq_count e then ef else e)" by (simp add: e1_def flush_entry_queue_def)
  then have e1: "entry_ok e1" "outbound self e1 = outbound self e" "same_guest e e1"
    using flush_loop_outcome [OF assms(1) ef] assms(1) by simp_all
  show ?thesis
  proof (cases "gq_count e1 = 0")
    case False
    then have "enqueue_or_drop flood alloc t f q pl n e1 = (rc, e')"
      using assms(3) \<open>\<not> quarantined e\<close> by (simp add: send_entry_def Let_def flip: e1_def)
    from enqueue_outcome [OF e1(1) assms(2) this, of self] e1 show ?thesis
      by (auto intro: same_guest_trans)
  next
    case True
    obtain st ch where s: "ar_guest_channel_send self (channel e1) t f q pl n = (st, ch)" by (metis surj_pair)
    let ?e2 = "e1\<lparr>channel := ch\<rparr>"
    note one = entry_channel_send [OF e1(1) assms(2) s]
    have empty: "gq_contents e1 = []" using True by simp
    have out: "outbound self ?e2 = outbound self e @
        (if st = AR_GUEST_OK then [\<lparr>dg_data = guest_frame t f q pl n, dg_creds = Some self\<rparr>] else [])"
      unfolding one(2) e1(2) [symmetric] by (simp add: outbound_def empty)
    have keep: "entry_ok e'' \<and> outbound self e'' = outbound self ?e2 \<and> same_guest e e''"
      if "e'' = count_sent ?e2 \<or> e'' = ?e2\<lparr>quarantined := True\<rparr> \<or> e'' = ?e2" for e''
      using that one(1) e1(3)
      by (auto simp: count_sent_def entry_ok_def gq_wf_def outbound_def gq_contents_def same_guest_def)
    have "(if st = AR_GUEST_OK then (AR_GUEST_OK, count_sent ?e2)
       else if st = AR_GUEST_ERR_CLOSED then (AR_GUEST_ERR_CLOSED, ?e2\<lparr>quarantined := True\<rparr>)
       else if st \<noteq> AR_GUEST_ERR_WOULD_BLOCK then (st, ?e2)
       else enqueue_or_drop flood alloc t f q pl n ?e2) = (rc, e')"
      using assms(3) \<open>\<not> quarantined e\<close> True s by (simp add: send_entry_def Let_def flip: e1_def)
    then consider (direct) "e' = count_sent ?e2 \<or> e' = ?e2\<lparr>quarantined := True\<rparr> \<or> e' = ?e2"
        "rc = AR_GUEST_OK \<longleftrightarrow> st = AR_GUEST_OK"
      | (queue) "st = AR_GUEST_ERR_WOULD_BLOCK" "enqueue_or_drop flood alloc t f q pl n ?e2 = (rc, e')"
      by (auto split: if_splits)
    then show ?thesis
    proof cases
      case direct
      then show ?thesis using keep [of e'] out by simp
    next
      case queue
      from enqueue_outcome [OF one(1) assms(2) queue(2), of self] queue(1) out keep [of ?e2] show ?thesis
        by (auto intro: same_guest_trans)
    qed
  qed
qed

section \<open>The table\<close>

definition guest_name :: "route_entry \<Rightarrow> bytes" where
  "guest_name e = c_str (app_id e) 64"

definition guest_names :: "route_entry list \<Rightarrow> bytes list" where
  "guest_names es = map guest_name (filter active es)"

definition router_ok :: "guest_router \<Rightarrow> bool" where
  "router_ok r \<longleftrightarrow>
     length (entries r) = max_guests (router_config_of r) \<and> 0 < max_guest_queue (router_config_of r) \<and>
     guest_count r = length (guest_names (entries r)) \<and> distinct (guest_names (entries r)) \<and>
     (\<forall>e \<in> set (entries r). active e \<longrightarrow> entry_ok e)"

lemma router_ok_count: "router_ok r \<Longrightarrow> guest_count r \<le> max_guests (router_config_of r)"
  using length_filter_le [of active "entries r"] by (simp add: router_ok_def guest_names_def)

lemma list_split: "i < length xs \<Longrightarrow> xs = take i xs @ xs ! i # drop (Suc i) xs"
  by (rule id_take_nth_drop)

lemma guest_names_update:
  assumes "i < length es"
  shows "guest_names (es[i := e]) =
    guest_names (take i es) @ (if active e then [guest_name e] else []) @ guest_names (drop (Suc i) es)"
  using assms by (simp add: guest_names_def upd_conv_take_nth_drop)

lemma guest_names_split:
  assumes "i < length es"
  shows "guest_names es =
    guest_names (take i es) @ (if active (es ! i) then [guest_name (es ! i)] else []) @ guest_names (drop (Suc i) es)"
  using guest_names_update [OF assms, of "es ! i"] by simp

lemma guest_names_same:
  assumes "i < length es" and "active e = active (es ! i)" and "active e \<Longrightarrow> guest_name e = guest_name (es ! i)"
  shows "guest_names (es[i := e]) = guest_names es"
  unfolding guest_names_update [OF assms(1)] guest_names_split [OF assms(1)] using assms(2,3) by simp

text \<open>An operation on one guest that keeps its name keeps the table consistent.\<close>

lemma set_entry_ok:
  assumes "router_ok r" and "i < length (entries r)" and "same_guest (entries r ! i) e"
    and "active (entries r ! i) \<Longrightarrow> entry_ok e"
  shows "router_ok (set_entry r i e)"
proof -
  have "guest_names ((entries r)[i := e]) = guest_names (entries r)"
    using assms(3) by (intro guest_names_same [OF assms(2)]) (simp_all add: same_guest_def guest_name_def)
  moreover have "active x \<longrightarrow> entry_ok x" if "x \<in> set ((entries r)[i := e])" for x
    using that assms set_update_subset_insert [of "entries r" i e] by (auto simp: router_ok_def same_guest_def)
  ultimately show ?thesis using assms(1) by (simp add: router_ok_def set_entry_def)
qed

lemma find_from_Some:
  "find_from k es name = Some i \<Longrightarrow> k \<le> i \<and> i - k < length es \<and> entry_matches (es ! (i - k)) name"
proof (induction es arbitrary: k)
  case Nil
  then show ?case by simp
next
  case (Cons e es)
  show ?case
  proof (cases "entry_matches e name")
    case True
    then show ?thesis using Cons.prems by simp
  next
    case False
    with Cons have "Suc k \<le> i \<and> i - Suc k < length es \<and> entry_matches (es ! (i - Suc k)) name" by simp
    moreover from this have "i - k = Suc (i - Suc k)" by linarith
    ultimately show ?thesis by simp
  qed
qed

lemma find_from_None: "find_from k es name = None \<longleftrightarrow> (\<forall>e \<in> set es. \<not> entry_matches e name)"
  by (induction es arbitrary: k) simp_all

lemma find_entry_Some:
  assumes "router_ok r" and "find_entry (Some r) (Some name) = Some i"
  shows "i < length (entries r) \<and> active (entries r ! i) \<and> entry_ok (entries r ! i) \<and>
    guest_name (entries r ! i) = c_str name 64"
  using assms find_from_Some [of 0 "entries r" name i]
  by (auto simp: find_entry_def router_ok_def entry_matches_def strncmp_eq_def guest_name_def
      AR_GUEST_APP_ID_MAX_LEN_def)

lemma find_entry_None:
  assumes "router_ok r"
  shows "find_entry (Some r) (Some name) = None \<longleftrightarrow> c_str name 64 \<notin> set (guest_names (entries r))"
  using assms
  by (auto simp: find_entry_def router_ok_def find_from_None entry_matches_def strncmp_eq_def guest_name_def
      guest_names_def AR_GUEST_APP_ID_MAX_LEN_def image_iff)

lemma free_slot_Some:
  "free_slot k es = Some i \<Longrightarrow> k \<le> i \<and> i - k < length es \<and> \<not> active (es ! (i - k))"
proof (induction es arbitrary: k)
  case Nil
  then show ?case by simp
next
  case (Cons e es)
  show ?case
  proof (cases "active e")
    case False
    then show ?thesis using Cons.prems by simp
  next
    case True
    with Cons have "Suc k \<le> i \<and> i - Suc k < length es \<and> \<not> active (es ! (i - Suc k))" by simp
    moreover from this have "i - k = Suc (i - Suc k)" by linarith
    ultimately show ?thesis by simp
  qed
qed

lemma free_slot_None: "free_slot k es = None \<longleftrightarrow> (\<forall>e \<in> set es. active e)"
  by (induction es arbitrary: k) simp_all

text \<open>A slot that is not active may be set to any entry that is not active.\<close>

lemma clear_free_slot_ok:
  assumes "router_ok r" and "i < length (entries r)" and "\<not> active (entries r ! i)" and "\<not> active e"
  shows "router_ok (set_entry r i e)"
proof -
  have "guest_names ((entries r)[i := e]) = guest_names (entries r)"
    using assms(3,4) by (intro guest_names_same [OF assms(2)]) simp_all
  then show ?thesis
    using assms set_update_subset_insert [of "entries r" i e] by (auto simp: router_ok_def set_entry_def)
qed

section \<open>Every operation keeps the table consistent\<close>

lemma create_ok:
  assumes "ar_guest_router_create cfg out alloc alloc_entries = (rc, Some r)"
  shows "router_ok r" and "guest_count r = 0"
  using assms
  by (auto simp: ar_guest_router_create_def router_ok_def guest_names_def zero_entry_def Let_def
      split: if_splits option.splits)

lemma channel_attach_ok:
  assumes "ar_guest_channel_attach pc sp al sock fd (Some cfg) = (AR_GUEST_OK, ch)"
  shows "\<exists>c. ch = Some c \<and> chan_fd c = fd \<and> 0 \<le> fd"
  using assms
  by (auto simp: ar_guest_channel_attach_def Let_def split: if_splits option.splits)

lemma new_entry_ok:
  assumes "0 < k" and "channel e = Some c" and "0 \<le> chan_fd c"
    and "gq_slots e = replicate k z" and "gq_capacity e = k" and "gq_head e = 0" and "gq_count e = 0"
  shows "entry_ok e"
proof -
  have empty: "gq_contents e = []" using assms(7) by simp
  show ?thesis using assms by (simp add: entry_ok_def gq_wf_def empty)
qed

lemma attach_cases:
  assumes "router_ok r" and "ar_guest_router_attach env (Some r) (Some name) fd pol = (rc, closed, r')"
  shows "r' = Some r \<and> rc \<noteq> AR_GUEST_OK \<or>
    (\<exists>i. rc = AR_GUEST_ERR_NOMEM \<and> r' = Some (set_entry r i zero_entry) \<and> free_slot 0 (entries r) = Some i) \<or>
    (\<exists>i ch. rc = AR_GUEST_OK \<and> length name < 64 \<and> find_entry (Some r) (Some name) = None \<and>
      free_slot 0 (entries r) = Some i \<and> (\<exists>c. ch = Some c \<and> chan_fd c = fd \<and> 0 \<le> fd) \<and>
      r' = Some ((set_entry r i (attached_entry (router_config_of r) ch name pol))\<lparr>guest_count := guest_count r + 1\<rparr>))"
proof -
  have all: "take (max_guests (router_config_of r)) (entries r) = entries r"
    using assms(1) by (simp add: router_ok_def)
  let ?cfg = "\<lparr>chan_max_payload = router_max_payload (router_config_of r), io_timeout_ms = 0,
    peer_policy = (case pol of Some p \<Rightarrow> p | None \<Rightarrow> zero_policy)\<rparr>"
  obtain st ch where st: "ar_guest_channel_attach (env_peercred env) (env_passcred env) (env_alloc_channel env)
      (env_socket env) fd (Some ?cfg) = (st, ch)" by (metis surj_pair)
  have ch: "\<exists>c. ch = Some c \<and> chan_fd c = fd \<and> 0 \<le> fd" if "st = AR_GUEST_OK"
    using channel_attach_ok st that by blast
  show ?thesis
    using assms(2) ch
    by (simp add: ar_guest_router_attach_def Let_def all st AR_GUEST_APP_ID_MAX_LEN_def not_le
        split: if_splits option.splits [where option = "free_slot 0 (entries r)"]) blast+
qed

lemma attach_ok:
  assumes "router_ok r" and "0 \<notin> set name"
    and "ar_guest_router_attach env (Some r) (Some name) fd pol = (rc, closed, r')"
  shows "\<exists>r1. r' = Some r1 \<and> router_ok r1 \<and> router_config_of r1 = router_config_of r \<and>
    (rc = AR_GUEST_OK \<longrightarrow> set (guest_names (entries r1)) = insert name (set (guest_names (entries r)))) \<and>
    (rc \<noteq> AR_GUEST_OK \<longrightarrow> guest_names (entries r1) = guest_names (entries r))"
proof -
  consider (same) "r' = Some r" "rc \<noteq> AR_GUEST_OK"
    | (nomem) i where "rc = AR_GUEST_ERR_NOMEM" "r' = Some (set_entry r i zero_entry)"
        "free_slot 0 (entries r) = Some i"
    | (new) i ch where "rc = AR_GUEST_OK" "length name < 64"
        "find_entry (Some r) (Some name) = None" "free_slot 0 (entries r) = Some i"
        "\<exists>c. ch = Some c \<and> chan_fd c = fd \<and> 0 \<le> fd"
        "r' = Some ((set_entry r i (attached_entry (router_config_of r) ch name pol))
            \<lparr>guest_count := guest_count r + 1\<rparr>)"
    using attach_cases [OF assms(1,3)] by blast
  then show ?thesis
  proof cases
    case same
    then show ?thesis using assms(1) by simp
  next
    case nomem
    with free_slot_Some [OF nomem(3)] have i: "i < length (entries r)" "\<not> active (entries r ! i)" by simp_all
    have "router_ok (set_entry r i zero_entry)" using i
      by (intro clear_free_slot_ok [OF assms(1)]) (simp_all add: zero_entry_def)
    moreover have "guest_names ((entries r)[i := zero_entry]) = guest_names (entries r)"
      using i by (intro guest_names_same) (simp_all add: zero_entry_def)
    ultimately show ?thesis using nomem by (simp add: set_entry_def)
  next
    case new
    let ?e = "attached_entry (router_config_of r) ch name pol"
    have i: "i < length (entries r)" "\<not> active (entries r ! i)"
      using free_slot_Some [OF new(4)] by simp_all
    have name: "guest_name ?e = name" using assms(2) new(2) by (simp add: guest_name_def attached_entry_def c_str_padded)
    have fresh: "name \<notin> set (guest_names (entries r))"
      using find_entry_None [OF assms(1), of name] new(2,3) assms(2) by (simp add: c_str_whole)
    from new(5) obtain c where "ch = Some c" "0 \<le> chan_fd c" by auto
    then have eok: "entry_ok ?e" using assms(1)
      by (intro new_entry_ok [of "max_guest_queue (router_config_of r)" _ c]) (simp_all add: router_ok_def attached_entry_def zero_entry_def)
    have act: "active ?e" by (simp add: attached_entry_def)
    have names: "guest_names ((entries r)[i := ?e]) =
        guest_names (take i (entries r)) @ [name] @ guest_names (drop (Suc i) (entries r))"
      by (simp add: guest_names_update i(1) name act)
    have old: "guest_names (entries r) = guest_names (take i (entries r)) @ guest_names (drop (Suc i) (entries r))"
      using i guest_names_split [OF i(1)] by simp
    have "router_ok (the r')"
      using assms(1) fresh eok set_update_subset_insert [of "entries r" i ?e]
      unfolding new(6) by (auto simp: router_ok_def set_entry_def names old)
    then show ?thesis using new(1,6) by (auto simp: set_entry_def names old)
  qed
qed

lemma register_ok:
  assumes "router_ok r" and "0 \<notin> set name"
    and "ar_guest_router_register env sv (Some r) (Some name) pol out = (rc, fd, closed, r')"
  shows "\<exists>r1. r' = Some r1 \<and> router_ok r1 \<and> router_config_of r1 = router_config_of r"
proof -
  have "r' = Some r \<or> (\<exists>env rc fd closed. ar_guest_router_attach env (Some r) (Some name) fd pol = (rc, closed, r'))"
    using assms(3)
    by (auto simp: ar_guest_router_register_def split: if_splits option.splits prod.splits)
  then show ?thesis using assms(1) attach_ok [OF assms(1,2)] by blast
qed

lemma unregister_ok:
  assumes "router_ok r" and "ar_guest_router_unregister (Some r) (Some name) = (rc, closed, r')"
  shows "\<exists>r1. r' = Some r1 \<and> router_ok r1 \<and> router_config_of r1 = router_config_of r \<and>
    c_str name 64 \<notin> set (guest_names (entries r1))"
proof (cases "find_entry (Some r) (Some name)")
  case None
  then show ?thesis using assms find_entry_None [OF assms(1), of name]
    by (auto simp: ar_guest_router_unregister_def)
next
  case (Some i)
  note f = find_entry_Some [OF assms(1) Some]
  let ?es = "(entries r)[i := zero_entry]"
  have inactive: "\<not> active zero_entry" by (simp add: zero_entry_def)
  have names: "guest_names ?es = guest_names (take i (entries r)) @ guest_names (drop (Suc i) (entries r))"
    using f inactive by (simp add: guest_names_update)
  have old: "guest_names (entries r) =
      guest_names (take i (entries r)) @ c_str name 64 # guest_names (drop (Suc i) (entries r))"
    using f guest_names_split [of i "entries r"] by simp
  have r': "r' = Some ((set_entry r i zero_entry)\<lparr>guest_count := guest_count r - 1\<rparr>)"
    using assms(2) Some by (auto simp: ar_guest_router_unregister_def Let_def)
  have "router_ok (the r')"
    using assms(1) inactive set_update_subset_insert [of "entries r" i zero_entry]
    unfolding r' by (auto simp: router_ok_def set_entry_def names old)
  moreover have "c_str name 64 \<notin> set (guest_names ?es)"
    using assms(1) by (auto simp: router_ok_def names old)
  ultimately show ?thesis using r' by (simp add: set_entry_def)
qed

lemma send_ok:
  assumes "router_ok r" and "payload_holds pl n"
    and "ar_guest_router_send self alloc (Some r) (Some name) t f q pl n = (rc, r')"
  shows "\<exists>r1. r' = Some r1 \<and> router_ok r1 \<and> router_config_of r1 = router_config_of r"
proof (cases "find_entry (Some r) (Some name)")
  case None
  then show ?thesis using assms by (auto simp: ar_guest_router_send_def)
next
  case (Some i)
  note found = find_entry_Some [OF assms(1) Some]
  obtain e where e: "send_entry self (flood_policy_of (router_config_of r)) alloc t f q pl n (entries r ! i) = (rc, e)"
    and r': "r' = Some (set_entry r i e)"
    using assms(3) Some by (auto simp: ar_guest_router_send_def split: prod.splits)
  have "router_ok (set_entry r i e)"
    using found send_entry_outcome [OF _ assms(2) e] by (intro set_entry_ok [OF assms(1)]) auto
  then show ?thesis using r' by (simp add: set_entry_def)
qed

lemma broadcast_ok:
  assumes "router_ok r" and "payload_holds pl n"
    and "ar_guest_router_broadcast self alloc (Some r) t f q pl n = (rc, r')"
  shows "\<exists>r1. r' = Some r1 \<and> router_ok r1 \<and> router_config_of r1 = router_config_of r"
proof -
  have "router_ok (snd (fold (broadcast_step self alloc t f q pl n) is (b, r0))) \<and>
      router_config_of (snd (fold (broadcast_step self alloc t f q pl n) is (b, r0))) = router_config_of r0"
    if "router_ok r0" for "is" b r0
    using that
  proof (induction "is" arbitrary: b r0)
    case Nil
    then show ?case by simp
  next
    case (Cons i "is")
    obtain b1 r1 where s: "broadcast_step self alloc t f q pl n i (b, r0) = (b1, r1)" by (metis surj_pair)
    have "router_ok r1 \<and> router_config_of r1 = router_config_of r0"
      using s Cons.prems send_ok [OF Cons.prems assms(2)]
      by (fastforce simp: broadcast_step_def split: if_splits prod.splits)
    then show ?case using Cons.IH [of r1 b1] s by simp
  qed
  then show ?thesis using assms(1,3)
    by (auto simp: ar_guest_router_broadcast_def split: prod.splits) (metis snd_conv)+
qed

lemma flush_loop_same_guest:
  "same_guest e (snd (flush_loop self n e))"
proof (induction n arbitrary: e)
  case 0
  then show ?case by simp
next
  case (Suc n)
  have "same_guest e (gq_pop (e\<lparr>channel := ch\<rparr>)) \<and> same_guest e (e\<lparr>channel := ch\<rparr>)" for ch
    by (simp add: same_guest_def gq_pop_def)
  then show ?case using Suc by (auto simp: Let_def intro: same_guest_trans split: prod.split)
qed

lemma flush_entry_ok:
  assumes "router_ok r" and "i < length (entries r)"
  shows "router_ok (set_entry r i (snd (flush_entry_queue self (entries r ! i))))"
proof (rule set_entry_ok [OF assms])
  show "same_guest (entries r ! i) (snd (flush_entry_queue self (entries r ! i)))"
    by (simp add: flush_entry_queue_def flush_loop_same_guest)
  assume "active (entries r ! i)"
  then have "entry_ok (entries r ! i)" using assms by (simp add: router_ok_def)
  then show "entry_ok (snd (flush_entry_queue self (entries r ! i)))"
    using flush_loop_outcome by (metis flush_entry_queue_def prod.collapse)
qed

lemma flush_ok:
  assumes "router_ok r" and "ar_guest_router_flush self (Some r) (Some name) = (rc, r')"
  shows "\<exists>r1. r' = Some r1 \<and> router_ok r1 \<and> router_config_of r1 = router_config_of r"
proof (cases "find_entry (Some r) (Some name)")
  case None
  then show ?thesis using assms by (auto simp: ar_guest_router_flush_def)
next
  case (Some i)
  have "r' = Some (set_entry r i (snd (flush_entry_queue self (entries r ! i))))"
    using assms(2) Some by (auto simp: ar_guest_router_flush_def split: prod.splits)
  then show ?thesis using flush_entry_ok [OF assms(1)] find_entry_Some [OF assms(1) Some]
    by (simp add: set_entry_def)
qed

text \<open>
  A message handler may do to the router whatever keeps the table consistent; \<open>router_run\<close> below
  ties this to the operations of the interface.
\<close>

definition handler_keeps :: "guest_handler option \<Rightarrow> bool" where
  "handler_keeps handler \<longleftrightarrow>
     (\<forall>f. handler = Some f \<longrightarrow> (\<forall>r a h b. router_ok r \<longrightarrow>
       router_ok (f r a h b) \<and> router_config_of (f r a h b) = router_config_of r))"

text \<open>Storing the channel a receive call leaves, with new statistics or a quarantine mark.\<close>

lemma received_entry_ok:
  assumes "router_ok r" and "i < length (entries r)"
    and "ar_guest_channel_receive (channel (entries r ! i)) (Some h) buf cap = (rc, h', buf', ch)"
    and "channel e = ch" and "gq_slots e = gq_slots (entries r ! i)" and "gq_head e = gq_head (entries r ! i)"
    and "gq_count e = gq_count (entries r ! i)" and "same_guest (entries r ! i) e"
  shows "router_ok (set_entry r i e)"
proof (rule set_entry_ok [OF assms(1,2,8)])
  assume "active (entries r ! i)"
  then have ok: "entry_ok (entries r ! i)" using assms(1,2) by (simp add: router_ok_def)
  then obtain c where c: "channel (entries r ! i) = Some c" "0 \<le> chan_fd c" by (auto simp: entry_ok_def)
  from receive_keeps assms(3) c obtain c' where "ch = Some c'" "0 \<le> chan_fd c'" by metis
  then show "entry_ok e" using assms(4-8) by (intro entry_ok_cong [OF ok]) (auto simp: same_guest_def)
qed

lemma receive_loop_ok:
  assumes "handler_keeps handler"
  shows "router_ok r \<Longrightarrow> i < length (entries r) \<Longrightarrow> receive_loop handler i quota (processed, r) = (k, r') \<Longrightarrow>
    router_ok r' \<and> router_config_of r' = router_config_of r \<and> processed \<le> k \<and> k \<le> processed + quota"
proof (induction quota arbitrary: processed r)
  case 0
  then show ?case by simp
next
  case (Suc quota)
  let ?e = "entries r ! i"
  obtain rc h buf ch where rcv: "ar_guest_channel_receive (channel ?e)
      (Some \<lparr>frame_type = 0, frame_flags = 0, frame_request = 0, frame_length = 0\<rparr>) (Some (zeros 65512)) 65512 =
      (rc, h, buf, ch)" by (metis surj_pair)
  have ok: "router_ok (set_entry r i (?e\<lparr>channel := ch, stats := st, quarantined := b\<rparr>))" for st b
    by (rule received_entry_ok [OF Suc.prems(1,2) rcv]) (simp_all add: same_guest_def)
  show ?case
  proof (cases "rc = AR_GUEST_OK")
    case True
    let ?e1 = "?e\<lparr>channel := ch, stats := (stats ?e)\<lparr>messages_received := messages_received (stats ?e) + 1\<rparr>\<rparr>"
    let ?r1 = "set_entry r i ?e1"
    define r2 where "r2 = (case handler of None \<Rightarrow> ?r1 | Some f \<Rightarrow> f ?r1 (app_id ?e1) (the h) (the buf))"
    have "router_ok ?r1" using ok [where st = "stats ?e1" and b = "quarantined ?e"] by simp
    moreover have "router_config_of ?r1 = router_config_of r" by (simp add: set_entry_def)
    ultimately have r2: "router_ok r2" "router_config_of r2 = router_config_of r"
      using assms by (auto simp: r2_def handler_keeps_def split: option.split)
    then have "i < length (entries r2)" using Suc.prems(1,2) by (simp add: router_ok_def)
    moreover have "receive_loop handler i quota (processed + 1, r2) = (k, r')"
      using Suc.prems(3) True unfolding r2_def by (simp add: rcv Let_def)
    ultimately show ?thesis using Suc.IH [of r2 "processed + 1"] r2 by auto
  next
    case False
    let ?keep = "?e\<lparr>channel := ch\<rparr>"
    have upd: "?e\<lparr>channel := ch, stats := st, quarantined := quarantined ?e\<rparr> = ?keep\<lparr>stats := st\<rparr>"
      "?e\<lparr>channel := ch, stats := stats ?e, quarantined := b\<rparr> = ?keep\<lparr>quarantined := b\<rparr>"
      "?e\<lparr>channel := ch, stats := stats ?e, quarantined := quarantined ?e\<rparr> = ?keep" for st b
      by simp_all
    have "k = processed \<and> (r' = set_entry r i ?keep \<or> (\<exists>st. r' = set_entry r i (?keep\<lparr>stats := st\<rparr>)) \<or>
        r' = set_entry r i (?keep\<lparr>quarantined := True\<rparr>))"
      using Suc.prems(3) False by (simp add: rcv Let_def split: if_splits) blast+
    then have "k = processed \<and> router_ok r'"
      using ok [where b = "quarantined ?e", unfolded upd(1)] ok [where st = "stats ?e", unfolded upd(2)]
        ok [where st = "stats ?e" and b = "quarantined ?e", unfolded upd(3)] by blast
    moreover have "router_config_of r' = router_config_of r"
      using \<open>k = processed \<and> (r' = _ \<or> _)\<close> by (auto simp: set_entry_def)
    ultimately show ?thesis by simp
  qed
qed

lemma dispatch_step_ok:
  assumes "handler_keeps handler" and "router_ok r" and "i < length (entries r)"
    and "dispatch_step self handler (i, ev) (processed, r) = (k, r')"
  shows "router_ok r' \<and> router_config_of r' = router_config_of r \<and> k \<le> processed + 16"
proof (cases "ev_error ev \<and> \<not> ev_in ev")
  case True
  have "router_ok (set_entry r i ((entries r ! i)\<lparr>quarantined := True\<rparr>))"
  proof (rule set_entry_ok [OF assms(2,3)])
    assume "active (entries r ! i)"
    then have ok: "entry_ok (entries r ! i)" using assms(2,3) by (simp add: router_ok_def)
    then obtain c where "channel (entries r ! i) = Some c" "0 \<le> chan_fd c" by (auto simp: entry_ok_def)
    then show "entry_ok ((entries r ! i)\<lparr>quarantined := True\<rparr>)" by (intro entry_ok_cong [OF ok]) simp_all
  qed (simp add: same_guest_def)
  then show ?thesis using assms(4) True by (auto simp: dispatch_step_def set_entry_def)
next
  case False
  define r1 where "r1 = (if ev_out ev \<and> 0 < gq_count (entries r ! i)
    then set_entry r i (snd (flush_entry_queue self (entries r ! i))) else r)"
  have r1: "router_ok r1" "router_config_of r1 = router_config_of r" "i < length (entries r1)"
    using assms(2,3) flush_entry_ok [OF assms(2,3), of self] by (auto simp: r1_def set_entry_def)
  have "(if ev_in ev then receive_loop handler i 16 (processed, r1) else (processed, r1)) = (k, r')"
    using assms(4) False unfolding r1_def by (simp add: dispatch_step_def Let_def)
  then show ?thesis using r1 receive_loop_ok [OF assms(1) r1(1,3), of 16 processed k r']
    by (auto split: if_splits)
qed

lemma dispatch_fold_ok:
  assumes "handler_keeps handler"
  shows "router_ok r \<Longrightarrow> \<forall>x \<in> set xs. fst x < length (entries r) \<Longrightarrow>
    fold (dispatch_step self handler) xs (processed, r) = (k, r') \<Longrightarrow>
    router_ok r' \<and> router_config_of r' = router_config_of r \<and> k \<le> processed + 16 * length xs"
proof (induction xs arbitrary: processed r)
  case Nil
  then show ?case by simp
next
  case (Cons x xs)
  obtain i ev where x: "x = (i, ev)" by (cases x)
  obtain k1 r1 where s: "dispatch_step self handler x (processed, r) = (k1, r1)" by (metis surj_pair)
  have one: "router_ok r1" "router_config_of r1 = router_config_of r" "k1 \<le> processed + 16"
    using dispatch_step_ok [OF assms Cons.prems(1), of i self ev processed k1 r1] s Cons.prems(2) x by auto
  moreover have "length (entries r1) = length (entries r)"
    using one Cons.prems(1) by (simp add: router_ok_def)
  ultimately show ?case using Cons.IH [of r1 k1] Cons.prems(2,3) s by fastforce
qed

lemma dispatch_ok:
  assumes "handler_keeps handler" and "router_ok r"
    and "ar_guest_router_dispatch self handler answer (Some r) = (res, r')"
  shows "\<exists>r1 k. r' = Some r1 \<and> router_ok r1 \<and> router_config_of r1 = router_config_of r \<and>
    res = Inr k \<and> k \<le> 16 * length (polled r)"
proof -
  have lt: "\<forall>x \<in> set (zip (polled r) evs). fst x < length (entries r)" for evs
    using assms(2) by (auto simp: polled_def router_ok_def dest!: set_zip_leftD in_set_takeD)
  show ?thesis
  proof (cases "polled r = [] \<or> answer = None")
    case True
    then have "res = Inr 0 \<and> r' = Some r" using assms(3) by (auto simp: ar_guest_router_dispatch_def split: if_splits)
    then show ?thesis using assms(2) by simp
  next
    case False
    then obtain evs where a: "answer = Some evs" by auto
    obtain k r1 where f: "fold (dispatch_step self handler) (zip (polled r) evs) (0, r) = (k, r1)"
      by (metis surj_pair)
    from dispatch_fold_ok [OF assms(1,2) lt f] have "router_ok r1 \<and> router_config_of r1 = router_config_of r \<and>
        k \<le> 16 * length (polled r)" by (auto intro: order_trans)
    then show ?thesis using assms(3) False a f by (auto simp: ar_guest_router_dispatch_def)
  qed
qed

section \<open>Runs of the interface\<close>

text \<open>
  Everything a program can do to a router. A handler called by \<open>dispatch\<close> may itself be any run.
\<close>

inductive router_run :: "guest_router \<Rightarrow> guest_router \<Rightarrow> bool" where
  run_start: "router_run r r"
| run_attach: "router_run r r1 \<Longrightarrow> 0 \<notin> set name \<Longrightarrow>
    ar_guest_router_attach env (Some r1) (Some name) fd pol = (rc, closed, Some r2) \<Longrightarrow> router_run r r2"
| run_register: "router_run r r1 \<Longrightarrow> 0 \<notin> set name \<Longrightarrow>
    ar_guest_router_register env sv (Some r1) (Some name) pol out = (rc, fd', closed, Some r2) \<Longrightarrow> router_run r r2"
| run_unregister: "router_run r r1 \<Longrightarrow>
    ar_guest_router_unregister (Some r1) (Some name) = (rc, closed, Some r2) \<Longrightarrow> router_run r r2"
| run_send: "router_run r r1 \<Longrightarrow> payload_holds pl n \<Longrightarrow>
    ar_guest_router_send self alloc (Some r1) (Some name) t f q pl n = (rc, Some r2) \<Longrightarrow> router_run r r2"
| run_broadcast: "router_run r r1 \<Longrightarrow> payload_holds pl n \<Longrightarrow>
    ar_guest_router_broadcast self allocs (Some r1) t f q pl n = (rc, Some r2) \<Longrightarrow> router_run r r2"
| run_flush: "router_run r r1 \<Longrightarrow>
    ar_guest_router_flush self (Some r1) (Some name) = (rc, Some r2) \<Longrightarrow> router_run r r2"
| run_dispatch: "router_run r r1 \<Longrightarrow> (\<forall>g. handler = Some g \<longrightarrow> (\<forall>r a h b. router_run r (g r a h b))) \<Longrightarrow>
    ar_guest_router_dispatch self handler answer (Some r1) = (res, Some r2) \<Longrightarrow> router_run r r2"

lemma router_run_ok:
  "router_run r r' \<Longrightarrow> router_ok r \<Longrightarrow> router_ok r' \<and> router_config_of r' = router_config_of r"
proof (induction rule: router_run.induct)
  case (run_start r)
  then show ?case by simp
next
  case (run_attach r r1 name env fd pol rc closed r2)
  then show ?case using attach_ok [of r1 name env fd pol rc closed "Some r2"] by auto
next
  case (run_register r r1 name env sv pol out rc fd' closed r2)
  then show ?case using register_ok [of r1 name env sv pol out rc fd' closed "Some r2"] by auto
next
  case (run_unregister r r1 name rc closed r2)
  then show ?case using unregister_ok [of r1 name rc closed "Some r2"] by auto
next
  case (run_send r r1 pl n self alloc name t f q rc r2)
  then show ?case using send_ok [of r1 pl n self alloc name t f q rc "Some r2"] by auto
next
  case (run_broadcast r r1 pl n self allocs t f q rc r2)
  then show ?case using broadcast_ok [of r1 pl n self allocs t f q rc "Some r2"] by auto
next
  case (run_flush r r1 self name rc r2)
  then show ?case using flush_ok [of r1 self name rc "Some r2"] by auto
next
  case (run_dispatch r r1 handler self answer res r2)
  then have "handler_keeps handler" by (auto simp: handler_keeps_def)
  then show ?case using run_dispatch dispatch_ok [of handler r1 self answer res "Some r2"] by auto
qed

section \<open>Sequences of messages for one guest\<close>

lemma find_entry_unique:
  assumes "router_ok r" and "i < length (entries r)" and "active (entries r ! i)"
    and "guest_name (entries r ! i) = c_str name 64"
  shows "find_entry (Some r) (Some name) = Some i"
proof (cases "find_entry (Some r) (Some name)")
  case None
  have "guest_name (entries r ! i) \<in> set (guest_names (entries r))"
    using assms(2,3) by (auto simp: guest_names_def)
  then show ?thesis using None find_entry_None [OF assms(1), of name] assms(4) by simp
next
  case (Some j)
  note f = find_entry_Some [OF assms(1) Some]
  have "j = i"
  proof (rule ccontr)
    assume ne: "j \<noteq> i"
    have mem: "entries r ! j \<in> set (take i (entries r)) \<union> set (drop (Suc i) (entries r))"
    proof (cases "j < i")
      case True
      then have "take i (entries r) ! j \<in> set (take i (entries r))" using f by (intro nth_mem) simp
      then show ?thesis using True by simp
    next
      case False
      then have k: "Suc i + (j - Suc i) = j" using ne by linarith
      have "drop (Suc i) (entries r) ! (j - Suc i) \<in> set (drop (Suc i) (entries r))"
        using f k by (intro nth_mem) (simp, linarith)
      then show ?thesis using f k by simp
    qed
    have "distinct (guest_names (entries r))" using assms(1) by (simp add: router_ok_def)
    then show False using mem f assms(3,4) unfolding guest_names_split [OF assms(2)]
      by (auto simp: guest_names_def image_iff)
  qed
  then show ?thesis using Some by simp
qed

datatype guest_op = Op_send bool queue_entry | Op_flush

text \<open>The messages a sequence of calls got accepted, and the router it leaves.\<close>

fun run_ops :: "guest_identity \<Rightarrow> bytes \<Rightarrow> guest_op list \<Rightarrow> guest_router \<Rightarrow> queue_entry list \<times> guest_router" where
  "run_ops self name [] r = ([], r)"
| "run_ops self name (Op_flush # ops) r =
     run_ops self name ops (the (snd (ar_guest_router_flush self (Some r) (Some name))))"
| "run_ops self name (Op_send alloc m # ops) r =
     (case ar_guest_router_send self alloc (Some r) (Some name) (qe_type m) (qe_flags m) (qe_request m)
             (qe_payload m) (qe_length m) of
        (rc, r1) \<Rightarrow> (case run_ops self name ops (the r1) of
           (ms, r2) \<Rightarrow> (if rc = AR_GUEST_OK then m # ms else ms, r2)))"

lemma flush_entries:
  assumes "router_ok r" and "find_entry (Some r) (Some name) = Some i"
  obtains e where "ar_guest_router_flush self (Some r) (Some name) =
      (fst (flush_entry_queue self (entries r ! i)), Some (set_entry r i e))"
    and "e = snd (flush_entry_queue self (entries r ! i))" and "entry_ok e"
    and "same_guest (entries r ! i) e" and "outbound self e = outbound self (entries r ! i)"
proof (rule that)
  note f = find_entry_Some [OF assms]
  let ?e = "snd (flush_entry_queue self (entries r ! i))"
  have "flush_loop self (gq_count (entries r ! i)) (entries r ! i) =
      (fst (flush_entry_queue self (entries r ! i)), ?e)"
    by (simp add: flush_entry_queue_def)
  from flush_loop_outcome [OF _ this] f show "entry_ok ?e" "same_guest (entries r ! i) ?e"
    "outbound self ?e = outbound self (entries r ! i)" by simp_all
qed (use assms in \<open>simp_all add: ar_guest_router_flush_def split: prod.split\<close>)

lemma still_found:
  assumes "router_ok r" and "find_entry (Some r) (Some name) = Some i"
    and "same_guest (entries r ! i) e" and "entry_ok e"
  shows "router_ok (set_entry r i e)" and "find_entry (Some (set_entry r i e)) (Some name) = Some i"
    and "entries (set_entry r i e) ! i = e"
    and "\<forall>j. j \<noteq> i \<longrightarrow> entries (set_entry r i e) ! j = entries r ! j"
proof -
  note f = find_entry_Some [OF assms(1,2)]
  show ok: "router_ok (set_entry r i e)" using f assms by (intro set_entry_ok) auto
  show e: "entries (set_entry r i e) ! i = e" using f by (simp add: set_entry_def)
  show "find_entry (Some (set_entry r i e)) (Some name) = Some i"
    using f assms(3) e
    by (intro find_entry_unique [OF ok]) (auto simp: same_guest_def guest_name_def set_entry_def)
  show "\<forall>j. j \<noteq> i \<longrightarrow> entries (set_entry r i e) ! j = entries r ! j" by (simp add: set_entry_def)
qed

lemma send_entries:
  assumes "router_ok r" and "find_entry (Some r) (Some name) = Some i" and "payload_holds pl n"
    and "ar_guest_router_send self alloc (Some r) (Some name) t f q pl n = (rc, r')"
  obtains e where "r' = Some (set_entry r i e)" and "entry_ok e" and "same_guest (entries r ! i) e"
    and "outbound self e = outbound self (entries r ! i) @
      (if rc = AR_GUEST_OK then [\<lparr>dg_data = guest_frame t f q pl n, dg_creds = Some self\<rparr>] else [])"
proof -
  obtain e where e: "send_entry self (flood_policy_of (router_config_of r)) alloc t f q pl n (entries r ! i) = (rc, e)"
    and r': "r' = Some (set_entry r i e)"
    using assms(2,4) by (auto simp: ar_guest_router_send_def split: prod.splits)
  with send_entry_outcome [OF _ assms(3) e] find_entry_Some [OF assms(1,2)] that show thesis by blast
qed

lemma run_ops_outbound:
  assumes "\<forall>alloc m. Op_send alloc m \<in> set ops \<longrightarrow> payload_holds (qe_payload m) (qe_length m)"
  shows "router_ok r \<Longrightarrow> find_entry (Some r) (Some name) = Some i \<Longrightarrow> run_ops self name ops r = (accepted, r') \<Longrightarrow>
    router_ok r' \<and> find_entry (Some r') (Some name) = Some i \<and>
    outbound self (entries r' ! i) = outbound self (entries r ! i) @ map (queue_frame self) accepted \<and>
    (\<forall>j. j \<noteq> i \<longrightarrow> entries r' ! j = entries r ! j)"
  using assms
proof (induction ops arbitrary: r accepted)
  case Nil
  then show ?case by simp
next
  case (Cons op ops)
  show ?case
  proof (cases op)
    case Op_flush
    obtain e where e: "ar_guest_router_flush self (Some r) (Some name) =
        (fst (flush_entry_queue self (entries r ! i)), Some (set_entry r i e))"
      and ok: "entry_ok e" "same_guest (entries r ! i) e" and out: "outbound self e = outbound self (entries r ! i)"
      using flush_entries [OF Cons.prems(1,2)] by metis
    note s = still_found [OF Cons.prems(1,2) ok(2,1)]
    from Cons.IH [OF s(1,2)] Cons.prems(3,4) Op_flush e show ?thesis by (simp add: s(3,4) out)
  next
    case (Op_send alloc m)
    have pl: "payload_holds (qe_payload m) (qe_length m)" using Cons.prems(4) Op_send by simp
    obtain rc r1 where snd: "ar_guest_router_send self alloc (Some r) (Some name) (qe_type m) (qe_flags m) (qe_request m)
             (qe_payload m) (qe_length m) = (rc, r1)" by (metis surj_pair)
    obtain e where r1: "r1 = Some (set_entry r i e)" and ok: "entry_ok e" "same_guest (entries r ! i) e"
      and out: "outbound self e = outbound self (entries r ! i) @ (if rc = AR_GUEST_OK then [queue_frame self m] else [])"
      by (rule send_entries [OF Cons.prems(1,2) pl snd]) (auto simp: queue_frame_def)
    note s = still_found [OF Cons.prems(1,2) ok(2,1)]
    obtain ms where rest: "run_ops self name ops (set_entry r i e) = (ms, r')"
      and acc: "accepted = (if rc = AR_GUEST_OK then m # ms else ms)"
      using Cons.prems(3) Op_send snd r1 by (auto split: prod.splits)
    from Cons.IH [OF s(1,2) rest] Cons.prems(4) show ?thesis by (simp add: s(3,4) out acc)
  qed
qed

section \<open>A queue that cannot be flushed, and one that can\<close>

text \<open>The first message of the queue is one the channel refuses to send.\<close>

definition blocked_guest :: "route_entry \<Rightarrow> bool" where
  "blocked_guest e \<longleftrightarrow>
     (case (channel e, gq_contents e) of
        (Some c, q # qs) \<Rightarrow> \<not> sendable c (qe_flags q) (qe_payload q) (qe_length q)
      | _ \<Rightarrow> False)"

lemma blocked_guestE:
  assumes "blocked_guest e"
  obtains c q qs where "channel e = Some c" and "gq_contents e = q # qs"
    and "\<not> sendable c (qe_flags q) (qe_payload q) (qe_length q)"
  using assms by (auto simp: blocked_guest_def split: option.splits list.splits)

lemma flush_blocked:
  assumes "gq_wf e" and "blocked_guest e"
  shows "\<exists>err \<in> {AR_GUEST_ERR_INVALID, AR_GUEST_ERR_LIMIT}. flush_entry_queue self e = (err, e)"
proof -
  obtain c q qs where b: "channel e = Some c" "gq_contents e = q # qs"
    "\<not> sendable c (qe_flags q) (qe_payload q) (qe_length q)"
    using assms(2) by (rule blocked_guestE)
  obtain n where n: "gq_count e = Suc n" using b(2) by (metis length_gq_contents length_Cons)
  have q: "gq_slots e ! gq_head e = q" using gq_contents_Cons [OF assms(1)] n b(2) by simp
  have same: "e\<lparr>channel := Some c\<rparr> = e" using b(1) by (cases e) simp
  from send_refused [OF b(3)] obtain err where
    "ar_guest_channel_send self (channel e) (qe_type q) (qe_flags q) (qe_request q) (qe_payload q) (qe_length q) = (err, Some c)"
    "err \<in> {AR_GUEST_ERR_INVALID, AR_GUEST_ERR_LIMIT}"
    using b(1) by metis
  then show ?thesis by (auto simp: flush_entry_queue_def n q same Let_def)
qed

lemma enqueue_contents:
  assumes "gq_wf e" and "enqueue_or_drop flood alloc t f q pl n e = (rc, e')"
  shows "channel e' = channel e \<and> (\<exists>xs. gq_contents e' = gq_contents e @ xs)"
proof (cases "gq_count e < gq_capacity e")
  case True
  have sent: "channel (count_sent (gq_push e m)) = channel e \<and>
      gq_contents (count_sent (gq_push e m)) = gq_contents e @ [m]" for m
    using gq_contents_push [OF assms(1) True, of m]
    by (simp add: count_sent_def gq_contents_def) (simp add: gq_push_def Let_def)
  show ?thesis using assms(2) True sent gq_contents_free_slot [OF assms(1) True]
    by (auto simp: enqueue_or_drop_def Let_def split: if_splits)
next
  case False
  then have "channel e' = channel e \<and> gq_slots e' = gq_slots e \<and> gq_head e' = gq_head e \<and> gq_count e' = gq_count e"
    using assms(2) by (auto simp: enqueue_or_drop_def Let_def split: flood_policy.splits)
  then show ?thesis by (simp add: gq_contents_def)
qed

lemma send_blocked:
  assumes "entry_ok e" and "blocked_guest e" and "send_entry self flood alloc t f q pl n e = (rc, e')"
  shows "channel e' = channel e \<and> blocked_guest e'"
proof -
  have wf: "gq_wf e" using assms(1) by (simp add: entry_ok_def)
  obtain c m ms where b: "channel e = Some c" "gq_contents e = m # ms"
    "\<not> sendable c (qe_flags m) (qe_payload m) (qe_length m)"
    using assms(2) by (rule blocked_guestE)
  have pos: "gq_count e \<noteq> 0" using b(2) gq_contents_Nil [of e] by (metis list.distinct(1))
  have "snd (flush_entry_queue self e) = e" using flush_blocked [OF wf assms(2), of self] by auto
  then have "e' = e \<or> enqueue_or_drop flood alloc t f q pl n e = (rc, e')"
    using assms(3) pos by (auto simp: send_entry_def Let_def split: if_splits)
  then have "channel e' = channel e \<and> (\<exists>xs. gq_contents e' = gq_contents e @ xs)"
    using enqueue_contents [OF wf] by auto
  then show ?thesis using b by (auto simp: blocked_guest_def)
qed

lemma run_ops_blocked:
  assumes "\<forall>alloc m. Op_send alloc m \<in> set ops \<longrightarrow> payload_holds (qe_payload m) (qe_length m)"
  shows "router_ok r \<Longrightarrow> find_entry (Some r) (Some name) = Some i \<Longrightarrow> blocked_guest (entries r ! i) \<Longrightarrow>
    run_ops self name ops r = (accepted, r') \<Longrightarrow>
    blocked_guest (entries r' ! i) \<and> channel (entries r' ! i) = channel (entries r ! i)"
  using assms
proof (induction ops arbitrary: r accepted)
  case Nil
  then show ?case by simp
next
  case (Cons op ops)
  note f = find_entry_Some [OF Cons.prems(1,2)]
  then have eok: "entry_ok (entries r ! i)" by simp
  show ?case
  proof (cases op)
    case Op_flush
    have "gq_wf (entries r ! i)" using eok by (simp add: entry_ok_def)
    from flush_blocked [OF this Cons.prems(3), of self]
    have "the (snd (ar_guest_router_flush self (Some r) (Some name))) = set_entry r i (entries r ! i)"
      using Cons.prems(2) by (auto simp: ar_guest_router_flush_def)
    moreover have "set_entry r i (entries r ! i) = r" by (simp add: set_entry_def)
    ultimately have "run_ops self name ops r = (accepted, r')" using Cons.prems(4) Op_flush by simp
    with Cons.IH [OF Cons.prems(1,2,3) this] Cons.prems(5) show ?thesis by simp
  next
    case (Op_send alloc m)
    have pl: "payload_holds (qe_payload m) (qe_length m)" using Cons.prems(5) Op_send by simp
    obtain rc e where e: "send_entry self (flood_policy_of (router_config_of r)) alloc (qe_type m) (qe_flags m)
        (qe_request m) (qe_payload m) (qe_length m) (entries r ! i) = (rc, e)" by (metis surj_pair)
    note o = send_entry_outcome [OF eok pl e]
    have s: "router_ok (set_entry r i e)" "find_entry (Some (set_entry r i e)) (Some name) = Some i"
      "entries (set_entry r i e) ! i = e"
      using still_found [OF Cons.prems(1,2)] o by blast+
    obtain ms where "run_ops self name ops (set_entry r i e) = (ms, r')"
      using Cons.prems(2,4) Op_send e by (auto simp: ar_guest_router_send_def split: prod.splits)
    from Cons.IH [OF s(1,2) _ this] Cons.prems(5) send_blocked [OF eok Cons.prems(3) e] s(3) show ?thesis
      by simp
  qed
qed

lemma flush_loop_all:
  assumes "gq_wf e" and "channel e = Some c" and "send_script (chan_sock c) = []"
    and "io_timeout_ms (chan_config c) \<le> 0"
    and "\<forall>q \<in> set (gq_contents e). sendable c (qe_flags q) (qe_payload q) (qe_length q)"
  shows "fst (flush_loop self (gq_count e) e) = AR_GUEST_OK"
  using assms
proof (induction "gq_count e" arbitrary: e c rule: nat.induct)
  case zero
  from zero(1) [symmetric] show ?case by simp
next
  case (Suc n)
  let ?q = "gq_slots e ! gq_head e"
  have cons: "gq_contents e = ?q # gq_contents (gq_pop e)"
    using Suc.hyps(2) by (intro gq_contents_Cons [OF Suc.prems(1)]) simp
  then have "sendable c (qe_flags ?q) (qe_payload ?q) (qe_length ?q)" using Suc.prems(5) by simp
  from send_succeeds [OF this Suc.prems(3,4), of self "qe_type ?q" "qe_request ?q"] obtain c' where
    c': "ar_guest_channel_send self (Some c) (qe_type ?q) (qe_flags ?q) (qe_request ?q) (qe_payload ?q) (qe_length ?q) =
        (AR_GUEST_OK, Some c')" "chan_config c' = chan_config c" "chan_fd c' = chan_fd c"
      "send_script (chan_sock c') = []" by auto
  let ?e = "gq_pop (e\<lparr>channel := Some c'\<rparr>)"
  have n: "n = gq_count ?e" using Suc.hyps(2) by (simp add: gq_pop_def)
  have wf: "gq_wf ?e" using Suc.prems(1) by (auto simp: gq_wf_def gq_pop_def)
  have c2: "gq_contents ?e = gq_contents (gq_pop e)" by (simp add: gq_contents_def gq_pop_def)
  have "sendable c' fl pl l = sendable c fl pl l" for fl pl l using c' by (simp add: sendable_def)
  then have "fst (flush_loop self (gq_count ?e) ?e) = AR_GUEST_OK"
    using Suc.prems(5) cons c2 c'(2,4) Suc.prems(4)
    by (intro Suc.hyps(1) [OF n wf, of c']) (simp_all add: gq_pop_def)
  then show ?case using c'(1) Suc.prems(2) n by (simp add: Suc.hyps(2) [symmetric])
qed

text \<open>A router with one guest whose socket refuses the first write.\<close>

definition demo_empty :: guest_router where
  "demo_empty = the (snd (ar_guest_router_create (Some \<lparr>max_guests = 2, max_guest_queue = 2, router_max_payload = 16,
     router_timeout_ms = 0, flood_policy_of = AR_GUEST_FLOOD_DROP\<rparr>) True True True))"

definition demo_env :: "send_outcome list \<Rightarrow> attach_env" where
  "demo_env script = \<lparr>env_peercred = Some host_identity, env_passcred = True, env_alloc_channel = True,
     env_socket = idle_socket\<lparr>send_script := script\<rparr>, env_alloc_queue = True\<rparr>"

definition demo_router :: "send_outcome list \<Rightarrow> guest_router" where
  "demo_router script = the (snd (snd (ar_guest_router_attach (demo_env script) (Some demo_empty) (Some [97]) 5 None)))"

definition demo_message :: "u32 \<Rightarrow> queue_entry" where
  "demo_message flags = \<lparr>qe_type = 7, qe_flags = flags, qe_request = 1, qe_length = 2, qe_payload = Some [1, 2]\<rparr>"

lemma demo_empty_created:
  "ar_guest_router_create (Some \<lparr>max_guests = 2, max_guest_queue = 2, router_max_payload = 16,
     router_timeout_ms = 0, flood_policy_of = AR_GUEST_FLOOD_DROP\<rparr>) True True True = (AR_GUEST_OK, Some demo_empty)"
  by code_simp

lemma demo_router_ok: "router_ok (demo_router script)"
proof -
  obtain rc closed r' where
    a: "ar_guest_router_attach (demo_env script) (Some demo_empty) (Some [97]) 5 None = (rc, closed, r')"
    by (metis surj_pair)
  from attach_ok [OF _ _ a] create_ok [OF demo_empty_created] show ?thesis by (auto simp: demo_router_def a)
qed

text \<open>
  When the queue of a new guest cannot be allocated, \<open>attach\<close> closes the channel and with it the
  descriptor, and \<open>register\<close> closes the same descriptor again.
\<close>

lemma register_closes_descriptor_twice:
  "ar_guest_router_register ((demo_env [])\<lparr>env_alloc_queue := False\<rparr>) (Some (5, 6)) (Some demo_empty) (Some [97]) None True =
    (AR_GUEST_ERR_NOMEM, None, [5, 5, 6], Some demo_empty)"
  by code_simp

text \<open>However many guests are attached, \<open>dispatch\<close> looks at 64 of them.\<close>

lemma polled_at_most_64: "length (polled r) \<le> 64"
  by (simp add: polled_def AR_GUEST_ROUTER_MAX_GUESTS_def)

section \<open>Properties\<close>

text \<open>
  C38: The router neither loses, duplicates nor reorders messages. Over any sequence of sends and
  flushes to a guest, whatever the socket answers (room or not, interruptions, truncated writes,
  errors) and whatever allocations fail, the complete frames the socket has taken followed by
  the queued messages grow by exactly the messages for which send answered success, in the order
  of the calls. Other guests are not touched.
\<close>

theorem guest_messages_in_order:
  assumes "router_ok r" and "find_entry (Some r) (Some name) = Some i"
    and "\<forall>alloc m. Op_send alloc m \<in> set ops \<longrightarrow> payload_holds (qe_payload m) (qe_length m)"
    and "run_ops self name ops r = (accepted, r')"
  shows "outbound self (entries r' ! i) = outbound self (entries r ! i) @ map (queue_frame self) accepted \<and>
    gq_count (entries r' ! i) \<le> gq_capacity (entries r' ! i) \<and>
    (\<forall>j. j \<noteq> i \<longrightarrow> entries r' ! j = entries r ! j)"
proof -
  note run = run_ops_outbound [OF assms(3,1,2,4)]
  then have "entry_ok (entries r' ! i)" using find_entry_Some by blast
  then show ?thesis using run by (simp add: entry_ok_def gq_wf_def)
qed

text \<open>
  The socket has no room, then truncates a write, then takes both messages.
\<close>

theorem guest_messages_in_order_witness:
  "let m = demo_message 1; ops = [Op_send True m, Op_send True m, Op_flush, Op_flush];
       script = [Send_EAGAIN, Send_EAGAIN, Send_EINTR, Sent 3]
   in case run_ops host_identity [97] ops (demo_router script) of (accepted, r') \<Rightarrow>
     accepted = [m, m] \<and>
     outbound host_identity (entries r' ! 0) =
       outbound host_identity (entries (demo_router script) ! 0) @ map (queue_frame host_identity) [m, m]"
proof -
  let ?m = "demo_message 1"
  let ?ops = "[Op_send True ?m, Op_send True ?m, Op_flush, Op_flush]"
  let ?r = "demo_router [Send_EAGAIN, Send_EAGAIN, Send_EINTR, Sent 3]"
  obtain accepted r' where run: "run_ops host_identity [97] ?ops ?r = (accepted, r')" by (metis surj_pair)
  have "fst (run_ops host_identity [97] ?ops ?r) = [?m, ?m]" by code_simp
  then have acc: "accepted = [?m, ?m]" using run by simp
  have found: "find_entry (Some ?r) (Some [97]) = Some 0" by code_simp
  have "outbound host_identity (entries r' ! 0) =
      outbound host_identity (entries ?r ! 0) @ map (queue_frame host_identity) accepted"
    using guest_messages_in_order [OF demo_router_ok found _ run]
    by (auto simp: demo_message_def payload_holds_def)
  then show ?thesis using run acc by simp
qed



text \<open>
  Queued messages reach the guest as soon as the socket has room. If every queued message
  is one the channel may send, a flush on a socket that takes data answers success, empties
  the queue, and the socket has been given the queued frames in their order.
\<close>

theorem flush_delivers_all:
  assumes "router_ok r" and "find_entry (Some r) (Some name) = Some i"
    and "channel (entries r ! i) = Some c" and "send_script (chan_sock c) = []"
    and "io_timeout_ms (chan_config c) \<le> 0"
    and "\<forall>q \<in> set (gq_contents (entries r ! i)). sendable c (qe_flags q) (qe_payload q) (qe_length q)"
  shows "\<exists>r' c'. ar_guest_router_flush self (Some r) (Some name) = (AR_GUEST_OK, Some r') \<and>
    gq_count (entries r' ! i) = 0 \<and> channel (entries r' ! i) = Some c' \<and>
    frames_out c' = frames_out c @ map (queue_frame self) (gq_contents (entries r ! i))"
proof -
  note f = find_entry_Some [OF assms(1,2)]
  then have wf: "gq_wf (entries r ! i)" by (simp add: entry_ok_def)
  obtain e where e: "ar_guest_router_flush self (Some r) (Some name) =
      (fst (flush_entry_queue self (entries r ! i)), Some (set_entry r i e))"
    and e_def: "e = snd (flush_entry_queue self (entries r ! i))"
    and ok: "entry_ok e" "same_guest (entries r ! i) e" and out: "outbound self e = outbound self (entries r ! i)"
    using flush_entries [OF assms(1,2)] by metis
  have fin: "fst (flush_entry_queue self (entries r ! i)) = AR_GUEST_OK"
    using flush_loop_all [OF wf assms(3-6)] by (simp add: flush_entry_queue_def)
  then have "flush_loop self (gq_count (entries r ! i)) (entries r ! i) = (AR_GUEST_OK, e)"
    by (simp add: e_def flush_entry_queue_def prod_eq_iff)
  from flush_loop_outcome [OF _ this] f have empty: "gq_count e = 0" by simp
  then have "gq_contents e = []" by simp
  moreover obtain c' where "channel e = Some c'" using ok(1) by (auto simp: entry_ok_def)
  ultimately show ?thesis
    using e fin empty out assms(3) still_found(3) [OF assms(1,2) ok(2,1)] by (auto simp: outbound_def)
qed

theorem flush_delivers_all_witness:
  "let r = snd (run_ops host_identity [97] [Op_send True (demo_message 1)] (demo_router [Send_EAGAIN]))
   in gq_contents (entries r ! 0) = [demo_message 1] \<and>
      fst (ar_guest_router_flush host_identity (Some r) (Some [97])) = AR_GUEST_OK"
proof -
  let ?r = "snd (run_ops host_identity [97] [Op_send True (demo_message 1)] (demo_router [Send_EAGAIN]))"
  let ?c = "the (channel (entries ?r ! 0))"
  have queued: "gq_contents (entries ?r ! 0) = [demo_message 1]" by code_simp
  have found0: "find_entry (Some (demo_router [Send_EAGAIN])) (Some [97]) = Some 0" by code_simp
  have r: "router_ok ?r" "find_entry (Some ?r) (Some [97]) = Some 0"
    using run_ops_outbound [OF _ demo_router_ok found0, of "[Op_send True (demo_message 1)]" host_identity]
    by (auto simp: demo_message_def payload_holds_def prod_eq_iff)
  have c: "channel (entries ?r ! 0) = Some ?c"
    using find_entry_Some [OF r] by (auto simp: entry_ok_def)
  have ready: "send_script (chan_sock ?c) = []" "io_timeout_ms (chan_config ?c) \<le> 0"
    "sendable ?c (qe_flags (demo_message 1)) (qe_payload (demo_message 1)) (qe_length (demo_message 1))"
    by code_simp+
  from flush_delivers_all [OF r c ready(1,2), of host_identity] ready(3) queued show ?thesis by auto
qed



end
