(* ===== verification/Certificate.thy ===== *)
theory Certificate
  imports Sha512
begin

text \<open>
  The certificates and the trust store of \<open>src/libraries/pki/certificate.c\<close>. A certificate has
  the arrays of the C structure at their full length, with the used length beside them. Buffers
  that a function compares by address come with one (address 0 is the null pointer).
\<close>

section \<open>Data\<close>

datatype certificate_status =
    ALRIOS_CERTIFICATE_OK
  | ALRIOS_CERTIFICATE_ERR_INVALID_ARGUMENT
  | ALRIOS_CERTIFICATE_ERR_TRUNCATED
  | ALRIOS_CERTIFICATE_ERR_BAD_MAGIC
  | ALRIOS_CERTIFICATE_ERR_VERSION
  | ALRIOS_CERTIFICATE_ERR_LENGTH
  | ALRIOS_CERTIFICATE_ERR_ALGORITHM
  | ALRIOS_CERTIFICATE_ERR_FIELD
  | ALRIOS_CERTIFICATE_ERR_NONCANONICAL
  | ALRIOS_CERTIFICATE_ERR_CAPACITY
  | ALRIOS_CERTIFICATE_ERR_NOT_FOUND
  | ALRIOS_CERTIFICATE_ERR_DUPLICATE
  | ALRIOS_CERTIFICATE_ERR_SEALED
  | ALRIOS_CERTIFICATE_ERR_STATE
  | ALRIOS_CERTIFICATE_ERR_OVERLAP

definition CERT_HEADER :: nat where
  [limits]: "CERT_HEADER = 92"
definition CERT_SUBJECT_MAX :: nat where
  [limits]: "CERT_SUBJECT_MAX = 64"
definition CERT_HYBRID_KEY_SIZE :: nat where
  [limits]: "CERT_HYBRID_KEY_SIZE = 1984"
definition CERT_HYBRID_SIG_SIZE :: nat where
  [limits]: "CERT_HYBRID_SIG_SIZE = 3373"
definition CERT_WIRE_MAX :: nat where
  [limits]: "CERT_WIRE_MAX = 5513"
definition CERT_TBS_MAX :: nat where
  [limits]: "CERT_TBS_MAX = 2074"
definition TRUST_STORE_MAX_ANCHORS :: nat where
  [limits]: "TRUST_STORE_MAX_ANCHORS = 8"

definition ROLE_ROOT :: u8 where
  "ROLE_ROOT = 1"
definition ROLE_INTERMEDIATE :: u8 where
  "ROLE_INTERMEDIATE = 2"
definition ROLE_LEAF :: u8 where
  "ROLE_LEAF = 3"

record certificate =
  cert_version :: u16
  role :: u8
  public_key_algorithm :: u8
  signature_algorithm :: u8
  serial :: bytes
  issuer_key_id :: bytes
  not_before :: u64
  not_after :: u64
  subject_len :: nat
  subject :: bytes
  public_key_len :: nat
  public_key :: bytes
  signature_len :: nat
  signature :: bytes

text \<open>The size of the structure, with its padding.\<close>

definition SIZEOF_CERTIFICATE :: nat where
  [limits]: "SIZEOF_CERTIFICATE = 5520"

definition zero_certificate :: certificate where
  "zero_certificate =
     \<lparr>cert_version = 0, role = 0, public_key_algorithm = 0, signature_algorithm = 0, serial = zeros 16,
      issuer_key_id = zeros 32, not_before = 0, not_after = 0, subject_len = 0, subject = zeros CERT_SUBJECT_MAX,
      public_key_len = 0, public_key = zeros CERT_HYBRID_KEY_SIZE, signature_len = 0,
      signature = zeros CERT_HYBRID_SIG_SIZE\<rparr>"

record trust_store =
  anchors :: "certificate list"
  anchor_count :: nat
  store_sealed :: u8

definition certificate_magic :: bytes where
  "certificate_magic = [0x41, 0x4c, 0x52, 0x49, 0x43, 0x45, 0x52, 0x54]"

definition tbs_domain :: bytes where
  "tbs_domain = [0x41, 0x4c, 0x52, 0x49, 0x4f, 0x53, 0x2d, 0x43, 0x45,
     0x52, 0x54, 0x2d, 0x54, 0x42, 0x53, 0x2d, 0x56, 0x31]"

definition key_id_domain :: bytes where
  "key_id_domain = [0x41, 0x4c, 0x52, 0x49, 0x4f, 0x53, 0x2d, 0x4b,
     0x45, 0x59, 0x2d, 0x49, 0x44, 0x2d, 0x56, 0x31]"

section \<open>Validation\<close>

definition public_key_length :: "u8 \<Rightarrow> certificate_status + nat" where
  "public_key_length algorithm =
     (if algorithm = 1 then Inr 32
      else if algorithm = 2 then Inr 1952
      else if algorithm = 3 then Inr CERT_HYBRID_KEY_SIZE
      else Inl ALRIOS_CERTIFICATE_ERR_ALGORITHM)"

definition signature_length :: "u8 \<Rightarrow> certificate_status + nat" where
  "signature_length algorithm =
     (if algorithm = 1 then Inr 64
      else if algorithm = 2 then Inr 3309
      else if algorithm = 3 then Inr CERT_HYBRID_SIG_SIZE
      else Inl ALRIOS_CERTIFICATE_ERR_ALGORITHM)"

definition subject_char :: "u8 \<Rightarrow> bool" where
  "subject_char ch \<longleftrightarrow>
     0x61 \<le> ch \<and> ch \<le> 0x7a \<or> 0x30 \<le> ch \<and> ch \<le> 0x39 \<or> ch = 0x2e \<or> ch = 0x2d \<or> ch = 0x5f"

definition valid_subject :: "bytes \<Rightarrow> nat \<Rightarrow> bool" where
  "valid_subject sub len \<longleftrightarrow>
     \<not> (len = 0 \<or> CERT_SUBJECT_MAX < len) \<and> list_all subject_char (take len sub)"

text \<open>\<open>Inr\<close>: the certificate is valid and its image has that length.\<close>

definition validate_certificate :: "certificate option \<Rightarrow> certificate_status + nat" where
  "validate_certificate certificatep =
     (case certificatep of
        None \<Rightarrow> Inl ALRIOS_CERTIFICATE_ERR_INVALID_ARGUMENT
      | Some c \<Rightarrow>
          if cert_version c \<noteq> 1 then Inl ALRIOS_CERTIFICATE_ERR_VERSION
          else if role c < ROLE_ROOT \<or> ROLE_LEAF < role c then Inl ALRIOS_CERTIFICATE_ERR_FIELD
          else (case public_key_length (public_key_algorithm c) of
             Inl e \<Rightarrow> Inl e
           | Inr expected_key_len \<Rightarrow>
          (case signature_length (signature_algorithm c) of
             Inl e \<Rightarrow> Inl e
           | Inr expected_signature_len \<Rightarrow>
               if public_key_len c \<noteq> expected_key_len \<or> signature_len c \<noteq> expected_signature_len
               then Inl ALRIOS_CERTIFICATE_ERR_LENGTH
               else if \<not> valid_subject (subject c) (subject_len c) \<or> not_after c < not_before c
               then Inl ALRIOS_CERTIFICATE_ERR_FIELD
               else if list_all (\<lambda>b. b = 0) (take 16 (serial c)) \<or>
                       list_all (\<lambda>b. b = 0) (take (public_key_len c) (public_key c))
               then Inl ALRIOS_CERTIFICATE_ERR_FIELD
               else if UINT64_MAX - CERT_HEADER < subject_len c then Inl ALRIOS_CERTIFICATE_ERR_LENGTH
               else
                 let wire_len = CERT_HEADER + subject_len c
                 in if UINT64_MAX - wire_len < public_key_len c then Inl ALRIOS_CERTIFICATE_ERR_LENGTH
                    else
                      let wire_len = wire_len + public_key_len c
                      in if UINT64_MAX - wire_len < signature_len c then Inl ALRIOS_CERTIFICATE_ERR_LENGTH
                         else
                           let wire_len = wire_len + signature_len c
                           in if CERT_WIRE_MAX < wire_len \<or> 4294967295 < wire_len
                              then Inl ALRIOS_CERTIFICATE_ERR_LENGTH
                              else Inr wire_len)))"

section \<open>The wire format\<close>

definition encode_header :: "certificate \<Rightarrow> nat \<Rightarrow> bytes" where
  "encode_header c wire_len =
     (let h = zeros CERT_HEADER;
          h = memwrite h 0 certificate_magic;
          h = memwrite h 8 (store_u16_be (cert_version c));
          h = memwrite h 10 [role c];
          h = memwrite h 11 [public_key_algorithm c];
          h = memwrite h 12 [signature_algorithm c];
          h = memwrite h 16 (store_u32_be (of_nat wire_len));
          h = memwrite h 20 (store_u16_be (of_nat (subject_len c)));
          h = memwrite h 22 (store_u16_be (of_nat (public_key_len c)));
          h = memwrite h 24 (store_u16_be (of_nat (signature_len c)));
          h = memwrite h 28 (take 16 (serial c));
          h = memwrite h 44 (take 32 (issuer_key_id c));
          h = memwrite h 76 (store_u64_be (not_before c));
          h = memwrite h 84 (store_u64_be (not_after c))
      in h)"

text \<open>
  The certificate that the bytes of an image of acceptable lengths stand for: the part of
  decoding behind the length checks.
\<close>

definition decoded_fields :: "bytes \<Rightarrow> nat \<Rightarrow> nat \<Rightarrow> nat \<Rightarrow> certificate" where
  "decoded_fields wire sub_len key_len sig_len =
     \<lparr>cert_version = load_u16_be (drop 8 wire), role = wire ! 10, public_key_algorithm = wire ! 11,
      signature_algorithm = wire ! 12, serial = take 16 (drop 28 wire), issuer_key_id = take 32 (drop 44 wire),
      not_before = load_u64_be (drop 76 wire), not_after = load_u64_be (drop 84 wire),
      subject_len = sub_len,
      subject = memwrite (zeros CERT_SUBJECT_MAX) 0 (take sub_len (drop CERT_HEADER wire)),
      public_key_len = key_len,
      public_key = memwrite (zeros CERT_HYBRID_KEY_SIZE) 0 (take key_len (drop (CERT_HEADER + sub_len) wire)),
      signature_len = sig_len,
      signature = memwrite (zeros CERT_HYBRID_SIG_SIZE) 0 (take sig_len (drop (CERT_HEADER + sub_len + key_len) wire))\<rparr>"

definition decode_body :: "bytes \<Rightarrow> nat \<Rightarrow> certificate_status + certificate" where
  "decode_body wire wire_len =
     (if wire_len < CERT_HEADER then Inl ALRIOS_CERTIFICATE_ERR_TRUNCATED
      else if \<not> memeq wire certificate_magic 8 then Inl ALRIOS_CERTIFICATE_ERR_BAD_MAGIC
      else if load_u16_be (drop 8 wire) \<noteq> 1 then Inl ALRIOS_CERTIFICATE_ERR_VERSION
      else if wire ! 13 \<noteq> 0 \<or> wire ! 14 \<noteq> 0 \<or> wire ! 15 \<noteq> 0 \<or> wire ! 26 \<noteq> 0 \<or> wire ! 27 \<noteq> 0
      then Inl ALRIOS_CERTIFICATE_ERR_NONCANONICAL
      else if unat (load_u32_be (drop 16 wire)) \<noteq> wire_len \<or> CERT_WIRE_MAX < wire_len
      then Inl ALRIOS_CERTIFICATE_ERR_LENGTH
      else
        let sub_len = unat (load_u16_be (drop 20 wire));
            key_len = unat (load_u16_be (drop 22 wire));
            sig_len = unat (load_u16_be (drop 24 wire))
        in (case public_key_length (wire ! 11) of
             Inl e \<Rightarrow> Inl e
           | Inr expected_key_len \<Rightarrow>
          (case signature_length (wire ! 12) of
             Inl e \<Rightarrow> Inl e
           | Inr expected_signature_len \<Rightarrow>
               if sub_len = 0 \<or> CERT_SUBJECT_MAX < sub_len \<or> key_len \<noteq> expected_key_len \<or> sig_len \<noteq> expected_signature_len
               then Inl ALRIOS_CERTIFICATE_ERR_LENGTH
               else if UINT64_MAX - CERT_HEADER < sub_len then Inl ALRIOS_CERTIFICATE_ERR_LENGTH
               else if UINT64_MAX - (CERT_HEADER + sub_len) < key_len then Inl ALRIOS_CERTIFICATE_ERR_LENGTH
               else if UINT64_MAX - (CERT_HEADER + sub_len + key_len) < sig_len then Inl ALRIOS_CERTIFICATE_ERR_LENGTH
               else if CERT_HEADER + sub_len + key_len + sig_len \<noteq> wire_len then Inl ALRIOS_CERTIFICATE_ERR_LENGTH
               else
                 let decoded = decoded_fields wire sub_len key_len sig_len
                 in case validate_certificate (Some decoded) of
                   Inl e \<Rightarrow> Inl e
                 | Inr total_len \<Rightarrow>
                     if total_len \<noteq> wire_len then Inl ALRIOS_CERTIFICATE_ERR_LENGTH else Inr decoded)))"

text \<open>\<open>out_at\<close> is the address of the caller's structure; the second answer is its new content.\<close>

definition alrios_certificate_decode ::
  "(addr \<times> bytes) option \<Rightarrow> nat \<Rightarrow> addr option \<Rightarrow> certificate_status \<times> certificate option" where
  "alrios_certificate_decode wirep wire_len out_at =
     (case out_at of
        None \<Rightarrow> (ALRIOS_CERTIFICATE_ERR_INVALID_ARGUMENT, None)
      | Some out \<Rightarrow>
          (case wirep of
             None \<Rightarrow> (ALRIOS_CERTIFICATE_ERR_INVALID_ARGUMENT, Some zero_certificate)
           | Some (wire_at, wire) \<Rightarrow>
               if ranges_overlap wire_at wire_len out SIZEOF_CERTIFICATE
               then (ALRIOS_CERTIFICATE_ERR_OVERLAP, Some zero_certificate)
               else (case decode_body wire wire_len of
                  Inl status \<Rightarrow> (status, Some zero_certificate)
                | Inr decoded \<Rightarrow> (ALRIOS_CERTIFICATE_OK, Some decoded))))"

text \<open>
  Both encoders answer the status, the caller's buffer and the number they store in
  \<open>*out_written\<close>, if there is one.
\<close>

definition alrios_certificate_encode ::
  "(addr \<times> certificate) option \<Rightarrow> (addr \<times> bytes) option \<Rightarrow> nat \<Rightarrow> bool \<Rightarrow>
   certificate_status \<times> bytes option \<times> nat option" where
  "alrios_certificate_encode certificatep out_wirep out_capacity out_written =
     (case (certificatep, out_wirep, out_written) of
        (Some (at, c), Some (out_at, out_wire), True) \<Rightarrow>
          (case validate_certificate (Some c) of
             Inl status \<Rightarrow> (status, Some out_wire, Some 0)
           | Inr wire_len \<Rightarrow>
               if out_capacity < wire_len then (ALRIOS_CERTIFICATE_ERR_CAPACITY, Some out_wire, Some 0)
               else if ranges_overlap at SIZEOF_CERTIFICATE out_at wire_len
               then (ALRIOS_CERTIFICATE_ERR_OVERLAP, Some out_wire, Some 0)
               else
                 let w = memwrite out_wire 0 (encode_header c wire_len);
                     w = memwrite w CERT_HEADER (take (subject_len c) (subject c));
                     w = memwrite w (CERT_HEADER + subject_len c) (take (public_key_len c) (public_key c));
                     w = memwrite w (CERT_HEADER + subject_len c + public_key_len c) (take (signature_len c) (signature c))
                 in (ALRIOS_CERTIFICATE_OK, Some w, Some wire_len))
      | _ \<Rightarrow> (ALRIOS_CERTIFICATE_ERR_INVALID_ARGUMENT, map_option snd out_wirep,
              if out_written then Some 0 else None))"

definition alrios_certificate_encode_tbs ::
  "(addr \<times> certificate) option \<Rightarrow> (addr \<times> bytes) option \<Rightarrow> nat \<Rightarrow> bool \<Rightarrow>
   certificate_status \<times> bytes option \<times> nat option" where
  "alrios_certificate_encode_tbs certificatep out_tbsp out_capacity out_written =
     (case (certificatep, out_tbsp, out_written) of
        (Some (at, c), Some (out_at, out_tbs), True) \<Rightarrow>
          (case validate_certificate (Some c) of
             Inl status \<Rightarrow> (status, Some out_tbs, Some 0)
           | Inr wire_len \<Rightarrow>
               let tbs_len = 18 + CERT_HEADER + subject_len c + public_key_len c
               in if CERT_TBS_MAX < tbs_len \<or> out_capacity < tbs_len
                  then (ALRIOS_CERTIFICATE_ERR_CAPACITY, Some out_tbs, Some 0)
                  else if ranges_overlap at SIZEOF_CERTIFICATE out_at tbs_len
                  then (ALRIOS_CERTIFICATE_ERR_OVERLAP, Some out_tbs, Some 0)
                  else
                    let w = memwrite out_tbs 0 tbs_domain;
                        w = memwrite w 18 (encode_header c wire_len);
                        w = memwrite w (18 + CERT_HEADER) (take (subject_len c) (subject c));
                        w = memwrite w (18 + CERT_HEADER + subject_len c) (take (public_key_len c) (public_key c))
                    in (ALRIOS_CERTIFICATE_OK, Some w, Some tbs_len))
      | _ \<Rightarrow> (ALRIOS_CERTIFICATE_ERR_INVALID_ARGUMENT, map_option snd out_tbsp,
              if out_written then Some 0 else None))"

section \<open>Key identifiers\<close>

text \<open>The part of the key array that the hash is given is the part its length covers.\<close>

definition alrios_certificate_public_key_id ::
  "certificate option \<Rightarrow> bool \<Rightarrow> certificate_status \<times> bytes option" where
  "alrios_certificate_public_key_id certificatep out_key_id =
     (case (certificatep, out_key_id) of
        (Some c, True) \<Rightarrow>
          (case validate_certificate (Some c) of
             Inl status \<Rightarrow> (status, Some (zeros 32))
           | Inr wire_len \<Rightarrow>
               let algorithm_and_length = public_key_algorithm c # store_u16_be (of_nat (public_key_len c));
                   digest =
                     (case alrios_sha512_init (Some zero_ctx) of (r1, c1) \<Rightarrow>
                        if r1 \<noteq> ALRIOS_CRYPTO_OK then None
                        else case alrios_sha512_update c1 (Some key_id_domain) 16 of (r2, c2) \<Rightarrow>
                          if r2 \<noteq> ALRIOS_CRYPTO_OK then None
                          else case alrios_sha512_update c2 (Some algorithm_and_length) 3 of (r3, c3) \<Rightarrow>
                            if r3 \<noteq> ALRIOS_CRYPTO_OK then None
                            else case alrios_sha512_update c3 (Some (take (public_key_len c) (public_key c))) (public_key_len c) of (r4, c4) \<Rightarrow>
                              if r4 \<noteq> ALRIOS_CRYPTO_OK then None
                              else case alrios_sha512_final c4 True of (r5, digest, _) \<Rightarrow>
                                if r5 \<noteq> ALRIOS_CRYPTO_OK then None else digest)
               in (case digest of
                     None \<Rightarrow> (ALRIOS_CERTIFICATE_ERR_FIELD, Some (zeros 32))
                   | Some d \<Rightarrow> (ALRIOS_CERTIFICATE_OK, Some (take 32 d))))
      | _ \<Rightarrow> (ALRIOS_CERTIFICATE_ERR_INVALID_ARGUMENT, if out_key_id then Some (zeros 32) else None))"

section \<open>The trust store\<close>

definition validate_store :: "trust_store option \<Rightarrow> certificate_status" where
  "validate_store storep =
     (case storep of
        None \<Rightarrow> ALRIOS_CERTIFICATE_ERR_INVALID_ARGUMENT
      | Some st \<Rightarrow>
          if TRUST_STORE_MAX_ANCHORS < anchor_count st \<or> 1 < store_sealed st
          then ALRIOS_CERTIFICATE_ERR_STATE else ALRIOS_CERTIFICATE_OK)"

definition zero_store :: trust_store where
  "zero_store = \<lparr>anchors = replicate TRUST_STORE_MAX_ANCHORS zero_certificate, anchor_count = 0, store_sealed = 0\<rparr>"

definition alrios_trust_store_init :: "trust_store option \<Rightarrow> trust_store option" where
  "alrios_trust_store_init storep = (case storep of None \<Rightarrow> None | Some _ \<Rightarrow> Some zero_store)"

text \<open>The scan for an anchor with the same key identifier; \<open>None\<close> when there is none.\<close>

fun duplicate_scan :: "bytes \<Rightarrow> certificate list \<Rightarrow> certificate_status option" where
  "duplicate_scan new_key_id [] = None"
| "duplicate_scan new_key_id (a # as) =
     (case alrios_certificate_public_key_id (Some a) True of
        (status, existing_key_id) \<Rightarrow>
          if status \<noteq> ALRIOS_CERTIFICATE_OK then Some status
          else if memeq new_key_id (the existing_key_id) 32 then Some ALRIOS_CERTIFICATE_ERR_DUPLICATE
          else duplicate_scan new_key_id as)"

definition alrios_trust_store_add_anchor ::
  "trust_store option \<Rightarrow> certificate option \<Rightarrow> certificate_status \<times> trust_store option" where
  "alrios_trust_store_add_anchor storep certificatep =
     (let status = validate_store storep
      in if status \<noteq> ALRIOS_CERTIFICATE_OK then (status, storep)
         else case (storep, certificatep) of
           (Some st, Some c) \<Rightarrow>
             if store_sealed st \<noteq> 0 then (ALRIOS_CERTIFICATE_ERR_SEALED, storep)
             else if role c \<noteq> ROLE_ROOT then (ALRIOS_CERTIFICATE_ERR_FIELD, storep)
             else (case validate_certificate certificatep of
                Inl e \<Rightarrow> (e, storep)
              | Inr wire_len \<Rightarrow>
                  if TRUST_STORE_MAX_ANCHORS \<le> anchor_count st then (ALRIOS_CERTIFICATE_ERR_CAPACITY, storep)
                  else (case alrios_certificate_public_key_id certificatep True of
                     (status, new_key_id) \<Rightarrow>
                       if status \<noteq> ALRIOS_CERTIFICATE_OK then (status, storep)
                       else (case duplicate_scan (the new_key_id) (take (anchor_count st) (anchors st)) of
                          Some e \<Rightarrow> (e, storep)
                        | None \<Rightarrow>
                            (ALRIOS_CERTIFICATE_OK,
                             Some (st\<lparr>anchors := (anchors st)[anchor_count st := c],
                                      anchor_count := anchor_count st + 1\<rparr>)))))
         | _ \<Rightarrow> (ALRIOS_CERTIFICATE_ERR_INVALID_ARGUMENT, storep))"

fun seal_scan :: "certificate list \<Rightarrow> certificate_status" where
  "seal_scan [] = ALRIOS_CERTIFICATE_OK"
| "seal_scan (a # as) =
     (if role a \<noteq> ROLE_ROOT then ALRIOS_CERTIFICATE_ERR_STATE
      else case validate_certificate (Some a) of Inl e \<Rightarrow> e | Inr _ \<Rightarrow> seal_scan as)"

definition alrios_trust_store_seal :: "trust_store option \<Rightarrow> certificate_status \<times> trust_store option" where
  "alrios_trust_store_seal storep =
     (let status = validate_store storep
      in if status \<noteq> ALRIOS_CERTIFICATE_OK then (status, storep)
         else
           let st = the storep
           in if anchor_count st = 0 then (ALRIOS_CERTIFICATE_ERR_FIELD, storep)
              else
                let status = seal_scan (take (anchor_count st) (anchors st))
                in if status \<noteq> ALRIOS_CERTIFICATE_OK then (status, storep)
                   else (ALRIOS_CERTIFICATE_OK, Some (st\<lparr>store_sealed := 1\<rparr>)))"

fun lookup_scan :: "bytes \<Rightarrow> certificate list \<Rightarrow> certificate_status \<times> certificate option" where
  "lookup_scan key_id [] = (ALRIOS_CERTIFICATE_ERR_NOT_FOUND, None)"
| "lookup_scan key_id (a # as) =
     (case alrios_certificate_public_key_id (Some a) True of
        (status, candidate) \<Rightarrow>
          if status \<noteq> ALRIOS_CERTIFICATE_OK then (status, None)
          else if memeq (the candidate) key_id 32 then (ALRIOS_CERTIFICATE_OK, Some a)
          else lookup_scan key_id as)"

text \<open>The pointer into the store that a lookup delivers is given as the anchor it points to.\<close>

definition alrios_trust_store_lookup ::
  "trust_store option \<Rightarrow> bytes option \<Rightarrow> bool \<Rightarrow> certificate_status \<times> certificate option" where
  "alrios_trust_store_lookup storep key_idp out_certificate =
     (case (storep, key_idp, out_certificate) of
        (Some st, Some key_id, True) \<Rightarrow>
          let status = validate_store storep
          in if status \<noteq> ALRIOS_CERTIFICATE_OK then (status, None)
             else if store_sealed st = 0 then (ALRIOS_CERTIFICATE_ERR_SEALED, None)
             else lookup_scan key_id (take (anchor_count st) (anchors st))
      | _ \<Rightarrow> (ALRIOS_CERTIFICATE_ERR_INVALID_ARGUMENT, None))"

definition alrios_trust_store_clear :: "trust_store option \<Rightarrow> trust_store option" where
  "alrios_trust_store_clear storep = (case storep of None \<Rightarrow> None | Some _ \<Rightarrow> Some zero_store)"

end
