(* ===== verification/Issuer.thy ===== *)
theory Issuer
  imports Certificate
begin

text \<open>
  Issuing certificates and verifying chains, \<open>src/libraries/pki/issuer.c\<close>. Keys and signatures
  are OpenSSL's: a private key is an opaque byte string, and what the calls answer is part of an
  environment. A local array never overlaps an object of the caller; it is given address 0, for
  which the overlap check answers no.
\<close>

datatype issuer_status =
    ALRIOS_ISSUER_OK
  | ALRIOS_ISSUER_ERR_INVALID_ARGUMENT
  | ALRIOS_ISSUER_ERR_KEYGEN_FAILED
  | ALRIOS_ISSUER_ERR_SIGN_FAILED
  | ALRIOS_ISSUER_ERR_ENCODE_FAILED
  | ALRIOS_ISSUER_ERR_VERIFY_FAILED
  | ALRIOS_ISSUER_ERR_IO_FAILED
  | ALRIOS_ISSUER_ERR_EXPIRED
  | ALRIOS_ISSUER_ERR_CHAIN_INVALID

text \<open>
  \<open>keygen\<close>: a new private key with its raw public key; \<open>rand_serial\<close>: the 16 random bytes;
  \<open>clock_now\<close>: \<open>time(NULL)\<close>; \<open>sign_with\<close>: the signature of a message under a private key;
  \<open>tbs_array\<close>: the content of the uninitialised local array. \<^const>\<open>None\<close> is failure, and a call that
  fails is taken to leave its output array as it was.
\<close>

record issuer_env =
  keygen :: "(bytes \<times> bytes) option"
  rand_serial :: "bytes option"
  clock_now :: u64
  sign_with :: "bytes \<Rightarrow> bytes \<Rightarrow> bytes option"
  tbs_array :: bytes

text \<open>The memory behind the output pointers of an issuing call.\<close>

record issue_outputs =
  out_pkey :: "bytes option"
  out_cert_at :: addr
  out_cert :: certificate
  out_wire_at :: addr
  out_wire :: bytes
  out_capacity :: nat
  out_wire_len :: nat

section \<open>Issuing\<close>

definition generate_ed25519_keypair :: "issuer_env \<Rightarrow> issuer_status + bytes \<times> bytes" where
  "generate_ed25519_keypair env =
     (case keygen env of
        None \<Rightarrow> Inl ALRIOS_ISSUER_ERR_KEYGEN_FAILED
      | Some (pkey, raw_pub) \<Rightarrow>
          if length raw_pub \<noteq> 32 then Inl ALRIOS_ISSUER_ERR_KEYGEN_FAILED else Inr (pkey, raw_pub))"

definition sign_tbs :: "issuer_env \<Rightarrow> bytes \<Rightarrow> bytes \<Rightarrow> issuer_status + bytes" where
  "sign_tbs env signing_key tbs =
     (case sign_with env signing_key tbs of
        None \<Rightarrow> Inl ALRIOS_ISSUER_ERR_SIGN_FAILED
      | Some sig \<Rightarrow> if length sig \<noteq> 64 then Inl ALRIOS_ISSUER_ERR_SIGN_FAILED else Inr sig)"

definition fresh_certificate :: "u8 \<Rightarrow> certificate" where
  "fresh_certificate r =
     zero_certificate\<lparr>cert_version := 1, role := r, public_key_algorithm := 1, signature_algorithm := 1\<rparr>"

text \<open>Validity period, subject and key, as every issuing function stores them.\<close>

definition fill_certificate :: "u64 \<Rightarrow> u64 \<Rightarrow> bytes \<Rightarrow> bytes \<Rightarrow> certificate \<Rightarrow> certificate" where
  "fill_certificate now valid_days sub raw_pub c =
     c\<lparr>not_before := now, not_after := now + valid_days * 86400,
       subject_len := length sub, subject := memwrite (subject c) 0 sub,
       public_key_len := 32, public_key := memwrite (public_key c) 0 raw_pub, signature_len := 64\<rparr>"

text \<open>The common end: encode the signed part, sign it, encode the certificate.\<close>

definition sign_and_encode ::
  "issuer_env \<Rightarrow> bytes \<Rightarrow> bytes \<Rightarrow> certificate \<Rightarrow> issue_outputs \<Rightarrow> issuer_status \<times> issue_outputs" where
  "sign_and_encode env signing_key pkey c out =
     (case alrios_certificate_encode_tbs (Some (out_cert_at out, c)) (Some (0, tbs_array env)) CERT_TBS_MAX True of
        (status, tbs, tbs_len) \<Rightarrow>
          if status \<noteq> ALRIOS_CERTIFICATE_OK then (ALRIOS_ISSUER_ERR_ENCODE_FAILED, out\<lparr>out_cert := c\<rparr>)
          else (case sign_tbs env signing_key (take (the tbs_len) (the tbs)) of
             Inl _ \<Rightarrow> (ALRIOS_ISSUER_ERR_SIGN_FAILED, out\<lparr>out_cert := c\<rparr>)
           | Inr sig \<Rightarrow>
               let c = c\<lparr>signature := memwrite (signature c) 0 sig\<rparr>
               in case alrios_certificate_encode (Some (out_cert_at out, c)) (Some (out_wire_at out, out_wire out))
                         (out_capacity out) True of
                    (status, wire, written) \<Rightarrow>
                      if status \<noteq> ALRIOS_CERTIFICATE_OK
                      then (ALRIOS_ISSUER_ERR_ENCODE_FAILED, out\<lparr>out_cert := c, out_wire_len := the written\<rparr>)
                      else (ALRIOS_ISSUER_OK,
                            out\<lparr>out_cert := c, out_wire := the wire, out_wire_len := the written, out_pkey := Some pkey\<rparr>)))"

definition alrios_pki_issue_root ::
  "issuer_env \<Rightarrow> bytes option \<Rightarrow> u64 \<Rightarrow> issue_outputs option \<Rightarrow> issuer_status \<times> issue_outputs option" where
  "alrios_pki_issue_root env subjectp valid_days outp =
     (case (subjectp, outp) of
        (Some sub, Some out) \<Rightarrow>
          if sub = [] \<or> CERT_SUBJECT_MAX < length sub then (ALRIOS_ISSUER_ERR_INVALID_ARGUMENT, outp)
          else (case generate_ed25519_keypair env of
             Inl rc \<Rightarrow> (rc, outp)
           | Inr (pkey, raw_pub) \<Rightarrow>
               let c = fresh_certificate ROLE_ROOT
               in (case rand_serial env of
                  None \<Rightarrow> (ALRIOS_ISSUER_ERR_KEYGEN_FAILED, Some (out\<lparr>out_cert := c\<rparr>))
                | Some bs \<Rightarrow>
                    let c = fill_certificate (clock_now env) valid_days sub raw_pub (c\<lparr>serial := bs\<rparr>)
                    in (case alrios_certificate_public_key_id (Some c) True of
                       (status, key_id) \<Rightarrow>
                         let c = c\<lparr>issuer_key_id := the key_id\<rparr>
                         in if status \<noteq> ALRIOS_CERTIFICATE_OK
                            then (ALRIOS_ISSUER_ERR_KEYGEN_FAILED, Some (out\<lparr>out_cert := c\<rparr>))
                            else (case sign_and_encode env pkey pkey c out of (rc, out') \<Rightarrow> (rc, Some out')))))
      | _ \<Rightarrow> (ALRIOS_ISSUER_ERR_INVALID_ARGUMENT, outp))"

text \<open>
  The bodies of \<open>alrios_pki_issue_intermediate\<close> and \<open>alrios_pki_issue_leaf\<close> differ in the role
  only; \<open>parentp\<close> is the issuer's certificate with its private key.
\<close>

definition issue_child ::
  "u8 \<Rightarrow> issuer_env \<Rightarrow> bytes option \<Rightarrow> u64 \<Rightarrow> (certificate \<times> bytes) option \<Rightarrow> issue_outputs option \<Rightarrow>
   issuer_status \<times> issue_outputs option" where
  "issue_child r env subjectp valid_days parentp outp =
     (case (subjectp, parentp, outp) of
        (Some sub, Some (parent_cert, parent_pkey), Some out) \<Rightarrow>
          if sub = [] \<or> CERT_SUBJECT_MAX < length sub then (ALRIOS_ISSUER_ERR_INVALID_ARGUMENT, outp)
          else (case generate_ed25519_keypair env of
             Inl rc \<Rightarrow> (rc, outp)
           | Inr (pkey, raw_pub) \<Rightarrow>
               let c = fresh_certificate r
               in (case rand_serial env of
                  None \<Rightarrow> (ALRIOS_ISSUER_ERR_KEYGEN_FAILED, Some (out\<lparr>out_cert := c\<rparr>))
                | Some bs \<Rightarrow>
                    (case alrios_certificate_public_key_id (Some parent_cert) True of
                       (status, key_id) \<Rightarrow>
                         let c = c\<lparr>serial := bs, issuer_key_id := the key_id\<rparr>
                         in if status \<noteq> ALRIOS_CERTIFICATE_OK
                            then (ALRIOS_ISSUER_ERR_KEYGEN_FAILED, Some (out\<lparr>out_cert := c\<rparr>))
                            else (case sign_and_encode env parent_pkey pkey
                                    (fill_certificate (clock_now env) valid_days sub raw_pub c) out of
                               (rc, out') \<Rightarrow> (rc, Some out')))))
      | _ \<Rightarrow> (ALRIOS_ISSUER_ERR_INVALID_ARGUMENT, outp))"

definition alrios_pki_issue_intermediate ::
  "issuer_env \<Rightarrow> bytes option \<Rightarrow> u64 \<Rightarrow> (certificate \<times> bytes) option \<Rightarrow> issue_outputs option \<Rightarrow>
   issuer_status \<times> issue_outputs option" where
  "alrios_pki_issue_intermediate = issue_child ROLE_INTERMEDIATE"

definition alrios_pki_issue_leaf ::
  "issuer_env \<Rightarrow> bytes option \<Rightarrow> u64 \<Rightarrow> (certificate \<times> bytes) option \<Rightarrow> issue_outputs option \<Rightarrow>
   issuer_status \<times> issue_outputs option" where
  "alrios_pki_issue_leaf = issue_child ROLE_LEAF"

section \<open>Verifying\<close>

text \<open>
  \<open>raw_public_key_ok\<close>: whether OpenSSL takes the bytes as an Ed25519 key; \<open>ed25519_verify\<close>: the
  check of a signature on a message under such a key.
\<close>

record verify_env =
  raw_public_key_ok :: "bytes \<Rightarrow> bool"
  verify_ctx_ok :: bool
  verify_init_ok :: bool
  ed25519_verify :: "bytes \<Rightarrow> bytes \<Rightarrow> bytes \<Rightarrow> bool"
  verify_tbs_array :: bytes

definition verify_cert_signature :: "verify_env \<Rightarrow> certificate \<Rightarrow> certificate \<Rightarrow> issuer_status" where
  "verify_cert_signature env child parent =
     (case alrios_certificate_encode_tbs (Some (1, child)) (Some (0, verify_tbs_array env)) CERT_TBS_MAX True of
        (status, tbs, tbs_len) \<Rightarrow>
          if status \<noteq> ALRIOS_CERTIFICATE_OK then ALRIOS_ISSUER_ERR_VERIFY_FAILED
          else
            let parent_key = take (public_key_len parent) (public_key parent)
            in if \<not> raw_public_key_ok env parent_key then ALRIOS_ISSUER_ERR_VERIFY_FAILED
               else if \<not> verify_ctx_ok env then ALRIOS_ISSUER_ERR_VERIFY_FAILED
               else if \<not> verify_init_ok env then ALRIOS_ISSUER_ERR_VERIFY_FAILED
               else if ed25519_verify env parent_key (take (signature_len child) (signature child))
                         (take (the tbs_len) (the tbs))
               then ALRIOS_ISSUER_OK else ALRIOS_ISSUER_ERR_VERIFY_FAILED)"

definition alrios_pki_verify_chain ::
  "verify_env \<Rightarrow> trust_store option \<Rightarrow> certificate option \<Rightarrow> certificate option \<Rightarrow> u64 \<Rightarrow> issuer_status" where
  "alrios_pki_verify_chain env storep leafp interp current_time =
     (case (storep, leafp, interp) of
        (Some _, Some leaf_cert, Some inter_cert) \<Rightarrow>
          if current_time < not_before leaf_cert \<or> not_after leaf_cert < current_time then ALRIOS_ISSUER_ERR_EXPIRED
          else if current_time < not_before inter_cert \<or> not_after inter_cert < current_time
          then ALRIOS_ISSUER_ERR_EXPIRED
          else if role leaf_cert \<noteq> ROLE_LEAF then ALRIOS_ISSUER_ERR_CHAIN_INVALID
          else if role inter_cert \<noteq> ROLE_INTERMEDIATE then ALRIOS_ISSUER_ERR_CHAIN_INVALID
          else (case alrios_trust_store_lookup storep (Some (issuer_key_id inter_cert)) True of
             (status, anchorp) \<Rightarrow>
               if status \<noteq> ALRIOS_CERTIFICATE_OK \<or> anchorp = None then ALRIOS_ISSUER_ERR_CHAIN_INVALID
               else
                 let root_anchor = the anchorp
                 in if current_time < not_before root_anchor \<or> not_after root_anchor < current_time
                    then ALRIOS_ISSUER_ERR_EXPIRED
                    else (case alrios_certificate_public_key_id (Some inter_cert) True of
                       (status, inter_key_id) \<Rightarrow>
                         if status \<noteq> ALRIOS_CERTIFICATE_OK then ALRIOS_ISSUER_ERR_CHAIN_INVALID
                         else if \<not> memeq (issuer_key_id leaf_cert) (the inter_key_id) 32
                         then ALRIOS_ISSUER_ERR_CHAIN_INVALID
                         else if verify_cert_signature env leaf_cert inter_cert \<noteq> ALRIOS_ISSUER_OK
                         then ALRIOS_ISSUER_ERR_VERIFY_FAILED
                         else if verify_cert_signature env inter_cert root_anchor \<noteq> ALRIOS_ISSUER_OK
                         then ALRIOS_ISSUER_ERR_VERIFY_FAILED
                         else ALRIOS_ISSUER_OK))
      | _ \<Rightarrow> ALRIOS_ISSUER_ERR_INVALID_ARGUMENT)"

end
