(* ===== verification/CertificateLaws.thy ===== *)
theory CertificateLaws
  imports Certificate SealedRecord
begin

text \<open>
  The wire image of a certificate and what decoding accepts, the signed part of it, key
  identifiers, and the trust store. The certificate is a third instance of the contract
  \<open>sealed_record\<close>.
\<close>

section \<open>Validity\<close>

text \<open>The arrays of the structure at their declared sizes.\<close>

definition cert_arrays :: "certificate \<Rightarrow> bool" where
  "cert_arrays c \<longleftrightarrow>
     length (serial c) = 16 \<and> length (issuer_key_id c) = 32 \<and> length (subject c) = 64 \<and>
     length (public_key c) = 1984 \<and> length (signature c) = 3373"

text \<open>What a certificate must satisfy, apart from its image.\<close>

definition cert_valid :: "certificate \<Rightarrow> bool" where
  "cert_valid c \<longleftrightarrow>
     cert_version c = 1 \<and> role c \<in> {ROLE_ROOT, ROLE_INTERMEDIATE, ROLE_LEAF} \<and>
     public_key_length (public_key_algorithm c) = Inr (public_key_len c) \<and>
     signature_length (signature_algorithm c) = Inr (signature_len c) \<and>
     0 < subject_len c \<and> subject_len c \<le> 64 \<and> list_all subject_char (take (subject_len c) (subject c)) \<and>
     not_before c \<le> not_after c \<and> (\<exists>b \<in> set (take 16 (serial c)). b \<noteq> 0) \<and>
     (\<exists>b \<in> set (take (public_key_len c) (public_key c)). b \<noteq> 0)"

definition cert_wire_len :: "certificate \<Rightarrow> nat" where
  "cert_wire_len c = 92 + subject_len c + public_key_len c + signature_len c"

lemma role_range: "\<not> (x < ROLE_ROOT \<or> ROLE_LEAF < x) \<longleftrightarrow> x \<in> {ROLE_ROOT, ROLE_INTERMEDIATE, ROLE_LEAF}"
proof -
  have "(x \<noteq> 0 \<and> x \<le> 3) = (x = 1 \<or> x = 2 \<or> x = (3::u8))"
  proof
    assume "x \<noteq> 0 \<and> x \<le> 3"
    then have "1 \<le> unat x" "unat x \<le> 3" by (simp_all add: word_le_nat_alt unat_gt_0 Suc_le_eq)
    then have "unat x = 1 \<or> unat x = 2 \<or> unat x = 3" by linarith
    then show "x = 1 \<or> x = 2 \<or> x = 3"
      by (elim disjE) (simp_all add: word_unat_eq_iff)
  qed auto
  then show ?thesis by (simp add: ROLE_ROOT_def ROLE_INTERMEDIATE_def ROLE_LEAF_def not_less)
qed

lemma public_key_length_bound: "public_key_length a = Inr n \<Longrightarrow> 0 < n \<and> n \<le> 1984"
  by (auto simp: public_key_length_def CERT_HYBRID_KEY_SIZE_def split: if_splits)

lemma signature_length_bound: "signature_length a = Inr n \<Longrightarrow> 0 < n \<and> n \<le> 3373"
  by (auto simp: signature_length_def CERT_HYBRID_SIG_SIZE_def split: if_splits)

lemma cert_valid_bounds:
  assumes "cert_valid c"
  shows "subject_len c \<le> 64" and "public_key_len c \<le> 1984" and "signature_len c \<le> 3373"
    and "0 < subject_len c" and "0 < public_key_len c" and "0 < signature_len c"
    and "cert_wire_len c \<le> 5513"
  using assms public_key_length_bound [of "public_key_algorithm c" "public_key_len c"]
    signature_length_bound [of "signature_algorithm c" "signature_len c"]
  by (auto simp: cert_valid_def cert_wire_len_def)

lemma validate_certificate_iff:
  "validate_certificate (Some c) = Inr n \<longleftrightarrow> cert_valid c \<and> n = cert_wire_len c"
proof
  assume v: "validate_certificate (Some c) = Inr n"
  show "cert_valid c \<and> n = cert_wire_len c"
    using v role_range [of "role c"]
    by (auto simp: validate_certificate_def cert_valid_def cert_wire_len_def valid_subject_def list_all_iff
        limits Let_def split: if_splits sum.splits)
next
  assume v: "cert_valid c \<and> n = cert_wire_len c"
  note b = cert_valid_bounds [OF conjunct1 [OF v]]
  from v have "\<not> list_all (\<lambda>b. b = 0) (take 16 (serial c))"
    "\<not> list_all (\<lambda>b. b = 0) (take (public_key_len c) (public_key c))"
    by (auto simp: cert_valid_def list_all_iff)
  then show "validate_certificate (Some c) = Inr n"
    using v b role_range [of "role c"]
    by (auto simp: validate_certificate_def cert_valid_def cert_wire_len_def valid_subject_def
        limits Let_def not_less)
qed

lemma validate_certificate_ok:
  "cert_valid c \<Longrightarrow> validate_certificate (Some c) = Inr (cert_wire_len c)"
  by (simp add: validate_certificate_iff)

lemma validate_certificate_bad: "\<not> cert_valid c \<Longrightarrow> \<exists>e. validate_certificate (Some c) = Inl e"
  using validate_certificate_iff [of c] by (cases "validate_certificate (Some c)") auto

section \<open>The image\<close>

text \<open>A buffer of \<open>n\<close> bytes whose front has been written and whose rest is zero.\<close>

definition padto :: "bytes \<Rightarrow> nat \<Rightarrow> bytes" where
  "padto h n = h @ zeros (n - length h)"

lemma padto_Nil: "zeros n = padto [] n"
  by (simp add: padto_def)

lemma padto_full: "length h = n \<Longrightarrow> padto h n = h"
  by (simp add: padto_def)

lemma memwrite_padto:
  "length h \<le> off \<Longrightarrow> off + length src \<le> n \<Longrightarrow>
    memwrite (padto h n) off src = padto (h @ zeros (off - length h) @ src) n"
  by (simp add: memwrite_def padto_def min_def)

definition cert_header_fields :: "certificate \<Rightarrow> bytes list" where
  "cert_header_fields c =
     [certificate_magic, store_u16_be (cert_version c), [role c], [public_key_algorithm c], [signature_algorithm c],
      zeros 3, store_u32_be (of_nat (cert_wire_len c)), store_u16_be (of_nat (subject_len c)),
      store_u16_be (of_nat (public_key_len c)), store_u16_be (of_nat (signature_len c)), zeros 2,
      serial c, issuer_key_id c, store_u64_be (not_before c), store_u64_be (not_after c)]"

definition cert_header :: "certificate \<Rightarrow> bytes" where
  "cert_header c = concat (cert_header_fields c)"

definition cert_wire :: "certificate \<Rightarrow> bytes" where
  "cert_wire c =
     cert_header c @ take (subject_len c) (subject c) @ take (public_key_len c) (public_key c) @
     take (signature_len c) (signature c)"

lemma length_certificate_magic [simp]: "length certificate_magic = 8"
  by (simp add: certificate_magic_def)

lemma length_cert_header [simp]: "cert_arrays c \<Longrightarrow> length (cert_header c) = 92"
  by (simp add: cert_header_def cert_header_fields_def cert_arrays_def)

lemma length_cert_wire:
  "cert_arrays c \<Longrightarrow> cert_valid c \<Longrightarrow> length (cert_wire c) = cert_wire_len c"
  using cert_valid_bounds [of c] by (simp add: cert_wire_def cert_wire_len_def) (simp add: cert_arrays_def)

lemma encode_header_eq:
  assumes "cert_arrays c"
  shows "encode_header c (cert_wire_len c) = cert_header c"
  using assms
  by (simp add: encode_header_def cert_header_def cert_header_fields_def cert_arrays_def CERT_HEADER_def
      padto_Nil [of 92] memwrite_padto padto_full Let_def)

section \<open>Decoding\<close>

text \<open>The unused part of each array is zero.\<close>

definition cert_padded :: "certificate \<Rightarrow> bool" where
  "cert_padded c \<longleftrightarrow>
     subject c = padto (take (subject_len c) (subject c)) 64 \<and>
     public_key c = padto (take (public_key_len c) (public_key c)) 1984 \<and>
     signature c = padto (take (signature_len c) (signature c)) 3373"

lemma wire_header_loads:
  assumes "cert_arrays c"
  shows "take 8 (cert_wire c) = certificate_magic"
    and "load_u16_be (drop 8 (cert_wire c)) = cert_version c"
    and "cert_wire c ! 10 = role c" and "cert_wire c ! 11 = public_key_algorithm c"
    and "cert_wire c ! 12 = signature_algorithm c"
    and "cert_wire c ! 13 = 0" and "cert_wire c ! 14 = 0" and "cert_wire c ! 15 = 0"
    and "load_u32_be (drop 16 (cert_wire c)) = of_nat (cert_wire_len c)"
    and "load_u16_be (drop 20 (cert_wire c)) = of_nat (subject_len c)"
    and "load_u16_be (drop 22 (cert_wire c)) = of_nat (public_key_len c)"
    and "load_u16_be (drop 24 (cert_wire c)) = of_nat (signature_len c)"
    and "cert_wire c ! 26 = 0" and "cert_wire c ! 27 = 0"
    and "take 16 (drop 28 (cert_wire c)) = serial c" and "take 32 (drop 44 (cert_wire c)) = issuer_key_id c"
    and "load_u64_be (drop 76 (cert_wire c)) = not_before c" and "load_u64_be (drop 84 (cert_wire c)) = not_after c"
  using assms
  by (simp_all add: cert_wire_def cert_header_def cert_header_fields_def cert_arrays_def nth_append zeros_def)

lemma wire_bodies:
  assumes "cert_arrays c" and "cert_valid c"
  shows "take (subject_len c) (drop 92 (cert_wire c)) = take (subject_len c) (subject c)"
    and "take (public_key_len c) (drop (92 + subject_len c) (cert_wire c)) = take (public_key_len c) (public_key c)"
    and "take (signature_len c) (drop (92 + subject_len c + public_key_len c) (cert_wire c)) =
      take (signature_len c) (signature c)"
proof -
  note b = cert_valid_bounds [OF assms(2)]
  have l: "length (take (subject_len c) (subject c)) = subject_len c"
    "length (take (public_key_len c) (public_key c)) = public_key_len c"
    "length (take (signature_len c) (signature c)) = signature_len c"
    using assms(1) b by (simp_all add: cert_arrays_def)
  show "take (subject_len c) (drop 92 (cert_wire c)) = take (subject_len c) (subject c)"
    using assms(1) l(1) by (simp add: cert_wire_def del: length_take)
  show "take (public_key_len c) (drop (92 + subject_len c) (cert_wire c)) = take (public_key_len c) (public_key c)"
    using assms(1) l(1,2) by (simp add: cert_wire_def del: length_take)
  show "take (signature_len c) (drop (92 + subject_len c + public_key_len c) (cert_wire c)) =
      take (signature_len c) (signature c)"
    using assms(1) l by (simp add: cert_wire_def del: length_take)
qed

lemma decoded_wire:
  assumes "cert_arrays c" and "cert_valid c" and "cert_padded c"
  shows "decoded_fields (cert_wire c) (subject_len c) (public_key_len c) (signature_len c) = c"
proof -
  note b = cert_valid_bounds [OF assms(2)]
  have pad: "memwrite (zeros n) 0 (take k xs) = padto (take k xs) n" if "k \<le> n" for n k and xs :: bytes
    using that by (simp add: padto_Nil [of n] memwrite_padto)
  note body = wire_bodies [OF assms(1,2)]
  have "memwrite (zeros 64) 0 (take (subject_len c) (drop 92 (cert_wire c))) = subject c"
    "memwrite (zeros 1984) 0 (take (public_key_len c) (drop (92 + subject_len c) (cert_wire c))) = public_key c"
    "memwrite (zeros 3373) 0 (take (signature_len c) (drop (92 + subject_len c + public_key_len c) (cert_wire c))) =
      signature c"
    unfolding body pad [OF b(1)] pad [OF b(2)] pad [OF b(3)] using assms(3) by (simp_all add: cert_padded_def)
  then show ?thesis by (simp add: decoded_fields_def wire_header_loads [OF assms(1)] limits)
qed

lemma decode_body_complete:
  assumes "cert_arrays c" and "cert_valid c" and "cert_padded c"
  shows "decode_body (cert_wire c) (length (cert_wire c)) = Inr c"
proof -
  note b = cert_valid_bounds [OF assms(2)]
  have lens: "unat (of_nat (cert_wire_len c) :: u32) = cert_wire_len c"
    "unat (of_nat (subject_len c) :: u16) = subject_len c" "unat (of_nat (public_key_len c) :: u16) = public_key_len c"
    "unat (of_nat (signature_len c) :: u16) = signature_len c"
    using b by (simp_all add: unat_of_nat)
  have total: "length (cert_wire c) = cert_wire_len c" by (rule length_cert_wire [OF assms(1,2)])
  have keys: "public_key_length (public_key_algorithm c) = Inr (public_key_len c)"
    "signature_length (signature_algorithm c) = Inr (signature_len c)" "cert_version c = 1"
    using assms(2) by (simp_all add: cert_valid_def)
  show ?thesis
    using b validate_certificate_ok [OF assms(2)]
    by (simp add: decode_body_def total wire_header_loads [OF assms(1)] lens keys memeq_def
        decoded_wire [OF assms] Let_def limits) (simp add: certificate_magic_def cert_wire_len_def, linarith)
qed

lemma decoded_arrays:
  assumes "92 + a + k + g = length wire" and "a \<le> 64" and "k \<le> 1984" and "g \<le> 3373"
  shows "cert_arrays (decoded_fields wire a k g)" and "cert_padded (decoded_fields wire a k g)"
proof -
  have pad: "memwrite (zeros n) 0 xs = padto xs n" if "length xs \<le> n" for n xs
    using that by (simp add: padto_Nil [of n] memwrite_padto)
  have take: "take (length xs) (padto xs n) = xs" for xs n by (simp add: padto_def)
  have l: "length (take a (drop 92 wire)) = a" "length (take k (drop (92 + a) wire)) = k"
    "length (take g (drop (92 + a + k) wire)) = g"
    using assms(1) by simp_all
  show "cert_arrays (decoded_fields wire a k g)"
    using assms by (simp add: cert_arrays_def decoded_fields_def limits)
  show "cert_padded (decoded_fields wire a k g)"
    using assms(2-4) l take [of "take a (drop 92 wire)" 64] take [of "take k (drop (92 + a) wire)" 1984]
      take [of "take g (drop (92 + a + k) wire)" 3373]
    by (simp add: cert_padded_def decoded_fields_def limits pad)
qed

lemma decoded_is_wire:
  assumes len: "92 + a + k + g = length wire" "a \<le> 64" "k \<le> 1984" "g \<le> 3373"
    and magic: "take 8 wire = certificate_magic"
    and zero: "wire ! 13 = 0" "wire ! 14 = 0" "wire ! 15 = 0" "wire ! 26 = 0" "wire ! 27 = 0"
    and lens: "unat (load_u32_be (drop 16 wire)) = length wire" "a = unat (load_u16_be (drop 20 wire))"
      "k = unat (load_u16_be (drop 22 wire))" "g = unat (load_u16_be (drop 24 wire))"
  shows "cert_wire (decoded_fields wire a k g) = wire"
proof -
  let ?c = "decoded_fields wire a k g"
  have long: "92 \<le> length wire" using len(1) by linarith
  have one: "[wire ! i] = take 1 (drop i wire)" if "i < 92" for i
    using that long by (simp add: take_Suc_conv_app_nth [of 0] hd_drop_conv_nth take_Suc)
  have z3: "zeros 3 = take 3 (drop 13 wire)" and z2: "zeros 2 = take 2 (drop 26 wire)"
  proof -
    have "take 3 (drop 13 wire) = [wire ! 13, wire ! 14, wire ! 15]"
      using long by (intro nth_equalityI) (auto simp: less_Suc_eq numeral_3_eq_3)
    then show "zeros 3 = take 3 (drop 13 wire)" using zero by (simp add: zeros_def numeral_3_eq_3)
    have "take 2 (drop 26 wire) = [wire ! 26, wire ! 27]"
      using long by (intro nth_equalityI) (auto simp: less_Suc_eq numeral_2_eq_2)
    then show "zeros 2 = take 2 (drop 26 wire)" using zero by (simp add: zeros_def numeral_2_eq_2)
  qed
  have total: "of_nat (cert_wire_len ?c) = load_u32_be (drop 16 wire)"
    using lens(1) len(1) by (simp add: cert_wire_len_def decoded_fields_def flip: lens(1))
  have parts: "of_nat a = load_u16_be (drop 20 wire)" "of_nat k = load_u16_be (drop 22 wire)"
    "of_nat g = load_u16_be (drop 24 wire)"
    unfolding lens(2-4) by simp_all
  have "cert_header_fields ?c = slices wire 0 [8, 2, 1, 1, 1, 3, 4, 2, 2, 2, 2, 16, 32, 8, 8]"
    unfolding cert_header_fields_def total magic [symmetric] z3 z2
    using long
    by (simp add: decoded_fields_def parts one be16.enc_dec be32.enc_dec be64.enc_dec)
  then have "cert_header ?c = take 92 wire"
    unfolding cert_header_def by (simp only: concat_slices) simp
  moreover have "take a (subject ?c) = take a (drop 92 wire)"
    "take k (public_key ?c) = take k (drop (92 + a) wire)"
    "take g (signature ?c) = take g (drop (92 + a + k) wire)"
    using len by (simp_all add: decoded_fields_def limits memwrite_def)
  moreover have "take 92 wire @ take a (drop 92 wire) @ take k (drop (92 + a) wire) @ take g (drop (92 + a + k) wire) = wire"
    using len(1) by (metis append_assoc take_add take_all_iff order_refl)
  ultimately show ?thesis by (simp add: cert_wire_def decoded_fields_def)
qed

lemma decode_body_sound:
  assumes "decode_body wire (length wire) = Inr c"
  shows "cert_arrays c \<and> cert_valid c \<and> cert_padded c \<and> cert_wire c = wire"
proof -
  define a where "a = unat (load_u16_be (drop 20 wire))"
  define k where "k = unat (load_u16_be (drop 22 wire))"
  define g where "g = unat (load_u16_be (drop 24 wire))"
  have d: "c = decoded_fields wire a k g" "92 + a + k + g = length wire" "a \<le> 64"
    "public_key_length (wire ! 11) = Inr k" "signature_length (wire ! 12) = Inr g"
    "take 8 wire = certificate_magic" "unat (load_u32_be (drop 16 wire)) = length wire"
    "wire ! 13 = 0" "wire ! 14 = 0" "wire ! 15 = 0" "wire ! 26 = 0" "wire ! 27 = 0"
    and v: "validate_certificate (Some c) = Inr (length wire)"
    using assms
    by (auto simp: decode_body_def Let_def memeq_def limits certificate_magic_def
        simp flip: a_def k_def g_def split: if_splits sum.splits)
  have kg: "k \<le> 1984" "g \<le> 3373"
    using public_key_length_bound [OF d(4)] signature_length_bound [OF d(5)] by simp_all
  show ?thesis
    using decoded_arrays [OF d(2,3) kg] decoded_is_wire [OF d(2,3) kg d(6,8-12) d(7) a_def k_def g_def] v
    by (simp add: d(1) validate_certificate_iff)
qed

text \<open>A well-formed certificate object: what decoding produces and encoding accepts.\<close>

definition cert_ok :: "certificate \<Rightarrow> bool" where
  "cert_ok c \<longleftrightarrow> cert_arrays c \<and> cert_valid c \<and> cert_padded c"

definition cert_parse :: "bytes \<Rightarrow> certificate option" where
  "cert_parse bs = (case decode_body bs (length bs) of Inl _ \<Rightarrow> None | Inr c \<Rightarrow> Some c)"

interpretation cert_format: sealed_record cert_ok cert_wire cert_parse "\<lambda>bs. unat (load_u32_be (drop 16 bs))"
proof unfold_locales
  fix c rest
  assume c: "cert_ok c"
  then have parts: "cert_arrays c" "cert_valid c" "cert_padded c" by (simp_all add: cert_ok_def)
  show "cert_parse (cert_wire c) = Some c" by (simp add: cert_parse_def decode_body_complete [OF parts])
  have len: "length (cert_wire c) = cert_wire_len c" by (rule length_cert_wire [OF parts(1,2)])
  have "92 \<le> cert_wire_len c" by (simp add: cert_wire_len_def)
  then have "load_u32_be (drop 16 (cert_wire c @ rest)) = load_u32_be (drop 16 (cert_wire c))"
    using len by (simp add: be32.dec_prefix)
  then show "unat (load_u32_be (drop 16 (cert_wire c @ rest))) = length (cert_wire c)"
    using wire_header_loads(9) [OF parts(1)] cert_valid_bounds(7) [OF parts(2)] len by (simp add: unat_of_nat)
  show "cert_wire c \<noteq> []" using len \<open>92 \<le> cert_wire_len c\<close> by auto
next
  fix bs c
  assume "cert_parse bs = Some c"
  then show "cert_ok c" using decode_body_sound [of bs c] by (auto simp: cert_parse_def cert_ok_def split: sum.splits)
qed

section \<open>Encoding\<close>

lemma memwrite_steps:
  assumes "length (a @ b @ c @ d) \<le> length out"
  shows "memwrite (memwrite (memwrite (memwrite out 0 a) (length a) b) (length a + length b) c)
      (length a + length b + length c) d = a @ b @ c @ d @ drop (length (a @ b @ c @ d)) out"
  using assms by (simp add: memwrite_def ac_simps)

definition cert_tbs :: "certificate \<Rightarrow> bytes" where
  "cert_tbs c =
     tbs_domain @ cert_header c @ take (subject_len c) (subject c) @ take (public_key_len c) (public_key c)"

lemma length_cert_tbs:
  "cert_arrays c \<Longrightarrow> cert_valid c \<Longrightarrow> length (cert_tbs c) = 110 + subject_len c + public_key_len c"
  using cert_valid_bounds [of c] by (simp add: cert_tbs_def tbs_domain_def) (simp add: cert_arrays_def)

lemma encode_ok:
  assumes "cert_arrays c" and "cert_valid c" and "cert_wire_len c \<le> length out" and "length out \<le> capacity"
    and "\<not> ranges_overlap at SIZEOF_CERTIFICATE out_at (cert_wire_len c)"
  shows "alrios_certificate_encode (Some (at, c)) (Some (out_at, out)) capacity True =
    (ALRIOS_CERTIFICATE_OK, Some (cert_wire c @ drop (cert_wire_len c) out), Some (cert_wire_len c))"
proof -
  note b = cert_valid_bounds [OF assms(2)]
  have l: "length (cert_header c) = 92" "length (take (subject_len c) (subject c)) = subject_len c"
    "length (take (public_key_len c) (public_key c)) = public_key_len c"
    "length (take (signature_len c) (signature c)) = signature_len c"
    using assms(1) b by (simp_all add: cert_arrays_def)
  show ?thesis
    using memwrite_steps [of "cert_header c" "take (subject_len c) (subject c)" "take (public_key_len c) (public_key c)"
        "take (signature_len c) (signature c)" out] assms l
    by (simp add: alrios_certificate_encode_def validate_certificate_ok Let_def CERT_HEADER_def add.assoc
        encode_header_eq [OF assms(1), unfolded cert_wire_len_def add.assoc] cert_wire_def cert_wire_len_def
        del: length_take)
qed

lemma encode_tbs_eq:
  assumes "cert_arrays c" and "cert_valid c"
    and "\<not> ranges_overlap at SIZEOF_CERTIFICATE out_at (length (cert_tbs c))"
  shows "alrios_certificate_encode_tbs (Some (at, c)) (Some (out_at, out)) (length out) True =
    (if CERT_TBS_MAX < length (cert_tbs c) \<or> length out < length (cert_tbs c)
     then (ALRIOS_CERTIFICATE_ERR_CAPACITY, Some out, Some 0)
     else (ALRIOS_CERTIFICATE_OK, Some (cert_tbs c @ drop (length (cert_tbs c)) out), Some (length (cert_tbs c))))"
proof -
  note b = cert_valid_bounds [OF assms(2)]
  note len = length_cert_tbs [OF assms(1,2)]
  have l: "length tbs_domain = 18" "length (cert_header c) = 92" "length (take (subject_len c) (subject c)) = subject_len c"
    "length (take (public_key_len c) (public_key c)) = public_key_len c"
    using assms(1) b by (simp_all add: cert_arrays_def tbs_domain_def)
  show ?thesis
  proof (cases "CERT_TBS_MAX < length (cert_tbs c) \<or> length out < length (cert_tbs c)")
    case True
    then show ?thesis using len
      by (auto simp: alrios_certificate_encode_tbs_def validate_certificate_ok [OF assms(2)] CERT_HEADER_def Let_def)
  next
    case False
    then show ?thesis
      using memwrite_steps [of tbs_domain "cert_header c" "take (subject_len c) (subject c)"
          "take (public_key_len c) (public_key c)" out] assms l len
      by (simp add: alrios_certificate_encode_tbs_def validate_certificate_ok encode_header_eq Let_def CERT_HEADER_def
          cert_tbs_def add.assoc del: length_take)
  qed
qed

text \<open>
  The bound on the signed bytes leaves no room for the largest keys: a certificate with a hybrid
  key is valid and has an image, and its signed bytes are refused.
\<close>

lemma hybrid_certificate_cannot_be_signed:
  assumes "cert_valid c" and "public_key_algorithm c = 3"
  shows "fst (alrios_certificate_encode_tbs (Some (at, c)) (Some (out_at, out)) capacity True) =
    ALRIOS_CERTIFICATE_ERR_CAPACITY"
proof -
  have "public_key_len c = 1984"
    using assms by (simp add: cert_valid_def public_key_length_def CERT_HYBRID_KEY_SIZE_def)
  then show ?thesis
    by (simp add: alrios_certificate_encode_tbs_def validate_certificate_ok [OF assms(1)] Let_def limits)
qed

text \<open>The signed bytes determine every field but the signature.\<close>

lemma cert_tbs_inject:
  assumes "cert_ok c" and "cert_ok d" and "cert_tbs c = cert_tbs d"
  shows "c\<lparr>signature := signature d\<rparr> = d"
proof -
  let ?z = "\<lambda>c. c\<lparr>signature := zeros 3373\<rparr>"
  have ok: "cert_ok (?z e)" if "cert_ok e" for e
  proof -
    have "padto (take (signature_len e) (zeros 3373)) 3373 = zeros 3373"
      by (simp add: padto_def zeros_def flip: replicate_add)
    then show ?thesis using that
      by (auto simp: cert_ok_def cert_arrays_def cert_valid_def cert_padded_def dest: in_set_takeD)
  qed
  have wire: "cert_wire (?z e) = drop 18 (cert_tbs e) @ zeros (signature_len e)" if "cert_ok e" for e
    using that cert_valid_bounds(3) [of e]
    by (simp add: cert_ok_def cert_wire_def cert_tbs_def tbs_domain_def cert_header_def cert_header_fields_def
        cert_wire_len_def)
  have len: "92 \<le> length (drop 18 (cert_tbs e))" if "cert_ok e" for e
    using that length_cert_tbs [of e] by (simp add: cert_ok_def)
  have sig: "signature_len e = unat (load_u16_be (drop 24 (drop 18 (cert_tbs e))))" if "cert_ok e" for e
  proof -
    have "load_u16_be (drop 24 (cert_wire (?z e))) = (of_nat (signature_len e) :: u16)"
      using wire_header_loads(12) [of "?z e"] ok [OF that] by (simp add: cert_ok_def)
    then have "load_u16_be (drop 24 (drop 18 (cert_tbs e))) = (of_nat (signature_len e) :: u16)"
      unfolding wire [OF that] using len [OF that] by (simp add: be16.dec_prefix)
    then show ?thesis using that cert_valid_bounds(3) [of e] by (simp add: cert_ok_def unat_of_nat)
  qed
  have "cert_wire (?z c) = cert_wire (?z d)"
    using wire assms sig by simp
  then have "?z c = ?z d" using cert_format.enc_inject ok assms(1,2) by blast
  then show ?thesis by (cases c; cases d) simp
qed

section \<open>Key identifiers\<close>

definition key_id :: "certificate \<Rightarrow> bytes" where
  "key_id c = take 32 (sha512_spec
     (key_id_domain @ (public_key_algorithm c # store_u16_be (of_nat (public_key_len c))) @
      take (public_key_len c) (public_key c)))"

lemma length_key_id [simp]: "length (key_id c) = 32"
  by (simp add: key_id_def)

lemma public_key_id_ok:
  assumes "cert_arrays c" and "cert_valid c"
  shows "alrios_certificate_public_key_id (Some c) True = (ALRIOS_CERTIFICATE_OK, Some (key_id c))"
proof -
  let ?c1 = "\<lparr>state = SHA512_H0, count0 = 0, count1 = 0, buffer = zeros 128\<rparr>"
  let ?al = "public_key_algorithm c # store_u16_be (of_nat (public_key_len c))"
  let ?k = "take (public_key_len c) (public_key c)"
  have len: "length key_id_domain = 16" "length ?al = 3" "length ?k = public_key_len c"
    using assms cert_valid_bounds(2) [OF assms(2)] by (simp_all add: key_id_domain_def cert_arrays_def)
  obtain c2 where c2: "alrios_sha512_update (Some ?c1) (Some key_id_domain) 16 = (ALRIOS_CRYPTO_OK, Some c2)"
    "absorbed c2 key_id_domain"
    using update_absorbs [OF absorbed_init, of key_id_domain] len(1) by auto
  obtain c3 where c3: "alrios_sha512_update (Some c2) (Some ?al) 3 = (ALRIOS_CRYPTO_OK, Some c3)"
    "absorbed c3 (key_id_domain @ ?al)"
    using update_absorbs [OF c2(2), of ?al] len(2) by auto
  have "length ?k < 2 ^ 64" using len(3) cert_valid_bounds(2) [OF assms(2)] by simp
  then obtain c4 where c4: "alrios_sha512_update (Some c3) (Some ?k) (public_key_len c) = (ALRIOS_CRYPTO_OK, Some c4)"
    "absorbed c4 ((key_id_domain @ ?al) @ ?k)"
    using update_absorbs [OF c3(2), of ?k] len(3) by auto
  show ?thesis
    using c2(1) c3(1) c4(1) final_digest [OF c4(2)]
    by (simp add: alrios_certificate_public_key_id_def validate_certificate_ok [OF assms(2)] alrios_sha512_init_def
        Let_def key_id_def)
qed

lemma public_key_id_iff:
  assumes "cert_arrays c"
  shows "fst (alrios_certificate_public_key_id (Some c) True) = ALRIOS_CERTIFICATE_OK \<longleftrightarrow> cert_valid c"
proof (cases "cert_valid c")
  case True
  then show ?thesis using public_key_id_ok [OF assms] by simp
next
  case False
  then obtain e where e: "validate_certificate (Some c) = Inl e" using validate_certificate_bad by blast
  have "e \<noteq> ALRIOS_CERTIFICATE_OK"
    using e by (auto simp: validate_certificate_def public_key_length_def signature_length_def Let_def
        split: if_splits sum.splits)
  then show ?thesis using e False by (simp add: alrios_certificate_public_key_id_def)
qed

end
