(* ===== verification/KeyedStore.thy ===== *)
theory KeyedStore
  imports Prelude
begin

text \<open>
  The contract of a table that is searched by a key: the search finds exactly the members, and
  the key tells members apart. The trust store and the guest router's table provide it; the
  verification of certificate chains relies on it.
\<close>

locale keyed_store =
  fixes wf :: "'s \<Rightarrow> bool"
    and members :: "'s \<Rightarrow> 'a list"
    and ident :: "'a \<Rightarrow> 'k"
    and find :: "'s \<Rightarrow> 'k \<Rightarrow> 'a option"
  assumes find_sound: "wf s \<Longrightarrow> find s k = Some a \<Longrightarrow> a \<in> set (members s) \<and> ident a = k"
    and find_complete: "wf s \<Longrightarrow> a \<in> set (members s) \<Longrightarrow> find s (ident a) = Some a"
begin

lemma find_iff: "wf s \<Longrightarrow> find s k = Some a \<longleftrightarrow> a \<in> set (members s) \<and> ident a = k"
  using find_sound find_complete by blast

lemma find_None_iff: "wf s \<Longrightarrow> find s k = None \<longleftrightarrow> k \<notin> ident ` set (members s)"
  by (cases "find s k") (auto simp: find_complete dest: find_sound)

lemma ident_inject: "wf s \<Longrightarrow> inj_on ident (set (members s))"
  by (rule inj_onI) (metis find_complete option.inject)

text \<open>A search depends on the members only, not on their order or on anything else.\<close>

lemma find_cong:
  assumes "wf s" and "wf s'" and "set (members s) = set (members s')"
  shows "find s k = find s' k"
  using find_iff [OF assms(1), of k] find_iff [OF assms(2), of k] assms(3)
  by (cases "find s k"; cases "find s' k") auto

end

end
