(* ===== verification/CertificateSpec.thy ===== *)
theory CertificateSpec
  imports CertificateLaws KeyedStore
begin

text \<open>
  What certificates and the trust store guarantee: the wire form is exact and canonical, the
  signed bytes fix everything but the signature, and a sealed store holds validated roots with
  distinct keys for good.
\<close>

section \<open>The trust store\<close>

abbreviation store_anchors :: "trust_store \<Rightarrow> certificate list" where
  "store_anchors st \<equiv> take (anchor_count st) (anchors st)"

definition store_ok :: "trust_store \<Rightarrow> bool" where
  "store_ok st \<longleftrightarrow>
     length (anchors st) = 8 \<and> anchor_count st \<le> 8 \<and> store_sealed st \<in> {0, 1} \<and>
     (\<forall>a \<in> set (store_anchors st). cert_arrays a \<and> cert_valid a \<and> role a = ROLE_ROOT) \<and>
     distinct (map key_id (store_anchors st)) \<and> (store_sealed st = 1 \<longrightarrow> 0 < anchor_count st)"

lemma zero_store_ok: "store_ok zero_store"
  by (simp add: store_ok_def zero_store_def TRUST_STORE_MAX_ANCHORS_def)

lemma validate_store_ok: "store_ok st \<Longrightarrow> validate_store (Some st) = ALRIOS_CERTIFICATE_OK"
  by (auto simp: store_ok_def validate_store_def TRUST_STORE_MAX_ANCHORS_def)

lemma key_id_memeq: "length k = 32 \<Longrightarrow> memeq (key_id a) k 32 \<longleftrightarrow> key_id a = k"
  by (simp add: memeq_full)

lemma memeq_key_ids: "memeq (key_id a) (key_id b) 32 \<longleftrightarrow> key_id a = key_id b"
  by (simp add: memeq_full)

lemma duplicate_scan_None:
  assumes "\<forall>a \<in> set as. cert_arrays a \<and> cert_valid a"
  shows "duplicate_scan (key_id c) as = None \<longleftrightarrow> key_id c \<notin> key_id ` set as"
  using assms by (induction as) (simp_all add: public_key_id_ok memeq_key_ids)

lemma lookup_scan_iff:
  assumes "\<forall>a \<in> set as. cert_arrays a \<and> cert_valid a" and "distinct (map key_id as)" and "length k = 32"
  shows "lookup_scan k as = (ALRIOS_CERTIFICATE_OK, Some a) \<longleftrightarrow> a \<in> set as \<and> key_id a = k"
  using assms by (induction as) (auto simp: public_key_id_ok key_id_memeq)

lemma lookup_scan_None:
  assumes "\<forall>a \<in> set as. cert_arrays a \<and> cert_valid a" and "length k = 32"
  shows "lookup_scan k as = (ALRIOS_CERTIFICATE_ERR_NOT_FOUND, None) \<longleftrightarrow> k \<notin> key_id ` set as"
  using assms by (induction as) (auto simp: public_key_id_ok key_id_memeq)

lemma seal_scan_ok:
  "\<forall>a \<in> set as. cert_valid a \<and> role a = ROLE_ROOT \<Longrightarrow> seal_scan as = ALRIOS_CERTIFICATE_OK"
  by (induction as) (simp_all add: validate_certificate_ok)

lemma add_anchor_cases:
  assumes "store_ok st" and "cert_arrays c"
    and "alrios_trust_store_add_anchor (Some st) (Some c) = (status, st')"
  shows "st' = Some st \<and> status \<noteq> ALRIOS_CERTIFICATE_OK \<or>
    status = ALRIOS_CERTIFICATE_OK \<and> store_sealed st = 0 \<and> role c = ROLE_ROOT \<and> cert_valid c \<and>
    anchor_count st < 8 \<and> key_id c \<notin> key_id ` set (store_anchors st) \<and>
    st' = Some (st\<lparr>anchors := (anchors st)[anchor_count st := c], anchor_count := anchor_count st + 1\<rparr>)"
proof (cases "store_sealed st = 0 \<and> role c = ROLE_ROOT \<and> cert_valid c \<and> anchor_count st < 8")
  case True
  have valid: "\<forall>a \<in> set (store_anchors st). cert_arrays a \<and> cert_valid a" using assms(1) by (simp add: store_ok_def)
  have never: "duplicate_scan k as \<noteq> Some ALRIOS_CERTIFICATE_OK" for k as
    by (induction as) (auto split: prod.splits)
  show ?thesis
    using assms(3) True duplicate_scan_None [OF valid, of c] never
    by (auto simp: alrios_trust_store_add_anchor_def validate_store_ok [OF assms(1)] validate_certificate_ok
        public_key_id_ok [OF assms(2)] TRUST_STORE_MAX_ANCHORS_def Let_def split: option.splits)
next
  case False
  have "e \<noteq> ALRIOS_CERTIFICATE_OK" if "validate_certificate (Some c) = Inl e" for e
    using that public_key_id_iff [OF assms(2)] validate_certificate_ok [of c]
    by (cases "cert_valid c") (auto simp: alrios_certificate_public_key_id_def)
  then show ?thesis
    using assms(3) False validate_certificate_iff [of c]
    by (auto simp: alrios_trust_store_add_anchor_def validate_store_ok [OF assms(1)] TRUST_STORE_MAX_ANCHORS_def
        Let_def split: if_splits sum.splits)
qed

lemma add_anchor_ok:
  assumes "store_ok st" and "cert_arrays c"
    and "alrios_trust_store_add_anchor (Some st) (Some c) = (status, st')"
  shows "\<exists>t. st' = Some t \<and> store_ok t \<and>
    (if status = ALRIOS_CERTIFICATE_OK then store_anchors t = store_anchors st @ [c] \<and> store_sealed t = 0 else t = st)"
  using add_anchor_cases [OF assms]
proof
  assume "status = ALRIOS_CERTIFICATE_OK \<and> store_sealed st = 0 \<and> role c = ROLE_ROOT \<and> cert_valid c \<and>
    anchor_count st < 8 \<and> key_id c \<notin> key_id ` set (store_anchors st) \<and>
    st' = Some (st\<lparr>anchors := (anchors st)[anchor_count st := c], anchor_count := anchor_count st + 1\<rparr>)"
  moreover from this have "take (Suc (anchor_count st)) ((anchors st)[anchor_count st := c]) = store_anchors st @ [c]"
    using assms(1) by (subst take_Suc_last) (simp_all add: store_ok_def)
  ultimately show ?thesis using assms(1,2) by (auto simp: store_ok_def)
qed (use assms(1) in auto)

lemma seal_ok:
  assumes "store_ok st" and "alrios_trust_store_seal (Some st) = (status, st')"
  shows "if 0 < anchor_count st then status = ALRIOS_CERTIFICATE_OK \<and> st' = Some (st\<lparr>store_sealed := 1\<rparr>)
    else status \<noteq> ALRIOS_CERTIFICATE_OK \<and> st' = Some st"
proof -
  have "seal_scan (store_anchors st) = ALRIOS_CERTIFICATE_OK"
    using assms(1) by (intro seal_scan_ok) (simp add: store_ok_def)
  then show ?thesis using assms
    by (auto simp: alrios_trust_store_seal_def validate_store_ok Let_def split: if_splits)
qed

lemma seal_keeps: "store_ok st \<Longrightarrow> 0 < anchor_count st \<Longrightarrow> store_ok (st\<lparr>store_sealed := 1\<rparr>)"
  by (simp add: store_ok_def)

inductive store_run :: "trust_store \<Rightarrow> trust_store \<Rightarrow> bool" where
  store_start: "store_run st st"
| store_add: "store_run st t \<Longrightarrow> cert_arrays c \<Longrightarrow>
    alrios_trust_store_add_anchor (Some t) (Some c) = (status, Some u) \<Longrightarrow> store_run st u"
| store_seal: "store_run st t \<Longrightarrow> alrios_trust_store_seal (Some t) = (status, Some u) \<Longrightarrow> store_run st u"

lemma store_run_ok: "store_run st t \<Longrightarrow> store_ok st \<Longrightarrow> store_ok t"
proof (induction rule: store_run.induct)
  case (store_start st)
  then show ?case .
next
  case (store_add st t c status u)
  then show ?case using add_anchor_ok [of t c status "Some u"] by auto
next
  case (store_seal st t status u)
  then show ?case using seal_ok [of t status "Some u"] seal_keeps by (auto split: if_splits)
qed

lemma store_run_sealed:
  "store_run st t \<Longrightarrow> store_ok st \<Longrightarrow> store_sealed st = 1 \<Longrightarrow> t = st"
proof (induction rule: store_run.induct)
  case (store_start st)
  then show ?case by simp
next
  case (store_add st t c status u)
  then show ?case using add_anchor_cases [of t c status "Some u"] by auto
next
  case (store_seal st t status u)
  then have "t = st" "store_ok t" "0 < anchor_count t" by (auto simp: store_ok_def)
  then show ?case using store_seal seal_ok [of t status "Some u"] by (cases st) auto
qed

text \<open>The search of a sealed store.\<close>

definition anchor_for :: "trust_store \<Rightarrow> bytes \<Rightarrow> certificate option" where
  "anchor_for st k = (if length k = 32 then snd (alrios_trust_store_lookup (Some st) (Some k) True) else None)"

lemma lookup_sealed:
  assumes "store_ok st" and "store_sealed st = 1" and "length k = 32"
  shows "alrios_trust_store_lookup (Some st) (Some k) True =
    (case anchor_for st k of None \<Rightarrow> (ALRIOS_CERTIFICATE_ERR_NOT_FOUND, None)
     | Some a \<Rightarrow> (ALRIOS_CERTIFICATE_OK, Some a))"
proof -
  have scan: "alrios_trust_store_lookup (Some st) (Some k) True = lookup_scan k (store_anchors st)"
    using assms(1,2) by (simp add: alrios_trust_store_lookup_def validate_store_ok)
  have "lookup_scan k as = (ALRIOS_CERTIFICATE_ERR_NOT_FOUND, None) \<or> (\<exists>a. lookup_scan k as = (ALRIOS_CERTIFICATE_OK, Some a))"
    if "\<forall>a \<in> set as. cert_arrays a \<and> cert_valid a" for as
    using that by (induction as) (auto simp: public_key_id_ok)
  from this [of "store_anchors st"] show ?thesis
    using assms(1,3) scan by (auto simp: anchor_for_def store_ok_def)
qed

interpretation trust_anchors: keyed_store "\<lambda>st. store_ok st \<and> store_sealed st = 1" store_anchors key_id anchor_for
proof unfold_locales
  fix st k a
  assume st: "store_ok st \<and> store_sealed st = 1"
  then have v: "\<forall>a \<in> set (store_anchors st). cert_arrays a \<and> cert_valid a" "distinct (map key_id (store_anchors st))"
    by (simp_all add: store_ok_def)
  have scan: "alrios_trust_store_lookup (Some st) (Some k) True = lookup_scan k (store_anchors st)" for k
    using st by (simp add: alrios_trust_store_lookup_def validate_store_ok)
  show "a \<in> set (store_anchors st) \<and> key_id a = k" if f: "anchor_for st k = Some a"
  proof -
    have k: "length k = 32" using f by (simp add: anchor_for_def split: if_splits)
    then have "lookup_scan k (store_anchors st) = (ALRIOS_CERTIFICATE_OK, Some a)"
      using lookup_sealed [of st k] st f scan [of k] by simp
    then show ?thesis using lookup_scan_iff [OF v k] by simp
  qed
  show "anchor_for st (key_id a) = Some a" if "a \<in> set (store_anchors st)"
    using lookup_scan_iff [OF v, of "key_id a" a] that scan [of "key_id a"] by (simp add: anchor_for_def)
qed

section \<open>Errors are errors\<close>

lemma key_lengths_not_ok:
  "public_key_length a \<noteq> Inl ALRIOS_CERTIFICATE_OK" "signature_length a \<noteq> Inl ALRIOS_CERTIFICATE_OK"
  by (simp_all add: public_key_length_def signature_length_def)

lemma validate_certificate_not_ok: "validate_certificate cp \<noteq> Inl ALRIOS_CERTIFICATE_OK"
  using key_lengths_not_ok
  by (cases cp) (auto simp: validate_certificate_def Let_def split: sum.split)

lemma decode_body_not_ok: "decode_body wire n \<noteq> Inl ALRIOS_CERTIFICATE_OK"
  using key_lengths_not_ok validate_certificate_not_ok
  by (auto simp: decode_body_def Let_def simp del: One_nat_def split: sum.split)

text \<open>A small root certificate.\<close>

definition demo_cert :: certificate where
  "demo_cert = zero_certificate\<lparr>cert_version := 1, role := ROLE_ROOT, public_key_algorithm := 1,
     signature_algorithm := 1, serial := 1 # zeros 15, not_after := 100, subject_len := 1, subject := padto [97] 64,
     public_key_len := 32, public_key := padto (7 # zeros 31) 1984, signature_len := 64\<rparr>"

lemma padto_zeros: "k \<le> n \<Longrightarrow> padto (zeros k) n = zeros n"
  by (simp add: padto_def zeros_def flip: replicate_add)

lemma demo_cert_ok: "cert_ok (demo_cert\<lparr>signature := padto (replicate 64 b) 3373\<rparr>)"
proof -
  have "take 32 (padto (7 # zeros 31) 1984) = 7 # zeros 31" by (simp add: padto_def)
  moreover have "take 64 (padto (replicate 64 b) 3373) = replicate 64 b" by (simp add: padto_def)
  moreover have "take 1 (padto [97] 64) = [97 :: u8]" by (simp add: padto_def)
  ultimately show ?thesis
    by (simp add: cert_ok_def cert_arrays_def cert_valid_def cert_padded_def demo_cert_def zero_certificate_def
        public_key_length_def signature_length_def subject_char_def)
      (simp add: padto_def)
qed

lemma demo_cert_plain: "demo_cert\<lparr>signature := padto (replicate 64 0) 3373\<rparr> = demo_cert"
  using padto_zeros [of 64 3373] by (simp add: demo_cert_def zero_certificate_def zeros_def limits)

lemma demo_cert_parts: "cert_ok demo_cert" "cert_arrays demo_cert" "cert_valid demo_cert" "cert_wire_len demo_cert = 189"
proof -
  show ok: "cert_ok demo_cert" using demo_cert_ok [of 0] unfolding demo_cert_plain .
  then show "cert_arrays demo_cert" "cert_valid demo_cert" by (simp_all add: cert_ok_def)
  show "cert_wire_len demo_cert = 189" by (simp add: cert_wire_len_def demo_cert_def zero_certificate_def)
qed

section \<open>Properties\<close>

text \<open>
  C25: The certificate format is exact. Decoding answers a certificate precisely when the input is
  its one image: the certificate passes every check and its arrays are zero behind their used
  lengths, and the bytes are header, subject, key and signature of it with nothing behind. On
  every failure the caller's structure is cleared.
\<close>

theorem certificate_wire_exact:
  assumes "\<not> ranges_overlap at (length wire) out SIZEOF_CERTIFICATE"
  shows "(alrios_certificate_decode (Some (at, wire)) (length wire) (Some out) = (ALRIOS_CERTIFICATE_OK, Some c) \<longleftrightarrow>
      cert_ok c \<and> wire = cert_wire c) \<and>
    (fst (alrios_certificate_decode (Some (at, wire)) (length wire) (Some out)) \<noteq> ALRIOS_CERTIFICATE_OK \<longrightarrow>
      snd (alrios_certificate_decode (Some (at, wire)) (length wire) (Some out)) = Some zero_certificate)"
proof -
  note never = decode_body_not_ok [of wire "length wire"]
  have "decode_body wire (length wire) = Inr c \<longleftrightarrow> cert_ok c \<and> wire = cert_wire c"
    using decode_body_sound [of wire c] decode_body_complete [of c] by (auto simp: cert_ok_def)
  then show ?thesis
    using assms never
    by (auto simp: alrios_certificate_decode_def split: sum.splits)
qed

theorem certificate_wire_exact_witness:
  "alrios_certificate_decode (Some (8, cert_wire demo_cert)) (length (cert_wire demo_cert)) (Some 10000) =
    (ALRIOS_CERTIFICATE_OK, Some demo_cert)"
proof -
  have "\<not> ranges_overlap 8 (length (cert_wire demo_cert)) 10000 SIZEOF_CERTIFICATE"
    by (simp add: ranges_overlap_def length_cert_wire demo_cert_parts limits)
  from certificate_wire_exact [OF this, of demo_cert] demo_cert_parts(1) show ?thesis by blast
qed

text \<open>
  C26: What is signed fixes the certificate. The bytes that a certificate's signature covers are the
  domain string, the header, the subject and the key; two well-formed certificates with the same
  signed bytes agree in every field but the signature, so no signature can be moved to another
  certificate.
\<close>

theorem certificate_signature_binds:
  assumes "cert_ok c" and "cert_ok d"
    and "alrios_certificate_encode_tbs (Some (a, c)) (Some (0, buf)) CERT_TBS_MAX True =
      (ALRIOS_CERTIFICATE_OK, Some (tbs @ rest), Some (length tbs))"
    and "alrios_certificate_encode_tbs (Some (a', d)) (Some (0, buf)) CERT_TBS_MAX True =
      (ALRIOS_CERTIFICATE_OK, Some (tbs @ rest), Some (length tbs))"
    and "length buf = CERT_TBS_MAX"
  shows "c\<lparr>signature := signature d\<rparr> = d \<and> tbs = cert_tbs c"
proof -
  have local: "\<not> ranges_overlap x n 0 m" for x n m by (simp add: ranges_overlap_def)
  have enc: "tbs = cert_tbs e"
    if e: "cert_ok e" and call: "alrios_certificate_encode_tbs (Some (x, e)) (Some (0, buf)) CERT_TBS_MAX True =
      (ALRIOS_CERTIFICATE_OK, Some (tbs @ rest), Some (length tbs))" for x e
  proof -
    have parts: "cert_arrays e" "cert_valid e" using e by (simp_all add: cert_ok_def)
    from encode_tbs_eq [OF parts local, of x buf] call assms(5) show ?thesis
      by (auto simp: append_eq_append_conv split: if_splits)
  qed
  then show ?thesis using cert_tbs_inject [OF assms(1,2)] assms(1-4) by metis
qed

theorem certificate_signature_binds_witness:
  "let c = demo_cert\<lparr>signature := padto (replicate 64 1) 3373\<rparr>;
       d = demo_cert\<lparr>signature := padto (replicate 64 2) 3373\<rparr>
   in c\<lparr>signature := signature d\<rparr> = d \<and> cert_tbs c = cert_tbs d"
proof -
  let ?c = "demo_cert\<lparr>signature := padto (replicate 64 1) 3373\<rparr>"
  let ?d = "demo_cert\<lparr>signature := padto (replicate 64 2) 3373\<rparr>"
  let ?rest = "drop (length (cert_tbs ?c)) (zeros CERT_TBS_MAX)"
  have same: "cert_tbs ?c = cert_tbs ?d"
    by (simp add: cert_tbs_def cert_header_def cert_header_fields_def cert_wire_len_def)
  have parts: "cert_arrays ?c" "cert_valid ?c" "cert_arrays ?d" "cert_valid ?d"
    using demo_cert_ok [of 1] demo_cert_ok [of 2] by (simp_all add: cert_ok_def)
  have "length (cert_tbs ?c) = 143"
    using length_cert_tbs [OF parts(1,2)] by (simp add: demo_cert_def zero_certificate_def)
  moreover have none: "\<not> ranges_overlap 8 n 0 m" for n m by (simp add: ranges_overlap_def)
  ultimately have
    "alrios_certificate_encode_tbs (Some (8, ?c)) (Some (0, zeros CERT_TBS_MAX)) CERT_TBS_MAX True =
      (ALRIOS_CERTIFICATE_OK, Some (cert_tbs ?c @ ?rest), Some (length (cert_tbs ?c)))"
    "alrios_certificate_encode_tbs (Some (8, ?d)) (Some (0, zeros CERT_TBS_MAX)) CERT_TBS_MAX True =
      (ALRIOS_CERTIFICATE_OK, Some (cert_tbs ?c @ ?rest), Some (length (cert_tbs ?c)))"
    using encode_tbs_eq [OF parts(1,2) none, of "zeros CERT_TBS_MAX"]
      encode_tbs_eq [OF parts(3,4) none, of "zeros CERT_TBS_MAX"] same by (simp_all add: CERT_TBS_MAX_def)
  from certificate_signature_binds [OF demo_cert_ok demo_cert_ok this] same show ?thesis by (simp add: Let_def)
qed

text \<open>
  C27: The trust store holds validated roots with distinct keys, and a sealed store cannot be
  changed. In every run of adding and sealing from an initialised store there are at most eight
  anchors, each a valid root certificate, with pairwise different key identifiers; once sealed,
  no further call changes the store, and a lookup answers exactly the anchor with the given
  identifier.
\<close>

theorem trust_store_frozen:
  assumes "alrios_trust_store_init (Some st0) = Some st1" and "store_run st1 st"
  shows "anchor_count st \<le> TRUST_STORE_MAX_ANCHORS \<and>
    (\<forall>a \<in> set (store_anchors st). cert_valid a \<and> role a = ROLE_ROOT) \<and>
    distinct (map key_id (store_anchors st)) \<and>
    (store_sealed st = 1 \<longrightarrow>
      (\<forall>t. store_run st t \<longrightarrow> t = st) \<and>
      (\<forall>k a. length k = 32 \<longrightarrow>
        alrios_trust_store_lookup (Some st) (Some k) True = (ALRIOS_CERTIFICATE_OK, Some a) \<longleftrightarrow>
        a \<in> set (store_anchors st) \<and> key_id a = k))"
proof -
  have "st1 = zero_store" using assms(1) by (simp add: alrios_trust_store_init_def)
  then have ok: "store_ok st" using store_run_ok [OF assms(2)] zero_store_ok by simp
  have "alrios_trust_store_lookup (Some st) (Some k) True = (ALRIOS_CERTIFICATE_OK, Some a) \<longleftrightarrow>
      a \<in> set (store_anchors st) \<and> key_id a = k" if "store_sealed st = 1" "length k = 32" for k a
    using lookup_sealed [OF ok that] trust_anchors.find_iff [of st k a] ok that(1) by (auto split: option.splits)
  then show ?thesis using ok store_run_sealed [OF _ ok] by (auto simp: store_ok_def TRUST_STORE_MAX_ANCHORS_def)
qed

theorem trust_store_frozen_witness:
  "\<exists>st. store_run zero_store st \<and> store_sealed st = 1 \<and>
    alrios_trust_store_lookup (Some st) (Some (key_id demo_cert)) True = (ALRIOS_CERTIFICATE_OK, Some demo_cert)"
proof -
  let ?t = "zero_store\<lparr>anchors := (anchors zero_store)[0 := demo_cert], anchor_count := 1\<rparr>"
  let ?st = "?t\<lparr>store_sealed := 1\<rparr>"
  have root: "role demo_cert = ROLE_ROOT" by (simp add: demo_cert_def)
  have "alrios_trust_store_add_anchor (Some zero_store) (Some demo_cert) = (ALRIOS_CERTIFICATE_OK, Some ?t)"
    using validate_store_ok [OF zero_store_ok]
    by (simp add: alrios_trust_store_add_anchor_def root validate_certificate_ok demo_cert_parts public_key_id_ok
        zero_store_def TRUST_STORE_MAX_ANCHORS_def Let_def)
  then have run: "store_run zero_store ?t" by (rule store_add [OF store_start demo_cert_parts(2)])
  have "alrios_trust_store_seal (Some ?t) = (ALRIOS_CERTIFICATE_OK, Some ?st)"
    using seal_ok [OF store_run_ok [OF run zero_store_ok], of "fst (alrios_trust_store_seal (Some ?t))"
        "snd (alrios_trust_store_seal (Some ?t))"]
    by (simp add: prod_eq_iff)
  then have sealed: "store_run zero_store ?st" by (rule store_seal [OF run])
  have "demo_cert \<in> set (store_anchors ?st)"
    by (simp add: zero_store_def TRUST_STORE_MAX_ANCHORS_def numeral_eq_Suc)
  moreover have init: "alrios_trust_store_init (Some zero_store) = Some zero_store"
    by (simp add: alrios_trust_store_init_def)
  ultimately have "alrios_trust_store_lookup (Some ?st) (Some (key_id demo_cert)) True = (ALRIOS_CERTIFICATE_OK, Some demo_cert)"
    using trust_store_frozen [OF init sealed] by simp
  then show ?thesis using sealed by (intro exI [of _ ?st]) simp
qed

end
