(* ===== verification/IssuerSpec.thy ===== *)
theory IssuerSpec
  imports Issuer CertificateSpec
begin

text \<open>
  What verifying a chain means, and that the chains the issuer makes are verified.
\<close>

section \<open>One signature\<close>

definition in_window :: "u64 \<Rightarrow> certificate \<Rightarrow> bool" where
  "in_window t c \<longleftrightarrow> not_before c \<le> t \<and> t \<le> not_after c"

definition subject_key :: "certificate \<Rightarrow> bytes" where
  "subject_key c = take (public_key_len c) (public_key c)"

text \<open>The child's signature is one of the parent's key on the child's signed bytes.\<close>

definition signed_by :: "verify_env \<Rightarrow> certificate \<Rightarrow> certificate \<Rightarrow> bool" where
  "signed_by env child parent \<longleftrightarrow>
     cert_valid child \<and> length (cert_tbs child) \<le> CERT_TBS_MAX \<and>
     raw_public_key_ok env (subject_key parent) \<and> verify_ctx_ok env \<and> verify_init_ok env \<and>
     ed25519_verify env (subject_key parent) (take (signature_len child) (signature child)) (cert_tbs child)"

lemma local_no_overlap: "\<not> ranges_overlap x n 0 m"
  by (simp add: ranges_overlap_def)

lemma encode_tbs_local:
  assumes "cert_arrays c" and "length buf = CERT_TBS_MAX"
  shows "alrios_certificate_encode_tbs (Some (at, c)) (Some (0, buf)) CERT_TBS_MAX True =
      (ALRIOS_CERTIFICATE_OK, Some (cert_tbs c @ drop (length (cert_tbs c)) buf), Some (length (cert_tbs c))) \<and>
      cert_valid c \<and> length (cert_tbs c) \<le> CERT_TBS_MAX \<or>
    fst (alrios_certificate_encode_tbs (Some (at, c)) (Some (0, buf)) CERT_TBS_MAX True) \<noteq> ALRIOS_CERTIFICATE_OK \<and>
      \<not> (cert_valid c \<and> length (cert_tbs c) \<le> CERT_TBS_MAX)"
proof (cases "cert_valid c")
  case True
  from encode_tbs_eq [OF assms(1) True local_no_overlap, of at buf] assms(2) True show ?thesis by auto
next
  case False
  then obtain e where "validate_certificate (Some c) = Inl e" "e \<noteq> ALRIOS_CERTIFICATE_OK"
    using validate_certificate_bad validate_certificate_not_ok by metis
  then show ?thesis using False by (simp add: alrios_certificate_encode_tbs_def)
qed

lemma verify_cert_signature_iff:
  assumes "cert_arrays child" and "length (verify_tbs_array env) = CERT_TBS_MAX"
  shows "verify_cert_signature env child parent = ALRIOS_ISSUER_OK \<longleftrightarrow> signed_by env child parent"
  using encode_tbs_local [OF assms, of 1]
  by (auto simp: verify_cert_signature_def signed_by_def subject_key_def Let_def split: prod.splits)

section \<open>Issuing succeeds\<close>

text \<open>What a call that issues a certificate needs of its arguments and its surroundings.\<close>

definition issue_ready :: "issuer_env \<Rightarrow> bytes \<Rightarrow> u64 \<Rightarrow> issue_outputs \<Rightarrow> bool" where
  "issue_ready env sub valid_days out \<longleftrightarrow>
     length (tbs_array env) = CERT_TBS_MAX \<and>
     sub \<noteq> [] \<and> length sub \<le> 64 \<and> list_all subject_char sub \<and>
     clock_now env \<le> clock_now env + valid_days * 86400 \<and>
     (\<exists>key pub bs. keygen env = Some (key, pub) \<and> length pub = 32 \<and> (\<exists>b \<in> set pub. b \<noteq> 0) \<and>
       rand_serial env = Some bs \<and> length bs = 16 \<and> (\<exists>b \<in> set bs. b \<noteq> 0)) \<and>
     (\<forall>key m. \<exists>s. sign_with env key m = Some s \<and> length s = 64) \<and>
     length (out_wire out) = out_capacity out \<and> 188 + length sub \<le> out_capacity out \<and>
     \<not> ranges_overlap (out_cert_at out) SIZEOF_CERTIFICATE (out_wire_at out) (188 + length sub)"

definition unsigned_cert :: "u8 \<Rightarrow> issuer_env \<Rightarrow> bytes \<Rightarrow> u64 \<Rightarrow> bytes \<Rightarrow> certificate" where
  "unsigned_cert r env sub valid_days kid =
     fill_certificate (clock_now env) valid_days sub (snd (the (keygen env)))
       ((fresh_certificate r)\<lparr>serial := the (rand_serial env), issuer_key_id := kid\<rparr>)"

definition issued_cert :: "u8 \<Rightarrow> issuer_env \<Rightarrow> bytes \<Rightarrow> u64 \<Rightarrow> bytes \<Rightarrow> bytes \<Rightarrow> certificate" where
  "issued_cert r env sub valid_days kid key =
     (let c = unsigned_cert r env sub valid_days kid
      in c\<lparr>signature := padto (the (sign_with env key (cert_tbs c))) 3373\<rparr>)"

lemma cert_tbs_signature [simp]: "cert_tbs (c\<lparr>signature := s\<rparr>) = cert_tbs c"
  by (simp add: cert_tbs_def cert_header_def cert_header_fields_def cert_wire_len_def)

lemma cert_wire_len_signature [simp]: "cert_wire_len (c\<lparr>signature := s\<rparr>) = cert_wire_len c"
  by (simp add: cert_wire_len_def)

lemma key_id_issued [simp]: "key_id (c\<lparr>signature := s\<rparr>) = key_id c" "key_id (c\<lparr>issuer_key_id := k\<rparr>) = key_id c"
  by (simp_all add: key_id_def)

lemma memwrite_zeros: "length xs \<le> n \<Longrightarrow> memwrite (zeros n) 0 xs = padto xs n"
  by (simp add: padto_Nil [of n] memwrite_padto)

lemma take_padto [simp]: "take (length xs) (padto xs n) = xs"
  by (simp add: padto_def)

lemma length_padto: "length xs \<le> n \<Longrightarrow> length (padto xs n) = n"
  by (simp add: padto_def)

lemma unsigned_fields:
  fixes r :: u8 and kid :: bytes
  assumes "issue_ready env sub valid_days out"
  defines "c \<equiv> unsigned_cert r env sub valid_days kid"
  shows "subject c = padto sub 64" "public_key c = padto (snd (the (keygen env))) 1984" "signature c = zeros 3373"
    "subject_len c = length sub" "public_key_len c = 32" "signature_len c = 64" "issuer_key_id c = kid"
    "serial c = the (rand_serial env)" "role c = r" "cert_version c = 1" "public_key_algorithm c = 1"
    "signature_algorithm c = 1" "not_before c = clock_now env" "not_after c = clock_now env + valid_days * 86400"
  using assms(1)
  by (auto simp: c_def unsigned_cert_def fill_certificate_def fresh_certificate_def zero_certificate_def limits
      memwrite_zeros issue_ready_def)

lemma ready_key_length: "issue_ready env sub valid_days out \<Longrightarrow> length (snd (the (keygen env))) = 32"
  by (auto simp: issue_ready_def)

lemma unsigned_ok:
  assumes ready: "issue_ready env sub valid_days out" and "length kid = 32"
    and "r \<in> {ROLE_ROOT, ROLE_INTERMEDIATE, ROLE_LEAF}"
  shows "cert_ok (unsigned_cert r env sub valid_days kid)"
proof -
  note f = unsigned_fields [OF ready, of r kid]
  have sub: "length sub \<le> 64" "sub \<noteq> []" "list_all subject_char sub"
    "clock_now env \<le> clock_now env + valid_days * 86400"
    using ready by (simp_all add: issue_ready_def)
  have "length (the (rand_serial env)) = 16" and ser: "\<exists>b \<in> set (the (rand_serial env)). b \<noteq> 0"
    and pub: "\<exists>b \<in> set (snd (the (keygen env))). b \<noteq> 0"
    using ready by (auto simp: issue_ready_def)
  moreover have key: "take 32 (padto (snd (the (keygen env))) 1984) = snd (the (keygen env))"
    using take_padto [of "snd (the (keygen env))" 1984] ready_key_length [OF ready] by simp
  moreover have "padto (zeros 64) 3373 = zeros 3373" by (simp add: padto_def zeros_def flip: replicate_add)
  ultimately show ?thesis
    using assms(2,3) sub ready_key_length [OF ready]
    by (simp add: cert_ok_def cert_arrays_def cert_valid_def cert_padded_def f length_padto
        public_key_length_def signature_length_def)
qed

lemma issued_ok:
  assumes ready: "issue_ready env sub valid_days out" and "length kid = 32"
    and "r \<in> {ROLE_ROOT, ROLE_INTERMEDIATE, ROLE_LEAF}"
  shows "cert_ok (issued_cert r env sub valid_days kid key)"
proof -
  let ?u = "unsigned_cert r env sub valid_days kid"
  let ?s = "the (sign_with env key (cert_tbs ?u))"
  have u: "cert_ok ?u" by (rule unsigned_ok [OF assms])
  have "\<exists>s. sign_with env key (cert_tbs ?u) = Some s \<and> length s = 64" using ready by (simp add: issue_ready_def)
  then have s: "length ?s = 64" by auto
  have "take 64 (padto ?s 3373) = ?s" using take_padto [of ?s 3373] s by simp
  then show ?thesis
    using u s length_padto [of ?s 3373] unsigned_fields(6) [OF ready, of r kid]
    by (auto simp: issued_cert_def Let_def cert_ok_def cert_arrays_def cert_valid_def cert_padded_def)
qed

lemma sign_and_encode_ok:
  assumes ready: "issue_ready env sub valid_days out" and kid: "length kid = 32"
    and r: "r \<in> {ROLE_ROOT, ROLE_INTERMEDIATE, ROLE_LEAF}"
  shows "\<exists>out'. sign_and_encode env key pkey (unsigned_cert r env sub valid_days kid) out = (ALRIOS_ISSUER_OK, out') \<and>
    out_cert out' = issued_cert r env sub valid_days kid key \<and> out_pkey out' = Some pkey \<and>
    take (out_wire_len out') (out_wire out') = cert_wire (issued_cert r env sub valid_days kid key)"
proof -
  let ?u = "unsigned_cert r env sub valid_days kid"
  let ?c = "issued_cert r env sub valid_days kid key"
  have u: "cert_arrays ?u" "cert_valid ?u" and c: "cert_arrays ?c" "cert_valid ?c"
    using unsigned_ok [OF ready kid r] issued_ok [OF ready kid r] by (simp_all add: cert_ok_def)
  note f = unsigned_fields [OF ready, of r kid]
  have "length (cert_tbs ?u) \<le> CERT_TBS_MAX"
    using length_cert_tbs [OF u] f ready by (simp add: CERT_TBS_MAX_def issue_ready_def)
  then have tbs: "alrios_certificate_encode_tbs (Some (out_cert_at out, ?u)) (Some (0, tbs_array env)) CERT_TBS_MAX True =
      (ALRIOS_CERTIFICATE_OK, Some (cert_tbs ?u @ drop (length (cert_tbs ?u)) (tbs_array env)), Some (length (cert_tbs ?u)))"
    using encode_tbs_local [OF u(1), of "tbs_array env" "out_cert_at out"] u(2) ready by (simp add: issue_ready_def)
  obtain s where s: "sign_with env key (cert_tbs ?u) = Some s" "length s = 64"
    using ready by (auto simp: issue_ready_def)
  have sig: "?u\<lparr>signature := memwrite (signature ?u) 0 s\<rparr> = ?c"
    using s f(3) by (simp add: issued_cert_def Let_def memwrite_zeros)
  have len: "cert_wire_len ?c = 188 + length sub" using f by (simp add: issued_cert_def Let_def cert_wire_len_def)
  have enc: "alrios_certificate_encode (Some (out_cert_at out, ?c)) (Some (out_wire_at out, out_wire out))
        (out_capacity out) True =
      (ALRIOS_CERTIFICATE_OK, Some (cert_wire ?c @ drop (cert_wire_len ?c) (out_wire out)), Some (cert_wire_len ?c))"
    using ready len by (intro encode_ok [OF c]) (simp_all add: issue_ready_def)
  show ?thesis
    by (simp add: sign_and_encode_def tbs sign_tbs_def s sig enc Let_def length_cert_wire [OF c])
qed

lemma issue_root_ok:
  assumes ready: "issue_ready env sub valid_days out" and key: "keygen env = Some (key, pub)"
  defines "c \<equiv> issued_cert ROLE_ROOT env sub valid_days (key_id (unsigned_cert ROLE_ROOT env sub valid_days (zeros 32))) key"
  shows "\<exists>out'. alrios_pki_issue_root env (Some sub) valid_days (Some out) = (ALRIOS_ISSUER_OK, Some out') \<and>
    out_cert out' = c \<and> out_pkey out' = Some key \<and> take (out_wire_len out') (out_wire out') = cert_wire c \<and>
    issuer_key_id c = key_id c"
proof -
  let ?u = "unsigned_cert ROLE_ROOT env sub valid_days (zeros 32)"
  obtain bs where bs: "rand_serial env = Some bs" using ready by (auto simp: issue_ready_def)
  have "(fresh_certificate ROLE_ROOT)\<lparr>serial := bs, issuer_key_id := zeros 32\<rparr> = (fresh_certificate ROLE_ROOT)\<lparr>serial := bs\<rparr>"
    by (simp add: fresh_certificate_def zero_certificate_def)
  then have first: "fill_certificate (clock_now env) valid_days sub pub ((fresh_certificate ROLE_ROOT)\<lparr>serial := bs\<rparr>) = ?u"
    by (simp add: unsigned_cert_def key bs)
  have u: "cert_ok ?u" using unsigned_ok [OF ready] by simp
  have kid: "alrios_certificate_public_key_id (Some ?u) True = (ALRIOS_CERTIFICATE_OK, Some (key_id ?u))"
    using u by (simp add: public_key_id_ok cert_ok_def)
  have second: "?u\<lparr>issuer_key_id := key_id ?u\<rparr> = unsigned_cert ROLE_ROOT env sub valid_days (key_id ?u)"
    by (simp add: unsigned_cert_def fill_certificate_def)
  have gen: "generate_ed25519_keypair env = Inr (key, pub)"
    using ready key by (auto simp: generate_ed25519_keypair_def issue_ready_def)
  have sub: "\<not> (sub = [] \<or> CERT_SUBJECT_MAX < length sub)"
    using ready by (auto simp: issue_ready_def CERT_SUBJECT_MAX_def)
  have self: "key_id c = key_id ?u"
    by (simp add: c_def issued_cert_def Let_def flip: second)
  show ?thesis
    using sign_and_encode_ok [OF ready, of "key_id ?u" ROLE_ROOT key key] sub
    by (auto simp: alrios_pki_issue_root_def gen bs first kid second Let_def self)
      (auto simp: c_def issued_cert_def Let_def unsigned_fields(7) [OF ready])
qed

lemma issue_child_ok:
  fixes parent_key :: bytes
  assumes ready: "issue_ready env sub valid_days out" and key: "keygen env = Some (key, pub)"
    and parent: "cert_ok parent" and r: "r \<in> {ROLE_INTERMEDIATE, ROLE_LEAF}"
  defines "c \<equiv> issued_cert r env sub valid_days (key_id parent) parent_key"
  shows "\<exists>out'. issue_child r env (Some sub) valid_days (Some (parent, parent_key)) (Some out) =
      (ALRIOS_ISSUER_OK, Some out') \<and>
    out_cert out' = c \<and> out_pkey out' = Some key \<and> take (out_wire_len out') (out_wire out') = cert_wire c"
proof -
  obtain bs where bs: "rand_serial env = Some bs" using ready by (auto simp: issue_ready_def)
  have kid: "alrios_certificate_public_key_id (Some parent) True = (ALRIOS_CERTIFICATE_OK, Some (key_id parent))"
    using parent by (simp add: public_key_id_ok cert_ok_def)
  have u: "fill_certificate (clock_now env) valid_days sub pub
      ((fresh_certificate r)\<lparr>serial := bs, issuer_key_id := key_id parent\<rparr>) =
      unsigned_cert r env sub valid_days (key_id parent)"
    by (simp add: unsigned_cert_def key bs)
  have gen: "generate_ed25519_keypair env = Inr (key, pub)"
    using ready key by (auto simp: generate_ed25519_keypair_def issue_ready_def)
  have sub: "\<not> (sub = [] \<or> CERT_SUBJECT_MAX < length sub)"
    using ready by (auto simp: issue_ready_def CERT_SUBJECT_MAX_def)
  show ?thesis
    using sign_and_encode_ok [OF ready, of "key_id parent" r parent_key key] sub r
    by (auto simp: issue_child_def gen bs kid u Let_def c_def)
qed

section \<open>Chains\<close>

lemma issued_fields:
  assumes "issue_ready env sub valid_days out"
  shows "subject_key (issued_cert r env sub valid_days kid key) = snd (the (keygen env))"
    "role (issued_cert r env sub valid_days kid key) = r"
    "not_before (issued_cert r env sub valid_days kid key) = clock_now env"
    "not_after (issued_cert r env sub valid_days kid key) = clock_now env + valid_days * 86400"
    "issuer_key_id (issued_cert r env sub valid_days kid key) = kid"
  using unsigned_fields [OF assms, of r kid] take_padto [of "snd (the (keygen env))" 1984] ready_key_length [OF assms]
  by (simp_all add: issued_cert_def Let_def subject_key_def)

lemma issued_signed_by:
  assumes ready: "issue_ready ec sub valid_days out" and ok: "cert_ok (issued_cert r ec sub valid_days kid key)"
    and genuine: "\<forall>m s. sign_with ec key m = Some s \<longrightarrow> ed25519_verify env (subject_key parent) s m"
    and "raw_public_key_ok env (subject_key parent)" and "verify_ctx_ok env" and "verify_init_ok env"
  shows "signed_by env (issued_cert r ec sub valid_days kid key) parent"
proof -
  let ?u = "unsigned_cert r ec sub valid_days kid"
  let ?c = "issued_cert r ec sub valid_days kid key"
  obtain s where s: "sign_with ec key (cert_tbs ?u) = Some s" "length s = 64"
    using ready by (auto simp: issue_ready_def)
  note f = unsigned_fields [OF ready, of r kid]
  have c: "cert_arrays ?c" "cert_valid ?c" using ok by (simp_all add: cert_ok_def)
  have "length (cert_tbs ?c) \<le> CERT_TBS_MAX"
    using length_cert_tbs [OF c] f ready by (simp add: CERT_TBS_MAX_def issue_ready_def issued_cert_def Let_def)
  moreover have "take (signature_len ?c) (signature ?c) = s" "cert_tbs ?c = cert_tbs ?u"
    using s f(6) take_padto [of s 3373] by (simp_all add: issued_cert_def Let_def)
  ultimately show ?thesis using c(2) genuine s(1) assms(4-6) by (simp add: signed_by_def)
qed

lemma add_first_anchor:
  assumes "cert_ok c" and "role c = ROLE_ROOT"
  shows "\<exists>st. alrios_trust_store_add_anchor (Some zero_store) (Some c) = (ALRIOS_CERTIFICATE_OK, Some st) \<and>
    store_ok st \<and> store_anchors st = [c]"
proof -
  have c: "cert_arrays c" "cert_valid c" using assms(1) by (simp_all add: cert_ok_def)
  obtain status st where a: "alrios_trust_store_add_anchor (Some zero_store) (Some c) = (status, st)"
    by (metis surj_pair)
  have "status = ALRIOS_CERTIFICATE_OK"
    using a assms(2) c validate_store_ok [OF zero_store_ok]
    by (simp add: alrios_trust_store_add_anchor_def validate_certificate_ok public_key_id_ok zero_store_def
        TRUST_STORE_MAX_ANCHORS_def Let_def)
  with add_anchor_ok [OF zero_store_ok c(1) a] a show ?thesis by (auto simp: zero_store_def)
qed

lemma anchored_root:
  assumes "cert_ok c" and "role c = ROLE_ROOT"
  shows "\<exists>st1 st. alrios_trust_store_add_anchor (Some zero_store) (Some c) = (ALRIOS_CERTIFICATE_OK, Some st1) \<and>
    alrios_trust_store_seal (Some st1) = (ALRIOS_CERTIFICATE_OK, Some st) \<and>
    store_ok st \<and> store_sealed st = 1 \<and> store_anchors st = [c]"
proof -
  obtain st1 where st1: "alrios_trust_store_add_anchor (Some zero_store) (Some c) = (ALRIOS_CERTIFICATE_OK, Some st1)"
    "store_ok st1" "store_anchors st1 = [c]"
    using add_first_anchor [OF assms] by blast
  have n: "0 < anchor_count st1" using st1(3) by (cases "anchor_count st1") simp_all
  obtain status st where seal: "alrios_trust_store_seal (Some st1) = (status, st)" by (metis surj_pair)
  have "status = ALRIOS_CERTIFICATE_OK" "st = Some (st1\<lparr>store_sealed := 1\<rparr>)"
    using seal_ok [OF st1(2) seal] n by simp_all
  then show ?thesis using st1 seal seal_keeps [OF st1(2) n] by auto
qed

lemma chain_exact:
  assumes st: "store_ok st" "store_sealed st = 1" and arrays: "cert_arrays leaf" "cert_arrays mid"
    and buf: "length (verify_tbs_array env) = CERT_TBS_MAX"
  shows "alrios_pki_verify_chain env (Some st) (Some leaf) (Some mid) t = ALRIOS_ISSUER_OK \<longleftrightarrow>
    in_window t leaf \<and> in_window t mid \<and> role leaf = ROLE_LEAF \<and> role mid = ROLE_INTERMEDIATE \<and>
    issuer_key_id leaf = key_id mid \<and> signed_by env leaf mid \<and>
    (\<exists>root \<in> set (store_anchors st). issuer_key_id mid = key_id root \<and> in_window t root \<and> signed_by env mid root)"
proof -
  have k: "length (issuer_key_id mid) = 32" "length (issuer_key_id leaf) = 32"
    using arrays by (simp_all add: cert_arrays_def)
  note look = lookup_sealed [OF st k(1)]
  note sig = verify_cert_signature_iff [OF arrays(1) buf] verify_cert_signature_iff [OF arrays(2) buf]
  have kid: "fst (alrios_certificate_public_key_id (Some mid) True) = ALRIOS_CERTIFICATE_OK \<Longrightarrow>
      snd (alrios_certificate_public_key_id (Some mid) True) = Some (key_id mid)"
    using public_key_id_iff [OF arrays(2)] public_key_id_ok [OF arrays(2)] by simp
  show ?thesis
  proof (cases "anchor_for st (issuer_key_id mid)")
    case None
    then have "\<not> (\<exists>root \<in> set (store_anchors st). issuer_key_id mid = key_id root)"
      using trust_anchors.find_None_iff [of st "issuer_key_id mid"] st by auto
    then show ?thesis using look None by (auto simp: alrios_pki_verify_chain_def)
  next
    case (Some root)
    have root: "root \<in> set (store_anchors st)" "key_id root = issuer_key_id mid"
      using trust_anchors.find_sound [OF _ Some] st by auto
    have only: "a = root" if "a \<in> set (store_anchors st)" "issuer_key_id mid = key_id a" for a
      using trust_anchors.find_complete [of st a] that Some st by simp
    have mid: "signed_by env mid root \<Longrightarrow> cert_valid mid" by (simp add: signed_by_def)
    have "memeq (issuer_key_id leaf) (key_id mid) 32 \<longleftrightarrow> issuer_key_id leaf = key_id mid"
      using k(2) by (simp add: memeq_full)
    then have "alrios_pki_verify_chain env (Some st) (Some leaf) (Some mid) t = ALRIOS_ISSUER_OK \<longleftrightarrow>
        in_window t leaf \<and> in_window t mid \<and> role leaf = ROLE_LEAF \<and> role mid = ROLE_INTERMEDIATE \<and>
        in_window t root \<and> cert_valid mid \<and> issuer_key_id leaf = key_id mid \<and>
        signed_by env leaf mid \<and> signed_by env mid root"
      using look Some kid public_key_id_iff [OF arrays(2)]
      by (auto simp: alrios_pki_verify_chain_def in_window_def sig Let_def not_less split: prod.splits)
    then show ?thesis using root only mid by metis
  qed
qed

text \<open>One link of a chain: the child is issued, well formed, and its parent's key signed it.\<close>

lemma issued_link:
  assumes ready: "issue_ready e sub days out" and key: "keygen e = Some (k, pub)"
    and parent: "cert_ok parent" "length (subject_key parent) = 32" and r: "r \<in> {ROLE_INTERMEDIATE, ROLE_LEAF}"
    and genuine: "\<forall>m s. sign_with e pk m = Some s \<longrightarrow> ed25519_verify env (subject_key parent) s m"
    and openssl: "\<forall>k. length k = 32 \<longrightarrow> raw_public_key_ok env k" "verify_ctx_ok env" "verify_init_ok env"
    and t: "clock_now e \<le> t" "t \<le> clock_now e + days * 86400"
  shows "\<exists>out'. issue_child r e (Some sub) days (Some (parent, pk)) (Some out) = (ALRIOS_ISSUER_OK, Some out') \<and>
    out_pkey out' = Some k \<and> take (out_wire_len out') (out_wire out') = cert_wire (out_cert out') \<and>
    cert_ok (out_cert out') \<and> subject_key (out_cert out') = pub \<and> length pub = 32 \<and> role (out_cert out') = r \<and>
    in_window t (out_cert out') \<and> issuer_key_id (out_cert out') = key_id parent \<and>
    signed_by env (out_cert out') parent"
proof -
  let ?c = "issued_cert r e sub days (key_id parent) pk"
  have ok: "cert_ok ?c" using r by (intro issued_ok [OF ready]) auto
  have "signed_by env ?c parent" using ok genuine parent(2) openssl by (intro issued_signed_by [OF ready]) simp_all
  then show ?thesis
    using issue_child_ok [OF ready key parent(1) r, of pk] issued_fields [OF ready, of r "key_id parent" pk]
      ready_key_length [OF ready] key ok t
    by (auto simp: in_window_def)
qed

text \<open>
  An issuer whose signature of a message is the message's first 64 bytes, whatever the key.
\<close>

definition demo_sign :: "bytes \<Rightarrow> bytes" where
  "demo_sign m = take 64 (m @ zeros 64)"

definition demo_issuer :: issuer_env where
  "demo_issuer = \<lparr>keygen = Some ([5], 7 # zeros 31), rand_serial = Some (1 # zeros 15), clock_now = 10,
     sign_with = (\<lambda>k m. Some (demo_sign m)), tbs_array = zeros CERT_TBS_MAX\<rparr>"

definition demo_outputs :: issue_outputs where
  "demo_outputs = \<lparr>out_pkey = None, out_cert_at = 10000, out_cert = zero_certificate, out_wire_at = 8,
     out_wire = zeros 300, out_capacity = 300, out_wire_len = 0\<rparr>"

definition demo_verifier :: verify_env where
  "demo_verifier = \<lparr>raw_public_key_ok = (\<lambda>k. length k = 32), verify_ctx_ok = True, verify_init_ok = True,
     ed25519_verify = (\<lambda>k s m. s = demo_sign m), verify_tbs_array = zeros CERT_TBS_MAX\<rparr>"

lemma length_demo_sign: "length (demo_sign m) = 64"
  by (cases "length m \<le> 64") (simp_all add: demo_sign_def)

lemma demo_ready: "issue_ready demo_issuer [97] 1 demo_outputs"
  by (simp add: issue_ready_def demo_issuer_def demo_outputs_def length_demo_sign subject_char_def ranges_overlap_def limits)

section \<open>Properties\<close>





end
