(* ===== verification/ManifestCanon.thy ===== *)
theory ManifestCanon
  imports CString QSort
begin

text \<open>
  The canonical form of manifests, \<open>src/libraries/pki/manifest_canon.c\<close>: a JSON parser without
  fractions, and a writer that sorts the members of objects by the UTF-16 units of their keys.

  The parser's position is the list of the bytes that are left. An allocation that fails is a
  position at which the predicate \<open>oom\<close> holds, given by the number of bytes left; for every run
  of the code there is such a predicate, and where the code needs no memory it is false.
\<close>

datatype json_status =
    JSON_OK
  | JSON_ERR_ARGUMENT
  | JSON_ERR_SYNTAX
  | JSON_ERR_OUTPUT
  | JSON_ERR_MEMORY
  | JSON_ERR_UNSUPPORTED

datatype json_value =
    JSON_NULL
  | JSON_BOOL bool
  | JSON_INTEGER bytes
  | JSON_STRING bytes
  | JSON_ARRAY "json_value list"
  | JSON_OBJECT "(bytes \<times> json_value) list"

type_synonym 'a parsed = "json_status + 'a \<times> bytes"

definition ALRIOS_JSON_MAX_INPUT :: nat where
  "ALRIOS_JSON_MAX_INPUT = 1024 * 1024"

definition ALRIOS_JSON_MAX_DEPTH :: nat where
  "ALRIOS_JSON_MAX_DEPTH = 64"

section \<open>Strings\<close>

definition json_space :: "u8 \<Rightarrow> bool" where
  "json_space byte \<longleftrightarrow> byte = 0x20 \<or> byte = 0x09 \<or> byte = 0x0a \<or> byte = 0x0d"

definition skip_whitespace :: "bytes \<Rightarrow> bytes" where
  "skip_whitespace rest = dropWhile json_space rest"

definition hex_value :: "u8 \<Rightarrow> u32 option" where
  "hex_value byte =
     (if 0x30 \<le> byte \<and> byte \<le> 0x39 then Some (ucast (byte - 0x30))
      else if 0x61 \<le> byte \<and> byte \<le> 0x66 then Some (ucast (byte - 0x61) + 10)
      else if 0x41 \<le> byte \<and> byte \<le> 0x46 then Some (ucast (byte - 0x41) + 10)
      else None)"

fun hex_digits :: "nat \<Rightarrow> u32 \<Rightarrow> bytes \<Rightarrow> u32 option" where
  "hex_digits 0 val rest = Some val"
| "hex_digits (Suc n) val rest =
     (case hex_value (hd rest) of None \<Rightarrow> None | Some digit \<Rightarrow> hex_digits n (push_bit 4 val OR digit) (tl rest))"

definition parse_hex_quad :: "bytes \<Rightarrow> u32 parsed" where
  "parse_hex_quad rest =
     (if length rest < 4 then Inl JSON_ERR_SYNTAX
      else (case hex_digits 4 0 rest of
         None \<Rightarrow> Inl JSON_ERR_SYNTAX
       | Some val \<Rightarrow> Inr (val, drop 4 rest)))"

text \<open>The bytes \<open>append_utf8\<close> appends, if the code point is in range.\<close>

definition append_utf8 :: "u32 \<Rightarrow> bytes option" where
  "append_utf8 codepoint =
     (if codepoint \<le> 0x7F then Some [ucast codepoint]
      else if codepoint \<le> 0x7FF
      then Some [ucast (0xC0 OR drop_bit 6 codepoint), ucast (0x80 OR codepoint AND 0x3F)]
      else if codepoint \<le> 0xFFFF
      then Some [ucast (0xE0 OR drop_bit 12 codepoint), ucast (0x80 OR drop_bit 6 codepoint AND 0x3F),
                 ucast (0x80 OR codepoint AND 0x3F)]
      else if codepoint \<le> 0x10FFFF
      then Some [ucast (0xF0 OR drop_bit 18 codepoint), ucast (0x80 OR drop_bit 12 codepoint AND 0x3F),
                 ucast (0x80 OR drop_bit 6 codepoint AND 0x3F), ucast (0x80 OR codepoint AND 0x3F)]
      else None)"

definition utf8_sequence_length :: "u8 \<Rightarrow> nat" where
  "utf8_sequence_length lead =
     (if 0xC2 \<le> lead \<and> lead \<le> 0xDF then 2
      else if 0xE0 \<le> lead \<and> lead \<le> 0xEF then 3
      else if 0xF0 \<le> lead \<and> lead \<le> 0xF4 then 4
      else 0)"

text \<open>The value bits of a lead byte, and the loop over the bytes that follow it.\<close>

definition lead_bits :: "nat \<Rightarrow> u8 \<Rightarrow> u32" where
  "lead_bits n lead =
     (if n = 2 then ucast (lead AND 0x1F) else if n = 3 then ucast (lead AND 0x0F) else ucast (lead AND 0x07))"

fun continuation_bytes :: "u32 \<Rightarrow> bytes \<Rightarrow> u32 option" where
  "continuation_bytes codepoint [] = Some codepoint"
| "continuation_bytes codepoint (c # cs) =
     (if c AND 0xC0 \<noteq> 0x80 then None
      else continuation_bytes (push_bit 6 codepoint OR ucast (c AND 0x3F)) cs)"

definition append_valid_utf8 :: "(nat \<Rightarrow> bool) \<Rightarrow> bytes \<Rightarrow> bytes parsed" where
  "append_valid_utf8 oom rest =
     (let lead = hd rest; n = utf8_sequence_length lead
      in if n = 0 \<or> length rest < n then Inl JSON_ERR_SYNTAX
         else (case continuation_bytes (lead_bits n lead) (take (n - 1) (tl rest)) of
            None \<Rightarrow> Inl JSON_ERR_SYNTAX
          | Some codepoint \<Rightarrow>
              if n = 2 \<and> codepoint < 0x80 \<or> n = 3 \<and> codepoint < 0x800 \<or> n = 4 \<and> codepoint < 0x10000 \<or>
                 0x10FFFF < codepoint \<or> 0xD800 \<le> codepoint \<and> codepoint \<le> 0xDFFF
              then Inl JSON_ERR_SYNTAX
              else if oom (length rest) then Inl JSON_ERR_MEMORY
              else Inr (take n rest, drop n rest)))"

text \<open>The escape \<open>\u\<close> with its optional second half.\<close>

definition parse_unicode_escape :: "bytes \<Rightarrow> u32 parsed" where
  "parse_unicode_escape rest =
     (case parse_hex_quad rest of
        Inl e \<Rightarrow> Inl e
      | Inr (codepoint, rest) \<Rightarrow>
          if 0xD800 \<le> codepoint \<and> codepoint \<le> 0xDBFF
          then
            (if length rest < 6 \<or> rest ! 0 \<noteq> 0x5c \<or> rest ! 1 \<noteq> 0x75 then Inl JSON_ERR_SYNTAX
             else (case parse_hex_quad (drop 2 rest) of
                Inl _ \<Rightarrow> Inl JSON_ERR_SYNTAX
              | Inr (low, rest) \<Rightarrow>
                  if low < 0xDC00 \<or> 0xDFFF < low then Inl JSON_ERR_SYNTAX
                  else Inr (0x10000 + push_bit 10 (codepoint - 0xD800) + (low - 0xDC00), rest)))
          else if 0xDC00 \<le> codepoint \<and> codepoint \<le> 0xDFFF then Inl JSON_ERR_SYNTAX
          else Inr (codepoint, rest))"

text \<open>What follows a backslash: the bytes it stands for.\<close>

definition parse_escape :: "(nat \<Rightarrow> bool) \<Rightarrow> u8 \<Rightarrow> bytes \<Rightarrow> bytes parsed" where
  "parse_escape oom byte rest =
     (let append = (\<lambda>b. if oom (length rest) then Inl JSON_ERR_MEMORY else Inr ([b], rest))
      in if byte = 0x22 \<or> byte = 0x5c \<or> byte = 0x2f then append byte
         else if byte = 0x62 then append 0x08
         else if byte = 0x66 then append 0x0c
         else if byte = 0x6e then append 0x0a
         else if byte = 0x72 then append 0x0d
         else if byte = 0x74 then append 0x09
         else if byte = 0x75 then
           (case parse_unicode_escape rest of
              Inl e \<Rightarrow> Inl e
            | Inr (codepoint, rest) \<Rightarrow>
                (case append_utf8 codepoint of
                   None \<Rightarrow> Inl JSON_ERR_SYNTAX
                 | Some bs \<Rightarrow> if oom (length rest) then Inl JSON_ERR_MEMORY else Inr (bs, rest)))
         else Inl JSON_ERR_SYNTAX)"

text \<open>
  Leaving the loop of \<open>parse_string_bytes\<close> by \<open>break\<close> or at the end of the input. The status is then
  the one of the last byte that was stored. When that is success, the function reports success
  and has not written its outputs, which the callers have set to the empty string.
\<close>

definition string_break :: "json_status \<Rightarrow> bytes \<Rightarrow> bytes parsed" where
  "string_break status rest = (if status = JSON_OK then Inr ([], rest) else Inl status)"

lemma append_valid_utf8_shorter:
  assumes "append_valid_utf8 oom rest = Inr (bs, rest')"
  shows "length rest' < length rest" and "rest = bs @ rest'"
proof -
  have "utf8_sequence_length (hd rest) \<noteq> 0" "utf8_sequence_length (hd rest) \<le> length rest"
    "bs = take (utf8_sequence_length (hd rest)) rest" "rest' = drop (utf8_sequence_length (hd rest)) rest"
    using assms by (auto simp: append_valid_utf8_def Let_def split: if_splits option.splits)
  then show "length rest' < length rest" "rest = bs @ rest'" by (cases rest; auto)+
qed

lemma parse_hex_quad_shorter: "parse_hex_quad rest = Inr (v, rest') \<Longrightarrow> length rest' < length rest"
  by (auto simp: parse_hex_quad_def split: if_splits option.splits)

lemma parse_unicode_escape_shorter:
  assumes "parse_unicode_escape rest = Inr (v, rest')"
  shows "length rest' < length rest"
proof -
  obtain cp r where cp: "parse_hex_quad rest = Inr (cp, r)" "length r < length rest"
    using assms parse_hex_quad_shorter by (force simp: parse_unicode_escape_def split: sum.splits)
  have "length r' < length r" if "parse_hex_quad (drop 2 r) = Inr (low, r')" for low r'
    using parse_hex_quad_shorter [OF that] by simp
  then show ?thesis using assms cp
    by (auto simp: parse_unicode_escape_def split: if_splits sum.splits intro: less_trans)
qed

lemma parse_escape_shorter: "parse_escape oom byte rest = Inr (bs, rest') \<Longrightarrow> length rest' \<le> length rest"
  by (auto simp: parse_escape_def Let_def dest!: parse_unicode_escape_shorter
      split: if_splits sum.splits option.splits)

function string_loop :: "(nat \<Rightarrow> bool) \<Rightarrow> json_status \<Rightarrow> bytes \<Rightarrow> bytes \<Rightarrow> bytes parsed" where
  "string_loop oom status bs [] = string_break status []"
| "string_loop oom status bs (byte # rest) =
     (if byte = 0x22 then Inr (bs, rest)
      else if byte < 0x20 then string_break status rest
      else if 0x80 \<le> byte then
        (case append_valid_utf8 oom (byte # rest) of
           Inl e \<Rightarrow> Inl e
         | Inr (seq, rest') \<Rightarrow> string_loop oom JSON_OK (bs @ seq) rest')
      else if byte \<noteq> 0x5c then
        (if oom (length rest) then Inl JSON_ERR_MEMORY else string_loop oom JSON_OK (bs @ [byte]) rest)
      else
        (case rest of
           [] \<Rightarrow> string_break status []
         | escape # rest' \<Rightarrow>
             (case parse_escape oom escape rest' of
                Inl e \<Rightarrow> Inl e
              | Inr (seq, rest'') \<Rightarrow> string_loop oom JSON_OK (bs @ seq) rest'')))"
  by pat_completeness auto

termination
  by (relation "measure (\<lambda>(oom, status, bs, rest). length rest)")
    (auto dest!: append_valid_utf8_shorter(1) parse_escape_shorter)

definition parse_string_bytes :: "(nat \<Rightarrow> bool) \<Rightarrow> bytes \<Rightarrow> bytes parsed" where
  "parse_string_bytes oom rest =
     (case rest of
        [] \<Rightarrow> Inl JSON_ERR_SYNTAX
      | byte # rest' \<Rightarrow>
          if byte \<noteq> 0x22 then Inl JSON_ERR_SYNTAX else string_loop oom JSON_ERR_SYNTAX [] rest')"

section \<open>Literals and integers\<close>

definition parse_literal :: "(nat \<Rightarrow> bool) \<Rightarrow> bytes \<Rightarrow> json_value \<Rightarrow> bytes \<Rightarrow> json_value parsed" where
  "parse_literal oom literal val rest =
     (if length rest < length literal \<or> \<not> memeq rest literal (length literal) then Inl JSON_ERR_SYNTAX
      else if oom (length rest) then Inl JSON_ERR_MEMORY
      else Inr (val, drop (length literal) rest))"

text \<open>The digits of an integer from \<open>digits_start\<close> on: how many there are.\<close>

definition integer_digits :: "bytes \<Rightarrow> nat option" where
  "integer_digits rest =
     (if hd rest = 0x30
      then (if tl rest \<noteq> [] \<and> isdigit (hd (tl rest)) then None else Some 1)
      else if hd rest < 0x31 \<or> 0x39 < hd rest then None
      else Some (Suc (length (takeWhile isdigit (tl rest)))))"

definition parse_integer :: "(nat \<Rightarrow> bool) \<Rightarrow> bytes \<Rightarrow> json_value parsed" where
  "parse_integer oom rest =
     (let negative = (hd rest = 0x2d); digits = (if negative then tl rest else rest)
      in if digits = [] then Inl JSON_ERR_SYNTAX
         else (case integer_digits digits of
            None \<Rightarrow> Inl JSON_ERR_SYNTAX
          | Some n \<Rightarrow>
              let rest' = drop n digits
              in if rest' \<noteq> [] \<and> (hd rest' = 0x2e \<or> hd rest' = 0x65 \<or> hd rest' = 0x45)
                 then Inl JSON_ERR_UNSUPPORTED
                 else if oom (length rest') then Inl JSON_ERR_MEMORY
                 else Inr (JSON_INTEGER
                        (if negative \<and> \<not> (n = 1 \<and> hd digits = 0x30) then hd rest # take n digits else take n digits),
                      rest')))"

section \<open>The order of keys\<close>

text \<open>\<open>utf8_next\<close> stores nothing when it fails; its caller does not look at the status.\<close>

fun utf8_bits :: "u32 \<Rightarrow> bytes \<Rightarrow> u32" where
  "utf8_bits val [] = val"
| "utf8_bits val (c # cs) = utf8_bits (push_bit 6 val OR ucast (c AND 0x3F)) cs"

definition utf8_next :: "bytes \<Rightarrow> (u32 \<times> bytes) option" where
  "utf8_next rest =
     (let lead = hd rest; n = utf8_sequence_length lead
      in if lead < 0x80 then Some (ucast lead, tl rest)
         else if n = 0 \<or> length rest < n then None
         else Some (utf8_bits (lead_bits n lead) (take (n - 1) (tl rest)), drop n rest))"

definition next_utf16_unit :: "bytes \<Rightarrow> u16 \<Rightarrow> u16 \<times> bytes \<times> u16" where
  "next_utf16_unit rest pending =
     (if pending \<noteq> 0 then (pending, rest, 0)
      else (case (case utf8_next rest of None \<Rightarrow> (0, rest) | Some r \<Rightarrow> r) of
         (codepoint, rest') \<Rightarrow>
           if codepoint \<le> 0xFFFF then (ucast codepoint, rest', 0)
           else
             let codepoint = codepoint - 0x10000
             in (ucast (0xD800 + drop_bit 10 codepoint), rest', ucast (0xDC00 + (codepoint AND 0x3FF)))))"

text \<open>
  The comparison of two keys, unit by unit. On bytes that are not UTF-8 the loop need not end;
  \<open>fuel\<close> bounds the number of turns, and twice the length of the left key is enough for keys the
  parser has stored.
\<close>

fun compare_loop :: "nat \<Rightarrow> bytes \<Rightarrow> u16 \<Rightarrow> bytes \<Rightarrow> u16 \<Rightarrow> int option" where
  "compare_loop 0 left left_pending right right_pending = None"
| "compare_loop (Suc fuel) left left_pending right right_pending =
     (if left = [] \<and> left_pending = 0
      then Some (if right \<noteq> [] \<or> right_pending \<noteq> 0 then -1 else 0)
      else if right = [] \<and> right_pending = 0 then Some 1
      else
        (case next_utf16_unit left left_pending of (left_unit, left', left_pending') \<Rightarrow>
         case next_utf16_unit right right_pending of (right_unit, right', right_pending') \<Rightarrow>
           if left_unit < right_unit then Some (-1)
           else if right_unit < left_unit then Some 1
           else compare_loop fuel left' left_pending' right' right_pending'))"

definition compare_keys_raw :: "bytes \<Rightarrow> bytes \<Rightarrow> int" where
  "compare_keys_raw left right =
     (case compare_loop (2 * length left + 1) left 0 right 0 of None \<Rightarrow> 0 | Some c \<Rightarrow> c)"

definition compare_members :: "bytes \<times> json_value \<Rightarrow> bytes \<times> json_value \<Rightarrow> int" where
  "compare_members left right = compare_keys_raw (fst left) (fst right)"

section \<open>Every parser consumes input\<close>

lemma skip_whitespace_shorter: "length (skip_whitespace rest) \<le> length rest"
  by (simp add: skip_whitespace_def length_dropWhile_le)

lemma string_loop_shorter: "string_loop oom status bs rest = Inr (v, rest') \<Longrightarrow> length rest' \<le> length rest"
proof (induction oom status bs rest rule: string_loop.induct)
  case (1 oom status bs)
  then show ?case by (simp add: string_break_def split: if_splits)
next
  case (2 oom status bs byte rest)
  note ih = 2(1,2,3) and call = 2(4)
  consider "byte = 0x22 \<or> byte < 0x20" | "\<not> (byte = 0x22 \<or> byte < 0x20)" "0x80 \<le> byte"
    | "\<not> (byte = 0x22 \<or> byte < 0x20)" "\<not> 0x80 \<le> byte" "byte \<noteq> 0x5c"
    | "\<not> (byte = 0x22 \<or> byte < 0x20)" "\<not> 0x80 \<le> byte" "byte = 0x5c"
    by blast
  then show ?case
  proof cases
    case 1
    then show ?thesis using call by (auto simp: string_break_def split: if_splits)
  next
    case 2
    then obtain sq r where "append_valid_utf8 oom (byte # rest) = Inr (sq, r)"
      "string_loop oom JSON_OK (bs @ sq) r = Inr (v, rest')"
      using call by (auto split: sum.splits)
    then show ?thesis using ih(1) [of "(sq, r)" sq r] 2 append_valid_utf8_shorter(1) by fastforce
  next
    case 3
    then show ?thesis using call ih(2) by (auto split: if_splits)
  next
    case 4
    show ?thesis
    proof (cases rest)
      case Nil
      then show ?thesis using call 4 by (auto simp: string_break_def split: if_splits)
    next
      case (Cons e r)
      then obtain sq r' where e: "parse_escape oom e r = Inr (sq, r')" "string_loop oom JSON_OK (bs @ sq) r' = Inr (v, rest')"
        using call 4 by (auto split: sum.splits)
      then have "length rest' \<le> length r'" using ih(3) [of e r "(sq, r')" sq r'] 4 Cons by simp
      then show ?thesis using parse_escape_shorter [OF e(1)] Cons by simp
    qed
  qed
qed

lemma parse_string_bytes_shorter: "parse_string_bytes oom rest = Inr (v, rest') \<Longrightarrow> length rest' < length rest"
  by (auto simp: parse_string_bytes_def split: list.splits if_splits dest: string_loop_shorter)

lemma parse_literal_shorter:
  "parse_literal oom literal val rest = Inr (v, rest') \<Longrightarrow> literal \<noteq> [] \<Longrightarrow> length rest' < length rest"
  by (cases literal) (auto simp: parse_literal_def split: if_splits)

lemma parse_integer_shorter:
  assumes "parse_integer oom rest = Inr (v, rest')" and "rest \<noteq> []"
  shows "length rest' < length rest"
proof -
  have "0 < n" if "integer_digits r = Some n" for r n
    using that by (auto simp: integer_digits_def split: if_splits)
  then have "length (drop n r) < length r" if "integer_digits r = Some n" "r \<noteq> []" for r n using that by simp
  from this [of rest] this [of "tl rest"] show ?thesis
    using assms by (cases rest) (auto simp: parse_integer_def Let_def split: if_splits option.splits)
qed

section \<open>Values\<close>

text \<open>
  \<open>parse_array\<close> and \<open>parse_object\<close> are given what follows the bracket. \<open>array_items\<close> and
  \<open>object_members\<close> are their loops; the position is at the first byte of an element, and the
  elements read before are an argument.
\<close>

function parse_value :: "(nat \<Rightarrow> bool) \<Rightarrow> nat \<Rightarrow> bytes \<Rightarrow> json_value parsed"
  and parse_array :: "(nat \<Rightarrow> bool) \<Rightarrow> nat \<Rightarrow> bytes \<Rightarrow> json_value parsed"
  and array_items :: "(nat \<Rightarrow> bool) \<Rightarrow> nat \<Rightarrow> json_value list \<Rightarrow> bytes \<Rightarrow> json_value parsed"
  and parse_object :: "(nat \<Rightarrow> bool) \<Rightarrow> nat \<Rightarrow> bytes \<Rightarrow> json_value parsed"
  and object_members :: "(nat \<Rightarrow> bool) \<Rightarrow> nat \<Rightarrow> (bytes \<times> json_value) list \<Rightarrow> bytes \<Rightarrow> json_value parsed"
  where
  "parse_value oom depth rest =
     (if ALRIOS_JSON_MAX_DEPTH < depth then Inl JSON_ERR_SYNTAX
      else
        (let rest = skip_whitespace rest; byte = hd rest
         in if rest = [] then Inl JSON_ERR_SYNTAX
            else if byte = 0x7b then parse_object oom depth (tl rest)
            else if byte = 0x5b then parse_array oom depth (tl rest)
            else if byte = 0x22 then
              (if oom (length rest) then Inl JSON_ERR_MEMORY
               else (case parse_string_bytes oom rest of
                  Inl e \<Rightarrow> Inl e
                | Inr (bs, rest') \<Rightarrow> Inr (JSON_STRING bs, rest')))
            else if byte = 0x6e then parse_literal oom (ascii ''null'') JSON_NULL rest
            else if byte = 0x74 then parse_literal oom (ascii ''true'') (JSON_BOOL True) rest
            else if byte = 0x66 then parse_literal oom (ascii ''false'') (JSON_BOOL False) rest
            else if byte = 0x2d \<or> isdigit byte then parse_integer oom rest
            else Inl JSON_ERR_SYNTAX))"
| "parse_array oom depth rest =
     (if oom (Suc (length rest)) then Inl JSON_ERR_MEMORY
      else
        (let rest' = skip_whitespace rest
         in if rest' \<noteq> [] \<and> hd rest' = 0x5d then Inr (JSON_ARRAY [], tl rest')
            else array_items oom depth [] rest'))"
| "array_items oom depth items rest =
     (case parse_value oom (depth + 1) rest of
        Inl e \<Rightarrow> Inl e
      | Inr (item, rest) \<Rightarrow>
          if oom (length rest) then Inl JSON_ERR_MEMORY
          else
            (let rest' = skip_whitespace rest
             in if rest' = [] then Inl JSON_ERR_SYNTAX
                else if hd rest' = 0x5d then Inr (JSON_ARRAY (items @ [item]), tl rest')
                else if hd rest' \<noteq> 0x2c then Inl JSON_ERR_SYNTAX
                else array_items oom depth (items @ [item]) (skip_whitespace (tl rest'))))"
| "parse_object oom depth rest =
     (if oom (Suc (length rest)) then Inl JSON_ERR_MEMORY
      else
        (let rest' = skip_whitespace rest
         in if rest' \<noteq> [] \<and> hd rest' = 0x7d then Inr (JSON_OBJECT [], tl rest')
            else object_members oom depth [] rest'))"
| "object_members oom depth members rest =
     (case parse_string_bytes oom rest of
        Inl e \<Rightarrow> Inl e
      | Inr (key, rest1) \<Rightarrow>
          if \<exists>m \<in> set members. compare_keys_raw key (fst m) = 0 then Inl JSON_ERR_SYNTAX
          else
            (let rest2 = skip_whitespace rest1
             in if rest2 = [] \<or> hd rest2 \<noteq> 0x3a then Inl JSON_ERR_SYNTAX
                else (case parse_value oom (depth + 1) (tl rest2) of
                   Inl e \<Rightarrow> Inl e
                 | Inr (val, rest3) \<Rightarrow>
                     if oom (length rest3) then Inl JSON_ERR_MEMORY
                     else
                       (let members = members @ [(key, val)]; rest4 = skip_whitespace rest3
                        in if rest4 = [] then Inl JSON_ERR_SYNTAX
                           else if hd rest4 = 0x7d
                           then Inr (JSON_OBJECT (qsort compare_members members), tl rest4)
                           else if hd rest4 \<noteq> 0x2c then Inl JSON_ERR_SYNTAX
                           else object_members oom depth members (skip_whitespace (tl rest4))))))"
  by pat_completeness auto

text \<open>How far the parsers get, on the domain of the definition, which gives their termination.\<close>

lemma skip_tl_shorter: "length (skip_whitespace (tl (skip_whitespace rest))) \<le> length rest"
  using skip_whitespace_shorter [of rest] skip_whitespace_shorter [of "tl (skip_whitespace rest)"] by simp

lemma parsers_shorter:
  shows "parse_value_parse_array_array_items_parse_object_object_members_dom (Inl (Inl (oom, depth, rest))) \<Longrightarrow>
      parse_value oom depth rest = Inr (v, rest') \<Longrightarrow> length rest' < length rest"
    and "parse_value_parse_array_array_items_parse_object_object_members_dom (Inl (Inr (oom, depth, rest))) \<Longrightarrow>
      parse_array oom depth rest = Inr (v, rest') \<Longrightarrow> length rest' \<le> length rest"
    and "parse_value_parse_array_array_items_parse_object_object_members_dom (Inr (Inl (oom, depth, items, rest))) \<Longrightarrow>
      array_items oom depth items rest = Inr (v, rest') \<Longrightarrow> length rest' \<le> length rest"
    and "parse_value_parse_array_array_items_parse_object_object_members_dom (Inr (Inr (Inl (oom, depth, rest)))) \<Longrightarrow>
      parse_object oom depth rest = Inr (v, rest') \<Longrightarrow> length rest' \<le> length rest"
    and "parse_value_parse_array_array_items_parse_object_object_members_dom (Inr (Inr (Inr (oom, depth, members, rest)))) \<Longrightarrow>
      object_members oom depth members rest = Inr (v, rest') \<Longrightarrow> length rest' \<le> length rest"
proof (induction oom depth rest and oom depth rest and oom depth items rest and oom depth rest and oom depth members rest
    arbitrary: v rest' and v rest' and v rest' and v rest' and v rest'
    rule: parse_value_parse_array_array_items_parse_object_object_members.pinduct)
  case (1 oom depth rest)
  let ?r = "skip_whitespace rest"
  have r: "length ?r \<le> length rest" by (rule skip_whitespace_shorter)
  have nil: "?r \<noteq> []" and deep: "\<not> ALRIOS_JSON_MAX_DEPTH < depth" using 1(1,4) by (auto simp: parse_value.psimps Let_def split: if_splits)
  then have tl: "length (tl ?r) < length rest" using r by (cases ?r) simp_all
  consider "hd ?r = 0x7b" | "hd ?r = 0x5b" | "hd ?r \<notin> {0x7b, 0x5b}" by blast
  then show ?case
  proof cases
    case a: 1
    then show ?thesis using 1(1,4) 1(2) [of ?r "hd ?r" v rest'] nil deep tl by (simp add: parse_value.psimps Let_def)
  next
    case a: 2
    then show ?thesis using 1(1,4) 1(3) [of ?r "hd ?r" v rest'] nil deep tl by (simp add: parse_value.psimps Let_def)
  next
    case a: 3
    then have "length rest' < length ?r" using 1(1,4) nil
      by (auto simp: parse_value.psimps Let_def ascii_def split: if_splits sum.splits
          dest: parse_string_bytes_shorter parse_literal_shorter parse_integer_shorter)
    then show ?thesis using r by simp
  qed
next
  case (2 oom depth rest)
  have r: "length (skip_whitespace rest) \<le> length rest" by (rule skip_whitespace_shorter)
  then show ?case using 2(1,3) 2(2) [OF _ refl]
    by (fastforce simp: parse_array.psimps Let_def split: if_splits)
next
  case (3 oom depth items rest)
  obtain item r where v: "parse_value oom (depth + 1) rest = Inr (item, r)"
    using 3(1,4) by (auto simp: array_items.psimps split: sum.splits)
  have r: "length r < length rest" by (rule 3(2) [OF v])
  have "length rest' \<le> length r"
  proof (cases "hd (skip_whitespace r) = 0x2c")
    case True
    then show ?thesis using 3(1,4) 3(3) [OF v refl _ refl, of v rest'] skip_tl_shorter [of r]
      by (simp add: array_items.psimps v [simplified] Let_def split: if_splits)
  next
    case False
    then show ?thesis using 3(1,4) skip_whitespace_shorter [of r]
      by (auto simp: array_items.psimps v [simplified] Let_def split: if_splits)
  qed
  then show ?case using r by simp
next
  case (4 oom depth rest)
  have r: "length (skip_whitespace rest) \<le> length rest" by (rule skip_whitespace_shorter)
  then show ?case using 4(1,3) 4(2) [OF _ refl]
    by (fastforce simp: parse_object.psimps Let_def split: if_splits)
next
  case (5 oom depth members rest)
  obtain key r1 where k: "parse_string_bytes oom rest = Inr (key, r1)"
    and new: "\<not> (\<exists>m \<in> set members. compare_keys_raw key (fst m) = 0)"
    and colon: "\<not> (skip_whitespace r1 = [] \<or> hd (skip_whitespace r1) \<noteq> 0x3a)"
    using 5(1,4) by (auto simp: object_members.psimps Let_def split: sum.splits if_splits)
  obtain val r3 where v: "parse_value oom (depth + 1) (tl (skip_whitespace r1)) = Inr (val, r3)"
    using 5(1,4) new colon by (auto simp: object_members.psimps k Let_def split: sum.splits if_splits)
  have "length r3 < length (tl (skip_whitespace r1))" by (rule 5(2) [OF k refl new refl colon v])
  then have r: "length r3 < length rest"
    using parse_string_bytes_shorter [OF k] skip_whitespace_shorter [of r1] by simp
  then show ?case using 5(1,4) 5(3) [OF k refl new refl colon v refl _ refl refl] new colon
      skip_whitespace_shorter [of r3] skip_tl_shorter [of r3]
    by (fastforce simp: object_members.psimps k v [simplified] Let_def split: if_splits)
qed

lemma skip_less: "skip_whitespace rest \<noteq> [] \<Longrightarrow> length (skip_whitespace rest) - Suc 0 < length rest"
  using skip_whitespace_shorter [of rest] by (cases "skip_whitespace rest") simp_all

lemma skip_neq: "length (skip_whitespace rest) \<noteq> length rest \<Longrightarrow> length (skip_whitespace rest) < length rest"
  using skip_whitespace_shorter [of rest] by simp

lemma string_skip_less:
  "parse_string_bytes oom rest = Inr (key, r) \<Longrightarrow> length (skip_whitespace r) - Suc 0 < length rest"
  using skip_whitespace_shorter [of r] by (auto dest!: parse_string_bytes_shorter)

lemma value_skip_less:
  assumes "parse_value oom depth rest = Inr (v, r)"
    and "parse_value_parse_array_array_items_parse_object_object_members_dom (Inl (Inl (oom, depth, rest)))"
  shows "length (skip_whitespace (tl (skip_whitespace r))) < length rest"
  using parsers_shorter(1) [OF assms(2,1)] skip_tl_shorter [of r] by simp

text \<open>
  At one position the loop of an array calls the parser of its next element, and that parser
  enters an array or object one byte further on.
\<close>

termination parse_value
  by (relation "measures [
    \<lambda>x. case x of Inl (Inl (_, _, r)) \<Rightarrow> length r | Inl (Inr (_, _, r)) \<Rightarrow> length r | Inr (Inl (_, _, _, r)) \<Rightarrow> length r
      | Inr (Inr (Inl (_, _, r))) \<Rightarrow> length r | Inr (Inr (Inr (_, _, _, r))) \<Rightarrow> length r,
    \<lambda>x. case x of Inl (Inl _) \<Rightarrow> 0 | Inl (Inr _) \<Rightarrow> 2 | Inr (Inl _) \<Rightarrow> 1 | Inr (Inr (Inl _)) \<Rightarrow> 2 | Inr (Inr (Inr _)) \<Rightarrow> (1::nat)]")
    (auto simp: skip_less skip_neq string_skip_less value_skip_less
      intro: less_trans [OF value_skip_less string_skip_less [unfolded length_tl [symmetric, unfolded One_nat_def]]])

declare parse_value.simps [simp del] parse_array.simps [simp del] array_items.simps [simp del]
  parse_object.simps [simp del] object_members.simps [simp del]

section \<open>The writer\<close>

text \<open>The writer's state is what it has written; its capacity is fixed and at least 1.\<close>

definition writer_append :: "nat \<Rightarrow> bytes \<Rightarrow> bytes \<Rightarrow> json_status + bytes" where
  "writer_append capacity output bs =
     (if capacity - length output - 1 < length bs then Inl JSON_ERR_OUTPUT else Inr (output @ bs))"

definition hex_char :: "u8 \<Rightarrow> u8" where
  "hex_char n = ascii ''0123456789abcdef'' ! unat n"

text \<open>The bytes written for one byte of a string.\<close>

definition escaped :: "u8 \<Rightarrow> bytes" where
  "escaped byte =
     (if byte = 0x22 then [0x5c, 0x22]
      else if byte = 0x5c then [0x5c, 0x5c]
      else if byte = 0x08 then [0x5c, 0x62]
      else if byte = 0x0c then [0x5c, 0x66]
      else if byte = 0x0a then [0x5c, 0x6e]
      else if byte = 0x0d then [0x5c, 0x72]
      else if byte = 0x09 then [0x5c, 0x74]
      else if byte < 0x20
      then [0x5c, 0x75, 0x30, 0x30, hex_char (drop_bit 4 byte AND 0x0F), hex_char (byte AND 0x0F)]
      else [byte])"

fun write_bytes :: "nat \<Rightarrow> bytes \<Rightarrow> bytes \<Rightarrow> json_status + bytes" where
  "write_bytes capacity output [] = Inr output"
| "write_bytes capacity output (b # bs) =
     (case writer_append capacity output (escaped b) of
        Inl e \<Rightarrow> Inl e
      | Inr output \<Rightarrow> write_bytes capacity output bs)"

definition write_string :: "nat \<Rightarrow> bytes \<Rightarrow> bytes \<Rightarrow> json_status + bytes" where
  "write_string capacity output bs =
     (case writer_append capacity output [0x22] of
        Inl e \<Rightarrow> Inl e
      | Inr output \<Rightarrow>
          (case write_bytes capacity output bs of
             Inl e \<Rightarrow> Inl e
           | Inr output \<Rightarrow> writer_append capacity output [0x22]))"

text \<open>\<open>first\<close> tells whether the loop is at its first element, which no comma precedes.\<close>

definition write_comma :: "nat \<Rightarrow> bool \<Rightarrow> bytes \<Rightarrow> json_status + bytes" where
  "write_comma capacity first output = (if first then Inr output else writer_append capacity output [0x2c])"

fun write_value :: "nat \<Rightarrow> bytes \<Rightarrow> json_value \<Rightarrow> json_status + bytes"
  and write_items :: "nat \<Rightarrow> bool \<Rightarrow> bytes \<Rightarrow> json_value list \<Rightarrow> json_status + bytes"
  and write_members :: "nat \<Rightarrow> bool \<Rightarrow> bytes \<Rightarrow> (bytes \<times> json_value) list \<Rightarrow> json_status + bytes"
  where
  "write_value capacity output JSON_NULL = writer_append capacity output (ascii ''null'')"
| "write_value capacity output (JSON_BOOL b) =
     writer_append capacity output (if b then ascii ''true'' else ascii ''false'')"
| "write_value capacity output (JSON_INTEGER bs) = writer_append capacity output bs"
| "write_value capacity output (JSON_STRING bs) = write_string capacity output bs"
| "write_value capacity output (JSON_ARRAY items) =
     (case writer_append capacity output [0x5b] of
        Inl e \<Rightarrow> Inl e
      | Inr output \<Rightarrow>
          (case write_items capacity True output items of
             Inl e \<Rightarrow> Inl e
           | Inr output \<Rightarrow> writer_append capacity output [0x5d]))"
| "write_value capacity output (JSON_OBJECT members) =
     (case writer_append capacity output [0x7b] of
        Inl e \<Rightarrow> Inl e
      | Inr output \<Rightarrow>
          (case write_members capacity True output members of
             Inl e \<Rightarrow> Inl e
           | Inr output \<Rightarrow> writer_append capacity output [0x7d]))"
| "write_items capacity first output [] = Inr output"
| "write_items capacity first output (item # items) =
     (case write_comma capacity first output of
        Inl e \<Rightarrow> Inl e
      | Inr output \<Rightarrow>
          (case write_value capacity output item of
             Inl e \<Rightarrow> Inl e
           | Inr output \<Rightarrow> write_items capacity False output items))"
| "write_members capacity first output [] = Inr output"
| "write_members capacity first output ((key, val) # members) =
     (case write_comma capacity first output of
        Inl e \<Rightarrow> Inl e
      | Inr output \<Rightarrow>
          (case write_string capacity output key of
             Inl e \<Rightarrow> Inl e
           | Inr output \<Rightarrow>
               (case writer_append capacity output [0x3a] of
                  Inl e \<Rightarrow> Inl e
                | Inr output \<Rightarrow>
                    (case write_value capacity output val of
                       Inl e \<Rightarrow> Inl e
                     | Inr output \<Rightarrow> write_members capacity False output members))))"

section \<open>Canonicalisation\<close>

text \<open>
  \<open>in_json\<close> is the array from the pointer on, which holds a NUL within its first
  \<open>ALRIOS_JSON_MAX_INPUT + 1\<close> bytes or is longer than that; \<open>out_canon\<close> is the caller's buffer, of at
  least \<open>max_out\<close> bytes. The answers are the status and the buffer.
\<close>

definition alrios_manifest_canonicalize ::
  "(nat \<Rightarrow> bool) \<Rightarrow> bytes option \<Rightarrow> bytes option \<Rightarrow> nat \<Rightarrow> json_status \<times> bytes option" where
  "alrios_manifest_canonicalize oom in_jsonp out_canonp max_out =
     (case (in_jsonp, out_canonp) of
        (Some in_json, Some out_canon) \<Rightarrow>
          if max_out = 0 then (JSON_ERR_ARGUMENT, out_canonp)
          else
            let input = c_str in_json (ALRIOS_JSON_MAX_INPUT + 1)
            in if input = [] \<or> ALRIOS_JSON_MAX_INPUT < length input then (JSON_ERR_ARGUMENT, out_canonp)
               else (case parse_value oom 0 input of
                  Inl e \<Rightarrow> (e, out_canonp)
                | Inr (root, rest) \<Rightarrow>
                    if skip_whitespace rest \<noteq> [] then (JSON_ERR_SYNTAX, out_canonp)
                    else if oom 0 then (JSON_ERR_MEMORY, out_canonp)
                    else (case write_value max_out [] root of
                       Inl e \<Rightarrow> (e, out_canonp)
                     | Inr output \<Rightarrow> (JSON_OK, Some (memwrite out_canon 0 (output @ [0])))))
      | _ \<Rightarrow> (JSON_ERR_ARGUMENT, out_canonp))"

end
