(* ===== verification/ManifestText.thy ===== *)
theory ManifestText
  imports ManifestCanon
begin

text \<open>
  The texts the canonical writer produces, and that the parser reads them back. UTF-8 is described
  by the parser's own check of one sequence; a string value is a sequence of checked characters.
\<close>

abbreviation no_oom :: "nat \<Rightarrow> bool" where
  "no_oom \<equiv> \<lambda>_. False"

section \<open>UTF-8\<close>

definition utf8_char :: "bytes \<Rightarrow> bool" where
  "utf8_char c \<longleftrightarrow> (\<exists>b < 0x80. c = [b]) \<or> append_valid_utf8 no_oom c = Inr (c, [])"

inductive utf8_text :: "bytes \<Rightarrow> bool" where
  utf8_Nil: "utf8_text []"
| utf8_Cons: "utf8_char c \<Longrightarrow> utf8_text t \<Longrightarrow> utf8_text (c @ t)"

lemma utf8_text_append: "utf8_text s \<Longrightarrow> utf8_text t \<Longrightarrow> utf8_text (s @ t)"
  by (induction rule: utf8_text.induct) (simp_all add: utf8_Cons)

lemma utf8_text_char: "utf8_char c \<Longrightarrow> utf8_text c"
  using utf8_Cons [OF _ utf8_Nil] by simp

text \<open>A sequence of several bytes: its parts, and that the check looks at nothing behind it.\<close>

definition shortest_form :: "nat \<Rightarrow> u32 \<Rightarrow> bool" where
  "shortest_form n cp \<longleftrightarrow> \<not> (n = 2 \<and> cp < 0x80 \<or> n = 3 \<and> cp < 0x800 \<or> n = 4 \<and> cp < 0x10000 \<or>
     0x10FFFF < cp \<or> 0xD800 \<le> cp \<and> cp \<le> 0xDFFF)"

lemma append_valid_utf8_iff:
  "append_valid_utf8 oom s = Inr (c, t) \<longleftrightarrow>
    (\<exists>cp. utf8_sequence_length (hd c) = length c \<and> c \<noteq> [] \<and> s = c @ t \<and> \<not> oom (length s) \<and>
      continuation_bytes (lead_bits (length c) (hd c)) (tl c) = Some cp \<and> shortest_form (length c) cp)"
  (is "?l \<longleftrightarrow> ?r")
proof
  assume l: ?l
  define n where "n = utf8_sequence_length (hd s)"
  obtain cp where n: "n \<noteq> 0" "n \<le> length s" "c = take n s" "t = drop n s" "\<not> oom (length s)"
      "continuation_bytes (lead_bits n (hd s)) (take (n - 1) (tl s)) = Some cp" "shortest_form n cp"
    using l unfolding append_valid_utf8_def Let_def n_def [symmetric] shortest_form_def
    by (auto split: if_splits option.splits)
  then have "hd c = hd s" "length c = n" "tl c = take (n - 1) (tl s)" by (cases s; cases n; auto)+
  then show ?r using n by (auto simp: n_def)
next
  assume ?r
  then obtain cp where r: "utf8_sequence_length (hd c) = length c" "c \<noteq> []" "s = c @ t" "\<not> oom (length s)"
      "continuation_bytes (lead_bits (length c) (hd c)) (tl c) = Some cp" "shortest_form (length c) cp"
    by blast
  moreover have "hd s = hd c" "take (length c - 1) (tl s) = tl c" using r(2,3) by (cases c; simp)+
  ultimately show ?l by (auto simp: append_valid_utf8_def Let_def shortest_form_def)
qed

lemma append_valid_utf8_extend:
  "append_valid_utf8 no_oom c = Inr (c, []) \<Longrightarrow> append_valid_utf8 no_oom (c @ rest) = Inr (c, rest)"
  by (simp add: append_valid_utf8_iff)

lemma append_valid_utf8_char: "append_valid_utf8 oom s = Inr (c, t) \<Longrightarrow> append_valid_utf8 no_oom c = Inr (c, [])"
  by (auto simp: append_valid_utf8_iff)

lemma sequence_length_high: "utf8_sequence_length b \<noteq> 0 \<Longrightarrow> 0x80 \<le> b"
  by (auto simp: utf8_sequence_length_def split: if_splits intro: order_trans [rotated])

lemma continuation_bytes_high: "continuation_bytes v cs = Some r \<Longrightarrow> \<forall>c \<in> set cs. 0x80 \<le> c"
proof (induction cs arbitrary: v)
  case (Cons c cs)
  have "0x80 \<le> c" if "c AND 0xC0 = (0x80 :: u8)"
  proof -
    have "c AND 0xC0 \<le> c" by (rule word_and_le2)
    then show ?thesis using that by simp
  qed
  then show ?case using Cons by (auto split: if_splits)
qed simp

lemma utf8_sequence_high:
  assumes "append_valid_utf8 no_oom c = Inr (c, [])"
  shows "\<forall>b \<in> set c. 0x80 \<le> b"
proof -
  obtain b bs where c: "c = b # bs" using assms by (cases c) (auto simp: append_valid_utf8_iff)
  then have "utf8_sequence_length b \<noteq> 0" using assms by (auto simp: append_valid_utf8_iff)
  then show ?thesis using c assms sequence_length_high continuation_bytes_high
    by (auto simp: append_valid_utf8_iff)
qed

section \<open>The encoder of code points\<close>

text \<open>Masks and shifts as arithmetic on natural numbers.\<close>

lemma and_mask_nat:
  fixes x :: "'a::len word"
  shows "unat (x AND 0x3F) = unat x mod 64" "unat (x AND 0x1F) = unat x mod 32"
    "unat (x AND 0x0F) = unat x mod 16" "unat (x AND 0x07) = unat x mod 8"
proof -
  have "unat (x AND mask n) = unat x mod 2 ^ n" for n
    by (simp flip: take_bit_eq_mask add: unsigned_take_bit_eq) (simp add: take_bit_eq_mod)
  from this [of 6] this [of 5] this [of 4] this [of 3]
  show "unat (x AND 0x3F) = unat x mod 64" "unat (x AND 0x1F) = unat x mod 32"
    "unat (x AND 0x0F) = unat x mod 16" "unat (x AND 0x07) = unat x mod 8"
    by (simp_all add: mask_eq_exp_minus_1)
qed

lemma or_low_bits:
  fixes x :: "'a::len word"
  assumes "unat x < 2 ^ k"
  shows "push_bit k a OR x = push_bit k a + x"
proof -
  have "take_bit k x = x"
    using assms by (simp add: word_unat_eq_iff unsigned_take_bit_eq take_bit_nat_eq_self)
  then have "\<not> (bit (push_bit k a) n \<and> bit x n)" for n
    by (metis bit_push_bit_iff bit_take_bit_iff linorder_not_le)
  then show ?thesis by (simp add: disjunctive_add)
qed

lemma continuation_step:
  fixes v :: u32 and c :: u8
  assumes "unat v < 2 ^ 26"
  shows "unat (push_bit 6 v OR ucast (c AND 0x3F)) = unat v * 64 + unat c mod 64"
proof -
  have c: "unat (ucast (c AND 0x3F) :: u32) = unat c mod 64"
    by (simp add: and_mask_nat unsigned_ucast_eq) (simp add: take_bit_nat_eq_self)
  have v: "unat (push_bit 6 v) = unat v * 64"
    using assms by (simp add: push_bit_eq_mult unat_word_ariths)
  have "push_bit 6 v OR ucast (c AND 0x3F) = push_bit 6 v + ucast (c AND 0x3F)" by (rule or_low_bits) (simp add: c)
  then show ?thesis using assms c v by (simp add: unat_word_ariths)
qed

text \<open>The bytes of an encoded code point.\<close>

lemma tail_byte:
  fixes cp :: u32
  shows "unat (ucast (0x80 OR cp AND 0x3F) :: u8) = 128 + unat cp mod 64"
    and "(ucast (0x80 OR cp AND 0x3F) :: u8) AND 0xC0 = 0x80"
proof -
  have "push_bit 7 1 OR cp AND 0x3F = push_bit 7 1 + (cp AND 0x3F)" by (rule or_low_bits) (simp add: and_mask_nat)
  then have u: "unat (0x80 OR cp AND 0x3F) = 128 + unat cp mod 64"
    by (simp add: unat_word_ariths and_mask_nat)
  then show n: "unat (ucast (0x80 OR cp AND 0x3F) :: u8) = 128 + unat cp mod 64"
    by (simp add: unsigned_ucast_eq take_bit_nat_eq_self)
  have "\<forall>m \<in> set [0..<64]. of_nat (128 + m) AND 0xC0 = (0x80 :: u8)" by code_simp
  moreover have "ucast (0x80 OR cp AND 0x3F) = (of_nat (128 + unat cp mod 64) :: u8)" by (simp flip: n)
  ultimately show "(ucast (0x80 OR cp AND 0x3F) :: u8) AND 0xC0 = 0x80" by simp
qed

lemma lead_byte:
  fixes cp :: u32
  shows "unat cp < 2 ^ 11 \<Longrightarrow> unat (ucast (0xC0 OR drop_bit 6 cp) :: u8) = 192 + unat cp div 64"
    and "unat cp < 2 ^ 16 \<Longrightarrow> unat (ucast (0xE0 OR drop_bit 12 cp) :: u8) = 224 + unat cp div 4096"
    and "unat cp < 2 ^ 21 \<Longrightarrow> unat (ucast (0xF0 OR drop_bit 18 cp) :: u8) = 240 + unat cp div 262144"
proof -
  have d: "unat (drop_bit n cp) = unat cp div 2 ^ n" for n
    using unat_drop_bit_eq [of n cp] by (simp only: drop_bit_eq_div [of _ "unat cp"])
  have "push_bit 6 3 OR drop_bit 6 cp = push_bit 6 3 + drop_bit 6 cp" if "unat cp < 2 ^ 11"
    using that by (intro or_low_bits) (simp add: d)
  then show "unat (ucast (0xC0 OR drop_bit 6 cp) :: u8) = 192 + unat cp div 64" if "unat cp < 2 ^ 11"
    using that by (simp add: unsigned_ucast_eq take_bit_nat_eq_self unat_word_ariths d)
  have "push_bit 5 7 OR drop_bit 12 cp = push_bit 5 7 + drop_bit 12 cp" if "unat cp < 2 ^ 16"
    using that by (intro or_low_bits) (simp add: d)
  then show "unat (ucast (0xE0 OR drop_bit 12 cp) :: u8) = 224 + unat cp div 4096" if "unat cp < 2 ^ 16"
    using that by (simp add: unsigned_ucast_eq take_bit_nat_eq_self unat_word_ariths d)
  have "push_bit 4 15 OR drop_bit 18 cp = push_bit 4 15 + drop_bit 18 cp" if "unat cp < 2 ^ 21"
    using that by (intro or_low_bits) (simp add: d)
  then show "unat (ucast (0xF0 OR drop_bit 18 cp) :: u8) = 240 + unat cp div 262144" if "unat cp < 2 ^ 21"
    using that by (simp add: unsigned_ucast_eq take_bit_nat_eq_self unat_word_ariths d)
qed

lemma drop_bit_nat: "unat (drop_bit k (cp :: u32)) = unat cp div 2 ^ k"
  using unat_drop_bit_eq [of k cp] by (simp only: drop_bit_eq_div [of _ "unat cp"])

lemma sequence_length_nat:
  "utf8_sequence_length b =
    (if 194 \<le> unat b \<and> unat b \<le> 223 then 2 else if 224 \<le> unat b \<and> unat b \<le> 239 then 3
     else if 240 \<le> unat b \<and> unat b \<le> 244 then 4 else 0)"
  by (simp add: utf8_sequence_length_def word_le_nat_alt)

lemma lead_bits_nat:
  "unat (lead_bits 2 b) = unat b mod 32" "unat (lead_bits 3 b) = unat b mod 16" "unat (lead_bits 4 b) = unat b mod 8"
  by (simp_all add: lead_bits_def unsigned_ucast_eq and_mask_nat take_bit_nat_eq_self)

lemma lead_mod:
  fixes q :: nat
  shows "q < 32 \<Longrightarrow> (192 + q) mod 32 = q" "q < 16 \<Longrightarrow> (224 + q) mod 16 = q" "q < 8 \<Longrightarrow> (240 + q) mod 8 = q"
  using mod_mult_self1 [of q 6 32] mod_mult_self1 [of q 14 16] mod_mult_self1 [of q 30 8]
  by (simp_all add: add.commute)

lemma six_bits:
  fixes m :: nat
  shows "m div 64 * 64 + (128 + m mod 64) mod 64 = m"
    "m div 4096 * 64 + (128 + m div 64 mod 64) mod 64 = m div 64"
    "m div 262144 * 64 + (128 + m div 4096 mod 64) mod 64 = m div 4096"
proof -
  have six: "k div 64 * 64 + (128 + k mod 64) mod 64 = k" for k :: nat
    using mod_mult_self1 [of "k mod 64" 2 64] div_mult_mod_eq [of k 64] by (simp add: add.commute)
  show "m div 64 * 64 + (128 + m mod 64) mod 64 = m" by (rule six)
  show "m div 4096 * 64 + (128 + m div 64 mod 64) mod 64 = m div 64"
    using six [of "m div 64"] by (simp flip: div_mult2_eq)
  show "m div 262144 * 64 + (128 + m div 4096 mod 64) mod 64 = m div 4096"
    using six [of "m div 4096"] by (simp flip: div_mult2_eq)
qed

lemma utf8_sequence:
  "utf8_sequence_length l = n \<Longrightarrow> n = Suc (length ts) \<Longrightarrow> continuation_bytes (lead_bits n l) ts = Some cp \<Longrightarrow>
    shortest_form n cp \<Longrightarrow> utf8_char (l # ts)"
  by (auto simp: utf8_char_def append_valid_utf8_iff)

lemma encoded_two:
  fixes cp :: u32
  assumes "0x7F < cp" "cp \<le> 0x7FF"
  shows "utf8_char [ucast (0xC0 OR drop_bit 6 cp), ucast (0x80 OR cp AND 0x3F)]"
proof -
  have n: "128 \<le> unat cp" "unat cp < 2 ^ 11" using assms by (simp_all add: word_less_nat_alt word_le_nat_alt)
  define l t where "l = (ucast (0xC0 OR drop_bit 6 cp) :: u8)" and "t = (ucast (0x80 OR cp AND 0x3F) :: u8)"
  have l: "unat l = 192 + unat cp div 64" and t: "unat t = 128 + unat cp mod 64" "t AND 0xC0 = 0x80"
    using lead_byte(1) [OF n(2)] tail_byte [of cp] by (simp_all add: l_def t_def)
  have q: "2 \<le> unat cp div 64" "unat cp div 64 < 32"
    using div_le_mono [OF n(1), of 64] n(2) by (simp_all add: div_less_iff_less_mult)
  have len: "utf8_sequence_length l = 2" using q by (simp add: sequence_length_nat l)
  have "unat (lead_bits 2 l) = unat cp div 64" using q by (simp add: lead_bits_nat l lead_mod)
  then have "unat (push_bit 6 (lead_bits 2 l) OR ucast (t AND 0x3F)) = unat cp"
    using n t(1) by (subst continuation_step) (simp_all add: six_bits)
  then have "continuation_bytes (lead_bits 2 l) [t] = Some cp" using t(2) by (simp add: word_unat_eq_iff)
  moreover have "shortest_form 2 cp" using n by (simp add: shortest_form_def word_less_nat_alt word_le_nat_alt)
  ultimately show ?thesis unfolding l_def [symmetric] t_def [symmetric] using len by (intro utf8_sequence) simp_all
qed

lemma encoded_three:
  fixes cp :: u32
  assumes "0x7FF < cp" "cp \<le> 0xFFFF" "\<not> (0xD800 \<le> cp \<and> cp \<le> 0xDFFF)"
  shows "utf8_char [ucast (0xE0 OR drop_bit 12 cp), ucast (0x80 OR drop_bit 6 cp AND 0x3F), ucast (0x80 OR cp AND 0x3F)]"
proof -
  have n: "2048 \<le> unat cp" "unat cp < 2 ^ 16" using assms by (simp_all add: word_less_nat_alt word_le_nat_alt)
  define l s t where "l = (ucast (0xE0 OR drop_bit 12 cp) :: u8)" and "s = (ucast (0x80 OR drop_bit 6 cp AND 0x3F) :: u8)"
    and "t = (ucast (0x80 OR cp AND 0x3F) :: u8)"
  have l: "unat l = 224 + unat cp div 4096" and t: "unat t = 128 + unat cp mod 64" "t AND 0xC0 = 0x80"
    and s: "unat s = 128 + unat cp div 64 mod 64" "s AND 0xC0 = 0x80"
    using lead_byte(2) [OF n(2)] tail_byte [of cp] tail_byte [of "drop_bit 6 cp"] by (simp_all add: l_def s_def t_def drop_bit_nat)
  have q: "unat cp div 4096 < 16" using n(2) by (simp add: div_less_iff_less_mult)
  then have len: "utf8_sequence_length l = 3" by (simp add: sequence_length_nat l)
  have "unat (lead_bits 3 l) = unat cp div 4096" using q by (simp add: lead_bits_nat l lead_mod)
  then have v: "unat (push_bit 6 (lead_bits 3 l) OR ucast (s AND 0x3F)) = unat cp div 64"
    using n s(1) by (subst continuation_step) (simp_all add: six_bits)
  then have "unat (push_bit 6 (push_bit 6 (lead_bits 3 l) OR ucast (s AND 0x3F)) OR ucast (t AND 0x3F)) = unat cp"
    using n t(1) by (subst continuation_step) (simp_all add: six_bits)
  then have "continuation_bytes (lead_bits 3 l) [s, t] = Some cp" using t(2) s(2) by (simp add: word_unat_eq_iff)
  moreover have "shortest_form 3 cp" using n assms(3) by (auto simp: shortest_form_def word_less_nat_alt word_le_nat_alt)
  ultimately show ?thesis unfolding l_def [symmetric] s_def [symmetric] t_def [symmetric] using len by (intro utf8_sequence) simp_all
qed

lemma encoded_four:
  fixes cp :: u32
  assumes "0xFFFF < cp" "cp \<le> 0x10FFFF"
  shows "utf8_char [ucast (0xF0 OR drop_bit 18 cp), ucast (0x80 OR drop_bit 12 cp AND 0x3F),
    ucast (0x80 OR drop_bit 6 cp AND 0x3F), ucast (0x80 OR cp AND 0x3F)]"
proof -
  have n: "65536 \<le> unat cp" "unat cp < 1114112" using assms by (simp_all add: word_less_nat_alt word_le_nat_alt)
  define l r s t where "l = (ucast (0xF0 OR drop_bit 18 cp) :: u8)" and "r = (ucast (0x80 OR drop_bit 12 cp AND 0x3F) :: u8)"
    and "s = (ucast (0x80 OR drop_bit 6 cp AND 0x3F) :: u8)" and "t = (ucast (0x80 OR cp AND 0x3F) :: u8)"
  have l: "unat l = 240 + unat cp div 262144" and t: "unat t = 128 + unat cp mod 64" "t AND 0xC0 = 0x80"
    and s: "unat s = 128 + unat cp div 64 mod 64" "s AND 0xC0 = 0x80"
    and r: "unat r = 128 + unat cp div 4096 mod 64" "r AND 0xC0 = 0x80"
    using lead_byte(3) [of cp] n tail_byte [of cp] tail_byte [of "drop_bit 6 cp"] tail_byte [of "drop_bit 12 cp"]
    by (simp_all add: l_def r_def s_def t_def drop_bit_nat)
  have "unat cp div 262144 < 5" using n(2) by (simp add: div_less_iff_less_mult)
  then have q: "unat cp div 262144 \<le> 4" by simp
  then have len: "utf8_sequence_length l = 4" by (simp add: sequence_length_nat l)
  have "unat (lead_bits 4 l) = unat cp div 262144" using q by (simp add: lead_bits_nat l lead_mod)
  then have v: "unat (push_bit 6 (lead_bits 4 l) OR ucast (r AND 0x3F)) = unat cp div 4096"
    using n r(1) by (subst continuation_step) (simp_all add: six_bits)
  then have w: "unat (push_bit 6 (push_bit 6 (lead_bits 4 l) OR ucast (r AND 0x3F)) OR ucast (s AND 0x3F)) = unat cp div 64"
    using n s(1) by (subst continuation_step) (simp_all add: six_bits)
  then have "unat (push_bit 6 (push_bit 6 (push_bit 6 (lead_bits 4 l) OR ucast (r AND 0x3F)) OR ucast (s AND 0x3F))
      OR ucast (t AND 0x3F)) = unat cp"
    using n t(1) by (subst continuation_step) (simp_all add: six_bits)
  then have "continuation_bytes (lead_bits 4 l) [r, s, t] = Some cp" using t(2) s(2) r(2) by (simp add: word_unat_eq_iff)
  moreover have "shortest_form 4 cp" using n by (auto simp: shortest_form_def word_less_nat_alt word_le_nat_alt)
  ultimately show ?thesis unfolding l_def [symmetric] r_def [symmetric] s_def [symmetric] t_def [symmetric] using len by (intro utf8_sequence) simp_all
qed

text \<open>Every code point but the surrogates is encoded as one valid character.\<close>

lemma append_utf8_valid:
  assumes "append_utf8 cp = Some bs" and "\<not> (0xD800 \<le> cp \<and> cp \<le> 0xDFFF)"
  shows "utf8_char bs"
proof -
  have one: "utf8_char [ucast cp]" if "cp \<le> 0x7F"
  proof -
    have "unat (ucast cp :: u8) = unat cp" using that
      by (simp add: unsigned_ucast_eq take_bit_nat_eq_self word_le_nat_alt)
    then have "(ucast cp :: u8) < 0x80" using that by (simp add: word_less_nat_alt word_le_nat_alt)
    then show ?thesis by (auto simp: utf8_char_def)
  qed
  show ?thesis using assms one encoded_two [of cp] encoded_three [of cp] encoded_four [of cp]
    by (auto simp: append_utf8_def not_le split: if_splits)
qed

end
