(* ===== verification/ManifestOrder.thy ===== *)
theory ManifestOrder
  imports ManifestText
begin

text \<open>
  The order of the keys of an object: on UTF-8 texts the loop over pairs of UTF-16 units ends and
  compares the unit sequences lexicographically, so it is a comparison \<open>qsort\<close> may be given.
\<close>

section \<open>Unit sequences\<close>

function utf16 :: "bytes \<Rightarrow> u16 list" where
  "utf16 s =
     (if s = [] then []
      else (case next_utf16_unit s 0 of (u, t, p) \<Rightarrow>
        if length s \<le> length t then [] else if p = 0 then u # utf16 t else u # p # utf16 t))"
  by pat_completeness auto

termination
  by (relation "measure length") auto

declare utf16.simps [simp del]

lemma utf16_Nil [simp]: "utf16 [] = []"
  by (subst utf16.simps) simp

fun unit_cmp :: "u16 list \<Rightarrow> u16 list \<Rightarrow> int" where
  "unit_cmp [] [] = 0"
| "unit_cmp [] (b # bs) = -1"
| "unit_cmp (a # as) [] = 1"
| "unit_cmp (a # as) (b # bs) = (if a < b then -1 else if b < a then 1 else unit_cmp as bs)"

lemma unit_cmp_flip: "unit_cmp y x = - unit_cmp x y"
  by (induction x y rule: unit_cmp.induct) auto

lemma unit_cmp_chain: "unit_cmp x y < 0 \<Longrightarrow> unit_cmp y z < 0 \<Longrightarrow> unit_cmp x z < 0"
proof (induction x y arbitrary: z rule: unit_cmp.induct)
  case (4 a as b bs)
  then show ?case by (cases z) (auto split: if_splits)
next
  case (2 b bs)
  then show ?case by (cases z) auto
qed auto

text \<open>Reading the first character of a text gives one or two units and the rest.\<close>

lemma utf8_next_char: "utf8_char c \<Longrightarrow> \<exists>cp. utf8_next (c @ t) = Some (cp, t)"
proof (cases "append_valid_utf8 no_oom c = Inr (c, [])")
  case True
  then have "c \<noteq> []" "utf8_sequence_length (hd c) = length c" "\<not> hd c < 0x80"
    using utf8_sequence_high [OF True] by (auto simp: append_valid_utf8_iff not_less)
  then show ?thesis by (simp add: utf8_next_def Let_def)
qed (auto simp: utf8_char_def utf8_next_def)

lemma next_unit_char:
  assumes "utf8_char c"
  obtains u p where "next_utf16_unit (c @ t) 0 = (u, t, p)"
proof -
  obtain cp where "utf8_next (c @ t) = Some (cp, t)" using utf8_next_char [OF assms, of t] by blast
  then show ?thesis using that by (cases "cp \<le> 0xFFFF") (simp_all add: next_utf16_unit_def Let_def)
qed

lemma utf8_char_nonempty: "utf8_char c \<Longrightarrow> c \<noteq> []"
  by (auto simp: utf8_char_def append_valid_utf8_iff)

lemma utf8_text_cases:
  assumes "utf8_text s" "s \<noteq> []"
  obtains u t p where "next_utf16_unit s 0 = (u, t, p)" "utf8_text t" "length t < length s"
    "utf16 s = u # (if p = 0 then [] else [p]) @ utf16 t"
  using assms
proof (cases rule: utf8_text.cases)
  case (utf8_Cons c t)
  obtain u p where n: "next_utf16_unit (c @ t) 0 = (u, t, p)" by (rule next_unit_char [OF utf8_Cons(2)])
  have "c \<noteq> []" by (rule utf8_char_nonempty [OF utf8_Cons(2)])
  then have len: "length t < length s" using utf8_Cons(1) by simp
  then have "utf16 s = u # (if p = 0 then [] else [p]) @ utf16 t"
    using utf8_Cons(1) n by (subst utf16.simps) auto
  then show ?thesis using that n utf8_Cons len by blast
qed simp

text \<open>What a position of the comparison stands for: a unit that is pending, and the units of the rest.\<close>

definition denoted :: "u16 \<Rightarrow> bytes \<Rightarrow> u16 list" where
  "denoted p s = (if p = 0 then utf16 s else p # utf16 s)"

lemma denoted_step:
  assumes "utf8_text s" "\<not> (s = [] \<and> p = 0)"
  obtains u t q where "next_utf16_unit s p = (u, t, q)" "utf8_text t" "denoted p s = u # denoted q t"
proof (cases "p = 0")
  case True
  then have "s \<noteq> []" using assms(2) by simp
  with assms(1) obtain u t q where "next_utf16_unit s 0 = (u, t, q)" "utf8_text t"
      "utf16 s = u # (if q = 0 then [] else [q]) @ utf16 t"
    by (rule utf8_text_cases)
  then show ?thesis using that True by (simp add: denoted_def)
next
  case False
  then show ?thesis using that [of p s 0] assms(1) by (simp add: denoted_def next_utf16_unit_def)
qed

lemma denoted_empty:
  assumes "utf8_text s"
  shows "denoted p s = [] \<longleftrightarrow> s = [] \<and> p = 0"
proof (cases "s = [] \<and> p = 0")
  case False
  obtain u t q where "denoted p s = u # denoted q t" by (rule denoted_step [OF assms False])
  then show ?thesis using False by simp
qed (simp add: denoted_def)

lemma compare_loop_units:
  "utf8_text l \<Longrightarrow> utf8_text r \<Longrightarrow> length (denoted lp l) < fuel \<Longrightarrow>
    compare_loop fuel l lp r rp = Some (unit_cmp (denoted lp l) (denoted rp r))"
proof (induction fuel arbitrary: l lp r rp)
  case (Suc fuel)
  note empty = denoted_empty [OF Suc.prems(1), of lp] denoted_empty [OF Suc.prems(2), of rp]
  show ?case
  proof (cases "denoted lp l = [] \<or> denoted rp r = []")
    case True
    then show ?thesis using empty by (cases "denoted lp l"; cases "denoted rp r") auto
  next
    case False
    then have ne: "\<not> (l = [] \<and> lp = 0)" "\<not> (r = [] \<and> rp = 0)" using empty by auto
    obtain a l' lq where l: "next_utf16_unit l lp = (a, l', lq)" "utf8_text l'" "denoted lp l = a # denoted lq l'"
      by (rule denoted_step [OF Suc.prems(1) ne(1)])
    obtain b r' rq where r: "next_utf16_unit r rp = (b, r', rq)" "utf8_text r'" "denoted rp r = b # denoted rq r'"
      by (rule denoted_step [OF Suc.prems(2) ne(2)])
    have "compare_loop fuel l' lq r' rq = Some (unit_cmp (denoted lq l') (denoted rq r'))"
      using Suc.prems(3) l r by (intro Suc.IH) simp_all
    then show ?thesis using ne l r by auto
  qed
qed simp

lemma length_utf16: "length (utf16 s) \<le> 2 * length s"
proof (induction s rule: utf16.induct)
  case (1 s)
  obtain u t p where n: "next_utf16_unit s 0 = (u, t, p)" by (metis prod_cases3)
  show ?case
  proof (cases "s = [] \<or> length s \<le> length t")
    case True
    then show ?thesis using n by (subst utf16.simps) auto
  next
    case False
    then have "length (utf16 t) \<le> 2 * length t" using 1 n by (cases "p = 0") auto
    then show ?thesis using False n by (subst utf16.simps) auto
  qed
qed

text \<open>The comparison of two keys, for keys as the parser stores them.\<close>

lemma compare_keys_units:
  "utf8_text l \<Longrightarrow> utf8_text r \<Longrightarrow> compare_keys_raw l r = unit_cmp (utf16 l) (utf16 r)"
  using compare_loop_units [of l r 0 "2 * length l + 1" 0] length_utf16 [of l]
  by (simp add: compare_keys_raw_def denoted_def less_Suc_eq_le)

interpretation key_order: c_comparison "\<lambda>m. utf8_text (fst m)" compare_members
proof unfold_locales
  fix x y z :: "bytes \<times> json_value"
  assume x: "utf8_text (fst x)" and y: "utf8_text (fst y)"
  show "compare_members x y < 0 \<longleftrightarrow> 0 < compare_members y x"
    using compare_keys_units [OF x y] compare_keys_units [OF y x] unit_cmp_flip [of "utf16 (fst y)" "utf16 (fst x)"]
    by (simp add: compare_members_def)
  assume z: "utf8_text (fst z)" and "compare_members x y < 0" "compare_members y z < 0"
  then show "compare_members x z < 0"
    using compare_keys_units [OF x y] compare_keys_units [OF y z] compare_keys_units [OF x z]
      unit_cmp_chain [of "utf16 (fst x)" "utf16 (fst y)" "utf16 (fst z)"]
    by (simp add: compare_members_def)
qed

end
