(* ===== verification/ManifestPrint.thy ===== *)
theory ManifestPrint
  imports ManifestOrder
begin

text \<open>
  The canonical text of a value, that the writer writes it, and that the parser reads it back as
  the same value.
\<close>

section \<open>The text of a value\<close>

definition string_text :: "bytes \<Rightarrow> bytes" where
  "string_text bs = 0x22 # concat (map escaped bs) @ [0x22]"

fun comma :: "bool \<Rightarrow> bytes" where
  "comma first = (if first then [] else [0x2c])"

fun json_text :: "json_value \<Rightarrow> bytes"
  and items_text :: "bool \<Rightarrow> json_value list \<Rightarrow> bytes"
  and members_text :: "bool \<Rightarrow> (bytes \<times> json_value) list \<Rightarrow> bytes"
  where
  "json_text JSON_NULL = ascii ''null''"
| "json_text (JSON_BOOL b) = (if b then ascii ''true'' else ascii ''false'')"
| "json_text (JSON_INTEGER bs) = bs"
| "json_text (JSON_STRING bs) = string_text bs"
| "json_text (JSON_ARRAY items) = 0x5b # items_text True items @ [0x5d]"
| "json_text (JSON_OBJECT members) = 0x7b # members_text True members @ [0x7d]"
| "items_text first [] = []"
| "items_text first (v # vs) = comma first @ json_text v @ items_text False vs"
| "members_text first [] = []"
| "members_text first ((k, v) # ms) = comma first @ string_text k @ 0x3a # json_text v @ members_text False ms"

text \<open>Writing succeeds exactly when the text and a NUL fit.\<close>

definition fitting :: "nat \<Rightarrow> bytes \<Rightarrow> json_status + bytes" where
  "fitting capacity text = (if length text < capacity then Inr text else Inl JSON_ERR_OUTPUT)"

lemma writer_append_fits: "length out < capacity \<Longrightarrow> writer_append capacity out bs = fitting capacity (out @ bs)"
  by (auto simp: writer_append_def fitting_def)

lemma fitting_then:
  assumes "text' = text @ more"
    and "\<And>out. length out < capacity \<Longrightarrow> out = text \<Longrightarrow> k out = fitting capacity text'"
  shows "(case fitting capacity text of Inl e \<Rightarrow> Inl e | Inr out \<Rightarrow> k out) = fitting capacity text'"
  using assms by (auto simp: fitting_def)

lemma write_bytes_fits:
  "length out < capacity \<Longrightarrow> write_bytes capacity out bs = fitting capacity (out @ concat (map escaped bs))"
proof (induction bs arbitrary: out)
  case (Cons b bs)
  then show ?case
    by (simp only: write_bytes.simps writer_append_fits) (rule fitting_then; simp add: Cons.IH)
qed (simp add: fitting_def)

lemma write_string_fits:
  assumes "length out < capacity"
  shows "write_string capacity out bs = fitting capacity (out @ string_text bs)"
  unfolding write_string_def writer_append_fits [OF assms]
proof (rule fitting_then)
  fix out' assume o: "length out' < capacity" "out' = out @ [0x22]"
  show "(case write_bytes capacity out' bs of Inl e \<Rightarrow> Inl e | Inr out \<Rightarrow> writer_append capacity out [0x22]) =
      fitting capacity (out @ string_text bs)"
    unfolding write_bytes_fits [OF o(1)]
    by (rule fitting_then) (auto simp: o(2) string_text_def writer_append_fits)
qed (simp add: string_text_def)

lemma write_comma_fits: "length out < capacity \<Longrightarrow> write_comma capacity first out = fitting capacity (out @ comma first)"
  by (simp add: write_comma_def writer_append_fits) (simp add: fitting_def)

definition writes :: "nat \<Rightarrow> json_value \<Rightarrow> bool" where
  "writes capacity v \<longleftrightarrow> (\<forall>out. length out < capacity \<longrightarrow> write_value capacity out v = fitting capacity (out @ json_text v))"

lemma writesD: "writes capacity v \<Longrightarrow> length out < capacity \<Longrightarrow> write_value capacity out v = fitting capacity (out @ json_text v)"
  by (simp add: writes_def)

lemma write_items_fits:
  "\<forall>v \<in> set vs. writes capacity v \<Longrightarrow> length out < capacity \<Longrightarrow>
    write_items capacity first out vs = fitting capacity (out @ items_text first vs)"
proof (induction vs arbitrary: first out)
  case (Cons v vs)
  show ?case
    unfolding write_items.simps write_comma_fits [OF Cons.prems(2)]
  proof (rule fitting_then)
    fix o1 assume o1: "length o1 < capacity" "o1 = out @ comma first"
    show "(case write_value capacity o1 v of Inl e \<Rightarrow> Inl e | Inr o2 \<Rightarrow> write_items capacity False o2 vs) =
        fitting capacity (out @ items_text first (v # vs))"
      unfolding writesD [OF bspec [OF Cons.prems(1)] o1(1), of v, simplified]
      by (rule fitting_then) (use Cons in \<open>auto simp: o1(2)\<close>)
  qed simp
qed (simp add: fitting_def)

lemma write_members_fits:
  "\<forall>m \<in> set ms. writes capacity (snd m) \<Longrightarrow> length out < capacity \<Longrightarrow>
    write_members capacity first out ms = fitting capacity (out @ members_text first ms)"
proof (induction ms arbitrary: first out)
  case (Cons m ms)
  obtain k v where m: "m = (k, v)" by fastforce
  have v: "writes capacity v" using Cons.prems(1) m by simp
  show ?case
    unfolding m write_members.simps write_comma_fits [OF Cons.prems(2)]
  proof (rule fitting_then)
    fix o1 assume o1: "length o1 < capacity" "o1 = out @ comma first"
    show "(case write_string capacity o1 k of Inl e \<Rightarrow> Inl e | Inr o2 \<Rightarrow>
        (case writer_append capacity o2 [0x3a] of Inl e \<Rightarrow> Inl e | Inr o3 \<Rightarrow>
          (case write_value capacity o3 v of Inl e \<Rightarrow> Inl e | Inr o4 \<Rightarrow> write_members capacity False o4 ms))) =
        fitting capacity (out @ members_text first ((k, v) # ms))"
      unfolding write_string_fits [OF o1(1)]
    proof (rule fitting_then)
      fix o2 assume o2: "length o2 < capacity" "o2 = o1 @ string_text k"
      show "(case writer_append capacity o2 [0x3a] of Inl e \<Rightarrow> Inl e | Inr o3 \<Rightarrow>
          (case write_value capacity o3 v of Inl e \<Rightarrow> Inl e | Inr o4 \<Rightarrow> write_members capacity False o4 ms)) =
          fitting capacity (out @ members_text first ((k, v) # ms))"
        unfolding writer_append_fits [OF o2(1)]
      proof (rule fitting_then)
        fix o3 assume o3: "length o3 < capacity" "o3 = o2 @ [0x3a]"
        show "(case write_value capacity o3 v of Inl e \<Rightarrow> Inl e | Inr o4 \<Rightarrow> write_members capacity False o4 ms) =
            fitting capacity (out @ members_text first ((k, v) # ms))"
          unfolding writesD [OF v o3(1)]
          by (rule fitting_then) (use Cons in \<open>auto simp: o1(2) o2(2) o3(2)\<close>)
      qed (simp add: o1(2) o2(2))
    qed (simp add: o1(2))
  qed simp
qed (simp add: fitting_def)

lemma bracketed_fits:
  assumes "length out < capacity" and "\<And>o1. length o1 < capacity \<Longrightarrow> loop o1 = fitting capacity (o1 @ body)"
  shows "(case writer_append capacity out [l] of Inl e \<Rightarrow> Inl e | Inr o1 \<Rightarrow>
      (case loop o1 of Inl e \<Rightarrow> Inl e | Inr o2 \<Rightarrow> writer_append capacity o2 [r])) = fitting capacity (out @ l # body @ [r])"
  unfolding writer_append_fits [OF assms(1)]
proof (rule fitting_then)
  fix o1 assume o1: "length o1 < capacity" "o1 = out @ [l]"
  show "(case loop o1 of Inl e \<Rightarrow> Inl e | Inr o2 \<Rightarrow> writer_append capacity o2 [r]) = fitting capacity (out @ l # body @ [r])"
    unfolding assms(2) [OF o1(1)] by (rule fitting_then) (auto simp: o1(2) writer_append_fits)
qed simp

text \<open>The writer writes the text of the value.\<close>

lemma write_value_fits: "writes capacity v"
proof (induction v)
  case (JSON_ARRAY items)
  then show ?case by (simp add: writes_def bracketed_fits write_items_fits)
next
  case (JSON_OBJECT members)
  then have "\<forall>m \<in> set members. writes capacity (snd m)" by (force simp: snds.simps)
  then show ?case by (simp add: writes_def bracketed_fits write_members_fits)
qed (simp_all add: writes_def writer_append_fits write_string_fits)

section \<open>Well-formed values\<close>

definition integer_text :: "bytes \<Rightarrow> bool" where
  "integer_text bs \<longleftrightarrow>
     bs = [0x30] \<or>
     (\<exists>d ds. bs \<in> {d # ds, 0x2d # d # ds} \<and> isdigit d \<and> d \<noteq> 0x30 \<and> list_all isdigit ds)"

fun json_ok :: "nat \<Rightarrow> json_value \<Rightarrow> bool" where
  "json_ok depth (JSON_INTEGER bs) \<longleftrightarrow> depth \<le> ALRIOS_JSON_MAX_DEPTH \<and> integer_text bs"
| "json_ok depth (JSON_STRING bs) \<longleftrightarrow> depth \<le> ALRIOS_JSON_MAX_DEPTH \<and> utf8_text bs"
| "json_ok depth (JSON_ARRAY items) \<longleftrightarrow> depth \<le> ALRIOS_JSON_MAX_DEPTH \<and> (\<forall>v \<in> set items. json_ok (depth + 1) v)"
| "json_ok depth (JSON_OBJECT members) \<longleftrightarrow> depth \<le> ALRIOS_JSON_MAX_DEPTH \<and>
     (\<forall>m \<in> set members. utf8_text (fst m)) \<and> (\<forall>v \<in> set (map snd members). json_ok (depth + 1) v) \<and>
     sorted_wrt (\<lambda>x y. compare_members x y < 0) members"
| "json_ok depth v \<longleftrightarrow> depth \<le> ALRIOS_JSON_MAX_DEPTH"

section \<open>Reading the text of a string\<close>

lemma control_escape_hex:
  assumes "b < (0x20 :: u8)"
  shows "hex_digits 4 0 [0x30, 0x30, hex_char (drop_bit 4 b AND 0x0F), hex_char (b AND 0x0F)] = Some (ucast b)"
proof -
  have "\<forall>n \<in> set [0..<32]. let b = of_nat n :: u8 in
      hex_digits 4 0 [0x30, 0x30, hex_char (drop_bit 4 b AND 0x0F), hex_char (b AND 0x0F)] = Some (ucast b)"
    by code_simp
  moreover have "unat b \<in> set [0..<32]" using assms by (simp add: word_less_nat_alt)
  ultimately have "let b' = of_nat (unat b) :: u8 in
      hex_digits 4 0 [0x30, 0x30, hex_char (drop_bit 4 b' AND 0x0F), hex_char (b' AND 0x0F)] = Some (ucast b')"
    by (rule bspec)
  then show ?thesis by (simp add: Let_def)
qed

lemma hex_digits_append: "n \<le> length xs \<Longrightarrow> hex_digits n v (xs @ ys) = hex_digits n v xs"
proof (induction n arbitrary: v xs)
  case (Suc n)
  then show ?case by (cases xs) (auto split: option.splits)
qed simp

lemma escaped_high: "0x20 \<le> b \<Longrightarrow> b \<noteq> 0x22 \<Longrightarrow> b \<noteq> 0x5c \<Longrightarrow> escaped b = [b]"
  by (auto simp: escaped_def not_less)

lemma string_loop_byte:
  assumes "b < 0x80"
  shows "string_loop no_oom status acc (escaped b @ rest) = string_loop no_oom JSON_OK (acc @ [b]) rest"
proof (cases "b < 0x20 \<and> b \<notin> {0x08, 0x0c, 0x0a, 0x0d, 0x09}")
  case True
  let ?h = "[0x30, 0x30, hex_char (drop_bit 4 b AND 0x0F), hex_char (b AND 0x0F)]"
  have e: "escaped b = 0x5c # 0x75 # ?h" using True by (auto simp: escaped_def)
  have quad: "parse_hex_quad (?h @ rest) = Inr (ucast b, rest)"
    using control_escape_hex [of b] hex_digits_append [of 4 ?h 0 rest] True by (simp add: parse_hex_quad_def)
  have low: "unat b < 32" using True by (simp add: word_less_nat_alt)
  then have n: "unat (ucast b :: u32) = unat b" by (simp add: unsigned_ucast_eq take_bit_nat_eq_self)
  have "parse_unicode_escape (?h @ rest) = Inr (ucast b, rest)"
    using low unfolding parse_unicode_escape_def quad by (simp add: word_le_nat_alt n)
  moreover have "ucast (ucast b :: u32) = b" using low
    by (simp add: word_unat_eq_iff unsigned_ucast_eq [of "ucast b :: u32"] n take_bit_nat_eq_self)
  then have "append_utf8 (ucast b) = Some [b]" using low by (simp add: append_utf8_def word_le_nat_alt n)
  ultimately have "parse_escape no_oom 0x75 (?h @ rest) = Inr ([b], rest)" by (simp add: parse_escape_def)
  then show ?thesis by (simp add: e)
next
  case False
  show ?thesis
  proof (cases "b \<in> {0x22, 0x5c, 0x08, 0x0c, 0x0a, 0x0d, 0x09}")
    case True
    then show ?thesis by (auto simp: escaped_def parse_escape_def)
  next
    case b: False
    then have "\<not> b < 0x20" "\<not> 0x80 \<le> b" using False assms by auto
    then show ?thesis using b by (simp add: escaped_def)
  qed
qed

lemma escaped_sequence:
  assumes "append_valid_utf8 no_oom c = Inr (c, [])"
  shows "concat (map escaped c) = c"
proof -
  have "escaped b = [b]" if "b \<in> set c" for b
    using utf8_sequence_high [OF assms] that by (intro escaped_high) (auto simp: word_le_nat_alt)
  then show ?thesis by (induction c) simp_all
qed

lemma string_loop_sequence:
  assumes "append_valid_utf8 no_oom c = Inr (c, [])"
  shows "string_loop no_oom status acc (c @ rest) = string_loop no_oom JSON_OK (acc @ c) rest"
proof -
  obtain b bs where c: "c = b # bs" using assms by (cases c) (auto simp: append_valid_utf8_iff)
  have b: "0x80 \<le> b" using utf8_sequence_high [OF assms] c by simp
  then have "b \<noteq> 0x22" "\<not> b < 0x20" by (auto simp: word_le_nat_alt word_less_nat_alt)
  then show ?thesis using append_valid_utf8_extend [OF assms, of rest] b by (simp add: c)
qed

lemma string_loop_text:
  "utf8_text bs \<Longrightarrow>
    string_loop no_oom status acc (concat (map escaped bs) @ rest) =
      (if bs = [] then string_loop no_oom status acc rest else string_loop no_oom JSON_OK (acc @ bs) rest)"
proof (induction bs arbitrary: status acc rule: utf8_text.induct)
  case (utf8_Cons c t)
  have "string_loop no_oom status acc (concat (map escaped c) @ r) = string_loop no_oom JSON_OK (acc @ c) r" for r
  proof (cases "append_valid_utf8 no_oom c = Inr (c, [])")
    case True
    then show ?thesis using escaped_sequence string_loop_sequence by simp
  next
    case False
    then show ?thesis using utf8_Cons(1) string_loop_byte by (auto simp: utf8_char_def)
  qed
  moreover have "c \<noteq> []" using utf8_Cons(1) by (rule utf8_char_nonempty)
  ultimately show ?case using utf8_Cons.IH by simp
qed simp

lemma parse_string_text: "utf8_text bs \<Longrightarrow> parse_string_bytes no_oom (string_text bs @ rest) = Inr (bs, rest)"
  using string_loop_text [of bs JSON_ERR_SYNTAX "[]" "0x22 # rest"]
  by (simp add: parse_string_bytes_def string_text_def)

section \<open>Reading the text of an integer\<close>

text \<open>What may follow an integer without changing it.\<close>

definition delimited :: "bytes \<Rightarrow> bool" where
  "delimited rest \<longleftrightarrow> rest = [] \<or> \<not> isdigit (hd rest) \<and> hd rest \<notin> {0x2e, 0x65, 0x45}"

lemma digits_delimited: "list_all isdigit ds \<Longrightarrow> delimited rest \<Longrightarrow> takeWhile isdigit (ds @ rest) = ds"
proof (induction ds)
  case Nil
  then show ?case by (cases rest) (auto simp: delimited_def)
qed simp

lemma parse_integer_text:
  assumes "integer_text bs" "delimited rest"
  shows "parse_integer no_oom (bs @ rest) = Inr (JSON_INTEGER bs, rest)"
proof -
  have zero: "parse_integer no_oom (0x30 # rest) = Inr (JSON_INTEGER [0x30], rest)"
    using assms(2) by (auto simp: parse_integer_def integer_digits_def delimited_def Let_def)
  have digits: "parse_integer no_oom (d # ds @ rest) = Inr (JSON_INTEGER (d # ds), rest)"
    "parse_integer no_oom (0x2d # d # ds @ rest) = Inr (JSON_INTEGER (0x2d # d # ds), rest)"
    if d: "isdigit d" "d \<noteq> 0x30" "list_all isdigit ds" for d ds
  proof -
    have "\<not> (d < 0x31 \<or> 0x39 < d)" "d \<noteq> 0x2d"
      using d(1,2) by (auto simp: isdigit_def word_le_nat_alt word_less_nat_alt word_unat_eq_iff)
    then have "integer_digits (d # ds @ rest) = Some (Suc (length ds))" "d \<noteq> 0x2d"
      using d digits_delimited [OF d(3) assms(2)] by (simp_all add: integer_digits_def)
    then show "parse_integer no_oom (d # ds @ rest) = Inr (JSON_INTEGER (d # ds), rest)"
      "parse_integer no_oom (0x2d # d # ds @ rest) = Inr (JSON_INTEGER (0x2d # d # ds), rest)"
      using d(2) assms(2) by (auto simp: parse_integer_def delimited_def Let_def)
  qed
  show ?thesis using assms(1) zero digits by (auto simp: integer_text_def)
qed

section \<open>Reading the text of a value\<close>

text \<open>No text begins with white space, and what begins it tells the kind of the value.\<close>

lemma skip_whitespace_id: "\<not> json_space b \<Longrightarrow> skip_whitespace (b # rest) = b # rest"
  by (simp add: skip_whitespace_def)

lemma integer_text_hd: "integer_text bs \<Longrightarrow> bs \<noteq> [] \<and> (hd bs = 0x2d \<or> isdigit (hd bs))"
  by (auto simp: integer_text_def isdigit_def)

lemma isdigit_other:
  assumes "b = 0x2d \<or> isdigit b"
  shows "\<not> json_space b" "b \<notin> {0x7b, 0x5b, 0x22, 0x6e, 0x74, 0x66, 0x5d, 0x7d}"
  using assms by (auto simp: isdigit_def json_space_def)

lemma json_text_hd:
  assumes "json_ok depth v"
  shows "\<exists>b bs. json_text v = b # bs \<and> \<not> json_space b \<and> b \<noteq> 0x5d"
proof (cases v)
  case (JSON_INTEGER bs)
  then have "integer_text bs" using assms by simp
  then show ?thesis using JSON_INTEGER integer_text_hd [of bs] isdigit_other [of "hd bs"] by (cases bs) auto
qed (auto simp: ascii_def string_text_def json_space_def)

definition reads :: "nat \<Rightarrow> json_value \<Rightarrow> bool" where
  "reads depth v \<longleftrightarrow> (\<forall>rest. delimited rest \<longrightarrow> parse_value no_oom depth (json_text v @ rest) = Inr (v, rest))"

lemma delimited_char [simp]: "delimited (0x5d # rest)" "delimited (0x7d # rest)" "delimited (0x2c # rest)"
  by (auto simp: delimited_def isdigit_def)

lemma array_items_text:
  assumes "\<forall>v \<in> set vs. json_ok (depth + 1) v \<and> reads (depth + 1) v" "vs \<noteq> []"
  shows "array_items no_oom depth acc (items_text True vs @ 0x5d # rest) = Inr (JSON_ARRAY (acc @ vs), rest)"
  using assms
proof (induction vs arbitrary: acc)
  case (Cons v vs)
  have v: "parse_value no_oom (depth + 1) (json_text v @ r) = Inr (v, r)" if "delimited r" for r
    using Cons.prems(1) that by (simp add: reads_def)
  show ?case
  proof (cases vs)
    case Nil
    then show ?thesis using v [of "0x5d # rest"]
      by (subst array_items.simps) (simp add: skip_whitespace_id json_space_def)
  next
    case (Cons w ws)
    obtain b bs where w: "json_text w = b # bs" "\<not> json_space b"
      using json_text_hd [of "depth + 1" w] Cons.prems(1) Cons by auto
    have "items_text True (v # vs) @ 0x5d # rest = json_text v @ 0x2c # items_text True vs @ 0x5d # rest"
      using Cons by simp
    moreover have "array_items no_oom depth (acc @ [v]) (items_text True vs @ 0x5d # rest) = Inr (JSON_ARRAY (acc @ v # vs), rest)"
      using Cons.IH [of "acc @ [v]"] Cons.prems(1) Cons by simp
    ultimately show ?thesis using v [of "0x2c # items_text True vs @ 0x5d # rest"] w Cons
      by (subst array_items.simps) (simp add: skip_whitespace_id json_space_def)
  qed
qed simp

lemma object_members_text:
  assumes "\<forall>m \<in> set ms. utf8_text (fst m) \<and> json_ok (depth + 1) (snd m) \<and> reads (depth + 1) (snd m)" "ms \<noteq> []"
    and "\<forall>m \<in> set acc. utf8_text (fst m)" and "sorted_wrt (\<lambda>x y. compare_members x y < 0) (acc @ ms)"
  shows "object_members no_oom depth acc (members_text True ms @ 0x7d # rest) = Inr (JSON_OBJECT (acc @ ms), rest)"
  using assms
proof (induction ms arbitrary: acc)
  case (Cons m ms)
  obtain k v where m: "m = (k, v)" by fastforce
  have k: "utf8_text k" and v: "parse_value no_oom (depth + 1) (json_text v @ r) = Inr (v, r)" if "delimited r" for r
    using Cons.prems(1) that by (simp_all add: reads_def m)
  have key: "parse_string_bytes no_oom (string_text k @ r) = Inr (k, r)" for r
    using Cons.prems(1) parse_string_text by (simp add: m)
  have ok: "\<forall>x \<in> set (acc @ [m]). utf8_text (fst x)" using Cons.prems(1,3) by simp
  have new: "\<not> (\<exists>x \<in> set acc. compare_keys_raw k (fst x) = 0)"
  proof -
    have "compare_members m x \<noteq> 0" if x: "x \<in> set acc" for x
    proof -
      have "compare_members x m < 0" using Cons.prems(4) x by (simp add: sorted_wrt_append)
      then show ?thesis using key_order.flip [of x m] ok x by simp
    qed
    then show ?thesis by (auto simp: compare_members_def m)
  qed
  show ?case
  proof (cases ms)
    case Nil
    have "qsort compare_members (acc @ [m]) = acc @ [m]"
      using ok Cons.prems(4) Nil by (intro key_order.qsort_id) simp_all
    then show ?thesis using Nil v [of "0x7d # rest"] new
      by (subst object_members.simps) (simp add: m key skip_whitespace_id json_space_def)
  next
    case (Cons w ws)
    let ?r = "members_text True ms @ 0x7d # rest"
    have t: "members_text True (m # ms) @ 0x7d # rest = string_text k @ 0x3a # json_text v @ 0x2c # ?r"
      using Cons m by (cases w) simp
    have r: "skip_whitespace ?r = ?r"
      using Cons by (cases w) (simp add: string_text_def skip_whitespace_id json_space_def)
    have "object_members no_oom depth (acc @ [m]) ?r = Inr (JSON_OBJECT (acc @ m # ms), rest)"
      using Cons.IH [of "acc @ [m]"] Cons.prems Cons ok by simp
    then show ?thesis using v [of "0x2c # ?r"] new r
      unfolding t by (subst object_members.simps) (simp add: m key skip_whitespace_id json_space_def)
  qed
qed simp

text \<open>The parser reads the text of a well-formed value as that value.\<close>

lemma parse_json_text: "json_ok depth v \<Longrightarrow> reads depth v"
proof (induction v arbitrary: depth)
  case JSON_NULL
  then show ?case
    by (simp add: reads_def parse_value.simps parse_literal_def ascii_def skip_whitespace_id json_space_def memeq_def)
next
  case (JSON_BOOL b)
  then show ?case
    by (simp add: reads_def parse_value.simps parse_literal_def ascii_def skip_whitespace_id json_space_def memeq_def)
next
  case (JSON_INTEGER bs)
  then have i: "integer_text bs" "depth \<le> ALRIOS_JSON_MAX_DEPTH" by simp_all
  obtain b bt where b: "bs = b # bt" "b = 0x2d \<or> isdigit b" using integer_text_hd [OF i(1)] by (cases bs) auto
  then show ?case using i parse_integer_text [OF i(1)] isdigit_other [OF b(2)]
    by (auto simp: reads_def parse_value.simps skip_whitespace_id)
next
  case (JSON_STRING bs)
  then show ?case using parse_string_text [of bs]
    by (auto simp: reads_def parse_value.simps string_text_def skip_whitespace_id json_space_def)
next
  case (JSON_ARRAY items)
  then have ok: "depth \<le> ALRIOS_JSON_MAX_DEPTH" "\<forall>v \<in> set items. json_ok (depth + 1) v \<and> reads (depth + 1) v" by auto
  have "parse_array no_oom depth (items_text True items @ 0x5d # rest) = Inr (JSON_ARRAY items, rest)" for rest
  proof (cases items)
    case (Cons v vs)
    obtain b bs where v: "json_text v = b # bs" "\<not> json_space b" "b \<noteq> 0x5d"
      using json_text_hd [of "depth + 1" v] ok(2) Cons by auto
    then show ?thesis using array_items_text [OF ok(2), of "[]" rest] Cons by (simp add: parse_array.simps skip_whitespace_id)
  qed (simp add: parse_array.simps skip_whitespace_id json_space_def)
  then show ?case using ok(1) by (simp add: reads_def parse_value.simps skip_whitespace_id json_space_def)
next
  case (JSON_OBJECT members)
  then have ok: "depth \<le> ALRIOS_JSON_MAX_DEPTH" "sorted_wrt (\<lambda>x y. compare_members x y < 0) ([] @ members)"
      "\<forall>m \<in> set members. utf8_text (fst m) \<and> json_ok (depth + 1) (snd m) \<and> reads (depth + 1) (snd m)"
    by (force simp: snds.simps)+
  have "parse_object no_oom depth (members_text True members @ 0x7d # rest) = Inr (JSON_OBJECT members, rest)" for rest
  proof (cases members)
    case (Cons m ms)
    then have "\<exists>r. members_text True members @ 0x7d # rest = 0x22 # r" by (cases m) (simp add: string_text_def)
    then show ?thesis using object_members_text [OF ok(3) _ _ ok(2), of rest] Cons
      by (auto simp: parse_object.simps skip_whitespace_id json_space_def)
  qed (simp add: parse_object.simps skip_whitespace_id json_space_def)
  then show ?case using ok(1) by (simp add: reads_def parse_value.simps skip_whitespace_id json_space_def)
qed

end
