(* ===== verification/ManifestCanonSpec.thy ===== *)
theory ManifestCanonSpec
  imports ManifestPrint
begin

text \<open>
  What canonicalisation guarantees: the parser yields well-formed values only, so its output is
  the canonical text of a value, is stable under another pass, and is the same for two inputs
  exactly when they denote the same value. The last theorem shows inputs that are no JSON and
  are accepted nevertheless.
\<close>

section \<open>The parser yields well-formed values\<close>

lemma surrogate_pair_high:
  fixes x y :: u32
  assumes "unat x < 1024" "unat y < 1024"
  shows "0x10000 \<le> 0x10000 + push_bit 10 x + y"
proof -
  have "unat (push_bit 10 x) = unat x * 1024" using assms by (simp add: push_bit_eq_mult unat_word_ariths)
  then have "unat (0x10000 + push_bit 10 x + y) = 65536 + unat x * 1024 + unat y"
    using assms by (simp only: unat_word_ariths) simp
  then show ?thesis by (simp add: word_le_nat_alt)
qed

lemma offset_below:
  fixes c :: u32
  assumes "k \<le> c" "\<not> k + 0x3FF < c" "unat k < 0x10000"
  shows "unat (c - k) < 1024"
proof -
  have "unat (k + 0x3FF) = unat k + 0x3FF" using assms(3) by (simp only: unat_word_ariths) simp
  then have "unat c \<le> unat k + 0x3FF" using assms(2) by (simp add: not_less word_le_nat_alt)
  then show ?thesis using assms(1) by (simp add: unat_sub)
qed

lemma parse_unicode_escape_scalar:
  assumes "parse_unicode_escape rest = Inr (cp, rest')"
  shows "\<not> (0xD800 \<le> cp \<and> cp \<le> 0xDFFF)"
proof -
  obtain c r where c: "parse_hex_quad rest = Inr (c, r)"
    using assms by (auto simp: parse_unicode_escape_def split: sum.splits)
  show ?thesis
  proof (cases "0xD800 \<le> c \<and> c \<le> 0xDBFF")
    case True
    then obtain low where low: "\<not> (low < 0xDC00 \<or> 0xDFFF < low)"
        "cp = 0x10000 + push_bit 10 (c - 0xD800) + (low - 0xDC00)"
      using assms by (simp only: parse_unicode_escape_def c sum.case prod.case if_True simp_thms)
        (simp only: split: if_splits sum.splits prod.splits; blast)
    have "unat (c - 0xD800) < 1024" "unat (low - 0xDC00) < 1024"
      using True low(1) by (auto intro!: offset_below)
    then have "0x10000 \<le> cp" unfolding low(2) by (rule surrogate_pair_high)
    then show ?thesis by (auto simp: word_le_nat_alt)
  next
    case False
    then have "cp = c" "\<not> (0xDC00 \<le> c \<and> c \<le> 0xDFFF)"
      using assms by (auto simp: parse_unicode_escape_def c split: if_splits)
    then show ?thesis using False by (auto simp: word_le_nat_alt)
  qed
qed

lemma parse_escape_utf8: "parse_escape oom e rest = Inr (bs, rest') \<Longrightarrow> utf8_char bs"
  by (auto simp: parse_escape_def Let_def utf8_char_def [of "[_]"]
      split: if_splits sum.splits option.splits intro: append_utf8_valid dest: parse_unicode_escape_scalar)

lemma append_valid_utf8_is_char: "append_valid_utf8 oom rest = Inr (bs, rest') \<Longrightarrow> utf8_char bs"
  using append_valid_utf8_char by (auto simp: utf8_char_def)

lemma string_loop_utf8:
  "string_loop oom status acc rest = Inr (bs, rest') \<Longrightarrow> utf8_text acc \<Longrightarrow> utf8_text bs"
proof (induction oom status acc rest rule: string_loop.induct)
  case (1 oom status bs)
  then show ?case by (auto simp: string_break_def utf8_Nil split: if_splits)
next
  case (2 oom status acc byte rest)
  have add: "utf8_text (acc @ c)" if "utf8_char c" for c
    using utf8_text_append [OF 2(5) utf8_text_char [OF that]] .
  consider "byte = 0x22 \<or> byte < 0x20" | "\<not> (byte = 0x22 \<or> byte < 0x20)" "0x80 \<le> byte"
    | "\<not> (byte = 0x22 \<or> byte < 0x20)" "\<not> 0x80 \<le> byte" "byte \<noteq> 0x5c"
    | "\<not> (byte = 0x22 \<or> byte < 0x20)" "\<not> 0x80 \<le> byte" "byte = 0x5c"
    by blast
  then show ?case
  proof cases
    case 1
    then show ?thesis using 2(4,5) by (auto simp: string_break_def utf8_Nil split: if_splits)
  next
    case a: 2
    then obtain sq r where sq: "append_valid_utf8 oom (byte # rest) = Inr (sq, r)"
      "string_loop oom JSON_OK (acc @ sq) r = Inr (bs, rest')"
      using 2(4) by (auto split: sum.splits)
    then show ?thesis using 2(1) [OF _ _ _ sq(1) refl sq(2) add] a append_valid_utf8_is_char [OF sq(1)] by blast
  next
    case a: 3
    then have "utf8_char [byte]" by (auto simp: utf8_char_def)
    then show ?thesis using 2(2,4) a add by (auto split: if_splits)
  next
    case a: 4
    show ?thesis
    proof (cases rest)
      case Nil
      then show ?thesis using 2(4) a by (auto simp: string_break_def utf8_Nil split: if_splits)
    next
      case (Cons e r)
      then obtain sq r' where e: "parse_escape oom e r = Inr (sq, r')" "string_loop oom JSON_OK (acc @ sq) r' = Inr (bs, rest')"
        using 2(4) a by (auto split: sum.splits)
      then show ?thesis using 2(3) [of e r "(sq, r')" sq r'] a Cons add parse_escape_utf8 [OF e(1)] by simp
    qed
  qed
qed

lemma parse_string_utf8: "parse_string_bytes oom rest = Inr (bs, rest') \<Longrightarrow> utf8_text bs"
  by (auto simp: parse_string_bytes_def utf8_Nil split: list.splits if_splits dest: string_loop_utf8)

lemma integer_digits_text:
  assumes "integer_digits r = Some n" "r \<noteq> []"
  shows "take n r = [0x30] \<or> (\<exists>d ds. take n r = d # ds \<and> isdigit d \<and> d \<noteq> 0x30 \<and> list_all isdigit ds)"
proof -
  obtain d t where r: "r = d # t" using assms(2) by (cases r) auto
  show ?thesis
  proof (cases "d = 0x30")
    case True
    then show ?thesis using assms(1) by (auto simp: integer_digits_def r split: if_splits)
  next
    case False
    then have d: "\<not> (d < 0x31 \<or> 0x39 < d)" "n = Suc (length (takeWhile isdigit t))"
      using assms(1) by (auto simp: integer_digits_def r split: if_splits)
    have "isdigit d" using d(1) by (auto simp: isdigit_def word_le_nat_alt word_less_nat_alt)
    moreover have "take (length (takeWhile isdigit t)) t = takeWhile isdigit t" by (metis takeWhile_eq_take)
    moreover have "list_all isdigit (takeWhile isdigit t)" by (auto simp: list_all_iff dest: set_takeWhileD)
    ultimately show ?thesis using False d(2) by (simp add: r)
  qed
qed

lemma parse_integer_ok:
  assumes "parse_integer oom rest = Inr (v, rest')" "rest \<noteq> []"
  obtains bs where "v = JSON_INTEGER bs" "integer_text bs"
proof -
  define digits where "digits = (if hd rest = 0x2d then tl rest else rest)"
  obtain n where n: "digits \<noteq> []" "integer_digits digits = Some n"
    "v = JSON_INTEGER (if hd rest = 0x2d \<and> \<not> (n = 1 \<and> hd digits = 0x30) then hd rest # take n digits else take n digits)"
    using assms(1) unfolding parse_integer_def Let_def digits_def [symmetric]
    by (auto split: if_splits option.splits)
  consider "take n digits = [0x30]" "n = 1 \<and> hd digits = 0x30"
    | d ds where "take n digits = d # ds" "isdigit d" "d \<noteq> 0x30" "list_all isdigit ds" "hd digits = d"
  proof -
    have "take n digits = d # ds \<Longrightarrow> hd digits = d" for d ds by (cases digits; cases n) auto
    moreover have "n = 1" if "take n digits = [0x30]"
      using n(1,2) that by (cases digits; cases n) (auto simp: integer_digits_def split: if_splits)
    ultimately show ?thesis using that integer_digits_text [OF n(2,1)] by blast
  qed
  then show ?thesis
  proof cases
    case 1
    then show ?thesis using that n(3) by (simp add: integer_text_def)
  next
    case (2 d ds)
    then have "integer_text (if hd rest = 0x2d then hd rest # take n digits else take n digits)"
      by (auto simp: integer_text_def)
    then show ?thesis using that n(3) 2 by simp
  qed
qed

lemma parse_integer_json_ok:
  assumes "parse_integer oom rest = Inr (v, rest')" "rest \<noteq> []" "depth \<le> ALRIOS_JSON_MAX_DEPTH"
  shows "json_ok depth v"
proof -
  obtain bs where "v = JSON_INTEGER bs" "integer_text bs" by (rule parse_integer_ok [OF assms(1,2)])
  then show ?thesis using assms(3) by simp
qed

lemma parse_literal_ok: "parse_literal oom l w rest = Inr (v, rest') \<Longrightarrow> v = w"
  by (simp add: parse_literal_def split: if_splits)

text \<open>Members as the loop of \<open>parse_object\<close> has collected them: keys that are texts, no two the same.\<close>

definition collected :: "nat \<Rightarrow> (bytes \<times> json_value) list \<Rightarrow> bool" where
  "collected depth ms \<longleftrightarrow>
     (\<forall>m \<in> set ms. utf8_text (fst m) \<and> json_ok (depth + 1) (snd m)) \<and>
     sorted_wrt (\<lambda>x y. compare_members y x \<noteq> 0) ms"

lemma collected_object: "collected depth ms \<Longrightarrow> depth \<le> ALRIOS_JSON_MAX_DEPTH \<Longrightarrow>
    json_ok depth (JSON_OBJECT (qsort compare_members ms))"
  using key_order.qsort_ascending [of ms] by (auto simp: collected_def)

lemma collected_snoc:
  "collected depth ms \<Longrightarrow> utf8_text k \<Longrightarrow> json_ok (depth + 1) v \<Longrightarrow>
    \<not> (\<exists>m \<in> set ms. compare_keys_raw k (fst m) = 0) \<Longrightarrow> collected depth (ms @ [(k, v)])"
  by (auto simp: collected_def sorted_wrt_append compare_members_def)

lemma parse_value_ok:
  shows "parse_value oom depth rest = Inr (v, rest') \<Longrightarrow> json_ok depth v"
    and "parse_array oom depth rest = Inr (v, rest') \<Longrightarrow> depth \<le> ALRIOS_JSON_MAX_DEPTH \<Longrightarrow> json_ok depth v"
    and "array_items oom depth items rest = Inr (v, rest') \<Longrightarrow> depth \<le> ALRIOS_JSON_MAX_DEPTH \<Longrightarrow>
      \<forall>w \<in> set items. json_ok (depth + 1) w \<Longrightarrow> json_ok depth v"
    and "parse_object oom depth rest = Inr (v, rest') \<Longrightarrow> depth \<le> ALRIOS_JSON_MAX_DEPTH \<Longrightarrow> json_ok depth v"
    and "object_members oom depth members rest = Inr (v, rest') \<Longrightarrow> depth \<le> ALRIOS_JSON_MAX_DEPTH \<Longrightarrow>
      collected depth members \<Longrightarrow> json_ok depth v"
proof (induction oom depth rest and oom depth rest and oom depth items rest and oom depth rest and oom depth members rest
    arbitrary: v rest' and v rest' and v rest' and v rest' and v rest'
    rule: parse_value_parse_array_array_items_parse_object_object_members.induct)
  case (1 oom depth rest)
  let ?r = "skip_whitespace rest"
  have nil: "?r \<noteq> []" and deep: "\<not> ALRIOS_JSON_MAX_DEPTH < depth"
    using 1(3) by (auto simp: parse_value.simps Let_def split: if_splits)
  then have d: "depth \<le> ALRIOS_JSON_MAX_DEPTH" by simp
  consider "hd ?r = 0x7b" | "hd ?r = 0x5b" | "hd ?r \<notin> {0x7b, 0x5b}" by blast
  then show ?case
  proof cases
    case a: 1
    then show ?thesis using 1(3) 1(1) [of ?r "hd ?r"] nil d by (simp add: parse_value.simps Let_def)
  next
    case a: 2
    then show ?thesis using 1(3) 1(2) [of ?r "hd ?r"] nil d by (simp add: parse_value.simps Let_def)
  next
    case a: 3
    then show ?thesis using 1(3) nil d
      by (auto simp: parse_value.simps [of oom depth rest] Let_def split: if_splits sum.splits
          dest: parse_string_utf8 parse_literal_ok intro: parse_integer_json_ok)
  qed
next
  case (2 oom depth rest)
  then show ?case by (auto simp: parse_array.simps Let_def split: if_splits)
next
  case (3 oom depth items rest)
  obtain item r where v: "parse_value oom (depth + 1) rest = Inr (item, r)"
    using 3(3) by (auto simp: array_items.simps split: sum.splits)
  have "json_ok (depth + 1) item" by (rule 3(1) [OF v])
  then show ?case using 3(3-5) 3(2) [OF v refl _ refl]
    by (auto simp: array_items.simps v [simplified] Let_def split: if_splits)
next
  case (4 oom depth rest)
  then show ?case by (auto simp: parse_object.simps Let_def collected_def split: if_splits)
next
  case (5 oom depth members rest)
  obtain key r1 where k: "parse_string_bytes oom rest = Inr (key, r1)"
    and new: "\<not> (\<exists>m \<in> set members. compare_keys_raw key (fst m) = 0)"
    and colon: "\<not> (skip_whitespace r1 = [] \<or> hd (skip_whitespace r1) \<noteq> 0x3a)"
    using 5(3) by (auto simp: object_members.simps Let_def split: sum.splits if_splits)
  obtain val r3 where v: "parse_value oom (depth + 1) (tl (skip_whitespace r1)) = Inr (val, r3)"
    using 5(3) new colon by (auto simp: object_members.simps k Let_def split: sum.splits if_splits)
  have c: "collected depth (members @ [(key, val)])"
    using 5(5) parse_string_utf8 [OF k] 5(1) [OF k refl new refl colon v] new by (rule collected_snoc)
  show ?case
  proof (cases "hd (skip_whitespace r3) = 0x7d")
    case True
    then show ?thesis using 5(3,4) collected_object [OF c] new colon
      by (auto simp: object_members.simps k v [simplified] Let_def split: if_splits)
  next
    case False
    then show ?thesis using 5(3,4) 5(2) [OF k refl new refl colon v refl _ refl refl] c new colon
      by (auto simp: object_members.simps k v [simplified] Let_def split: if_splits)
  qed
qed

section \<open>Errors are errors\<close>

lemma string_loop_not_ok: "string_loop oom status acc rest \<noteq> Inl JSON_OK"
proof (induction oom status acc rest rule: string_loop.induct)
  case (2 oom status bs byte rest)
  have "append_valid_utf8 oom r \<noteq> Inl JSON_OK" for r
    by (auto simp: append_valid_utf8_def Let_def split: option.splits)
  moreover have "parse_unicode_escape r \<noteq> Inl JSON_OK" for r
    by (auto simp: parse_unicode_escape_def parse_hex_quad_def split: sum.splits option.splits if_splits)
  then have "parse_escape oom e r \<noteq> Inl JSON_OK" for e r
    by (auto simp: parse_escape_def Let_def split: sum.splits option.splits)
  ultimately show ?case using 2 by (auto simp: string_break_def split: sum.splits list.splits)
qed (simp add: string_break_def)

lemma parse_string_not_ok: "parse_string_bytes oom rest \<noteq> Inl JSON_OK"
  by (auto simp: parse_string_bytes_def string_loop_not_ok split: list.splits)

lemma parse_value_not_ok:
  shows "parse_value oom depth rest \<noteq> Inl JSON_OK" and "parse_array oom depth rest \<noteq> Inl JSON_OK"
    and "array_items oom depth items rest \<noteq> Inl JSON_OK" and "parse_object oom depth rest \<noteq> Inl JSON_OK"
    and "object_members oom depth members rest \<noteq> Inl JSON_OK"
proof (induction oom depth rest and oom depth rest and oom depth items rest and oom depth rest and oom depth members rest
    rule: parse_value_parse_array_array_items_parse_object_object_members.induct)
  case (1 oom depth rest)
  have "parse_literal oom l w r \<noteq> Inl JSON_OK" "parse_integer oom r \<noteq> Inl JSON_OK" for l w r
    by (auto simp: parse_literal_def parse_integer_def Let_def split: option.splits)
  then show ?case using 1 parse_string_not_ok
    by (auto simp: parse_value.simps [of oom depth rest] Let_def split: sum.splits)
next
  case (3 oom depth items rest)
  then show ?case by (auto simp: array_items.simps [of oom depth items rest] Let_def split: sum.splits)
next
  case (5 oom depth members rest)
  show ?case
  proof (cases "parse_string_bytes oom rest")
    case (Inr b)
    obtain k r where b: "b = (k, r)" by fastforce
    have k: "parse_string_bytes oom rest = Inr (k, r)" using Inr b by simp
    show ?thesis using 5(1) [OF k refl _ refl] 5(2) [OF k refl _ refl _ _ refl _ refl refl]
      by (auto simp: object_members.simps [of oom depth members rest] k Let_def split: sum.splits)
  qed (use parse_string_not_ok [of oom rest] in \<open>simp add: object_members.simps\<close>)
qed (auto simp: parse_array.simps parse_object.simps Let_def)

section \<open>Canonicalisation as a whole\<close>

text \<open>The value a complete input stands for.\<close>

definition denotes :: "(nat \<Rightarrow> bool) \<Rightarrow> bytes \<Rightarrow> json_value \<Rightarrow> bool" where
  "denotes oom input v \<longleftrightarrow> (\<exists>rest. parse_value oom 0 input = Inr (v, rest) \<and> skip_whitespace rest = [])"

lemma denotes_ok: "denotes oom input v \<Longrightarrow> json_ok 0 v"
  using parse_value_ok(1) by (auto simp: denotes_def)

lemma denotes_text: "json_ok 0 v \<Longrightarrow> denotes no_oom (json_text v) v"
  using parse_json_text [of 0 v]
  by (auto simp: denotes_def reads_def delimited_def skip_whitespace_def dest!: spec [of _ "[]"])

lemma denotes_unique: "denotes oom input v \<Longrightarrow> denotes oom input w \<Longrightarrow> v = w"
  by (auto simp: denotes_def)

lemma json_text_inject: "json_ok 0 v \<Longrightarrow> json_ok 0 w \<Longrightarrow> json_text v = json_text w \<longleftrightarrow> v = w"
  using denotes_text denotes_unique by metis

abbreviation json_input :: "bytes \<Rightarrow> bytes" where
  "json_input in_json \<equiv> c_str in_json (ALRIOS_JSON_MAX_INPUT + 1)"

lemma canonicalize_iff:
  "alrios_manifest_canonicalize oom (Some in_json) (Some buf) n = (JSON_OK, Some out) \<longleftrightarrow>
    json_input in_json \<noteq> [] \<and> length (json_input in_json) \<le> ALRIOS_JSON_MAX_INPUT \<and> \<not> oom 0 \<and>
    (\<exists>v. denotes oom (json_input in_json) v \<and> length (json_text v) < n \<and> out = memwrite buf 0 (json_text v @ [0]))"
proof -
  let ?in = "json_input in_json"
  have w: "write_value n [] v = fitting n (json_text v)" if "n \<noteq> 0" for v
    using writesD [OF write_value_fits, of "[]" n v] that by simp
  show ?thesis
    using parse_value_not_ok(1) [of oom 0 ?in]
    by (cases "n = 0"; cases "parse_value oom 0 ?in")
      (auto simp: alrios_manifest_canonicalize_def denotes_def w fitting_def Let_def split: if_splits)
qed

lemma canonicalize_denoted:
  "json_input in_json = input \<Longrightarrow> input \<noteq> [] \<Longrightarrow> length input \<le> ALRIOS_JSON_MAX_INPUT \<Longrightarrow> denotes no_oom input v \<Longrightarrow>
    length (json_text v) < n \<Longrightarrow> json_text v = output \<Longrightarrow>
    alrios_manifest_canonicalize no_oom (Some in_json) (Some buf) n = (JSON_OK, Some (memwrite buf 0 (output @ [0])))"
  by (auto simp: canonicalize_iff)

lemma hex_char_nonzero: "hex_char (b AND 0x0F) \<noteq> 0"
proof -
  have "\<forall>k \<in> set [0..<16]. ascii ''0123456789abcdef'' ! k \<noteq> 0" by code_simp
  moreover have "unat (b AND 0x0F) \<in> set [0..<16]" by (simp add: and_mask_nat)
  ultimately show ?thesis unfolding hex_char_def by (rule bspec)
qed

lemma string_text_no_nul: "0 \<notin> set (string_text bs)"
proof -
  have "0 \<notin> set (escaped b)" for b using hex_char_nonzero by (auto simp: escaped_def)
  then show ?thesis by (auto simp: string_text_def)
qed

lemma json_text_no_nul: "json_ok depth v \<Longrightarrow> 0 \<notin> set (json_text v)"
proof (induction v arbitrary: depth)
  case (JSON_INTEGER bs)
  moreover have "\<not> isdigit 0" by (simp add: isdigit_def)
  ultimately show ?case by (auto simp: integer_text_def list_all_iff)
next
  case (JSON_ARRAY items)
  then have "\<forall>v \<in> set items. 0 \<notin> set (json_text v)" by auto
  then have "0 \<notin> set (items_text first items)" for first by (induction items arbitrary: first) auto
  then show ?case by simp
next
  case (JSON_OBJECT members)
  then have "\<forall>m \<in> set members. 0 \<notin> set (json_text (snd m))" by (force simp: snds.simps)
  then have "0 \<notin> set (members_text first members)" for first
    by (induction members arbitrary: first) (auto simp: string_text_no_nul split: if_splits)
  then show ?case by simp
qed (auto simp: ascii_def string_text_no_nul)

lemma json_text_nonempty: "json_ok depth v \<Longrightarrow> json_text v \<noteq> []"
  using json_text_hd by fastforce

lemma c_str_terminated: "0 \<notin> set s \<Longrightarrow> length s < n \<Longrightarrow> c_str (s @ 0 # rest) n = s"
  by (cases "n - length s") (auto simp: c_str_def takeWhile_tail)

text \<open>The string a successful call leaves in the caller's buffer.\<close>

lemma canonical_output:
  assumes "json_ok 0 v" "length (json_text v) < n"
  shows "c_str (memwrite buf 0 (json_text v @ [0])) n = json_text v"
  using assms json_text_no_nul [OF assms(1)] by (simp add: memwrite_def c_str_terminated)

section \<open>Strings that do not end\<close>

definition plain :: "u8 \<Rightarrow> bool" where
  "plain b \<longleftrightarrow> 0x20 \<le> b \<and> b < 0x80 \<and> b \<noteq> 0x22 \<and> b \<noteq> 0x5c"

lemma plain_loop:
  "list_all plain s \<Longrightarrow> string_loop no_oom status acc (s @ rest) =
    (if s = [] then string_loop no_oom status acc rest else string_loop no_oom JSON_OK (acc @ s) rest)"
proof (induction s arbitrary: status acc)
  case (Cons b s)
  then have "\<not> b < 0x20" "\<not> 0x80 \<le> b" "b \<noteq> 0x22" "b \<noteq> 0x5c" by (auto simp: plain_def)
  then show ?case using Cons by auto
qed simp

lemma denotes_unterminated:
  assumes "list_all plain s" "s \<noteq> []"
  shows "denotes no_oom (0x22 # s) (JSON_STRING [])"
    and "denotes no_oom (ascii ''{\"k\":\"'' @ s @ [0x0a, 0x7d]) (JSON_OBJECT [(ascii ''k'', JSON_STRING [])])"
proof -
  have s: "parse_string_bytes no_oom (0x22 # s @ rest) = string_loop no_oom JSON_OK s rest" for rest
    using assms plain_loop [OF assms(1), of JSON_ERR_SYNTAX "[]" rest] by (simp add: parse_string_bytes_def)
  have v: "parse_value no_oom d (0x22 # s @ rest) = (case string_loop no_oom JSON_OK s rest of
      Inl e \<Rightarrow> Inl e | Inr (bs, r) \<Rightarrow> Inr (JSON_STRING bs, r))" if "d \<le> ALRIOS_JSON_MAX_DEPTH" for rest d
    using that by (simp add: parse_value.simps skip_whitespace_id json_space_def s)
  show "denotes no_oom (0x22 # s) (JSON_STRING [])"
    using v [of 0 "[]"] by (simp add: denotes_def string_break_def skip_whitespace_def)
  have k: "parse_string_bytes no_oom (0x22 # 0x6b # 0x22 # r) = Inr ([0x6b], r)" for r
    by (simp add: parse_string_bytes_def)
  have one: "parse_value no_oom (Suc 0) (0x22 # s @ [0x0a, 0x7d]) = Inr (JSON_STRING [], [0x7d])"
    using v [of 1 "[0x0a, 0x7d]"] by (simp add: string_break_def ALRIOS_JSON_MAX_DEPTH_def)
  have "object_members no_oom 0 [] (0x22 # 0x6b # 0x22 # 0x3a # 0x22 # s @ [0x0a, 0x7d]) =
      Inr (JSON_OBJECT [([0x6b], JSON_STRING [])], [])"
    by (subst object_members.simps) (simp add: k one skip_whitespace_id json_space_def qsort_def)
  then have "parse_value no_oom 0 (0x7b # 0x22 # 0x6b # 0x22 # 0x3a # 0x22 # s @ [0x0a, 0x7d]) =
      Inr (JSON_OBJECT [([0x6b], JSON_STRING [])], [])"
    by (simp add: parse_value.simps parse_object.simps skip_whitespace_id json_space_def)
  then show "denotes no_oom (ascii ''{\"k\":\"'' @ s @ [0x0a, 0x7d]) (JSON_OBJECT [(ascii ''k'', JSON_STRING [])])"
    by (simp add: denotes_def ascii_def skip_whitespace_def)
qed

text \<open>A small input with white space.\<close>

lemma demo_canonical:
  "alrios_manifest_canonicalize no_oom (Some (ascii '' [ 1 , true ]'' @ [0])) (Some []) 20 = (JSON_OK, Some (ascii ''[1,true]'' @ [0]))"
  "alrios_manifest_canonicalize no_oom (Some (ascii ''[1,true]'' @ [0])) (Some []) 20 = (JSON_OK, Some (ascii ''[1,true]'' @ [0]))"
proof -
  let ?v = "JSON_ARRAY [JSON_INTEGER [0x31], JSON_BOOL True]"
  have parse: "parse_value no_oom 0 (ascii '' [ 1 , true ]'') = Inr (?v, [])" "parse_value no_oom 0 (ascii ''[1,true]'') = Inr (?v, [])"
    by code_simp+
  have "alrios_manifest_canonicalize no_oom (Some (input @ [0])) (Some []) 20 = (JSON_OK, Some (ascii ''[1,true]'' @ [0]))"
    if "parse_value no_oom 0 input = Inr (?v, [])" "input \<noteq> []" "0 \<notin> set input" "length input < 20" for input
  proof -
    have "json_input (input @ [0]) = input"
      using that by (intro c_str_terminated) (simp_all add: ALRIOS_JSON_MAX_INPUT_def)
    moreover have "denotes no_oom input ?v" using that(1) by (simp add: denotes_def skip_whitespace_def)
    ultimately show ?thesis using canonicalize_denoted [of "input @ [0]" input ?v 20 "ascii ''[1,true]''" "[]"] that
      by (simp add: ascii_def ALRIOS_JSON_MAX_INPUT_def memwrite_def)
  qed
  from this [OF parse(1)] this [OF parse(2)]
  show "alrios_manifest_canonicalize no_oom (Some (ascii '' [ 1 , true ]'' @ [0])) (Some []) 20 = (JSON_OK, Some (ascii ''[1,true]'' @ [0]))"
    "alrios_manifest_canonicalize no_oom (Some (ascii ''[1,true]'' @ [0])) (Some []) 20 = (JSON_OK, Some (ascii ''[1,true]'' @ [0]))"
    by (simp_all add: ascii_def)
qed

section \<open>Properties\<close>

text \<open>
  C34: Canonical texts are stable. When canonicalisation succeeds, the buffer holds a string, and
  canonicalising that string again, with the memory it needs, succeeds and gives the same string:
  the parser reads every text the writer can write, byte for byte.
\<close>

theorem canonical_form_stable:
  assumes "alrios_manifest_canonicalize oom (Some in_json) (Some buf) n = (JSON_OK, Some out)"
    and "n \<le> ALRIOS_JSON_MAX_INPUT + 1"
  shows "alrios_manifest_canonicalize no_oom (Some out) (Some buf') n = (JSON_OK, Some (memwrite buf' 0 (c_str out n @ [0]))) \<and>
    length (c_str out n) < n"
proof -
  obtain v where v: "denotes oom (json_input in_json) v" "length (json_text v) < n"
      "out = memwrite buf 0 (json_text v @ [0])"
    using assms(1) by (auto simp: canonicalize_iff)
  note ok = denotes_ok [OF v(1)]
  have out: "c_str out n = json_text v" "json_input out = json_text v"
    using canonical_output [OF ok] v assms(2) by auto
  have "length (json_text v) \<le> ALRIOS_JSON_MAX_INPUT" using v(2) assms(2) by simp
  then show ?thesis
    using canonicalize_denoted [OF out(2) json_text_nonempty [OF ok] _ denotes_text [OF ok] v(2) refl] v(2)
    by (simp add: out(1))
qed

theorem canonical_form_stable_witness:
  "let out = ascii ''[1,true]'' @ [0]
   in alrios_manifest_canonicalize no_oom (Some (ascii '' [ 1 , true ]'' @ [0])) (Some []) 20 = (JSON_OK, Some out) \<and>
     alrios_manifest_canonicalize no_oom (Some out) (Some []) 20 = (JSON_OK, Some (memwrite [] 0 (c_str out 20 @ [0])))"
proof -
  have "alrios_manifest_canonicalize no_oom (Some (ascii '' [ 1 , true ]'' @ [0])) (Some []) 20 =
      (JSON_OK, Some (ascii ''[1,true]'' @ [0]))" by (rule demo_canonical(1))
  with canonical_form_stable [OF this, of "[]"] show ?thesis by (simp add: Let_def ALRIOS_JSON_MAX_INPUT_def)
qed



text \<open>
  C36: A string that does not end is read as the empty string. A quotation mark followed by one or
  more plain characters and the end of the input is accepted and canonicalised to an empty
  string; and a string in an object that is broken off by a line feed, which JSON forbids, loses
  its content and its closing quotation mark is not required.
\<close>

theorem unterminated_string_accepted:
  assumes "list_all plain s" "s \<noteq> []" "length s + 8 \<le> ALRIOS_JSON_MAX_INPUT" "9 \<le> n"
  shows "alrios_manifest_canonicalize no_oom (Some (0x22 # s @ [0])) (Some buf) n =
      (JSON_OK, Some (memwrite buf 0 (ascii ''\"\"'' @ [0]))) \<and>
    alrios_manifest_canonicalize no_oom (Some (ascii ''{\"k\":\"'' @ s @ [0x0a, 0x7d] @ [0])) (Some buf) n =
      (JSON_OK, Some (memwrite buf 0 (ascii ''{\"k\":\"\"}'' @ [0])))"
proof -
  have nul: "0 \<notin> set s" using assms(1) by (auto simp: list_all_iff plain_def)
  have in1: "json_input (0x22 # s @ [0]) = 0x22 # s"
    using c_str_terminated [of "0x22 # s" "ALRIOS_JSON_MAX_INPUT + 1" "[]"] nul assms(3) by simp
  have in2: "json_input (ascii ''{\"k\":\"'' @ s @ [0x0a, 0x7d] @ [0]) = ascii ''{\"k\":\"'' @ s @ [0x0a, 0x7d]"
    using c_str_terminated [of "ascii ''{\"k\":\"'' @ s @ [0x0a, 0x7d]" "ALRIOS_JSON_MAX_INPUT + 1" "[]"] nul assms(3)
    by (simp add: ascii_def)
  have t: "json_text (JSON_STRING []) = ascii ''\"\"''"
    "json_text (JSON_OBJECT [(ascii ''k'', JSON_STRING [])]) = ascii ''{\"k\":\"\"}''"
    by (simp_all add: string_text_def ascii_def escaped_def)
  show ?thesis
    using canonicalize_denoted [OF in1 _ _ denotes_unterminated(1) [OF assms(1,2)] _ t(1), of n buf]
      canonicalize_denoted [OF in2 _ _ denotes_unterminated(2) [OF assms(1,2)] _ t(2), of n buf] assms(3,4)
    by (simp add: ascii_def string_text_def escaped_def)
qed

theorem unterminated_string_accepted_witness:
  "alrios_manifest_canonicalize no_oom (Some (ascii ''\"abc'' @ [0])) (Some []) 9 =
    (JSON_OK, Some (memwrite [] 0 (ascii ''\"\"'' @ [0])))"
  using unterminated_string_accepted [of "ascii ''abc''" 9 "[]"]
  by (simp add: ascii_def plain_def ALRIOS_JSON_MAX_INPUT_def)

end
