(* ===== verification/ArappV2.thy ===== *)
theory ArappV2
  imports ByteOrder ManifestCanon
begin

text \<open>
  Version 2 application packages: the validation of the envelope,
  \<open>src/libraries/package/arapp_v2_reader.c\<close>, and the signatures on it,
  \<open>src/libraries/package/arapp_v2_signatures.c\<close>.

  A pointer into the package is the offset of the byte it points to, and \<^const>\<open>None\<close> when it is
  null. The outcomes of the two allocations, the memory the manifest parser finds and the content
  of the fresh output array are fields of an environment, as are the answers of OpenSSL.
\<close>

datatype arapp_status =
    ALRIOS_ARAPP_V2_OK
  | ALRIOS_ARAPP_V2_ERR_ARGUMENT
  | ALRIOS_ARAPP_V2_ERR_TRUNCATED
  | ALRIOS_ARAPP_V2_ERR_MAGIC
  | ALRIOS_ARAPP_V2_ERR_VERSION
  | ALRIOS_ARAPP_V2_ERR_ARCH
  | ALRIOS_ARAPP_V2_ERR_FLAGS
  | ALRIOS_ARAPP_V2_ERR_LAYOUT
  | ALRIOS_ARAPP_V2_ERR_MANIFEST
  | ALRIOS_ARAPP_V2_ERR_TIME
  | ALRIOS_ARAPP_V2_ERR_PADDING
  | ALRIOS_ARAPP_V2_ERR_MEMORY

datatype arapp_sig_status =
    ALRIOS_ARAPP_V2_SIG_OK
  | ALRIOS_ARAPP_V2_SIG_ERR_ARGUMENT
  | ALRIOS_ARAPP_V2_SIG_ERR_KEY
  | ALRIOS_ARAPP_V2_SIG_ERR_SIGN
  | ALRIOS_ARAPP_V2_SIG_ERR_VERIFY
  | ALRIOS_ARAPP_V2_SIG_ERR_POLICY
  | ALRIOS_ARAPP_V2_SIG_ERR_TAMPERED
  | ALRIOS_ARAPP_V2_SIG_ERR_UNAVAILABLE

definition ARAPP_V2_PREFIX_SIZE :: nat where
  [limits]: "ARAPP_V2_PREFIX_SIZE = 144"
definition ARAPP_V2_HEADER_SIZE :: nat where
  [limits]: "ARAPP_V2_HEADER_SIZE = 3536"
definition ARAPP_V2_MAX_MANIFEST_SIZE :: nat where
  [limits]: "ARAPP_V2_MAX_MANIFEST_SIZE = 1048576"
definition ARAPP_V2_ED25519_SIGNATURE_SIZE :: nat where
  [limits]: "ARAPP_V2_ED25519_SIGNATURE_SIZE = 64"
definition ARAPP_V2_ML_DSA_65_SIGNATURE_SIZE :: nat where
  [limits]: "ARAPP_V2_ML_DSA_65_SIGNATURE_SIZE = 3309"
definition ARAPP_V2_SIGNATURE_PADDING_SIZE :: nat where
  [limits]: "ARAPP_V2_SIGNATURE_PADDING_SIZE = 19"
definition ARAPP_V2_MAX_CLOCK_SKEW_SECONDS :: u64 where
  "ARAPP_V2_MAX_CLOCK_SKEW_SECONDS = 300"

definition FLAG_PROFILE_SOVEREIGN :: u32 where
  "FLAG_PROFILE_SOVEREIGN = 1"
definition FLAG_PROFILE_ENTERPRISE :: u32 where
  "FLAG_PROFILE_ENTERPRISE = 2"
definition FLAG_PROFILE_PERFORMANCE :: u32 where
  "FLAG_PROFILE_PERFORMANCE = 4"
definition FLAG_RING_SOVEREIGN :: u32 where
  "FLAG_RING_SOVEREIGN = 8"
definition FLAG_RING_DEVMODE :: u32 where
  "FLAG_RING_DEVMODE = 16"
definition FLAG_PQC_HYBRID_SIG :: u32 where
  "FLAG_PQC_HYBRID_SIG = 64"
definition FLAGS_MASK :: u32 where
  "FLAGS_MASK = 0xff"

record arapp_view =
  target_arch :: u16
  view_flags :: u32
  view_issued_at :: u64
  view_expires_at :: u64
  view_prefix :: "nat option"
  prefix_len :: nat
  header_len :: nat
  ed25519_signature :: "nat option"
  ml_dsa_65_signature :: "nat option"
  view_manifest :: "nat option"
  manifest_len :: nat
  view_ciphertext :: "nat option"
  ciphertext_len :: nat
  gcm_iv :: "nat option"
  gcm_tag :: "nat option"
  cleartext_sha512 :: "nat option"

definition zero_view :: arapp_view where
  "zero_view =
     \<lparr>target_arch = 0, view_flags = 0, view_issued_at = 0, view_expires_at = 0, view_prefix = None, prefix_len = 0,
      header_len = 0, ed25519_signature = None, ml_dsa_65_signature = None, view_manifest = None, manifest_len = 0,
      view_ciphertext = None, ciphertext_len = 0, gcm_iv = None, gcm_tag = None, cleartext_sha512 = None\<rparr>"

definition arapp_v2_magic :: bytes where
  "arapp_v2_magic = ascii ''ALRIGROUP@ARAPP'' @ [0]"

section \<open>Checks of single fields\<close>

definition arapp_checked_add :: "nat \<Rightarrow> nat \<Rightarrow> nat option" where
  "arapp_checked_add left right = (if UINT64_MAX - left < right then None else Some (left + right))"

definition bytes_all_zero :: "bytes \<Rightarrow> bool" where
  "bytes_all_zero data \<longleftrightarrow> foldl (OR) 0 data = 0"

definition valid_architecture :: "u16 \<Rightarrow> bool" where
  "valid_architecture architecture \<longleftrightarrow> architecture = 1 \<or> architecture = 2 \<or> architecture = 3"

definition valid_flags :: "u32 \<Rightarrow> bool" where
  "valid_flags flags =
     (let profiles = flags AND (FLAG_PROFILE_SOVEREIGN OR FLAG_PROFILE_ENTERPRISE OR FLAG_PROFILE_PERFORMANCE);
          rings = flags AND (FLAG_RING_SOVEREIGN OR FLAG_RING_DEVMODE)
      in if flags AND NOT FLAGS_MASK \<noteq> 0 then False
         else if profiles = 0 \<or> profiles AND (profiles - 1) \<noteq> 0 then False
         else if rings = 0 \<or> rings AND (rings - 1) \<noteq> 0 then False
         else if flags AND FLAG_PROFILE_SOVEREIGN \<noteq> 0 \<and> flags AND FLAG_RING_SOVEREIGN = 0 then False
         else if flags AND FLAG_RING_SOVEREIGN \<noteq> 0 \<and> flags AND FLAG_PQC_HYBRID_SIG = 0 then False
         else True)"

definition valid_time_window :: "u64 \<Rightarrow> u64 \<Rightarrow> u64 \<Rightarrow> u64 \<Rightarrow> bool" where
  "valid_time_window issued_at expires_at now max_clock_skew =
     (if issued_at = 0 \<or> expires_at = 0 \<or> expires_at \<le> issued_at then False
      else
        let latest_acceptable_issue = (if - 1 - now < max_clock_skew then - 1 else now + max_clock_skew)
        in \<not> (latest_acceptable_issue < issued_at \<or> expires_at < now))"

record arapp_env =
  manifest_oom :: "nat \<Rightarrow> bool"
  input_malloc_ok :: bool
  canonical_malloc_ok :: bool
  canonical_array :: bytes

definition validate_canonical_manifest :: "arapp_env \<Rightarrow> bytes \<Rightarrow> arapp_status" where
  "validate_canonical_manifest env manifest =
     (if manifest = [] \<or> ARAPP_V2_MAX_MANIFEST_SIZE < length manifest \<or> 0 \<in> set manifest \<or> hd manifest \<noteq> 0x7b \<or>
         arapp_checked_add (length manifest) 1 = None
      then ALRIOS_ARAPP_V2_ERR_MANIFEST
      else if \<not> input_malloc_ok env \<or> \<not> canonical_malloc_ok env then ALRIOS_ARAPP_V2_ERR_MEMORY
      else
        let capacity = length manifest + 1
        in case alrios_manifest_canonicalize (manifest_oom env) (Some (manifest @ [0])) (Some (canonical_array env)) capacity of
          (canonical_status, canonical) \<Rightarrow>
            if canonical_status = JSON_OK \<and> c_strnlen (the canonical) capacity = length manifest \<and>
               memeq (the canonical) manifest (length manifest)
            then ALRIOS_ARAPP_V2_OK else ALRIOS_ARAPP_V2_ERR_MANIFEST)"

section \<open>The envelope\<close>

text \<open>
  \<open>data\<close> is the package with its address. The second answer is the caller's view, if there is one;
  it is cleared before anything is looked at and filled on success only.
\<close>

definition parsed_view :: "bytes \<Rightarrow> arapp_view" where
  "parsed_view data =
     \<lparr>target_arch = load_u16_be (drop 18 data), view_flags = load_u32_be (drop 20 data),
      view_issued_at = load_u64_be (drop 24 data), view_expires_at = load_u64_be (drop 32 data),
      view_prefix = Some 0, prefix_len = ARAPP_V2_PREFIX_SIZE, header_len = unat (load_u32_be (drop 40 data)),
      ed25519_signature = Some ARAPP_V2_PREFIX_SIZE,
      ml_dsa_65_signature = Some (ARAPP_V2_PREFIX_SIZE + ARAPP_V2_ED25519_SIGNATURE_SIZE),
      view_manifest = Some (unat (load_u32_be (drop 40 data))), manifest_len = unat (load_u32_be (drop 44 data)),
      view_ciphertext = Some (unat (load_u32_be (drop 40 data)) + unat (load_u32_be (drop 44 data))),
      ciphertext_len = unat (load_u32_be (drop 48 data)),
      gcm_iv = Some 52, gcm_tag = Some 64, cleartext_sha512 = Some 80\<rparr>"

definition alrios_arapp_v2_validate ::
  "arapp_env \<Rightarrow> (addr \<times> bytes) option \<Rightarrow> nat \<Rightarrow> u64 \<Rightarrow> u64 \<Rightarrow> bool \<Rightarrow> arapp_status \<times> arapp_view option" where
  "alrios_arapp_v2_validate env datap data_len now max_clock_skew out_view =
     (if \<not> out_view then (ALRIOS_ARAPP_V2_ERR_ARGUMENT, None)
      else (case datap of
         None \<Rightarrow> (ALRIOS_ARAPP_V2_ERR_ARGUMENT, Some zero_view)
       | Some (start, data) \<Rightarrow>
           let fail = (\<lambda>status. (status, Some zero_view));
               version = load_u16_be (drop 16 data);
               architecture = load_u16_be (drop 18 data);
               flags = load_u32_be (drop 20 data);
               issued_at = load_u64_be (drop 24 data);
               expires_at = load_u64_be (drop 32 data);
               header_size = load_u32_be (drop 40 data);
               manifest_len_u32 = load_u32_be (drop 44 data);
               ciphertext_len_u32 = load_u32_be (drop 48 data)
           in if UINT64_MAX - start < data_len then fail ALRIOS_ARAPP_V2_ERR_LAYOUT
              else if data_len < ARAPP_V2_HEADER_SIZE then fail ALRIOS_ARAPP_V2_ERR_TRUNCATED
              else if \<not> memeq data arapp_v2_magic 16 then fail ALRIOS_ARAPP_V2_ERR_MAGIC
              else if version \<noteq> 2 then fail ALRIOS_ARAPP_V2_ERR_VERSION
              else if \<not> valid_architecture architecture then fail ALRIOS_ARAPP_V2_ERR_ARCH
              else if \<not> valid_flags flags then fail ALRIOS_ARAPP_V2_ERR_FLAGS
              else if unat header_size \<noteq> ARAPP_V2_HEADER_SIZE \<or> manifest_len_u32 = 0 \<or>
                      ARAPP_V2_MAX_MANIFEST_SIZE < unat manifest_len_u32
              then fail ALRIOS_ARAPP_V2_ERR_LAYOUT
              else (case arapp_checked_add (unat header_size) (unat manifest_len_u32) of
                 None \<Rightarrow> fail ALRIOS_ARAPP_V2_ERR_LAYOUT
               | Some manifest_end \<Rightarrow>
                   (case arapp_checked_add manifest_end (unat ciphertext_len_u32) of
                      None \<Rightarrow> fail ALRIOS_ARAPP_V2_ERR_LAYOUT
                    | Some expected_size \<Rightarrow>
                        if expected_size \<noteq> data_len then fail ALRIOS_ARAPP_V2_ERR_LAYOUT
                        else if \<not> valid_time_window issued_at expires_at now max_clock_skew
                        then fail ALRIOS_ARAPP_V2_ERR_TIME
                        else if \<not> bytes_all_zero
                               (bytes_at (ARAPP_V2_PREFIX_SIZE + ARAPP_V2_ED25519_SIGNATURE_SIZE + ARAPP_V2_ML_DSA_65_SIGNATURE_SIZE)
                                  ARAPP_V2_SIGNATURE_PADDING_SIZE data)
                        then fail ALRIOS_ARAPP_V2_ERR_PADDING
                        else
                          let result = validate_canonical_manifest env
                                         (bytes_at (unat header_size) (unat manifest_len_u32) data)
                          in if result \<noteq> ALRIOS_ARAPP_V2_OK then fail result
                             else (ALRIOS_ARAPP_V2_OK, Some (parsed_view data))))))"

section \<open>Signatures\<close>

text \<open>
  \<open>evp_sha512\<close>, \<open>ed25519_sign_with\<close>, \<open>ml_dsa_sign_with\<close>: the digest of a message and the signatures of a
  digest under a private key, \<^const>\<open>None\<close> when a call fails; \<open>ed25519_check\<close>, \<open>ml_dsa_check\<close>: the answer of
  the check of a signature under a public key. ML-DSA-65 is used with a fixed context string and
  is there only when the library was built with it. A signing call that fails is taken to leave
  its slot as it was; one that succeeds writes no more than the slot holds.
\<close>

record sig_env =
  evp_sha512 :: "bytes \<Rightarrow> bytes option"
  ed25519_sign_with :: "bytes \<Rightarrow> bytes \<Rightarrow> bytes option"
  sig_ctx_ok :: bool
  sig_init_ok :: "bytes \<Rightarrow> bool"
  ed25519_check :: "bytes \<Rightarrow> bytes \<Rightarrow> bytes \<Rightarrow> bool"
  have_ml_dsa_65 :: bool
  ml_dsa_sign_with :: "bytes \<Rightarrow> bytes \<Rightarrow> bytes option"
  ml_dsa_check :: "bytes \<Rightarrow> bytes \<Rightarrow> bytes \<Rightarrow> bool"

definition compute_tbs_digest :: "sig_env \<Rightarrow> bytes option \<Rightarrow> nat \<Rightarrow> arapp_sig_status + bytes" where
  "compute_tbs_digest env packagep package_len =
     (case packagep of
        None \<Rightarrow> Inl ALRIOS_ARAPP_V2_SIG_ERR_ARGUMENT
      | Some package \<Rightarrow>
          if package_len < ARAPP_V2_HEADER_SIZE then Inl ALRIOS_ARAPP_V2_SIG_ERR_ARGUMENT
          else
            let hashed = take ARAPP_V2_PREFIX_SIZE package @
                  (if ARAPP_V2_HEADER_SIZE < package_len
                   then take (package_len - ARAPP_V2_HEADER_SIZE) (drop ARAPP_V2_HEADER_SIZE package) else [])
            in (case evp_sha512 env hashed of
                  None \<Rightarrow> Inl ALRIOS_ARAPP_V2_SIG_ERR_SIGN
                | Some digest \<Rightarrow> if length digest \<noteq> 64 then Inl ALRIOS_ARAPP_V2_SIG_ERR_SIGN else Inr digest))"

text \<open>The common course of the two signing functions: slot, size and signing call differ.\<close>

definition sign_slot ::
  "sig_env \<Rightarrow> (bytes \<Rightarrow> bytes \<Rightarrow> bytes option) \<Rightarrow> nat \<Rightarrow> nat \<Rightarrow> bytes option \<Rightarrow> nat \<Rightarrow> bytes option \<Rightarrow>
   arapp_sig_status \<times> bytes option" where
  "sign_slot env sign_with slot sig_size packagep package_len keyp =
     (case (packagep, keyp) of
        (Some package, Some key) \<Rightarrow>
          if package_len < ARAPP_V2_HEADER_SIZE then (ALRIOS_ARAPP_V2_SIG_ERR_ARGUMENT, packagep)
          else (case compute_tbs_digest env packagep package_len of
             Inl status \<Rightarrow> (status, packagep)
           | Inr tbs_digest \<Rightarrow>
               if \<not> sig_ctx_ok env \<or> \<not> sig_init_ok env key then (ALRIOS_ARAPP_V2_SIG_ERR_SIGN, packagep)
               else (case sign_with key tbs_digest of
                  None \<Rightarrow> (ALRIOS_ARAPP_V2_SIG_ERR_SIGN, packagep)
                | Some sig \<Rightarrow>
                    (if length sig \<noteq> sig_size then ALRIOS_ARAPP_V2_SIG_ERR_SIGN else ALRIOS_ARAPP_V2_SIG_OK,
                     Some (memwrite package slot (take sig_size sig)))))
      | _ \<Rightarrow> (ALRIOS_ARAPP_V2_SIG_ERR_ARGUMENT, packagep))"

definition alrios_arapp_v2_sign_ed25519 ::
  "sig_env \<Rightarrow> bytes option \<Rightarrow> nat \<Rightarrow> bytes option \<Rightarrow> arapp_sig_status \<times> bytes option" where
  "alrios_arapp_v2_sign_ed25519 env =
     sign_slot env (ed25519_sign_with env) ARAPP_V2_PREFIX_SIZE ARAPP_V2_ED25519_SIGNATURE_SIZE"

definition alrios_arapp_v2_sign_ml_dsa_65 ::
  "sig_env \<Rightarrow> bytes option \<Rightarrow> nat \<Rightarrow> bytes option \<Rightarrow> arapp_sig_status \<times> bytes option" where
  "alrios_arapp_v2_sign_ml_dsa_65 env packagep package_len keyp =
     (if have_ml_dsa_65 env
      then sign_slot env (ml_dsa_sign_with env) (ARAPP_V2_PREFIX_SIZE + ARAPP_V2_ED25519_SIGNATURE_SIZE)
             ARAPP_V2_ML_DSA_65_SIGNATURE_SIZE packagep package_len keyp
      else (ALRIOS_ARAPP_V2_SIG_ERR_UNAVAILABLE, packagep))"

definition verify_slot ::
  "sig_env \<Rightarrow> (bytes \<Rightarrow> bytes \<Rightarrow> bytes \<Rightarrow> bool) \<Rightarrow> nat \<Rightarrow> nat \<Rightarrow> bytes option \<Rightarrow> nat \<Rightarrow> bytes option \<Rightarrow> arapp_sig_status" where
  "verify_slot env check slot sig_size packagep package_len pubkeyp =
     (case (packagep, pubkeyp) of
        (Some package, Some pubkey) \<Rightarrow>
          if package_len < ARAPP_V2_HEADER_SIZE then ALRIOS_ARAPP_V2_SIG_ERR_ARGUMENT
          else (case compute_tbs_digest env packagep package_len of
             Inl status \<Rightarrow> status
           | Inr tbs_digest \<Rightarrow>
               if \<not> sig_ctx_ok env \<or> \<not> sig_init_ok env pubkey then ALRIOS_ARAPP_V2_SIG_ERR_VERIFY
               else if check pubkey (bytes_at slot sig_size package) tbs_digest
               then ALRIOS_ARAPP_V2_SIG_OK else ALRIOS_ARAPP_V2_SIG_ERR_TAMPERED)
      | _ \<Rightarrow> ALRIOS_ARAPP_V2_SIG_ERR_ARGUMENT)"

definition alrios_arapp_v2_verify_ed25519 :: "sig_env \<Rightarrow> bytes option \<Rightarrow> nat \<Rightarrow> bytes option \<Rightarrow> arapp_sig_status" where
  "alrios_arapp_v2_verify_ed25519 env =
     verify_slot env (ed25519_check env) ARAPP_V2_PREFIX_SIZE ARAPP_V2_ED25519_SIGNATURE_SIZE"

definition alrios_arapp_v2_verify_ml_dsa_65 :: "sig_env \<Rightarrow> bytes option \<Rightarrow> nat \<Rightarrow> bytes option \<Rightarrow> arapp_sig_status" where
  "alrios_arapp_v2_verify_ml_dsa_65 env packagep package_len pubkeyp =
     (if have_ml_dsa_65 env
      then verify_slot env (ml_dsa_check env) (ARAPP_V2_PREFIX_SIZE + ARAPP_V2_ED25519_SIGNATURE_SIZE)
             ARAPP_V2_ML_DSA_65_SIGNATURE_SIZE packagep package_len pubkeyp
      else ALRIOS_ARAPP_V2_SIG_ERR_UNAVAILABLE)"

definition alrios_arapp_v2_verify_hybrid ::
  "sig_env \<Rightarrow> bytes option \<Rightarrow> nat \<Rightarrow> bytes option \<Rightarrow> bytes option \<Rightarrow> bool \<Rightarrow> arapp_sig_status" where
  "alrios_arapp_v2_verify_hybrid env packagep package_len ed25519_pubkey ml_dsa_pubkey require_pqc =
     (if packagep = None \<or> ed25519_pubkey = None \<or> package_len < ARAPP_V2_HEADER_SIZE
      then ALRIOS_ARAPP_V2_SIG_ERR_ARGUMENT
      else
        let ed_status = alrios_arapp_v2_verify_ed25519 env packagep package_len ed25519_pubkey
        in if ed_status \<noteq> ALRIOS_ARAPP_V2_SIG_OK then ed_status
           else if ml_dsa_pubkey = None
           then (if require_pqc then ALRIOS_ARAPP_V2_SIG_ERR_POLICY else ALRIOS_ARAPP_V2_SIG_OK)
           else
             let ml_status = alrios_arapp_v2_verify_ml_dsa_65 env packagep package_len ml_dsa_pubkey
             in if ml_status = ALRIOS_ARAPP_V2_SIG_ERR_UNAVAILABLE \<and> \<not> require_pqc then ALRIOS_ARAPP_V2_SIG_OK
                else ml_status)"

end
