(* ===== verification/ArappV2Spec.thy ===== *)
theory ArappV2Spec
  imports ArappV2 ManifestCanonSpec
begin

text \<open>
  What a valid package is: the image of an abstract package, byte for byte, whose manifest is the
  canonical text of a JSON object. Then what the two signatures on it cover, and that signing and
  verification fit together.
\<close>

section \<open>The manifest\<close>

definition arapp_memory :: "arapp_env \<Rightarrow> bool" where
  "arapp_memory env \<longleftrightarrow> manifest_oom env = no_oom \<and> input_malloc_ok env \<and> canonical_malloc_ok env"

definition manifest_ok :: "bytes \<Rightarrow> bool" where
  "manifest_ok m \<longleftrightarrow> (\<exists>ms. json_ok 0 (JSON_OBJECT ms) \<and> m = json_text (JSON_OBJECT ms) \<and> length m \<le> ARAPP_V2_MAX_MANIFEST_SIZE)"

lemma json_text_object: "hd (json_text v) = 0x7b \<Longrightarrow> json_ok 0 v \<Longrightarrow> \<exists>ms. v = JSON_OBJECT ms"
  by (cases v) (auto simp: ascii_def string_text_def isdigit_def dest: integer_text_hd split: if_splits)

lemma canonical_at_capacity:
  assumes "json_ok 0 v" "length (json_text v) \<le> length m"
  shows "c_strnlen (memwrite buf 0 (json_text v @ [0])) (length m + 1) = length m \<and>
      memeq (memwrite buf 0 (json_text v @ [0])) m (length m) \<longleftrightarrow> m = json_text v"
  using assms canonical_output [of v "length m + 1" buf] by (auto simp: c_strnlen_def memwrite_def memeq_def)

lemma canonical_manifest_input:
  assumes "0 \<notin> set m" "length m \<le> ARAPP_V2_MAX_MANIFEST_SIZE"
  shows "json_input (m @ [0]) = m"
  using assms by (intro c_str_terminated) (simp_all add: ALRIOS_JSON_MAX_INPUT_def limits)

lemma validate_canonical_manifest_ok:
  assumes "validate_canonical_manifest env m = ALRIOS_ARAPP_V2_OK"
  shows "manifest_ok m"
proof -
  have m: "m \<noteq> []" "length m \<le> ARAPP_V2_MAX_MANIFEST_SIZE" "0 \<notin> set m" "hd m = 0x7b"
    using assms by (auto simp: validate_canonical_manifest_def split: if_splits)
  obtain out where out: "alrios_manifest_canonicalize (manifest_oom env) (Some (m @ [0])) (Some (canonical_array env)) (length m + 1) =
      (JSON_OK, Some out)" "c_strnlen out (length m + 1) = length m" "memeq out m (length m)"
    using assms by (auto simp: validate_canonical_manifest_def alrios_manifest_canonicalize_def Let_def
        split: if_splits sum.splits)
  then obtain v where v: "denotes (manifest_oom env) m v" "length (json_text v) \<le> length m"
      "out = memwrite (canonical_array env) 0 (json_text v @ [0])"
    unfolding canonicalize_iff canonical_manifest_input [OF m(3,2)] by auto
  note ok = denotes_ok [OF v(1)]
  have "m = json_text v" using canonical_at_capacity [OF ok v(2)] out(2,3) v(3) by blast
  moreover obtain ms where "v = JSON_OBJECT ms" using json_text_object [OF _ ok] m(4) calculation by blast
  ultimately show ?thesis using m(2) ok unfolding manifest_ok_def by blast
qed

lemma manifest_ok_validates:
  assumes "manifest_ok m" "arapp_memory env"
  shows "validate_canonical_manifest env m = ALRIOS_ARAPP_V2_OK"
proof -
  obtain ms where ms: "json_ok 0 (JSON_OBJECT ms)" "m = json_text (JSON_OBJECT ms)" "length m \<le> ARAPP_V2_MAX_MANIFEST_SIZE"
    using assms(1) by (auto simp: manifest_ok_def)
  have m: "m \<noteq> []" "0 \<notin> set m" "hd m = 0x7b" using json_text_no_nul [OF ms(1)] ms(2) by auto
  have "length m \<le> ALRIOS_JSON_MAX_INPUT" "length (json_text (JSON_OBJECT ms)) < length m + 1"
    using ms(2,3) by (simp_all add: ALRIOS_JSON_MAX_INPUT_def limits)
  note canonicalize_denoted [OF canonical_manifest_input [OF m(2) ms(3)] m(1) this(1)
      denotes_text [OF ms(1), folded ms(2)] this(2) ms(2) [symmetric], of "canonical_array env"]
  moreover have "arapp_checked_add (length m) 1 \<noteq> None" using ms(3) by (simp add: arapp_checked_add_def limits)
  ultimately show ?thesis
    using assms(2) m ms(3) canonical_at_capacity [OF ms(1), of m "canonical_array env"] unfolding ms(2) [symmetric]
    by (simp add: validate_canonical_manifest_def arapp_memory_def)
qed

lemma validate_canonical_manifest_exact:
  "arapp_memory env \<Longrightarrow> validate_canonical_manifest env m = ALRIOS_ARAPP_V2_OK \<longleftrightarrow> manifest_ok m"
  using validate_canonical_manifest_ok manifest_ok_validates by blast

section \<open>The envelope\<close>

text \<open>A package by what it says, and the bytes it is written as.\<close>

record package =
  pkg_arch :: u16
  pkg_flags :: u32
  pkg_issued :: u64
  pkg_expires :: u64
  pkg_iv :: bytes
  pkg_tag :: bytes
  pkg_sha512 :: bytes
  pkg_ed25519 :: bytes
  pkg_ml_dsa :: bytes
  pkg_manifest :: bytes
  pkg_ciphertext :: bytes

definition package_prefix :: "package \<Rightarrow> bytes" where
  "package_prefix p =
     arapp_v2_magic @ store_u16_be 2 @ store_u16_be (pkg_arch p) @ store_u32_be (pkg_flags p) @
     store_u64_be (pkg_issued p) @ store_u64_be (pkg_expires p) @ store_u32_be 3536 @
     store_u32_be (of_nat (length (pkg_manifest p))) @ store_u32_be (of_nat (length (pkg_ciphertext p))) @
     pkg_iv p @ pkg_tag p @ pkg_sha512 p"

definition package_image :: "package \<Rightarrow> bytes" where
  "package_image p =
     package_prefix p @ pkg_ed25519 p @ pkg_ml_dsa p @ zeros 19 @ pkg_manifest p @ pkg_ciphertext p"

definition package_arrays :: "package \<Rightarrow> bool" where
  "package_arrays p \<longleftrightarrow>
     length (pkg_iv p) = 12 \<and> length (pkg_tag p) = 16 \<and> length (pkg_sha512 p) = 64 \<and>
     length (pkg_ed25519 p) = 64 \<and> length (pkg_ml_dsa p) = 3309 \<and>
     length (pkg_manifest p) \<le> ARAPP_V2_MAX_MANIFEST_SIZE \<and> length (pkg_ciphertext p) < 2 ^ 32"

text \<open>
  One profile, one ring; the sovereign profile only in the sovereign ring, which in turn only with
  hybrid signatures; bits 5 and 7 are free.
\<close>

definition flags_ok :: "u32 \<Rightarrow> bool" where
  "flags_ok flags \<longleftrightarrow>
     (\<forall>i. 8 \<le> i \<longrightarrow> \<not> bit flags i) \<and>
     length (filter (bit flags) [0, 1, 2]) = 1 \<and> length (filter (bit flags) [3, 4]) = 1 \<and>
     (bit flags 0 \<longrightarrow> bit flags 3) \<and> (bit flags 3 \<longrightarrow> bit flags 6)"

definition package_ok :: "u64 \<Rightarrow> u64 \<Rightarrow> package \<Rightarrow> bool" where
  "package_ok now skew p \<longleftrightarrow>
     package_arrays p \<and> pkg_arch p \<in> {1, 2, 3} \<and> flags_ok (pkg_flags p) \<and> manifest_ok (pkg_manifest p) \<and>
     0 < pkg_issued p \<and> pkg_issued p < pkg_expires p \<and> uint (pkg_issued p) \<le> uint now + uint skew \<and> now \<le> pkg_expires p"

definition package_view :: "package \<Rightarrow> arapp_view" where
  "package_view p =
     \<lparr>target_arch = pkg_arch p, view_flags = pkg_flags p, view_issued_at = pkg_issued p, view_expires_at = pkg_expires p,
      view_prefix = Some 0, prefix_len = 144, header_len = 3536, ed25519_signature = Some 144, ml_dsa_65_signature = Some 208,
      view_manifest = Some 3536, manifest_len = length (pkg_manifest p),
      view_ciphertext = Some (3536 + length (pkg_manifest p)), ciphertext_len = length (pkg_ciphertext p),
      gcm_iv = Some 52, gcm_tag = Some 64, cleartext_sha512 = Some 80\<rparr>"

lemma foldl_or_zero: "foldl (OR) a bs = (0 :: u8) \<longleftrightarrow> a = 0 \<and> (\<forall>b \<in> set bs. b = 0)"
  by (induction bs arbitrary: a) (auto simp: or_eq_0_iff)

lemma bytes_all_zero_eq: "bytes_all_zero bs \<longleftrightarrow> bs = zeros (length bs)"
  unfolding bytes_all_zero_def foldl_or_zero zeros_def by (metis in_set_replicate replicate_eqI)

lemma valid_time_window_eq:
  "valid_time_window issued expires now skew \<longleftrightarrow>
     0 < issued \<and> issued < expires \<and> uint issued \<le> uint now + uint skew \<and> now \<le> expires"
proof -
  have ones: "uint (- 1 :: u64) = 2 ^ 64 - 1" by (simp add: unsigned_minus_1_eq_mask mask_eq_exp_minus_1)
  have bound: "uint issued < 2 ^ 64" "uint now < 2 ^ 64" using uint_lt2p [of issued] uint_lt2p [of now] by simp_all
  have latest: "- 1 - now < skew \<longleftrightarrow> 2 ^ 64 \<le> uint now + uint skew"
    using bound ones by (auto simp: word_less_def uint_sub_if')
  have sum: "uint (now + skew) = uint now + uint skew" if "uint now + uint skew < 2 ^ 64"
    using that by (simp add: uint_plus_if')
  show ?thesis
    using bound ones sum latest
    by (cases "uint now + uint skew < 2 ^ 64")
      (auto simp: valid_time_window_def word_le_def word_less_def word_neq_0_conv uint_0_iff)
qed

lemma length_package_prefix: "package_arrays p \<Longrightarrow> length (package_prefix p) = 144"
  by (simp add: package_prefix_def package_arrays_def arapp_v2_magic_def ascii_def be16.enc_width be32.enc_width be64.enc_width)

lemma and_flag: "(w :: u32) AND 2 ^ k = (if bit w k then 2 ^ k else 0)"
  by (rule bit_word_eqI) (auto simp: bit_simps)

lemma flag_powers:
  "FLAG_PROFILE_SOVEREIGN = 2 ^ 0" "FLAG_PROFILE_ENTERPRISE = 2 ^ 1" "FLAG_PROFILE_PERFORMANCE = 2 ^ 2"
  "FLAG_RING_SOVEREIGN = 2 ^ 3" "FLAG_RING_DEVMODE = 2 ^ 4" "FLAG_PQC_HYBRID_SIG = 2 ^ 6"
  by (simp_all add: FLAG_PROFILE_SOVEREIGN_def FLAG_PROFILE_ENTERPRISE_def FLAG_PROFILE_PERFORMANCE_def
      FLAG_RING_SOVEREIGN_def FLAG_RING_DEVMODE_def FLAG_PQC_HYBRID_SIG_def)

lemma valid_flags_eq: "valid_flags flags \<longleftrightarrow> flags_ok flags"
proof -
  have "FLAGS_MASK = mask 8" by (simp add: FLAGS_MASK_def mask_eq_exp_minus_1)
  then have "flags AND NOT FLAGS_MASK = 0 \<longleftrightarrow> (\<forall>i < 32. 8 \<le> i \<longrightarrow> \<not> bit flags i)"
    by (auto simp: bit_eq_iff bit_simps not_less)
  then have high: "flags AND NOT FLAGS_MASK = 0 \<longleftrightarrow> (\<forall>i. 8 \<le> i \<longrightarrow> \<not> bit flags i)"
    using bit_imp_le_length [of flags] by auto
  show ?thesis
    unfolding valid_flags_def flags_ok_def high flag_powers bit.conj_disj_distrib and_flag
    by (cases "bit flags 0"; cases "bit flags 1"; cases "bit flags 2"; cases "bit flags 3"; cases "bit flags 4")
      (simp_all add: Let_def and_flag)
qed

lemma length_arapp_v2_magic [simp]: "length arapp_v2_magic = 16"
  by (simp add: arapp_v2_magic_def ascii_def)

lemmas field_widths = be16.enc_width be32.enc_width be64.enc_width
lemmas field_reads = be16.dec_enc be32.dec_enc be64.dec_enc

text \<open>The conditions validation establishes, one by one.\<close>

lemma checked_add_u32:
  "arapp_checked_add (unat (a :: u32)) (unat (b :: u32)) = Some (unat a + unat b)"
  "arapp_checked_add (unat a + unat b) (unat (c :: u32)) = Some (unat a + unat b + unat c)"
  using unsigned_less [of a, where ?'a = nat] unsigned_less [of b, where ?'a = nat] unsigned_less [of c, where ?'a = nat]
  by (simp_all add: arapp_checked_add_def limits)

lemma fail_or:
  "status \<noteq> ALRIOS_ARAPP_V2_OK \<Longrightarrow> (if c then (status, v) else r) = (ALRIOS_ARAPP_V2_OK, w) \<longleftrightarrow> \<not> c \<and> r = (ALRIOS_ARAPP_V2_OK, w)"
  "(if r0 \<noteq> ALRIOS_ARAPP_V2_OK then (r0, v) else r) = (ALRIOS_ARAPP_V2_OK, w) \<longleftrightarrow> r0 = ALRIOS_ARAPP_V2_OK \<and> r = (ALRIOS_ARAPP_V2_OK, w)"
  by auto

lemma validate_steps:
  "alrios_arapp_v2_validate env (Some (start, data)) n now skew True = (ALRIOS_ARAPP_V2_OK, Some view) \<longleftrightarrow>
    \<not> UINT64_MAX - start < n \<and> \<not> n < ARAPP_V2_HEADER_SIZE \<and> memeq data arapp_v2_magic 16 \<and> load_u16_be (drop 16 data) = 2 \<and>
    valid_architecture (load_u16_be (drop 18 data)) \<and> valid_flags (load_u32_be (drop 20 data)) \<and>
    \<not> (unat (load_u32_be (drop 40 data)) \<noteq> ARAPP_V2_HEADER_SIZE \<or> load_u32_be (drop 44 data) = 0 \<or>
       ARAPP_V2_MAX_MANIFEST_SIZE < unat (load_u32_be (drop 44 data))) \<and>
    unat (load_u32_be (drop 40 data)) + unat (load_u32_be (drop 44 data)) + unat (load_u32_be (drop 48 data)) = n \<and>
    valid_time_window (load_u64_be (drop 24 data)) (load_u64_be (drop 32 data)) now skew \<and>
    bytes_all_zero (bytes_at (ARAPP_V2_PREFIX_SIZE + ARAPP_V2_ED25519_SIGNATURE_SIZE + ARAPP_V2_ML_DSA_65_SIGNATURE_SIZE)
      ARAPP_V2_SIGNATURE_PADDING_SIZE data) \<and>
    validate_canonical_manifest env (bytes_at (unat (load_u32_be (drop 40 data))) (unat (load_u32_be (drop 44 data))) data) =
      ALRIOS_ARAPP_V2_OK \<and>
    view = parsed_view data"
  unfolding alrios_arapp_v2_validate_def Let_def checked_add_u32 option.case prod.case simp_thms if_False
  by (subst fail_or, simp)+ auto

text \<open>Reading a package off its bytes.\<close>

definition package_of :: "bytes \<Rightarrow> package" where
  "package_of data =
     (let m = unat (load_u32_be (drop 44 data))
      in \<lparr>pkg_arch = load_u16_be (drop 18 data), pkg_flags = load_u32_be (drop 20 data),
          pkg_issued = load_u64_be (drop 24 data), pkg_expires = load_u64_be (drop 32 data),
          pkg_iv = take 12 (drop 52 data), pkg_tag = take 16 (drop 64 data), pkg_sha512 = take 64 (drop 80 data),
          pkg_ed25519 = take 64 (drop 144 data), pkg_ml_dsa = take 3309 (drop 208 data),
          pkg_manifest = take m (drop 3536 data), pkg_ciphertext = drop (3536 + m) data\<rparr>)"

lemma package_cut:
  fixes data :: bytes
  shows "3536 + m \<le> length data \<Longrightarrow>
   data = take 16 data @ take 2 (drop 16 data) @ take 2 (drop 18 data) @ take 4 (drop 20 data) @ take 8 (drop 24 data) @
     take 8 (drop 32 data) @ take 4 (drop 40 data) @ take 4 (drop 44 data) @ take 4 (drop 48 data) @ take 12 (drop 52 data) @
     take 16 (drop 64 data) @ take 64 (drop 80 data) @ take 64 (drop 144 data) @ take 3309 (drop 208 data) @
     take 19 (drop 3517 data) @ take m (drop 3536 data) @ drop (3536 + m) data"
  using concat_slices [of data 0 "[16, 2, 2, 4, 8, 8, 4, 4, 4, 12, 16, 64, 64, 3309, 19, m, length data - (3536 + m)]"]
  by simp

lemma package_of_image:
  assumes len: "length data = 3536 + unat (load_u32_be (drop 44 data)) + unat (load_u32_be (drop 48 data))"
    and fixed: "take 16 data = arapp_v2_magic" "load_u16_be (drop 16 data) = 2" "load_u32_be (drop 40 data) = 3536"
      "take 19 (drop 3517 data) = zeros 19"
  shows "package_image (package_of data) = data"
proof -
  let ?m = "unat (load_u32_be (drop 44 data))"
  have big: "3536 \<le> length data" using len by linarith
  have fields: "store_u16_be 2 = take 2 (drop 16 data)" "store_u32_be 3536 = take 4 (drop 40 data)"
    "store_u16_be (load_u16_be (drop 18 data)) = take 2 (drop 18 data)" "store_u32_be (load_u32_be (drop 20 data)) = take 4 (drop 20 data)"
    "store_u64_be (load_u64_be (drop 24 data)) = take 8 (drop 24 data)" "store_u64_be (load_u64_be (drop 32 data)) = take 8 (drop 32 data)"
    "store_u32_be (load_u32_be (drop 44 data)) = take 4 (drop 44 data)" "store_u32_be (load_u32_be (drop 48 data)) = take 4 (drop 48 data)"
    using big be16.enc_dec [of "drop 16 data", unfolded fixed(2)] be32.enc_dec [of "drop 40 data", unfolded fixed(3)]
    by (simp_all add: be16.enc_dec be32.enc_dec be64.enc_dec)
  have lens: "of_nat (length (take ?m (drop 3536 data))) = load_u32_be (drop 44 data)"
    "of_nat (length (drop (3536 + ?m) data)) = load_u32_be (drop 48 data)"
    unfolding length_take length_drop len by simp_all
  have "3536 + ?m \<le> length data" using len by linarith
  then show ?thesis
    unfolding package_image_def package_prefix_def package_of_def Let_def package.simps lens fields fixed(1,4) [symmetric] append_assoc
    by (rule package_cut [symmetric])
qed

text \<open>The image of a package, field by field.\<close>

lemma image_drop:
  assumes "package_arrays p"
  shows "take 16 (package_image p) = arapp_v2_magic"
    and "load_u16_be (drop 16 (package_image p)) = 2"
    and "load_u16_be (drop 18 (package_image p)) = pkg_arch p"
    and "load_u32_be (drop 20 (package_image p)) = pkg_flags p"
    and "load_u64_be (drop 24 (package_image p)) = pkg_issued p"
    and "load_u64_be (drop 32 (package_image p)) = pkg_expires p"
    and "load_u32_be (drop 40 (package_image p)) = 3536"
    and "unat (load_u32_be (drop 44 (package_image p))) = length (pkg_manifest p)"
    and "unat (load_u32_be (drop 48 (package_image p))) = length (pkg_ciphertext p)"
    and "take 144 (package_image p) = package_prefix p"
    and "take 64 (drop 144 (package_image p)) = pkg_ed25519 p"
    and "take 3309 (drop 208 (package_image p)) = pkg_ml_dsa p"
    and "take 19 (drop 3517 (package_image p)) = zeros 19"
    and "drop 3536 (package_image p) = pkg_manifest p @ pkg_ciphertext p"
    and "length (package_image p) = 3536 + length (pkg_manifest p) + length (pkg_ciphertext p)"
proof -
  note widths = field_widths assms [unfolded package_arrays_def limits]
  note lens = length_package_prefix [OF assms] assms [unfolded package_arrays_def limits]
  show "take 144 (package_image p) = package_prefix p" "take 64 (drop 144 (package_image p)) = pkg_ed25519 p"
    "take 3309 (drop 208 (package_image p)) = pkg_ml_dsa p" "take 19 (drop 3517 (package_image p)) = zeros 19"
    "drop 3536 (package_image p) = pkg_manifest p @ pkg_ciphertext p"
    "length (package_image p) = 3536 + length (pkg_manifest p) + length (pkg_ciphertext p)"
    using lens by (simp_all add: package_image_def)
  show "take 16 (package_image p) = arapp_v2_magic" "load_u16_be (drop 16 (package_image p)) = 2"
    "load_u16_be (drop 18 (package_image p)) = pkg_arch p" "load_u32_be (drop 20 (package_image p)) = pkg_flags p"
    "load_u64_be (drop 24 (package_image p)) = pkg_issued p" "load_u64_be (drop 32 (package_image p)) = pkg_expires p"
    "load_u32_be (drop 40 (package_image p)) = 3536"
    "unat (load_u32_be (drop 44 (package_image p))) = length (pkg_manifest p)"
    "unat (load_u32_be (drop 48 (package_image p))) = length (pkg_ciphertext p)"
    using widths by (simp_all add: package_image_def package_prefix_def field_reads unat_of_nat)
qed

lemma package_image_inject:
  assumes "package_arrays p" "package_arrays q" "package_image p = package_image q"
  shows "p = q"
proof -
  have "package_of (package_image p) = p" if "package_arrays p" for p
  proof -
    note image = image_drop [OF that]
    have "take 12 (drop 52 (package_image p)) = pkg_iv p" "take 16 (drop 64 (package_image p)) = pkg_tag p"
      "take 64 (drop 80 (package_image p)) = pkg_sha512 p"
      using that field_widths by (simp_all add: package_image_def package_prefix_def package_arrays_def)
    moreover have "drop (3536 + n) (package_image p) = drop n (pkg_manifest p @ pkg_ciphertext p)" for n
      using image(14) by (simp add: add.commute flip: drop_drop)
    ultimately show ?thesis by (simp add: package_of_def Let_def image)
  qed
  then show ?thesis using assms by metis
qed

lemma manifest_size: "manifest_ok m \<Longrightarrow> m \<noteq> [] \<and> length m \<le> ARAPP_V2_MAX_MANIFEST_SIZE"
  by (auto simp: manifest_ok_def)

lemma valid_architecture_eq: "valid_architecture a \<longleftrightarrow> a \<in> {1, 2, 3}"
  by (simp add: valid_architecture_def)

lemmas envelope_fields = valid_flags_eq valid_time_window_eq valid_architecture_eq bytes_all_zero_eq

lemma header_size_eq: "unat (w :: u32) = ARAPP_V2_HEADER_SIZE \<longleftrightarrow> w = 3536"
  by (auto simp: limits word_unat_eq_iff)

lemma padding_eq: "3536 \<le> length data \<Longrightarrow> bytes_at 3517 19 data = zeros (length (bytes_at 3517 19 data)) \<longleftrightarrow> take 19 (drop 3517 data) = zeros 19"
  by (simp add: bytes_at_def)

lemma package_validates:
  assumes p: "package_ok now skew p" and env: "arapp_memory env" and fits: "start + length (package_image p) \<le> UINT64_MAX"
  shows "alrios_arapp_v2_validate env (Some (start, package_image p)) (length (package_image p)) now skew True =
    (ALRIOS_ARAPP_V2_OK, Some (package_view p))"
proof -
  note arrays = p [unfolded package_ok_def, THEN conjunct1]
  note image = image_drop [OF arrays]
  have manifest: "take (length (pkg_manifest p)) (drop 3536 (package_image p)) = pkg_manifest p" by (simp add: image)
  have "0 < unat (load_u32_be (drop 44 (package_image p)))" using p manifest_size by (auto simp: image package_ok_def)
  then have "load_u32_be (drop 44 (package_image p)) \<noteq> 0" by (metis unat_0 less_irrefl)
  moreover have "package_view p = parsed_view (package_image p)" by (simp add: package_view_def parsed_view_def image limits)
  moreover have "unat (3536 :: u32) = 3536" by simp
  ultimately show ?thesis
    using p arrays fits manifest_ok_validates [OF _ env]
    unfolding validate_steps envelope_fields
    by (simp add: package_ok_def package_arrays_def image memeq_def limits bytes_at_def manifest)
qed

lemma validated_package:
  assumes "alrios_arapp_v2_validate env (Some (start, data)) (length data) now skew True = (ALRIOS_ARAPP_V2_OK, Some view)"
  shows "package_image (package_of data) = data" and "package_ok now skew (package_of data)" and "view = package_view (package_of data)"
proof -
  note steps = assms [unfolded validate_steps envelope_fields]
  have len: "length data = 3536 + unat (load_u32_be (drop 44 data)) + unat (load_u32_be (drop 48 data))"
    using steps by (simp add: limits)
  then have big: "3536 \<le> length data" by linarith
  have "load_u32_be (drop 40 data) = 3536" using steps unfolding header_size_eq by blast
  then have fixed: "take 16 data = arapp_v2_magic" "load_u16_be (drop 16 data) = 2" "load_u32_be (drop 40 data) = 3536"
    "take 19 (drop 3517 data) = zeros 19"
    using steps big by (simp_all add: memeq_def limits padding_eq)
  show "package_image (package_of data) = data" by (rule package_of_image [OF len fixed])
  have manifest: "manifest_ok (pkg_manifest (package_of data))"
    using steps fixed(3) by (intro validate_canonical_manifest_ok [of env]) (simp add: package_of_def Let_def bytes_at_def limits)
  have lens: "length (pkg_manifest (package_of data)) = unat (load_u32_be (drop 44 data))"
    "length (pkg_ciphertext (package_of data)) = unat (load_u32_be (drop 48 data))"
    unfolding package_of_def Let_def package.simps length_take length_drop len by simp_all
  have "package_arrays (package_of data)"
    using big lens manifest_size [OF manifest] unsigned_less [of "load_u32_be (drop 48 data)", where ?'a = nat]
    by (simp add: package_arrays_def package_of_def Let_def)
  then show "package_ok now skew (package_of data)"
    using manifest steps by (simp add: package_ok_def package_of_def Let_def)
  show "view = package_view (package_of data)"
    using steps fixed(3) lens by (simp add: parsed_view_def package_view_def limits) (simp add: package_of_def Let_def)
qed

section \<open>What the signatures cover\<close>

text \<open>Everything but the two signatures and the padding behind them.\<close>

definition signed_content :: "bytes \<Rightarrow> bytes" where
  "signed_content data = take 144 data @ drop 3536 data"

lemma tbs_digest_eq:
  "compute_tbs_digest env (Some data) (length data) =
     (if length data < 3536 then Inl ALRIOS_ARAPP_V2_SIG_ERR_ARGUMENT
      else case evp_sha512 env (signed_content data) of
        Some d \<Rightarrow> if length d = 64 then Inr d else Inl ALRIOS_ARAPP_V2_SIG_ERR_SIGN
      | None \<Rightarrow> Inl ALRIOS_ARAPP_V2_SIG_ERR_SIGN)"
  by (simp add: compute_tbs_digest_def signed_content_def limits split: option.split)

lemma verify_slot_ok:
  "verify_slot env check slot sig_size (Some data) (length data) (Some key) = ALRIOS_ARAPP_V2_SIG_OK \<longleftrightarrow>
     (\<exists>d. compute_tbs_digest env (Some data) (length data) = Inr d \<and> sig_ctx_ok env \<and> sig_init_ok env key \<and>
          check key (bytes_at slot sig_size data) d)"
  by (auto simp: verify_slot_def tbs_digest_eq limits split: option.split if_splits)

lemma sign_slot_ok:
  "sign_slot env sign_with slot sig_size (Some data) (length data) (Some key) = (ALRIOS_ARAPP_V2_SIG_OK, Some data') \<longleftrightarrow>
     (\<exists>d sig. compute_tbs_digest env (Some data) (length data) = Inr d \<and> sig_ctx_ok env \<and> sig_init_ok env key \<and>
          sign_with key d = Some sig \<and> length sig = sig_size \<and> data' = memwrite data slot sig)"
  by (auto simp: sign_slot_def tbs_digest_eq limits split: option.split if_splits)

text \<open>Writing a signature into its slot leaves the signed content and the other slot alone.\<close>

lemma write_slot:
  assumes "3536 \<le> length data" "144 \<le> slot" "slot + length sig \<le> 3536"
  shows "signed_content (memwrite data slot sig) = signed_content data"
    and "length (memwrite data slot sig) = length data"
    and "bytes_at slot (length sig) (memwrite data slot sig) = sig"
    and "off + n \<le> slot \<or> slot + length sig \<le> off \<Longrightarrow> bytes_at off n (memwrite data slot sig) = bytes_at off n data"
proof -
  show "length (memwrite data slot sig) = length data" using assms by simp
  show "signed_content (memwrite data slot sig) = signed_content data"
    using assms by (simp add: signed_content_def memwrite_def)
  show "bytes_at slot (length sig) (memwrite data slot sig) = sig" using assms by (simp add: bytes_at_def memwrite_def)
  show "bytes_at off n (memwrite data slot sig) = bytes_at off n data" if "off + n \<le> slot \<or> slot + length sig \<le> off"
    using that
  proof
    assume "off + n \<le> slot"
    then show ?thesis using assms by (simp add: bytes_at_def memwrite_def drop_take)
  next
    assume "slot + length sig \<le> off"
    then show ?thesis using assms by (simp add: bytes_at_def memwrite_def)
  qed
qed

text \<open>A pair of keys: what the private key signs the public key accepts.\<close>

definition key_pair :: "(bytes \<Rightarrow> bytes \<Rightarrow> bytes option) \<Rightarrow> (bytes \<Rightarrow> bytes \<Rightarrow> bytes \<Rightarrow> bool) \<Rightarrow> bytes \<Rightarrow> bytes \<Rightarrow> bool" where
  "key_pair sign_with check sk pk \<longleftrightarrow> (\<forall>d sig. sign_with sk d = Some sig \<longrightarrow> check pk sig d)"

lemma sign_slot_effect:
  assumes "sign_slot env sign_with slot sig_size (Some data) (length data) (Some key) = (ALRIOS_ARAPP_V2_SIG_OK, Some data')"
    and "144 \<le> slot" "slot + sig_size \<le> 3536"
  obtains d sig where "3536 \<le> length data" "compute_tbs_digest env (Some data) (length data) = Inr d"
    "sig_ctx_ok env" "sign_with key d = Some sig" "length sig = sig_size" "data' = memwrite data slot sig"
    "length data' = length data" "signed_content data' = signed_content data"
    "compute_tbs_digest env (Some data') (length data') = Inr d"
proof -
  obtain d sig where *: "compute_tbs_digest env (Some data) (length data) = Inr d" "sig_ctx_ok env"
      "sign_with key d = Some sig" "length sig = sig_size" "data' = memwrite data slot sig"
    using assms(1) unfolding sign_slot_ok by blast
  then have len: "3536 \<le> length data" by (simp add: tbs_digest_eq split: if_splits)
  have same: "length data' = length data" "signed_content data' = signed_content data"
    using write_slot(1,2) [OF len assms(2), of sig] assms(3) by (simp_all add: *(4,5))
  have "compute_tbs_digest env (Some data') (length data') = Inr d" using *(1) unfolding tbs_digest_eq unfolding same .
  then show thesis by (rule that [OF len * same])
qed

lemma hybrid_ok_iff:
  "alrios_arapp_v2_verify_hybrid env (Some data) (length data) ed_key ml_key True = ALRIOS_ARAPP_V2_SIG_OK \<longleftrightarrow>
     3536 \<le> length data \<and> have_ml_dsa_65 env \<and> sig_ctx_ok env \<and>
     (\<exists>ed ml d. ed_key = Some ed \<and> ml_key = Some ml \<and> sig_init_ok env ed \<and> sig_init_ok env ml \<and>
        evp_sha512 env (signed_content data) = Some d \<and> length d = 64 \<and>
        ed25519_check env ed (bytes_at 144 64 data) d \<and> ml_dsa_check env ml (bytes_at 208 3309 data) d)"
  by (cases ed_key; cases ml_key)
    (auto simp: alrios_arapp_v2_verify_hybrid_def alrios_arapp_v2_verify_ed25519_def alrios_arapp_v2_verify_ml_dsa_65_def
      verify_slot_ok tbs_digest_eq limits Let_def split: if_splits option.splits)

section \<open>Concrete packages\<close>

text \<open>A sovereign package with an empty manifest, and a key pair whose signatures repeat the key.\<close>

definition demo_package :: package where
  "demo_package =
     \<lparr>pkg_arch = 1, pkg_flags = 0x49, pkg_issued = 10, pkg_expires = 20, pkg_iv = zeros 12, pkg_tag = zeros 16, pkg_sha512 = zeros 64,
      pkg_ed25519 = zeros 64, pkg_ml_dsa = zeros 3309, pkg_manifest = [0x7b, 0x7d], pkg_ciphertext = [7]\<rparr>"

definition demo_arapp_env :: arapp_env where
  "demo_arapp_env = \<lparr>manifest_oom = no_oom, input_malloc_ok = True, canonical_malloc_ok = True, canonical_array = zeros 3\<rparr>"

definition demo_sig_env :: sig_env where
  "demo_sig_env =
     \<lparr>evp_sha512 = (\<lambda>m. Some (zeros 64)), ed25519_sign_with = (\<lambda>key d. Some (key @ zeros 63)), sig_ctx_ok = True,
      sig_init_ok = (\<lambda>key. True), ed25519_check = (\<lambda>key sig d. sig = key @ zeros 63), have_ml_dsa_65 = True,
      ml_dsa_sign_with = (\<lambda>key d. Some (key @ zeros 3308)), ml_dsa_check = (\<lambda>key sig d. sig = key @ zeros 3308)\<rparr>"

lemma demo_manifest_ok: "manifest_ok [0x7b, 0x7d]"
  unfolding manifest_ok_def by (intro exI [of _ "[]"]) (simp add: limits)

lemma demo_flags_ok: "flags_ok 0x49"
  unfolding valid_flags_eq [symmetric] by code_simp

lemma demo_package_ok: "package_ok 12 300 demo_package"
  by (simp add: package_ok_def demo_package_def package_arrays_def demo_manifest_ok demo_flags_ok limits)

lemma demo_package_fits: "length (package_image demo_package) = 3539"
  using image_drop(15) [of demo_package] demo_package_ok by (simp add: package_ok_def) (simp add: demo_package_def)

lemma demo_signing:
  defines "data \<equiv> package_image demo_package"
  defines "data1 \<equiv> memwrite data 144 ([1] @ zeros 63)"
  shows "alrios_arapp_v2_sign_ed25519 demo_sig_env (Some data) (length data) (Some [1]) = (ALRIOS_ARAPP_V2_SIG_OK, Some data1)"
    and "alrios_arapp_v2_sign_ml_dsa_65 demo_sig_env (Some data1) (length data1) (Some [2]) =
      (ALRIOS_ARAPP_V2_SIG_OK, Some (memwrite data1 208 ([2] @ zeros 3308)))"
proof -
  have len: "length data = 3539" "length data1 = 3539" using demo_package_fits by (simp_all add: data_def data1_def)
  then have "compute_tbs_digest demo_sig_env (Some data) (length data) = Inr (zeros 64)"
    "compute_tbs_digest demo_sig_env (Some data1) (length data1) = Inr (zeros 64)"
    unfolding tbs_digest_eq by (simp_all add: demo_sig_env_def)
  then show "alrios_arapp_v2_sign_ed25519 demo_sig_env (Some data) (length data) (Some [1]) = (ALRIOS_ARAPP_V2_SIG_OK, Some data1)"
    "alrios_arapp_v2_sign_ml_dsa_65 demo_sig_env (Some data1) (length data1) (Some [2]) =
      (ALRIOS_ARAPP_V2_SIG_OK, Some (memwrite data1 208 ([2] @ zeros 3308)))"
    unfolding alrios_arapp_v2_sign_ed25519_def alrios_arapp_v2_sign_ml_dsa_65_def
    by (simp_all add: sign_slot_ok limits) (simp_all add: demo_sig_env_def data1_def)
qed

lemma demo_key_pairs:
  "key_pair (ed25519_sign_with demo_sig_env) (ed25519_check demo_sig_env) [1] [1]"
  "key_pair (ml_dsa_sign_with demo_sig_env) (ml_dsa_check demo_sig_env) [2] [2]"
  by (simp_all add: key_pair_def demo_sig_env_def)

section \<open>Properties\<close>

text \<open>
  C30: What a valid package is. With memory at hand, validation accepts exactly the images of
  well-formed packages: fixed header, known architecture, one profile and one ring in an allowed
  combination, a validity window around the present, zero padding, and a manifest that is the
  canonical text of a JSON object; and the view it returns describes that package.
\<close>

theorem arapp_envelope_exact:
  assumes "arapp_memory env" and "start + length data \<le> UINT64_MAX"
  shows "alrios_arapp_v2_validate env (Some (start, data)) (length data) now skew True = (ALRIOS_ARAPP_V2_OK, Some view) \<longleftrightarrow>
    (\<exists>p. package_ok now skew p \<and> data = package_image p \<and> view = package_view p)"
  using package_validates [OF _ assms(1)] validated_package [of env start data now skew view] assms(2) by metis

theorem arapp_envelope_exact_witness:
  "arapp_memory demo_arapp_env \<and>
   alrios_arapp_v2_validate demo_arapp_env (Some (0, package_image demo_package)) (length (package_image demo_package)) 12 300 True =
     (ALRIOS_ARAPP_V2_OK, Some (package_view demo_package))"
proof -
  have memory: "arapp_memory demo_arapp_env" by (simp add: arapp_memory_def demo_arapp_env_def)
  moreover have "0 + length (package_image demo_package) \<le> UINT64_MAX" by (simp add: demo_package_fits limits)
  ultimately show ?thesis
    using arapp_envelope_exact [of demo_arapp_env 0 "package_image demo_package" 12 300 "package_view demo_package"] demo_package_ok
    by blast
qed


text \<open>
  C31: Signing and verifying fit together. After a package has been signed with the Ed25519 key and
  then with the ML-DSA-65 key, hybrid verification under the matching public keys succeeds, also
  when it insists on the post-quantum signature; and the two calls have changed nothing but the
  two signature slots.
\<close>

theorem hybrid_signing_verifies:
  assumes "key_pair (ed25519_sign_with env) (ed25519_check env) ed_private ed_public"
    and "key_pair (ml_dsa_sign_with env) (ml_dsa_check env) ml_private ml_public"
    and "alrios_arapp_v2_sign_ed25519 env (Some data) (length data) (Some ed_private) = (ALRIOS_ARAPP_V2_SIG_OK, Some data1)"
    and "alrios_arapp_v2_sign_ml_dsa_65 env (Some data1) (length data1) (Some ml_private) = (ALRIOS_ARAPP_V2_SIG_OK, Some data2)"
    and "sig_init_ok env ed_public" and "sig_init_ok env ml_public"
  shows "alrios_arapp_v2_verify_hybrid env (Some data2) (length data2) (Some ed_public) (Some ml_public) require_pqc =
      ALRIOS_ARAPP_V2_SIG_OK \<and>
    length data2 = length data \<and> take 144 data2 = take 144 data \<and> drop 3517 data2 = drop 3517 data"
proof -
  have ml: "have_ml_dsa_65 env" using assms(4) by (auto simp: alrios_arapp_v2_sign_ml_dsa_65_def split: if_splits)
  obtain d sig where ed: "3536 \<le> length data" "sig_ctx_ok env" "ed25519_sign_with env ed_private d = Some sig" "length sig = 64"
      "data1 = memwrite data 144 sig" "length data1 = length data" "compute_tbs_digest env (Some data1) (length data1) = Inr d"
    using assms(3) unfolding alrios_arapp_v2_sign_ed25519_def by (elim sign_slot_effect) (simp_all add: limits)
  obtain d' sig' where mlsig: "compute_tbs_digest env (Some data1) (length data1) = Inr d'"
      "ml_dsa_sign_with env ml_private d' = Some sig'" "length sig' = 3309" "data2 = memwrite data1 208 sig'"
      "length data2 = length data1" "compute_tbs_digest env (Some data2) (length data2) = Inr d'"
    using assms(4) ml unfolding alrios_arapp_v2_sign_ml_dsa_65_def by simp (elim sign_slot_effect, simp_all add: limits)
  have "bytes_at 144 64 data2 = sig" "bytes_at 208 3309 data2 = sig'"
    using ed mlsig write_slot [of data 144 sig] write_slot(3) [of data1 208 sig'] write_slot(4) [of data1 208 sig' 144 64] by simp_all
  moreover have "d' = d" using ed(7) mlsig(1) by simp
  ultimately have "ed25519_check env ed_public (bytes_at 144 64 data2) d" "ml_dsa_check env ml_public (bytes_at 208 3309 data2) d"
    using assms(1,2) ed(3) mlsig(2) by (simp_all add: key_pair_def)
  then have "alrios_arapp_v2_verify_ed25519 env (Some data2) (length data2) (Some ed_public) = ALRIOS_ARAPP_V2_SIG_OK"
    "alrios_arapp_v2_verify_ml_dsa_65 env (Some data2) (length data2) (Some ml_public) = ALRIOS_ARAPP_V2_SIG_OK"
    using assms(5,6) ed(2) mlsig(6) ml \<open>d' = d\<close>
    unfolding alrios_arapp_v2_verify_ed25519_def alrios_arapp_v2_verify_ml_dsa_65_def limits verify_slot_ok
    by (simp_all add: verify_slot_ok)
  then show ?thesis using ed mlsig
    by (simp add: alrios_arapp_v2_verify_hybrid_def limits memwrite_def)
qed

theorem hybrid_signing_verifies_witness:
  "let data = package_image demo_package;
       data1 = memwrite data 144 ([1] @ zeros 63);
       data2 = memwrite data1 208 ([2] @ zeros 3308)
   in alrios_arapp_v2_sign_ed25519 demo_sig_env (Some data) (length data) (Some [1]) = (ALRIOS_ARAPP_V2_SIG_OK, Some data1) \<and>
      alrios_arapp_v2_sign_ml_dsa_65 demo_sig_env (Some data1) (length data1) (Some [2]) = (ALRIOS_ARAPP_V2_SIG_OK, Some data2) \<and>
      alrios_arapp_v2_verify_hybrid demo_sig_env (Some data2) (length data2) (Some [1]) (Some [2]) True = ALRIOS_ARAPP_V2_SIG_OK"
proof -
  have "sig_init_ok demo_sig_env [1]" "sig_init_ok demo_sig_env [2]" by (simp_all add: demo_sig_env_def)
  from hybrid_signing_verifies [OF demo_key_pairs demo_signing this, of True] demo_signing
  show ?thesis unfolding Let_def by blast
qed

text \<open>
  What hybrid verification establishes. When the post-quantum signature is required, success
  means that the library has ML-DSA-65, both keys are there, and both signatures of the package
  are valid for the SHA-512 digest of everything but the signature area; nothing less is accepted.
\<close>

theorem hybrid_verification_exact:
  "alrios_arapp_v2_verify_hybrid env (Some data) (length data) ed_key ml_key True = ALRIOS_ARAPP_V2_SIG_OK \<longleftrightarrow>
     3536 \<le> length data \<and> have_ml_dsa_65 env \<and> sig_ctx_ok env \<and>
     (\<exists>ed ml d. ed_key = Some ed \<and> ml_key = Some ml \<and> sig_init_ok env ed \<and> sig_init_ok env ml \<and>
        evp_sha512 env (signed_content data) = Some d \<and> length d = 64 \<and>
        ed25519_check env ed (bytes_at 144 64 data) d \<and> ml_dsa_check env ml (bytes_at 208 3309 data) d)"
  by (rule hybrid_ok_iff)

end
