(* ===== verification/Profiles.thy ===== *)
theory Profiles
  imports CString
begin

text \<open>
  Node profiles: \<open>src/libraries/policy/profiles.c\<close>, with the capabilities of the cryptographic
  library, \<open>alrios_crypto_capabilities\<close> of \<open>src/libraries/crypto/utils.c\<close>. Whether the library
  was built with ML-DSA-65 and with ML-KEM-768 is a parameter. Enumerations are integers, as in C,
  so that values outside of them can be passed; a C string is the list of the bytes before its NUL.
\<close>

definition ALRIOS_CRYPTO_CAP_ED25519 :: u32 where
  "ALRIOS_CRYPTO_CAP_ED25519 = 1"
definition ALRIOS_CRYPTO_CAP_AES_256_GCM :: u32 where
  "ALRIOS_CRYPTO_CAP_AES_256_GCM = 2"
definition ALRIOS_CRYPTO_CAP_ML_DSA_65 :: u32 where
  "ALRIOS_CRYPTO_CAP_ML_DSA_65 = 4"
definition ALRIOS_CRYPTO_CAP_ML_KEM_768 :: u32 where
  "ALRIOS_CRYPTO_CAP_ML_KEM_768 = 8"

lemmas crypto_caps = ALRIOS_CRYPTO_CAP_ED25519_def ALRIOS_CRYPTO_CAP_AES_256_GCM_def
  ALRIOS_CRYPTO_CAP_ML_DSA_65_def ALRIOS_CRYPTO_CAP_ML_KEM_768_def

record crypto_build =
  built_ml_dsa_65 :: bool
  built_ml_kem_768 :: bool

definition alrios_crypto_capabilities :: "crypto_build \<Rightarrow> u32" where
  "alrios_crypto_capabilities build =
     (let capabilities = ALRIOS_CRYPTO_CAP_ED25519 OR ALRIOS_CRYPTO_CAP_AES_256_GCM;
          capabilities = (if built_ml_dsa_65 build then capabilities OR ALRIOS_CRYPTO_CAP_ML_DSA_65 else capabilities)
      in if built_ml_kem_768 build then capabilities OR ALRIOS_CRYPTO_CAP_ML_KEM_768 else capabilities)"

definition alrios_crypto_has_capability :: "crypto_build \<Rightarrow> u32 \<Rightarrow> bool" where
  "alrios_crypto_has_capability build capability \<longleftrightarrow> alrios_crypto_capabilities build AND capability = capability"

section \<open>Profiles\<close>

definition PROFILE_SOVEREIGN_MAX :: int where
  "PROFILE_SOVEREIGN_MAX = 1"
definition PROFILE_ENTERPRISE_BAL :: int where
  "PROFILE_ENTERPRISE_BAL = 2"
definition PROFILE_EDGE_PERF :: int where
  "PROFILE_EDGE_PERF = 3"

lemmas profile_codes = PROFILE_SOVEREIGN_MAX_def PROFILE_ENTERPRISE_BAL_def PROFILE_EDGE_PERF_def

record node_policy =
  profile :: int
  require_pqc :: int
  require_zero_disk :: int
  seccomp_strict :: int
  log_hashchain :: int
  guard_pages_enabled :: int
  net_timeout_sec :: int
  ipc_mode :: int
  envelope_crypto :: int
  sig_enforcement :: int
  exec_mode :: int
  isolation_mode :: int

definition zero_node_policy :: node_policy where
  "zero_node_policy =
     \<lparr>profile = 0, require_pqc = 0, require_zero_disk = 0, seccomp_strict = 0, log_hashchain = 0, guard_pages_enabled = 0,
      net_timeout_sec = 0, ipc_mode = 0, envelope_crypto = 0, sig_enforcement = 0, exec_mode = 0, isolation_mode = 0\<rparr>"

definition alrios_profile_init :: "crypto_build \<Rightarrow> node_policy option \<Rightarrow> int \<Rightarrow> int \<times> node_policy option" where
  "alrios_profile_init build pp choice =
     (case pp of
        None \<Rightarrow> (- 1, None)
      | Some p \<Rightarrow>
          if choice = PROFILE_SOVEREIGN_MAX
          then if \<not> alrios_crypto_has_capability build
                    (ALRIOS_CRYPTO_CAP_ED25519 OR ALRIOS_CRYPTO_CAP_AES_256_GCM OR ALRIOS_CRYPTO_CAP_ML_DSA_65)
               then (- 2, Some zero_node_policy)
               else (0, Some \<lparr>profile = choice, require_pqc = 1, require_zero_disk = 1, seccomp_strict = 1, log_hashchain = 1,
                      guard_pages_enabled = 1, net_timeout_sec = 5, ipc_mode = 1, envelope_crypto = 1, sig_enforcement = 1,
                      exec_mode = 1, isolation_mode = 1\<rparr>)
          else if choice = PROFILE_ENTERPRISE_BAL
          then (0, Some \<lparr>profile = choice, require_pqc = 0, require_zero_disk = 1, seccomp_strict = 0, log_hashchain = 0,
                  guard_pages_enabled = 1, net_timeout_sec = 15, ipc_mode = 2, envelope_crypto = 2, sig_enforcement = 2,
                  exec_mode = 2, isolation_mode = 2\<rparr>)
          else if choice = PROFILE_EDGE_PERF
          then (0, Some \<lparr>profile = choice, require_pqc = 0, require_zero_disk = 0, seccomp_strict = 0, log_hashchain = 0,
                  guard_pages_enabled = 0, net_timeout_sec = 0, ipc_mode = 3, envelope_crypto = 3, sig_enforcement = 3,
                  exec_mode = 3, isolation_mode = 3\<rparr>)
          else (- 1, Some (p\<lparr>profile := choice\<rparr>)))"

definition c_isspace :: "u8 \<Rightarrow> bool" where
  "c_isspace c \<longleftrightarrow> c = 0x20 \<or> 0x09 \<le> c \<and> c \<le> 0x0d"

definition strip_profile_prefix :: "bytes \<Rightarrow> bytes" where
  "strip_profile_prefix s =
     (if strncmp_eq s (ascii ''--profile='') 10 then drop 10 s
      else if strncmp_eq s (ascii ''alrios.profile='') 15 then drop 15 s
      else s)"

text \<open>The second answer is the new value of \<open>*out_profile\<close>, if it is written.\<close>

definition alrios_profile_parse :: "bytes option \<Rightarrow> bool \<Rightarrow> int \<times> int option" where
  "alrios_profile_parse name_or_flag out_profile =
     (case name_or_flag of
        None \<Rightarrow> (- 1, None)
      | Some name \<Rightarrow>
          if \<not> out_profile then (- 1, None)
          else
            let s = dropWhile c_isspace name
            in if s = [] then (- 1, None)
               else
                 let s = strip_profile_prefix s
                 in if s = ascii ''sovereign'' \<or> s = ascii ''SOVEREIGN'' \<or> s = ascii ''SOVEREIGN-MAX'' \<or>
                       s = ascii ''sovereign-max'' \<or> s = ascii ''1''
                    then (0, Some PROFILE_SOVEREIGN_MAX)
                    else if s = ascii ''enterprise'' \<or> s = ascii ''ENTERPRISE'' \<or> s = ascii ''ENTERPRISE-BALANCED'' \<or>
                       s = ascii ''enterprise-balanced'' \<or> s = ascii ''2''
                    then (0, Some PROFILE_ENTERPRISE_BAL)
                    else if s = ascii ''edge_performance'' \<or> s = ascii ''edge-performance'' \<or> s = ascii ''EDGE-PERFORMANCE'' \<or>
                       s = ascii ''edge'' \<or> s = ascii ''EDGE'' \<or> s = ascii ''performance'' \<or> s = ascii ''PERFORMANCE'' \<or>
                       s = ascii ''fast'' \<or> s = ascii ''FAST'' \<or> s = ascii ''3''
                    then (0, Some PROFILE_EDGE_PERF)
                    else (- 1, None))"

definition alrios_profile_name :: "int \<Rightarrow> bytes" where
  "alrios_profile_name p =
     (if p = PROFILE_SOVEREIGN_MAX then ascii ''SOVEREIGN-MAX''
      else if p = PROFILE_ENTERPRISE_BAL then ascii ''ENTERPRISE-BALANCED''
      else if p = PROFILE_EDGE_PERF then ascii ''EDGE-PERFORMANCE''
      else ascii ''UNKNOWN'')"

definition alrios_profile_validate_app_compat :: "node_policy option \<Rightarrow> u32 \<Rightarrow> int" where
  "alrios_profile_validate_app_compat nodep app_flags =
     (case nodep of
        None \<Rightarrow> - 1
      | Some node \<Rightarrow>
          if app_flags AND 1 \<noteq> 0 \<and> profile node \<noteq> PROFILE_SOVEREIGN_MAX then - 2
          else if app_flags AND 64 \<noteq> 0 \<and> require_pqc node = 0 then - 3
          else if app_flags AND 2 \<noteq> 0 \<and> profile node = PROFILE_EDGE_PERF then - 4
          else 0)"

definition alrios_profile_is_zero_disk :: "node_policy option \<Rightarrow> int" where
  "alrios_profile_is_zero_disk pp = (case pp of None \<Rightarrow> 0 | Some p \<Rightarrow> require_zero_disk p)"

definition alrios_profile_requires_pqc :: "node_policy option \<Rightarrow> int" where
  "alrios_profile_requires_pqc pp = (case pp of None \<Rightarrow> 0 | Some p \<Rightarrow> require_pqc p)"

definition alrios_profile_has_guard_pages :: "node_policy option \<Rightarrow> int" where
  "alrios_profile_has_guard_pages pp = (case pp of None \<Rightarrow> 0 | Some p \<Rightarrow> guard_pages_enabled p)"

definition alrios_profile_get_timeout :: "node_policy option \<Rightarrow> int" where
  "alrios_profile_get_timeout pp = (case pp of None \<Rightarrow> - 1 | Some p \<Rightarrow> net_timeout_sec p)"

section \<open>Laws\<close>

text \<open>The matrix a profile stands for.\<close>

definition canonical_policy :: "int \<Rightarrow> node_policy" where
  "canonical_policy p = the (snd (alrios_profile_init \<lparr>built_ml_dsa_65 = True, built_ml_kem_768 = True\<rparr> (Some zero_node_policy) p))"

lemma capability_iff:
  "alrios_crypto_has_capability build
     (ALRIOS_CRYPTO_CAP_ED25519 OR ALRIOS_CRYPTO_CAP_AES_256_GCM OR ALRIOS_CRYPTO_CAP_ML_DSA_65) \<longleftrightarrow> built_ml_dsa_65 build"
  by (simp add: alrios_crypto_has_capability_def alrios_crypto_capabilities_def crypto_caps Let_def)

definition profile_available :: "crypto_build \<Rightarrow> int \<Rightarrow> bool" where
  "profile_available build p \<longleftrightarrow> p = 1 \<and> built_ml_dsa_65 build \<or> p = 2 \<or> p = 3"

lemma profile_init_ok:
  "alrios_profile_init build (Some q) p = (0, n) \<longleftrightarrow> profile_available build p \<and> n = Some (canonical_policy p)"
  by (auto simp: alrios_profile_init_def canonical_policy_def profile_available_def capability_iff profile_codes)

lemma canonical_profile [simp]: "p \<in> {1, 2, 3} \<Longrightarrow> profile (canonical_policy p) = p"
  by (auto simp: canonical_policy_def alrios_profile_init_def capability_iff profile_codes)

text \<open>The words for a profile.\<close>

definition profile_words :: "int \<Rightarrow> bytes set" where
  "profile_words p =
     (if p = 1 then ascii ` {''sovereign'', ''SOVEREIGN'', ''SOVEREIGN-MAX'', ''sovereign-max'', ''1''}
      else if p = 2 then ascii ` {''enterprise'', ''ENTERPRISE'', ''ENTERPRISE-BALANCED'', ''enterprise-balanced'', ''2''}
      else if p = 3 then ascii ` {''edge_performance'', ''edge-performance'', ''EDGE-PERFORMANCE'', ''edge'', ''EDGE'',
        ''performance'', ''PERFORMANCE'', ''fast'', ''FAST'', ''3''}
      else {})"

definition profile_prefixes :: "bytes set" where
  "profile_prefixes = {[], ascii ''--profile='', ascii ''alrios.profile=''}"

lemma strncmp_prefix:
  assumes "length p = n" "0 \<notin> set p"
  shows "strncmp_eq s p n \<longleftrightarrow> take n s = p"
proof -
  have "takeWhile (\<lambda>c. c \<noteq> 0) (take n s) = p \<longleftrightarrow> take n s = p"
  proof
    assume *: "takeWhile (\<lambda>c. c \<noteq> 0) (take n s) = p"
    obtain rest where "take n s = p @ rest" using takeWhile_dropWhile_id [of "\<lambda>c. c \<noteq> 0" "take n s"] * by metis
    moreover from this have "length (p @ rest) \<le> n" by (metis length_take min.cobounded2)
    ultimately show "take n s = p" using assms(1) by simp
  qed (use assms in \<open>auto simp: takeWhile_eq_all_conv\<close>)
  then show ?thesis using assms by (simp add: strncmp_eq_def c_str_whole) (simp add: c_str_def)
qed

lemma word_facts:
  "list_all (\<lambda>w. strip_profile_prefix w = w \<and> strip_profile_prefix (ascii ''--profile='' @ w) = w \<and>
      strip_profile_prefix (ascii ''alrios.profile='' @ w) = w \<and> w \<noteq> [] \<and> \<not> c_isspace (hd w))
    (map ascii [''sovereign'', ''SOVEREIGN'', ''SOVEREIGN-MAX'', ''sovereign-max'', ''1'', ''enterprise'', ''ENTERPRISE'',
      ''ENTERPRISE-BALANCED'', ''enterprise-balanced'', ''2'', ''edge_performance'', ''edge-performance'', ''EDGE-PERFORMANCE'',
      ''edge'', ''EDGE'', ''performance'', ''PERFORMANCE'', ''fast'', ''FAST'', ''3''])"
  by code_simp

lemma word_stripped:
  assumes "w \<in> profile_words p" "pre \<in> profile_prefixes"
  shows "strip_profile_prefix (pre @ w) = w" and "pre @ w \<noteq> []" and "\<not> c_isspace (hd (pre @ w))"
proof -
  have heads: "\<not> c_isspace (hd (ascii ''--profile=''))" "\<not> c_isspace (hd (ascii ''alrios.profile=''))"
    "ascii ''--profile='' \<noteq> []" "ascii ''alrios.profile='' \<noteq> []" by code_simp+
  have "w \<in> set (map ascii [''sovereign'', ''SOVEREIGN'', ''SOVEREIGN-MAX'', ''sovereign-max'', ''1'', ''enterprise'', ''ENTERPRISE'',
      ''ENTERPRISE-BALANCED'', ''enterprise-balanced'', ''2'', ''edge_performance'', ''edge-performance'', ''EDGE-PERFORMANCE'',
      ''edge'', ''EDGE'', ''performance'', ''PERFORMANCE'', ''fast'', ''FAST'', ''3''])"
    using assms(1) unfolding profile_words_def by (auto split: if_splits)
  note bspec [OF word_facts [unfolded list_all_iff] this]
  then show "strip_profile_prefix (pre @ w) = w" "pre @ w \<noteq> []" "\<not> c_isspace (hd (pre @ w))"
    using assms(2) heads unfolding profile_prefixes_def by auto
qed

lemma stripped_prefix: "\<exists>pre \<in> profile_prefixes. s = pre @ strip_profile_prefix s"
proof -
  have "strncmp_eq s (ascii ''--profile='') 10 \<longleftrightarrow> take 10 s = ascii ''--profile=''"
    "strncmp_eq s (ascii ''alrios.profile='') 15 \<longleftrightarrow> take 15 s = ascii ''alrios.profile=''"
    by (rule strncmp_prefix; simp add: ascii_def)+
  then show ?thesis
    unfolding strip_profile_prefix_def profile_prefixes_def by (auto simp: append_eq_conv_conj) (metis append_take_drop_id)+
qed

text \<open>The parser by its words: after white space and a prefix there is one of the words of the profile.\<close>

lemma profile_parse_words:
  "alrios_profile_parse (Some s) True = (0, Some p) \<longleftrightarrow>
     dropWhile c_isspace s \<noteq> [] \<and> strip_profile_prefix (dropWhile c_isspace s) \<in> profile_words p"
proof -
  let ?w = "strip_profile_prefix (dropWhile c_isspace s)"
  have other: "?w \<in> profile_words 1 \<Longrightarrow> ?w \<notin> profile_words 2 \<and> ?w \<notin> profile_words 3"
    "?w \<in> profile_words 2 \<Longrightarrow> ?w \<notin> profile_words 3"
    by (auto simp: profile_words_def ascii_def)
  have "alrios_profile_parse (Some s) True =
      (if dropWhile c_isspace s = [] then (- 1, None)
       else if ?w \<in> profile_words 1 then (0, Some 1)
       else if ?w \<in> profile_words 2 then (0, Some 2)
       else if ?w \<in> profile_words 3 then (0, Some 3) else (- 1, None))"
    unfolding alrios_profile_parse_def Let_def profile_codes by (simp add: profile_words_def)
  moreover have "?w \<in> profile_words p \<Longrightarrow> p = 1 \<or> p = 2 \<or> p = 3" by (auto simp: profile_words_def split: if_splits)
  ultimately show ?thesis using other by auto
qed

section \<open>Properties\<close>

text \<open>
  The profile names. A string selects a profile exactly when it is white space, then possibly
  one of the two prefixes, then one of the words for that profile and nothing else.
\<close>

theorem profile_parse_language:
  "alrios_profile_parse (Some s) True = (0, Some p) \<longleftrightarrow>
     (\<exists>ws pre w. s = ws @ pre @ w \<and> list_all c_isspace ws \<and> pre \<in> profile_prefixes \<and> w \<in> profile_words p)"
proof
  assume "alrios_profile_parse (Some s) True = (0, Some p)"
  then have w: "strip_profile_prefix (dropWhile c_isspace s) \<in> profile_words p" unfolding profile_parse_words by simp
  obtain pre where pre: "pre \<in> profile_prefixes" "dropWhile c_isspace s = pre @ strip_profile_prefix (dropWhile c_isspace s)"
    using stripped_prefix by blast
  have "s = takeWhile c_isspace s @ pre @ strip_profile_prefix (dropWhile c_isspace s)"
    using takeWhile_dropWhile_id [of c_isspace s] pre(2) by metis
  moreover have "list_all c_isspace (takeWhile c_isspace s)" by (auto simp: list_all_iff dest: set_takeWhileD)
  ultimately show "\<exists>ws pre w. s = ws @ pre @ w \<and> list_all c_isspace ws \<and> pre \<in> profile_prefixes \<and> w \<in> profile_words p"
    using w pre(1) by blast
next
  assume "\<exists>ws pre w. s = ws @ pre @ w \<and> list_all c_isspace ws \<and> pre \<in> profile_prefixes \<and> w \<in> profile_words p"
  then obtain ws pre w where s: "s = ws @ pre @ w" "list_all c_isspace ws" "pre \<in> profile_prefixes" "w \<in> profile_words p" by blast
  note word = word_stripped [OF s(4,3)]
  have "dropWhile c_isspace s = dropWhile c_isspace (pre @ w)" using s(1,2) by (simp add: list_all_iff dropWhile_append2)
  also have "\<dots> = pre @ w" using word(2,3) by (cases "pre @ w") auto
  finally show "alrios_profile_parse (Some s) True = (0, Some p)" unfolding profile_parse_words using word s(4) by simp
qed

end
