(* ===== verification/SupervisorPolicy.thy ===== *)
theory SupervisorPolicy
  imports Profiles ArappV2 Certificate Issuer
begin

text \<open>
  The supervisor's launch policy, \<open>src/libraries/supervisor/policy.c\<close>: the profile sealed at start
  up, the trust configuration read from a directory, and the decision on a package, which brings
  together the envelope and its signatures (\<open>ArappV2\<close>), the certificates (\<open>Certificate\<close>, \<open>Issuer\<close>)
  and the profiles (\<open>Profiles\<close>).

  \<open>policy_env\<close> holds what the code gets from outside: how the library was built, the answers of
  the standard input functions for each path, the environment variable, memory, and OpenSSL. A key
  object is the raw key it was made from. The path separator is that of the POSIX build.
\<close>

datatype policy_status =
    ALRIOS_POLICY_OK
  | ALRIOS_POLICY_ERR_ARGUMENT
  | ALRIOS_POLICY_ERR_REJECTED
  | ALRIOS_POLICY_ERR_DOWNGRADE
  | ALRIOS_POLICY_ERR_CAPABILITY
  | ALRIOS_POLICY_ERR_SIGNATURE
  | ALRIOS_POLICY_ERR_CERTIFICATE
  | ALRIOS_POLICY_ERR_IMMUTABLE
  | ALRIOS_POLICY_ERR_STATE
  | ALRIOS_POLICY_ERR_MEMORY
  | ALRIOS_POLICY_ERR_IO
  | ALRIOS_POLICY_ERR_FORMAT

record app_requirements =
  container_flags :: u32
  required_capabilities :: u32
  app_require_pqc :: int
  package_signed :: int
  certificate_chain_valid :: int
  ed25519_signature_present :: int
  ed25519_signature_valid :: int
  ml_dsa_signature_present :: int
  ml_dsa_signature_valid :: int
  developer_mode_verified :: int

definition zero_requirements :: app_requirements where
  "zero_requirements =
     \<lparr>container_flags = 0, required_capabilities = 0, app_require_pqc = 0, package_signed = 0, certificate_chain_valid = 0,
      ed25519_signature_present = 0, ed25519_signature_valid = 0, ml_dsa_signature_present = 0, ml_dsa_signature_valid = 0,
      developer_mode_verified = 0\<rparr>"

record supervisor_policy =
  policy_magic :: u32
  policy_node :: node_policy
  policy_store :: trust_store
  root_certificate :: certificate
  leaf_certificate :: certificate
  intermediate_certificate :: certificate
  ed25519_public_key :: "bytes option"
  ml_dsa_public_key :: "bytes option"
  trust_level :: int
  trust_ready :: int
  policy_sealed :: int

definition ALRIOS_SUPERVISOR_POLICY_MAGIC :: u32 where
  "ALRIOS_SUPERVISOR_POLICY_MAGIC = 0x4152504c"
definition ALRIOS_POLICY_MAX_PACKAGE_SIZE :: nat where
  "ALRIOS_POLICY_MAX_PACKAGE_SIZE = 64 * 1024 * 1024"
definition legacy_magic :: bytes where
  "legacy_magic = ascii ''ALRIGROUP@APP''"

definition zero_policy :: supervisor_policy where
  "zero_policy =
     \<lparr>policy_magic = 0, policy_node = zero_node_policy, policy_store = zero_store, root_certificate = zero_certificate,
      leaf_certificate = zero_certificate, intermediate_certificate = zero_certificate, ed25519_public_key = None,
      ml_dsa_public_key = None, trust_level = 0, trust_ready = 0, policy_sealed = 0\<rparr>"

section \<open>The decision\<close>

definition is_boolean :: "int \<Rightarrow> bool" where
  "is_boolean value \<longleftrightarrow> value = 0 \<or> value = 1"

definition is_valid_profile :: "int \<Rightarrow> bool" where
  "is_valid_profile p \<longleftrightarrow> p = PROFILE_SOVEREIGN_MAX \<or> p = PROFILE_ENTERPRISE_BAL \<or> p = PROFILE_EDGE_PERF"

definition canonical_policy_matches :: "crypto_build \<Rightarrow> node_policy option \<Rightarrow> bool" where
  "canonical_policy_matches build policyp =
     (case policyp of
        None \<Rightarrow> False
      | Some policy \<Rightarrow>
          is_valid_profile (profile policy) \<and>
          (case alrios_profile_init build (Some zero_node_policy) (profile policy) of
             (status, expectedp) \<Rightarrow>
               status = 0 \<and>
               (let expected = the expectedp
                in require_pqc policy = require_pqc expected \<and> require_zero_disk policy = require_zero_disk expected \<and>
                   seccomp_strict policy = seccomp_strict expected \<and> log_hashchain policy = log_hashchain expected \<and>
                   guard_pages_enabled policy = guard_pages_enabled expected \<and>
                   net_timeout_sec policy = net_timeout_sec expected \<and> ipc_mode policy = ipc_mode expected \<and>
                   envelope_crypto policy = envelope_crypto expected \<and> sig_enforcement policy = sig_enforcement expected \<and>
                   exec_mode policy = exec_mode expected \<and> isolation_mode policy = isolation_mode expected)))"

definition validate_requirements :: "app_requirements option \<Rightarrow> policy_status" where
  "validate_requirements app_reqp =
     (case app_reqp of
        None \<Rightarrow> ALRIOS_POLICY_ERR_ARGUMENT
      | Some r \<Rightarrow>
          if container_flags r AND NOT FLAGS_MASK \<noteq> 0 \<or> \<not> is_boolean (app_require_pqc r) \<or> \<not> is_boolean (package_signed r) \<or>
             \<not> is_boolean (certificate_chain_valid r) \<or> \<not> is_boolean (ed25519_signature_present r) \<or>
             \<not> is_boolean (ed25519_signature_valid r) \<or> \<not> is_boolean (ml_dsa_signature_present r) \<or>
             \<not> is_boolean (ml_dsa_signature_valid r) \<or> \<not> is_boolean (developer_mode_verified r)
          then ALRIOS_POLICY_ERR_ARGUMENT
          else if ed25519_signature_valid r \<noteq> 0 \<and> ed25519_signature_present r = 0 \<or>
             ml_dsa_signature_valid r \<noteq> 0 \<and> ml_dsa_signature_present r = 0 \<or>
             certificate_chain_valid r \<noteq> 0 \<and> package_signed r = 0 \<or>
             package_signed r = 0 \<and> (ed25519_signature_present r \<noteq> 0 \<or> ml_dsa_signature_present r \<noteq> 0)
          then ALRIOS_POLICY_ERR_ARGUMENT
          else ALRIOS_POLICY_OK)"

text \<open>\<open>snprintf\<close> of a text into a buffer of the given size, and the eight digits of \<open>%08x\<close>.\<close>

definition snprintf_into :: "bytes option \<Rightarrow> nat \<Rightarrow> bytes \<Rightarrow> bytes option" where
  "snprintf_into bufp n msg =
     (case bufp of
        None \<Rightarrow> None
      | Some buf \<Rightarrow> if n = 0 then Some buf else Some (memwrite buf 0 (take (n - 1) msg @ [0])))"

definition hex8 :: "u32 \<Rightarrow> bytes" where
  "hex8 value = map (\<lambda>i. hex_char (ucast (drop_bit (4 * i) value AND 0xF))) [7, 6, 5, 4, 3, 2, 1, 0]"

definition check_capabilities :: "crypto_build \<Rightarrow> app_requirements \<Rightarrow> bytes option \<Rightarrow> nat \<Rightarrow> policy_status \<times> bytes option" where
  "check_capabilities build r bufp len =
     (let known_capabilities = ALRIOS_CRYPTO_CAP_ED25519 OR ALRIOS_CRYPTO_CAP_AES_256_GCM OR ALRIOS_CRYPTO_CAP_ML_DSA_65 OR
            ALRIOS_CRYPTO_CAP_ML_KEM_768;
          missing = (if required_capabilities r AND NOT known_capabilities \<noteq> 0
                     then required_capabilities r AND NOT known_capabilities
                     else required_capabilities r AND NOT (alrios_crypto_capabilities build))
      in if missing = 0 then (ALRIOS_POLICY_OK, bufp)
         else (ALRIOS_POLICY_ERR_CAPABILITY,
               snprintf_into bufp len (ascii ''missing hardware/crypto capabilities mask: 0x'' @ hex8 missing)))"

definition require_classical_signature :: "app_requirements \<Rightarrow> policy_status" where
  "require_classical_signature r =
     (if package_signed r = 0 \<or> ed25519_signature_present r = 0 \<or> ed25519_signature_valid r = 0 then ALRIOS_POLICY_ERR_SIGNATURE
      else if certificate_chain_valid r = 0 then ALRIOS_POLICY_ERR_CERTIFICATE
      else ALRIOS_POLICY_OK)"

definition require_hybrid_signature :: "app_requirements \<Rightarrow> policy_status" where
  "require_hybrid_signature r =
     (let result = require_classical_signature r
      in if result \<noteq> ALRIOS_POLICY_OK then result
         else if ml_dsa_signature_present r = 0 \<or> ml_dsa_signature_valid r = 0 \<or> container_flags r AND FLAG_PQC_HYBRID_SIG = 0
         then ALRIOS_POLICY_ERR_SIGNATURE
         else ALRIOS_POLICY_OK)"

text \<open>Writing the NUL that empties a buffer.\<close>

definition clear_text :: "bytes option \<Rightarrow> nat \<Rightarrow> bytes option" where
  "clear_text bufp len = (if len = 0 then bufp else map_option (\<lambda>buf. memwrite buf 0 [0]) bufp)"

definition wants_hybrid :: "app_requirements \<Rightarrow> bool" where
  "wants_hybrid r \<longleftrightarrow> app_require_pqc r \<noteq> 0 \<or> container_flags r AND FLAG_PQC_HYBRID_SIG \<noteq> 0"

definition decide_profile :: "int \<Rightarrow> app_requirements \<Rightarrow> policy_status" where
  "decide_profile p r =
     (let is_devmode = container_flags r AND FLAG_RING_DEVMODE \<noteq> 0
      in if p = PROFILE_SOVEREIGN_MAX
         then let result = require_hybrid_signature r
              in if result \<noteq> ALRIOS_POLICY_OK then result
                 else if is_devmode then ALRIOS_POLICY_ERR_REJECTED else ALRIOS_POLICY_OK
         else if p = PROFILE_ENTERPRISE_BAL
         then if package_signed r \<noteq> 0
              then let result = require_classical_signature r
                   in if result \<noteq> ALRIOS_POLICY_OK then result
                      else if wants_hybrid r then require_hybrid_signature r else ALRIOS_POLICY_OK
              else if is_devmode
              then (if developer_mode_verified r \<noteq> 0 then ALRIOS_POLICY_OK else ALRIOS_POLICY_ERR_REJECTED)
              else ALRIOS_POLICY_ERR_SIGNATURE
         else if is_devmode \<and> developer_mode_verified r = 0 then ALRIOS_POLICY_ERR_REJECTED
         else if package_signed r \<noteq> 0
         then let result = require_classical_signature r
              in if result \<noteq> ALRIOS_POLICY_OK then result
                 else if wants_hybrid r then require_hybrid_signature r else ALRIOS_POLICY_OK
         else ALRIOS_POLICY_OK)"

definition alrios_supervisor_evaluate_policy ::
  "crypto_build \<Rightarrow> node_policy option \<Rightarrow> app_requirements option \<Rightarrow> bytes option \<Rightarrow> nat \<Rightarrow> policy_status \<times> bytes option" where
  "alrios_supervisor_evaluate_policy build nodep app_reqp missing_caps_buf missing_caps_len =
     (let bufp = clear_text missing_caps_buf missing_caps_len
      in if nodep = None \<or> validate_requirements app_reqp \<noteq> ALRIOS_POLICY_OK then (ALRIOS_POLICY_ERR_ARGUMENT, bufp)
         else if \<not> canonical_policy_matches build nodep then (ALRIOS_POLICY_ERR_STATE, bufp)
         else (case check_capabilities build (the app_reqp) bufp missing_caps_len of
            (result, bufp) \<Rightarrow>
              if result \<noteq> ALRIOS_POLICY_OK then (result, bufp)
              else (decide_profile (profile (the nodep)) (the app_reqp), bufp)))"

section \<open>Reading files\<close>

text \<open>
  The answers of the standard input functions for one path: \<open>fopen\<close>, the two \<open>fseek\<close>, \<open>ftell\<close>,
  \<open>malloc\<close>, the bytes \<open>fread\<close> can deliver, and \<open>fclose\<close>.
\<close>

record stdio_file =
  fopen_ok :: bool
  seek_end_ok :: bool
  ftell_length :: int
  seek_set_ok :: bool
  file_malloc_ok :: bool
  fread_bytes :: bytes
  fclose_ok :: bool

record policy_env =
  env_build :: crypto_build
  env_file :: "bytes \<Rightarrow> stdio_file"
  env_trust_level :: "bytes option"
  policy_calloc_ok :: bool
  env_key_ed25519 :: "bytes \<Rightarrow> bytes option"
  env_key_ml_dsa :: "bytes \<Rightarrow> bytes option"
  env_sig :: sig_env
  env_arapp :: arapp_env
  env_verify :: verify_env

definition read_bounded_file :: "policy_env \<Rightarrow> bytes option \<Rightarrow> nat \<Rightarrow> policy_status + bytes" where
  "read_bounded_file env pathp max_size =
     (case pathp of
        None \<Rightarrow> Inl ALRIOS_POLICY_ERR_ARGUMENT
      | Some path \<Rightarrow>
          let file = env_file env path; len = ftell_length file
          in if \<not> fopen_ok file then Inl ALRIOS_POLICY_ERR_IO
             else if \<not> seek_end_ok file \<or> len \<le> 0 \<or> max_size < nat len \<or> \<not> seek_set_ok file then Inl ALRIOS_POLICY_ERR_IO
             else if \<not> file_malloc_ok file then Inl ALRIOS_POLICY_ERR_MEMORY
             else
               let data = take (nat len) (fread_bytes file)
               in if length data \<noteq> nat len \<or> \<not> fclose_ok file then Inl ALRIOS_POLICY_ERR_IO
                  else Inr data)"

text \<open>The certificate structure of the policy lies apart from the block that was read.\<close>

definition load_certificate_file :: "policy_env \<Rightarrow> bytes \<Rightarrow> certificate \<Rightarrow> policy_status \<times> certificate" where
  "load_certificate_file env path certificate =
     (case read_bounded_file env (Some path) CERT_WIRE_MAX of
        Inl status \<Rightarrow> (status, certificate)
      | Inr wire \<Rightarrow>
          (case alrios_certificate_decode (Some (CERT_WIRE_MAX + SIZEOF_CERTIFICATE, wire)) (length wire) (Some 1) of
             (status, decodedp) \<Rightarrow>
               (if status = ALRIOS_CERTIFICATE_OK then ALRIOS_POLICY_OK else ALRIOS_POLICY_ERR_CERTIFICATE, the decodedp)))"

definition make_trust_path :: "nat \<Rightarrow> bytes \<Rightarrow> bytes \<Rightarrow> policy_status + bytes" where
  "make_trust_path capacity directory name =
     (if capacity = 0 \<or> directory = [] then Inl ALRIOS_POLICY_ERR_ARGUMENT
      else
        let path = directory @ ascii ''/'' @ name
        in if length path < capacity then Inr path else Inl ALRIOS_POLICY_ERR_ARGUMENT)"

section \<open>The trust configuration\<close>

text \<open>
  The root certificate is loaded and becomes the only anchor of a sealed store. On an error the
  policy keeps what was stored in it so far.
\<close>

definition load_root :: "policy_env \<Rightarrow> bytes \<Rightarrow> supervisor_policy \<Rightarrow> policy_status \<times> supervisor_policy" where
  "load_root env root_path policy =
     (case load_certificate_file env root_path (root_certificate policy) of
        (status, root) \<Rightarrow>
          let policy = policy\<lparr>root_certificate := root\<rparr>
          in if status \<noteq> ALRIOS_POLICY_OK then (status, policy)
             else (case alrios_trust_store_add_anchor (Some zero_store) (Some root) of
                (status, store) \<Rightarrow>
                  if status \<noteq> ALRIOS_CERTIFICATE_OK then (ALRIOS_POLICY_ERR_CERTIFICATE, policy\<lparr>policy_store := zero_store\<rparr>)
                  else (case alrios_trust_store_seal store of
                     (status, store) \<Rightarrow>
                       if status \<noteq> ALRIOS_CERTIFICATE_OK
                       then (ALRIOS_POLICY_ERR_CERTIFICATE, policy\<lparr>policy_store := zero_store\<rparr>)
                       else (ALRIOS_POLICY_OK, policy\<lparr>policy_store := the store\<rparr>))))"

text \<open>Loading a certificate that may be missing: whether it is there, and the structure afterwards.\<close>

definition load_optional :: "policy_env \<Rightarrow> bytes \<Rightarrow> bytes \<Rightarrow> certificate \<Rightarrow> bool \<times> certificate" where
  "load_optional env trust_directory name certificate =
     (case make_trust_path 1024 trust_directory name of
        Inl _ \<Rightarrow> (False, certificate)
      | Inr path \<Rightarrow>
          (case load_certificate_file env path certificate of (status, c) \<Rightarrow> (status = ALRIOS_POLICY_OK, c)))"

definition choose_trust_level :: "bytes option \<Rightarrow> bool \<Rightarrow> bool \<Rightarrow> int" where
  "choose_trust_level configured_level has_inter has_leaf =
     (case configured_level of
        Some level \<Rightarrow>
          if level = ascii ''root'' then 1 else if level = ascii ''intermediate'' then 2
          else if level = ascii ''leaf'' then 3 else 3
      | None \<Rightarrow> if has_leaf \<and> has_inter then 3 else if has_inter then 2 else 1)"

text \<open>The key of the certificate that signs packages at the chosen level.\<close>

definition signer_key :: "policy_env \<Rightarrow> bool \<Rightarrow> certificate \<Rightarrow> bytes option" where
  "signer_key env present c =
     (if \<not> present \<or> public_key_algorithm c \<noteq> 1 \<or> public_key_len c \<noteq> 32 then None
      else env_key_ed25519 env (take (public_key_len c) (public_key c)))"

definition load_ml_dsa_key :: "policy_env \<Rightarrow> bytes \<Rightarrow> supervisor_policy \<Rightarrow> policy_status \<times> supervisor_policy" where
  "load_ml_dsa_key env trust_directory policy =
     (case make_trust_path 1024 trust_directory (ascii ''ml-dsa-65.pub'') of
        Inl _ \<Rightarrow> (ALRIOS_POLICY_ERR_ARGUMENT, policy)
      | Inr path \<Rightarrow>
          (case read_bounded_file env (Some path) 1952 of
             Inr wire \<Rightarrow>
               if length wire \<noteq> 1952 then (ALRIOS_POLICY_ERR_CERTIFICATE, policy)
               else
                 let policy = policy\<lparr>ml_dsa_public_key := env_key_ml_dsa env wire\<rparr>
                 in if ml_dsa_public_key policy = None then (ALRIOS_POLICY_ERR_CERTIFICATE, policy)
                    else (ALRIOS_POLICY_OK, policy\<lparr>trust_ready := 1\<rparr>)
           | Inl result \<Rightarrow>
               if profile (policy_node policy) = PROFILE_SOVEREIGN_MAX then (result, policy)
               else (ALRIOS_POLICY_OK, policy\<lparr>trust_ready := 1\<rparr>)))"

definition load_trust_configuration ::
  "policy_env \<Rightarrow> supervisor_policy \<Rightarrow> bytes option \<Rightarrow> policy_status \<times> supervisor_policy" where
  "load_trust_configuration env policy trust_directoryp =
     (case trust_directoryp of
        None \<Rightarrow> (ALRIOS_POLICY_ERR_ARGUMENT, policy)
      | Some trust_directory \<Rightarrow>
          (case make_trust_path 1024 trust_directory (ascii ''root.cert'') of
             Inl _ \<Rightarrow> (ALRIOS_POLICY_ERR_ARGUMENT, policy)
           | Inr root_path \<Rightarrow>
               (case load_root env root_path policy of
                  (status, policy) \<Rightarrow>
                    if status \<noteq> ALRIOS_POLICY_OK then (status, policy)
                    else (case load_optional env trust_directory (ascii ''intermediate.cert'') (intermediate_certificate policy) of
                       (has_inter, inter_cert) \<Rightarrow>
                         (case load_optional env trust_directory (ascii ''leaf.cert'') (leaf_certificate policy) of
                            (has_leaf, leaf_cert) \<Rightarrow>
                              let level = choose_trust_level (env_trust_level env) has_inter has_leaf;
                                  key = (if level = 1 then signer_key env True (root_certificate policy)
                                         else if level = 2 then signer_key env has_inter inter_cert
                                         else signer_key env (has_inter \<and> has_leaf) leaf_cert);
                                  policy = policy\<lparr>intermediate_certificate := inter_cert, leaf_certificate := leaf_cert,
                                    trust_level := level, ed25519_public_key := key\<rparr>
                              in if key = None then (ALRIOS_POLICY_ERR_CERTIFICATE, policy)
                                 else load_ml_dsa_key env trust_directory policy)))))"

section \<open>Start up and the sealed profile\<close>

definition alrios_supervisor_policy_startup ::
  "policy_env \<Rightarrow> bool \<Rightarrow> int \<Rightarrow> policy_status \<times> supervisor_policy option" where
  "alrios_supervisor_policy_startup env out_policy p =
     (if \<not> out_policy then (ALRIOS_POLICY_ERR_ARGUMENT, None)
      else if \<not> is_valid_profile p then (ALRIOS_POLICY_ERR_ARGUMENT, None)
      else if \<not> policy_calloc_ok env then (ALRIOS_POLICY_ERR_MEMORY, None)
      else (case alrios_profile_init (env_build env) (Some zero_node_policy) p of
         (result, node) \<Rightarrow>
           if result \<noteq> 0
           then (if result = - 2 then ALRIOS_POLICY_ERR_CAPABILITY else ALRIOS_POLICY_ERR_ARGUMENT, None)
           else (ALRIOS_POLICY_OK,
                 Some (zero_policy\<lparr>policy_node := the node, policy_magic := ALRIOS_SUPERVISOR_POLICY_MAGIC, policy_sealed := 1\<rparr>))))"

text \<open>
  The caller's pointer must not be null: it is written without a test. When start up or the trust
  configuration fails, the pointer is left as it was, which is the second answer \<^const>\<open>None\<close>.
\<close>

definition alrios_supervisor_policy_startup_with_trust ::
  "policy_env \<Rightarrow> int \<Rightarrow> bytes option \<Rightarrow> policy_status \<times> supervisor_policy option" where
  "alrios_supervisor_policy_startup_with_trust env p trust_directory =
     (case alrios_supervisor_policy_startup env True p of
        (result, policyp) \<Rightarrow>
          if result \<noteq> ALRIOS_POLICY_OK then (result, None)
          else (case load_trust_configuration env (the policyp) trust_directory of
             (result, policy) \<Rightarrow>
               if result \<noteq> ALRIOS_POLICY_OK
               then (if p = PROFILE_EDGE_PERF then (ALRIOS_POLICY_OK, Some policy) else (result, None))
               else (ALRIOS_POLICY_OK, Some policy)))"

definition alrios_supervisor_policy_shutdown :: "supervisor_policy option \<Rightarrow> supervisor_policy option" where
  "alrios_supervisor_policy_shutdown policyp = map_option (\<lambda>_. zero_policy) policyp"

definition alrios_supervisor_policy_set_profile ::
  "supervisor_policy option \<Rightarrow> int \<Rightarrow> policy_status \<times> supervisor_policy option" where
  "alrios_supervisor_policy_set_profile policyp p =
     (case policyp of
        None \<Rightarrow> (ALRIOS_POLICY_ERR_ARGUMENT, policyp)
      | Some policy \<Rightarrow>
          if policy_magic policy \<noteq> ALRIOS_SUPERVISOR_POLICY_MAGIC \<or> \<not> is_valid_profile p then (ALRIOS_POLICY_ERR_ARGUMENT, policyp)
          else if policy_sealed policy \<noteq> 0
          then (if p = profile (policy_node policy) then ALRIOS_POLICY_ERR_IMMUTABLE else ALRIOS_POLICY_ERR_DOWNGRADE, policyp)
          else (ALRIOS_POLICY_ERR_STATE, policyp))"

definition alrios_supervisor_policy_get_profile ::
  "policy_env \<Rightarrow> supervisor_policy option \<Rightarrow> bool \<Rightarrow> policy_status \<times> int option" where
  "alrios_supervisor_policy_get_profile env policyp out_profile =
     (case policyp of
        None \<Rightarrow> (ALRIOS_POLICY_ERR_STATE, None)
      | Some policy \<Rightarrow>
          if \<not> out_profile \<or> policy_magic policy \<noteq> ALRIOS_SUPERVISOR_POLICY_MAGIC \<or> policy_sealed policy = 0 \<or>
             \<not> canonical_policy_matches (env_build env) (Some (policy_node policy))
          then (ALRIOS_POLICY_ERR_STATE, None)
          else (ALRIOS_POLICY_OK, Some (profile (policy_node policy))))"

section \<open>Packages\<close>

definition alrios_supervisor_policy_evaluate_launch ::
  "policy_env \<Rightarrow> supervisor_policy option \<Rightarrow> app_requirements option \<Rightarrow> bytes option \<Rightarrow> nat \<Rightarrow>
   policy_status \<times> bytes option" where
  "alrios_supervisor_policy_evaluate_launch env policyp app_reqp bufp len =
     (case policyp of
        None \<Rightarrow> (ALRIOS_POLICY_ERR_STATE, bufp)
      | Some policy \<Rightarrow>
          if policy_magic policy \<noteq> ALRIOS_SUPERVISOR_POLICY_MAGIC \<or> policy_sealed policy = 0
          then (ALRIOS_POLICY_ERR_STATE, bufp)
          else alrios_supervisor_evaluate_policy (env_build env) (Some (policy_node policy)) app_reqp bufp len)"

definition chain_valid :: "policy_env \<Rightarrow> supervisor_policy \<Rightarrow> u64 \<Rightarrow> bool" where
  "chain_valid env policy now =
     (if trust_level policy = 1 then True
      else if trust_level policy = 2
      then (case alrios_trust_store_lookup (Some (policy_store policy))
                   (Some (issuer_key_id (intermediate_certificate policy))) True of
              (status, root_anchor) \<Rightarrow> status = ALRIOS_CERTIFICATE_OK \<and> root_anchor \<noteq> None)
      else alrios_pki_verify_chain (env_verify env) (Some (policy_store policy)) (Some (leaf_certificate policy))
             (Some (intermediate_certificate policy)) now = ALRIOS_ISSUER_OK)"

text \<open>The requirements of a version 2 package, from its view and the outcome of the checks.\<close>

definition package_requirements ::
  "policy_env \<Rightarrow> supervisor_policy \<Rightarrow> bytes \<Rightarrow> arapp_view \<Rightarrow> u64 \<Rightarrow> app_requirements" where
  "package_requirements env policy data view now =
     (let pqc = view_flags view AND FLAG_PQC_HYBRID_SIG \<noteq> 0;
          ed_present = \<not> bytes_all_zero (bytes_at (the (ed25519_signature view)) ARAPP_V2_ED25519_SIGNATURE_SIZE data);
          ml_present = \<not> bytes_all_zero (bytes_at (the (ml_dsa_65_signature view)) ARAPP_V2_ML_DSA_65_SIGNATURE_SIZE data);
          ed_valid = (ed_present \<and> trust_ready policy \<noteq> 0 \<and> ed25519_public_key policy \<noteq> None \<and>
            alrios_arapp_v2_verify_ed25519 (env_sig env) (Some data) (length data) (ed25519_public_key policy) =
              ALRIOS_ARAPP_V2_SIG_OK);
          ml_valid = (ml_present \<and> ml_dsa_public_key policy \<noteq> None \<and>
            alrios_arapp_v2_verify_ml_dsa_65 (env_sig env) (Some data) (length data) (ml_dsa_public_key policy) =
              ALRIOS_ARAPP_V2_SIG_OK)
      in \<lparr>container_flags = view_flags view,
          required_capabilities =
            (if pqc then ALRIOS_CRYPTO_CAP_ED25519 OR ALRIOS_CRYPTO_CAP_ML_DSA_65 else ALRIOS_CRYPTO_CAP_ED25519),
          app_require_pqc = of_bool pqc, package_signed = of_bool ed_present,
          certificate_chain_valid = of_bool (ed_valid \<and> chain_valid env policy now),
          ed25519_signature_present = of_bool ed_present, ed25519_signature_valid = of_bool ed_valid,
          ml_dsa_signature_present = of_bool ml_present, ml_dsa_signature_valid = of_bool ml_valid,
          developer_mode_verified =
            of_bool (view_flags view AND FLAG_RING_DEVMODE \<noteq> 0 \<and> profile (policy_node policy) \<noteq> PROFILE_SOVEREIGN_MAX \<and>
                     \<not> ed_present \<and> \<not> ml_present)\<rparr>)"

text \<open>The block a package is read into does not reach the end of the address space; its address is taken to be 1.\<close>

definition alrios_supervisor_policy_evaluate_package ::
  "policy_env \<Rightarrow> supervisor_policy option \<Rightarrow> bytes option \<Rightarrow> u64 \<Rightarrow> bytes option \<Rightarrow> nat \<Rightarrow> policy_status \<times> bytes option" where
  "alrios_supervisor_policy_evaluate_package env policyp package_path now reason_buf reason_len =
     (let bufp = clear_text reason_buf reason_len
      in case (policyp, package_path) of
           (Some policy, Some path) \<Rightarrow>
             if policy_magic policy \<noteq> ALRIOS_SUPERVISOR_POLICY_MAGIC \<or> policy_sealed policy = 0
             then (ALRIOS_POLICY_ERR_STATE, bufp)
             else (case read_bounded_file env package_path ALRIOS_POLICY_MAX_PACKAGE_SIZE of
                Inl result \<Rightarrow> (result, snprintf_into bufp reason_len (ascii ''package read failed''))
              | Inr data \<Rightarrow>
                  if 13 \<le> length data \<and> memeq data legacy_magic 13 \<and> (length data < 16 \<or> \<not> memeq data arapp_v2_magic 16)
                  then
                    let requirements = zero_requirements\<lparr>container_flags := FLAG_RING_DEVMODE,
                          developer_mode_verified := of_bool (profile (policy_node policy) \<noteq> PROFILE_SOVEREIGN_MAX)\<rparr>
                    in (case alrios_supervisor_policy_evaluate_launch env policyp (Some requirements) bufp reason_len of
                          (result, bufp) \<Rightarrow>
                            (result, if result \<noteq> ALRIOS_POLICY_OK
                               then snprintf_into bufp reason_len (ascii ''legacy unsigned package rejected by profile'') else bufp))
                  else (case alrios_arapp_v2_validate (env_arapp env) (Some (1, data)) (length data) now
                               ARAPP_V2_MAX_CLOCK_SKEW_SECONDS True of
                     (status, viewp) \<Rightarrow>
                       if status \<noteq> ALRIOS_ARAPP_V2_OK
                       then (ALRIOS_POLICY_ERR_FORMAT, snprintf_into bufp reason_len (ascii ''invalid arapp v2 envelope''))
                       else
                         (case alrios_supervisor_policy_evaluate_launch env policyp
                                 (Some (package_requirements env policy data (the viewp) now)) bufp reason_len of
                            (result, bufp) \<Rightarrow>
                              (result,
                               if result \<noteq> ALRIOS_POLICY_OK \<and> (bufp = None \<or> reason_len = 0 \<or> the bufp ! 0 = 0)
                               then snprintf_into bufp reason_len (ascii ''package rejected by node profile'') else bufp))))
         | _ \<Rightarrow> (ALRIOS_POLICY_ERR_STATE, bufp))"

end
