(* ===== verification/SupervisorPolicySpec.thy ===== *)
theory SupervisorPolicySpec
  imports SupervisorPolicy ArappV2Spec IssuerSpec
begin

text \<open>
  What start up establishes, when a package may be launched, and what the decision rests on.
\<close>

section \<open>Loading certificates\<close>

lemma read_bounded_not_ok: "read_bounded_file env pathp n \<noteq> Inl ALRIOS_POLICY_OK"
  by (auto simp: read_bounded_file_def Let_def split: option.split)

lemma read_bounded_size: "read_bounded_file env (Some path) n = Inr data \<Longrightarrow> length data \<le> n"
  by (auto simp: read_bounded_file_def Let_def split: if_splits)

lemma decode_body_iff: "decode_body wire (length wire) = Inr c \<longleftrightarrow> cert_ok c \<and> wire = cert_wire c"
  using decode_body_complete [of c] decode_body_sound [of wire c] by (auto simp: cert_ok_def)

lemma loaded_certificate:
  "load_certificate_file env path c0 = (ALRIOS_POLICY_OK, c) \<longleftrightarrow>
     cert_ok c \<and> read_bounded_file env (Some path) CERT_WIRE_MAX = Inr (cert_wire c)"
proof (cases "read_bounded_file env (Some path) CERT_WIRE_MAX")
  case (Inl status)
  then show ?thesis using read_bounded_not_ok [of env "Some path" CERT_WIRE_MAX] by (auto simp: load_certificate_file_def)
next
  case (Inr wire)
  then have "\<not> ranges_overlap (CERT_WIRE_MAX + SIZEOF_CERTIFICATE) (length wire) 1 SIZEOF_CERTIFICATE"
    using read_bounded_size [OF Inr] by (auto simp: ranges_overlap_def limits)
  then have "load_certificate_file env path c0 = (ALRIOS_POLICY_OK, c) \<longleftrightarrow> decode_body wire (length wire) = Inr c"
    using decode_body_not_ok [of wire "length wire"]
    by (auto simp: load_certificate_file_def alrios_certificate_decode_def Inr split: sum.splits)
  then show ?thesis using Inr by (auto simp: decode_body_iff)
qed

lemma root_loaded:
  assumes "load_root env path policy = (ALRIOS_POLICY_OK, policy')"
  obtains root store where "cert_ok root" "role root = ROLE_ROOT" "store_ok store" "store_sealed store = 1" "store_anchors store = [root]"
    "policy' = policy\<lparr>root_certificate := root, policy_store := store\<rparr>"
proof -
  obtain root where root: "load_certificate_file env path (root_certificate policy) = (ALRIOS_POLICY_OK, root)"
    using assms by (auto simp: load_root_def Let_def split: prod.splits if_splits)
  then have ok: "cert_ok root" unfolding loaded_certificate by blast
  have role: "role root = ROLE_ROOT"
  proof -
    have "fst (alrios_trust_store_add_anchor (Some zero_store) (Some root)) = ALRIOS_CERTIFICATE_OK"
      using assms root by (auto simp: load_root_def Let_def split: prod.splits if_splits)
    then show ?thesis
      using add_anchor_cases [OF zero_store_ok, of root] ok by (cases "alrios_trust_store_add_anchor (Some zero_store) (Some root)")
        (auto simp: cert_ok_def)
  qed
  obtain st1 store where st: "alrios_trust_store_add_anchor (Some zero_store) (Some root) = (ALRIOS_CERTIFICATE_OK, Some st1)"
      "alrios_trust_store_seal (Some st1) = (ALRIOS_CERTIFICATE_OK, Some store)" "store_ok store" "store_sealed store = 1"
      "store_anchors store = [root]"
    using anchored_root [OF ok role] by blast
  have "policy' = policy\<lparr>root_certificate := root, policy_store := store\<rparr>"
    using assms root st by (simp add: load_root_def Let_def)
  with ok role st(3-5) show thesis by (rule that)
qed

lemma optional_loaded: "load_optional env dir name c0 = (True, c) \<Longrightarrow> cert_ok c"
  by (auto simp: load_optional_def loaded_certificate split: sum.splits prod.splits)

section \<open>What start up establishes\<close>

text \<open>The certificate whose key signs packages at the configured level.\<close>

definition package_signer :: "supervisor_policy \<Rightarrow> certificate" where
  "package_signer policy =
     (if trust_level policy = 1 then root_certificate policy
      else if trust_level policy = 2 then intermediate_certificate policy else leaf_certificate policy)"

text \<open>A complete trust configuration.\<close>

definition trust_ok :: "policy_env \<Rightarrow> supervisor_policy \<Rightarrow> bool" where
  "trust_ok env policy \<longleftrightarrow>
     store_ok (policy_store policy) \<and> store_sealed (policy_store policy) = 1 \<and>
     store_anchors (policy_store policy) = [root_certificate policy] \<and>
     trust_level policy \<in> {1, 2, 3} \<and>
     (trust_level policy \<noteq> 1 \<longrightarrow> cert_ok (intermediate_certificate policy)) \<and>
     (trust_level policy = 3 \<longrightarrow> cert_ok (leaf_certificate policy)) \<and>
     public_key_algorithm (package_signer policy) = 1 \<and>
     ed25519_public_key policy = env_key_ed25519 env (subject_key (package_signer policy)) \<and>
     ed25519_public_key policy \<noteq> None"

definition sealed_with :: "policy_env \<Rightarrow> int \<Rightarrow> supervisor_policy \<Rightarrow> bool" where
  "sealed_with env p policy \<longleftrightarrow>
     policy_magic policy = ALRIOS_SUPERVISOR_POLICY_MAGIC \<and> policy_sealed policy = 1 \<and>
     profile_available (env_build env) p \<and> policy_node policy = canonical_policy p"

lemma sealed_profile: "sealed_with env p policy \<Longrightarrow> profile (policy_node policy) = p \<and> p \<in> {1, 2, 3}"
  by (auto simp: sealed_with_def profile_available_def)

lemma started:
  assumes "alrios_supervisor_policy_startup env True p = (ALRIOS_POLICY_OK, Some policy)"
  shows "sealed_with env p policy" and "trust_ready policy = 0"
  using assms
  by (auto simp: alrios_supervisor_policy_startup_def sealed_with_def zero_policy_def profile_init_ok split: if_splits prod.splits option.splits)

lemma signer_key_some:
  "signer_key env present c = Some k \<Longrightarrow> present \<and> public_key_algorithm c = 1 \<and> env_key_ed25519 env (subject_key c) = Some k"
  by (auto simp: signer_key_def subject_key_def split: if_splits)

lemma ml_dsa_loaded:
  assumes "load_ml_dsa_key env dir policy = (ALRIOS_POLICY_OK, policy')"
  shows "\<exists>key. policy' = policy\<lparr>ml_dsa_public_key := key, trust_ready := 1\<rparr> \<and>
    (profile (policy_node policy) = 1 \<longrightarrow> key \<noteq> None)"
proof -
  have keep: "policy\<lparr>trust_ready := 1\<rparr> = policy\<lparr>ml_dsa_public_key := ml_dsa_public_key policy, trust_ready := 1\<rparr>"
    by (cases policy) simp
  obtain path where "make_trust_path 1024 dir (ascii ''ml-dsa-65.pub'') = Inr path"
    using assms by (auto simp: load_ml_dsa_key_def split: sum.splits)
  note load = assms [unfolded load_ml_dsa_key_def this sum.case]
  show ?thesis
  proof (cases "read_bounded_file env (Some path) 1952")
    case (Inl status)
    then show ?thesis using load keep read_bounded_not_ok [of env "Some path" 1952]
      by (intro exI [of _ "ml_dsa_public_key policy"]) (auto simp: profile_codes split: if_splits)
  next
    case (Inr wire)
    then show ?thesis using load by (intro exI [of _ "env_key_ml_dsa env wire"]) (auto simp: Let_def split: if_splits)
  qed
qed

text \<open>The sealed part of the policy is left alone whatever the trust directory holds.\<close>

definition same_seal :: "supervisor_policy \<Rightarrow> supervisor_policy \<Rightarrow> bool" where
  "same_seal a b \<longleftrightarrow> policy_magic a = policy_magic b \<and> policy_sealed a = policy_sealed b \<and> policy_node a = policy_node b"

lemma load_root_keeps: "same_seal (snd (load_root env path policy)) policy"
  by (simp add: load_root_def same_seal_def Let_def split: prod.split)

lemma load_ml_dsa_keeps: "same_seal (snd (load_ml_dsa_key env d policy)) policy"
  by (simp add: load_ml_dsa_key_def same_seal_def Let_def split: sum.split)

lemma load_trust_keeps: "same_seal (snd (load_trust_configuration env policy dir)) policy"
  using load_root_keeps [of env _ policy] load_ml_dsa_keeps [of env]
  unfolding load_trust_configuration_def same_seal_def Let_def
  by (auto split: option.split sum.split prod.split) (metis snd_conv)+

lemma trust_loaded:
  assumes "load_trust_configuration env policy dir = (ALRIOS_POLICY_OK, policy')" and "sealed_with env p policy"
  shows "trust_ok env policy'" and "sealed_with env p policy'" and "trust_ready policy' = 1"
    and "p = 1 \<Longrightarrow> ml_dsa_public_key policy' \<noteq> None"
proof -
  obtain d root_path where path: "dir = Some d" "make_trust_path 1024 d (ascii ''root.cert'') = Inr root_path"
    using assms(1) by (auto simp: load_trust_configuration_def split: option.splits sum.splits)
  obtain rooted where rooted: "load_root env root_path policy = (ALRIOS_POLICY_OK, rooted)"
    using assms(1) path by (auto simp: load_trust_configuration_def split: prod.splits if_splits)
  obtain has_inter mid where mid: "load_optional env d (ascii ''intermediate.cert'') (intermediate_certificate rooted) = (has_inter, mid)"
    by (metis surj_pair)
  obtain has_leaf leaf where leaf: "load_optional env d (ascii ''leaf.cert'') (leaf_certificate rooted) = (has_leaf, leaf)"
    by (metis surj_pair)
  define level where "level = choose_trust_level (env_trust_level env) has_inter has_leaf"
  define key where "key = (if level = 1 then signer_key env True (root_certificate rooted)
      else if level = 2 then signer_key env has_inter mid else signer_key env (has_inter \<and> has_leaf) leaf)"
  define keyed where "keyed = rooted\<lparr>intermediate_certificate := mid, leaf_certificate := leaf, trust_level := level, ed25519_public_key := key\<rparr>"
  have key: "key \<noteq> None" and load: "load_ml_dsa_key env d keyed = (ALRIOS_POLICY_OK, policy')"
    using assms(1) unfolding load_trust_configuration_def path option.case sum.case rooted prod.case mid leaf Let_def
    by (auto simp: level_def key_def keyed_def split: if_splits)
  obtain root store where root: "cert_ok root" "role root = ROLE_ROOT" "store_ok store" "store_sealed store = 1" "store_anchors store = [root]"
      "rooted = policy\<lparr>root_certificate := root, policy_store := store\<rparr>"
    using root_loaded [OF rooted] by metis
  obtain ml where policy': "policy' = keyed\<lparr>ml_dsa_public_key := ml, trust_ready := 1\<rparr>"
      "profile (policy_node keyed) = 1 \<Longrightarrow> ml \<noteq> None"
    using ml_dsa_loaded [OF load] by metis
  have level: "level \<in> {1, 2, 3}" by (auto simp: level_def choose_trust_level_def split: option.split)
  obtain k where k: "key = Some k" using key by auto
  have loaded: "has_inter \<Longrightarrow> cert_ok mid" "has_leaf \<Longrightarrow> cert_ok leaf" using optional_loaded mid leaf by auto
  have signer: "level = 1 \<Longrightarrow> public_key_algorithm root = 1 \<and> key = env_key_ed25519 env (subject_key root)"
    "level = 2 \<Longrightarrow> cert_ok mid \<and> public_key_algorithm mid = 1 \<and> key = env_key_ed25519 env (subject_key mid)"
    "level = 3 \<Longrightarrow> cert_ok mid \<and> cert_ok leaf \<and> public_key_algorithm leaf = 1 \<and> key = env_key_ed25519 env (subject_key leaf)"
    using k root(6) signer_key_some [of env _ _ k] loaded by (auto simp: key_def)
  show "trust_ok env policy'"
    using level signer root key by (auto simp: policy'(1) keyed_def trust_ok_def package_signer_def)
  show "sealed_with env p policy'" using assms(2) by (simp add: policy'(1) keyed_def root(6) sealed_with_def)
  show "trust_ready policy' = 1" by (simp add: policy'(1))
  show "ml_dsa_public_key policy' \<noteq> None" if "p = 1"
    using policy' that sealed_profile [OF assms(2)] by (simp add: keyed_def root(6))
qed

lemma started_with_trust:
  assumes "alrios_supervisor_policy_startup_with_trust env p dir = (ALRIOS_POLICY_OK, Some policy)"
  shows "sealed_with env p policy"
    and "p \<noteq> 3 \<Longrightarrow> trust_ok env policy \<and> trust_ready policy = 1"
    and "p = 1 \<Longrightarrow> ml_dsa_public_key policy \<noteq> None"
proof -
  obtain policy0 where start: "alrios_supervisor_policy_startup env True p = (ALRIOS_POLICY_OK, Some policy0)"
    using assms by (auto simp: alrios_supervisor_policy_startup_with_trust_def alrios_supervisor_policy_startup_def
        split: prod.splits if_splits)
  note sealed = started(1) [OF start]
  obtain result policy1 where load: "load_trust_configuration env policy0 dir = (result, policy1)" by (metis surj_pair)
  have policy: "policy = policy1" "result = ALRIOS_POLICY_OK \<or> p = 3"
    using assms by (auto simp: alrios_supervisor_policy_startup_with_trust_def start load profile_codes split: if_splits)
  show "sealed_with env p policy"
    using load_trust_keeps [of env policy0 dir] sealed by (simp add: load policy(1) same_seal_def sealed_with_def)
  show "trust_ok env policy \<and> trust_ready policy = 1" if "p \<noteq> 3"
    using trust_loaded [OF _ sealed] load policy that by blast
  show "ml_dsa_public_key policy \<noteq> None" if "p = 1"
    using trust_loaded(4) [OF _ sealed] load policy that by auto
qed

section \<open>The decision on requirements\<close>

lemma canonical_matches: "profile_available build p \<Longrightarrow> canonical_policy_matches build (Some (canonical_policy p))"
proof -
  assume p: "profile_available build p"
  then have "p \<in> {1, 2, 3}" by (auto simp: profile_available_def)
  moreover have "alrios_profile_init build (Some zero_node_policy) p = (0, Some (canonical_policy p))"
    unfolding profile_init_ok using p by simp
  ultimately show ?thesis by (auto simp: canonical_policy_matches_def is_valid_profile_def profile_codes)
qed

lemma capabilities_ok:
  "required_capabilities r \<in> {0, 1, 5} \<Longrightarrow>
   fst (check_capabilities build r buf n) = ALRIOS_POLICY_OK \<longleftrightarrow> (required_capabilities r = 5 \<longrightarrow> built_ml_dsa_65 build)"
  by (auto simp: check_capabilities_def alrios_crypto_capabilities_def crypto_caps Let_def)

lemma launch_ok:
  assumes "sealed_with env p policy" "required_capabilities r \<in> {0, 1, 5}"
  shows "fst (alrios_supervisor_policy_evaluate_launch env (Some policy) (Some r) buf n) = ALRIOS_POLICY_OK \<longleftrightarrow>
    validate_requirements (Some r) = ALRIOS_POLICY_OK \<and> (required_capabilities r = 5 \<longrightarrow> built_ml_dsa_65 (env_build env)) \<and>
    decide_profile p r = ALRIOS_POLICY_OK"
  using assms(1) canonical_matches [of "env_build env" p] sealed_profile [OF assms(1)] capabilities_ok [OF assms(2), of "env_build env"]
  by (auto simp: alrios_supervisor_policy_evaluate_launch_def alrios_supervisor_evaluate_policy_def sealed_with_def Let_def
      split: prod.split) (metis fst_conv)+

text \<open>The requirements of a package, named.\<close>

definition ed_present :: "bytes \<Rightarrow> bool" where
  "ed_present data \<longleftrightarrow> bytes_at 144 64 data \<noteq> zeros 64"

definition ml_present :: "bytes \<Rightarrow> bool" where
  "ml_present data \<longleftrightarrow> bytes_at 208 3309 data \<noteq> zeros 3309"

definition ed_accepted :: "policy_env \<Rightarrow> supervisor_policy \<Rightarrow> bytes \<Rightarrow> bool" where
  "ed_accepted env policy data \<longleftrightarrow>
     ed_present data \<and> trust_ready policy \<noteq> 0 \<and> ed25519_public_key policy \<noteq> None \<and>
     alrios_arapp_v2_verify_ed25519 (env_sig env) (Some data) (length data) (ed25519_public_key policy) = ALRIOS_ARAPP_V2_SIG_OK"

definition ml_accepted :: "policy_env \<Rightarrow> supervisor_policy \<Rightarrow> bytes \<Rightarrow> bool" where
  "ml_accepted env policy data \<longleftrightarrow>
     ml_present data \<and> ml_dsa_public_key policy \<noteq> None \<and>
     alrios_arapp_v2_verify_ml_dsa_65 (env_sig env) (Some data) (length data) (ml_dsa_public_key policy) = ALRIOS_ARAPP_V2_SIG_OK"

lemma flag_bits:
  "w AND FLAG_PQC_HYBRID_SIG \<noteq> 0 \<longleftrightarrow> bit w 6" "w AND FLAG_RING_DEVMODE \<noteq> 0 \<longleftrightarrow> bit w 4"
  "w AND FLAG_PQC_HYBRID_SIG = 0 \<longleftrightarrow> \<not> bit w 6" "w AND FLAG_RING_DEVMODE = 0 \<longleftrightarrow> \<not> bit w 4"
  unfolding flag_powers and_flag by simp_all

lemma requirements_named:
  assumes "package_arrays q"
  shows "package_requirements env policy (package_image q) (package_view q) now =
    \<lparr>container_flags = pkg_flags q, required_capabilities = (if bit (pkg_flags q) 6 then 5 else 1),
     app_require_pqc = of_bool (bit (pkg_flags q) 6), package_signed = of_bool (ed_present (package_image q)),
     certificate_chain_valid = of_bool (ed_accepted env policy (package_image q) \<and> chain_valid env policy now),
     ed25519_signature_present = of_bool (ed_present (package_image q)),
     ed25519_signature_valid = of_bool (ed_accepted env policy (package_image q)),
     ml_dsa_signature_present = of_bool (ml_present (package_image q)),
     ml_dsa_signature_valid = of_bool (ml_accepted env policy (package_image q)),
     developer_mode_verified = of_bool (bit (pkg_flags q) 4 \<and> profile (policy_node policy) \<noteq> 1 \<and>
       \<not> ed_present (package_image q) \<and> \<not> ml_present (package_image q))\<rparr>"
proof -
  have big: "3536 \<le> length (package_image q)" using image_drop(15) [OF assms] by simp
  have present: "bytes_all_zero (bytes_at 144 64 (package_image q)) \<longleftrightarrow> \<not> ed_present (package_image q)"
    "bytes_all_zero (bytes_at 208 3309 (package_image q)) \<longleftrightarrow> \<not> ml_present (package_image q)"
    using big by (simp_all add: bytes_all_zero_eq ed_present_def ml_present_def bytes_at_def)
  show ?thesis
    unfolding package_requirements_def package_view_def arapp_view.simps option.sel limits present Let_def flag_bits profile_codes
    by (simp add: ed_accepted_def ml_accepted_def crypto_caps)
qed

lemma flags_masked: "flags_ok w \<Longrightarrow> w AND NOT FLAGS_MASK = 0"
  unfolding valid_flags_eq [symmetric] by (auto simp: valid_flags_def Let_def split: if_splits)

lemma package_decision:
  assumes "sealed_with env p policy" "package_arrays q" "flags_ok (pkg_flags q)"
  shows "fst (alrios_supervisor_policy_evaluate_launch env (Some policy)
      (Some (package_requirements env policy (package_image q) (package_view q) now)) buf n) = ALRIOS_POLICY_OK \<longleftrightarrow>
    (ml_present (package_image q) \<longrightarrow> ed_present (package_image q)) \<and> (bit (pkg_flags q) 6 \<longrightarrow> built_ml_dsa_65 (env_build env)) \<and>
    decide_profile p (package_requirements env policy (package_image q) (package_view q) now) = ALRIOS_POLICY_OK"
proof -
  let ?r = "package_requirements env policy (package_image q) (package_view q) now"
  have "validate_requirements (Some ?r) = ALRIOS_POLICY_OK \<longleftrightarrow> (ml_present (package_image q) \<longrightarrow> ed_present (package_image q))"
    unfolding requirements_named [OF assms(2)] using flags_masked [OF assms(3)]
    by (auto simp: validate_requirements_def is_boolean_def ed_accepted_def ml_accepted_def)
  moreover have "required_capabilities ?r \<in> {0, 1, 5}" "required_capabilities ?r = 5 \<longleftrightarrow> bit (pkg_flags q) 6"
    unfolding requirements_named [OF assms(2)] by auto
  ultimately show ?thesis using launch_ok [OF assms(1), of ?r buf n] by blast
qed

section \<open>The decision on a file\<close>

definition is_legacy :: "bytes \<Rightarrow> bool" where
  "is_legacy data \<longleftrightarrow> 13 \<le> length data \<and> take 13 data = legacy_magic"

lemma length_legacy_magic: "length legacy_magic = 13"
  by (simp add: legacy_magic_def ascii_def)

lemma legacy_not_v2: "is_legacy data \<Longrightarrow> take 16 data \<noteq> arapp_v2_magic"
proof
  assume "is_legacy data" "take 16 data = arapp_v2_magic"
  moreover have "take 13 data = take 13 (take 16 data)" by simp
  ultimately have "take 13 arapp_v2_magic = legacy_magic" unfolding is_legacy_def by metis
  moreover have "take 13 arapp_v2_magic \<noteq> legacy_magic" by code_simp
  ultimately show False by simp
qed

lemma legacy_test:
  "13 \<le> length data \<and> memeq data legacy_magic 13 \<and> (length data < 16 \<or> \<not> memeq data arapp_v2_magic 16) \<longleftrightarrow> is_legacy data"
  using legacy_not_v2 [of data] by (auto simp: is_legacy_def memeq_def length_legacy_magic)

lemma fst_keep: "fst (case x of (r, b) \<Rightarrow> (r, f r b)) = fst x"
  by (simp split: prod.split)

lemma evaluate_unfold:
  assumes "sealed_with env p policy" "read_bounded_file env (Some path) ALRIOS_POLICY_MAX_PACKAGE_SIZE = Inr data"
  shows "alrios_supervisor_policy_evaluate_package env (Some policy) (Some path) now buf n =
    (if is_legacy data
     then (case alrios_supervisor_policy_evaluate_launch env (Some policy)
              (Some (zero_requirements\<lparr>container_flags := FLAG_RING_DEVMODE,
                developer_mode_verified := of_bool (profile (policy_node policy) \<noteq> PROFILE_SOVEREIGN_MAX)\<rparr>)) (clear_text buf n) n of
             (result, b) \<Rightarrow> (result, if result \<noteq> ALRIOS_POLICY_OK
               then snprintf_into b n (ascii ''legacy unsigned package rejected by profile'') else b))
     else case alrios_arapp_v2_validate (env_arapp env) (Some (1, data)) (length data) now ARAPP_V2_MAX_CLOCK_SKEW_SECONDS True of
       (status, viewp) \<Rightarrow>
         if status \<noteq> ALRIOS_ARAPP_V2_OK
         then (ALRIOS_POLICY_ERR_FORMAT, snprintf_into (clear_text buf n) n (ascii ''invalid arapp v2 envelope''))
         else (case alrios_supervisor_policy_evaluate_launch env (Some policy)
                 (Some (package_requirements env policy data (the viewp) now)) (clear_text buf n) n of
             (result, b) \<Rightarrow> (result,
               if result \<noteq> ALRIOS_POLICY_OK \<and> (b = None \<or> n = 0 \<or> the b ! 0 = 0)
               then snprintf_into b n (ascii ''package rejected by node profile'') else b)))"
  using assms(1) unfolding alrios_supervisor_policy_evaluate_package_def legacy_test Let_def
  by (simp add: assms(2) sealed_with_def)

lemma validate_view: "snd (alrios_arapp_v2_validate env datap n now skew True) \<noteq> None"
  by (simp add: alrios_arapp_v2_validate_def Let_def split: option.split prod.split)

lemma evaluated_file:
  assumes sealed: "sealed_with env p policy" and content: "read_bounded_file env (Some path) ALRIOS_POLICY_MAX_PACKAGE_SIZE = Inr data"
    and memory: "arapp_memory (env_arapp env)"
  shows "fst (alrios_supervisor_policy_evaluate_package env (Some policy) (Some path) now buf n) = ALRIOS_POLICY_OK \<longleftrightarrow>
    is_legacy data \<and> p \<noteq> 1 \<or>
    (\<exists>q. package_ok now 300 q \<and> data = package_image q \<and>
       (ml_present data \<longrightarrow> ed_present data) \<and> (bit (pkg_flags q) 6 \<longrightarrow> built_ml_dsa_65 (env_build env)) \<and>
       decide_profile p (package_requirements env policy data (package_view q) now) = ALRIOS_POLICY_OK)"
proof (cases "is_legacy data")
  case True
  let ?r = "zero_requirements\<lparr>container_flags := FLAG_RING_DEVMODE, developer_mode_verified := of_bool (p \<noteq> 1)\<rparr>"
  have "validate_requirements (Some ?r) = ALRIOS_POLICY_OK"
    by (simp add: validate_requirements_def zero_requirements_def is_boolean_def FLAG_RING_DEVMODE_def FLAGS_MASK_def)
  moreover have "decide_profile p ?r = ALRIOS_POLICY_OK \<longleftrightarrow> p \<noteq> 1"
    by (simp add: decide_profile_def zero_requirements_def require_hybrid_signature_def require_classical_signature_def profile_codes
        FLAG_RING_DEVMODE_def)
  ultimately have "fst (alrios_supervisor_policy_evaluate_launch env (Some policy) (Some ?r) b n) = ALRIOS_POLICY_OK \<longleftrightarrow> p \<noteq> 1" for b
    by (subst launch_ok [OF sealed]) (simp_all add: zero_requirements_def)
  then have "fst (alrios_supervisor_policy_evaluate_package env (Some policy) (Some path) now buf n) = ALRIOS_POLICY_OK \<longleftrightarrow> p \<noteq> 1"
    using sealed sealed_profile [OF sealed] True
    by (simp add: evaluate_unfold [OF sealed content] profile_codes fst_keep)
  moreover have "data \<noteq> package_image q" if "package_ok now 300 q" for q
    using legacy_not_v2 [OF True] image_drop(1) [of q] that by (auto simp: package_ok_def)
  ultimately show ?thesis using True by blast
next
  case False
  have fits: "1 + length data \<le> UINT64_MAX"
    using read_bounded_size [OF content] by (simp add: ALRIOS_POLICY_MAX_PACKAGE_SIZE_def limits)
  let ?validate = "alrios_arapp_v2_validate (env_arapp env) (Some (1, data)) (length data) now 300 True"
  have eval: "fst (alrios_supervisor_policy_evaluate_package env (Some policy) (Some path) now buf n) = ALRIOS_POLICY_OK \<longleftrightarrow>
      fst ?validate = ALRIOS_ARAPP_V2_OK \<and>
      fst (alrios_supervisor_policy_evaluate_launch env (Some policy)
        (Some (package_requirements env policy data (the (snd ?validate)) now)) (clear_text buf n) n) = ALRIOS_POLICY_OK"
    using False by (cases ?validate) (simp add: evaluate_unfold [OF sealed content] ARAPP_V2_MAX_CLOCK_SKEW_SECONDS_def fst_keep)
  show ?thesis
  proof (cases "\<exists>q. package_ok now 300 q \<and> data = package_image q")
    case True
    then obtain q where q: "package_ok now 300 q" "data = package_image q" by blast
    have "?validate = (ALRIOS_ARAPP_V2_OK, Some (package_view q))"
      using package_validates [OF q(1) memory] fits by (simp add: q(2))
    then have "fst (alrios_supervisor_policy_evaluate_package env (Some policy) (Some path) now buf n) = ALRIOS_POLICY_OK \<longleftrightarrow>
        (ml_present data \<longrightarrow> ed_present data) \<and> (bit (pkg_flags q) 6 \<longrightarrow> built_ml_dsa_65 (env_build env)) \<and>
        decide_profile p (package_requirements env policy data (package_view q) now) = ALRIOS_POLICY_OK"
      unfolding eval using package_decision [OF sealed, of q now "clear_text buf n" n] q by (simp add: package_ok_def)
    moreover have "q' = q" if "package_ok now 300 q'" "data = package_image q'" for q'
      using package_image_inject [of q' q] that q by (simp add: package_ok_def)
    ultimately show ?thesis using q False by blast
  next
    case invalid: False
    have "fst ?validate \<noteq> ALRIOS_ARAPP_V2_OK"
      using validated_package(1,2) [of "env_arapp env" 1 data now 300] validate_view [of "env_arapp env" "Some (1, data)" "length data" now 300] invalid
      by (metis option.exhaust prod.collapse)
    then show ?thesis unfolding eval using invalid False by blast
  qed
qed

section \<open>Trust in the signer\<close>

text \<open>What each trust level asks of the certificate whose key signs packages.\<close>

definition signer_trusted :: "policy_env \<Rightarrow> supervisor_policy \<Rightarrow> u64 \<Rightarrow> bool" where
  "signer_trusted env policy now =
     (let root = root_certificate policy; mid = intermediate_certificate policy; leaf = leaf_certificate policy
      in trust_level policy = 1 \<or>
         trust_level policy = 2 \<and> issuer_key_id mid = key_id root \<or>
         trust_level policy = 3 \<and> in_window now leaf \<and> in_window now mid \<and> in_window now root \<and>
           role leaf = ROLE_LEAF \<and> role mid = ROLE_INTERMEDIATE \<and>
           issuer_key_id leaf = key_id mid \<and> issuer_key_id mid = key_id root \<and>
           signed_by (env_verify env) leaf mid \<and> signed_by (env_verify env) mid root)"

lemma lookup_found:
  assumes "store_ok st" "store_sealed st = 1" "length k = 32"
  shows "(case alrios_trust_store_lookup (Some st) (Some k) True of (status, a) \<Rightarrow> status = ALRIOS_CERTIFICATE_OK \<and> a \<noteq> None) \<longleftrightarrow>
    k \<in> key_id ` set (store_anchors st)"
proof (cases "anchor_for st k")
  case None
  then have "\<not> (\<exists>a \<in> set (store_anchors st). key_id a = k)" using trust_anchors.find_None_iff [of st k] assms by auto
  then show ?thesis using lookup_sealed [OF assms] None by auto
next
  case (Some a)
  have "a \<in> set (store_anchors st)" "key_id a = k" using trust_anchors.find_sound [OF _ Some] assms by auto
  then show ?thesis using lookup_sealed [OF assms] Some by auto
qed

lemma chain_valid_eq:
  assumes "trust_ok env policy" "length (verify_tbs_array (env_verify env)) = CERT_TBS_MAX"
  shows "chain_valid env policy now \<longleftrightarrow> signer_trusted env policy now"
proof -
  have st: "store_ok (policy_store policy)" "store_sealed (policy_store policy) = 1"
    and anchors: "store_anchors (policy_store policy) = [root_certificate policy]"
    and level: "trust_level policy \<in> {1, 2, 3}"
    using assms(1) by (auto simp: trust_ok_def)
  have arrays: "trust_level policy \<noteq> 1 \<Longrightarrow> cert_arrays (intermediate_certificate policy)"
    "trust_level policy = 3 \<Longrightarrow> cert_arrays (leaf_certificate policy)"
    using assms(1) by (auto simp: trust_ok_def cert_ok_def)
  consider "trust_level policy = 1" | "trust_level policy = 2" | "trust_level policy = 3" using level by blast
  then show ?thesis
  proof cases
    case 2
    then have "length (issuer_key_id (intermediate_certificate policy)) = 32" using arrays by (simp add: cert_arrays_def)
    from lookup_found [OF st this] show ?thesis
      by (simp add: 2 chain_valid_def signer_trusted_def Let_def anchors split: prod.split)
  next
    case 3
    from chain_exact [OF st arrays(2) arrays(1) assms(2), of now] show ?thesis
      by (auto simp: 3 chain_valid_def signer_trusted_def Let_def anchors)
  qed (simp add: chain_valid_def signer_trusted_def)
qed

lemma signatures_accepted:
  assumes "trust_ready policy = 1" "3536 \<le> length data"
  shows "ed_accepted env policy data \<and> ml_accepted env policy data \<longleftrightarrow>
    ed_present data \<and> ml_present data \<and>
    alrios_arapp_v2_verify_hybrid (env_sig env) (Some data) (length data) (ed25519_public_key policy) (ml_dsa_public_key policy) True =
      ALRIOS_ARAPP_V2_SIG_OK"
  using assms by (auto simp: ed_accepted_def ml_accepted_def alrios_arapp_v2_verify_hybrid_def Let_def limits)

lemma one_ring: "flags_ok w \<Longrightarrow> bit w 3 \<longleftrightarrow> \<not> bit w 4" "flags_ok w \<Longrightarrow> bit w 3 \<Longrightarrow> bit w 6"
  by (auto simp: flags_ok_def split: if_splits)

lemma image_presence:
  assumes "package_arrays q"
  shows "ed_present (package_image q) \<longleftrightarrow> pkg_ed25519 q \<noteq> zeros 64" and "ml_present (package_image q) \<longleftrightarrow> pkg_ml_dsa q \<noteq> zeros 3309"
    and "3536 \<le> length (package_image q)"
  using image_drop [OF assms] by (simp_all add: ed_present_def ml_present_def bytes_at_def)

lemma image_not_legacy: "package_arrays q \<Longrightarrow> \<not> is_legacy (package_image q)"
  using legacy_not_v2 image_drop(1) by blast

section \<open>A small node\<close>

text \<open>A file system given by a list, and a node on it.\<close>

definition disk :: "(bytes \<times> bytes) list \<Rightarrow> bytes \<Rightarrow> stdio_file" where
  "disk fs path =
     (case map_of fs path of
        None \<Rightarrow> \<lparr>fopen_ok = False, seek_end_ok = False, ftell_length = 0, seek_set_ok = False, file_malloc_ok = False,
          fread_bytes = [], fclose_ok = False\<rparr>
      | Some bs \<Rightarrow> \<lparr>fopen_ok = True, seek_end_ok = True, ftell_length = int (length bs), seek_set_ok = True, file_malloc_ok = True,
          fread_bytes = bs, fclose_ok = True\<rparr>)"

definition demo_env :: "(bytes \<times> bytes) list \<Rightarrow> policy_env" where
  "demo_env fs =
     \<lparr>env_build = \<lparr>built_ml_dsa_65 = True, built_ml_kem_768 = False\<rparr>, env_file = disk fs, env_trust_level = None,
      policy_calloc_ok = True, env_key_ed25519 = Some, env_key_ml_dsa = Some,
      env_sig = demo_sig_env\<lparr>ed25519_check := (\<lambda>key sig d. sig = replicate 64 1), ml_dsa_check := (\<lambda>key sig d. sig = replicate 3309 1)\<rparr>,
      env_arapp = demo_arapp_env, env_verify = demo_verifier\<rparr>"

lemma read_disk:
  "read_bounded_file (demo_env fs) (Some path) n =
     (case map_of fs path of None \<Rightarrow> Inl ALRIOS_POLICY_ERR_IO
      | Some bs \<Rightarrow> if bs = [] \<or> n < length bs then Inl ALRIOS_POLICY_ERR_IO else Inr bs)"
  by (auto simp: read_bounded_file_def demo_env_def disk_def split: option.split)

lemma load_disk:
  "map_of fs path = Some (cert_wire c) \<Longrightarrow> cert_ok c \<Longrightarrow> load_certificate_file (demo_env fs) path c0 = (ALRIOS_POLICY_OK, c)"
  "map_of fs path = None \<Longrightarrow> load_certificate_file (demo_env fs) path c0 = (ALRIOS_POLICY_ERR_IO, c0)"
proof -
  assume c: "map_of fs path = Some (cert_wire c)" "cert_ok c"
  have "cert_wire_len c \<le> 5513" "92 \<le> cert_wire_len c" using c(2) cert_valid_bounds [of c] by (auto simp: cert_ok_def cert_wire_len_def)
  then have "length (cert_wire c) \<le> CERT_WIRE_MAX" "cert_wire c \<noteq> []"
    using c(2) length_cert_wire [of c] by (auto simp: cert_ok_def limits)
  then show "load_certificate_file (demo_env fs) path c0 = (ALRIOS_POLICY_OK, c)"
    unfolding loaded_certificate using c by (simp add: read_disk)
qed (simp add: load_certificate_file_def read_disk)

text \<open>A trust directory with a root and an ML-DSA-65 key, possibly with an intermediate certificate.\<close>

lemma demo_started:
  assumes "map_of fs (ascii ''t/root.cert'') = Some (cert_wire demo_cert)" "map_of fs (ascii ''t/ml-dsa-65.pub'') = Some (zeros 1952)"
    and "map_of fs (ascii ''t/intermediate.cert'') = map_option cert_wire midp" "map_of fs (ascii ''t/leaf.cert'') = None"
    and "\<And>mid. midp = Some mid \<Longrightarrow> cert_ok mid \<and> public_key_algorithm mid = 1 \<and> public_key_len mid = 32"
    and "p \<in> {1, 2, 3}"
  shows "\<exists>policy. alrios_supervisor_policy_startup_with_trust (demo_env fs) p (Some (ascii ''t'')) = (ALRIOS_POLICY_OK, Some policy) \<and>
    trust_level policy = (if midp = None then 1 else 2) \<and> root_certificate policy = demo_cert \<and>
    ed25519_public_key policy \<noteq> None \<and> ml_dsa_public_key policy = Some (zeros 1952) \<and>
    (\<forall>mid. midp = Some mid \<longrightarrow> intermediate_certificate policy = mid)"
proof -
  have paths: "make_trust_path 1024 (ascii ''t'') (ascii ''root.cert'') = Inr (ascii ''t/root.cert'')"
    "make_trust_path 1024 (ascii ''t'') (ascii ''intermediate.cert'') = Inr (ascii ''t/intermediate.cert'')"
    "make_trust_path 1024 (ascii ''t'') (ascii ''leaf.cert'') = Inr (ascii ''t/leaf.cert'')"
    "make_trust_path 1024 (ascii ''t'') (ascii ''ml-dsa-65.pub'') = Inr (ascii ''t/ml-dsa-65.pub'')"
    by (simp_all add: make_trust_path_def ascii_def)
  have start: "\<exists>policy. alrios_supervisor_policy_startup (demo_env fs) True p = (ALRIOS_POLICY_OK, Some policy)"
    using assms(6) profile_init_ok [of "env_build (demo_env fs)" zero_node_policy p "Some (canonical_policy p)"]
    by (auto simp: alrios_supervisor_policy_startup_def is_valid_profile_def profile_codes demo_env_def profile_available_def)
  have "role demo_cert = ROLE_ROOT" "public_key_algorithm demo_cert = 1" "public_key_len demo_cert = 32"
    by (simp_all add: demo_cert_def zero_certificate_def)
  moreover from this obtain st1 store where
    "alrios_trust_store_add_anchor (Some zero_store) (Some demo_cert) = (ALRIOS_CERTIFICATE_OK, Some st1)"
    "alrios_trust_store_seal (Some st1) = (ALRIOS_CERTIFICATE_OK, Some store)"
    using anchored_root [OF demo_cert_parts(1)] by blast
  moreover have "read_bounded_file (demo_env fs) (Some (ascii ''t/ml-dsa-65.pub'')) 1952 = Inr (zeros 1952)"
    using assms(2) by (auto simp: read_disk simp flip: length_0_conv)
  moreover have "env_trust_level (demo_env fs) = None" "env_key_ed25519 (demo_env fs) = Some" "env_key_ml_dsa (demo_env fs) = Some"
    by (simp_all add: demo_env_def)
  ultimately show ?thesis
    using start assms(5) load_disk(1) [OF assms(1) demo_cert_parts(1)] load_disk(2) [OF assms(4)]
      load_disk [of fs "ascii ''t/intermediate.cert''"] assms(3)
    by (cases midp)
      (auto simp: alrios_supervisor_policy_startup_with_trust_def load_trust_configuration_def paths load_root_def load_optional_def
        load_ml_dsa_key_def choose_trust_level_def signer_key_def Let_def)
qed

definition demo_trust :: "(bytes \<times> bytes) list" where
  "demo_trust = [(ascii ''t/root.cert'', cert_wire demo_cert), (ascii ''t/ml-dsa-65.pub'', zeros 1952)]"

definition demo_signed :: package where
  "demo_signed = demo_package\<lparr>pkg_ed25519 := replicate 64 1, pkg_ml_dsa := replicate 3309 1\<rparr>"

definition demo_devmode :: package where
  "demo_devmode = demo_package\<lparr>pkg_flags := 0x12, pkg_ed25519 := replicate 64 2\<rparr>"

text \<open>An unsigned, long expired certificate that only names the root as its issuer.\<close>

definition demo_imposter :: certificate where
  "demo_imposter = demo_cert\<lparr>issuer_key_id := key_id demo_cert\<rparr>"

lemma demo_packages_ok: "package_ok 12 300 demo_signed" "package_ok 12 300 demo_devmode"
proof -
  have "flags_ok 0x12" unfolding valid_flags_eq [symmetric] by code_simp
  then show "package_ok 12 300 demo_signed" "package_ok 12 300 demo_devmode"
    using demo_package_ok by (simp_all add: package_ok_def package_arrays_def demo_signed_def demo_devmode_def)
qed

lemma demo_image_fits:
  assumes "package_ok 12 300 q" "pkg_manifest q = [0x7b, 0x7d]" "pkg_ciphertext q = [7]"
  shows "length (package_image q) = 3539" "package_image q \<noteq> []" "\<not> ALRIOS_POLICY_MAX_PACKAGE_SIZE < length (package_image q)"
proof -
  show len: "length (package_image q) = 3539" using image_drop(15) [of q] assms by (simp add: package_ok_def)
  then show "package_image q \<noteq> []" by auto
  show "\<not> ALRIOS_POLICY_MAX_PACKAGE_SIZE < length (package_image q)" by (simp add: len ALRIOS_POLICY_MAX_PACKAGE_SIZE_def)
qed

lemma demo_memory: "arapp_memory (env_arapp (demo_env fs))" "length (verify_tbs_array (env_verify (demo_env fs))) = CERT_TBS_MAX"
  by (simp_all add: demo_env_def arapp_memory_def demo_arapp_env_def demo_verifier_def)

lemma demo_imposter_ok: "cert_ok demo_imposter" "public_key_algorithm demo_imposter = 1" "public_key_len demo_imposter = 32"
  "\<not> in_window 1000 demo_imposter" "role demo_imposter = ROLE_ROOT" "issuer_key_id demo_imposter = key_id demo_cert"
proof -
  have same: "cert_valid demo_imposter = cert_valid demo_cert" "cert_padded demo_imposter = cert_padded demo_cert"
    by (simp_all add: demo_imposter_def cert_valid_def cert_padded_def)
  have "cert_arrays demo_imposter" using demo_cert_parts(2) by (simp add: demo_imposter_def cert_arrays_def)
  then show "cert_ok demo_imposter" using demo_cert_parts(1) same by (simp add: cert_ok_def)
qed (simp_all add: demo_imposter_def demo_cert_def zero_certificate_def in_window_def)

section \<open>Properties\<close>

text \<open>
  C2: When a sovereign node launches a package. On a node started with the sovereign profile and
  a trust directory, a file is accepted exactly when it is the image of a well-formed package of
  the sovereign ring, both signatures are there and verify under the configured keys, and the
  certificate of the signing key is trusted at that time as the trust level asks. Nothing unsigned,
  in developer mode or in the old format is launched, and nothing that meets the conditions is refused.
\<close>

theorem sovereign_launch_exact:
  assumes start: "alrios_supervisor_policy_startup_with_trust env PROFILE_SOVEREIGN_MAX dir = (ALRIOS_POLICY_OK, Some policy)"
    and content: "read_bounded_file env (Some path) ALRIOS_POLICY_MAX_PACKAGE_SIZE = Inr data"
    and memory: "arapp_memory (env_arapp env)" "length (verify_tbs_array (env_verify env)) = CERT_TBS_MAX"
  shows "fst (alrios_supervisor_policy_evaluate_package env (Some policy) (Some path) now buf n) = ALRIOS_POLICY_OK \<longleftrightarrow>
    (\<exists>q. package_ok now 300 q \<and> data = package_image q \<and> bit (pkg_flags q) 3 \<and>
       pkg_ed25519 q \<noteq> zeros 64 \<and> pkg_ml_dsa q \<noteq> zeros 3309) \<and>
    alrios_arapp_v2_verify_hybrid (env_sig env) (Some data) (length data) (ed25519_public_key policy) (ml_dsa_public_key policy) True =
      ALRIOS_ARAPP_V2_SIG_OK \<and>
    signer_trusted env policy now"
proof -
  have sealed: "sealed_with env 1 policy" and trust: "trust_ok env policy" "trust_ready policy = 1"
    using started_with_trust [OF start] by (simp_all add: profile_codes)
  have built: "built_ml_dsa_65 (env_build env)" using sealed by (simp add: sealed_with_def profile_available_def)
  have decide: "decide_profile 1 (package_requirements env policy data (package_view q) now) = ALRIOS_POLICY_OK \<longleftrightarrow>
      bit (pkg_flags q) 3 \<and> (ed_accepted env policy data \<and> ml_accepted env policy data) \<and> signer_trusted env policy now"
    if "package_ok now 300 q" "data = package_image q" for q
    using that one_ring [of "pkg_flags q"] chain_valid_eq [OF trust(1) memory(2), of now]
    by (auto simp: package_ok_def requirements_named decide_profile_def require_hybrid_signature_def require_classical_signature_def
        profile_codes flag_bits ed_accepted_def ml_accepted_def)
  show ?thesis
    unfolding evaluated_file [OF sealed content memory(1)]
    using decide signatures_accepted [OF trust(2), of data env] image_presence built
    by (auto simp: package_ok_def)
qed

theorem sovereign_launch_exact_witness:
  "let env = demo_env ((ascii ''p'', package_image demo_signed) # demo_trust)
   in \<exists>policy. alrios_supervisor_policy_startup_with_trust env PROFILE_SOVEREIGN_MAX (Some (ascii ''t'')) = (ALRIOS_POLICY_OK, Some policy) \<and>
      fst (alrios_supervisor_policy_evaluate_package env (Some policy) (Some (ascii ''p'')) 12 None 0) = ALRIOS_POLICY_OK"
proof -
  let ?fs = "(ascii ''p'', package_image demo_signed) # demo_trust"
  obtain policy where policy: "alrios_supervisor_policy_startup_with_trust (demo_env ?fs) 1 (Some (ascii ''t'')) = (ALRIOS_POLICY_OK, Some policy)"
      "trust_level policy = 1" "ed25519_public_key policy \<noteq> None" "ml_dsa_public_key policy = Some (zeros 1952)"
    using demo_started [of ?fs None 1] by (auto simp: demo_trust_def ascii_def)
  note fits = demo_image_fits [OF demo_packages_ok(1)]
  have parts: "pkg_manifest demo_signed = [0x7b, 0x7d]" "pkg_ciphertext demo_signed = [7]" "bit (pkg_flags demo_signed) 3"
    "pkg_ed25519 demo_signed = replicate 64 1" "pkg_ml_dsa demo_signed = replicate 3309 1"
    by (simp_all add: demo_signed_def demo_package_def)
  have content: "read_bounded_file (demo_env ?fs) (Some (ascii ''p'')) ALRIOS_POLICY_MAX_PACKAGE_SIZE = Inr (package_image demo_signed)"
    using fits parts by (simp add: read_disk)
  have "alrios_arapp_v2_verify_hybrid (env_sig (demo_env ?fs)) (Some (package_image demo_signed)) (length (package_image demo_signed))
      (ed25519_public_key policy) (ml_dsa_public_key policy) True = ALRIOS_ARAPP_V2_SIG_OK"
    unfolding hybrid_ok_iff using policy(3,4) fits(1) parts image_drop(11,12) [of demo_signed] demo_packages_ok(1)
    by (auto simp: demo_env_def demo_sig_env_def bytes_at_def package_ok_def)
  moreover have "signer_trusted (demo_env ?fs) policy 12" using policy(2) by (simp add: signer_trusted_def)
  moreover have "replicate 64 1 \<noteq> zeros 64" "replicate 3309 1 \<noteq> zeros 3309" by (simp_all add: zeros_def)
  ultimately have "fst (alrios_supervisor_policy_evaluate_package (demo_env ?fs) (Some policy) (Some (ascii ''p'')) 12 None 0) = ALRIOS_POLICY_OK"
    using sovereign_launch_exact [OF policy(1) [folded profile_codes] content demo_memory, of 12 None 0] parts demo_packages_ok(1) by auto
  then show ?thesis using policy(1) by (auto simp: profile_codes)
qed

text \<open>
  The profile is sealed at start up. A policy that has been started, with or without a trust
  directory, reports the profile it was started with, has exactly the settings of that profile,
  and every attempt to set a profile fails and changes nothing. The sovereign profile is only to be
  had with a library built with ML-DSA-65.
\<close>

theorem profile_sealed_at_startup:
  assumes "alrios_supervisor_policy_startup env True p = (ALRIOS_POLICY_OK, Some policy) \<or>
    alrios_supervisor_policy_startup_with_trust env p dir = (ALRIOS_POLICY_OK, Some policy)"
  shows "alrios_supervisor_policy_get_profile env (Some policy) True = (ALRIOS_POLICY_OK, Some p) \<and>
    policy_node policy = canonical_policy p \<and> (p = PROFILE_SOVEREIGN_MAX \<longrightarrow> built_ml_dsa_65 (env_build env)) \<and>
    (\<exists>status. alrios_supervisor_policy_set_profile (Some policy) p' = (status, Some policy) \<and> status \<noteq> ALRIOS_POLICY_OK)"
proof -
  have sealed: "sealed_with env p policy" using assms started(1) started_with_trust(1) by blast
  then show ?thesis
    using sealed_profile [OF sealed] canonical_matches [of "env_build env" p]
    by (auto simp: alrios_supervisor_policy_get_profile_def alrios_supervisor_policy_set_profile_def sealed_with_def
        profile_available_def profile_codes)
qed

theorem profile_sealed_at_startup_witness:
  "\<exists>policy. alrios_supervisor_policy_startup_with_trust (demo_env demo_trust) 2 (Some (ascii ''t'')) = (ALRIOS_POLICY_OK, Some policy) \<and>
     alrios_supervisor_policy_get_profile (demo_env demo_trust) (Some policy) True = (ALRIOS_POLICY_OK, Some 2)"
proof -
  obtain policy where "alrios_supervisor_policy_startup_with_trust (demo_env demo_trust) 2 (Some (ascii ''t'')) = (ALRIOS_POLICY_OK, Some policy)"
    using demo_started [of demo_trust None 2] by (auto simp: demo_trust_def ascii_def)
  with profile_sealed_at_startup [of "demo_env demo_trust" 2 policy "Some (ascii ''t'')"] show ?thesis by blast
qed



text \<open>
  C33: At trust level two the certificate of the signer is not checked. When the trust directory gives
  level two, the chain counts as valid at every time and whatever the signature check would say, as
  soon as the intermediate certificate names the root's key as its issuer: neither its signature,
  nor its period, nor its role is looked at, and its key signs packages.
\<close>

theorem level_two_signer_unchecked:
  assumes "alrios_supervisor_policy_startup_with_trust env p dir = (ALRIOS_POLICY_OK, Some policy)" "p \<noteq> PROFILE_EDGE_PERF"
    and "trust_level policy = 2" "issuer_key_id (intermediate_certificate policy) = key_id (root_certificate policy)"
  shows "chain_valid (env\<lparr>env_verify := v\<rparr>) policy now \<and>
    ed25519_public_key policy = env_key_ed25519 env (subject_key (intermediate_certificate policy))"
proof -
  have trust: "trust_ok env policy" using started_with_trust(2) [OF assms(1)] assms(2) by (simp add: profile_codes)
  then have st: "store_ok (policy_store policy)" "store_sealed (policy_store policy) = 1"
    and anchors: "store_anchors (policy_store policy) = [root_certificate policy]"
    and "cert_ok (intermediate_certificate policy)"
    using assms(3) by (simp_all add: trust_ok_def)
  then have "length (issuer_key_id (intermediate_certificate policy)) = 32" by (simp add: cert_ok_def cert_arrays_def)
  from lookup_found [OF st this] have "chain_valid (env\<lparr>env_verify := v\<rparr>) policy now"
    by (simp add: assms(3,4) chain_valid_def anchors split: prod.split)
  then show ?thesis using trust assms(3) by (simp add: trust_ok_def package_signer_def)
qed

theorem level_two_signer_unchecked_witness:
  "let env = demo_env ((ascii ''t/intermediate.cert'', cert_wire demo_imposter) # demo_trust)
   in \<exists>policy. alrios_supervisor_policy_startup_with_trust env PROFILE_SOVEREIGN_MAX (Some (ascii ''t'')) = (ALRIOS_POLICY_OK, Some policy) \<and>
      intermediate_certificate policy = demo_imposter \<and> \<not> in_window 1000 demo_imposter \<and>
      chain_valid (env\<lparr>env_verify := demo_verifier\<lparr>ed25519_verify := (\<lambda>k s m. False)\<rparr>\<rparr>) policy 1000"
proof -
  let ?fs = "(ascii ''t/intermediate.cert'', cert_wire demo_imposter) # demo_trust"
  obtain policy where policy: "alrios_supervisor_policy_startup_with_trust (demo_env ?fs) 1 (Some (ascii ''t'')) = (ALRIOS_POLICY_OK, Some policy)"
      "trust_level policy = 2" "intermediate_certificate policy = demo_imposter" "root_certificate policy = demo_cert"
    using demo_started [of ?fs "Some demo_imposter" 1] demo_imposter_ok(1-3) by (auto simp: demo_trust_def ascii_def)
  from level_two_signer_unchecked [OF policy(1) _ policy(2), of "demo_verifier\<lparr>ed25519_verify := (\<lambda>k s m. False)\<rparr>" 1000]
  show ?thesis using policy demo_imposter_ok(4,6) by (auto simp: profile_codes)
qed

end
