(* ===== verification/Spec2Isabelle.thy ===== *)
theory Spec2Isabelle
  imports EventWire EventBrokerSpec Sha512 SecurityEpochSpec AuditSpec DrainSpec PsiSpec PackageIndexSpec IndexWriterSpec
    GuestRouterSpec IssuerSpec ManifestCanonSpec ArappV2Spec SupervisorPolicySpec
begin

text \<open>
  Verification of the core libraries of ALRIOS.

  \<^bold>\<open>The program.\<close> ALRIOS is a supervisor and microservice platform in C. Its daemons
  (\<open>src/daemons\<close>) are loops around libraries (\<open>src/libraries\<close>), and the libraries hold the
  logic: \<open>ar_eventd\<close> routes events between principals with the event broker, \<open>ar_auditd\<close>
  appends to and verifies a hash-chained log, \<open>ar_chronod\<close> keeps the security epoch and
  watches the clocks, \<open>ar_resourced\<close> reads the kernel's memory-pressure files and warns or
  sheds applications, the deployer drains connections before it replaces a process, and the
  package code writes and parses signed indexes and checks installed directories against them,
  the public-key infrastructure issues certificates and verifies chains against a store of
  trusted roots, the supervisor decides by its sealed profile which packages may be launched,
  and it talks to its guests through authenticated datagram channels
  that a router multiplexes. The development models these libraries whole, one group of theories each. File names
  below are relative to \<open>src/\<close> of the repository, headers to \<open>include/alrios/\<close>.

  \<^bold>\<open>Shared theories.\<close>
  \<^item> \<open>Prelude\<close>: machine types (\<open>u8\<close> to \<open>u64\<close> are words, so arithmetic wraps), buffers as byte
    lists with \<open>memcpy\<close> and \<open>memset\<close> as \<open>memwrite\<close> and \<open>zeros\<close>, named collections of facts.
  \<^item> \<open>ByteOrder\<close>: the big-endian helpers every wire format repeats, and the locale
    \<open>be_codec\<close> (fixed width, load inverts store), interpreted for 16, 32 and 64 bits.
  \<^item> \<open>RingFifo\<close>: circular buffers and the locale \<open>bounded_fifo\<close>, the contract of a queue that
    is full at its capacity, with the laws of the two overflow rules proved in it.
  \<^item> \<open>SealedRecord\<close>: the locale \<open>sealed_record\<close>, a self-delimiting record format with an
    integrity check; a log of such records determines its records. The epoch record, the
    audit block and the certificate interpret it.
  \<^item> \<open>KeyedStore\<close>: the locale \<open>keyed_store\<close>, a store searched by a key that no two of its
    elements share. The sealed trust store interprets it.
  \<^item> \<open>PosixFile\<close>: one open file description with content, offset, access mode and advisory
    lock. The answers of the kernel (how far a transfer gets, \<open>EINTR\<close>, a failure) are a list
    that the calls consume, the script; behind its end every call succeeds in full. A theorem
    for all scripts holds for every finite sequence of disturbances.
  \<^item> \<open>QSort\<close>: \<open>qsort\<close> and the locale \<open>c_comparison\<close>, what the C library demands of a comparison
    function; a list without equal elements is sorted, an ascending one unchanged. The entries of
    the package index and the members of a manifest interpret it.
  \<^item> \<open>CString\<close>: NUL-terminated strings, \<open>strcmp\<close>, decimal digits.

  \<^bold>\<open>Event broker\<close> (\<open>libraries/events/broker.c\<close>, \<open>events/broker.h\<close>). \<open>EventBroker\<close> translates
  every operation. Handles are addresses in a store of brokers and subscriptions; a call on
  an address that is not live has no result, which is how use after free shows. The
  authorisation callback is an argument, each allocation's outcome is an argument.
  \<open>EventBrokerLaws\<close> proves that the subscriber queue is a \<open>bounded_fifo\<close>, and the store
  invariant for every reachable store (\<open>event_step\<close>, \<open>event_reachable\<close>). \<open>EventBrokerSpec\<close>
  proves quotas, defined calls, delivery as a refinement of lists, first in first
  out, order of sequence numbers, the overflow rules, no effect without consent. \<open>EventWire\<close>
  is the 116 byte header of the event protocol, with its round trip and canonical form.

  \<^bold>\<open>SHA-512\<close> (\<open>libraries/crypto/sha512.c\<close>). \<open>Sha512\<close> translates the engine down to the
  round function and proves that streaming in any pieces, and the one-shot
  interface, compute the padded iteration of the transform over the whole message.

  \<^bold>\<open>Security epoch\<close> (\<open>libraries/policy/security_epoch.c\<close>). \<open>SecurityEpoch\<close> translates the
  record, its tag (HMAC by a parameter, or the modelled SHA-512 without a key), the wire
  image, the locked file operations, the time monitor and the two gates;
  \<open>SecurityEpochLaws\<close> and \<open>SecurityEpochSpec\<close> prove: the stored epoch never goes
  back, round trip and authenticity of the record, revocation is permanent along every run
  of advances, the monitor reports every backward step beyond its threshold, and transfers
  are exact under every script.

  \<^bold>\<open>Audit chain\<close> (\<open>libraries/audit/hash_chain.c\<close>). \<open>AuditChain\<close> translates block format,
  positioned transfers, lock, scan, recovery and append with rollback. \<open>AuditChainLaws\<close>
  gives the canonical image of a block and of a chain, \<open>AuditScan\<close> what the scan has
  established at each step for every script, \<open>AuditSpec\<close> the properties: verification accepts
  exactly chains and changes nothing, recovery removes nothing but an incomplete tail, an
  append leaves a chain whatever fails, the last hash commits to the log, and on an
  undisturbed file verification and append succeed.

  \<^bold>\<open>Connection drain\<close> (\<open>libraries/deploy/drain.c\<close>). \<open>Drain\<close> translates the tracker; each
  section under the spin lock is one atomic step, and other threads' steps may come between
  (\<open>drain_step\<close>). The waits read clock values and other threads' steps from a list of turns.
  \<open>DrainSpec\<close> proves: the counters agree with the table in every run, no stream
  is admitted once draining has begun, the wait ends by its deadline, and the process watcher
  sends TERM before KILL and returns.

  \<^bold>\<open>Memory pressure\<close> (\<open>libraries/resources/psi.c\<close>). \<open>Psi\<close> translates parser, reader,
  classification, selection, the insertion sort on indices and the notification loop;
  \<open>PsiParse\<close> gives the exact language of the parser; \<open>PsiSpec\<close> states the contract
  between sort and comparison as the locale \<open>priority_order\<close> and proves: workers
  are told in stable priority order, shedding picks the first best candidate, protected
  processes are never named.

  \<^bold>\<open>Package index\<close> (\<open>libraries/package/index.c\<close>). \<open>PackageIndex\<close> translates the path rules,
  the parser with digest and signature check, and the walk over a directory tree (a finite
  tree of directories, files, links and other nodes); \<open>PackageIndexSpec\<close> proves:
  the valid paths, the accepted images byte for byte, what a verified directory contains, and
  that an intact directory verifies.

  \<^bold>\<open>Package index writer\<close> (\<open>libraries/package/index_writer.c\<close>). \<open>IndexWriter\<close> translates the
  directory walk, the growing entry table, sorting, encoding, signing, the replacement of the
  output file through a temporary file, and the key files; \<open>IndexWriterSpec\<close> proves against the
  reader's theorems that a written index lists exactly the directory, that the directory
  verifies against it, that writing succeeds on admissible trees, and that the output file is
  replaced as a whole or not at all.

  \<^bold>\<open>Guest channel\<close> (\<open>libraries/ipc/guest_channel.c\<close>). \<open>GuestChannel\<close> translates the framing. A
  socket is the list of datagrams it was given, the list that waits, and scripts of answers to
  \<open>sendmsg\<close>, \<open>recvmsg\<close> and \<open>poll\<close>; a datagram carries the credentials the kernel attached.
  \<open>GuestChannelSpec\<close> proves that a sent message arrives unchanged, that only frames of accepted
  senders with a valid header are handed out, and that a refused frame is removed.

  \<^bold>\<open>Guest router\<close> (\<open>libraries/supervisor/guest_router.c\<close>). \<open>GuestRouter\<close> translates the table of
  guests, their circular queues, the flood policies and the dispatch loop, whose handler may
  call the router again. \<open>GuestRouterSpec\<close> interprets \<open>bounded_fifo\<close> for the queue and proves:
  accepted messages are given to the socket without loss or reordering under every script,
  the table is consistent in every run (\<open>router_run\<close>, handlers included), a flush delivers
  everything when the socket has room, and a message the channel refuses, which the router
  accepts behind a queued one, blocks its guest for ever.

  \<^bold>\<open>Certificates and trust store\<close> (\<open>libraries/pki/certificate.c\<close>, \<open>pki/certificate.h\<close>).
  \<open>Certificate\<close> translates validation, both directions of the wire format, the bytes a signature
  covers, the key identifier (with the modelled SHA-512) and the trust store; \<open>CertificateLaws\<close>
  gives the canonical image and proves that encoder and decoder agree on it; \<open>CertificateSpec\<close>
  proves that decoding accepts exactly the images of valid certificates, that the signed bytes
  fix everything but the signature, and that a store holds valid roots with distinct keys and
  never changes once sealed (\<open>store_run\<close>).

  \<^bold>\<open>Issuer\<close> (\<open>libraries/pki/issuer.c\<close>). \<open>Issuer\<close> translates the three issuing functions and the
  verification of a chain; key generation, random bytes, clock, signing and signature checks are
  parameters. \<open>IssuerSpec\<close> characterises the accepted chains and proves that issuing succeeds and
  that what is issued verifies against a store with the issued root.

  \<^bold>\<open>Canonical manifests\<close> (\<open>libraries/pki/manifest_canon.c\<close>). \<open>ManifestCanon\<close> translates the JSON
  parser, the comparison of keys by UTF-16 units and the writer; the parser's termination rests
  on lemmas that each of its functions consumes input. \<open>ManifestText\<close> characterises UTF-8 and proves
  the encoder of code points right, \<open>ManifestOrder\<close> that the comparison is an order and may be given
  to \<open>qsort\<close>, \<open>ManifestPrint\<close> that the writer writes the text of a value (\<open>json_text\<close>) and the parser
  reads it back, \<open>ManifestCanonSpec\<close> that the parser yields well-formed values only (\<open>json_ok\<close>), that
  canonical texts are stable and decide equality of values, and that strings without an end are
  accepted.

  \<^bold>\<open>ARAPP v2 packages\<close> (\<open>libraries/package/arapp_v2_reader.c\<close>, \<open>arapp_v2_signatures.c\<close>).
  \<open>ArappV2\<close> translates the validation of the envelope, which canonicalises the manifest and
  compares, and the signing and checking of the two signatures. \<open>ArappV2Spec\<close> proves that
  validation accepts exactly the images of well-formed packages, that signing writes into its slot
  only and hybrid verification accepts what was signed, and what that verification establishes.

  \<^bold>\<open>Profiles and supervisor policy\<close> (\<open>libraries/policy/profiles.c\<close>, \<open>libraries/supervisor/policy.c\<close>).
  \<open>Profiles\<close> translates the profile tables and the parser of profile names and characterises its
  language. \<open>SupervisorPolicy\<close> composes packages, certificates and profiles as the code does:
  start up, the trust directory, the decision on a package file. \<open>SupervisorPolicySpec\<close> proves what
  start up establishes (\<open>sealed_with\<close>, \<open>trust_ok\<close>), that a sovereign node launches exactly the
  hybrid-signed packages of a trusted signer, that the profile is sealed, and two weaknesses: the
  intermediate certificate of trust level two is not checked, and a developer-ring package is
  launched once its signatures are removed.

  \<^bold>\<open>Parameters.\<close> HMAC-SHA-512, SHA-256, Ed25519 and ML-DSA-65 (OpenSSL), the rounding of \<open>strtod\<close>,
  addresses returned by \<open>malloc\<close> and its failures, clock readings and the answers of the
  kernel are arguments of the definitions. Nothing is assumed of them but what a theorem
  states as a hypothesis.

  \<^bold>\<open>Bounds and termination.\<close> Loops over buffers and arrays are structural recursion or have
  a termination proof with a measure. Loops that wait for the world (interrupted calls,
  polling) recurse over the finite list of answers that world gives; that they return within
  it is proved, with the hypothesis that the clock reaches the
  deadline where the code waits for a deadline. Sizes are \<open>nat\<close> where the code has checked
  them against a limit and words where a comparison or sum could wrap.

  \<^bold>\<open>Not modelled.\<close> Erasure of stack memory, Windows variants of helpers, and the memory
  model below the C11 atomics. The loaders, sandbox, installers, command-line tools and the
  daemons' main loops are system calls and user interface around the libraries. Cryptographic
  providers call libraries that are not in the repository. The vault store,
  the notary, the package builder and the zip reader have logic of their own and are left out: they
  rest on AES-GCM, deflate or sockets throughout.
\<close>

end
